(* ===== verification/Prelude.thy ===== *)
theory Prelude
  imports Main "HOL-Library.Multiset"
begin

section \<open>Prelude: JavaScript values and list lemmas shared by the components\<close>

text \<open>
  What every component theory uses: the development's collections of facts, the
  JavaScript string operations the modelled code calls (\<open>trim\<close>, \<open>split\<close>,
  \<open>includes\<close>, \<open>join\<close>, decimal rendering and \<open>parseInt\<close> on digits), results that may
  be an error, and generic lemmas on lists.

  A JavaScript string is a list of code units. Where the code only inspects ASCII the
  type is \<open>string\<close> (a list of \<open>char\<close>, the code units below 256). JavaScript numbers
  that the code keeps integral (epoch milliseconds, counters, micro-dollars) are \<open>int\<close>
  or \<open>nat\<close>; the doubles represent them exactly below \<open>2^53\<close>.
\<close>

named_theorems js_defs \<open>definitions of JavaScript library operations\<close>
named_theorems result_simps \<open>rewriting of results that may be an error\<close>

subsection \<open>Results\<close>

text \<open>A throwing function returns \<open>Inl\<close> of the error or \<open>Inr\<close> of its value.\<close>

type_synonym ('e, 'a) result = "'e + 'a"

definition bind_result :: "('e, 'a) result \<Rightarrow> ('a \<Rightarrow> ('e, 'b) result) \<Rightarrow> ('e, 'b) result" where
  "bind_result r f = (case r of Inl e \<Rightarrow> Inl e | Inr a \<Rightarrow> f a)"

lemma bind_result_simps [simp]:
  "bind_result (Inl e) f = Inl e"
  "bind_result (Inr a) f = f a"
  by (simp_all add: bind_result_def)

lemma bind_result_eq_Inr [result_simps]:
  "bind_result r f = Inr b \<longleftrightarrow> (\<exists>a. r = Inr a \<and> f a = Inr b)"
  by (cases r) auto

lemma bind_result_eq_Inl [result_simps]:
  "bind_result r f = Inl e \<longleftrightarrow> r = Inl e \<or> (\<exists>a. r = Inr a \<and> f a = Inl e)"
  by (cases r) auto

text \<open>A loop over a list that stops at the first error (\<open>for\<close>, \<open>map\<close> with a throwing body).\<close>

fun map_result :: "('a \<Rightarrow> ('e, 'b) result) \<Rightarrow> 'a list \<Rightarrow> ('e, 'b list) result" where
  "map_result f [] = Inr []"
| "map_result f (x # xs) =
     bind_result (f x) (\<lambda>y. bind_result (map_result f xs) (\<lambda>ys. Inr (y # ys)))"

lemma map_result_Inr:
  "map_result f xs = Inr ys \<longleftrightarrow> list_all2 (\<lambda>x y. f x = Inr y) xs ys"
proof (induction xs arbitrary: ys)
  case Nil
  then show ?case by (cases ys) auto
next
  case (Cons x xs)
  then show ?case by (cases ys) (auto simp: result_simps)
qed

lemma map_result_length: "map_result f xs = Inr ys \<Longrightarrow> length ys = length xs"
  by (auto simp: map_result_Inr list_all2_lengthD)

fun fold_result :: "('a \<Rightarrow> 's \<Rightarrow> ('e, 's) result) \<Rightarrow> 'a list \<Rightarrow> 's \<Rightarrow> ('e, 's) result" where
  "fold_result f [] s = Inr s"
| "fold_result f (x # xs) s = bind_result (f x s) (fold_result f xs)"

lemma fold_result_invariant:
  assumes "fold_result f xs s = Inr t"
    and "P s"
    and "\<And>x s t. x \<in> set xs \<Longrightarrow> P s \<Longrightarrow> f x s = Inr t \<Longrightarrow> P t"
  shows "P t"
  using assms
proof (induction xs arbitrary: s)
  case Nil
  then show ?case by simp
next
  case (Cons x xs)
  from Cons.prems(1) obtain u where u: "f x s = Inr u" "fold_result f xs u = Inr t"
    by (auto simp: result_simps)
  have "P u" using Cons.prems(2) u(1) by (rule Cons.prems(3) [rotated]) simp
  then show ?case using Cons.IH [OF u(2)] Cons.prems(3) by auto
qed

text \<open>\<open>v ?? d\<close>, and the first of two values that is there (\<open>COALESCE\<close>).\<close>

definition or_default :: "'a \<Rightarrow> 'a option \<Rightarrow> 'a" where
  "or_default d v = (case v of None \<Rightarrow> d | Some x \<Rightarrow> x)"

fun or_else :: "'a option \<Rightarrow> 'a option \<Rightarrow> 'a option" where
  "or_else None w = w"
| "or_else (Some x) w = Some x"

lemma or_default_simps [simp]: "or_default d None = d" "or_default d (Some x) = x"
  by (simp_all add: or_default_def)

subsection \<open>Tables\<close>

text \<open>
  A SQL table with a primary key as an association list: \<open>INSERT ... ON CONFLICT DO UPDATE\<close>,
  \<open>UPDATE ... WHERE key = ?\<close>, \<open>DELETE\<close> and \<open>COUNT(*)\<close>.
\<close>

definition update_row :: "'k \<Rightarrow> ('r \<Rightarrow> 'r) \<Rightarrow> ('k \<times> 'r) list \<Rightarrow> ('k \<times> 'r) list" where
  "update_row k f t = map (\<lambda>(k', r). (k', if k' = k then f r else r)) t"

definition upsert_row :: "'k \<Rightarrow> 'r \<Rightarrow> ('r \<Rightarrow> 'r) \<Rightarrow> ('k \<times> 'r) list \<Rightarrow> ('k \<times> 'r) list" where
  "upsert_row k new f t = (case map_of t k of None \<Rightarrow> t @ [(k, new)] | Some _ \<Rightarrow> update_row k f t)"

definition delete_row :: "'k \<Rightarrow> ('k \<times> 'r) list \<Rightarrow> ('k \<times> 'r) list" where
  "delete_row k t = filter (\<lambda>(k', r). k' \<noteq> k) t"

definition delete_where :: "('k \<Rightarrow> 'r \<Rightarrow> bool) \<Rightarrow> ('k \<times> 'r) list \<Rightarrow> ('k \<times> 'r) list" where
  "delete_where P t = filter (\<lambda>(k, r). \<not> P k r) t"

definition count_where :: "('r \<Rightarrow> bool) \<Rightarrow> ('k \<times> 'r) list \<Rightarrow> int" where
  "count_where P t = int (length (filter (\<lambda>(k, r). P r) t))"

lemma map_of_update_row [simp]:
  "map_of (update_row k f t) k' = (if k' = k then map_option f (map_of t k) else map_of t k')"
  by (induction t) (auto simp: update_row_def)

lemma map_of_upsert_row [simp]:
  "map_of (upsert_row k new f t) k' =
     (if k' = k then Some (case map_of t k of None \<Rightarrow> new | Some r \<Rightarrow> f r) else map_of t k')"
  by (auto simp: upsert_row_def map_add_def split: option.splits)

lemma map_of_delete_row [simp]:
  "map_of (delete_row k t) k' = (if k' = k then None else map_of t k')"
  by (induction t) (auto simp: delete_row_def)

lemma keys_update_row [simp]: "map fst (update_row k f t) = map fst t"
  by (simp add: update_row_def comp_def case_prod_unfold)

lemma distinct_upsert_row:
  "distinct (map fst t) \<Longrightarrow> distinct (map fst (upsert_row k new f t))"
  by (auto simp: upsert_row_def map_of_eq_None_iff split: option.splits)

lemma distinct_filter_keys: "distinct (map fst t) \<Longrightarrow> distinct (map fst (filter P t))"
  by (induction t) auto

lemma map_of_delete_where:
  "distinct (map fst t) \<Longrightarrow>
   map_of (delete_where P t) k =
     (case map_of t k of None \<Rightarrow> None | Some r \<Rightarrow> if P k r then None else Some r)"
  by (induction t) (auto simp: delete_where_def map_of_eq_None_iff split: option.splits)

subsection \<open>Strings\<close>

text \<open>
  The white space and line terminators of ECMAScript below code unit 256, which \<open>trim\<close>
  removes and \<open>\s\<close> matches: tab to carriage return, space, no-break space.
\<close>

definition is_js_space :: "char \<Rightarrow> bool" where
  "is_js_space c \<longleftrightarrow> c \<in> set [CHR 0x20, CHR 0x09, CHR 0x0A, CHR 0x0B, CHR 0x0C, CHR 0x0D, CHR 0xA0]"

definition js_trim :: "string \<Rightarrow> string" where
  "js_trim s = rev (dropWhile is_js_space (rev (dropWhile is_js_space s)))"

text \<open>\<open>s.toLowerCase()\<close> below code unit 256.\<close>

definition lower_char :: "char \<Rightarrow> char" where
  "lower_char c =
     (let n = (of_char c :: nat)
      in if (65 \<le> n \<and> n \<le> 90) \<or> (192 \<le> n \<and> n \<le> 222 \<and> n \<noteq> 215) then char_of (n + 32) else c)"

definition js_lower :: "string \<Rightarrow> string" where
  "js_lower s = map lower_char s"

text \<open>\<open>s.replace(/\s+/g, " ")\<close>: each maximal run of white space becomes one space.\<close>

function collapse_spaces :: "string \<Rightarrow> string" where
  "collapse_spaces [] = []"
| "collapse_spaces (c # cs) =
     (if is_js_space c then CHR '' '' # collapse_spaces (dropWhile is_js_space cs)
      else c # collapse_spaces cs)"
  by pat_completeness auto
termination
  by (relation "measure length") (auto simp: le_imp_less_Suc length_dropWhile_le)

text \<open>\<open>s.split(c)\<close> for a separator of one code unit, and \<open>ps.join(sep)\<close>.\<close>

fun split_on :: "'a \<Rightarrow> 'a list \<Rightarrow> 'a list list" where
  "split_on c [] = [[]]"
| "split_on c (x # xs) =
     (if x = c then [] # split_on c xs
      else case split_on c xs of [] \<Rightarrow> [[x]] | p # ps \<Rightarrow> (x # p) # ps)"

fun join :: "'a list \<Rightarrow> 'a list list \<Rightarrow> 'a list" where
  "join sep [] = []"
| "join sep [p] = p"
| "join sep (p # q # ps) = p @ sep @ join sep (q # ps)"

lemma split_on_not_Nil [simp]: "split_on c s \<noteq> []"
  by (induction s) (auto split: list.splits)

lemma join_split_on: "join [c] (split_on c s) = s"
proof (induction s)
  case Nil
  then show ?case by simp
next
  case (Cons x xs)
  obtain p ps where ps: "split_on c xs = p # ps"
    by (cases "split_on c xs") auto
  with Cons.IH show ?case by (cases ps) auto
qed

lemma split_on_append:
  "c \<notin> set p \<Longrightarrow> split_on c (p @ c # s) = p # split_on c s"
  by (induction p) auto

lemma split_on_free: "c \<notin> set p \<Longrightarrow> split_on c p = [p]"
  by (induction p) auto

lemma split_on_join:
  "ps \<noteq> [] \<Longrightarrow> \<forall>p \<in> set ps. c \<notin> set p \<Longrightarrow> split_on c (join [c] ps) = ps"
  by (induction "[c]" ps rule: join.induct) (auto simp: split_on_free split_on_append)

lemma split_on_parts_free: "p \<in> set (split_on c s) \<Longrightarrow> c \<notin> set p"
  by (induction s arbitrary: p) (auto split: if_splits list.splits)

lemma set_join: "set (join sep ps) \<subseteq> set sep \<union> \<Union> (set ` set ps)"
  by (induction sep ps rule: join.induct) auto

lemma join_snoc: "ps \<noteq> [] \<Longrightarrow> join sep (ps @ [p]) = join sep ps @ sep @ p"
  by (induction sep ps rule: join.induct) auto

lemma rev_join: "rev (join sep ps) = join (rev sep) (rev (map rev ps))"
proof (induction sep ps rule: join.induct)
  case (3 sep p q ps)
  then show ?case
    using join_snoc [of "rev (map rev ps) @ [rev q]" "rev sep" "rev p"] by simp
qed simp_all

lemma js_trim_id: "\<forall>c \<in> set s. \<not> is_js_space c \<Longrightarrow> js_trim s = s"
proof -
  assume a: "\<forall>c \<in> set s. \<not> is_js_space c"
  have "dropWhile is_js_space t = t" if "\<forall>c \<in> set t. \<not> is_js_space c" for t
    using that by (cases t) auto
  from this [of s] this [of "rev s"] a show ?thesis by (simp add: js_trim_def)
qed

lemma js_trim_subset: "set (js_trim s) \<subseteq> set s"
  by (auto simp: js_trim_def dest!: set_dropWhileD)

lemma collapse_spaces_id:
  "\<forall>c \<in> set s. is_js_space c \<longrightarrow> c = CHR '' '' \<Longrightarrow>
   (\<forall>i < length s - 1. is_js_space (s ! i) \<longrightarrow> \<not> is_js_space (s ! Suc i)) \<Longrightarrow>
   collapse_spaces s = s"
proof (induction s rule: collapse_spaces.induct)
  case 1
  then show ?case by simp
next
  case (2 c cs)
  have tl: "\<forall>i < length cs - 1. is_js_space (cs ! i) \<longrightarrow> \<not> is_js_space (cs ! Suc i)"
    using "2.prems"(2) by (auto dest: spec [where x = "Suc _"])
  show ?case
  proof (cases "is_js_space c")
    case True
    have "dropWhile is_js_space cs = cs"
      using "2.prems"(2) True by (cases cs) (auto dest: spec [where x = 0])
    with True "2.IH"(1) "2.prems" tl show ?thesis by auto
  next
    case False
    with "2.IH"(2) "2.prems" tl show ?thesis by auto
  qed
qed

subsection \<open>Decimal numerals\<close>

definition is_digit :: "char \<Rightarrow> bool" where
  "is_digit c \<longleftrightarrow> 48 \<le> (of_char c :: nat) \<and> (of_char c :: nat) \<le> 57"

definition digit_char :: "nat \<Rightarrow> char" where
  "digit_char d = char_of (48 + d)"

definition digit_value :: "char \<Rightarrow> nat" where
  "digit_value c = of_char c - 48"

text \<open>\<open>String(n)\<close> of a non-negative integer, and \<open>Number.parseInt\<close> of a string of digits.\<close>

fun show_nat :: "nat \<Rightarrow> string" where
  "show_nat n = (if n < 10 then [digit_char n] else show_nat (n div 10) @ [digit_char (n mod 10)])"

declare show_nat.simps [simp del]

definition parse_nat :: "string \<Rightarrow> nat" where
  "parse_nat s = foldl (\<lambda>a c. a * 10 + digit_value c) 0 s"

lemma of_char_digit_char: "d < 10 \<Longrightarrow> (of_char (digit_char d) :: nat) = 48 + d"
  by (simp add: digit_char_def)

lemma digit_value_digit_char: "d < 10 \<Longrightarrow> digit_value (digit_char d) = d"
  by (simp add: digit_value_def of_char_digit_char)

lemma is_digit_digit_char: "d < 10 \<Longrightarrow> is_digit (digit_char d)"
  by (simp add: is_digit_def of_char_digit_char)

lemma show_nat_digits: "\<forall>c \<in> set (show_nat n). is_digit c"
proof (induction n rule: show_nat.induct)
  case (1 n)
  show ?case
  proof (cases "n < 10")
    case True
    then show ?thesis by (simp add: show_nat.simps [of n] is_digit_digit_char)
  next
    case False
    with "1.IH" show ?thesis by (simp add: show_nat.simps [of n] is_digit_digit_char)
  qed
qed

lemma show_nat_not_Nil [simp]: "show_nat n \<noteq> []"
  by (subst show_nat.simps) simp

lemma parse_show_nat: "parse_nat (show_nat n) = n"
proof (induction n rule: show_nat.induct)
  case (1 n)
  show ?case
  proof (cases "n < 10")
    case True
    then show ?thesis
      by (simp add: show_nat.simps [of n] parse_nat_def digit_value_digit_char)
  next
    case False
    with "1.IH" show ?thesis
      by (simp add: show_nat.simps [of n] parse_nat_def digit_value_digit_char)
  qed
qed

lemma is_digit_not_space: "is_digit c \<Longrightarrow> \<not> is_js_space c"
  by (auto simp: is_digit_def is_js_space_def)

lemma is_digit_neq:
  "is_digit c \<Longrightarrow> c \<noteq> CHR '',''" "is_digit c \<Longrightarrow> c \<noteq> CHR ''/''"
  "is_digit c \<Longrightarrow> c \<noteq> CHR ''-''" "is_digit c \<Longrightarrow> c \<noteq> CHR ''*''"
  "is_digit c \<Longrightarrow> c \<noteq> CHR '' ''" "is_digit c \<Longrightarrow> c \<noteq> CHR '':''"
  by (auto simp: is_digit_def)

end
