(* ===== verification/Calendar.thy ===== *)
theory Calendar
  imports Prelude
begin

section \<open>UTC dates of ECMAScript\<close>

text \<open>
  The time arithmetic behind the \<open>Date\<close> methods that \<open>cron-schedule.ts\<close> calls
  (ECMA-262, section 21.4.1): a time value is a number of milliseconds since the epoch, and
  year, month, day, weekday, hour and minute are functions of it. The lemmas show that the
  month of a day number is the interval between two month starts that holds it
  (\<open>month_index_bounds\<close>, \<open>month_index_unique\<close>) and the constructor \<open>make_day\<close> is
  linear in the day. Time values beyond ECMAScript's range (about 275,000 years) are
  not distinguished from valid ones.
\<close>

named_theorems date_defs \<open>definitions of the Date operations\<close>

abbreviation ms_per_minute :: int where "ms_per_minute \<equiv> 60000"
abbreviation ms_per_hour :: int where "ms_per_hour \<equiv> 3600000"
abbreviation ms_per_day :: int where "ms_per_day \<equiv> 86400000"

subsection \<open>Days, years and months\<close>

definition day :: "int \<Rightarrow> int" where
  "day t = t div ms_per_day"

definition time_within_day :: "int \<Rightarrow> int" where
  "time_within_day t = t mod ms_per_day"

definition leap_year :: "int \<Rightarrow> bool" where
  "leap_year y \<longleftrightarrow> y mod 4 = 0 \<and> (y mod 100 \<noteq> 0 \<or> y mod 400 = 0)"

definition day_from_year :: "int \<Rightarrow> int" where
  "day_from_year y =
     365 * (y - 1970) + (y - 1969) div 4 - (y - 1901) div 100 + (y - 1601) div 400"

text \<open>
  The specification's year of a day is the largest year that starts on or before it. The
  mean Gregorian year gives an estimate, which is at most one year off.
\<close>

definition year_estimate :: "int \<Rightarrow> int" where
  "year_estimate d = 1970 + (400 * d) div 146097"

definition year_from_day :: "int \<Rightarrow> int" where
  "year_from_day d =
     (let y = year_estimate d
      in if d < day_from_year y then y - 1
         else if day_from_year (y + 1) \<le> d then y + 1 else y)"

text \<open>Days of a year before the first of a month, counted from month 0.\<close>

definition month_offset :: "bool \<Rightarrow> int \<Rightarrow> int" where
  "month_offset leap m =
     (let l = (if leap then 1 else 0) in
      if m \<le> 0 then 0 else if m = 1 then 31 else if m = 2 then 59 + l
      else if m = 3 then 90 + l else if m = 4 then 120 + l else if m = 5 then 151 + l
      else if m = 6 then 181 + l else if m = 7 then 212 + l else if m = 8 then 243 + l
      else if m = 9 then 273 + l else if m = 10 then 304 + l
      else if m = 11 then 334 + l else 365 + l)"

definition month_in_year :: "bool \<Rightarrow> int \<Rightarrow> int" where
  "month_in_year leap d =
     (if d < month_offset leap 1 then 0 else if d < month_offset leap 2 then 1
      else if d < month_offset leap 3 then 2 else if d < month_offset leap 4 then 3
      else if d < month_offset leap 5 then 4 else if d < month_offset leap 6 then 5
      else if d < month_offset leap 7 then 6 else if d < month_offset leap 8 then 7
      else if d < month_offset leap 9 then 8 else if d < month_offset leap 10 then 9
      else if d < month_offset leap 11 then 10 else 11)"

text \<open>Months are numbered through all years: month \<open>m\<close> of year \<open>y\<close> is \<open>12 * y + m\<close>.\<close>

definition month_start :: "int \<Rightarrow> int" where
  "month_start k = day_from_year (k div 12) + month_offset (leap_year (k div 12)) (k mod 12)"

definition month_index :: "int \<Rightarrow> int" where
  "month_index d =
     (let y = year_from_day d in 12 * y + month_in_year (leap_year y) (d - day_from_year y))"

subsection \<open>The \<open>Date\<close> accessors and setters\<close>

definition getUTCFullYear :: "int \<Rightarrow> int" where
  "getUTCFullYear t = month_index (day t) div 12"

definition getUTCMonth :: "int \<Rightarrow> int" where
  "getUTCMonth t = month_index (day t) mod 12"

definition getUTCDate :: "int \<Rightarrow> int" where
  "getUTCDate t = day t - month_start (month_index (day t)) + 1"

text \<open>The epoch, day 0, is a Thursday; Sunday is 0.\<close>

definition getUTCDay :: "int \<Rightarrow> int" where
  "getUTCDay t = (day t + 4) mod 7"

definition getUTCHours :: "int \<Rightarrow> int" where
  "getUTCHours t = time_within_day t div ms_per_hour"

definition getUTCMinutes :: "int \<Rightarrow> int" where
  "getUTCMinutes t = time_within_day t mod ms_per_hour div ms_per_minute"

text \<open>\<open>MakeDay\<close>: an out-of-range month carries into the year, an out-of-range date into the month.\<close>

definition make_day :: "int \<Rightarrow> int \<Rightarrow> int \<Rightarrow> int" where
  "make_day y m dt = month_start (12 * y + m) + dt - 1"

definition make_time :: "int \<Rightarrow> int \<Rightarrow> int \<Rightarrow> int \<Rightarrow> int" where
  "make_time h m s ms = h * ms_per_hour + m * ms_per_minute + s * 1000 + ms"

definition make_date :: "int \<Rightarrow> int \<Rightarrow> int" where
  "make_date d time = d * ms_per_day + time"

definition setUTCFullYear :: "int \<Rightarrow> int \<Rightarrow> int \<Rightarrow> int \<Rightarrow> int" where
  "setUTCFullYear t y m dt = make_date (make_day y m dt) (time_within_day t)"

definition setUTCMonth :: "int \<Rightarrow> int \<Rightarrow> int \<Rightarrow> int" where
  "setUTCMonth t m dt = make_date (make_day (getUTCFullYear t) m dt) (time_within_day t)"

definition setUTCDate :: "int \<Rightarrow> int \<Rightarrow> int" where
  "setUTCDate t dt =
     make_date (make_day (getUTCFullYear t) (getUTCMonth t) dt) (time_within_day t)"

definition setUTCHours :: "int \<Rightarrow> int \<Rightarrow> int \<Rightarrow> int \<Rightarrow> int \<Rightarrow> int" where
  "setUTCHours t h m s ms = make_date (day t) (make_time h m s ms)"

definition setUTCMinutes :: "int \<Rightarrow> int \<Rightarrow> int \<Rightarrow> int \<Rightarrow> int" where
  "setUTCMinutes t m s ms = make_date (day t) (make_time (getUTCHours t) m s ms)"

lemmas date_accessors [date_defs] =
  getUTCFullYear_def getUTCMonth_def getUTCDate_def getUTCDay_def getUTCHours_def getUTCMinutes_def

subsection \<open>Years\<close>

lemma int_div_bounds:
  fixes x n :: int
  assumes "0 < n"
  shows "n * (x div n) \<le> x" "x < n * (x div n) + n"
proof -
  have "x = n * (x div n) + x mod n" by simp
  moreover have "0 \<le> x mod n" "x mod n < n" using assms by simp_all
  ultimately show "n * (x div n) \<le> x" "x < n * (x div n) + n" by linarith+
qed

lemma int_div_unique:
  fixes x n q :: int
  assumes "n * q \<le> x" "x < n * q + n"
  shows "x div n = q"
proof -
  have "0 < n" using assms by linarith
  moreover have "x = n * q + (x - n * q)" by simp
  ultimately show ?thesis using assms
    by (metis add.commute add_diff_cancel_left' diff_ge_0_iff_ge div_mult_self2 div_pos_pos_trivial
        less_diff_eq add_0 less_irrefl mult.commute)
qed

lemma int_mod_split:
  fixes b j q r :: int
  assumes "b * q + r \<le> j" "j < b * (q + 1)" "0 \<le> r" "0 < b"
  shows "r \<le> j mod b" "j mod b < b" "j = b * q + j mod b"
proof -
  have d: "j div b = q"
    using assms by (intro int_div_unique) (simp_all add: distrib_left)
  show "j = b * q + j mod b" using d mult_div_mod_eq [of b j] by simp
  then show "r \<le> j mod b" using assms(1) by linarith
  show "j mod b < b" using assms(4) by simp
qed

lemma div_step:
  fixes x n :: int
  assumes "0 < n"
  shows "(x + 1) div n - x div n = (if (x + 1) mod n = 0 then 1 else 0)"
proof (cases "x + 1 = n * (x div n) + n")
  case True
  then have "(x + 1) mod n = 0" by (metis mod_mult_self1_is_0 mult_mod_right mult.right_neutral
    distrib_left)
  moreover have "(x + 1) div n = x div n + 1"
    using True assms by (intro int_div_unique) (simp_all add: algebra_simps)
  ultimately show ?thesis by simp
next
  case False
  with int_div_bounds [OF assms, of x] have "x + 1 < n * (x div n) + n" by linarith
  moreover have "n * (x div n) < x + 1" using int_div_bounds(1) [OF assms, of x] by linarith
  moreover from calculation have "(x + 1) div n = x div n" by (intro int_div_unique) simp_all
  moreover have "(x + 1) mod n = (x + 1) - n * ((x + 1) div n)"
    by (simp add: minus_mult_div_eq_mod)
  ultimately show ?thesis by simp
qed

lemma day_from_year_Suc:
  "day_from_year (y + 1) = day_from_year y + (if leap_year y then 366 else 365)"
proof -
  have q: "(y - 1969 + 1) div 4 - (y - 1969) div 4 = (if y mod 4 = 0 then 1 else 0)"
  proof -
    have "(y - 1969 + 1) mod 4 = y mod 4" by (simp add: mod_eq_dvd_iff)
    then show ?thesis using div_step [of 4 "y - 1969"] by simp
  qed
  have c: "(y - 1901 + 1) div 100 - (y - 1901) div 100 = (if y mod 100 = 0 then 1 else 0)"
  proof -
    have "(y - 1901 + 1) mod 100 = y mod 100" by (simp add: mod_eq_dvd_iff)
    then show ?thesis using div_step [of 100 "y - 1901"] by simp
  qed
  have g: "(y - 1601 + 1) div 400 - (y - 1601) div 400 = (if y mod 400 = 0 then 1 else 0)"
  proof -
    have "(y - 1601 + 1) mod 400 = y mod 400" by (simp add: mod_eq_dvd_iff)
    then show ?thesis using div_step [of 400 "y - 1601"] by simp
  qed
  have i: "y mod 400 = 0 \<Longrightarrow> y mod 100 = 0" "y mod 100 = 0 \<Longrightarrow> y mod 4 = 0"
    by (auto simp: mod_eq_0_iff_dvd elim: dvd_trans [rotated])
  have "day_from_year (y + 1) - day_from_year y =
      365 + ((y - 1969 + 1) div 4 - (y - 1969) div 4)
          - ((y - 1901 + 1) div 100 - (y - 1901) div 100)
          + ((y - 1601 + 1) div 400 - (y - 1601) div 400)"
    by (simp add: day_from_year_def algebra_simps)
  then show ?thesis unfolding q c g leap_year_def
    using i by (cases "y mod 4 = 0"; cases "y mod 100 = 0"; cases "y mod 400 = 0") simp_all
qed

lemma day_from_year_bounds:
  "146097 * (y - 1970) - 506 \<le> 400 * day_from_year y"
  "400 * day_from_year y \<le> 146097 * (y - 1970) + 589"
proof -
  define q c g where "q = (y - 1969) div 4" and "c = (y - 1901) div 100" and "g = (y - 1601) div 400"
  have "4 * q \<le> y - 1969" "y - 1969 < 4 * q + 4" "100 * c \<le> y - 1901" "y - 1901 < 100 * c + 100"
    "400 * g \<le> y - 1601" "y - 1601 < 400 * g + 400"
    unfolding q_def c_def g_def by (rule int_div_bounds, simp)+
  note b = this
  have d: "day_from_year y = 365 * (y - 1970) + q - c + g"
    by (simp add: day_from_year_def q_def c_def g_def)
  show "146097 * (y - 1970) - 506 \<le> 400 * day_from_year y"
    unfolding d using b by (simp add: algebra_simps)
  show "400 * day_from_year y \<le> 146097 * (y - 1970) + 589"
    unfolding d using b by (simp add: algebra_simps)
qed

lemma year_from_day_bounds:
  "day_from_year (year_from_day d) \<le> d" "d < day_from_year (year_from_day d + 1)"
proof -
  let ?y = "year_estimate d"
  have e: "146097 * (?y - 1970) \<le> 400 * d" "400 * d < 146097 * (?y - 1970) + 146097"
    using int_div_bounds [of 146097 "400 * d"] by (simp_all add: year_estimate_def)
  have lo: "day_from_year (?y - 1) \<le> d"
    using day_from_year_bounds(2) [of "?y - 1"] e(1) by (simp add: algebra_simps)
  have hi: "d < day_from_year (?y + 2)"
    using day_from_year_bounds(1) [of "?y + 2"] e(2) by (simp add: algebra_simps)
  show "day_from_year (year_from_day d) \<le> d"
    using lo by (simp add: year_from_day_def Let_def)
  show "d < day_from_year (year_from_day d + 1)"
    using hi by (simp add: year_from_day_def Let_def add.commute)
qed

subsection \<open>Months\<close>

lemma month_cases:
  "0 \<le> m \<Longrightarrow> m < 12 \<Longrightarrow>
   m \<in> {0, 1, 2, 3, 4, 5, 6, 7, 8, 9, 10, 11 :: int}"
  by (simp only: insert_iff empty_iff) presburger

lemma month_offset_step:
  "0 \<le> m \<Longrightarrow> m < 12 \<Longrightarrow>
   month_offset l m + 28 \<le> month_offset l (m + 1) \<and> month_offset l (m + 1) \<le> month_offset l m + 31"
  by (drule (1) month_cases) (auto simp: month_offset_def)

lemma month_carry:
  fixes k :: int
  shows "k mod 12 = 11 \<Longrightarrow> (k + 1) div 12 = k div 12 + 1" "k mod 12 = 11 \<Longrightarrow> (k + 1) mod 12 = 0"
    "k mod 12 \<noteq> 11 \<Longrightarrow> (k + 1) div 12 = k div 12" "k mod 12 \<noteq> 11 \<Longrightarrow> (k + 1) mod 12 = k mod 12 + 1"
proof -
  have k: "k = 12 * (k div 12) + k mod 12" "0 \<le> k mod 12" "k mod 12 < 12" by simp_all
  show c: "(k + 1) div 12 = k div 12 + 1" if "k mod 12 = 11"
  proof (rule int_div_unique)
    show "12 * (k div 12 + 1) \<le> k + 1" "k + 1 < 12 * (k div 12 + 1) + 12"
      unfolding distrib_left using k that by linarith+
  qed
  show "(k + 1) mod 12 = 0" if "k mod 12 = 11"
    using k that c [OF that] by (simp add: minus_mult_div_eq_mod [symmetric])
  show d: "(k + 1) div 12 = k div 12" if "k mod 12 \<noteq> 11"
    using k that by (intro int_div_unique) linarith+
  show "(k + 1) mod 12 = k mod 12 + 1" if "k mod 12 \<noteq> 11"
    using k that d [OF that] by (simp add: minus_mult_div_eq_mod [symmetric])
qed

lemma month_start_Suc:
  "month_start (k + 1) =
   day_from_year (k div 12) + month_offset (leap_year (k div 12)) (k mod 12 + 1)"
  by (cases "k mod 12 = 11")
    (simp_all add: month_start_def month_carry day_from_year_Suc month_offset_def)

lemma month_start_step:
  "month_start k + 28 \<le> month_start (k + 1)" "month_start (k + 1) \<le> month_start k + 31"
  unfolding month_start_Suc
  using month_offset_step [of "k mod 12" "leap_year (k div 12)"] by (simp_all add: month_start_def)

lemma month_start_mono: "j \<le> k \<Longrightarrow> month_start j \<le> month_start k"
proof (induction k rule: int_ge_induct)
  case base
  then show ?case by simp
next
  case (step k)
  with month_start_step(1) [of k] show ?case by linarith
qed

lemma month_start_less_iff: "month_start j < month_start k \<longleftrightarrow> j < k"
proof
  show "month_start j < month_start k \<Longrightarrow> j < k"
    using month_start_mono [of k j] by linarith
  assume "j < k"
  then have "month_start (j + 1) \<le> month_start k" by (intro month_start_mono) simp
  with month_start_step(1) [of j] show "month_start j < month_start k" by linarith
qed

lemma month_in_year_bounds:
  assumes "0 \<le> d" "d < month_offset l 12"
  shows "0 \<le> month_in_year l d \<and> month_in_year l d < 12 \<and>
    month_offset l (month_in_year l d) \<le> d \<and> d < month_offset l (month_in_year l d + 1)"
  using assms unfolding month_in_year_def
  by (cases l) (simp_all add: month_offset_def)

lemma month_index_bounds:
  "month_start (month_index d) \<le> d" "d < month_start (month_index d + 1)"
proof -
  define y where "y = year_from_day d"
  define m where "m = month_in_year (leap_year y) (d - day_from_year y)"
  have "day_from_year (y + 1) - day_from_year y = month_offset (leap_year y) 12"
    by (simp add: day_from_year_Suc month_offset_def)
  then have "0 \<le> d - day_from_year y" "d - day_from_year y < month_offset (leap_year y) 12"
    using year_from_day_bounds [of d] unfolding y_def by linarith+
  from month_in_year_bounds [OF this, folded m_def]
  have m: "0 \<le> m" "m < 12" "month_offset (leap_year y) m \<le> d - day_from_year y"
    "d - day_from_year y < month_offset (leap_year y) (m + 1)" by simp_all
  have k: "month_index d = 12 * y + m"
    by (simp add: month_index_def Let_def y_def m_def)
  then have "month_index d div 12 = y" "month_index d mod 12 = m"
    using m(1,2) by simp_all
  then have s: "month_start (month_index d) = day_from_year y + month_offset (leap_year y) m"
    by (simp add: month_start_def)
  show "month_start (month_index d) \<le> d" using s m(3) by simp
  show "d < month_start (month_index d + 1)"
    unfolding month_start_Suc \<open>month_index d div 12 = y\<close> \<open>month_index d mod 12 = m\<close>
    using m(4) by simp
qed

lemma month_index_unique:
  "month_start k \<le> d \<Longrightarrow> d < month_start (k + 1) \<Longrightarrow> month_index d = k"
  using month_index_bounds [of d] month_start_less_iff [of "month_index d" "k + 1"]
    month_start_less_iff [of k "month_index d + 1"]
  by linarith

lemma month_index_ge: "month_start k \<le> d \<Longrightarrow> k \<le> month_index d"
  using month_index_bounds(2) [of d] month_start_less_iff [of k "month_index d + 1"] by linarith

lemma month_index_less: "d < month_start k \<Longrightarrow> month_index d < k"
  using month_index_bounds(1) [of d] month_start_less_iff [of "month_index d" k] by linarith


subsection \<open>Units of time\<close>

text \<open>
  Minutes, hours, days and months are counted through all times. What a search over times
  needs of such a unit is one law: a time is at or after the start of unit \<open>k\<close> exactly
  when its own unit is \<open>k\<close> or later. The four units of the calendar satisfy it.
\<close>

definition hour_index :: "int \<Rightarrow> int" where
  "hour_index t = t div ms_per_hour"

definition minute_index :: "int \<Rightarrow> int" where
  "minute_index t = t div ms_per_minute"

locale time_unit =
  fixes unit_of :: "int \<Rightarrow> int"
    and start :: "int \<Rightarrow> int"
  assumes start_le_iff: "start k \<le> t \<longleftrightarrow> k \<le> unit_of t"
begin

lemma less_start_iff: "t < start k \<longleftrightarrow> unit_of t < k"
  using start_le_iff [of k t] by linarith

lemma unit_of_mono: "t \<le> u \<Longrightarrow> unit_of t \<le> unit_of u"
  using start_le_iff [of "unit_of t" t] start_le_iff [of "unit_of t" u] by linarith

lemma forward: "unit_of t < k \<Longrightarrow> t < start k"
  by (simp add: less_start_iff)

text \<open>Nothing is lost by jumping over units that a predicate rejects.\<close>

lemma skip:
  assumes "\<And>j. unit_of t \<le> j \<Longrightarrow> j < k \<Longrightarrow> \<not> P j" and "t \<le> u" and "u < start k"
  shows "\<not> P (unit_of u)"
  using assms by (simp add: less_start_iff unit_of_mono)

end

lemma div_time_unit: "0 < n \<Longrightarrow> n * k \<le> t \<longleftrightarrow> k \<le> t div (n :: int)"
proof -
  assume n: "0 < n"
  show ?thesis
  proof
    assume "n * k \<le> t"
    then have "n * k div n \<le> t div n" by (rule zdiv_mono1 [OF _ n])
    with n show "k \<le> t div n" by simp
  next
    assume "k \<le> t div n"
    then have "n * k \<le> n * (t div n)" using n by simp
    with int_div_bounds(1) [OF n, of t] show "n * k \<le> t" by linarith
  qed
qed

interpretation minutes: time_unit minute_index "\<lambda>k. ms_per_minute * k"
  by unfold_locales (simp add: minute_index_def div_time_unit)

interpretation hours: time_unit hour_index "\<lambda>k. ms_per_hour * k"
  by unfold_locales (simp add: hour_index_def div_time_unit)

interpretation days: time_unit day "\<lambda>k. ms_per_day * k"
  by unfold_locales (simp add: day_def div_time_unit)

interpretation months: time_unit "\<lambda>t. month_index (day t)" "\<lambda>k. ms_per_day * month_start k"
proof unfold_locales
  fix k t
  have "ms_per_day * month_start k \<le> t \<longleftrightarrow> month_start k \<le> day t"
    by (simp add: day_def div_time_unit)
  also have "\<dots> \<longleftrightarrow> k \<le> month_index (day t)"
    using month_index_ge month_index_less by (meson not_le)
  finally show "ms_per_day * month_start k \<le> t \<longleftrightarrow> k \<le> month_index (day t)" .
qed

lemma day_hour_index: "day t = hour_index t div 24"
  by (simp add: day_def hour_index_def zdiv_zmult2_eq [symmetric])

lemma hour_minute_index: "hour_index t = minute_index t div 60"
  by (simp add: minute_index_def hour_index_def zdiv_zmult2_eq [symmetric])

lemma hours_index: "getUTCHours t = hour_index t mod 24"
  using zmod_zmult2_eq [of 24 t ms_per_hour]
  by (simp add: getUTCHours_def time_within_day_def hour_index_def)

lemma minutes_index: "getUTCMinutes t = minute_index t mod 60"
proof -
  have "time_within_day t mod ms_per_hour = t mod ms_per_hour"
    by (simp add: time_within_day_def mod_mod_cancel)
  then show ?thesis
    using zmod_zmult2_eq [of 60 t ms_per_minute]
    by (simp add: getUTCMinutes_def minute_index_def)
qed

lemma date_bounds:
  "0 \<le> getUTCMonth t" "getUTCMonth t < 12" "1 \<le> getUTCDate t" "getUTCDate t \<le> 31"
  "0 \<le> getUTCDay t" "getUTCDay t < 7" "0 \<le> getUTCHours t" "getUTCHours t < 24"
  "0 \<le> getUTCMinutes t" "getUTCMinutes t < 60"
  using month_index_bounds [of "day t"] month_start_step(2) [of "month_index (day t)"]
  by (simp_all add: getUTCMonth_def getUTCDate_def getUTCDay_def hours_index minutes_index)

subsection \<open>The setters as starts of units\<close>

lemma day_make_date: "0 \<le> tm \<Longrightarrow> tm < ms_per_day \<Longrightarrow> day (make_date d tm) = d"
  unfolding day_def make_date_def by (rule int_div_unique) simp_all

lemma time_within_day_bounds: "0 \<le> time_within_day t" "time_within_day t < ms_per_day"
  by (simp_all add: time_within_day_def)

lemma midnight_after_setUTCMonth:
  "setUTCHours (setUTCMonth t m 1) 0 0 0 0 = ms_per_day * month_start (12 * getUTCFullYear t + m)"
  by (simp add: setUTCHours_def setUTCMonth_def day_make_date time_within_day_bounds make_day_def
      make_date_def [of _ 0] make_time_def)

lemma midnight_after_setUTCFullYear:
  "setUTCHours (setUTCFullYear t y m 1) 0 0 0 0 = ms_per_day * month_start (12 * y + m)"
  by (simp add: setUTCHours_def setUTCFullYear_def day_make_date time_within_day_bounds make_day_def
      make_date_def [of _ 0] make_time_def)

lemma day_setUTCDate_next: "day (setUTCDate t (getUTCDate t + 1)) = day t + 1"
  by (simp add: setUTCDate_def day_make_date time_within_day_bounds make_day_def
      getUTCFullYear_def getUTCMonth_def getUTCDate_def)

lemma setUTCHours_start: "setUTCHours t h 0 0 0 = ms_per_hour * (24 * day t + h)"
  by (simp add: setUTCHours_def make_date_def make_time_def)

lemma setUTCHours_minute_start:
  "setUTCHours t h m 0 0 = ms_per_minute * (60 * (24 * day t + h) + m)"
  by (simp add: setUTCHours_def make_date_def make_time_def)

lemma setUTCMinutes_start: "setUTCMinutes t m 0 0 = ms_per_minute * (60 * hour_index t + m)"
proof -
  have "hour_index t = 24 * day t + getUTCHours t"
    by (simp add: day_hour_index hours_index)
  then show ?thesis
    by (simp add: setUTCMinutes_def make_date_def make_time_def)
qed

end
