(* ===== verification/CronSchedule.thy ===== *)
theory CronSchedule
  imports Calendar
begin

section \<open>Cron expressions and their next run (\<open>cron-schedule.ts\<close>)\<close>

text \<open>
  The parser of five-field cron expressions, the test whether a time matches one, and the
  search for the next matching minute, with its jumps over months, days, hours and minutes
  that cannot match. Times are UTC epoch milliseconds. The parser's \<open>throw\<close>s are values of
  \<open>cron_error\<close>; the search loop is a \<open>function\<close> whose termination rests on the fact
  that every jump moves strictly forward.
\<close>

named_theorems cron_defs \<open>definitions of the cron parser\<close>

subsection \<open>Data\<close>

record ParsedCronField =
  raw :: string
  field_values :: "bool list"
  wildcard :: bool

record ParsedCronExpression =
  expression :: string
  minute :: ParsedCronField
  hour :: ParsedCronField
  dayOfMonth :: ParsedCronField
  month :: ParsedCronField
  dayOfWeek :: ParsedCronField

datatype cron_error =
    InvalidValue string string
  | MissingField string
  | InvalidToken string string
  | InvalidStep string string
  | InvalidRange string string
  | OutOfRange string string
  | NoValuesSelected string
  | NoAllowedValues
  | InvalidExpression string

abbreviation MINUTE_MS :: int where "MINUTE_MS \<equiv> 60 * 1000"

definition SEARCH_WINDOW_MS :: int where
  "SEARCH_WINDOW_MS = 5 * 366 * 24 * 60 * 60 * 1000"

subsection \<open>The parser\<close>

definition parseInteger :: "string \<Rightarrow> string \<Rightarrow> (cron_error, nat) result" where
  "parseInteger v fieldName =
     (if v \<noteq> [] \<and> list_all is_digit v then Inr (parse_nat v) else Inl (InvalidValue fieldName v))"

definition createValueArray :: "nat \<Rightarrow> bool list" where
  "createValueArray mx = replicate (mx + 1) False"

text \<open>The start, end and step of one token of a field, with the token's checks in the code's order.\<close>

definition parse_range :: "nat \<Rightarrow> nat \<Rightarrow> string \<Rightarrow> string \<Rightarrow> (cron_error, nat \<times> nat) result" where
  "parse_range mn mx fieldName basePart =
     (if basePart = ''*'' then Inr (mn, mx)
      else if CHR ''-'' \<in> set basePart then
        (case split_on (CHR ''-'') basePart of
           [rawStart, rawEnd] \<Rightarrow>
             (if rawStart = [] \<or> rawEnd = [] then Inl (InvalidRange fieldName basePart)
              else bind_result (parseInteger rawStart fieldName) (\<lambda>rangeStart.
                   bind_result (parseInteger rawEnd fieldName) (\<lambda>rangeEnd.
                   if rangeStart > rangeEnd then Inl (InvalidRange fieldName basePart)
                   else Inr (rangeStart, rangeEnd))))
         | _ \<Rightarrow> Inl (InvalidRange fieldName basePart))
      else bind_result (parseInteger basePart fieldName) (\<lambda>rangeStart. Inr (rangeStart, rangeStart)))"

definition parse_token :: "nat \<Rightarrow> nat \<Rightarrow> string \<Rightarrow> string \<Rightarrow> (cron_error, nat \<times> nat \<times> nat) result" where
  "parse_token mn mx fieldName token =
     (let parts = split_on (CHR ''/'') token in
      if length parts > 2 then Inl (InvalidToken fieldName token)
      else
        let basePart = hd parts; stepPart = (if length parts = 2 then parts ! 1 else []) in
        bind_result (if stepPart \<noteq> [] then parseInteger stepPart (fieldName @ '' step'') else Inr 1) (\<lambda>step.
        if step \<le> 0 then Inl (InvalidStep fieldName stepPart)
        else bind_result (parse_range mn mx fieldName basePart) (\<lambda>(rangeStart, rangeEnd).
             if rangeStart < mn \<or> rangeEnd > mx then Inl (OutOfRange fieldName token)
             else Inr (rangeStart, rangeEnd, step))))"

text \<open>
  The \<open>for\<close> loop that selects \<open>rangeStart, rangeStart + step, \<dots>\<close>; the parser calls it
  with a positive step only, which the first conjunct of the guard records.
\<close>

function mark_values :: "bool \<Rightarrow> nat \<Rightarrow> nat \<Rightarrow> nat \<Rightarrow> bool list \<Rightarrow> bool list" where
  "mark_values seven v rangeEnd step vs =
     (if 0 < step \<and> v \<le> rangeEnd
      then mark_values seven (v + step) rangeEnd step
             (vs[(if seven \<and> v = 7 then 0 else v) := True])
      else vs)"
  by pat_completeness auto
termination
  by (relation "measure (\<lambda>(seven, v, rangeEnd, step, vs). Suc rangeEnd - v)") auto

declare mark_values.simps [simp del]

definition parse_tokens ::
  "nat \<Rightarrow> nat \<Rightarrow> string \<Rightarrow> bool \<Rightarrow> string \<Rightarrow> string list \<Rightarrow> bool list \<Rightarrow> (cron_error, bool list) result" where
  "parse_tokens mn mx fieldName seven field =
     fold_result (\<lambda>rawToken vs.
       let token = js_trim rawToken in
       if token = [] then Inl (InvalidToken fieldName field)
       else bind_result (parse_token mn mx fieldName token) (\<lambda>(rangeStart, rangeEnd, step).
            Inr (mark_values seven rangeStart rangeEnd step vs)))"

definition parseCronField ::
  "string \<Rightarrow> nat \<Rightarrow> nat \<Rightarrow> string \<Rightarrow> bool \<Rightarrow> (cron_error, ParsedCronField) result" where
  "parseCronField rawField mn mx fieldName allowSevenAsSunday =
     (let field = js_trim rawField in
      if field = [] then Inl (MissingField fieldName)
      else
        let tokens = split_on (CHR '','') field in
        if length tokens = 0 then Inl (InvalidToken fieldName field)
        else bind_result
          (parse_tokens mn mx fieldName allowSevenAsSunday field tokens (createValueArray mx)) (\<lambda>vs.
          if \<not> list_ex (\<lambda>b. b) vs then Inl (NoValuesSelected fieldName)
          else Inr \<lparr>raw = field, field_values = vs, wildcard = (field = ''*'')\<rparr>))"

definition parseCronExpression :: "string \<Rightarrow> (cron_error, ParsedCronExpression) result" where
  "parseCronExpression expr =
     (let normalized = collapse_spaces (js_trim expr) in
      case split_on (CHR '' '') normalized of
        [minuteRaw, hourRaw, domRaw, monthRaw, dowRaw] \<Rightarrow>
          bind_result (parseCronField minuteRaw 0 59 ''minute'' False) (\<lambda>mi.
          bind_result (parseCronField hourRaw 0 23 ''hour'' False) (\<lambda>ho.
          bind_result (parseCronField domRaw 1 31 ''day-of-month'' False) (\<lambda>dom.
          bind_result (parseCronField monthRaw 1 12 ''month'' False) (\<lambda>mo.
          bind_result (parseCronField dowRaw 0 7 ''day-of-week'' True) (\<lambda>dow.
          Inr \<lparr>expression = normalized, minute = mi, hour = ho, dayOfMonth = dom,
               month = mo, dayOfWeek = dow\<rparr>)))))
      | _ \<Rightarrow> Inl (InvalidExpression expr))"

lemmas cron_parser_defs [cron_defs] =
  parseInteger_def createValueArray_def parse_range_def parse_token_def parse_tokens_def
  parseCronField_def parseCronExpression_def

subsection \<open>Matching a time\<close>

text \<open>\<open>values[v]\<close>: reading past the array gives \<open>undefined\<close>, which counts as false.\<close>

definition value_at :: "bool list \<Rightarrow> int \<Rightarrow> bool" where
  "value_at vs v \<longleftrightarrow> 0 \<le> v \<and> nat v < length vs \<and> vs ! nat v"

function getNextAllowed :: "bool list \<Rightarrow> int \<Rightarrow> int \<Rightarrow> int option" where
  "getNextAllowed vs v mx =
     (if v \<le> mx then (if value_at vs v then Some v else getNextAllowed vs (v + 1) mx) else None)"
  by pat_completeness auto
termination
  by (relation "measure (\<lambda>(vs, v, mx). nat (mx + 1 - v))") auto

declare getNextAllowed.simps [simp del]

definition getFirstAllowed :: "bool list \<Rightarrow> int \<Rightarrow> int \<Rightarrow> (cron_error, int) result" where
  "getFirstAllowed vs mn mx =
     (case getNextAllowed vs mn mx of None \<Rightarrow> Inl NoAllowedValues | Some v \<Rightarrow> Inr v)"

definition toNextMinute :: "int \<Rightarrow> int" where
  "toNextMinute fromMs = fromMs div MINUTE_MS * MINUTE_MS + MINUTE_MS"

definition matchesDay :: "ParsedCronExpression \<Rightarrow> int \<Rightarrow> bool" where
  "matchesDay parsed date =
     (let domMatches = value_at (field_values (dayOfMonth parsed)) (getUTCDate date);
          dowMatches = value_at (field_values (dayOfWeek parsed)) (getUTCDay date) in
      if wildcard (dayOfMonth parsed) \<and> wildcard (dayOfWeek parsed) then True
      else if wildcard (dayOfMonth parsed) then dowMatches
      else if wildcard (dayOfWeek parsed) then domMatches
      else domMatches \<or> dowMatches)"

definition matchesCronExpression :: "ParsedCronExpression \<Rightarrow> int \<Rightarrow> bool" where
  "matchesCronExpression parsed atMs =
     (if \<not> value_at (field_values (month parsed)) (getUTCMonth atMs + 1) then False
      else if \<not> value_at (field_values (hour parsed)) (getUTCHours atMs) then False
      else if \<not> value_at (field_values (minute parsed)) (getUTCMinutes atMs) then False
      else matchesDay parsed atMs)"

subsection \<open>The jumps\<close>

definition jumpToNextAllowedMonth :: "ParsedCronExpression \<Rightarrow> int \<Rightarrow> (cron_error, int) result" where
  "jumpToNextAllowedMonth parsed current =
     (let currentMonth = getUTCMonth current + 1 in
      case getNextAllowed (field_values (month parsed)) (currentMonth + 1) 12 of
        Some nextMonthThisYear \<Rightarrow>
          Inr (setUTCHours (setUTCMonth current (nextMonthThisYear - 1) 1) 0 0 0 0)
      | None \<Rightarrow>
          bind_result (getFirstAllowed (field_values (month parsed)) 1 12) (\<lambda>firstMonth.
          Inr (setUTCHours (setUTCFullYear current (getUTCFullYear current + 1) (firstMonth - 1) 1)
                 0 0 0 0)))"

definition jumpToNextDay :: "int \<Rightarrow> int" where
  "jumpToNextDay date = setUTCHours (setUTCDate date (getUTCDate date + 1)) 0 0 0 0"

definition jumpToNextAllowedHour :: "ParsedCronExpression \<Rightarrow> int \<Rightarrow> (cron_error, int) result" where
  "jumpToNextAllowedHour parsed current =
     (let currentHour = getUTCHours current in
      case getNextAllowed (field_values (hour parsed)) (currentHour + 1) 23 of
        Some nextHour \<Rightarrow> Inr (setUTCHours current nextHour 0 0 0)
      | None \<Rightarrow>
          bind_result (getFirstAllowed (field_values (hour parsed)) 0 23) (\<lambda>firstHour.
          Inr (setUTCHours (setUTCDate current (getUTCDate current + 1)) firstHour 0 0 0)))"

definition jumpToNextAllowedMinute :: "ParsedCronExpression \<Rightarrow> int \<Rightarrow> (cron_error, int) result" where
  "jumpToNextAllowedMinute parsed current =
     (let currentMinute = getUTCMinutes current in
      case getNextAllowed (field_values (minute parsed)) (currentMinute + 1) 59 of
        Some nextMinute \<Rightarrow> Inr (setUTCMinutes current nextMinute 0 0)
      | None \<Rightarrow>
          bind_result (getFirstAllowed (field_values (minute parsed)) 0 59) (\<lambda>firstMinute.
          Inr (setUTCHours current (getUTCHours current + 1) firstMinute 0 0)))"

lemma getNextAllowed_Some:
  "getNextAllowed vs s mx = Some v \<Longrightarrow>
   s \<le> v \<and> v \<le> mx \<and> value_at vs v \<and> (\<forall>w. s \<le> w \<and> w < v \<longrightarrow> \<not> value_at vs w)"
proof (induction vs s mx rule: getNextAllowed.induct)
  case (1 vs s mx)
  show ?case
  proof (cases "s \<le> mx \<and> \<not> value_at vs s")
    case True
    with "1.prems" have "getNextAllowed vs (s + 1) mx = Some v"
      by (simp add: getNextAllowed.simps [of vs s mx])
    with "1.IH" True show ?thesis by (metis add1_zle_eq order_less_le)
  next
    case False
    with "1.prems" show ?thesis
      by (auto simp: getNextAllowed.simps [of vs s mx] split: if_splits)
  qed
qed

lemma getNextAllowed_None:
  "getNextAllowed vs s mx = None \<longleftrightarrow> (\<forall>w. s \<le> w \<and> w \<le> mx \<longrightarrow> \<not> value_at vs w)"
proof (induction vs s mx rule: getNextAllowed.induct)
  case (1 vs s mx)
  show ?case
  proof (cases "s \<le> mx \<and> \<not> value_at vs s")
    case True
    with "1.IH" have "getNextAllowed vs s mx = None \<longleftrightarrow>
        (\<forall>w. s + 1 \<le> w \<and> w \<le> mx \<longrightarrow> \<not> value_at vs w)"
      by (simp add: getNextAllowed.simps [of vs s mx])
    with True show ?thesis by (metis add1_zle_eq order_less_le)
  next
    case False
    then show ?thesis
      by (auto simp: getNextAllowed.simps [of vs s mx])
  qed
qed

text \<open>
  The three jumps are one operation on units counted through all times: the next unit
  after \<open>i\<close> whose value within its cycle of \<open>b\<close> is allowed (months of the year, hours of
  the day, minutes of the hour; \<open>offset\<close> is the field's first value).
\<close>

definition next_unit :: "bool list \<Rightarrow> int \<Rightarrow> int \<Rightarrow> int \<Rightarrow> (cron_error, int) result" where
  "next_unit vs offset b i =
     (case getNextAllowed vs (i mod b + offset + 1) (b - 1 + offset) of
        Some v \<Rightarrow> Inr (b * (i div b) + (v - offset))
      | None \<Rightarrow> bind_result (getFirstAllowed vs offset (b - 1 + offset)) (\<lambda>v.
          Inr (b * (i div b + 1) + (v - offset))))"

lemma next_unit_skips:
  assumes nu: "next_unit vs offset b i = Inr k" and b: "0 < b"
  shows "i < k" "i < j \<Longrightarrow> j < k \<Longrightarrow> \<not> value_at vs (j mod b + offset)"
proof -
  let ?q = "i div b" and ?r = "i mod b"
  have i: "i = b * ?q + ?r" "0 \<le> ?r" "?r < b" using b by simp_all
  have "i < k \<and> (i < j \<longrightarrow> j < k \<longrightarrow> \<not> value_at vs (j mod b + offset))"
  proof (cases "getNextAllowed vs (?r + offset + 1) (b - 1 + offset)")
    case (Some v)
    note v = getNextAllowed_Some [OF Some]
    from nu Some have k: "k = b * ?q + (v - offset)" by (simp add: next_unit_def)
    have "\<not> value_at vs (j mod b + offset)" if j: "i < j" "j < k"
    proof -
      have "b * ?q + (?r + 1) \<le> j" "j < b * (?q + 1)"
        using i j k v unfolding distrib_left by linarith+
      note m = int_mod_split [OF this _ b]
      then show ?thesis using v i j k by auto
    qed
    moreover have "i < k" using i k v by linarith
    ultimately show ?thesis by blast
  next
    case None
    with nu obtain v where "getFirstAllowed vs offset (b - 1 + offset) = Inr v"
      and k: "k = b * (?q + 1) + (v - offset)"
      by (auto simp: next_unit_def result_simps)
    then have "getNextAllowed vs offset (b - 1 + offset) = Some v"
      by (simp add: getFirstAllowed_def split: option.splits)
    note v = getNextAllowed_Some [OF this]
    have "\<not> value_at vs (j mod b + offset)" if j: "i < j" "j < k"
    proof (cases "j < b * (?q + 1)")
      case True
      have "b * ?q + (?r + 1) \<le> j" using i j by linarith
      note m = int_mod_split [OF this True _ b]
      then show ?thesis using None i by (auto simp: getNextAllowed_None)
    next
      case False
      have "b * (?q + 1) + 0 \<le> j" "j < b * (?q + 1 + 1)"
        using False j k v unfolding distrib_left by linarith+
      note m = int_mod_split [OF this _ b]
      then show ?thesis using v j k by auto
    qed
    moreover have "i < k" using i k v unfolding distrib_left by linarith
    ultimately show ?thesis by blast
  qed
  then show "i < k" "i < j \<Longrightarrow> j < k \<Longrightarrow> \<not> value_at vs (j mod b + offset)" by blast+
qed

lemma jumpToNextAllowedMonth_unit:
  "jumpToNextAllowedMonth p t =
   bind_result (next_unit (field_values (month p)) 1 12 (month_index (day t)))
     (\<lambda>k. Inr (ms_per_day * month_start k))"
  by (auto simp: jumpToNextAllowedMonth_def next_unit_def Let_def midnight_after_setUTCMonth
      midnight_after_setUTCFullYear getUTCMonth_def getUTCFullYear_def algebra_simps bind_result_def
      split: option.splits sum.splits)

lemma jumpToNextAllowedHour_unit:
  "jumpToNextAllowedHour p t =
   bind_result (next_unit (field_values (hour p)) 0 24 (hour_index t)) (\<lambda>k. Inr (ms_per_hour * k))"
  by (auto simp: jumpToNextAllowedHour_def next_unit_def Let_def setUTCHours_start
      day_setUTCDate_next [unfolded day_hour_index] hours_index day_hour_index bind_result_def
      split: option.splits sum.splits)

lemma jumpToNextAllowedMinute_unit:
  "jumpToNextAllowedMinute p t =
   bind_result (next_unit (field_values (minute p)) 0 60 (minute_index t))
     (\<lambda>k. Inr (ms_per_minute * k))"
proof -
  have h: "24 * day t + (getUTCHours t + 1) = minute_index t div 60 + 1"
    by (simp add: hours_index day_hour_index flip: hour_minute_index)
  show ?thesis
    by (auto simp: jumpToNextAllowedMinute_def next_unit_def Let_def setUTCHours_minute_start
        setUTCMinutes_start minutes_index h hour_minute_index bind_result_def
        split: option.splits sum.splits)
qed

lemma jumpToNextDay_unit: "jumpToNextDay t = ms_per_day * (day t + 1)"
  using setUTCHours_start [of "setUTCDate t (getUTCDate t + 1)" 0]
  by (simp add: jumpToNextDay_def day_setUTCDate_next)


subsection \<open>The search for the next run\<close>

lemma jump_month_forward: "jumpToNextAllowedMonth p t = Inr c \<Longrightarrow> t < c"
  unfolding jumpToNextAllowedMonth_unit bind_result_eq_Inr
  by (elim exE conjE) (drule next_unit_skips(1), simp, drule months.forward, simp)

lemma jump_hour_forward: "jumpToNextAllowedHour p t = Inr c \<Longrightarrow> t < c"
  unfolding jumpToNextAllowedHour_unit bind_result_eq_Inr
  by (elim exE conjE) (drule next_unit_skips(1), simp, drule hours.forward, simp)

lemma jump_minute_forward: "jumpToNextAllowedMinute p t = Inr c \<Longrightarrow> t < c"
  unfolding jumpToNextAllowedMinute_unit bind_result_eq_Inr
  by (elim exE conjE) (drule next_unit_skips(1), simp, drule minutes.forward, simp)

lemma jump_day_forward: "t < jumpToNextDay t"
  unfolding jumpToNextDay_unit by (rule days.forward) simp

text \<open>The \<open>while\<close> loop of \<open>getNextCronRunAt\<close>.\<close>

function next_run_loop ::
  "ParsedCronExpression \<Rightarrow> int \<Rightarrow> int \<Rightarrow> (cron_error, int option) result" where
  "next_run_loop parsed limit candidate =
     (if candidate \<le> limit then
        (if \<not> value_at (field_values (month parsed)) (getUTCMonth candidate + 1) then
           (case jumpToNextAllowedMonth parsed candidate of
              Inl e \<Rightarrow> Inl e | Inr c \<Rightarrow> next_run_loop parsed limit c)
         else if \<not> matchesDay parsed candidate then
           next_run_loop parsed limit (jumpToNextDay candidate)
         else if \<not> value_at (field_values (hour parsed)) (getUTCHours candidate) then
           (case jumpToNextAllowedHour parsed candidate of
              Inl e \<Rightarrow> Inl e | Inr c \<Rightarrow> next_run_loop parsed limit c)
         else if \<not> value_at (field_values (minute parsed)) (getUTCMinutes candidate) then
           (case jumpToNextAllowedMinute parsed candidate of
              Inl e \<Rightarrow> Inl e | Inr c \<Rightarrow> next_run_loop parsed limit c)
         else if matchesCronExpression parsed candidate then Inr (Some candidate)
         else next_run_loop parsed limit (candidate + MINUTE_MS))
      else Inr None)"
  by pat_completeness auto
termination
  by (relation "measure (\<lambda>(p, limit, c). nat (limit + 1 - c))")
    (auto dest: jump_month_forward jump_hour_forward jump_minute_forward simp: jump_day_forward)

declare next_run_loop.simps [simp del]

definition getNextCronRunAt :: "ParsedCronExpression \<Rightarrow> int \<Rightarrow> (cron_error, int option) result" where
  "getNextCronRunAt parsed fromMs =
     next_run_loop parsed (fromMs + SEARCH_WINDOW_MS) (toNextMinute fromMs)"

definition getCronMinimumIntervalMs :: "ParsedCronExpression \<Rightarrow> int \<Rightarrow> (cron_error, int option) result" where
  "getCronMinimumIntervalMs parsed fromMs =
     bind_result (getNextCronRunAt parsed fromMs) (\<lambda>first.
     case first of None \<Rightarrow> Inr None
     | Some f \<Rightarrow> bind_result (getNextCronRunAt parsed f) (\<lambda>second.
         case second of None \<Rightarrow> Inr None | Some s \<Rightarrow> Inr (Some (s - f))))"

text \<open>The string forms of the three exported functions parse first.\<close>

definition matchesCronExpression_string :: "string \<Rightarrow> int \<Rightarrow> (cron_error, bool) result" where
  "matchesCronExpression_string expr atMs =
     bind_result (parseCronExpression expr) (\<lambda>parsed. Inr (matchesCronExpression parsed atMs))"

definition getNextCronRunAt_string :: "string \<Rightarrow> int \<Rightarrow> (cron_error, int option) result" where
  "getNextCronRunAt_string expr fromMs =
     bind_result (parseCronExpression expr) (\<lambda>parsed. getNextCronRunAt parsed fromMs)"

definition getCronMinimumIntervalMs_string :: "string \<Rightarrow> int \<Rightarrow> (cron_error, int option) result" where
  "getCronMinimumIntervalMs_string expr fromMs =
     bind_result (parseCronExpression expr) (\<lambda>parsed. getCronMinimumIntervalMs parsed fromMs)"

subsection \<open>What the search returns\<close>

definition some_allowed :: "ParsedCronExpression \<Rightarrow> bool" where
  "some_allowed p \<longleftrightarrow>
     getNextAllowed (field_values (month p)) 1 12 \<noteq> None \<and>
     getNextAllowed (field_values (hour p)) 0 23 \<noteq> None \<and>
     getNextAllowed (field_values (minute p)) 0 59 \<noteq> None"

text \<open>
  \<open>next_run_spec p limit c r\<close>: \<open>r\<close> is the first time at or after \<open>c\<close> that matches, and
  \<open>None\<close> when there is none up to \<open>limit\<close>.
\<close>

definition next_run_spec :: "ParsedCronExpression \<Rightarrow> int \<Rightarrow> int \<Rightarrow> int option \<Rightarrow> bool" where
  "next_run_spec p limit c r =
     (case r of
        None \<Rightarrow> (\<forall>u. c \<le> u \<and> u \<le> limit \<longrightarrow> \<not> matchesCronExpression p u)
      | Some t \<Rightarrow> c \<le> t \<and> t \<le> limit \<and> t mod MINUTE_MS = 0 \<and> matchesCronExpression p t \<and>
          (\<forall>u. c \<le> u \<and> u < t \<longrightarrow> \<not> matchesCronExpression p u))"

lemma next_run_spec_skip:
  assumes "next_run_spec p limit c' r" and "c \<le> c'"
    and "\<And>u. c \<le> u \<Longrightarrow> u < c' \<Longrightarrow> \<not> matchesCronExpression p u"
  shows "next_run_spec p limit c r"
  using assms unfolding next_run_spec_def
  by (cases r) (auto, (meson not_le order.trans)+)

lemma matches_fields:
  assumes "matchesCronExpression p t"
  shows "value_at (field_values (month p)) (month_index (day t) mod 12 + 1)"
    "value_at (field_values (hour p)) (hour_index t mod 24 + 0)"
    "value_at (field_values (minute p)) (minute_index t mod 60 + 0)"
    "matchesDay p t"
  using assms
  by (simp_all add: matchesCronExpression_def getUTCMonth_def hours_index minutes_index split: if_splits)

lemma next_unit_total:
  "getNextAllowed vs offset (b - 1 + offset) \<noteq> None \<Longrightarrow> \<exists>k. next_unit vs offset b i = Inr k"
  by (auto simp: next_unit_def getFirstAllowed_def split: option.splits)

lemma skip_month:
  assumes "some_allowed p" and "\<not> value_at (field_values (month p)) (getUTCMonth c + 1)"
  obtains c' where "jumpToNextAllowedMonth p c = Inr c'" "c < c'" "c' mod MINUTE_MS = 0"
    "\<And>u. c \<le> u \<Longrightarrow> u < c' \<Longrightarrow> \<not> matchesCronExpression p u"
proof -
  obtain k where k: "next_unit (field_values (month p)) 1 12 (month_index (day c)) = Inr k"
    using next_unit_total [of "field_values (month p)" 1 12] assms(1) by (auto simp: some_allowed_def)
  then have j: "jumpToNextAllowedMonth p c = Inr (ms_per_day * month_start k)"
    by (simp add: jumpToNextAllowedMonth_unit)
  have "\<not> value_at (field_values (month p)) (i mod 12 + 1)" if "month_index (day c) \<le> i" "i < k" for i
    using next_unit_skips(2) [OF k, of i] assms(2) that
    by (cases "i = month_index (day c)") (auto simp: getUTCMonth_def)
  then have "\<not> matchesCronExpression p u" if "c \<le> u" "u < ms_per_day * month_start k" for u
    using months.skip [of c k "\<lambda>i. value_at (field_values (month p)) (i mod 12 + 1)" u]
      matches_fields(1) [of p u] that by blast
  then show ?thesis using that [OF j jump_month_forward [OF j]] by simp
qed

lemma skip_hour:
  assumes "some_allowed p" and "\<not> value_at (field_values (hour p)) (getUTCHours c)"
  obtains c' where "jumpToNextAllowedHour p c = Inr c'" "c < c'" "c' mod MINUTE_MS = 0"
    "\<And>u. c \<le> u \<Longrightarrow> u < c' \<Longrightarrow> \<not> matchesCronExpression p u"
proof -
  obtain k where k: "next_unit (field_values (hour p)) 0 24 (hour_index c) = Inr k"
    using next_unit_total [of "field_values (hour p)" 0 24] assms(1) by (auto simp: some_allowed_def)
  then have j: "jumpToNextAllowedHour p c = Inr (ms_per_hour * k)"
    by (simp add: jumpToNextAllowedHour_unit)
  have "\<not> value_at (field_values (hour p)) (i mod 24 + 0)" if "hour_index c \<le> i" "i < k" for i
    using next_unit_skips(2) [OF k, of i] assms(2) that
    by (cases "i = hour_index c") (auto simp: hours_index)
  then have "\<not> matchesCronExpression p u" if "c \<le> u" "u < ms_per_hour * k" for u
    using hours.skip [of c k "\<lambda>i. value_at (field_values (hour p)) (i mod 24 + 0)" u]
      matches_fields(2) [of p u] that by blast
  then show ?thesis using that [OF j jump_hour_forward [OF j]] by simp
qed

lemma skip_minute:
  assumes "some_allowed p" and "\<not> value_at (field_values (minute p)) (getUTCMinutes c)"
  obtains c' where "jumpToNextAllowedMinute p c = Inr c'" "c < c'" "c' mod MINUTE_MS = 0"
    "\<And>u. c \<le> u \<Longrightarrow> u < c' \<Longrightarrow> \<not> matchesCronExpression p u"
proof -
  obtain k where k: "next_unit (field_values (minute p)) 0 60 (minute_index c) = Inr k"
    using next_unit_total [of "field_values (minute p)" 0 60] assms(1) by (auto simp: some_allowed_def)
  then have j: "jumpToNextAllowedMinute p c = Inr (ms_per_minute * k)"
    by (simp add: jumpToNextAllowedMinute_unit)
  have "\<not> value_at (field_values (minute p)) (i mod 60 + 0)" if "minute_index c \<le> i" "i < k" for i
    using next_unit_skips(2) [OF k, of i] assms(2) that
    by (cases "i = minute_index c") (auto simp: minutes_index)
  then have "\<not> matchesCronExpression p u" if "c \<le> u" "u < ms_per_minute * k" for u
    using minutes.skip [of c k "\<lambda>i. value_at (field_values (minute p)) (i mod 60 + 0)" u]
      matches_fields(3) [of p u] that by blast
  then show ?thesis using that [OF j jump_minute_forward [OF j]] by simp
qed

lemma matchesDay_day: "day t = day u \<Longrightarrow> matchesDay p t = matchesDay p u"
  by (simp add: matchesDay_def getUTCDate_def getUTCDay_def)

lemma skip_day:
  assumes "\<not> matchesDay p c" and "c \<le> u" and "u < jumpToNextDay c"
  shows "\<not> matchesCronExpression p u"
proof -
  have "day u = day c"
    using assms(2,3) days.less_start_iff [of u "day c + 1"] days.unit_of_mono [of c u]
    by (simp add: jumpToNextDay_unit)
  then show ?thesis using assms(1) matchesDay_day [of u c p] matches_fields(4) [of p u] by blast
qed

lemma next_run_loop_spec:
  "some_allowed p \<Longrightarrow> c mod MINUTE_MS = 0 \<Longrightarrow>
   \<exists>r. next_run_loop p limit c = Inr r \<and> next_run_spec p limit c r"
proof (induction p limit c rule: next_run_loop.induct)
  case (1 p limit c)
  let ?mo = "value_at (field_values (month p)) (getUTCMonth c + 1)"
  let ?ho = "value_at (field_values (hour p)) (getUTCHours c)"
  let ?mi = "value_at (field_values (minute p)) (getUTCMinutes c)"
  note simps = next_run_loop.simps [of p limit c]
  consider "\<not> c \<le> limit" | "c \<le> limit" "\<not> ?mo" | "c \<le> limit" ?mo "\<not> matchesDay p c"
    | "c \<le> limit" ?mo "matchesDay p c" "\<not> ?ho" | "c \<le> limit" ?mo "matchesDay p c" ?ho "\<not> ?mi"
    | "c \<le> limit" ?mo "matchesDay p c" ?ho ?mi by blast
  then show ?case
  proof cases
    case 1
    then show ?thesis by (auto simp: simps next_run_spec_def)
  next
    case 2
    from skip_month [OF "1.prems"(1) 2(2)] obtain c' where
      c': "jumpToNextAllowedMonth p c = Inr c'" "c < c'" "c' mod MINUTE_MS = 0"
        "\<And>u. c \<le> u \<Longrightarrow> u < c' \<Longrightarrow> \<not> matchesCronExpression p u" by blast
    from "1.IH"(1) [OF 2 c'(1) "1.prems"(1) c'(3)] next_run_spec_skip [of p limit c' _ c] c' 2
    show ?thesis by (simp add: simps) (meson order_less_imp_le)
  next
    case 3
    have a: "jumpToNextDay c mod MINUTE_MS = 0" by (simp add: jumpToNextDay_unit)
    from "1.IH"(2) [OF 3(1) _ 3(3) "1.prems"(1) a] 3 skip_day [OF 3(3)] jump_day_forward [of c]
      next_run_spec_skip [of p limit "jumpToNextDay c" _ c]
    show ?thesis by (simp add: simps) (meson order_less_imp_le)
  next
    case 4
    from skip_hour [OF "1.prems"(1) 4(4)] obtain c' where
      c': "jumpToNextAllowedHour p c = Inr c'" "c < c'" "c' mod MINUTE_MS = 0"
        "\<And>u. c \<le> u \<Longrightarrow> u < c' \<Longrightarrow> \<not> matchesCronExpression p u" by blast
    from "1.IH"(3) [OF 4(1) _ _ 4(4) c'(1) "1.prems"(1) c'(3)] next_run_spec_skip [of p limit c' _ c] c' 4
    show ?thesis by (simp add: simps) (meson order_less_imp_le)
  next
    case 5
    from skip_minute [OF "1.prems"(1) 5(5)] obtain c' where
      c': "jumpToNextAllowedMinute p c = Inr c'" "c < c'" "c' mod MINUTE_MS = 0"
        "\<And>u. c \<le> u \<Longrightarrow> u < c' \<Longrightarrow> \<not> matchesCronExpression p u" by blast
    from "1.IH"(4) [OF 5(1) _ _ _ 5(5) c'(1) "1.prems"(1) c'(3)] next_run_spec_skip [of p limit c' _ c] c' 5
    show ?thesis by (simp add: simps) (meson order_less_imp_le)
  next
    case 6
    then have "matchesCronExpression p c" by (simp add: matchesCronExpression_def)
    with 6 "1.prems"(2) show ?thesis by (auto simp: simps next_run_spec_def)
  qed
qed

subsection \<open>What the parser returns\<close>

lemma mark_values_length [simp]: "length (mark_values seven v e step vs) = length vs"
  by (induction seven v e step vs rule: mark_values.induct) (subst mark_values.simps, simp)

lemma mark_values_nth:
  "0 < step \<Longrightarrow> i < length vs \<Longrightarrow> e < length vs \<Longrightarrow>
   mark_values seven v e step vs ! i \<longleftrightarrow>
     vs ! i \<or> (\<exists>k. v + k * step \<le> e \<and> (if seven \<and> v + k * step = 7 then 0 else v + k * step) = i)"
proof (induction seven v e step vs rule: mark_values.induct)
  case (1 seven v e step vs)
  let ?n = "\<lambda>x. if seven \<and> x = 7 then 0 else x"
  show ?case
  proof (cases "v \<le> e")
    case True
    have "mark_values seven v e step vs ! i \<longleftrightarrow>
        vs[?n v := True] ! i \<or> (\<exists>k. v + step + k * step \<le> e \<and> ?n (v + step + k * step) = i)"
      using "1.IH" True "1.prems" by (subst mark_values.simps) simp
    also have "vs[?n v := True] ! i \<longleftrightarrow> vs ! i \<or> ?n v = i"
      using "1.prems" by (cases "?n v = i") auto
    also have "(vs ! i \<or> ?n v = i) \<or> (\<exists>k. v + step + k * step \<le> e \<and> ?n (v + step + k * step) = i) \<longleftrightarrow>
        vs ! i \<or> (\<exists>k. v + k * step \<le> e \<and> ?n (v + k * step) = i)" (is "?l \<longleftrightarrow> ?r")
    proof
      assume ?l
      then show ?r
      proof (elim disjE exE)
        assume "?n v = i"
        then show ?r using True by (intro disjI2 exI [of _ 0]) auto
      next
        fix k assume "v + step + k * step \<le> e \<and> ?n (v + step + k * step) = i"
        then show ?r by (intro disjI2 exI [of _ "Suc k"]) (auto simp: add.assoc)
      qed simp
    next
      assume ?r
      then show ?l
      proof (elim disjE exE)
        fix k assume k: "v + k * step \<le> e \<and> ?n (v + k * step) = i"
        show ?l
        proof (cases k)
          case 0
          with k have "?n v = i" by auto
          then show ?l by blast
        next
          case (Suc m)
          with k show ?l by (intro disjI2 exI [of _ m]) (auto simp: add.assoc)
        qed
      qed simp
    qed
    finally show ?thesis .
  next
    case False
    then have "mark_values seven v e step vs = vs" by (subst mark_values.simps) simp
    with False show ?thesis by (auto dest: add_leD1)
  qed
qed


lemma parse_range_bounds:
  "parse_range mn mx f b = Inr (s, e) \<Longrightarrow> mn \<le> mx \<Longrightarrow> s \<le> e"
  by (auto simp: parse_range_def result_simps split: if_splits list.splits)

lemma parse_token_bounds:
  "parse_token mn mx f tok = Inr (s, e, st) \<Longrightarrow> mn \<le> mx \<Longrightarrow> mn \<le> s \<and> s \<le> e \<and> e \<le> mx \<and> 0 < st"
  by (auto simp: parse_token_def Let_def result_simps split: if_splits dest: parse_range_bounds)

text \<open>The values one token of a field selects.\<close>

definition token_selects :: "nat \<Rightarrow> nat \<Rightarrow> string \<Rightarrow> bool \<Rightarrow> string \<Rightarrow> nat \<Rightarrow> bool" where
  "token_selects mn mx f seven tok i \<longleftrightarrow>
     (\<exists>s e st k. parse_token mn mx f (js_trim tok) = Inr (s, e, st) \<and> s + k * st \<le> e \<and>
        (if seven \<and> s + k * st = 7 then 0 else s + k * st) = i)"

lemma token_selects_bounds:
  assumes "token_selects mn mx f seven tok i" "mn \<le> mx" "seven \<Longrightarrow> mn = 0"
  shows "mn \<le> i" "i \<le> mx"
  using assms by (auto simp: token_selects_def dest!: parse_token_bounds split: if_splits)

lemma parse_tokens_length:
  "parse_tokens mn mx f seven field toks vs = Inr ws \<Longrightarrow> length ws = length vs"
  unfolding parse_tokens_def
  by (erule fold_result_invariant) (auto simp: Let_def result_simps split: if_splits)

lemma parse_tokens_nth:
  assumes "parse_tokens mn mx f seven field toks vs = Inr ws" "length vs = Suc mx" "mn \<le> mx" "i \<le> mx"
  shows "ws ! i \<longleftrightarrow> vs ! i \<or> (\<exists>tok \<in> set toks. token_selects mn mx f seven tok i)"
  using assms(1,2)
proof (induction toks arbitrary: vs)
  case Nil
  then show ?case by (simp add: parse_tokens_def)
next
  case (Cons tok toks)
  from Cons.prems(1) obtain s e st where t: "parse_token mn mx f (js_trim tok) = Inr (s, e, st)"
    and r: "parse_tokens mn mx f seven field toks (mark_values seven s e st vs) = Inr ws"
    by (auto simp: parse_tokens_def Let_def result_simps split: if_splits)
  have "ws ! i \<longleftrightarrow> mark_values seven s e st vs ! i \<or>
      (\<exists>tok \<in> set toks. token_selects mn mx f seven tok i)"
    using Cons.IH [OF r] Cons.prems(2) by simp
  also have "mark_values seven s e st vs ! i \<longleftrightarrow> vs ! i \<or> token_selects mn mx f seven tok i"
    using mark_values_nth [of st i vs e seven s] parse_token_bounds [OF t assms(3)] t assms(4) Cons.prems(2)
    by (auto simp: token_selects_def)
  finally show ?case by auto
qed

lemma parseCronField_values:
  assumes "parseCronField rawField mn mx f seven = Inr fld" "mn \<le> mx"
  shows "length (field_values fld) = mx + 1"
    "i \<le> mx \<Longrightarrow> field_values fld ! i \<longleftrightarrow>
       (\<exists>tok \<in> set (split_on (CHR '','') (js_trim rawField)). token_selects mn mx f seven tok i)"
    "\<exists>i \<le> mx. field_values fld ! i"
    "wildcard fld \<longleftrightarrow> js_trim rawField = ''*''"
proof -
  let ?toks = "split_on (CHR '','') (js_trim rawField)"
  from assms(1) obtain ws where
    w: "parse_tokens mn mx f seven (js_trim rawField) ?toks (createValueArray mx) = Inr ws"
    and fld: "fld = \<lparr>raw = js_trim rawField, field_values = ws, wildcard = (js_trim rawField = ''*'')\<rparr>"
    and ex: "list_ex (\<lambda>b. b) ws"
    by (auto simp: parseCronField_def Let_def result_simps split: if_splits)
  have len: "length ws = mx + 1"
    using parse_tokens_length [OF w] by (simp add: createValueArray_def)
  show "length (field_values fld) = mx + 1" by (simp add: fld len)
  show "field_values fld ! i \<longleftrightarrow> (\<exists>tok \<in> set ?toks. token_selects mn mx f seven tok i)" if "i \<le> mx"
    using parse_tokens_nth [OF w _ assms(2) that] that by (simp add: fld createValueArray_def del: replicate_Suc)
  show "\<exists>i \<le> mx. field_values fld ! i"
    using ex len by (auto simp: fld list_ex_iff in_set_conv_nth less_Suc_eq_le)
  show "wildcard fld \<longleftrightarrow> js_trim rawField = ''*''" by (simp add: fld)
qed

text \<open>Every selected value of a parsed field is in the field's range, and there is one.\<close>

lemma parseCronField_allowed:
  assumes "parseCronField rawField mn mx f seven = Inr fld" "mn \<le> mx" "seven \<Longrightarrow> mn = 0"
  shows "getNextAllowed (field_values fld) (int mn) (int mx) \<noteq> None"
    "value_at (field_values fld) v \<Longrightarrow> int mn \<le> v \<and> v \<le> int mx"
proof -
  note f = parseCronField_values [OF assms(1,2)]
  show "int mn \<le> v \<and> v \<le> int mx" if v: "value_at (field_values fld) v" for v
  proof -
    have "0 \<le> v" "nat v \<le> mx" "field_values fld ! nat v"
      using v f(1) by (auto simp: value_at_def)
    moreover from this obtain tok where "token_selects mn mx f seven tok (nat v)"
      using f(2) by blast
    ultimately show ?thesis using token_selects_bounds(1) [of mn mx f seven tok "nat v"] assms(2,3)
      by auto
  qed
  note r = this
  from f(3) obtain i where i: "i \<le> mx" "field_values fld ! i" by blast
  then have "value_at (field_values fld) (int i)" by (simp add: value_at_def f(1))
  with r [OF this] show "getNextAllowed (field_values fld) (int mn) (int mx) \<noteq> None"
    by (auto simp: getNextAllowed_None intro!: exI [of _ "int i"])
qed

lemma parse_some_allowed: "parseCronExpression expr = Inr p \<Longrightarrow> some_allowed p"
  by (auto simp: parseCronExpression_def some_allowed_def Let_def result_simps split: list.splits
      dest!: parseCronField_allowed(1))



end
