(* ===== verification/CronLanguage.thy ===== *)
theory CronLanguage
  imports CronSchedule
begin

section \<open>The cron language and the properties of \<open>cron-schedule.ts\<close>\<close>

text \<open>
  An abstract syntax for cron expressions with its meaning, independent of the parser:
  printed expressions are accepted exactly when every item is in range, and then match
  exactly the times the syntax means. The theory ends with the properties of the parser
  and of the search for the next run.
\<close>

subsection \<open>Printing and parsing\<close>

text \<open>
  The language of cron fields: a list of items, each a range of values (all of them, an
  interval, a single one) with an optional step. \<open>selected\<close> is what an item means.
\<close>

datatype cron_base = AnyValue | Between nat nat | Exactly nat

type_synonym cron_item = "cron_base \<times> nat option"

fun show_base :: "cron_base \<Rightarrow> string" where
  "show_base AnyValue = ''*''"
| "show_base (Between a b) = show_nat a @ ''-'' @ show_nat b"
| "show_base (Exactly a) = show_nat a"

fun show_item :: "cron_item \<Rightarrow> string" where
  "show_item (b, None) = show_base b"
| "show_item (b, Some n) = show_base b @ ''/'' @ show_nat n"

definition show_field :: "cron_item list \<Rightarrow> string" where
  "show_field items = join '','' (map show_item items)"

fun base_bounds :: "nat \<Rightarrow> nat \<Rightarrow> cron_base \<Rightarrow> nat \<times> nat" where
  "base_bounds mn mx AnyValue = (mn, mx)"
| "base_bounds mn mx (Between a b) = (a, b)"
| "base_bounds mn mx (Exactly a) = (a, a)"

fun valid_item :: "nat \<Rightarrow> nat \<Rightarrow> cron_item \<Rightarrow> bool" where
  "valid_item mn mx (b, n) =
     (case base_bounds mn mx b of (lo, hi) \<Rightarrow>
        mn \<le> lo \<and> lo \<le> hi \<and> hi \<le> mx \<and> (case n of None \<Rightarrow> True | Some k \<Rightarrow> 0 < k))"

fun selected :: "nat \<Rightarrow> nat \<Rightarrow> cron_item \<Rightarrow> nat set" where
  "selected mn mx (b, n) =
     (case base_bounds mn mx b of (lo, hi) \<Rightarrow>
        {v. lo \<le> v \<and> v \<le> hi \<and> (v - lo) mod (case n of None \<Rightarrow> 1 | Some k \<Rightarrow> k) = 0})"

definition selected_values :: "nat \<Rightarrow> nat \<Rightarrow> bool \<Rightarrow> cron_item list \<Rightarrow> nat set" where
  "selected_values mn mx seven items =
     (\<lambda>v. if seven \<and> v = 7 then 0 else v) ` (\<Union>it \<in> set items. selected mn mx it)"

lemma not_in_show_nat: "\<not> is_digit c \<Longrightarrow> c \<notin> set (show_nat v)"
  using show_nat_digits by blast

lemma show_nat_separators:
  "CHR ''/'' \<notin> set (show_nat v)" "CHR ''-'' \<notin> set (show_nat v)" "CHR ''*'' \<notin> set (show_nat v)"
  "CHR '','' \<notin> set (show_nat v)" "CHR '' '' \<notin> set (show_nat v)"
  by (rule not_in_show_nat, simp add: is_digit_def)+

lemma show_nat_not_star: "show_nat v @ s \<noteq> ''*''"
proof
  assume e: "show_nat v @ s = ''*''"
  then have "CHR ''*'' \<in> set (show_nat v)" by (cases "show_nat v") auto
  then show False using show_nat_separators(3) by blast
qed

lemma parseInteger_show_nat: "parseInteger (show_nat v) f = Inr v"
  using show_nat_digits by (simp add: parseInteger_def list_all_iff parse_show_nat)

lemma show_base_chars: "c \<in> set (show_base b) \<Longrightarrow> is_digit c \<or> c = CHR ''-'' \<or> c = CHR ''*''"
  using show_nat_digits by (cases b) auto

lemma show_item_chars:
  "c \<in> set (show_item it) \<Longrightarrow> is_digit c \<or> c = CHR ''-'' \<or> c = CHR ''*'' \<or> c = CHR ''/''"
  using show_nat_digits by (cases it rule: show_item.cases) (auto dest: show_base_chars)

lemma show_item_free: "CHR '','' \<notin> set (show_item it)" "c \<in> set (show_item it) \<Longrightarrow> \<not> is_js_space c"
  using show_item_chars [of "CHR '',''" it] show_item_chars [of c it] is_digit_not_space [of c]
  by (auto simp: is_digit_def is_js_space_def)

lemma show_base_no_slash: "CHR ''/'' \<notin> set (show_base b)"
  using show_base_chars [of "CHR ''/''" b] by (auto simp: is_digit_def)

lemma show_item_not_Nil: "show_item it \<noteq> []"
  by (cases it rule: show_item.cases; cases "fst it") auto

lemma parse_range_show_base:
  "parse_range mn mx f (show_base b) =
     (case base_bounds mn mx b of (lo, hi) \<Rightarrow>
        if (case b of Between s e \<Rightarrow> s > e | _ \<Rightarrow> False) then Inl (InvalidRange f (show_base b))
        else Inr (lo, hi))"
proof (cases b)
  case AnyValue
  then show ?thesis by (simp add: parse_range_def)
next
  case (Between s e)
  have "split_on (CHR ''-'') (show_base b) = [show_nat s, show_nat e]"
    by (simp add: Between split_on_append split_on_free show_nat_separators)
  then show ?thesis
    using show_nat_not_star [of s "CHR ''-'' # show_nat e"] Between
    by (simp add: parse_range_def parseInteger_show_nat)
next
  case (Exactly a)
  then show ?thesis
    using show_nat_not_star [of a "[]"]
    by (simp add: parse_range_def parseInteger_show_nat show_nat_separators)
qed

lemma parse_token_show_item:
  "(\<exists>s e st. parse_token mn mx f (show_item it) = Inr (s, e, st)) \<longleftrightarrow> valid_item mn mx it"
  if "mn \<le> mx"
proof (cases it rule: show_item.cases)
  case (1 b)
  with that show ?thesis
    by (cases b) (auto simp: parse_token_def split_on_free show_base_no_slash parse_range_show_base
        simp del: show_base.simps)
next
  case (2 b n)
  have "split_on (CHR ''/'') (show_item it) = [show_base b, show_nat n]"
    by (simp add: 2 split_on_append split_on_free show_base_no_slash show_nat_separators)
  with 2 that show ?thesis
    by (cases b) (auto simp: parse_token_def parse_range_show_base parseInteger_show_nat
        simp del: show_base.simps show_item.simps)
qed

lemma parse_token_valid:
  assumes "valid_item mn mx (b, n)"
  shows "parse_token mn mx f (show_item (b, n)) =
     Inr (fst (base_bounds mn mx b), snd (base_bounds mn mx b), case n of None \<Rightarrow> 1 | Some k \<Rightarrow> k)"
proof (cases n)
  case None
  with assms show ?thesis
    by (cases b) (auto simp: parse_token_def split_on_free show_base_no_slash parse_range_show_base
        simp del: show_base.simps)
next
  case (Some k)
  have "split_on (CHR ''/'') (show_item (b, n)) = [show_base b, show_nat k]"
    by (simp add: Some split_on_append split_on_free show_base_no_slash show_nat_separators)
  with Some assms show ?thesis
    by (cases b) (auto simp: parse_token_def parse_range_show_base parseInteger_show_nat
        simp del: show_base.simps show_item.simps)
qed

lemma selected_steps:
  fixes lo st :: nat
  shows "0 < st \<Longrightarrow> lo \<le> v \<and> (v - lo) mod st = 0 \<longleftrightarrow> (\<exists>k. v = lo + k * st)"
proof
  assume "lo \<le> v \<and> (v - lo) mod st = 0"
  then have "v = lo + (v - lo) div st * st" by (simp add: mod_0_imp_dvd)
  then show "\<exists>k. v = lo + k * st" ..
qed auto

lemma trim_show_item: "js_trim (show_item it) = show_item it"
  by (rule js_trim_id) (use show_item_free(2) in blast)

lemma token_selects_show_item:
  assumes "valid_item mn mx it"
  shows "token_selects mn mx f seven (show_item it) i \<longleftrightarrow>
     i \<in> (\<lambda>v. if seven \<and> v = 7 then 0 else v) ` selected mn mx it"
proof -
  obtain b n lo hi where it: "it = (b, n)" and b: "base_bounds mn mx b = (lo, hi)"
    by (metis surj_pair)
  let ?st = "case n of None \<Rightarrow> 1 | Some k \<Rightarrow> k"
  have st: "0 < ?st" using assms it by (auto split: option.splits)
  have "token_selects mn mx f seven (show_item it) i \<longleftrightarrow>
      (\<exists>k. lo + k * ?st \<le> hi \<and> (if seven \<and> lo + k * ?st = 7 then 0 else lo + k * ?st) = i)"
    using parse_token_valid [of mn mx b n f] assms
    by (simp add: token_selects_def trim_show_item it b del: show_item.simps)
  also have "\<dots> \<longleftrightarrow> (\<exists>v. v \<le> hi \<and> (\<exists>k. v = lo + k * ?st) \<and> (if seven \<and> v = 7 then 0 else v) = i)"
    by blast
  also have "\<dots> \<longleftrightarrow> (\<exists>v. v \<le> hi \<and> (lo \<le> v \<and> (v - lo) mod ?st = 0) \<and> (if seven \<and> v = 7 then 0 else v) = i)"
    unfolding selected_steps [OF st] ..
  also have "\<dots> \<longleftrightarrow> i \<in> (\<lambda>v. if seven \<and> v = 7 then 0 else v) ` selected mn mx it"
    by (auto simp: it b image_iff)
  finally show ?thesis .
qed

lemma parse_tokens_show_items:
  "mn \<le> mx \<Longrightarrow>
   (\<exists>ws. parse_tokens mn mx f seven field (map show_item items) us = Inr ws) \<longleftrightarrow>
   (\<forall>it \<in> set items. valid_item mn mx it)"
proof (induction items arbitrary: us)
  case Nil
  then show ?case by (simp add: parse_tokens_def)
next
  case (Cons it items)
  show ?case
  proof (cases "valid_item mn mx it")
    case True
    obtain b n where it: "it = (b, n)" by (cases it)
    with True Cons show ?thesis
      by (simp add: parse_tokens_def trim_show_item parse_token_valid show_item_not_Nil
          del: show_item.simps valid_item.simps)
  next
    case False
    then obtain e where "parse_token mn mx f (show_item it) = Inl e"
      using parse_token_show_item [OF Cons.prems, of f it]
      by (cases "parse_token mn mx f (show_item it)") auto
    with False show ?thesis
      by (simp add: parse_tokens_def trim_show_item show_item_not_Nil)
  qed
qed

lemma show_field_facts:
  assumes "items \<noteq> []"
  shows "js_trim (show_field items) = show_field items" "show_field items \<noteq> []"
    "split_on (CHR '','') (show_field items) = map show_item items"
proof -
  have sp: "\<not> is_js_space c" if "c \<in> set (show_field items)" for c
    using set_join [of "'',''" "map show_item items"] that show_item_free(2)
    by (fastforce simp: show_field_def is_js_space_def)
  show "js_trim (show_field items) = show_field items" by (rule js_trim_id) (use sp in blast)
  show s: "split_on (CHR '','') (show_field items) = map show_item items"
    unfolding show_field_def by (rule split_on_join) (use assms show_item_free(1) in auto)
  show "show_field items \<noteq> []"
  proof
    assume "show_field items = []"
    with s have "map show_item items = [[]]" by simp
    then show False using show_item_not_Nil by (cases items) auto
  qed
qed

text \<open>A printed field parses exactly when every item is valid, and then selects what it means.\<close>

lemma parse_show_field_values:
  assumes "items \<noteq> []" "mn \<le> mx" "parseCronField (show_field items) mn mx f seven = Inr fld" "i \<le> mx"
  shows "field_values fld ! i \<longleftrightarrow> i \<in> selected_values mn mx seven items"
proof -
  have "(\<exists>ws. parse_tokens mn mx f seven (show_field items) (map show_item items) (createValueArray mx) = Inr ws)"
    using assms(3) by (auto simp: parseCronField_def Let_def show_field_facts [OF assms(1)] result_simps
        split: if_splits)
  then have v: "\<forall>it \<in> set items. valid_item mn mx it"
    using parse_tokens_show_items [OF assms(2)] by blast
  have "field_values fld ! i \<longleftrightarrow> (\<exists>it \<in> set items. token_selects mn mx f seven (show_item it) i)"
    using parseCronField_values(2) [OF assms(3,2,4)] by (simp add: show_field_facts [OF assms(1)])
  also have "\<dots> \<longleftrightarrow> i \<in> selected_values mn mx seven items"
    using v by (auto simp: token_selects_show_item selected_values_def simp del: valid_item.simps selected.simps)
  finally show ?thesis .
qed

lemma parse_show_field:
  assumes "items \<noteq> []" "mn \<le> mx" "seven \<Longrightarrow> mn = 0"
  shows "(\<exists>fld. parseCronField (show_field items) mn mx f seven = Inr fld) \<longleftrightarrow>
     (\<forall>it \<in> set items. valid_item mn mx it)"
proof
  assume "\<exists>fld. parseCronField (show_field items) mn mx f seven = Inr fld"
  then have "\<exists>ws. parse_tokens mn mx f seven (show_field items) (map show_item items) (createValueArray mx) = Inr ws"
    by (auto simp: parseCronField_def Let_def show_field_facts [OF assms(1)] result_simps split: if_splits)
  then show "\<forall>it \<in> set items. valid_item mn mx it"
    using parse_tokens_show_items [OF assms(2)] by blast
next
  assume v: "\<forall>it \<in> set items. valid_item mn mx it"
  then obtain ws where
    w: "parse_tokens mn mx f seven (show_field items) (map show_item items) (createValueArray mx) = Inr ws"
    using parse_tokens_show_items [OF assms(2)] by blast
  obtain it where it: "it \<in> set items" using assms(1) by (cases items) auto
  obtain b n where "it = (b, n)" by (cases it)
  with it v have bn: "it = (b, n)" "valid_item mn mx (b, n)" by blast+
  let ?lo = "fst (base_bounds mn mx b)"
  let ?i = "if seven \<and> ?lo = 7 then 0 else ?lo"
  have "?lo \<in> selected mn mx it" using bn by (auto split: prod.splits)
  then have t: "token_selects mn mx f seven (show_item it) ?i"
    using token_selects_show_item [of mn mx it f seven ?i] bn by (auto simp del: selected.simps valid_item.simps)
  have i: "?i \<le> mx" by (rule token_selects_bounds(2) [OF t assms(2,3)])
  have "ws ! ?i" using parse_tokens_nth [OF w _ assms(2) i] t it by (auto simp: createValueArray_def)
  moreover have "?i < length ws" using parse_tokens_length [OF w] i by (simp add: createValueArray_def)
  ultimately have "list_ex (\<lambda>b. b) ws" using nth_mem [of ?i ws] unfolding list_ex_iff by blast
  then show "\<exists>fld. parseCronField (show_field items) mn mx f seven = Inr fld"
    using assms(1) by (simp add: parseCronField_def Let_def show_field_facts [OF assms(1)] w)
qed

lemma show_field_star: "items \<noteq> [] \<Longrightarrow> show_field items = ''*'' \<longleftrightarrow> items = [(AnyValue, None)]"
proof
  assume n: "items \<noteq> []" and e: "show_field items = ''*''"
  have "map show_item items = [''*'']"
    using show_field_facts(3) [OF n] by (simp add: e)
  then obtain it where it: "items = [it]" "show_item it = ''*''" by (cases items) auto
  then have "it = (AnyValue, None)"
  proof (cases it rule: show_item.cases)
    case (1 b)
    with it(2) show ?thesis
      using show_nat_not_star [of _ "[]"] show_nat_not_star by (cases b) auto
  next
    case (2 b n)
    have "CHR ''/'' \<in> set (show_item it)" by (simp add: 2)
    with it(2) show ?thesis by simp
  qed
  with it(1) show "items = [(AnyValue, None)]" by simp
qed (simp add: show_field_def)

text \<open>Whole expressions, and what they mean for a time.\<close>

record cron_syntax =
  s_minute :: "cron_item list"
  s_hour :: "cron_item list"
  s_dayOfMonth :: "cron_item list"
  s_month :: "cron_item list"
  s_dayOfWeek :: "cron_item list"

definition show_cron :: "cron_syntax \<Rightarrow> string" where
  "show_cron s = join '' '' (map show_field
     [s_minute s, s_hour s, s_dayOfMonth s, s_month s, s_dayOfWeek s])"

definition nonempty_cron :: "cron_syntax \<Rightarrow> bool" where
  "nonempty_cron s \<longleftrightarrow> s_minute s \<noteq> [] \<and> s_hour s \<noteq> [] \<and> s_dayOfMonth s \<noteq> [] \<and>
     s_month s \<noteq> [] \<and> s_dayOfWeek s \<noteq> []"

definition valid_cron :: "cron_syntax \<Rightarrow> bool" where
  "valid_cron s \<longleftrightarrow> list_all (valid_item 0 59) (s_minute s) \<and> list_all (valid_item 0 23) (s_hour s) \<and>
     list_all (valid_item 1 31) (s_dayOfMonth s) \<and> list_all (valid_item 1 12) (s_month s) \<and>
     list_all (valid_item 0 7) (s_dayOfWeek s)"

definition cron_day_means :: "cron_syntax \<Rightarrow> int \<Rightarrow> bool" where
  "cron_day_means s t \<longleftrightarrow>
     (let dom = nat (getUTCDate t) \<in> selected_values 1 31 False (s_dayOfMonth s);
          dow = nat (getUTCDay t) \<in> selected_values 0 7 True (s_dayOfWeek s);
          any_dom = (s_dayOfMonth s = [(AnyValue, None)]);
          any_dow = (s_dayOfWeek s = [(AnyValue, None)]) in
      if any_dom \<and> any_dow then True else if any_dom then dow else if any_dow then dom
      else dom \<or> dow)"

definition cron_means :: "cron_syntax \<Rightarrow> int \<Rightarrow> bool" where
  "cron_means s t \<longleftrightarrow>
     nat (getUTCMonth t + 1) \<in> selected_values 1 12 False (s_month s) \<and>
     nat (getUTCHours t) \<in> selected_values 0 23 False (s_hour s) \<and>
     nat (getUTCMinutes t) \<in> selected_values 0 59 False (s_minute s) \<and> cron_day_means s t"

lemma show_field_no_space: "items \<noteq> [] \<Longrightarrow> c \<in> set (show_field items) \<Longrightarrow> \<not> is_js_space c"
  using set_join [of "'',''" "map show_item items"] show_item_free(2)
  by (fastforce simp: show_field_def is_js_space_def)

lemma dropWhile_no_space:
  "p \<noteq> [] \<Longrightarrow> \<forall>c \<in> set p. \<not> is_js_space c \<Longrightarrow> dropWhile is_js_space (p @ s) = p @ s"
  by (cases p) auto

lemma collapse_no_space:
  "\<forall>c \<in> set p. \<not> is_js_space c \<Longrightarrow> collapse_spaces (p @ s) = p @ collapse_spaces s"
  by (induction p) auto

lemma normalize_joined:
  assumes "ps \<noteq> []" "\<forall>p \<in> set ps. p \<noteq> [] \<and> (\<forall>c \<in> set p. \<not> is_js_space c)"
  shows "js_trim (join '' '' ps) = join '' '' ps" "collapse_spaces (join '' '' ps) = join '' '' ps"
proof -
  have drop: "dropWhile is_js_space (join '' '' ps) = join '' '' ps"
    if "ps \<noteq> []" "\<forall>p \<in> set ps. p \<noteq> [] \<and> (\<forall>c \<in> set p. \<not> is_js_space c)" for ps
    using that by (cases "('' '', ps)" rule: join.cases) (auto simp: dropWhile_no_space dropWhile_append1
        intro: dropWhile_no_space [of _ "[]", simplified])
  show "js_trim (join '' '' ps) = join '' '' ps"
    using drop [of ps] drop [of "rev (map rev ps)"] assms by (simp add: js_trim_def rev_join flip: rev_map)
  show "collapse_spaces (join '' '' ps) = join '' '' ps"
    using assms
  proof (induction "'' ''" ps rule: join.induct)
    case (3 p q ps)
    have "collapse_spaces (CHR '' '' # join '' '' (q # ps)) = CHR '' '' # collapse_spaces (join '' '' (q # ps))"
      using drop [of "q # ps"] 3 by (simp add: is_js_space_def)
    with 3 show ?case by (simp add: collapse_no_space)
  qed (auto simp: collapse_no_space [of _ "[]", simplified])
qed

lemma split_joined_fields:
  assumes "fs \<noteq> []" "\<forall>items \<in> set fs. items \<noteq> []"
  shows "split_on (CHR '' '') (collapse_spaces (js_trim (join '' '' (map show_field fs)))) =
     map show_field fs"
proof -
  have a: "\<forall>p \<in> set (map show_field fs). p \<noteq> [] \<and> (\<forall>c \<in> set p. \<not> is_js_space c)"
  proof
    fix p assume "p \<in> set (map show_field fs)"
    then obtain items where p: "p = show_field items" and n: "items \<noteq> []"
      using assms(2) unfolding set_map by blast
    show "p \<noteq> [] \<and> (\<forall>c \<in> set p. \<not> is_js_space c)"
      unfolding p using show_field_no_space [OF n] show_field_facts(2) [OF n] by blast
  qed
  have "\<forall>p \<in> set (map show_field fs). CHR '' '' \<notin> set p"
  proof (intro ballI notI)
    fix p assume "p \<in> set (map show_field fs)" "CHR '' '' \<in> set p"
    with a have "\<not> is_js_space (CHR '' '')" by metis
    then show False by (simp add: is_js_space_def)
  qed
  then have "split_on (CHR '' '') (join '' '' (map show_field fs)) = map show_field fs"
    by (rule split_on_join [rotated]) (simp add: assms(1))
  moreover have "map show_field fs \<noteq> []" using assms(1) by simp
  note normalize_joined [OF this a]
  ultimately show ?thesis by (simp only:)
qed

lemma show_cron_parts:
  assumes "nonempty_cron s"
  shows "split_on (CHR '' '') (collapse_spaces (js_trim (show_cron s))) =
     [show_field (s_minute s), show_field (s_hour s), show_field (s_dayOfMonth s),
      show_field (s_month s), show_field (s_dayOfWeek s)]"
  using split_joined_fields [of "[s_minute s, s_hour s, s_dayOfMonth s, s_month s, s_dayOfWeek s]"] assms
  by (simp add: show_cron_def nonempty_cron_def del: join.simps)

text \<open>A field of a printed expression, read at a value within its range.\<close>

lemma show_field_value_at:
  assumes "items \<noteq> []" "mn \<le> mx" "parseCronField (show_field items) mn mx f seven = Inr fld"
    "seven \<Longrightarrow> mn = 0" "0 \<le> v"
  shows "value_at (field_values fld) v \<longleftrightarrow> nat v \<in> selected_values mn mx seven items"
proof (cases "nat v \<le> mx")
  case True
  then show ?thesis
    using parseCronField_values(1) [OF assms(3,2)] parse_show_field_values [OF assms(1,2,3) True] assms(5)
    by (simp add: value_at_def)
next
  case False
  have "\<forall>it \<in> set items. valid_item mn mx it"
    using parse_show_field [OF assms(1,2,4)] assms(3) by blast
  then have "selected_values mn mx seven items \<subseteq> {..mx}"
    by (fastforce simp: selected_values_def split: prod.splits if_splits)
  with False show ?thesis
    using parseCronField_values(1) [OF assms(3,2)] by (auto simp: value_at_def)
qed

lemma parse_show_cron:
  assumes "nonempty_cron s"
  shows "(\<exists>p. parseCronExpression (show_cron s) = Inr p) \<longleftrightarrow> valid_cron s"
    "parseCronExpression (show_cron s) = Inr p \<Longrightarrow> matchesCronExpression p t \<longleftrightarrow> cron_means s t"
proof -
  have n: "s_minute s \<noteq> []" "s_hour s \<noteq> []" "s_dayOfMonth s \<noteq> []" "s_month s \<noteq> []" "s_dayOfWeek s \<noteq> []"
    using assms by (simp_all add: nonempty_cron_def)
  note v = n [THEN parse_show_field]
  have ex: "(\<exists>p. parseCronExpression (show_cron s) = Inr p) \<longleftrightarrow>
      (\<exists>a. parseCronField (show_field (s_minute s)) 0 59 ''minute'' False = Inr a) \<and>
      (\<exists>a. parseCronField (show_field (s_hour s)) 0 23 ''hour'' False = Inr a) \<and>
      (\<exists>a. parseCronField (show_field (s_dayOfMonth s)) 1 31 ''day-of-month'' False = Inr a) \<and>
      (\<exists>a. parseCronField (show_field (s_month s)) 1 12 ''month'' False = Inr a) \<and>
      (\<exists>a. parseCronField (show_field (s_dayOfWeek s)) 0 7 ''day-of-week'' True = Inr a)"
    by (simp add: parseCronExpression_def Let_def show_cron_parts [OF assms] result_simps) blast
  show "(\<exists>p. parseCronExpression (show_cron s) = Inr p) \<longleftrightarrow> valid_cron s"
    unfolding ex using v by (simp add: valid_cron_def list_all_iff)
  assume "parseCronExpression (show_cron s) = Inr p"
  then obtain mi ho dom mo dow where
    f: "parseCronField (show_field (s_minute s)) 0 59 ''minute'' False = Inr mi"
      "parseCronField (show_field (s_hour s)) 0 23 ''hour'' False = Inr ho"
      "parseCronField (show_field (s_dayOfMonth s)) 1 31 ''day-of-month'' False = Inr dom"
      "parseCronField (show_field (s_month s)) 1 12 ''month'' False = Inr mo"
      "parseCronField (show_field (s_dayOfWeek s)) 0 7 ''day-of-week'' True = Inr dow"
    and p: "minute p = mi" "hour p = ho" "dayOfMonth p = dom" "month p = mo" "dayOfWeek p = dow"
    by (auto simp: parseCronExpression_def Let_def show_cron_parts [OF assms] result_simps)
  have va: "value_at (field_values mi) (getUTCMinutes t) \<longleftrightarrow> nat (getUTCMinutes t) \<in> selected_values 0 59 False (s_minute s)"
    "value_at (field_values ho) (getUTCHours t) \<longleftrightarrow> nat (getUTCHours t) \<in> selected_values 0 23 False (s_hour s)"
    "value_at (field_values dom) (getUTCDate t) \<longleftrightarrow> nat (getUTCDate t) \<in> selected_values 1 31 False (s_dayOfMonth s)"
    "value_at (field_values mo) (getUTCMonth t + 1) \<longleftrightarrow> nat (getUTCMonth t + 1) \<in> selected_values 1 12 False (s_month s)"
    "value_at (field_values dow) (getUTCDay t) \<longleftrightarrow> nat (getUTCDay t) \<in> selected_values 0 7 True (s_dayOfWeek s)"
    using date_bounds [of t]
    by (simp_all add: show_field_value_at [OF n(1) _ f(1)] show_field_value_at [OF n(2) _ f(2)]
        show_field_value_at [OF n(3) _ f(3)] show_field_value_at [OF n(4) _ f(4)]
        show_field_value_at [OF n(5) _ f(5)])
  have w: "wildcard dom \<longleftrightarrow> s_dayOfMonth s = [(AnyValue, None)]"
    "wildcard dow \<longleftrightarrow> s_dayOfWeek s = [(AnyValue, None)]"
    using parseCronField_values(4) [OF f(3)] parseCronField_values(4) [OF f(5)]
    by (simp_all add: show_field_facts(1) [OF n(3)] show_field_facts(1) [OF n(5)] show_field_star n)
  show "matchesCronExpression p t \<longleftrightarrow> cron_means s t"
    by (simp add: matchesCronExpression_def matchesDay_def cron_means_def cron_day_means_def p va w Let_def)
qed

subsection \<open>Properties\<close>

lemma next_run_total:
  assumes "parseCronExpression expr = Inr p"
  shows "\<exists>r. getNextCronRunAt p fromMs = Inr r \<and>
     next_run_spec p (fromMs + SEARCH_WINDOW_MS) (toNextMinute fromMs) r"
  unfolding getNextCronRunAt_def
  by (rule next_run_loop_spec [OF parse_some_allowed [OF assms]]) (simp add: toNextMinute_def)

lemma toNextMinute_least:
  "fromMs < toNextMinute fromMs" "fromMs < u \<Longrightarrow> u mod MINUTE_MS = 0 \<Longrightarrow> toNextMinute fromMs \<le> u"
proof -
  let ?q = "fromMs div MINUTE_MS"
  have b: "MINUTE_MS * ?q \<le> fromMs" "fromMs < MINUTE_MS * ?q + MINUTE_MS"
    using int_div_bounds [of MINUTE_MS fromMs] by simp_all
  then show "fromMs < toNextMinute fromMs" by (simp add: toNextMinute_def mult.commute)
  assume u: "fromMs < u" "u mod MINUTE_MS = 0"
  then have "u = MINUTE_MS * (u div MINUTE_MS)" by (metis mult_div_mod_eq add_0_right)
  moreover have "?q < u div MINUTE_MS" using b u(1) calculation by linarith
  ultimately show "toNextMinute fromMs \<le> u" by (simp add: toNextMinute_def)
qed

text \<open>
  C2: For every accepted expression the search for the next run returns without an error:
  either the first whole minute after \<open>fromMs\<close> that matches the expression, within the
  five-year window, or \<open>null\<close> when no minute of the window matches. The jumps over months,
  days, hours and minutes skip no match.
\<close>

theorem next_run_first_match:
  assumes "parseCronExpression expr = Inr p"
  shows "\<exists>r. getNextCronRunAt p fromMs = Inr r \<and>
    (case r of
       None \<Rightarrow> \<forall>u. fromMs < u \<and> u \<le> fromMs + SEARCH_WINDOW_MS \<and> u mod MINUTE_MS = 0 \<longrightarrow>
         \<not> matchesCronExpression p u
     | Some t \<Rightarrow> fromMs < t \<and> t \<le> fromMs + SEARCH_WINDOW_MS \<and> t mod MINUTE_MS = 0 \<and>
         matchesCronExpression p t \<and>
         (\<forall>u. fromMs < u \<and> u < t \<and> u mod MINUTE_MS = 0 \<longrightarrow> \<not> matchesCronExpression p u))"
proof -
  obtain r where r: "getNextCronRunAt p fromMs = Inr r"
    "next_run_spec p (fromMs + SEARCH_WINDOW_MS) (toNextMinute fromMs) r"
    using next_run_total [OF assms] by blast
  show ?thesis
    using r toNextMinute_least [of fromMs] unfolding next_run_spec_def
    by (intro exI [of _ r]) (auto split: option.splits intro: less_le_trans)
qed

lemma next_run_first_match_witness:
  "\<exists>p. parseCronExpression ''30 9 * * 1'' = Inr p \<and>
     getNextCronRunAt p 1760000000000 = Inr (Some 1760347800000) \<and>
     matchesCronExpression p 1760347800000"
proof -
  let ?p = "projr (parseCronExpression ''30 9 * * 1'')"
  have parse: "parseCronExpression ''30 9 * * 1'' = Inr ?p" by code_simp
  have run: "getNextCronRunAt ?p 1760000000000 = Inr (Some 1760347800000)" by code_simp
  show ?thesis
    using next_run_first_match [OF parse, of 1760000000000, unfolded run] parse run
    by (intro exI [of _ ?p]) simp
qed

text \<open>
  C6: The parser accepts a printed five-field expression exactly when every item is in its
  field's range (interval ends in order, steps positive), and the parsed expression then
  matches a time exactly when the syntax means it: month, hour and minute are selected, and
  the day rule holds (a \<open>*\<close> in day-of-month or day-of-week leaves the day to the other
  field; two restricted fields are a disjunction; 7 is Sunday).
\<close>

theorem parse_print_cron:
  assumes "nonempty_cron s"
  shows "(case parseCronExpression (show_cron s) of
      Inl e \<Rightarrow> \<not> valid_cron s
    | Inr p \<Rightarrow> valid_cron s \<and> (\<forall>t. matchesCronExpression p t \<longleftrightarrow> cron_means s t))"
  using parse_show_cron [OF assms] by (cases "parseCronExpression (show_cron s)") auto

lemma parse_print_cron_witness:
  "let s = \<lparr>s_minute = [(AnyValue, Some 15)], s_hour = [(Between 9 17, None)],
            s_dayOfMonth = [(Exactly 1, None), (Exactly 15, None)], s_month = [(AnyValue, None)],
            s_dayOfWeek = [(Exactly 7, None)]\<rparr> in
   show_cron s = ''*/15 9-17 1,15 * 7'' \<and> valid_cron s \<and>
   (case parseCronExpression (show_cron s) of
      Inl e \<Rightarrow> \<not> valid_cron s
    | Inr p \<Rightarrow> valid_cron s \<and> (\<forall>t. matchesCronExpression p t \<longleftrightarrow> cron_means s t))"
  unfolding Let_def
  by (intro conjI parse_print_cron; code_simp)

end
