(* ===== verification/MirrorOutbox.thy ===== *)
theory MirrorOutbox
  imports Prelude Complex_Main
begin

section \<open>The transactional outbox of the D1 identity mirror\<close>

text \<open>
  Model of \<open>src/workers/main/src/identity/d1-mirror-outbox.ts\<close>: the outbox table and version
  clock of a Durable Object, the alarm it arms, and the drain that applies queued rows to D1.

  The two SQL tables are fields of one record, \<open>outbox\<close>: \<open>queue\<close> lists the rows of
  \<open>d1_mirror_outbox\<close> in insertion order (the primary key is \<open>row_key\<close>), \<open>clock\<close> is the row of
  \<open>d1_mirror_clock\<close>; \<open>armedAt\<close> is the instance field and \<open>alarm\<close> the storage alarm. Readings of
  \<open>Date.now()\<close> and of \<open>Math.random()\<close> are arguments. What happens while a drain awaits D1 is
  described by a \<open>row_env\<close> per row: the clock readings, the other requests' effect on the
  outbox, and the outcome of the call. Events have an arbitrary type \<open>'ev\<close>.
\<close>

subsection \<open>Data\<close>

datatype MirrorKind = Mirror_user | Mirror_org | Mirror_workspace | Mirror_thread | Mirror_app
  | Mirror_invitation | Mirror_org_membership | Mirror_workspace_member

fun kind_text :: "MirrorKind \<Rightarrow> string" where
  "kind_text Mirror_user = ''user''"
| "kind_text Mirror_org = ''org''"
| "kind_text Mirror_workspace = ''workspace''"
| "kind_text Mirror_thread = ''thread''"
| "kind_text Mirror_app = ''app''"
| "kind_text Mirror_invitation = ''invitation''"
| "kind_text Mirror_org_membership = ''org_membership''"
| "kind_text Mirror_workspace_member = ''workspace_member''"

record 'ev OutboxRow =
  row_key :: string
  row_kind :: string
  entity_id :: string
  payload :: "'ev option"
  generation :: nat
  enqueued_at :: int
  attempts :: nat
  next_attempt_at :: int
  last_error :: "string option"

record 'ev outbox =
  queue :: "'ev OutboxRow list"
  clock :: "int option"
  armedAt :: "int option"
  alarm :: "int option"

definition MIRROR_COALESCE_MS :: int where "MIRROR_COALESCE_MS = 1000"
definition RETRY_BASE_MS :: int where "RETRY_BASE_MS = 5000"
definition RETRY_MAX_MS :: int where "RETRY_MAX_MS = 60 * 60 * 1000"
definition DEFAULT_MAX_ROWS :: nat where "DEFAULT_MAX_ROWS = 100"
definition DEFAULT_BUDGET_MS :: int where "DEFAULT_BUDGET_MS = 15000"
definition MAX_CONSECUTIVE_FAILURES :: nat where "MAX_CONSECUTIVE_FAILURES = 3"
definition MAX_SAFE_INTEGER :: int where "MAX_SAFE_INTEGER = 9007199254740991"

text \<open>\<open>random\<close> is the reading of \<open>Math.random()\<close>, in \<open>[0, 1)\<close>; arithmetic is exact.\<close>

definition mirrorRetryDelayMs :: "nat \<Rightarrow> rat \<Rightarrow> int" where
  "mirrorRetryDelayMs n random =
     (let e = min RETRY_MAX_MS (RETRY_BASE_MS * 2 ^ (n - 1))
      in \<lfloor>of_int e * (8 / 10 + random * (4 / 10)) + 1 / 2\<rfloor>)"

subsection \<open>Queueing\<close>

text \<open>
  \<open>arm\<close>: the storage part runs after the synchronous one; with the input gate closed during
  storage calls no other request is served in between. A storage failure resets \<open>armedAt\<close>.
\<close>

definition arm :: "bool \<Rightarrow> int \<Rightarrow> 'ev outbox \<Rightarrow> 'ev outbox" where
  "arm storage_ok dueAt st =
     (if (case armedAt st of None \<Rightarrow> False | Some a \<Rightarrow> a \<le> dueAt) then st
      else if \<not> storage_ok then st\<lparr>armedAt := None\<rparr>
      else st\<lparr>armedAt := Some dueAt,
              alarm := (case alarm st of None \<Rightarrow> Some dueAt
                        | Some current \<Rightarrow> if dueAt < current then Some dueAt else Some current)\<rparr>)"

definition mirror_key :: "MirrorKind \<Rightarrow> string \<Rightarrow> string" where
  "mirror_key kind eid = kind_text kind @ '':'' @ eid"

definition new_row :: "string \<Rightarrow> string \<Rightarrow> string \<Rightarrow> 'ev option \<Rightarrow> int \<Rightarrow> int \<Rightarrow> 'ev OutboxRow" where
  "new_row key kind eid p now dueAt =
     \<lparr>row_key = key, row_kind = kind, entity_id = eid, payload = p, generation = 1,
      enqueued_at = now, attempts = 0, next_attempt_at = dueAt, last_error = None\<rparr>"

text \<open>The \<open>ON CONFLICT\<close> clause of \<open>markDirty\<close>.\<close>

definition redirty :: "int \<Rightarrow> 'ev OutboxRow \<Rightarrow> 'ev OutboxRow" where
  "redirty dueAt r =
     r\<lparr>generation := generation r + 1,
       next_attempt_at := (if attempts r > 0 then next_attempt_at r
                           else min (next_attempt_at r) dueAt)\<rparr>"

definition upsert_dirty :: "int \<Rightarrow> MirrorKind \<Rightarrow> string \<Rightarrow> 'ev OutboxRow list \<Rightarrow> 'ev OutboxRow list" where
  "upsert_dirty now kind eid q =
     (let dueAt = now + MIRROR_COALESCE_MS; key = mirror_key kind eid in
      if \<exists>r \<in> set q. row_key r = key
      then map (\<lambda>r. if row_key r = key then redirty dueAt r else r) q
      else q @ [new_row key (kind_text kind) eid None now dueAt])"

definition markDirty ::
  "bool \<Rightarrow> int \<Rightarrow> MirrorKind \<Rightarrow> string \<Rightarrow> 'ev outbox \<Rightarrow> 'ev outbox" where
  "markDirty storage_ok now kind eid st =
     arm storage_ok (now + MIRROR_COALESCE_MS) (st\<lparr>queue := upsert_dirty now kind eid (queue st)\<rparr>)"

definition enqueueEvent ::
  "bool \<Rightarrow> int \<Rightarrow> string \<Rightarrow> 'ev \<Rightarrow> 'ev outbox \<Rightarrow> 'ev outbox" where
  "enqueueEvent storage_ok now uuid event st =
     (let dueAt = now + MIRROR_COALESCE_MS in
      arm storage_ok dueAt
        (st\<lparr>queue := queue st @ [new_row (''event:'' @ uuid) ''event'' '''' (Some event) now dueAt]\<rparr>))"

fun min_option :: "int list \<Rightarrow> int option" where
  "min_option [] = None"
| "min_option (x # xs) = (case min_option xs of None \<Rightarrow> Some x | Some m \<Rightarrow> Some (min x m))"

definition nextDueAt :: "'ev outbox \<Rightarrow> int option" where
  "nextDueAt st = min_option (map next_attempt_at (queue st))"

definition clear_outbox :: "'ev outbox \<Rightarrow> 'ev outbox" where
  "clear_outbox st = st\<lparr>queue := []\<rparr>"

definition pendingKeys :: "'ev outbox \<Rightarrow> string list" where
  "pendingKeys st = map row_key (filter (\<lambda>r. row_kind r \<noteq> ''event'') (queue st))"

definition pendingCount :: "'ev outbox \<Rightarrow> nat" where
  "pendingCount st = length (queue st)"

record OutboxStats =
  pending :: nat
  failing :: nat
  oldestEnqueuedAt :: "int option"
  stats_nextDueAt :: "int option"

definition stats :: "'ev outbox \<Rightarrow> OutboxStats" where
  "stats st =
     \<lparr>pending = length (queue st),
      failing = sum_list (map (\<lambda>r. if attempts r > 0 then 1 else 0) (queue st)),
      oldestEnqueuedAt = min_option (map enqueued_at (queue st)),
      stats_nextDueAt = nextDueAt st\<rparr>"

subsection \<open>The version clock and the alarm\<close>

definition nextVersion :: "int \<Rightarrow> 'ev outbox \<Rightarrow> int \<times> 'ev outbox" where
  "nextVersion now st =
     (let last = (case clock st of None \<Rightarrow> 0 | Some v \<Rightarrow> v);
          next = max (now * 1000) (last + 1)
      in (next, st\<lparr>clock := Some next\<rparr>))"

definition noteAlarmFired :: "'ev outbox \<Rightarrow> 'ev outbox" where
  "noteAlarmFired st = st\<lparr>armedAt := None\<rparr>"

definition scheduleEarliestAlarm :: "int \<Rightarrow> int option list \<Rightarrow> 'ev outbox \<Rightarrow> 'ev outbox" where
  "scheduleEarliestAlarm now candidates st =
     (case min_option (List.map_filter id candidates) of
        None \<Rightarrow> st\<lparr>alarm := None\<rparr>
      | Some m \<Rightarrow> st\<lparr>alarm := Some (max (now + 1) m)\<rparr>)"

subsection \<open>Draining\<close>

text \<open>
  Outcome of one row: every event applied; the snapshot (or the parse of the payload) threw;
  or the call for event number \<open>n\<close> failed after the first \<open>n\<close> were applied (a row with no
  events makes no call, so nothing of it can fail and nothing runs meanwhile).
\<close>

datatype row_outcome = Delivered | Snapshot_failed string | Apply_failed nat string

record 'ev row_env =
  check_now :: int
  version_now :: int
  env_snapshot :: "string \<Rightarrow> string \<Rightarrow> 'ev list"
  meanwhile :: "'ev outbox \<Rightarrow> 'ev outbox"
  row_result :: row_outcome
  fail_now :: int
  fail_random :: rat

record 'ev drain_progress =
  store :: "'ev outbox"
  sent :: "('ev \<times> int option) list"
  applied :: nat
  failed :: nat
  consecutiveFailures :: nat

definition select_due :: "int \<Rightarrow> nat \<Rightarrow> 'ev outbox \<Rightarrow> 'ev OutboxRow list" where
  "select_due bound maxRows st =
     take maxRows
       (sort_key next_attempt_at
         (sort_key enqueued_at (filter (\<lambda>r. next_attempt_at r \<le> bound) (queue st))))"

text \<open>
  The synchronous part of a row: its events, stamped with one version (a stored payload is sent
  as it is), and the outbox with the clock advanced when there is something to send.
\<close>

definition begin_row ::
  "int \<Rightarrow> (string \<Rightarrow> string \<Rightarrow> 'ev list) \<Rightarrow> 'ev OutboxRow \<Rightarrow> 'ev outbox \<Rightarrow>
   ('ev \<times> int option) list \<times> 'ev outbox" where
  "begin_row now snapshot r st =
     (let events = (case payload r of Some e \<Rightarrow> [e] | None \<Rightarrow> snapshot (row_kind r) (entity_id r));
          (version, st') = (if events \<noteq> [] then nextVersion now st else (0, st))
      in (map (\<lambda>e. (e, if payload r = None then Some version else None)) events, st'))"

definition finish_row :: "'ev OutboxRow \<Rightarrow> 'ev outbox \<Rightarrow> 'ev outbox" where
  "finish_row r st =
     st\<lparr>queue := filter (\<lambda>q. \<not> (row_key q = row_key r \<and> generation q = generation r)) (queue st)\<rparr>"

definition fail_row :: "int \<Rightarrow> string \<Rightarrow> 'ev OutboxRow \<Rightarrow> 'ev outbox \<Rightarrow> 'ev outbox" where
  "fail_row retryAt message r st =
     st\<lparr>queue := map (\<lambda>q. if row_key q = row_key r
                           then q\<lparr>attempts := attempts r + 1, next_attempt_at := retryAt,
                                   last_error := Some (take 1000 message)\<rparr>
                           else q) (queue st)\<rparr>"

definition push_due :: "int \<Rightarrow> 'ev outbox \<Rightarrow> 'ev outbox" where
  "push_due retryAt st =
     st\<lparr>queue := map (\<lambda>q. if next_attempt_at q < retryAt then q\<lparr>next_attempt_at := retryAt\<rparr> else q)
                    (queue st)\<rparr>"

text \<open>The \<open>catch\<close> branch; the flag tells that the loop breaks.\<close>

definition handle_failure ::
  "'ev row_env \<Rightarrow> string \<Rightarrow> 'ev OutboxRow \<Rightarrow> 'ev drain_progress \<Rightarrow> 'ev drain_progress \<times> bool" where
  "handle_failure e message r p =
     (let retryAt = fail_now e + mirrorRetryDelayMs (attempts r + 1) (fail_random e);
          st = fail_row retryAt message r (store p);
          c = consecutiveFailures p + 1;
          p' = p\<lparr>store := st, failed := failed p + 1, consecutiveFailures := c\<rparr>
      in if c \<ge> MAX_CONSECUTIVE_FAILURES then (p'\<lparr>store := push_due retryAt st\<rparr>, True)
         else (p', False))"

definition drain_row ::
  "'ev row_env \<Rightarrow> 'ev OutboxRow \<Rightarrow> 'ev drain_progress \<Rightarrow> 'ev drain_progress \<times> bool" where
  "drain_row e r p =
     (case row_result e of
        Snapshot_failed message \<Rightarrow> handle_failure e message r p
      | Delivered \<Rightarrow>
          (let (events, st) = begin_row (version_now e) (env_snapshot e) r (store p)
           in (p\<lparr>store := finish_row r (if events = [] then st else meanwhile e st),
                 sent := sent p @ events, applied := applied p + 1, consecutiveFailures := 0\<rparr>, False))
      | Apply_failed n message \<Rightarrow>
          (let (events, st) = begin_row (version_now e) (env_snapshot e) r (store p)
           in if events = []
              then (p\<lparr>store := finish_row r st, applied := applied p + 1, consecutiveFailures := 0\<rparr>, False)
              else handle_failure e message r
                (p\<lparr>store := meanwhile e st, sent := sent p @ take n events\<rparr>)))"

fun drain_loop ::
  "(nat \<Rightarrow> 'ev row_env) \<Rightarrow> int \<Rightarrow> nat \<Rightarrow> 'ev OutboxRow list \<Rightarrow> 'ev drain_progress \<Rightarrow> 'ev drain_progress"
where
  "drain_loop env deadline i [] p = p"
| "drain_loop env deadline i (r # rs) p =
     (if check_now (env i) > deadline then p
      else case drain_row (env i) r p of
             (p', True) \<Rightarrow> p'
           | (p', False) \<Rightarrow> drain_loop env deadline (i + 1) rs p')"

record MirrorDrainOptions =
  maxRows :: "nat option"
  ignoreSchedule :: bool
  budgetMs :: "int option"

record MirrorDrainResult =
  result_applied :: nat
  result_failed :: nat
  result_remaining :: nat

text \<open>\<open>drain\<close>; \<open>has_db\<close> tells whether the D1 binding exists. Also returned: the events sent.\<close>

definition drain ::
  "bool \<Rightarrow> MirrorDrainOptions \<Rightarrow> int \<Rightarrow> (nat \<Rightarrow> 'ev row_env) \<Rightarrow> 'ev outbox \<Rightarrow>
   MirrorDrainResult \<times> ('ev \<times> int option) list \<times> 'ev outbox" where
  "drain has_db options startedAt env st =
     (if \<not> has_db then
        (\<lparr>result_applied = 0, result_failed = 0, result_remaining = 0\<rparr>, [], st\<lparr>queue := []\<rparr>)
      else
        let deadline = startedAt + or_default DEFAULT_BUDGET_MS (budgetMs options);
            rows = select_due (if ignoreSchedule options then MAX_SAFE_INTEGER else startedAt)
                     (or_default DEFAULT_MAX_ROWS (maxRows options)) st;
            p = drain_loop env deadline 0 rows
                  \<lparr>store = st, sent = [], applied = 0, failed = 0, consecutiveFailures = 0\<rparr>
        in (\<lparr>result_applied = applied p, result_failed = failed p,
             result_remaining = pendingCount (store p)\<rparr>, sent p, store p))"

text \<open>\<open>drainAll\<close>: pass number \<open>n\<close> starts at \<open>starts n\<close> and meets the environment \<open>env n\<close>.\<close>

fun drain_passes ::
  "bool \<Rightarrow> MirrorDrainOptions \<Rightarrow> (nat \<Rightarrow> int) \<Rightarrow> (nat \<Rightarrow> nat \<Rightarrow> 'ev row_env) \<Rightarrow> nat \<Rightarrow> nat \<Rightarrow>
   MirrorDrainResult \<times> ('ev \<times> int option) list \<times> 'ev outbox \<Rightarrow>
   MirrorDrainResult \<times> ('ev \<times> int option) list \<times> 'ev outbox" where
  "drain_passes has_db options starts env n 0 t = t"
| "drain_passes has_db options starts env n (Suc left) (acc, out, st) =
     (if result_remaining acc > 0 then
        let (pass, evs, st') = drain has_db (options\<lparr>ignoreSchedule := True\<rparr>) (starts n) (env n) st;
            acc' = \<lparr>result_applied = result_applied acc + result_applied pass,
                      result_failed = result_failed acc + result_failed pass,
                      result_remaining = result_remaining pass\<rparr>
        in if result_failed pass > 0 \<or> result_applied pass = 0 then (acc', out @ evs, st')
           else drain_passes has_db options starts env (n + 1) left (acc', out @ evs, st')
      else (acc, out, st))"

definition drainAll ::
  "bool \<Rightarrow> MirrorDrainOptions \<Rightarrow> (nat \<Rightarrow> int) \<Rightarrow> (nat \<Rightarrow> nat \<Rightarrow> 'ev row_env) \<Rightarrow> nat \<Rightarrow> 'ev outbox \<Rightarrow>
   MirrorDrainResult \<times> ('ev \<times> int option) list \<times> 'ev outbox" where
  "drainAll has_db options starts env maxPasses st =
     drain_passes has_db options starts env 0 maxPasses
       (\<lparr>result_applied = 0, result_failed = 0, result_remaining = pendingCount st\<rparr>, [], st)"

text \<open>\<open>UserDO.alarm\<close>: the storage alarm has fired (it is no longer set), drain, reschedule.\<close>

definition user_alarm ::
  "bool \<Rightarrow> int \<Rightarrow> (nat \<Rightarrow> 'ev row_env) \<Rightarrow> int \<Rightarrow> 'ev outbox \<Rightarrow> 'ev outbox" where
  "user_alarm has_db startedAt env endedAt st =
     (let (res, evs, st') = drain has_db \<lparr>maxRows = None, ignoreSchedule = False, budgetMs = None\<rparr>
            startedAt env (noteAlarmFired (st\<lparr>alarm := None\<rparr>))
      in scheduleEarliestAlarm endedAt [nextDueAt st'] st')"

text \<open>
  \<open>OrgDO.alarm\<close>, whose alarm the outbox shares: a fallback alarm first, then the drain, then
  (after the token refreshes) the earliest of the next refresh and the next due row.
\<close>

definition TOKEN_REFRESH_FALLBACK_MS :: int where "TOKEN_REFRESH_FALLBACK_MS = 60 * 60 * 1000"

definition org_alarm ::
  "bool \<Rightarrow> int \<Rightarrow> (nat \<Rightarrow> 'ev row_env) \<Rightarrow> int option \<Rightarrow> int \<Rightarrow> 'ev outbox \<Rightarrow> 'ev outbox" where
  "org_alarm has_db startedAt env tokenAlarmTime endedAt st =
     (let (res, evs, st') = drain has_db \<lparr>maxRows = None, ignoreSchedule = False, budgetMs = None\<rparr>
            startedAt env (noteAlarmFired (st\<lparr>alarm := Some (startedAt + TOKEN_REFRESH_FALLBACK_MS)\<rparr>))
      in scheduleEarliestAlarm endedAt [tokenAlarmTime, nextDueAt st'] st')"

subsection \<open>The version clock\<close>

text \<open>The versions handed out for successive readings of the wall clock.\<close>

fun versions :: "int list \<Rightarrow> 'ev outbox \<Rightarrow> int list" where
  "versions [] st = []"
| "versions (t # ts) st = (let (v, st') = nextVersion t st in v # versions ts st')"

lemma nextVersion_clock:
  "nextVersion t st = (v, st') \<Longrightarrow>
   clock st' = Some v \<and> t * 1000 \<le> v \<and> or_default 0 (clock st) < v"
  by (cases "clock st") (auto simp: nextVersion_def Let_def)

lemma versions_above: "w \<in> set (versions ts st) \<Longrightarrow> or_default 0 (clock st) < w"
proof (induction ts arbitrary: st)
  case (Cons t ts)
  obtain v st' where n: "nextVersion t st = (v, st')" by (cases "nextVersion t st")
  from Cons.prems have "w = v \<or> w \<in> set (versions ts st')" by (simp add: n)
  then show ?case using nextVersion_clock [OF n] Cons.IH [of st'] by auto
qed simp

text \<open>
  The versions of a Durable Object strictly increase and are at least the wall clock in
  microseconds, whatever the wall clock does (it may stand still or go back).
\<close>

theorem versions_increase:
  "sorted_wrt (<) (versions ts st) \<and> list_all2 (\<lambda>t v. t * 1000 \<le> v) ts (versions ts st)"
proof (induction ts arbitrary: st)
  case Nil
  then show ?case by simp
next
  case (Cons t ts)
  obtain v st' where n: "nextVersion t st = (v, st')" by (cases "nextVersion t st")
  then have "t * 1000 \<le> v" "clock st' = Some v" using nextVersion_clock [OF n] by simp_all
  then show ?case using Cons.IH [of st'] versions_above [of _ ts st'] by (auto simp: n)
qed

subsection \<open>Retry delays\<close>

text \<open>
  A failed row is retried after its backoff, five seconds doubled per attempt up to one hour,
  give or take twenty per cent; so never sooner than four seconds.
\<close>

theorem retry_delay_bounds:
  fixes n :: nat
  assumes "0 \<le> random" "random < 1"
  defines "e \<equiv> min RETRY_MAX_MS (RETRY_BASE_MS * 2 ^ (n - 1))"
  shows "\<bar>5 * mirrorRetryDelayMs n random - 5 * e\<bar> \<le> e + 2 \<and> 4000 \<le> mirrorRetryDelayMs n random \<and>
    mirrorRetryDelayMs n random \<le> 4320000"
proof -
  have p: "(1::int) \<le> 2 ^ (n - 1)" by simp
  have e: "5000 \<le> e" "e \<le> 3600000"
    using p by (auto simp: e_def RETRY_MAX_MS_def RETRY_BASE_MS_def)
  define x where "x = of_int e * (8 / 10 + random * (4 / 10)) + (1 / 2 :: rat)"
  have d: "mirrorRetryDelayMs n random = \<lfloor>x\<rfloor>" by (simp add: mirrorRetryDelayMs_def e_def x_def Let_def)
  have pos: "(0::rat) \<le> of_int e" using e by simp
  have lo: "of_int e * (8 / 10) + 1 / 2 \<le> x" using assms(1) pos by (simp add: x_def algebra_simps)
  have "of_int e * random \<le> of_int e * 1" using assms(2) pos by (intro mult_left_mono) simp_all
  then have hi: "x \<le> of_int e * (12 / 10) + 1 / 2" by (simp add: x_def algebra_simps)
  have 1: "of_int (5 * \<lfloor>x\<rfloor>) \<le> (of_int (6 * e + 2) :: rat) + 1 / 2"
    using hi of_int_floor_le [of x] unfolding of_int_mult of_int_add of_int_numeral by linarith
  have 2: "(of_int (4 * e - 3) :: rat) + 1 / 2 < of_int (5 * \<lfloor>x\<rfloor>)"
    using lo floor_correct [of x] unfolding of_int_mult of_int_diff of_int_numeral by linarith
  have "5 * \<lfloor>x\<rfloor> \<le> 6 * e + 2"
  proof (rule ccontr)
    assume "\<not> 5 * \<lfloor>x\<rfloor> \<le> 6 * e + 2"
    then have "6 * e + 3 \<le> 5 * \<lfloor>x\<rfloor>" by simp
    then have "(of_int (6 * e + 3) :: rat) \<le> of_int (5 * \<lfloor>x\<rfloor>)" by (simp only: of_int_le_iff)
    with 1 show False by simp
  qed
  moreover have "4 * e - 2 \<le> 5 * \<lfloor>x\<rfloor>"
  proof (rule ccontr)
    assume "\<not> 4 * e - 2 \<le> 5 * \<lfloor>x\<rfloor>"
    then have "5 * \<lfloor>x\<rfloor> \<le> 4 * e - 3" by simp
    then have "(of_int (5 * \<lfloor>x\<rfloor>) :: rat) \<le> of_int (4 * e - 3)" by (simp only: of_int_le_iff)
    with 2 show False by simp
  qed
  ultimately have "5 * mirrorRetryDelayMs n random \<le> 6 * e + 2" "4 * e - 2 \<le> 5 * mirrorRetryDelayMs n random"
    by (simp_all only: d)
  then show ?thesis using e by (intro conjI) arith+
qed

lemma retry_delay_bounds_witness:
  "4000 \<le> mirrorRetryDelayMs 1 (0 :: rat) \<and> mirrorRetryDelayMs 20 (1 / 2) \<le> 4320000"
  using retry_delay_bounds [of 0 1] retry_delay_bounds [of "1 / 2" 20] by simp

subsection \<open>A drain that meets no failure\<close>

lemma queue_begin_row [simp]: "queue (snd (begin_row now sn r st)) = queue st"
  by (cases "(case payload r of Some e \<Rightarrow> [e] | None \<Rightarrow> sn (row_kind r) (entity_id r)) = []")
    (simp_all add: begin_row_def nextVersion_def Let_def)

lemma finish_row_remove:
  "distinct (map row_key (queue st)) \<Longrightarrow> r \<in> set (queue st) \<Longrightarrow>
   queue (finish_row r st) = filter (\<lambda>q. q \<noteq> r) (queue st)"
  by (auto simp: finish_row_def intro!: filter_cong dest: distinct_map [THEN iffD1] inj_onD)

definition undisturbed :: "(nat \<Rightarrow> 'ev row_env) \<Rightarrow> int \<Rightarrow> bool" where
  "undisturbed env deadline \<longleftrightarrow>
     (\<forall>i. check_now (env i) \<le> deadline \<and> row_result (env i) = Delivered \<and> meanwhile (env i) = (\<lambda>st. st))"

lemma drain_row_delivered:
  assumes "row_result e = Delivered" "meanwhile e = (\<lambda>st. st)"
    and "distinct (map row_key (queue (store p)))" "r \<in> set (queue (store p))"
  shows "\<exists>p'. drain_row e r p = (p', False) \<and>
    queue (store p') = filter (\<lambda>q. q \<noteq> r) (queue (store p)) \<and>
    applied p' = applied p + 1 \<and> failed p' = failed p"
proof -
  obtain evs st where b: "begin_row (version_now e) (env_snapshot e) r (store p) = (evs, st)"
    by (cases "begin_row (version_now e) (env_snapshot e) r (store p)")
  then have "queue st = queue (store p)"
    using queue_begin_row [of "version_now e" "env_snapshot e" r "store p"] by simp
  then show ?thesis
    using assms finish_row_remove [of st r] by (simp add: drain_row_def b)
qed

lemma drain_loop_delivered:
  assumes "undisturbed env deadline" "distinct (map row_key (queue (store p)))"
    and "set rs \<subseteq> set (queue (store p))" "distinct rs"
  shows "queue (store (drain_loop env deadline i rs p)) = filter (\<lambda>q. q \<notin> set rs) (queue (store p)) \<and>
    applied (drain_loop env deadline i rs p) = applied p + length rs \<and>
    failed (drain_loop env deadline i rs p) = failed p"
  using assms
proof (induction rs arbitrary: i p)
  case Nil
  then show ?case by simp
next
  case (Cons r rs)
  have e: "check_now (env i) \<le> deadline" "row_result (env i) = Delivered"
    "meanwhile (env i) = (\<lambda>st. st)" using Cons.prems(1) by (simp_all add: undisturbed_def)
  obtain p' where p': "drain_row (env i) r p = (p', False)"
    "queue (store p') = filter (\<lambda>q. q \<noteq> r) (queue (store p))"
    "applied p' = applied p + 1" "failed p' = failed p"
    using drain_row_delivered [OF e(2,3) Cons.prems(2)] Cons.prems(3) by (auto simp: insert_subset)
  have "distinct (map row_key (queue (store p')))"
    using Cons.prems(2) by (auto simp: p' distinct_map intro: inj_on_subset)
  moreover have "set rs \<subseteq> set (queue (store p'))" using Cons.prems(3,4) by (auto simp: p')
  ultimately show ?case
    using Cons.IH [of p' "i + 1"] Cons.prems(1,4) e(1) p'
    by (auto simp: conj_commute intro: filter_cong)
qed

text \<open>
  When every call succeeds within the time budget and nothing is written meanwhile, one
  default drain empties an outbox of up to a hundred due rows.
\<close>

theorem drain_empties_outbox:
  assumes "undisturbed env (startedAt + DEFAULT_BUDGET_MS)"
    and "distinct (map row_key (queue st))" "length (queue st) \<le> DEFAULT_MAX_ROWS"
    and "\<forall>r \<in> set (queue st). next_attempt_at r \<le> startedAt"
  shows "fst (drain True \<lparr>maxRows = None, ignoreSchedule = False, budgetMs = None\<rparr> startedAt env st) =
    \<lparr>result_applied = length (queue st), result_failed = 0, result_remaining = 0\<rparr>"
proof -
  let ?rs = "select_due startedAt DEFAULT_MAX_ROWS st"
  have f: "filter (\<lambda>r. next_attempt_at r \<le> startedAt) (queue st) = queue st"
    using assms(4) by (simp add: filter_id_conv)
  have rs: "set ?rs = set (queue st)" "distinct ?rs" "length ?rs = length (queue st)"
    using assms(2,3) by (simp_all add: select_due_def f distinct_map)
  show ?thesis
    using drain_loop_delivered [OF assms(1), where i = 0 and rs = ?rs and p =
        "\<lparr>store = st, sent = [], applied = 0, failed = 0, consecutiveFailures = 0\<rparr>"] assms(2) rs
    by (simp add: drain_def pendingCount_def Let_def)
qed

definition example_row :: "string \<Rightarrow> string \<Rightarrow> nat \<Rightarrow> int \<Rightarrow> string OutboxRow" where
  "example_row kind eid n due =
     (new_row (kind @ '':'' @ eid) kind eid None 0 due)\<lparr>attempts := n\<rparr>"

definition example_env :: "(string outbox \<Rightarrow> string outbox) \<Rightarrow> row_outcome \<Rightarrow> nat \<Rightarrow> string row_env" where
  "example_env f res i =
     \<lparr>check_now = 1000, version_now = 1000, env_snapshot = (\<lambda>kind eid. [eid]), meanwhile = f,
      row_result = res, fail_now = 2000, fail_random = 1 / 2\<rparr>"

lemma drain_empties_outbox_witness:
  "fst (drain True \<lparr>maxRows = None, ignoreSchedule = False, budgetMs = None\<rparr> 1000
      (example_env (\<lambda>st. st) Delivered)
      \<lparr>queue = [example_row ''app'' ''a'' 0 900, example_row ''app'' ''b'' 2 800],
       clock = None, armedAt = None, alarm = None\<rparr>) =
    \<lparr>result_applied = 2, result_failed = 0, result_remaining = 0\<rparr>"
  using drain_empties_outbox [of "example_env (\<lambda>st. st) Delivered" 1000
      "\<lparr>queue = [example_row ''app'' ''a'' 0 900, example_row ''app'' ''b'' 2 800],
        clock = None, armedAt = None, alarm = None\<rparr>"]
  by (simp add: undisturbed_def example_env_def example_row_def new_row_def DEFAULT_BUDGET_MS_def
      DEFAULT_MAX_ROWS_def)

subsection \<open>A stale alarm\<close>

text \<open>
  The instance field outlives the alarm it stands for: a row marked while a call is failing arms
  the alarm for one second later, the handler then replaces that alarm by the retry time, and the
  next entity marked finds the field set and arms nothing.
\<close>

definition stale_outbox :: "string outbox" where
  "stale_outbox =
     markDirty True 3000 Mirror_workspace ''w''
       (org_alarm True 1000
          (example_env (markDirty True 1500 Mirror_app ''a'') (Apply_failed 0 ''D1 down'')) None 2100
          \<lparr>queue = [example_row ''app'' ''a'' 9 1000], clock = None, armedAt = Some 1000,
           alarm = Some 1000\<rparr>)"

text \<open>
  After a failing drain during which its row was written again, a newly marked entity that is
  due in one second can wait for the retry alarm instead: here more than forty minutes.
\<close>

theorem stale_alarm_delays_rows:
  "nextDueAt stale_outbox = Some 4000 \<and> alarm stale_outbox = Some 2562000"
  by code_simp
end
