(* ===== verification/MirrorIndex.thy ===== *)
theory MirrorIndex
  imports MirrorOutbox
begin

section \<open>The D1 index: versioned admin events\<close>

text \<open>
  Model of the mirror side of \<open>src/workers/main/src/app-index-db.ts\<close>: the ledger \<open>mirror_rows\<close>,
  its guards, and \<open>applyAdminEvent\<close> on the tables of users, organisations, workspaces, apps,
  invitations, memberships and workspace members, with \<open>purgeMirroredOrg\<close>. A table is the
  association list from primary keys to rows; a \<open>batch\<close> is one atomic sequence of statements.
  Of the thread table the columns that \<open>thread_upsert\<close> copies from its payload are kept; the
  previews, the channel kinds and the error and model summary, which that event computes with
  text helpers or merges with what the row already holds, are left out, and so is
  \<open>thread_error_recorded\<close>, which writes only those.
\<close>

subsection \<open>Tables\<close>

type_synonym ledger_key = "MirrorKind \<times> string"

record ledger_entry =
  ledger_version :: int
  ledger_deleted :: bool

record user_row =
  user_email :: string
  user_name :: "string option"
  user_avatar :: "string \<times> string"
  user_created_at :: int
  user_is_superuser :: bool
  user_is_orphaned :: bool
  user_org_count :: int
  user_signup_ip :: "string option"
  user_email_verified_at :: "int option"
  user_orphaned_at :: "int option"

record org_row =
  org_name :: string
  org_slug :: "string option"
  org_created_at :: int
  org_archived :: bool
  org_billing_status :: "string option"
  org_billing_plan :: "string option"
  org_created_by :: "string option"
  org_member_count :: int
  org_workspace_count :: int
  org_llm_provider :: "string option"
  org_llm_provider_updated_at :: "int option"

record workspace_row =
  ws_name :: string
  ws_org_id :: string
  ws_description :: "string option"
  ws_avatar_color :: "string option"
  ws_avatar_content :: "string option"
  ws_created_at :: int
  ws_created_by :: "string option"
  ws_archived :: bool
  ws_archived_at :: "int option"
  ws_archived_by :: "string option"
  ws_compute_tier :: string
  ws_thread_count :: int
  ws_integration_count :: int
  ws_email_handle :: "string option"

record thread_row =
  thread_org_id :: string
  thread_workspace_id :: string
  thread_created_at :: int
  thread_title :: "string option"
  thread_model :: string
  thread_updated_at :: int
  thread_created_by :: "string option"
  thread_user_message_count :: "int option"
  thread_last_user_message_at :: "int option"
  thread_source :: "string option"
  thread_channel_kind :: "string option"

record app_row =
  app_script_name :: string
  app_org_id :: "string option"
  app_workspace_id :: string
  app_project_id :: "string option"
  app_created_by :: "string option"
  app_created_at :: int
  app_updated_at :: int
  app_is_public :: bool
  app_preview_status :: "string option"
  app_preview_error :: "string option"

record invitation_row =
  inv_org_id :: string
  inv_email :: string
  inv_role :: string
  inv_invited_by :: string
  inv_status :: string
  inv_created_at :: int
  inv_expires_at :: int

record membership_row =
  mem_role :: string
  mem_joined_at :: int
  mem_access_default :: "string option"

record member_row =
  wm_org_id :: string
  wm_access_level :: string
  wm_granted_by :: "string option"
  wm_granted_at :: int

record app_index =
  mirror_rows :: "(ledger_key \<times> ledger_entry) list"
  users :: "(string \<times> user_row) list"
  deleted_users :: "(string \<times> int) list"
  orgs :: "(string \<times> org_row) list"
  workspaces :: "(string \<times> workspace_row) list"
  threads :: "(string \<times> thread_row) list"
  apps :: "(string \<times> app_row) list"
  invitations :: "(string \<times> invitation_row) list"
  org_memberships :: "((string \<times> string) \<times> membership_row) list"
  workspace_members :: "((string \<times> string) \<times> member_row) list"

subsection \<open>Events\<close>

text \<open>
  Payloads. An optional field (\<open>?? null\<close>) is an option; a field whose presence the code tests
  (\<open>hasOwnField\<close>) is an option of the field's type.
\<close>

record user_payload =
  up_id :: string
  up_email :: "string option"
  up_name :: "string option"
  up_avatar :: "(string \<times> string) option"
  up_created_at :: "int option"
  up_is_superuser :: bool
  up_is_orphaned :: bool
  up_org_count :: "int option"
  up_signup_ip :: "string option"
  up_email_verified_at :: "int option option"
  up_orphaned_at :: "int option option"

record org_payload =
  op_id :: string
  op_name :: string
  op_slug :: "string option"
  op_created_at :: "int option"
  op_archived :: bool
  op_billing_status :: "string option"
  op_billing_plan :: "string option"
  op_created_by :: "string option"
  op_member_count :: "int option"
  op_workspace_count :: "int option"

record workspace_payload =
  wp_id :: string
  wp_name :: string
  wp_org_id :: string
  wp_description :: "string option"
  wp_avatar :: "(string \<times> string) option"
  wp_created_at :: "int option"
  wp_created_by :: "string option"
  wp_archived :: bool
  wp_archived_at :: "int option"
  wp_archived_by :: "string option"
  wp_compute_tier :: "string option"
  wp_integration_count :: "int option"
  wp_email_handle :: "string option option"

record app_payload =
  ap_script_name :: string
  ap_org_id :: "string option"
  ap_workspace_id :: string
  ap_project_id :: "string option"
  ap_created_by :: "string option"
  ap_created_at :: "int option"
  ap_updated_at :: "int option"
  ap_is_public :: bool
  ap_preview_status :: "string option"
  ap_preview_error :: "string option"

record invitation_payload =
  ip_id :: string
  ip_org_id :: string
  ip_email :: string
  ip_role :: string
  ip_invited_by :: string
  ip_status :: "string option"
  ip_created_at :: "int option"
  ip_expires_at :: "int option"

record thread_payload =
  tp_id :: string
  tp_org_id :: string
  tp_workspace_id :: string
  tp_created_at :: "int option"
  tp_title :: "string option"
  tp_model :: "string option"
  tp_updated_at :: "int option"
  tp_created_by :: "string option"
  tp_user_message_count :: "int option"
  tp_last_user_message_at :: "int option"
  tp_source :: "string option"
  tp_channel_kind :: "string option"

datatype admin_event =
    User_upsert user_payload
  | User_delete string
  | Org_upsert org_payload
  | Org_llm_provider_update string "string option" "int option"
  | Workspace_upsert workspace_payload
  | App_upsert app_payload
  | Invitation_upsert invitation_payload
  | App_delete string "string option"
  | Invitation_delete string
  | Workspace_delete string
  | Thread_upsert thread_payload
  | Thread_delete string "string option"
  | Org_member_delta string int
  | User_org_delta string int
  | Org_membership_upsert string string string int "string option"
  | Org_membership_delete string string
  | Workspace_member_upsert string string string string "string option" int
  | Workspace_member_delete string string

subsection \<open>The ledger\<close>

definition normalizeMirrorVersion :: "int option \<Rightarrow> int option" where
  "normalizeMirrorVersion v =
     (case v of None \<Rightarrow> None
      | Some n \<Rightarrow> if 0 < n \<and> n \<le> MAX_SAFE_INTEGER then Some n else None)"

definition orgMembershipMirrorKey :: "string \<Rightarrow> string \<Rightarrow> string" where
  "orgMembershipMirrorKey orgId userId = orgId @ '':'' @ userId"

definition workspaceMemberMirrorKey :: "string \<Rightarrow> string \<Rightarrow> string" where
  "workspaceMemberMirrorKey workspaceId userId = workspaceId @ '':'' @ userId"

definition getAppId :: "string option \<Rightarrow> string \<Rightarrow> string" where
  "getAppId orgId scriptName =
     (case orgId of None \<Rightarrow> scriptName
      | Some oid \<Rightarrow> if oid = [] then scriptName else oid @ '':'' @ scriptName)"

text \<open>The upsert \<open>MIRROR_ROW_CLAIM_SQL\<close>, sent for versioned events only.\<close>

definition claimMirrorVersion ::
  "MirrorKind \<Rightarrow> string \<Rightarrow> int option \<Rightarrow> bool \<Rightarrow> app_index \<Rightarrow> app_index" where
  "claimMirrorVersion entity key version deleted d =
     (case version of None \<Rightarrow> d
      | Some v \<Rightarrow>
          d\<lparr>mirror_rows := upsert_row (entity, key) \<lparr>ledger_version = v, ledger_deleted = deleted\<rparr>
              (\<lambda>r. if v > ledger_version r
                   then \<lparr>ledger_version = v, ledger_deleted = deleted\<rparr> else r)
              (mirror_rows d)\<rparr>)"

definition mirrorUpsertGuard :: "MirrorKind \<Rightarrow> string \<Rightarrow> int option \<Rightarrow> app_index \<Rightarrow> bool" where
  "mirrorUpsertGuard entity key version d =
     (case version of
        None \<Rightarrow> (case map_of (mirror_rows d) (entity, key) of
                   None \<Rightarrow> True | Some r \<Rightarrow> \<not> ledger_deleted r)
      | Some v \<Rightarrow> (case map_of (mirror_rows d) (entity, key) of
                   None \<Rightarrow> False | Some r \<Rightarrow> ledger_version r = v \<and> \<not> ledger_deleted r))"

definition mirrorDeleteGuard :: "MirrorKind \<Rightarrow> string \<Rightarrow> int option \<Rightarrow> app_index \<Rightarrow> bool" where
  "mirrorDeleteGuard entity key version d =
     (case version of
        None \<Rightarrow> True
      | Some v \<Rightarrow> (case map_of (mirror_rows d) (entity, key) of
                   None \<Rightarrow> False | Some r \<Rightarrow> ledger_version r = v \<and> ledger_deleted r))"

text \<open>The batches: claim the version, then run the guarded statement.\<close>

definition guarded_upsert ::
  "MirrorKind \<Rightarrow> string \<Rightarrow> int option \<Rightarrow> (app_index \<Rightarrow> app_index) \<Rightarrow> app_index \<Rightarrow> app_index" where
  "guarded_upsert entity key version write d =
     (let d' = claimMirrorVersion entity key version False d
      in if mirrorUpsertGuard entity key version d' then write d' else d')"

definition guarded_delete ::
  "MirrorKind \<Rightarrow> string \<Rightarrow> int option \<Rightarrow> (app_index \<Rightarrow> app_index) \<Rightarrow> app_index \<Rightarrow> app_index" where
  "guarded_delete entity key version write d =
     (let d' = claimMirrorVersion entity key version True d
      in if mirrorDeleteGuard entity key version d' then write d' else d')"

subsection \<open>The statements\<close>

definition write_user :: "int \<Rightarrow> user_payload \<Rightarrow> app_index \<Rightarrow> app_index" where
  "write_user now u d =
     (let signupIp = (case up_signup_ip u of None \<Rightarrow> None
                      | Some s \<Rightarrow> if js_trim s = [] then None else Some (js_lower (js_trim s)));
          new = \<lparr>user_email = or_default [] (up_email u), user_name = up_name u,
                 user_avatar = or_default ([], []) (up_avatar u),
                 user_created_at = or_default now (up_created_at u),
                 user_is_superuser = up_is_superuser u, user_is_orphaned = up_is_orphaned u,
                 user_org_count = or_default 0 (up_org_count u), user_signup_ip = signupIp,
                 user_email_verified_at = or_default None (up_email_verified_at u),
                 user_orphaned_at = or_default None (up_orphaned_at u)\<rparr>
      in d\<lparr>users := upsert_row (up_id u) new
             (\<lambda>r. r\<lparr>user_email := user_email new, user_name := user_name new,
                     user_avatar := user_avatar new,
                     user_is_superuser := user_is_superuser new,
                     user_is_orphaned := user_is_orphaned new,
                     user_org_count := or_default (user_org_count r) (up_org_count u),
                     user_signup_ip := or_else signupIp (user_signup_ip r),
                     user_email_verified_at :=
                       or_default (user_email_verified_at r) (up_email_verified_at u),
                     user_orphaned_at := or_default (user_orphaned_at r) (up_orphaned_at u)\<rparr>)
             (users d)\<rparr>)"

definition delete_user :: "int \<Rightarrow> string \<Rightarrow> app_index \<Rightarrow> app_index" where
  "delete_user now uid d =
     d\<lparr>deleted_users := upsert_row uid now (\<lambda>_. now) (deleted_users d),
       org_memberships := delete_where (\<lambda>k r. snd k = uid) (org_memberships d),
       users := delete_row uid (users d)\<rparr>"

definition write_org :: "int \<Rightarrow> org_payload \<Rightarrow> app_index \<Rightarrow> app_index" where
  "write_org now p d =
     (let slug = (case op_slug p of None \<Rightarrow> None
                  | Some s \<Rightarrow> if js_trim s = [] then None else Some s);
          new = \<lparr>org_name = op_name p, org_slug = slug,
                 org_created_at = or_default now (op_created_at p), org_archived = op_archived p,
                 org_billing_status = op_billing_status p, org_billing_plan = op_billing_plan p,
                 org_created_by = op_created_by p,
                 org_member_count = or_default 0 (op_member_count p),
                 org_workspace_count = or_default 0 (op_workspace_count p),
                 org_llm_provider = None, org_llm_provider_updated_at = None\<rparr>
      in d\<lparr>orgs := upsert_row (op_id p) new
             (\<lambda>r. r\<lparr>org_name := org_name new, org_slug := or_else slug (org_slug r),
                     org_archived := org_archived new,
                     org_billing_status := org_billing_status new,
                     org_billing_plan := org_billing_plan new,
                     org_member_count := or_default (org_member_count r) (op_member_count p),
                     org_workspace_count := or_default (org_workspace_count r) (op_workspace_count p)\<rparr>)
             (orgs d)\<rparr>)"

definition write_org_llm_provider ::
  "string \<Rightarrow> string option \<Rightarrow> int option \<Rightarrow> app_index \<Rightarrow> app_index" where
  "write_org_llm_provider oid provider updated_at d =
     d\<lparr>orgs := update_row oid
        (\<lambda>r. r\<lparr>org_llm_provider := provider, org_llm_provider_updated_at := updated_at\<rparr>) (orgs d)\<rparr>"

definition count_workspaces :: "string \<Rightarrow> app_index \<Rightarrow> app_index" where
  "count_workspaces oid d =
     d\<lparr>orgs := update_row oid
        (\<lambda>r. r\<lparr>org_workspace_count := count_where (\<lambda>w. ws_org_id w = oid) (workspaces d)\<rparr>) (orgs d)\<rparr>"

definition workspace_of_payload :: "int \<Rightarrow> workspace_payload \<Rightarrow> workspace_row" where
  "workspace_of_payload now p =
     \<lparr>ws_name = wp_name p, ws_org_id = wp_org_id p, ws_description = wp_description p,
      ws_avatar_color = map_option fst (wp_avatar p), ws_avatar_content = map_option snd (wp_avatar p),
      ws_created_at = or_default now (wp_created_at p), ws_created_by = wp_created_by p,
      ws_archived = wp_archived p, ws_archived_at = wp_archived_at p,
      ws_archived_by = wp_archived_by p,
      ws_compute_tier = or_default ''standard'' (wp_compute_tier p),
      ws_thread_count = 0,
      ws_integration_count = or_default 0 (wp_integration_count p),
      ws_email_handle = or_default None (wp_email_handle p)\<rparr>"

definition write_workspace :: "int \<Rightarrow> workspace_payload \<Rightarrow> app_index \<Rightarrow> app_index" where
  "write_workspace now p d =
     (let new = workspace_of_payload now p
      in d\<lparr>workspaces := upsert_row (wp_id p) new
             (\<lambda>r. new\<lparr>ws_avatar_color := or_else (ws_avatar_color new) (ws_avatar_color r),
                       ws_avatar_content := or_else (ws_avatar_content new) (ws_avatar_content r),
                       ws_thread_count := ws_thread_count r,
                       ws_integration_count := or_default (ws_integration_count r) (wp_integration_count p),
                       ws_email_handle := or_default (ws_email_handle r) (wp_email_handle p)\<rparr>)
             (workspaces d)\<rparr>)"

definition app_of_payload :: "int \<Rightarrow> app_payload \<Rightarrow> app_row" where
  "app_of_payload now a =
     \<lparr>app_script_name = ap_script_name a, app_org_id = ap_org_id a,
      app_workspace_id = ap_workspace_id a, app_project_id = ap_project_id a,
      app_created_by = ap_created_by a, app_created_at = or_default now (ap_created_at a),
      app_updated_at = or_default now (ap_updated_at a), app_is_public = ap_is_public a,
      app_preview_status = ap_preview_status a, app_preview_error = ap_preview_error a\<rparr>"

definition write_app :: "int \<Rightarrow> app_payload \<Rightarrow> app_index \<Rightarrow> app_index" where
  "write_app now a d =
     d\<lparr>apps := upsert_row (getAppId (ap_org_id a) (ap_script_name a)) (app_of_payload now a)
                (\<lambda>r. app_of_payload now a) (apps d)\<rparr>"

definition write_invitation :: "int \<Rightarrow> invitation_payload \<Rightarrow> app_index \<Rightarrow> app_index" where
  "write_invitation now i d =
     (let new = \<lparr>inv_org_id = ip_org_id i, inv_email = ip_email i, inv_role = ip_role i,
                 inv_invited_by = ip_invited_by i,
                 inv_status = or_default ''pending'' (ip_status i),
                 inv_created_at = or_default now (ip_created_at i),
                 inv_expires_at = or_default now (ip_expires_at i)\<rparr>
      in d\<lparr>invitations := upsert_row (ip_id i) new
             (\<lambda>r. r\<lparr>inv_status := inv_status new, inv_role := inv_role new\<rparr>) (invitations d)\<rparr>)"

definition write_membership ::
  "bool \<Rightarrow> string \<Rightarrow> string \<Rightarrow> string \<Rightarrow> int \<Rightarrow> string option \<Rightarrow> app_index \<Rightarrow> app_index" where
  "write_membership versioned oid uid role joined_at access d =
     d\<lparr>org_memberships := upsert_row (oid, uid)
         \<lparr>mem_role = role, mem_joined_at = joined_at, mem_access_default = access\<rparr>
         (\<lambda>r. \<lparr>mem_role = role,
               mem_joined_at = (if versioned then joined_at else mem_joined_at r),
               mem_access_default = or_else access (mem_access_default r)\<rparr>)
         (org_memberships d)\<rparr>"

definition write_member ::
  "string \<Rightarrow> string \<Rightarrow> string \<Rightarrow> string \<Rightarrow> string option \<Rightarrow> int \<Rightarrow> app_index \<Rightarrow> app_index" where
  "write_member oid wid uid access granted_by granted_at d =
     (let new = \<lparr>wm_org_id = oid, wm_access_level = access, wm_granted_by = granted_by,
                 wm_granted_at = granted_at\<rparr>
      in d\<lparr>workspace_members := upsert_row (wid, uid) new (\<lambda>r. new) (workspace_members d)\<rparr>)"

definition count_threads :: "string \<Rightarrow> app_index \<Rightarrow> app_index" where
  "count_threads wid d =
     d\<lparr>workspaces := update_row wid
        (\<lambda>r. r\<lparr>ws_thread_count := count_where (\<lambda>t. thread_workspace_id t = wid) (threads d)\<rparr>)
        (workspaces d)\<rparr>"

definition thread_of_payload :: "int \<Rightarrow> thread_payload \<Rightarrow> thread_row" where
  "thread_of_payload now t =
     \<lparr>thread_org_id = tp_org_id t, thread_workspace_id = tp_workspace_id t,
      thread_created_at = or_default now (tp_created_at t), thread_title = tp_title t,
      thread_model = or_default ''sonnet'' (tp_model t),
      thread_updated_at = or_default now (tp_updated_at t), thread_created_by = tp_created_by t,
      thread_user_message_count = tp_user_message_count t,
      thread_last_user_message_at = tp_last_user_message_at t, thread_source = tp_source t,
      thread_channel_kind = tp_channel_kind t\<rparr>"

text \<open>The columns kept when the thread is already there: its organisation, workspace and age.\<close>

definition write_thread :: "int \<Rightarrow> thread_payload \<Rightarrow> app_index \<Rightarrow> app_index" where
  "write_thread now t d =
     (let new = thread_of_payload now t
      in d\<lparr>threads := upsert_row (tp_id t) new
             (\<lambda>r. new\<lparr>thread_org_id := thread_org_id r, thread_workspace_id := thread_workspace_id r,
                       thread_created_at := thread_created_at r\<rparr>) (threads d)\<rparr>)"

subsection \<open>\<open>applyAdminEvent\<close>\<close>

text \<open>\<open>now\<close> is the reading of \<open>Date.now()\<close>, one for the whole event.\<close>

fun applyAdminEvent :: "int \<Rightarrow> admin_event \<times> int option \<Rightarrow> app_index \<Rightarrow> app_index" where
  "applyAdminEvent now (User_upsert u, v) d =
     (if map_of (deleted_users d) (up_id u) \<noteq> None then d
      else guarded_upsert Mirror_user (up_id u) (normalizeMirrorVersion v) (write_user now u) d)"
| "applyAdminEvent now (User_delete uid, v) d = delete_user now uid d"
| "applyAdminEvent now (Org_upsert p, v) d =
     guarded_upsert Mirror_org (op_id p) (normalizeMirrorVersion v) (write_org now p) d"
| "applyAdminEvent now (Org_llm_provider_update oid provider updated_at, v) d =
     guarded_upsert Mirror_org oid (normalizeMirrorVersion v)
       (write_org_llm_provider oid provider updated_at) d"
| "applyAdminEvent now (Workspace_upsert p, v) d =
     count_workspaces (wp_org_id p)
       (guarded_upsert Mirror_workspace (wp_id p) (normalizeMirrorVersion v) (write_workspace now p) d)"
| "applyAdminEvent now (App_upsert a, v) d =
     guarded_upsert Mirror_app (getAppId (ap_org_id a) (ap_script_name a)) (normalizeMirrorVersion v)
       (write_app now a) d"
| "applyAdminEvent now (Invitation_upsert i, v) d =
     guarded_upsert Mirror_invitation (ip_id i) (normalizeMirrorVersion v) (write_invitation now i) d"
| "applyAdminEvent now (Thread_upsert t, v) d =
     count_threads (tp_workspace_id t)
       (guarded_upsert Mirror_thread (tp_id t) (normalizeMirrorVersion v) (write_thread now t) d)"
| "applyAdminEvent now (Thread_delete tid wid, v) d =
     (let workspaceId = or_else wid (map_option thread_workspace_id (map_of (threads d) tid));
          d' = guarded_delete Mirror_thread tid (normalizeMirrorVersion v)
                 (\<lambda>d. d\<lparr>threads := delete_row tid (threads d)\<rparr>) d
      in case workspaceId of None \<Rightarrow> d'
         | Some w \<Rightarrow> if w = [] then d' else count_threads w d')"
| "applyAdminEvent now (App_delete script oid, v) d =
     (if oid = None \<or> oid = Some [] then
        d\<lparr>apps := delete_where (\<lambda>k r. app_script_name r = script) (apps d)\<rparr>
      else guarded_delete Mirror_app (getAppId oid script) (normalizeMirrorVersion v)
             (\<lambda>d. d\<lparr>apps := delete_row (getAppId oid script) (apps d)\<rparr>) d)"
| "applyAdminEvent now (Invitation_delete iid, v) d =
     guarded_delete Mirror_invitation iid (normalizeMirrorVersion v)
       (\<lambda>d. d\<lparr>invitations := delete_row iid (invitations d)\<rparr>) d"
| "applyAdminEvent now (Workspace_delete wid, v) d =
     (let orgId = map_option ws_org_id (map_of (workspaces d) wid);
          d' = guarded_delete Mirror_workspace wid (normalizeMirrorVersion v)
                 (\<lambda>d. d\<lparr>workspaces := delete_row wid (workspaces d)\<rparr>) d
      in case orgId of None \<Rightarrow> d'
         | Some oid \<Rightarrow> if oid = [] then d' else count_workspaces oid d')"
| "applyAdminEvent now (Org_member_delta oid delta, v) d =
     d\<lparr>orgs := update_row oid (\<lambda>r. r\<lparr>org_member_count := max 0 (org_member_count r + delta)\<rparr>) (orgs d)\<rparr>"
| "applyAdminEvent now (User_org_delta uid delta, v) d =
     d\<lparr>users := update_row uid (\<lambda>r. r\<lparr>user_org_count := max 0 (user_org_count r + delta)\<rparr>) (users d)\<rparr>"
| "applyAdminEvent now (Org_membership_upsert oid uid role joined_at access, v) d =
     (let version = normalizeMirrorVersion v
      in guarded_upsert Mirror_org_membership (orgMembershipMirrorKey oid uid) version
           (write_membership (version \<noteq> None) oid uid role joined_at access) d)"
| "applyAdminEvent now (Org_membership_delete oid uid, v) d =
     guarded_delete Mirror_org_membership (orgMembershipMirrorKey oid uid) (normalizeMirrorVersion v)
       (\<lambda>d. d\<lparr>org_memberships := delete_row (oid, uid) (org_memberships d)\<rparr>) d"
| "applyAdminEvent now (Workspace_member_upsert oid wid uid access granted_by granted_at, v) d =
     guarded_upsert Mirror_workspace_member (workspaceMemberMirrorKey wid uid) (normalizeMirrorVersion v)
       (write_member oid wid uid access granted_by granted_at) d"
| "applyAdminEvent now (Workspace_member_delete wid uid, v) d =
     guarded_delete Mirror_workspace_member (workspaceMemberMirrorKey wid uid) (normalizeMirrorVersion v)
       (\<lambda>d. d\<lparr>workspace_members := delete_row (wid, uid) (workspace_members d)\<rparr>) d"

text \<open>\<open>purgeMirroredOrg\<close>: the tables it empties, less the error events.\<close>

definition purgeMirroredOrg :: "string \<Rightarrow> app_index \<Rightarrow> app_index" where
  "purgeMirroredOrg oid d =
     d\<lparr>mirror_rows := upsert_row (Mirror_org, oid)
         \<lparr>ledger_version = MAX_SAFE_INTEGER, ledger_deleted = True\<rparr>
         (\<lambda>r. \<lparr>ledger_version = MAX_SAFE_INTEGER, ledger_deleted = True\<rparr>) (mirror_rows d),
       workspace_members := delete_where (\<lambda>k r. wm_org_id r = oid) (workspace_members d),
       org_memberships := delete_where (\<lambda>k r. fst k = oid) (org_memberships d),
       invitations := delete_where (\<lambda>k r. inv_org_id r = oid) (invitations d),
       apps := delete_where (\<lambda>k r. app_org_id r = Some oid) (apps d),
       threads := delete_where (\<lambda>k r. thread_org_id r = oid) (threads d),
       workspaces := delete_where (\<lambda>k r. ws_org_id r = oid) (workspaces d),
       orgs := delete_row oid (orgs d)\<rparr>"

subsection \<open>The contract of a versioned mirror\<close>

text \<open>
  What the outbox relies on when it sends an event stamped with a version to the index: a newer
  version lands, an older one changes nothing, and events about other keys do not interfere.
  \<open>reflects d e\<close> says that the row the event \<open>e\<close> is about is as \<open>e\<close> describes it.
\<close>

locale versioned_mirror =
  fixes deliver :: "int \<Rightarrow> 'ev \<times> int option \<Rightarrow> 'd \<Rightarrow> 'd"
    and key_of :: "'ev \<Rightarrow> 'k"
    and good :: "'ev \<Rightarrow> bool"
    and version_of :: "'d \<Rightarrow> 'k \<Rightarrow> int"
    and reflects :: "'d \<Rightarrow> 'ev \<Rightarrow> bool"
  assumes version_deliver:
      "good e \<Longrightarrow> 0 < v \<Longrightarrow> v \<le> MAX_SAFE_INTEGER \<Longrightarrow>
       version_of (deliver now (e, Some v) d) k =
         (if k = key_of e then max (version_of d k) v else version_of d k)"
    and newer_lands:
      "good e \<Longrightarrow> 0 < v \<Longrightarrow> v \<le> MAX_SAFE_INTEGER \<Longrightarrow> version_of d (key_of e) < v \<Longrightarrow>
       reflects (deliver now (e, Some v) d) e"
    and older_ignored:
      "good e \<Longrightarrow> good e' \<Longrightarrow> 0 < v \<Longrightarrow> v \<le> MAX_SAFE_INTEGER \<Longrightarrow>
       v < version_of d (key_of e) \<Longrightarrow>
       reflects (deliver now (e, Some v) d) e' \<longleftrightarrow> reflects d e'"
    and repeat_harmless:
      "good e \<Longrightarrow> 0 < v \<Longrightarrow> v \<le> MAX_SAFE_INTEGER \<Longrightarrow> reflects d e \<Longrightarrow>
       reflects (deliver now (e, Some v) d) e"
    and others_kept:
      "good e \<Longrightarrow> good e' \<Longrightarrow> 0 < v \<Longrightarrow> v \<le> MAX_SAFE_INTEGER \<Longrightarrow> key_of e' \<noteq> key_of e \<Longrightarrow>
       reflects (deliver now (e, Some v) d) e' \<longleftrightarrow> reflects d e'"
begin

text \<open>A delivery: a clock reading, an event and its version.\<close>

definition deliver_all :: "(int \<times> 'ev \<times> int) list \<Rightarrow> 'd \<Rightarrow> 'd" where
  "deliver_all ms d = fold (\<lambda>(now, e, v). deliver now (e, Some v)) ms d"

definition stamped :: "(int \<times> 'ev \<times> int) list \<Rightarrow> bool" where
  "stamped ms \<longleftrightarrow> (\<forall>(now, e, v) \<in> set ms. good e \<and> 0 < v \<and> v \<le> MAX_SAFE_INTEGER)"

lemma version_deliver_all:
  assumes "stamped ms" and "\<forall>(now, e, v) \<in> set ms. key_of e = k \<longrightarrow> v \<le> b"
    and "version_of d k \<le> b"
  shows "version_of (deliver_all ms d) k \<le> b"
  using assms
proof (induction ms arbitrary: d)
  case Nil
  then show ?case by (simp add: deliver_all_def)
next
  case (Cons m ms)
  obtain now e v where m: "m = (now, e, v)" by (cases m)
  have "version_of (deliver now (e, Some v) d) k \<le> b"
    using Cons.prems by (auto simp: m stamped_def version_deliver)
  moreover have "stamped ms" using Cons.prems(1) by (simp add: stamped_def)
  ultimately show ?case
    using Cons.IH [of "deliver now (e, Some v) d"] Cons.prems(2) by (simp add: deliver_all_def m)
qed

lemma newest_kept:
  assumes "stamped ms" and "good e"
    and "\<forall>(now, e', v') \<in> set ms. key_of e' = key_of e \<longrightarrow> v' < v \<or> v' = v \<and> e' = e"
    and "version_of d (key_of e) = v" and "reflects d e"
  shows "reflects (deliver_all ms d) e"
  using assms
proof (induction ms arbitrary: d)
  case Nil
  then show ?case by (simp add: deliver_all_def)
next
  case (Cons m ms)
  obtain now e' v' where m: "m = (now, e', v')" by (cases m)
  have g: "good e'" "0 < v'" "v' \<le> MAX_SAFE_INTEGER" using Cons.prems(1) by (auto simp: m stamped_def)
  let ?d = "deliver now (e', Some v') d"
  have "reflects ?d e \<and> version_of ?d (key_of e) = v"
  proof (cases "key_of e' = key_of e")
    case True
    then consider "v' < v" | "v' = v" "e' = e" using Cons.prems(3) by (auto simp: m)
    then show ?thesis
      using g Cons.prems True by cases (auto simp: version_deliver older_ignored repeat_harmless)
  next
    case False
    then show ?thesis using g Cons.prems by (auto simp: version_deliver others_kept)
  qed
  moreover have "stamped ms" using Cons.prems(1) by (simp add: stamped_def)
  ultimately show ?case
    using Cons.IH [of ?d] Cons.prems(2,3) by (auto simp: deliver_all_def m)
qed

text \<open>
  Whatever the order of delivery and however often each message arrives, the index ends with the
  row of the newest version.
\<close>

lemma newest_wins:
  assumes "stamped ms" and "(now, e, v) \<in> set ms"
    and "\<forall>(now', e', v') \<in> set ms. key_of e' = key_of e \<longrightarrow> v' < v \<or> v' = v \<and> e' = e"
    and "version_of d (key_of e) < v"
  shows "reflects (deliver_all ms d) e"
  using assms
proof (induction ms arbitrary: d)
  case Nil
  then show ?case by simp
next
  case (Cons m ms)
  obtain now1 e1 v1 where m: "m = (now1, e1, v1)" by (cases m)
  have g: "good e1" "0 < v1" "v1 \<le> MAX_SAFE_INTEGER" using Cons.prems(1) by (auto simp: m stamped_def)
  let ?d = "deliver now1 (e1, Some v1) d"
  have st: "stamped ms" using Cons.prems(1) by (simp add: stamped_def)
  have tl: "\<forall>(now', e', v') \<in> set ms. key_of e' = key_of e \<longrightarrow> v' < v \<or> v' = v \<and> e' = e"
    using Cons.prems(3) by simp
  have step: "deliver_all (m # ms) d = deliver_all ms ?d" by (simp add: deliver_all_def m)
  show ?case
  proof (cases "e1 = e \<and> v1 = v")
    case True
    then have "version_of ?d (key_of e) = v" "reflects ?d e" "good e"
      using g Cons.prems(4) by (auto simp: version_deliver newer_lands)
    then show ?thesis unfolding step using newest_kept [OF st _ tl] by blast
  next
    case False
    then have "(now, e, v) \<in> set ms" using Cons.prems(2) by (auto simp: m)
    moreover have "version_of ?d (key_of e) < v"
      using g False Cons.prems(3,4) by (auto simp: m version_deliver)
    ultimately show ?thesis unfolding step using Cons.IH [OF st _ tl] by blast
  qed
qed

end

subsection \<open>The index is a versioned mirror\<close>

text \<open>
  The events an organisation sends, as its snapshot builds them, with all the optional columns
  filled. User events are left out: a deleted user is recorded in a table of its own and not in the
  ledger, and so are the unversioned deltas.
\<close>

fun mirrored :: "admin_event \<Rightarrow> bool" where
  "mirrored (Workspace_member_upsert oid wid uid access granted_by granted_at) = True"
| "mirrored (Workspace_member_delete wid uid) = True"
| "mirrored (Org_membership_upsert oid uid role joined_at access) = (access \<noteq> None)"
| "mirrored (Org_membership_delete oid uid) = True"
| "mirrored (App_upsert a) = (ap_created_at a \<noteq> None \<and> ap_updated_at a \<noteq> None)"
| "mirrored (App_delete script oid) = (oid \<noteq> None \<and> oid \<noteq> Some [])"
| "mirrored (Workspace_upsert p) =
     (wp_avatar p \<noteq> None \<and> wp_created_at p \<noteq> None \<and> wp_integration_count p \<noteq> None \<and>
      wp_email_handle p \<noteq> None)"
| "mirrored (Workspace_delete wid) = True"
| "mirrored (Org_upsert p) = True"
| "mirrored (Org_llm_provider_update oid provider updated_at) = True"
| "mirrored (Invitation_upsert i) = True"
| "mirrored (Invitation_delete iid) = True"
| "mirrored (Thread_upsert t) = (tp_updated_at t \<noteq> None)"
| "mirrored (Thread_delete tid wid) = True"
| "mirrored e = False"

fun event_key :: "admin_event \<Rightarrow> ledger_key" where
  "event_key (Workspace_member_upsert oid wid uid access granted_by granted_at) =
     (Mirror_workspace_member, workspaceMemberMirrorKey wid uid)"
| "event_key (Workspace_member_delete wid uid) =
     (Mirror_workspace_member, workspaceMemberMirrorKey wid uid)"
| "event_key (Org_membership_upsert oid uid role joined_at access) =
     (Mirror_org_membership, orgMembershipMirrorKey oid uid)"
| "event_key (Org_membership_delete oid uid) =
     (Mirror_org_membership, orgMembershipMirrorKey oid uid)"
| "event_key (App_upsert a) = (Mirror_app, getAppId (ap_org_id a) (ap_script_name a))"
| "event_key (App_delete script oid) = (Mirror_app, getAppId oid script)"
| "event_key (Workspace_upsert p) = (Mirror_workspace, wp_id p)"
| "event_key (Workspace_delete wid) = (Mirror_workspace, wid)"
| "event_key (Org_upsert p) = (Mirror_org, op_id p)"
| "event_key (Org_llm_provider_update oid provider updated_at) = (Mirror_org, oid)"
| "event_key (Invitation_upsert i) = (Mirror_invitation, ip_id i)"
| "event_key (Invitation_delete iid) = (Mirror_invitation, iid)"
| "event_key (Thread_upsert t) = (Mirror_thread, tp_id t)"
| "event_key (Thread_delete tid wid) = (Mirror_thread, tid)"
| "event_key e = (Mirror_user, [])"

text \<open>
  The row is as the event describes it, in every column the event sets when the row is already
  there. Counts that D1 derives (a workspace's threads, an organisation's workspaces) are no part of
  that; a slug that is absent or blank and a count that is absent leave the column alone. A
  provider update needs the organisation's row.
\<close>

fun row_reflects :: "app_index \<Rightarrow> admin_event \<Rightarrow> bool" where
  "row_reflects d (Workspace_member_upsert oid wid uid access granted_by granted_at) =
     (map_of (workspace_members d) (wid, uid) =
        Some \<lparr>wm_org_id = oid, wm_access_level = access, wm_granted_by = granted_by,
              wm_granted_at = granted_at\<rparr>)"
| "row_reflects d (Workspace_member_delete wid uid) = (map_of (workspace_members d) (wid, uid) = None)"
| "row_reflects d (Org_membership_upsert oid uid role joined_at access) =
     (map_of (org_memberships d) (oid, uid) =
        Some \<lparr>mem_role = role, mem_joined_at = joined_at, mem_access_default = access\<rparr>)"
| "row_reflects d (Org_membership_delete oid uid) = (map_of (org_memberships d) (oid, uid) = None)"
| "row_reflects d (App_upsert a) =
     (map_of (apps d) (getAppId (ap_org_id a) (ap_script_name a)) = Some (app_of_payload 0 a))"
| "row_reflects d (App_delete script oid) = (map_of (apps d) (getAppId oid script) = None)"
| "row_reflects d (Workspace_upsert p) =
     (map_option (\<lambda>r. r\<lparr>ws_thread_count := 0\<rparr>) (map_of (workspaces d) (wp_id p)) =
        Some (workspace_of_payload 0 p))"
| "row_reflects d (Workspace_delete wid) = (map_of (workspaces d) wid = None)"
| "row_reflects d (Org_upsert p) =
     (case map_of (orgs d) (op_id p) of None \<Rightarrow> False
      | Some r \<Rightarrow> org_name r = op_name p \<and> org_archived r = op_archived p \<and>
          org_billing_status r = op_billing_status p \<and> org_billing_plan r = op_billing_plan p \<and>
          (case op_slug p of None \<Rightarrow> True | Some t \<Rightarrow> js_trim t = [] \<or> org_slug r = Some t) \<and>
          (case op_member_count p of None \<Rightarrow> True | Some n \<Rightarrow> org_member_count r = n))"
| "row_reflects d (Org_llm_provider_update oid provider updated_at) =
     (case map_of (orgs d) oid of None \<Rightarrow> True
      | Some r \<Rightarrow> org_llm_provider r = provider \<and> org_llm_provider_updated_at r = updated_at)"
| "row_reflects d (Invitation_upsert i) =
     (case map_of (invitations d) (ip_id i) of None \<Rightarrow> False
      | Some r \<Rightarrow> inv_status r = or_default ''pending'' (ip_status i) \<and> inv_role r = ip_role i)"
| "row_reflects d (Invitation_delete iid) = (map_of (invitations d) iid = None)"
| "row_reflects d (Thread_upsert t) =
     (case map_of (threads d) (tp_id t) of None \<Rightarrow> False
      | Some r \<Rightarrow> thread_of_payload 0 t =
          r\<lparr>thread_org_id := tp_org_id t, thread_workspace_id := tp_workspace_id t,
            thread_created_at := or_default 0 (tp_created_at t)\<rparr>)"
| "row_reflects d (Thread_delete tid wid) = (map_of (threads d) tid = None)"
| "row_reflects d e = True"

fun is_delete :: "admin_event \<Rightarrow> bool" where
  "is_delete (Workspace_member_delete wid uid) = True"
| "is_delete (Org_membership_delete oid uid) = True"
| "is_delete (App_delete script oid) = True"
| "is_delete (Workspace_delete wid) = True"
| "is_delete (Invitation_delete iid) = True"
| "is_delete (Thread_delete tid wid) = True"
| "is_delete e = False"

text \<open>The row is as the event says, and the ledger does not contradict it.\<close>

definition ledger_agrees :: "app_index \<Rightarrow> admin_event \<Rightarrow> bool" where
  "ledger_agrees d e \<longleftrightarrow>
     (case map_of (mirror_rows d) (event_key e) of None \<Rightarrow> True
      | Some r \<Rightarrow> ledger_deleted r = is_delete e)"

definition mirrors :: "app_index \<Rightarrow> admin_event \<Rightarrow> bool" where
  "mirrors d e \<longleftrightarrow> row_reflects d e \<and> ledger_agrees d e"

definition recorded_version :: "app_index \<Rightarrow> ledger_key \<Rightarrow> int" where
  "recorded_version d k = (case map_of (mirror_rows d) k of None \<Rightarrow> 0 | Some r \<Rightarrow> ledger_version r)"

lemma normalize_valid [simp]: "0 < v \<Longrightarrow> v \<le> MAX_SAFE_INTEGER \<Longrightarrow> normalizeMirrorVersion (Some v) = Some v"
  by (simp add: normalizeMirrorVersion_def)

lemma claim_tables [simp]:
  "users (claimMirrorVersion en k v b d) = users d"
  "orgs (claimMirrorVersion en k v b d) = orgs d"
  "workspaces (claimMirrorVersion en k v b d) = workspaces d"
  "threads (claimMirrorVersion en k v b d) = threads d"
  "apps (claimMirrorVersion en k v b d) = apps d"
  "invitations (claimMirrorVersion en k v b d) = invitations d"
  "org_memberships (claimMirrorVersion en k v b d) = org_memberships d"
  "workspace_members (claimMirrorVersion en k v b d) = workspace_members d"
  by (simp_all add: claimMirrorVersion_def split: option.splits)

lemma claim_version:
  "0 < v \<Longrightarrow> recorded_version (claimMirrorVersion en k (Some v) b d) k' =
     (if k' = (en, k) then max (recorded_version d k') v else recorded_version d k')"
  by (auto simp: claimMirrorVersion_def recorded_version_def max_def split: option.splits)

text \<open>The three ways a guarded batch goes.\<close>

lemma guarded_upsert_newer:
  "0 < v \<Longrightarrow> recorded_version d (en, k) < v \<Longrightarrow>
   guarded_upsert en k (Some v) w d = w (claimMirrorVersion en k (Some v) False d)"
  by (auto simp: guarded_upsert_def mirrorUpsertGuard_def claimMirrorVersion_def
      recorded_version_def split: option.splits)

lemma guarded_delete_newer:
  "0 < v \<Longrightarrow> recorded_version d (en, k) < v \<Longrightarrow>
   guarded_delete en k (Some v) w d = w (claimMirrorVersion en k (Some v) True d)"
  by (auto simp: guarded_delete_def mirrorDeleteGuard_def claimMirrorVersion_def
      recorded_version_def split: option.splits)

lemma guarded_older:
  assumes "0 < v" "v < recorded_version d (en, k)"
  shows "guarded_upsert en k (Some v) w d = claimMirrorVersion en k (Some v) False d"
    and "guarded_delete en k (Some v) w d = claimMirrorVersion en k (Some v) True d"
  using assms
  by (auto simp: guarded_upsert_def guarded_delete_def mirrorUpsertGuard_def mirrorDeleteGuard_def
      claimMirrorVersion_def recorded_version_def split: option.splits)

lemma guarded_cases:
  "guarded_upsert en k v w d = w (claimMirrorVersion en k v False d) \<or>
   guarded_upsert en k v w d = claimMirrorVersion en k v False d"
  "guarded_delete en k v w d = w (claimMirrorVersion en k v True d) \<or>
   guarded_delete en k v w d = claimMirrorVersion en k v True d"
  by (simp_all add: guarded_upsert_def guarded_delete_def Let_def)

lemma guarded_version:
  assumes "0 < v" and "\<And>d. mirror_rows (w d) = mirror_rows d"
  shows "recorded_version (guarded_upsert en k (Some v) w d) k' =
           (if k' = (en, k) then max (recorded_version d k') v else recorded_version d k')"
    and "recorded_version (guarded_delete en k (Some v) w d) k' =
           (if k' = (en, k) then max (recorded_version d k') v else recorded_version d k')"
proof -
  have w: "recorded_version (w d) k' = recorded_version d k'" for d
    by (simp add: recorded_version_def assms(2))
  show "recorded_version (guarded_upsert en k (Some v) w d) k' =
           (if k' = (en, k) then max (recorded_version d k') v else recorded_version d k')"
    using guarded_cases(1) [of en k "Some v" w d] claim_version [OF assms(1)] w by metis
  show "recorded_version (guarded_delete en k (Some v) w d) k' =
           (if k' = (en, k) then max (recorded_version d k') v else recorded_version d k')"
    using guarded_cases(2) [of en k "Some v" w d] claim_version [OF assms(1)] w by metis
qed

lemma recorded_version_count [simp]:
  "recorded_version (count_workspaces oid d) k = recorded_version d k"
  "recorded_version (count_threads wid d) k = recorded_version d k"
  by (simp_all add: recorded_version_def count_workspaces_def count_threads_def)

lemmas row_writes = write_member_def write_membership_def write_app_def write_workspace_def
  write_org_def write_org_llm_provider_def write_invitation_def write_thread_def Let_def

lemma write_ledger [simp]:
  "mirror_rows (write_workspace now p d) = mirror_rows d"
  "mirror_rows (write_app now a d) = mirror_rows d"
  "mirror_rows (write_membership b oid uid role joined_at default_access d) = mirror_rows d"
  "mirror_rows (write_member oid wid uid access granted_by granted_at d) = mirror_rows d"
  "mirror_rows (write_org now q d) = mirror_rows d"
  "mirror_rows (write_org_llm_provider oid provider updated_at d) = mirror_rows d"
  "mirror_rows (write_invitation now i d) = mirror_rows d"
  "mirror_rows (write_thread now t d) = mirror_rows d"
  by (simp_all add: row_writes)

lemma index_version:
  assumes "mirrored e" "0 < v" "v \<le> MAX_SAFE_INTEGER"
  shows "recorded_version (applyAdminEvent now (e, Some v) d) k =
    (if k = event_key e then max (recorded_version d k) v else recorded_version d k)"
  using assms by (cases e) (auto simp: guarded_version Let_def split: option.splits)

lemma count_tables [simp]:
  "mirror_rows (count_workspaces oid d) = mirror_rows d"
  "workspaces (count_workspaces oid d) = workspaces d"
  "apps (count_workspaces oid d) = apps d"
  "org_memberships (count_workspaces oid d) = org_memberships d"
  "workspace_members (count_workspaces oid d) = workspace_members d"
  "invitations (count_workspaces oid d) = invitations d"
  "threads (count_workspaces oid d) = threads d"
  "mirror_rows (count_threads wid d) = mirror_rows d"
  "apps (count_threads wid d) = apps d"
  "orgs (count_threads wid d) = orgs d"
  "org_memberships (count_threads wid d) = org_memberships d"
  "workspace_members (count_threads wid d) = workspace_members d"
  "invitations (count_threads wid d) = invitations d"
  "threads (count_threads wid d) = threads d"
  by (simp_all add: count_workspaces_def count_threads_def)

lemma row_reflects_count_workspaces [simp]: "row_reflects (count_workspaces oid d) e = row_reflects d e"
proof (cases e)
  case (Org_upsert p)
  then show ?thesis by (cases "map_of (orgs d) oid"; cases "op_id p = oid") (simp_all add: count_workspaces_def split: option.split)
next
  case (Org_llm_provider_update k provider updated_at)
  then show ?thesis by (cases "map_of (orgs d) oid"; cases "k = oid") (simp_all add: count_workspaces_def)
qed simp_all

lemma row_reflects_count_threads [simp]: "row_reflects (count_threads wid d) e = row_reflects d e"
proof (cases e)
  case (Workspace_upsert p)
  then show ?thesis by (cases "map_of (workspaces d) wid"; cases "wp_id p = wid") (simp_all add: count_threads_def)
next
  case (Workspace_delete k)
  then show ?thesis by (simp add: count_threads_def)
qed simp_all

lemma row_reflects_claim [simp]: "row_reflects (claimMirrorVersion en k v b d) e = row_reflects d e"
  by (cases e) simp_all

lemma app_of_payload_full:
  "ap_created_at a \<noteq> None \<Longrightarrow> ap_updated_at a \<noteq> None \<Longrightarrow> app_of_payload now a = app_of_payload 0 a"
  by (auto simp: app_of_payload_def)

lemma workspace_of_payload_full:
  "wp_created_at p \<noteq> None \<Longrightarrow> workspace_of_payload now p = workspace_of_payload 0 p"
  by (auto simp: workspace_of_payload_def)

text \<open>The statement an event stands for, once its guard has let it through.\<close>

fun event_write :: "int \<Rightarrow> admin_event \<Rightarrow> app_index \<Rightarrow> app_index" where
  "event_write now (Workspace_member_upsert oid wid uid access granted_by granted_at) d =
     write_member oid wid uid access granted_by granted_at d"
| "event_write now (Workspace_member_delete wid uid) d =
     d\<lparr>workspace_members := delete_row (wid, uid) (workspace_members d)\<rparr>"
| "event_write now (Org_membership_upsert oid uid role joined_at access) d =
     write_membership True oid uid role joined_at access d"
| "event_write now (Org_membership_delete oid uid) d =
     d\<lparr>org_memberships := delete_row (oid, uid) (org_memberships d)\<rparr>"
| "event_write now (App_upsert a) d = write_app now a d"
| "event_write now (App_delete script oid) d =
     d\<lparr>apps := delete_row (getAppId oid script) (apps d)\<rparr>"
| "event_write now (Workspace_upsert p) d = write_workspace now p d"
| "event_write now (Workspace_delete wid) d = d\<lparr>workspaces := delete_row wid (workspaces d)\<rparr>"
| "event_write now (Org_upsert p) d = write_org now p d"
| "event_write now (Org_llm_provider_update oid provider updated_at) d =
     write_org_llm_provider oid provider updated_at d"
| "event_write now (Invitation_upsert i) d = write_invitation now i d"
| "event_write now (Invitation_delete iid) d = d\<lparr>invitations := delete_row iid (invitations d)\<rparr>"
| "event_write now (Thread_upsert t) d = write_thread now t d"
| "event_write now (Thread_delete tid wid) d = d\<lparr>threads := delete_row tid (threads d)\<rparr>"
| "event_write now e d = d"

lemma event_write_ledger [simp]: "mirror_rows (event_write now e d) = mirror_rows d"
  by (cases e) simp_all

lemma write_workspace_reflects:
  assumes "mirrored (Workspace_upsert p)"
  shows "row_reflects (write_workspace now p d) (Workspace_upsert p)"
proof -
  from assms obtain a t n h where p: "wp_avatar p = Some a" "wp_created_at p = Some t"
    "wp_integration_count p = Some n" "wp_email_handle p = Some h" by auto
  show ?thesis
    by (simp add: write_workspace_def workspace_of_payload_def p split: option.split)
qed

lemma write_app_reflects:
  "mirrored (App_upsert a) \<Longrightarrow> row_reflects (write_app now a d) (App_upsert a)"
  by (simp add: write_app_def app_of_payload_full [of a now] split: option.split)

lemma write_membership_reflects:
  "mirrored (Org_membership_upsert oid uid role joined_at access) \<Longrightarrow>
   row_reflects (write_membership True oid uid role joined_at access d)
     (Org_membership_upsert oid uid role joined_at access)"
  by (cases access) (simp_all add: write_membership_def split: option.split)

lemma write_member_reflects:
  "row_reflects (write_member oid wid uid access granted_by granted_at d)
     (Workspace_member_upsert oid wid uid access granted_by granted_at)"
  by (simp add: write_member_def Let_def split: option.split)

lemma write_org_reflects: "row_reflects (write_org now p d) (Org_upsert p)"
  by (auto simp: write_org_def Let_def split: option.split)

lemma write_org_llm_provider_reflects:
  "row_reflects (write_org_llm_provider oid provider updated_at d)
     (Org_llm_provider_update oid provider updated_at)"
  by (auto simp: write_org_llm_provider_def split: option.split)

lemma write_invitation_reflects: "row_reflects (write_invitation now i d) (Invitation_upsert i)"
  by (auto simp: write_invitation_def Let_def split: option.split)

lemma write_thread_reflects:
  "mirrored (Thread_upsert t) \<Longrightarrow> row_reflects (write_thread now t d) (Thread_upsert t)"
  by (auto simp: write_thread_def thread_of_payload_def Let_def split: option.split)

lemma event_write_reflects: "mirrored e \<Longrightarrow> row_reflects (event_write now e d) e"
  by (cases e)
    (simp_all only: event_write.simps write_workspace_reflects write_app_reflects
      write_membership_reflects write_member_reflects write_org_reflects
      write_org_llm_provider_reflects write_invitation_reflects write_thread_reflects,
     simp_all)

text \<open>A write touches the row of its own key only.\<close>

lemma write_members_other:
  "(Mirror_workspace_member, workspaceMemberMirrorKey wid uid) \<noteq> event_key e \<Longrightarrow>
   map_of (workspace_members (event_write now e d)) (wid, uid) = map_of (workspace_members d) (wid, uid)"
  by (cases e) (auto simp: row_writes)

lemma write_memberships_other:
  "(Mirror_org_membership, orgMembershipMirrorKey oid uid) \<noteq> event_key e \<Longrightarrow>
   map_of (org_memberships (event_write now e d)) (oid, uid) = map_of (org_memberships d) (oid, uid)"
  by (cases e) (auto simp: row_writes)

lemma write_apps_other:
  "(Mirror_app, k) \<noteq> event_key e \<Longrightarrow> map_of (apps (event_write now e d)) k = map_of (apps d) k"
  by (cases e) (auto simp: row_writes)

lemma write_workspaces_other:
  "(Mirror_workspace, k) \<noteq> event_key e \<Longrightarrow>
   map_of (workspaces (event_write now e d)) k = map_of (workspaces d) k"
  by (cases e) (auto simp: row_writes)

lemma write_orgs_other:
  "(Mirror_org, k) \<noteq> event_key e \<Longrightarrow> map_of (orgs (event_write now e d)) k = map_of (orgs d) k"
  by (cases e) (auto simp: row_writes)

lemma write_invitations_other:
  "(Mirror_invitation, k) \<noteq> event_key e \<Longrightarrow>
   map_of (invitations (event_write now e d)) k = map_of (invitations d) k"
  by (cases e) (auto simp: row_writes)

lemma write_threads_other:
  "(Mirror_thread, k) \<noteq> event_key e \<Longrightarrow>
   map_of (threads (event_write now e d)) k = map_of (threads d) k"
  by (cases e) (auto simp: row_writes)

lemma event_write_other:
  "mirrored e' \<Longrightarrow> event_key e' \<noteq> event_key e \<Longrightarrow>
   row_reflects (event_write now e d) e' \<longleftrightarrow> row_reflects d e'"
  by (cases e') (simp_all add: write_members_other write_memberships_other write_apps_other
      write_workspaces_other write_orgs_other write_invitations_other write_threads_other)

lemma event_write_fun:
  "event_write now (Workspace_member_upsert oid wid uid access granted_by granted_at) =
     write_member oid wid uid access granted_by granted_at"
  "event_write now (Workspace_member_delete wid uid) =
     (\<lambda>d. d\<lparr>workspace_members := delete_row (wid, uid) (workspace_members d)\<rparr>)"
  "event_write now (Org_membership_upsert oid uid role joined_at default_access) =
     write_membership True oid uid role joined_at default_access"
  "event_write now (Org_membership_delete oid uid) =
     (\<lambda>d. d\<lparr>org_memberships := delete_row (oid, uid) (org_memberships d)\<rparr>)"
  "event_write now (App_upsert a) = write_app now a"
  "event_write now (App_delete script org) =
     (\<lambda>d. d\<lparr>apps := delete_row (getAppId org script) (apps d)\<rparr>)"
  "event_write now (Workspace_upsert p) = write_workspace now p"
  "event_write now (Workspace_delete wid) = (\<lambda>d. d\<lparr>workspaces := delete_row wid (workspaces d)\<rparr>)"
  "event_write now (Org_upsert q) = write_org now q"
  "event_write now (Org_llm_provider_update oid provider updated_at) =
     write_org_llm_provider oid provider updated_at"
  "event_write now (Invitation_upsert i) = write_invitation now i"
  "event_write now (Invitation_delete iid) = (\<lambda>d. d\<lparr>invitations := delete_row iid (invitations d)\<rparr>)"
  "event_write now (Thread_upsert t) = write_thread now t"
  "event_write now (Thread_delete tid tw) = (\<lambda>d. d\<lparr>threads := delete_row tid (threads d)\<rparr>)"
  by (rule ext, simp)+

text \<open>A mirrored event is its claim and, if the guard holds, its write; then come derived counts.\<close>

definition event_batch :: "int \<Rightarrow> admin_event \<Rightarrow> int \<Rightarrow> app_index \<Rightarrow> app_index" where
  "event_batch now e v d =
     (if is_delete e
      then guarded_delete (fst (event_key e)) (snd (event_key e)) (Some v) (event_write now e) d
      else guarded_upsert (fst (event_key e)) (snd (event_key e)) (Some v) (event_write now e) d)"

definition event_claim :: "admin_event \<Rightarrow> int \<Rightarrow> app_index \<Rightarrow> app_index" where
  "event_claim e v = claimMirrorVersion (fst (event_key e)) (snd (event_key e)) (Some v) (is_delete e)"

lemma index_deliver:
  assumes "mirrored e" "0 < v" "v \<le> MAX_SAFE_INTEGER"
  shows "row_reflects (applyAdminEvent now (e, Some v) d) e' = row_reflects (event_batch now e v d) e'"
    (is ?rows)
    and "mirror_rows (applyAdminEvent now (e, Some v) d) = mirror_rows (event_batch now e v d)"
    (is ?ledger)
proof -
  have "?rows \<and> ?ledger"
  proof (cases e)
    case (Workspace_delete wid)
    then show ?thesis using assms
      by (cases "map_of (workspaces d) wid") (simp_all add: event_batch_def event_write_fun Let_def)
  next
    case (Thread_delete tid wid)
    then show ?thesis using assms
      by (cases "or_else wid (map_option thread_workspace_id (map_of (threads d) tid))")
        (simp_all add: event_batch_def event_write_fun Let_def)
  next
    case (App_delete script oid)
    then show ?thesis using assms by (auto simp: event_batch_def event_write_fun)
  qed (use assms in \<open>simp_all add: event_batch_def event_write_fun Let_def\<close>)
  then show ?rows ?ledger by simp_all
qed

lemma mirrors_deliver:
  "mirrored e \<Longrightarrow> 0 < v \<Longrightarrow> v \<le> MAX_SAFE_INTEGER \<Longrightarrow>
   mirrors (applyAdminEvent now (e, Some v) d) e' = mirrors (event_batch now e v d) e'"
  by (simp add: mirrors_def ledger_agrees_def index_deliver)

lemma event_batch_newer:
  "0 < v \<Longrightarrow> recorded_version d (event_key e) < v \<Longrightarrow>
   event_batch now e v d = event_write now e (event_claim e v d)"
  by (simp add: event_batch_def event_claim_def guarded_upsert_newer guarded_delete_newer)

lemma event_batch_older:
  "0 < v \<Longrightarrow> v < recorded_version d (event_key e) \<Longrightarrow> event_batch now e v d = event_claim e v d"
  by (simp add: event_batch_def event_claim_def guarded_older)

lemma event_batch_cases:
  "event_batch now e v d = event_write now e (event_claim e v d) \<or>
   event_batch now e v d = event_claim e v d"
  using guarded_cases [of "fst (event_key e)" "snd (event_key e)" "Some v" "event_write now e" d]
  by (auto simp: event_batch_def event_claim_def)

text \<open>An event of the very version the ledger records passes its guard if the ledger agrees with it.\<close>

lemma event_batch_same:
  assumes "0 < v" "recorded_version d (event_key e) = v" "ledger_agrees d e"
  shows "event_batch now e v d = event_write now e (event_claim e v d)"
  using assms
  by (cases "is_delete e"; cases "map_of (mirror_rows d) (event_key e)")
    (simp_all add: event_batch_def event_claim_def guarded_upsert_def guarded_delete_def
      claimMirrorVersion_def mirrorUpsertGuard_def mirrorDeleteGuard_def recorded_version_def
      ledger_agrees_def Let_def)

lemma row_reflects_event_claim [simp]: "row_reflects (event_claim e v d) e' = row_reflects d e'"
  by (simp add: event_claim_def)

lemma ledger_agrees_write [simp]: "ledger_agrees (event_write now e d) e' = ledger_agrees d e'"
  by (simp add: ledger_agrees_def)

lemma ledger_agrees_claim:
  assumes "0 < v"
  shows "ledger_agrees (event_claim e v d) e' \<longleftrightarrow>
    (if event_key e' = event_key e \<and> recorded_version d (event_key e) < v
     then is_delete e' = is_delete e else ledger_agrees d e')"
  using assms
  by (cases "map_of (mirror_rows d) (event_key e)")
    (auto simp: ledger_agrees_def event_claim_def claimMirrorVersion_def recorded_version_def)

interpretation app_mirror:
  versioned_mirror applyAdminEvent event_key mirrored recorded_version mirrors
proof
  fix e v now d and k :: ledger_key
  assume "mirrored e" "0 < v" "v \<le> MAX_SAFE_INTEGER"
  then show "recorded_version (applyAdminEvent now (e, Some v) d) k =
    (if k = event_key e then max (recorded_version d k) v else recorded_version d k)"
    by (rule index_version)
next
  fix e v now d
  assume "mirrored e" "0 < v" "v \<le> MAX_SAFE_INTEGER" "recorded_version d (event_key e) < v"
  then show "mirrors (applyAdminEvent now (e, Some v) d) e"
    by (subst mirrors_deliver)
      (simp_all add: event_batch_newer mirrors_def event_write_reflects ledger_agrees_claim)
next
  fix e e' v now d
  assume "mirrored e" "mirrored e'" "0 < v" "v \<le> MAX_SAFE_INTEGER" "v < recorded_version d (event_key e)"
  then show "mirrors (applyAdminEvent now (e, Some v) d) e' \<longleftrightarrow> mirrors d e'"
    by (subst mirrors_deliver) (auto simp: event_batch_older mirrors_def ledger_agrees_claim)
next
  fix e v now d
  assume "mirrored e" "0 < v" "v \<le> MAX_SAFE_INTEGER" "mirrors d e"
  then show "mirrors (applyAdminEvent now (e, Some v) d) e"
    using event_batch_cases [of now e v d]
    by (subst mirrors_deliver) (auto simp: mirrors_def event_write_reflects ledger_agrees_claim)
next
  fix e e' v now d
  assume "mirrored e" "mirrored e'" "0 < v" "v \<le> MAX_SAFE_INTEGER" "event_key e' \<noteq> event_key e"
  then show "mirrors (applyAdminEvent now (e, Some v) d) e' \<longleftrightarrow> mirrors d e'"
    using event_batch_cases [of now e v d]
    by (subst mirrors_deliver) (auto simp: mirrors_def event_write_other ledger_agrees_claim)
qed

text \<open>
  The two events of an organisation bear one version: the provider update, sent second, lands in
  the row the first one wrote, and leaves that row's other columns alone.
\<close>

lemma provider_update_lands:
  assumes "0 < v" "v \<le> MAX_SAFE_INTEGER" "recorded_version d (Mirror_org, op_id p) = v"
    and "mirrors d (Org_upsert p)"
    and d': "d' = applyAdminEvent now (Org_llm_provider_update (op_id p) provider updated_at, Some v) d"
  shows "mirrors d' (Org_upsert p)"
    and "mirrors d' (Org_llm_provider_update (op_id p) provider updated_at)"
proof -
  let ?e = "Org_llm_provider_update (op_id p) provider updated_at"
  have l: "ledger_agrees d ?e"
    using assms(4) by (simp add: mirrors_def ledger_agrees_def split: option.splits)
  have b: "event_batch now ?e v d = event_write now ?e (event_claim ?e v d)"
    using assms(1,3) l by (intro event_batch_same) simp_all
  have m: "mirrored ?e" by simp
  have "row_reflects (event_write now ?e (event_claim ?e v d)) (Org_upsert p) =
      row_reflects (event_claim ?e v d) (Org_upsert p)"
    by (auto simp: write_org_llm_provider_def event_claim_def split: option.splits)
  then show "mirrors d' (Org_upsert p)"
    using assms(1-4) unfolding d' mirrors_deliver [OF m assms(1,2)] b
    by (simp only: mirrors_def ledger_agrees_write ledger_agrees_claim row_reflects_event_claim
        event_key.simps) simp
  show "mirrors d' ?e"
    using assms(1-3) l event_write_reflects [OF m, of now "event_claim ?e v d"]
    unfolding d' mirrors_deliver [OF m assms(1,2)] b
    by (simp only: mirrors_def ledger_agrees_write ledger_agrees_claim event_key.simps) simp
qed

subsection \<open>Delivery in any order\<close>


definition empty_index :: app_index where
  "empty_index =
     \<lparr>mirror_rows = [], users = [], deleted_users = [], orgs = [], workspaces = [], threads = [],
      apps = [], invitations = [], org_memberships = [], workspace_members = []\<rparr>"


subsection \<open>A purged organisation\<close>

definition org_purged :: "string \<Rightarrow> app_index \<Rightarrow> bool" where
  "org_purged oid d \<longleftrightarrow>
     map_of (mirror_rows d) (Mirror_org, oid) = Some \<lparr>ledger_version = MAX_SAFE_INTEGER, ledger_deleted = True\<rparr> \<and>
     map_of (orgs d) oid = None"

lemma purge_purges: "org_purged oid (purgeMirroredOrg oid d)"
  by (simp add: org_purged_def purgeMirroredOrg_def split: option.split)

lemma normalize_bound: "normalizeMirrorVersion v = Some n \<Longrightarrow> n \<le> MAX_SAFE_INTEGER"
  by (auto simp: normalizeMirrorVersion_def split: option.splits if_splits)

lemma purged_claim:
  "org_purged oid d \<Longrightarrow> org_purged oid (claimMirrorVersion en k (normalizeMirrorVersion v) b d)"
  using normalize_bound [of v]
  by (auto simp: org_purged_def claimMirrorVersion_def split: option.split)

lemma purged_guarded:
  assumes "org_purged oid d"
    and "en \<noteq> Mirror_org \<or> k \<noteq> oid \<Longrightarrow> (\<And>d. org_purged oid d \<Longrightarrow> org_purged oid (w d))"
  shows "org_purged oid (guarded_upsert en k (normalizeMirrorVersion v) w d)"
proof -
  let ?c = "claimMirrorVersion en k (normalizeMirrorVersion v) False d"
  have c: "org_purged oid ?c" using assms(1) by (rule purged_claim)
  show ?thesis
  proof (cases "en = Mirror_org \<and> k = oid")
    case True
    then have "\<not> mirrorUpsertGuard en k (normalizeMirrorVersion v) ?c"
      using c by (cases "normalizeMirrorVersion v") (simp_all add: org_purged_def mirrorUpsertGuard_def)
    then show ?thesis using c by (simp add: guarded_upsert_def)
  next
    case False
    then show ?thesis using c assms(2) by (simp add: guarded_upsert_def Let_def)
  qed
qed

lemma purged_guarded_delete:
  assumes "org_purged oid d" and "\<And>d. org_purged oid d \<Longrightarrow> org_purged oid (w d)"
  shows "org_purged oid (guarded_delete en k (normalizeMirrorVersion v) w d)"
  using purged_claim [OF assms(1)] assms(2) by (simp add: guarded_delete_def Let_def)

lemma purged_count [simp]:
  "org_purged oid (count_workspaces k d) \<longleftrightarrow> org_purged oid d"
  "org_purged oid (count_threads k d) \<longleftrightarrow> org_purged oid d"
  by (auto simp: org_purged_def count_workspaces_def count_threads_def)

lemma purged_tables [simp]:
  "org_purged oid (write_user now u d) \<longleftrightarrow> org_purged oid d"
  "org_purged oid (delete_user now uid d) \<longleftrightarrow> org_purged oid d"
  "org_purged oid (write_workspace now p d) \<longleftrightarrow> org_purged oid d"
  "org_purged oid (write_app now a d) \<longleftrightarrow> org_purged oid d"
  "org_purged oid (write_invitation now i d) \<longleftrightarrow> org_purged oid d"
  "org_purged oid (write_thread now t d) \<longleftrightarrow> org_purged oid d"
  "org_purged oid (write_membership b oid' uid role joined_at default_access d) \<longleftrightarrow> org_purged oid d"
  "org_purged oid (write_member oid' wid uid access granted_by granted_at d) \<longleftrightarrow> org_purged oid d"
  "org_purged oid (write_org_llm_provider oid' provider updated_at d) \<longleftrightarrow> org_purged oid d"
  by (auto simp: org_purged_def write_user_def delete_user_def write_workspace_def write_app_def
      write_invitation_def write_thread_def write_membership_def write_member_def
      write_org_llm_provider_def Let_def)

lemma purged_write_org: "op_id p \<noteq> oid \<Longrightarrow> org_purged oid (write_org now p d) \<longleftrightarrow> org_purged oid d"
  by (auto simp: org_purged_def write_org_def Let_def)

lemma purged_step:
  assumes "org_purged oid d"
  shows "org_purged oid (applyAdminEvent now (e, v) d)"
proof (cases e)
  case (Org_upsert p)
  then show ?thesis
    using assms by (auto intro!: purged_guarded simp: purged_write_org)
next
  case (Org_member_delta oid' delta)
  then show ?thesis using assms by (auto simp: org_purged_def)
next
  case (User_org_delta uid delta)
  then show ?thesis using assms by (simp add: org_purged_def)
qed (use assms in \<open>auto intro!: purged_guarded purged_guarded_delete simp: Let_def split: option.split\<close>,
     (simp_all add: org_purged_def)?)

text \<open>
  C22: After \<open>purgeMirroredOrg\<close> no sequence of admin events, versioned or not, brings the
  organisation's row back.
\<close>

theorem purged_org_stays_gone:
  "map_of (orgs (fold (\<lambda>(now, e, v). applyAdminEvent now (e, v)) ms (purgeMirroredOrg oid d))) oid = None"
proof -
  have "org_purged oid (fold (\<lambda>(now, e, v). applyAdminEvent now (e, v)) ms d)" if "org_purged oid d" for d
    using that by (induction ms arbitrary: d) (auto simp: purged_step)
  then show ?thesis using purge_purges [of oid d] by (auto simp: org_purged_def)
qed
end
