(* ===== verification/MirrorSystem.thy ===== *)
theory MirrorSystem
  imports MirrorIndex
begin

section \<open>The mirror as a system: writers, drains and the index\<close>

text \<open>
  The transition system made of one Durable Object and the D1 index: fact writes that mark
  entities dirty (\<open>markDirty\<close>), drains that interleave with them at every \<open>await\<close>
  (\<open>select_due\<close>, \<open>begin_row\<close>, \<open>finish_row\<close>, \<open>fail_row\<close>, \<open>push_due\<close> of theory MirrorOutbox),
  and D1 calls whose outcome the object never learns and that may still land later. The bound on
  the number of drains that run at the same time is a parameter of the step relation.

  With one drain at a time the mirror never loses an update: whatever is not queued is reflected
  by the index. With two drains it can (the last theorem), since a row's generation counts from
  one again after its row was deleted.
\<close>

text \<open>A drain in progress: rows still to do, and the row whose calls are in flight.\<close>

record 'ev drain_job =
  todo :: "'ev OutboxRow list"
  current :: "('ev OutboxRow \<times> ('ev \<times> int option) list) option"

record ('f, 'ev, 'd) mirror_system =
  facts :: 'f
  box :: "'ev outbox"
  index :: 'd
  jobs :: "'ev drain_job list"
  late :: "('ev \<times> int option) list"

text \<open>One transaction may change several entities; each of them is marked at the same time.\<close>

definition mark_all :: "bool \<Rightarrow> int \<Rightarrow> (MirrorKind \<times> string) list \<Rightarrow> 'ev outbox \<Rightarrow> 'ev outbox" where
  "mark_all ok now ks st = fold (\<lambda>(kind, eid). markDirty ok now kind eid) ks st"

text \<open>
  \<open>snap f\<close> is the object's \<open>mirrorSnapshot\<close> in the state of facts \<open>f\<close>. A write may change the
  snapshot of marked entities only: this is the callers' obligation the outbox states in its
  header. It concerns what \<open>part\<close> keeps of an event, since a column that D1 derives by itself may
  change without a mark (a new workspace changes the organisation's workspace count), and an object
  that is emptied has no snapshots any more. \<open>valid\<close> tells which entity ids the object uses. Versions
  are assumed to stay safe integers (until the year 2255).
\<close>

inductive mirror_step ::
  "(int \<Rightarrow> 'ev \<times> int option \<Rightarrow> 'd \<Rightarrow> 'd) \<Rightarrow> ('f \<Rightarrow> string \<Rightarrow> string \<Rightarrow> 'ev list) \<Rightarrow>
   ('ev \<Rightarrow> 'ev) \<Rightarrow> (MirrorKind \<Rightarrow> string \<Rightarrow> bool) \<Rightarrow> nat \<Rightarrow>
   ('f, 'ev, 'd) mirror_system \<Rightarrow> ('f, 'ev, 'd) mirror_system \<Rightarrow> bool"
  for deliver snap part valid most
where
  write_facts: "\<forall>(kind, eid) \<in> set ks. valid kind eid \<Longrightarrow>
          \<forall>kind eid. (kind, eid) \<notin> set ks \<longrightarrow>
            snap f (kind_text kind) eid = [] \<or>
            map part (snap f (kind_text kind) eid) = map part (snap (facts s) (kind_text kind) eid) \<Longrightarrow>
          mirror_step deliver snap part valid most s
            (s\<lparr>facts := f, box := mark_all ok now ks (box s)\<rparr>)"
| start_drain: "length (jobs s) < most \<Longrightarrow>
          mirror_step deliver snap part valid most s
            (s\<lparr>jobs := jobs s @ [\<lparr>todo = select_due bound m (box s), current = None\<rparr>]\<rparr>)"
| start_row: "i < length (jobs s) \<Longrightarrow> jobs s ! i = \<lparr>todo = r # rs, current = None\<rparr> \<Longrightarrow>
          begin_row now (snap (facts s)) r (box s) = (evs, b) \<Longrightarrow>
          (\<forall>v. clock b = Some v \<longrightarrow> v \<le> MAX_SAFE_INTEGER) \<Longrightarrow>
          mirror_step deliver snap part valid most s
            (s\<lparr>box := b, jobs := (jobs s)[i := \<lparr>todo = rs, current = Some (r, evs)\<rparr>]\<rparr>)"
| fail_snapshot: "i < length (jobs s) \<Longrightarrow> jobs s ! i = \<lparr>todo = r # rs, current = None\<rparr> \<Longrightarrow>
          mirror_step deliver snap part valid most s
            (s\<lparr>box := fail_row retryAt message r (box s),
               jobs := (jobs s)[i := \<lparr>todo = rs, current = None\<rparr>]\<rparr>)"
| deliver_event: "i < length (jobs s) \<Longrightarrow> jobs s ! i = \<lparr>todo = rs, current = Some (r, e # evs)\<rparr> \<Longrightarrow>
          mirror_step deliver snap part valid most s
            (s\<lparr>index := deliver now e (index s),
               jobs := (jobs s)[i := \<lparr>todo = rs, current = Some (r, evs)\<rparr>]\<rparr>)"
| complete_row: "i < length (jobs s) \<Longrightarrow> jobs s ! i = \<lparr>todo = rs, current = Some (r, [])\<rparr> \<Longrightarrow>
          mirror_step deliver snap part valid most s
            (s\<lparr>box := finish_row r (box s),
               jobs := (jobs s)[i := \<lparr>todo = rs, current = None\<rparr>]\<rparr>)"
| fail_call: "i < length (jobs s) \<Longrightarrow> jobs s ! i = \<lparr>todo = rs, current = Some (r, evs)\<rparr> \<Longrightarrow>
          mirror_step deliver snap part valid most s
            (s\<lparr>box := fail_row retryAt message r (box s), late := evs @ late s,
               jobs := (jobs s)[i := \<lparr>todo = rs, current = None\<rparr>]\<rparr>)"
| give_up: "i < length (jobs s) \<Longrightarrow> jobs s ! i = \<lparr>todo = rs, current = Some (r, evs)\<rparr> \<Longrightarrow>
          mirror_step deliver snap part valid most s
            (s\<lparr>box := push_due retryAt (fail_row retryAt message r (box s)), late := evs @ late s,
               jobs := take i (jobs s) @ drop (Suc i) (jobs s)\<rparr>)"
| end_drain: "i < length (jobs s) \<Longrightarrow> jobs s ! i = \<lparr>todo = rs, current = None\<rparr> \<Longrightarrow>
          mirror_step deliver snap part valid most s
            (s\<lparr>jobs := take i (jobs s) @ drop (Suc i) (jobs s)\<rparr>)"
| late_arrival: "e \<in> set (late s) \<Longrightarrow>
          mirror_step deliver snap part valid most s (s\<lparr>index := deliver now e (index s)\<rparr>)"
| fire_alarm: "mirror_step deliver snap part valid most s
            (s\<lparr>box := noteAlarmFired ((box s)\<lparr>alarm := None\<rparr>)\<rparr>)"
| schedule_alarm: "mirror_step deliver snap part valid most s
            (s\<lparr>box := scheduleEarliestAlarm now cs (box s)\<rparr>)"

text \<open>The object restarts: the instance field and the drains are lost, calls may still land.\<close>

inductive mirror_reachable ::
  "(int \<Rightarrow> 'ev \<times> int option \<Rightarrow> 'd \<Rightarrow> 'd) \<Rightarrow> ('f \<Rightarrow> string \<Rightarrow> string \<Rightarrow> 'ev list) \<Rightarrow>
   ('ev \<Rightarrow> 'ev) \<Rightarrow> (MirrorKind \<Rightarrow> string \<Rightarrow> bool) \<Rightarrow> nat \<Rightarrow>
   ('f, 'ev, 'd) mirror_system \<Rightarrow> ('f, 'ev, 'd) mirror_system \<Rightarrow> bool"
  for deliver snap part valid most s0
where
  initially: "mirror_reachable deliver snap part valid most s0 s0"
| steps: "mirror_reachable deliver snap part valid most s0 s \<Longrightarrow> mirror_step deliver snap part valid most s t \<Longrightarrow>
          mirror_reachable deliver snap part valid most s0 t"
| restart: "mirror_reachable deliver snap part valid most s0 s \<Longrightarrow>
          mirror_reachable deliver snap part valid most s0
            (s\<lparr>late := concat (map (\<lambda>j. case current j of None \<Rightarrow> [] | Some (r, evs) \<Rightarrow> evs) (jobs s))
                         @ late s,
               jobs := [], box := (box s)\<lparr>armedAt := None\<rparr>\<rparr>)"

subsection \<open>Generations of the queued rows\<close>

definition gen_of :: "'ev OutboxRow list \<Rightarrow> string \<Rightarrow> nat option" where
  "gen_of q key = map_of (map (\<lambda>r. (row_key r, generation r)) q) key"

lemma gen_of_simps [simp]:
  "gen_of [] key = None"
  "gen_of (r # q) key = (if row_key r = key then Some (generation r) else gen_of q key)"
  by (auto simp: gen_of_def)

lemma gen_of_None: "gen_of q key = None \<longleftrightarrow> key \<notin> row_key ` set q"
  by (induction q) auto

lemma gen_of_append: "gen_of (q @ q') key = (case gen_of q key of None \<Rightarrow> gen_of q' key | Some g \<Rightarrow> Some g)"
  by (induction q) auto

lemma gen_of_row: "distinct (map row_key q) \<Longrightarrow> r \<in> set q \<Longrightarrow> gen_of q (row_key r) = Some (generation r)"
  by (induction q) auto

lemma gen_of_map:
  "(\<And>r. row_key (f r) = row_key r) \<Longrightarrow> (\<And>r. generation (f r) = generation r) \<Longrightarrow>
   gen_of (map f q) key = gen_of q key"
  by (induction q) auto

lemma gen_of_redirty:
  "gen_of (map (\<lambda>r. if row_key r = k then redirty t r else r) q) key =
     (if key = k then map_option Suc (gen_of q key) else gen_of q key)"
  by (induction q) (auto simp: redirty_def)

lemma gen_of_upsert_dirty:
  "gen_of (upsert_dirty now kind eid q) key =
     (if key = mirror_key kind eid
      then Some (case gen_of q key of None \<Rightarrow> 1 | Some g \<Rightarrow> g + 1) else gen_of q key)"
proof (cases "\<exists>r \<in> set q. row_key r = mirror_key kind eid")
  case True
  then have "gen_of q (mirror_key kind eid) \<noteq> None" by (simp add: gen_of_None) (metis image_eqI)
  then show ?thesis using True by (auto simp: upsert_dirty_def gen_of_redirty)
next
  case False
  then have "gen_of q (mirror_key kind eid) = None" by (auto simp: gen_of_None)
  then show ?thesis
    using False by (auto simp: upsert_dirty_def gen_of_append new_row_def split: option.splits)
qed

lemma keys_redirty:
  "map row_key (map (\<lambda>r. if row_key r = k then redirty t r else r) q) = map row_key q"
  by (induction q) (auto simp: redirty_def)

lemma distinct_upsert_dirty:
  assumes "distinct (map row_key q)"
  shows "distinct (map row_key (upsert_dirty now kind eid q))"
proof (cases "\<exists>r \<in> set q. row_key r = mirror_key kind eid")
  case True
  then have "map row_key (upsert_dirty now kind eid q) = map row_key q"
    by (simp only: upsert_dirty_def Let_def if_True keys_redirty)
  then show ?thesis using assms by simp
qed (use assms in \<open>auto simp: upsert_dirty_def new_row_def\<close>)

lemma queue_arm [simp]: "queue (arm ok dueAt st) = queue st" "clock (arm ok dueAt st) = clock st"
  by (auto simp: arm_def split: option.splits)

lemma queue_markDirty [simp]:
  "queue (markDirty ok now kind eid st) = upsert_dirty now kind eid (queue st)"
  "clock (markDirty ok now kind eid st) = clock st"
  by (simp_all add: markDirty_def)

lemma queue_finish: "queue (finish_row r st) =
    filter (\<lambda>q. \<not> (row_key q = row_key r \<and> generation q = generation r)) (queue st)"
  by (simp add: finish_row_def)

lemma gen_of_filter:
  "distinct (map row_key q) \<Longrightarrow>
   gen_of (filter (\<lambda>q. \<not> (row_key q = k \<and> generation q = g)) q) key =
     (if key = k \<and> gen_of q key = Some g then None else gen_of q key)"
  by (induction q) (auto simp: gen_of_None)

lemma gen_of_finish:
  "distinct (map row_key (queue st)) \<Longrightarrow>
   gen_of (queue (finish_row r st)) key =
     (if key = row_key r \<and> gen_of (queue st) key = Some (generation r) then None
      else gen_of (queue st) key)"
  unfolding queue_finish by (rule gen_of_filter)

lemma gen_of_fail [simp]:
  "gen_of (queue (fail_row t m r st)) key = gen_of (queue st) key"
  "gen_of (queue (push_due t st)) key = gen_of (queue st) key"
  unfolding fail_row_def push_due_def by (simp_all add: gen_of_map)

lemma keys_fail [simp]:
  "map row_key (queue (fail_row t m r st)) = map row_key (queue st)"
  "map row_key (queue (push_due t st)) = map row_key (queue st)"
  unfolding fail_row_def push_due_def by simp_all

lemma set_select_due: "set (select_due bound m st) \<subseteq> set (queue st)"
  by (auto simp: select_due_def dest!: in_set_takeD)

lemma distinct_select_due:
  "distinct (map row_key (queue st)) \<Longrightarrow> distinct (map row_key (select_due bound m st))"
proof -
  assume d: "distinct (map row_key (queue st))"
  then have "distinct (queue st)" "inj_on row_key (set (queue st))" by (simp_all add: distinct_map)
  then have "distinct (select_due bound m st)"
    by (simp add: select_due_def)
  then show ?thesis
    using \<open>inj_on row_key (set (queue st))\<close> set_select_due [of bound m st]
    by (simp add: distinct_map inj_on_subset)
qed

lemma kind_text_no_colon: "CHR '':'' \<notin> set (kind_text kind)"
  by (cases kind) simp_all

lemma kind_text_inject [simp]: "kind_text a = kind_text b \<longleftrightarrow> a = b"
  by (cases a; cases b) simp_all

lemma mirror_key_inject [simp]:
  "mirror_key kind eid = mirror_key kind' eid' \<longleftrightarrow> kind = kind' \<and> eid = eid'"
proof
  assume "mirror_key kind eid = mirror_key kind' eid'"
  then have k: "kind_text kind @ CHR '':'' # eid = kind_text kind' @ CHR '':'' # eid'"
    by (simp add: mirror_key_def)
  have "kind_text kind = kind_text kind'"
    using arg_cong [OF k, of "\<lambda>s. hd (split_on CHR '':'' s)"]
    by (simp only: split_on_append [OF kind_text_no_colon] list.sel)
  then show "kind = kind' \<and> eid = eid'" using k by simp
qed simp

subsection \<open>The invariant with one drain at a time\<close>

lemma clock_mark_all [simp]: "clock (mark_all ok now ks st) = clock st"
  unfolding mark_all_def by (induction ks arbitrary: st) auto

lemma distinct_mark_all:
  "distinct (map row_key (queue st)) \<Longrightarrow> distinct (map row_key (queue (mark_all ok now ks st)))"
  unfolding mark_all_def by (induction ks arbitrary: st) (auto simp: distinct_upsert_dirty)

text \<open>Marking bumps the generation of the marked entities and of nothing else.\<close>

lemma gen_of_mark_all:
  "gen_of (queue (mark_all ok now ks st)) key =
     (let n = length (filter (\<lambda>(kind, eid). mirror_key kind eid = key) ks)
      in if n = 0 then gen_of (queue st) key
         else Some (case gen_of (queue st) key of None \<Rightarrow> n | Some g \<Rightarrow> g + n))"
  unfolding mark_all_def
  by (induction ks arbitrary: st) (auto simp: gen_of_upsert_dirty Let_def split: option.splits)

lemma gen_of_mark_all_other:
  "(\<And>kind eid. (kind, eid) \<in> set ks \<Longrightarrow> mirror_key kind eid \<noteq> key) \<Longrightarrow>
   gen_of (queue (mark_all ok now ks st)) key = gen_of (queue st) key"
proof -
  assume "\<And>kind eid. (kind, eid) \<in> set ks \<Longrightarrow> mirror_key kind eid \<noteq> key"
  then have "filter (\<lambda>(kind, eid). mirror_key kind eid = key) ks = []" by (auto simp: filter_empty_conv)
  then show ?thesis by (simp add: gen_of_mark_all)
qed

lemma gen_of_mark_all_marked:
  assumes "(kind, eid) \<in> set ks"
  shows "\<exists>g. gen_of (queue (mark_all ok now ks st)) (mirror_key kind eid) = Some g \<and>
     (\<forall>g0. gen_of (queue st) (mirror_key kind eid) = Some g0 \<longrightarrow> g0 < g)"
proof -
  have "(kind, eid) \<in> set (filter (\<lambda>(k, e). mirror_key k e = mirror_key kind eid) ks)"
    using assms by simp
  then have "filter (\<lambda>(k, e). mirror_key k e = mirror_key kind eid) ks \<noteq> []"
    by (metis list.set_cases neq_Nil_conv)
  then show ?thesis
    by (subst gen_of_mark_all) (auto simp: Let_def split: option.split)
qed

definition row_ok :: "(MirrorKind \<Rightarrow> string \<Rightarrow> bool) \<Rightarrow> 'ev OutboxRow \<Rightarrow> bool" where
  "row_ok valid r \<longleftrightarrow>
     (\<exists>kind. valid kind (entity_id r) \<and> row_kind r = kind_text kind \<and>
        row_key r = mirror_key kind (entity_id r) \<and> payload r = None)"

lemma row_ok_mark_all:
  "\<forall>r \<in> set (queue st). row_ok valid r \<Longrightarrow> \<forall>(kind, eid) \<in> set ks. valid kind eid \<Longrightarrow>
   \<forall>r \<in> set (queue (mark_all ok now ks st)). row_ok valid r"
  unfolding mark_all_def
proof (induction ks arbitrary: st)
  case (Cons p ks)
  have "\<forall>r \<in> set (queue (markDirty ok now (fst p) (snd p) st)). row_ok valid r"
    using Cons.prems by (auto simp: upsert_dirty_def redirty_def row_ok_def new_row_def Let_def)
  then show ?case
    using Cons.IH [of "markDirty ok now (fst p) (snd p) st"] Cons.prems(2) by (simp add: case_prod_unfold)
qed simp

lemma row_ok_fail:
  "\<forall>r \<in> set (queue st). row_ok valid r \<Longrightarrow> \<forall>r \<in> set (queue (fail_row t m r0 st)). row_ok valid r"
  "\<forall>r \<in> set (queue st). row_ok valid r \<Longrightarrow> \<forall>r \<in> set (queue (push_due t st)). row_ok valid r"
  by (auto simp: fail_row_def push_due_def row_ok_def)

definition clk :: "'ev outbox \<Rightarrow> int" where
  "clk st = or_default 0 (clock st)"

text \<open>The rows a drain still holds.\<close>

definition job_rows :: "'ev drain_job \<Rightarrow> 'ev OutboxRow list" where
  "job_rows j = (case current j of None \<Rightarrow> [] | Some (r, _) \<Rightarrow> [r]) @ todo j"

locale mirrored_entities = versioned_mirror deliver key_of good version_of reflects
  for deliver :: "int \<Rightarrow> 'ev \<times> int option \<Rightarrow> 'd \<Rightarrow> 'd" and key_of :: "'ev \<Rightarrow> 'k"
    and good version_of reflects +
  fixes snap :: "'f \<Rightarrow> string \<Rightarrow> string \<Rightarrow> 'ev list"
    and part :: "'ev \<Rightarrow> 'ev"
    and valid :: "MirrorKind \<Rightarrow> string \<Rightarrow> bool"
    and entity_key :: "MirrorKind \<Rightarrow> string \<Rightarrow> 'k"
  assumes snapshot_shape:
      "valid kind eid \<Longrightarrow> e \<in> set (snap f (kind_text kind) eid) \<Longrightarrow>
       good e \<and> key_of e = entity_key kind eid"
    and companion_lands:
      "valid kind eid \<Longrightarrow> snap f (kind_text kind) eid = es @ e # es' \<Longrightarrow> es \<noteq> [] \<Longrightarrow>
       0 < v \<Longrightarrow> v \<le> MAX_SAFE_INTEGER \<Longrightarrow> version_of d (entity_key kind eid) = v \<Longrightarrow>
       \<forall>e' \<in> set es. reflects d e' \<Longrightarrow>
       \<forall>e' \<in> set (es @ [e]). reflects (deliver now (e, Some v) d) e'"
    and part_reflects: "part e = part e' \<Longrightarrow> reflects d e \<longleftrightarrow> reflects d e'"
    and entity_key_inject:
      "valid kind eid \<Longrightarrow> valid kind' eid' \<Longrightarrow> entity_key kind eid = entity_key kind' eid' \<Longrightarrow>
       kind = kind' \<and> eid = eid'"
begin

definition late_below :: "'k \<Rightarrow> int \<Rightarrow> ('ev \<times> int option) list \<Rightarrow> bool" where
  "late_below k b ms \<longleftrightarrow> (\<forall>(e, vo) \<in> set ms. key_of e = k \<longrightarrow> (\<exists>v. vo = Some v \<and> v < b))"

definition stamped_by :: "int \<Rightarrow> 'ev \<times> int option \<Rightarrow> bool" where
  "stamped_by c m \<longleftrightarrow>
     good (fst m) \<and> (\<exists>v. snd m = Some v \<and> 0 < v \<and> v \<le> MAX_SAFE_INTEGER \<and> v \<le> c)"

definition settled :: "('f, 'ev, 'd) mirror_system \<Rightarrow> MirrorKind \<Rightarrow> string \<Rightarrow> bool" where
  "settled s kind eid \<longleftrightarrow>
     (\<forall>e \<in> set (snap (facts s) (kind_text kind) eid).
        reflects (index s) e \<and>
        late_below (entity_key kind eid) (version_of (index s) (entity_key kind eid)) (late s))"

text \<open>
  A row in flight: of the snapshot \<open>ds @ es\<close>, stamped with one version, the events \<open>ds\<close> have been
  delivered and \<open>es\<close> are still to come.
\<close>

definition same_part :: "'ev list \<Rightarrow> 'ev list \<Rightarrow> bool" where
  "same_part es es' \<longleftrightarrow> es = [] \<or> map part es = map part es'"

lemma same_part_trans: "same_part es es' \<Longrightarrow> same_part es' es'' \<Longrightarrow> same_part es es''"
  by (auto simp: same_part_def)

lemma same_part_reflects:
  "same_part es es' \<Longrightarrow> \<forall>e \<in> set es'. reflects d e \<Longrightarrow> \<forall>e \<in> set es. reflects d e"
proof
  fix e assume *: "same_part es es'" "\<forall>e \<in> set es'. reflects d e" "e \<in> set es"
  then have "part e \<in> part ` set es'" unfolding same_part_def
    by (metis empty_iff image_eqI list.set(1) list.set_map)
  then show "reflects d e" using *(2) part_reflects by blast
qed

definition delivering ::
  "('f, 'ev, 'd) mirror_system \<Rightarrow> MirrorKind \<Rightarrow> string \<Rightarrow> 'ev list \<Rightarrow> 'ev list \<Rightarrow> int \<Rightarrow> bool" where
  "delivering s kind eid ds es v \<longleftrightarrow>
     (\<exists>f. snap f (kind_text kind) eid = ds @ es) \<and>
     (ds @ es \<noteq> [] \<longrightarrow>
        late_below (entity_key kind eid) v (late s) \<and>
        (if ds = [] then version_of (index s) (entity_key kind eid) < v
         else version_of (index s) (entity_key kind eid) = v) \<and>
        (\<forall>e \<in> set ds. reflects (index s) e))"

definition in_flight ::
  "('f, 'ev, 'd) mirror_system \<Rightarrow> 'ev OutboxRow \<Rightarrow> ('ev \<times> int option) list \<Rightarrow> bool" where
  "in_flight s r evs \<longleftrightarrow>
     (\<forall>kind eid. valid kind eid \<longrightarrow> row_key r = mirror_key kind eid \<longrightarrow>
        (\<exists>ds es v. evs = map (\<lambda>e. (e, Some v)) es \<and> delivering s kind eid ds es v \<and>
           (gen_of (queue (box s)) (row_key r) = Some (generation r) \<longrightarrow>
              same_part (snap (facts s) (kind_text kind) eid) (ds @ es))))"

definition store_sound :: "('f, 'ev, 'd) mirror_system \<Rightarrow> bool" where
  "store_sound s \<longleftrightarrow>
     distinct (map row_key (queue (box s))) \<and> (\<forall>r \<in> set (queue (box s)). row_ok valid r) \<and>
     0 \<le> clk (box s) \<and> (\<forall>k. version_of (index s) k \<le> clk (box s)) \<and>
     (\<forall>m \<in> set (late s). stamped_by (clk (box s)) m)"

definition queue_sound :: "('f, 'ev, 'd) mirror_system \<Rightarrow> bool" where
  "queue_sound s \<longleftrightarrow>
     (\<forall>kind eid. valid kind eid \<longrightarrow> gen_of (queue (box s)) (mirror_key kind eid) = None \<longrightarrow>
        settled s kind eid)"

definition rows_sound :: "('f, 'ev, 'd) mirror_system \<Rightarrow> 'ev drain_job \<Rightarrow> bool" where
  "rows_sound s j \<longleftrightarrow>
     distinct (map row_key (job_rows j)) \<and>
     (\<forall>r \<in> set (job_rows j). row_ok valid r \<and>
        (\<exists>g. gen_of (queue (box s)) (row_key r) = Some g \<and> generation r \<le> g))"

definition calls_sound :: "('f, 'ev, 'd) mirror_system \<Rightarrow> 'ev drain_job \<Rightarrow> bool" where
  "calls_sound s j \<longleftrightarrow>
     (case current j of None \<Rightarrow> True
      | Some (r, evs) \<Rightarrow> (\<forall>m \<in> set evs. stamped_by (clk (box s)) m) \<and> in_flight s r evs)"

definition sound :: "('f, 'ev, 'd) mirror_system \<Rightarrow> bool" where
  "sound s \<longleftrightarrow> store_sound s \<and> queue_sound s \<and>
     (jobs s = [] \<or> (\<exists>j. jobs s = [j] \<and> rows_sound s j \<and> calls_sound s j))"

lemma jobs_irrelevant [simp]:
  "settled (s\<lparr>jobs := js\<rparr>) kind eid = settled s kind eid"
  "delivering (s\<lparr>jobs := js\<rparr>) kind eid ds es v = delivering s kind eid ds es v"
  "delivering (s\<lparr>box := b\<rparr>) kind eid ds es v = delivering s kind eid ds es v"
  "delivering (s\<lparr>facts := f\<rparr>) kind eid ds es v = delivering s kind eid ds es v"
  "in_flight (s\<lparr>jobs := js\<rparr>) r evs = in_flight s r evs"
  "store_sound (s\<lparr>jobs := js\<rparr>) = store_sound s"
  "queue_sound (s\<lparr>jobs := js\<rparr>) = queue_sound s"
  "rows_sound (s\<lparr>jobs := js\<rparr>) j = rows_sound s j"
  "calls_sound (s\<lparr>jobs := js\<rparr>) j = calls_sound s j"
  "settled (s\<lparr>box := b\<rparr>) kind eid = settled s kind eid"
  by (simp_all add: settled_def delivering_def in_flight_def store_sound_def queue_sound_def rows_sound_def
      calls_sound_def split: option.split)

lemma settled_deliver:
  assumes "valid kind eid" "settled s kind eid" "stamped_by c (e, vo)"
    and "key_of e = entity_key kind eid \<Longrightarrow> 
         snap (facts s) (kind_text kind) eid \<noteq> [] \<Longrightarrow>
         \<exists>v. vo = Some v \<and> v < version_of (index s) (entity_key kind eid)"
  shows "settled (s\<lparr>index := deliver now (e, vo) (index s)\<rparr>) kind eid"
  unfolding settled_def
proof
  fix e'
  assume "e' \<in> set (snap (facts (s\<lparr>index := deliver now (e, vo) (index s)\<rparr>)) (kind_text kind) eid)"
  then have e': "e' \<in> set (snap (facts s) (kind_text kind) eid)" by simp
  then have g': "good e'" "key_of e' = entity_key kind eid"
    using snapshot_shape [OF assms(1)] by simp_all
  obtain v where v: "vo = Some v" "0 < v" "v \<le> MAX_SAFE_INTEGER" and g: "good e"
    using assms(3) by (auto simp: stamped_by_def)
  have s: "reflects (index s) e'"
    "late_below (entity_key kind eid) (version_of (index s) (entity_key kind eid)) (late s)"
    using assms(2) e' by (simp_all add: settled_def)
  show "reflects (index (s\<lparr>index := deliver now (e, vo) (index s)\<rparr>)) e' \<and>
    late_below (entity_key kind eid)
      (version_of (index (s\<lparr>index := deliver now (e, vo) (index s)\<rparr>)) (entity_key kind eid))
      (late (s\<lparr>index := deliver now (e, vo) (index s)\<rparr>))"
  proof (cases "key_of e = entity_key kind eid")
    case True
    have "snap (facts s) (kind_text kind) eid \<noteq> []" using e' by auto
    then have "v < version_of (index s) (entity_key kind eid)" using assms(4) True v by auto
    then show ?thesis using s True v g g' by (simp add: older_ignored version_deliver max_def)
  next
    case False
    then show ?thesis using s v g g' by (simp add: others_kept version_deliver)
  qed
qed

text \<open>So does a row in flight, when an event about another row or of an older version lands.\<close>

lemma delivering_deliver:
  assumes "valid kind eid" "delivering s kind eid ds es v" "stamped_by c (e, Some v')"
    and "key_of e = entity_key kind eid \<Longrightarrow> v' < v"
  shows "delivering (s\<lparr>index := deliver now (e, Some v') (index s)\<rparr>) kind eid ds es v"
proof (cases "ds @ es = []")
  case True
  then show ?thesis using assms(2) by (simp add: delivering_def)
next
  case False
  have g: "good e" "0 < v'" "v' \<le> MAX_SAFE_INTEGER" using assms(3) by (auto simp: stamped_by_def)
  obtain f where f: "snap f (kind_text kind) eid = ds @ es" using assms(2) by (auto simp: delivering_def)
  have ds: "good d \<and> key_of d = entity_key kind eid" if "d \<in> set ds" for d
    using snapshot_shape [OF assms(1), of d f] f that by simp
  have d: "late_below (entity_key kind eid) v (late s)"
    "if ds = [] then version_of (index s) (entity_key kind eid) < v
     else version_of (index s) (entity_key kind eid) = v"
    "\<forall>d \<in> set ds. reflects (index s) d"
    using assms(2) False by (simp_all add: delivering_def)
  have "version_of (deliver now (e, Some v') (index s)) (entity_key kind eid) =
      (if key_of e = entity_key kind eid then max (version_of (index s) (entity_key kind eid)) v'
       else version_of (index s) (entity_key kind eid))"
    using g by (simp add: version_deliver)
  then have ver: "if ds = [] then version_of (deliver now (e, Some v') (index s)) (entity_key kind eid) < v
     else version_of (deliver now (e, Some v') (index s)) (entity_key kind eid) = v"
    using d(2) assms(4) by (auto split: if_splits)
  have "reflects (deliver now (e, Some v') (index s)) d" if "d \<in> set ds" for d
  proof (cases "key_of e = entity_key kind eid")
    case True
    have "ds \<noteq> []" using that by auto
    then have "v' < version_of (index s) (key_of e)" using True d(2) assms(4) by simp
    then show ?thesis using older_ignored [OF g(1) _ g(2,3)] ds [OF that] d(3) that by blast
  next
    case False
    then show ?thesis using others_kept [OF g(1) _ g(2,3)] ds [OF that] d(3) that by metis
  qed
  then show ?thesis using f d(1) ver by (auto simp: delivering_def)
qed

lemma sound_write:
  assumes "sound s" and v: "\<forall>(kind, eid) \<in> set ks. valid kind eid"
    and "\<forall>kind eid. (kind, eid) \<notin> set ks \<longrightarrow> snap f (kind_text kind) eid = [] \<or>
       map part (snap f (kind_text kind) eid) = map part (snap (facts s) (kind_text kind) eid)"
  shows "sound (s\<lparr>facts := f, box := mark_all ok now ks (box s)\<rparr>)"
    (is "sound ?t")
proof -
  have clk: "clk (box ?t) = clk (box s)" by (simp add: clk_def)
  have same: "same_part (snap f (kind_text kind) eid) (snap (facts s) (kind_text kind) eid)"
    if "(kind, eid) \<notin> set ks" for kind eid
    using assms(3) that by (simp add: same_part_def)
  have settled: "settled ?t kind eid" if "settled s kind eid" "(kind, eid) \<notin> set ks" for kind eid
  proof (cases "snap f (kind_text kind) eid = []")
    case False
    then have "snap (facts s) (kind_text kind) eid \<noteq> []"
      using same [OF that(2)] by (auto simp: same_part_def)
    then have "late_below (entity_key kind eid) (version_of (index s) (entity_key kind eid)) (late s)"
      using that(1) by (cases "snap (facts s) (kind_text kind) eid") (simp_all add: settled_def)
    then show ?thesis
      using that(1) same_part_reflects [OF same [OF that(2)], of "index s"] by (simp add: settled_def)
  qed (simp add: settled_def)
  have gen: "gen_of (queue (box ?t)) (mirror_key kind eid) = gen_of (queue (box s)) (mirror_key kind eid)"
    if "(kind, eid) \<notin> set ks" for kind eid
    using that by (auto intro!: gen_of_mark_all_other)
  have marked: "\<exists>g. gen_of (queue (box ?t)) (mirror_key kind eid) = Some g \<and>
      (\<forall>g0. gen_of (queue (box s)) (mirror_key kind eid) = Some g0 \<longrightarrow> g0 < g)"
    if "(kind, eid) \<in> set ks" for kind eid
    using gen_of_mark_all_marked [OF that] by simp
  have 1: "store_sound ?t"
    using assms(1) v clk
    by (auto simp: sound_def store_sound_def distinct_mark_all dest!: row_ok_mark_all [rotated])
  have 2: "queue_sound ?t" unfolding queue_sound_def
  proof (intro allI impI)
    fix kind eid assume *: "valid kind eid" "gen_of (queue (box ?t)) (mirror_key kind eid) = None"
    then have "(kind, eid) \<notin> set ks" using marked by fastforce
    then show "settled ?t kind eid"
      using assms(1) * gen settled by (simp add: sound_def queue_sound_def)
  qed
  have 3: "rows_sound ?t j \<and> calls_sound ?t j" if j: "rows_sound s j" "calls_sound s j" for j
  proof
    have grow: "\<exists>g'. gen_of (queue (box ?t)) (row_key r) = Some g' \<and> g \<le> g'"
      if ok: "row_ok valid r" and g: "gen_of (queue (box s)) (row_key r) = Some g" for r g
    proof -
      obtain kind where k: "row_key r = mirror_key kind (entity_id r)" using ok by (auto simp: row_ok_def)
      show ?thesis
        using marked [of kind "entity_id r"] gen [of kind "entity_id r"] g k
        by (cases "(kind, entity_id r) \<in> set ks") fastforce+
    qed
    show "rows_sound ?t j" unfolding rows_sound_def
    proof (intro conjI ballI)
      fix r assume r: "r \<in> set (job_rows j)"
      then show "row_ok valid r" using j(1) by (simp add: rows_sound_def)
      then show "\<exists>g. gen_of (queue (box ?t)) (row_key r) = Some g \<and> generation r \<le> g"
        using j(1) r grow [of r] unfolding rows_sound_def by (meson order_trans)
    qed (use j(1) in \<open>simp add: rows_sound_def\<close>)
    have "in_flight ?t r evs" if c: "current j = Some (r, evs)" for r evs
    proof -
      have fl: "in_flight s r evs" using j(2) c by (simp add: calls_sound_def)
      have r: "r \<in> set (job_rows j)" using c by (simp add: job_rows_def)
      then obtain g where g: "gen_of (queue (box s)) (row_key r) = Some g" "generation r \<le> g"
        using j(1) by (auto simp: rows_sound_def)
      show ?thesis unfolding in_flight_def
      proof (intro allI impI)
        fix kind eid assume a: "valid kind eid" "row_key r = mirror_key kind eid"
        obtain ds es v where e: "evs = map (\<lambda>e. (e, Some v)) es" "delivering s kind eid ds es v"
          "gen_of (queue (box s)) (row_key r) = Some (generation r) \<longrightarrow>
             same_part (snap (facts s) (kind_text kind) eid) (ds @ es)"
          using fl a unfolding in_flight_def by blast
        have "gen_of (queue (box ?t)) (row_key r) = Some (generation r) \<longrightarrow>
            same_part (snap f (kind_text kind) eid) (ds @ es)"
        proof (cases "(kind, eid) \<in> set ks")
          case True
          then show ?thesis using marked [OF True] g a by force
        next
          case False
          then show ?thesis using e(3) gen [OF False] same_part_trans [OF same [OF False]] a by simp
        qed
        moreover have "delivering ?t kind eid ds es v" using e(2) by (simp add: delivering_def)
        ultimately show "\<exists>ds es v. evs = map (\<lambda>e. (e, Some v)) es \<and> delivering ?t kind eid ds es v \<and>
           (gen_of (queue (box ?t)) (row_key r) = Some (generation r) \<longrightarrow>
              same_part (snap (facts ?t) (kind_text kind) eid) (ds @ es))"
          using e(1) by auto
      qed
    qed
    then show "calls_sound ?t j" using j(2) clk by (auto simp: calls_sound_def split: option.splits)
  qed
  show ?thesis using assms(1) 1 2 3 by (auto simp: sound_def)
qed


lemma sound_start_drain:
  assumes "sound s" "jobs s = []"
  shows "sound (s\<lparr>jobs := [\<lparr>todo = select_due bound m (box s), current = None\<rparr>]\<rparr>)"
proof -
  let ?rs = "select_due bound m (box s)"
  have d: "distinct (map row_key (queue (box s)))" and ok: "\<forall>r \<in> set (queue (box s)). row_ok valid r"
    using assms(1) by (simp_all add: sound_def store_sound_def)
  have "\<exists>g. gen_of (queue (box s)) (row_key r) = Some g \<and> generation r \<le> g" if "r \<in> set ?rs" for r
    using gen_of_row [OF d, of r] that set_select_due [of bound m "box s"] by auto
  then show ?thesis
    using assms ok set_select_due [of bound m "box s"] distinct_select_due [OF d, of bound m]
    by (auto simp: sound_def store_sound_def queue_sound_def rows_sound_def calls_sound_def
        settled_def job_rows_def)
qed

text \<open>Dropping the row in flight, or the whole drain, keeps everything.\<close>

lemma sound_change_jobs:
  "sound s \<Longrightarrow> js = [] \<or> (\<exists>j. js = [j] \<and> rows_sound s j \<and> calls_sound s j) \<Longrightarrow> sound (s\<lparr>jobs := js\<rparr>)"
  by (auto simp: sound_def)

lemma begin_row_stamp:
  assumes "begin_row now sn r b = (evs, b')" "payload r = None" "0 \<le> clk b"
  shows "sn (row_kind r) (entity_id r) = [] \<Longrightarrow> evs = [] \<and> b' = b"
    and "sn (row_kind r) (entity_id r) = es \<Longrightarrow> es \<noteq> [] \<Longrightarrow>
      \<exists>v. evs = map (\<lambda>e. (e, Some v)) es \<and> clk b < v \<and> b' = b\<lparr>clock := Some v\<rparr>"
  using assms
  by (auto simp: begin_row_def nextVersion_def clk_def or_default_def Let_def split: option.splits)

lemma sound_start_row:
  assumes "sound s" and j: "jobs s = [\<lparr>todo = r # rs, current = None\<rparr>]"
    and b: "begin_row now (snap (facts s)) r (box s) = (evs, b)"
    and safe: "\<forall>v. clock b = Some v \<longrightarrow> v \<le> MAX_SAFE_INTEGER"
  shows "sound (s\<lparr>box := b, jobs := [\<lparr>todo = rs, current = Some (r, evs)\<rparr>]\<rparr>)" (is "sound ?t")
proof -
  have store: "store_sound s" and que: "queue_sound s" and rows: "rows_sound s \<lparr>todo = r # rs, current = None\<rparr>"
    using assms(1) j by (auto simp: sound_def)
  have "row_ok valid r" using rows by (simp add: rows_sound_def job_rows_def)
  then obtain kind where k: "valid kind (entity_id r)" "row_kind r = kind_text kind"
    "row_key r = mirror_key kind (entity_id r)" "payload r = None" by (auto simp: row_ok_def)
  have c0: "0 \<le> clk (box s)" using store by (simp add: store_sound_def)
  let ?es = "snap (facts s) (kind_text kind) (entity_id r)"
  have only: "kind' = kind \<and> eid = entity_id r" if "row_key r = mirror_key kind' eid" for kind' eid
    using that k(3) by simp
  show ?thesis
  proof (cases "?es = []")
    case True
    then have e: "evs = []" "b = box s" using begin_row_stamp(1) [OF b k(4) c0] k(2) by simp_all
    have "delivering s kind (entity_id r) [] [] 0" using True by (auto simp: delivering_def)
    moreover have "same_part (snap (facts s) (kind_text kind) (entity_id r)) ([] @ [])"
      by (simp add: same_part_def True)
    ultimately have "\<exists>ds es v. [] = map (\<lambda>e. (e, Some (v :: int))) es \<and> delivering s kind (entity_id r) ds es v \<and>
        same_part (snap (facts s) (kind_text kind) (entity_id r)) (ds @ es)" by blast
    then have "in_flight s r []" using only unfolding in_flight_def by blast
    then have "sound (s\<lparr>jobs := [\<lparr>todo = rs, current = Some (r, [])\<rparr>]\<rparr>)"
      using rows by (intro sound_change_jobs [OF assms(1)])
        (simp add: rows_sound_def calls_sound_def job_rows_def)
    then show ?thesis by (simp add: e)
  next
    case False
    obtain v where e: "evs = map (\<lambda>e. (e, Some v)) ?es" "clk (box s) < v" "b = (box s)\<lparr>clock := Some v\<rparr>"
      using begin_row_stamp(2) [OF b k(4) c0 _ False] k(2) by auto
    have clk: "clk b = v" by (simp add: e clk_def)
    have q: "queue b = queue (box s)" by (simp add: e)
    have below: "late_below kk v (late s)" for kk
      using store e(2) unfolding store_sound_def late_below_def stamped_by_def by fastforce
    have ver: "version_of (index s) kk < v" for kk
      using store e(2) unfolding store_sound_def by (meson le_less_trans)
    have st: "\<forall>m \<in> set evs. stamped_by v m"
      using e c0 safe snapshot_shape [OF k(1), of _ "facts s"] by (auto simp: stamped_by_def)
    have older: "stamped_by v m" if "stamped_by (clk (box s)) m" for m
      using that e(2) by (auto simp: stamped_by_def)
    have "store_sound (s\<lparr>box := b\<rparr>)"
      using store clk e(2) older ver by (auto simp: store_sound_def q less_imp_le)
    moreover have "queue_sound (s\<lparr>box := b\<rparr>)" using que by (simp add: queue_sound_def q)
    moreover have "in_flight (s\<lparr>box := b\<rparr>) r evs" unfolding in_flight_def
    proof (intro allI impI)
      fix kind' eid assume "valid kind' eid" "row_key r = mirror_key kind' eid"
      then have "kind' = kind" "eid = entity_id r" using only by simp_all
      moreover have "delivering s kind (entity_id r) [] ?es v"
        using below ver by (auto simp: delivering_def)
      ultimately show "\<exists>ds es w. evs = map (\<lambda>e. (e, Some w)) es \<and>
          delivering (s\<lparr>box := b\<rparr>) kind' eid ds es w \<and>
          (gen_of (queue (box (s\<lparr>box := b\<rparr>))) (row_key r) = Some (generation r) \<longrightarrow>
             same_part (snap (facts (s\<lparr>box := b\<rparr>)) (kind_text kind') eid) (ds @ es))"
        using e(1)
        by - (rule exI [of _ "[]"], rule exI [of _ ?es], rule exI [of _ v], simp add: same_part_def)
    qed
    ultimately have "sound (s\<lparr>box := b\<rparr>\<lparr>jobs := [\<lparr>todo = rs, current = Some (r, evs)\<rparr>]\<rparr>)"
      using rows clk st
      by (simp add: sound_def rows_sound_def calls_sound_def job_rows_def q)
    then show ?thesis by simp
  qed
qed

lemma in_flight_done:
  "in_flight s r [] \<Longrightarrow> valid kind eid \<Longrightarrow> row_key r = mirror_key kind eid \<Longrightarrow>
   gen_of (queue (box s)) (row_key r) = Some (generation r) \<Longrightarrow> settled s kind eid"
proof -
  assume a: "in_flight s r []" "valid kind eid" "row_key r = mirror_key kind eid"
    "gen_of (queue (box s)) (row_key r) = Some (generation r)"
  then obtain ds v where d: "delivering s kind eid ds [] v"
    "same_part (snap (facts s) (kind_text kind) eid) ds"
    unfolding in_flight_def by fastforce
  show "settled s kind eid"
  proof (cases "snap (facts s) (kind_text kind) eid = []")
    case False
    then have "ds \<noteq> []" using d(2) by (auto simp: same_part_def)
    then show ?thesis
      using d(1) same_part_reflects [OF d(2), of "index s"] by (simp add: settled_def delivering_def)
  qed (simp add: settled_def)
qed

text \<open>The next event of the row in flight lands, whether it is the first of its version or not.\<close>

lemma delivering_next:
  assumes "valid kind eid" and "delivering s kind eid ds (e # es) v" and "0 < v" "v \<le> MAX_SAFE_INTEGER"
  shows "delivering (s\<lparr>index := deliver now (e, Some v) (index s)\<rparr>) kind eid (ds @ [e]) es v"
proof -
  let ?k = "entity_key kind eid" and ?d = "deliver now (e, Some v) (index s)"
  obtain f where f: "snap f (kind_text kind) eid = ds @ e # es" using assms(2) by (auto simp: delivering_def)
  have e: "good e" "key_of e = ?k" using snapshot_shape [OF assms(1), of e f] f by simp_all
  have d: "late_below ?k v (late s)"
    "if ds = [] then version_of (index s) ?k < v else version_of (index s) ?k = v"
    "\<forall>d \<in> set ds. reflects (index s) d"
    using assms(2) by (simp_all add: delivering_def)
  have "version_of ?d ?k = v"
    using d(2) e assms(3,4) by (auto simp: version_deliver split: if_splits)
  moreover have "\<forall>d \<in> set (ds @ [e]). reflects ?d d"
  proof (cases "ds = []")
    case True
    then show ?thesis using newer_lands [OF e(1) assms(3,4)] d(2) e(2) by simp
  next
    case False
    then show ?thesis using companion_lands [OF assms(1) f False assms(3,4) _ d(3)] d(2) by simp
  qed
  ultimately show ?thesis using f d(1) by (auto simp: delivering_def)
qed

lemma sound_deliver:
  assumes "sound s" and j: "jobs s = [\<lparr>todo = rs, current = Some (r, m # evs)\<rparr>]"
  shows "sound (s\<lparr>index := deliver now m (index s),
                  jobs := [\<lparr>todo = rs, current = Some (r, evs)\<rparr>]\<rparr>)" (is "sound ?t")
proof -
  have store: "store_sound s" and que: "queue_sound s"
    and rows: "rows_sound s \<lparr>todo = rs, current = Some (r, m # evs)\<rparr>"
    and fl: "in_flight s r (m # evs)" and st: "stamped_by (clk (box s)) m"
    and sts: "\<forall>m \<in> set evs. stamped_by (clk (box s)) m"
    using assms(1) j by (auto simp: sound_def calls_sound_def)
  have "row_ok valid r" using rows by (simp add: rows_sound_def job_rows_def)
  then obtain kind where k: "valid kind (entity_id r)"
    "row_key r = mirror_key kind (entity_id r)" by (auto simp: row_ok_def)
  obtain ds es0 v where e0: "m # evs = map (\<lambda>e. (e, Some v)) es0"
    "delivering s kind (entity_id r) ds es0 v"
    "gen_of (queue (box s)) (row_key r) = Some (generation r) \<longrightarrow>
        same_part (snap (facts s) (kind_text kind) (entity_id r)) (ds @ es0)"
    using fl [unfolded in_flight_def, THEN spec, THEN spec, THEN mp, THEN mp, OF k]
    by (elim exE conjE) (rule that)
  then obtain e es where es0: "es0 = e # es" and m: "m = (e, Some v)" "evs = map (\<lambda>e. (e, Some v)) es"
    by (cases es0) auto
  have g: "good e" "0 < v" "v \<le> MAX_SAFE_INTEGER" "v \<le> clk (box s)"
    using st by (auto simp: stamped_by_def m)
  have key: "key_of e = entity_key kind (entity_id r)"
  proof -
    obtain f where "snap f (kind_text kind) (entity_id r) = ds @ e # es"
      using e0(2) by (auto simp: delivering_def es0)
    then show ?thesis using snapshot_shape [OF k(1), of e f] by simp
  qed
  have "store_sound ?t" using store g by (auto simp: store_sound_def m version_deliver)
  moreover have "queue_sound ?t" unfolding queue_sound_def
  proof (intro allI impI)
    fix kind' eid' assume *: "valid kind' eid'" "gen_of (queue (box ?t)) (mirror_key kind' eid') = None"
    then have "settled s kind' eid'" using que by (simp add: queue_sound_def)
    moreover have "(kind', eid') \<noteq> (kind, entity_id r)"
      using * rows k by (auto simp: rows_sound_def job_rows_def)
    then have "key_of e \<noteq> entity_key kind' eid'"
      using entity_key_inject [OF k(1) *(1)] key by metis
    ultimately have "settled (s\<lparr>index := deliver now (e, Some v) (index s)\<rparr>) kind' eid'"
      using settled_deliver [OF *(1) _ st [unfolded m(1)]] by blast
    then show "settled ?t kind' eid'" by (simp add: settled_def m)
  qed
  moreover have "in_flight ?t r evs" unfolding in_flight_def
  proof (intro allI impI)
    fix kind' eid assume a: "valid kind' eid" "row_key r = mirror_key kind' eid"
    then have "kind' = kind" "eid = entity_id r" using k(2) by simp_all
    moreover have "delivering ?t kind (entity_id r) (ds @ [e]) es v"
      using delivering_next [OF k(1) e0(2) [unfolded es0] g(2,3), of now] by (simp add: delivering_def m)
    ultimately show "\<exists>ds es v. evs = map (\<lambda>e. (e, Some v)) es \<and> delivering ?t kind' eid ds es v \<and>
       (gen_of (queue (box ?t)) (row_key r) = Some (generation r) \<longrightarrow>
          same_part (snap (facts ?t) (kind_text kind') eid) (ds @ es))"
      using e0(3) m(2) es0
      by - (rule exI [of _ "ds @ [e]"], rule exI [of _ es], rule exI [of _ v], simp)
  qed
  ultimately show ?thesis
    using rows sts by (simp add: sound_def rows_sound_def calls_sound_def job_rows_def)
qed


lemma sound_complete_row:
  assumes "sound s" and j: "jobs s = [\<lparr>todo = rs, current = Some (r, [])\<rparr>]"
  shows "sound (s\<lparr>box := finish_row r (box s), jobs := [\<lparr>todo = rs, current = None\<rparr>]\<rparr>)"
proof -
  let ?t = "s\<lparr>box := finish_row r (box s)\<rparr>"
  have store: "store_sound s" and que: "queue_sound s"
    and rows: "rows_sound s \<lparr>todo = rs, current = Some (r, [])\<rparr>" and fl: "in_flight s r []"
    using assms(1) j by (auto simp: sound_def calls_sound_def)
  have d: "distinct (map row_key (queue (box s)))" using store by (simp add: store_sound_def)
  have clk: "clk (box ?t) = clk (box s)" by (simp add: clk_def finish_row_def)
  have gen: "gen_of (queue (finish_row r (box s))) key =
      (if key = row_key r \<and> gen_of (queue (box s)) key = Some (generation r) then None
       else gen_of (queue (box s)) key)" for key
    using gen_of_finish [OF d] by simp
  have "store_sound ?t"
    using store clk distinct_filter [of "queue (box s)"] d
    by (auto simp: store_sound_def queue_finish distinct_map intro: inj_on_subset)
  moreover have "queue_sound ?t" unfolding queue_sound_def
  proof (intro allI impI)
    fix kind eid assume *: "valid kind eid" "gen_of (queue (box ?t)) (mirror_key kind eid) = None"
    then consider "gen_of (queue (box s)) (mirror_key kind eid) = None"
      | "row_key r = mirror_key kind eid" "gen_of (queue (box s)) (row_key r) = Some (generation r)"
      by (auto simp: gen split: if_splits)
    then show "settled ?t kind eid"
      using que in_flight_done [OF fl *(1)] * by cases (auto simp: queue_sound_def settled_def)
  qed
  moreover have "\<forall>q \<in> set rs. row_key q \<noteq> row_key r"
    using rows by (simp add: rows_sound_def job_rows_def) (metis image_eqI)
  then have "rows_sound ?t \<lparr>todo = rs, current = None\<rparr>"
    using rows by (auto simp: rows_sound_def job_rows_def gen)
  ultimately have "sound (?t\<lparr>jobs := [\<lparr>todo = rs, current = None\<rparr>]\<rparr>)"
    by (simp add: sound_def calls_sound_def)
  then show ?thesis by simp
qed

text \<open>A call that failed for the object may still land: it joins the late ones.\<close>

lemma settled_late:
  assumes "settled s kind eid"
    and "\<forall>m \<in> set evs. \<forall>v. snd m = Some v \<longrightarrow> key_of (fst m) \<noteq> entity_key kind eid"
    and "\<forall>m \<in> set evs. \<exists>v. snd m = Some v"
  shows "settled (s\<lparr>late := evs @ late s\<rparr>) kind eid"
  using assms unfolding settled_def late_below_def by fastforce

lemma rows_distinct_keys:
  "rows_sound s j \<Longrightarrow> rows_sound s (j\<lparr>current := None\<rparr>)"
  by (auto simp: rows_sound_def job_rows_def split: option.splits prod.splits)

lemma in_flight_keys:
  assumes "in_flight s r evs" and k: "valid kind eid" "row_key r = mirror_key kind eid"
  shows "\<forall>m \<in> set evs. key_of (fst m) = entity_key kind eid"
proof -
  obtain ds es v f where "evs = map (\<lambda>e. (e, Some v)) es" "snap f (kind_text kind) eid = ds @ es"
    using assms unfolding in_flight_def delivering_def by blast
  then show ?thesis using snapshot_shape [OF k(1), of _ f] by auto
qed

lemma sound_fail:
  assumes "sound s" and j: "jobs s = [j]" and c: "current j = Some (r, evs)"
    and b: "b = box s \<or> b = fail_row retryAt message r (box s) \<or>
            b = push_due retryAt (fail_row retryAt message r (box s))"
    and js: "js = [] \<or> js = [j\<lparr>current := None\<rparr>]"
  shows "sound (s\<lparr>box := b, late := evs @ late s, jobs := js\<rparr>)"
proof -
  let ?t = "s\<lparr>box := b, late := evs @ late s\<rparr>"
  have store: "store_sound s" and que: "queue_sound s" and rows: "rows_sound s j"
    and fl: "in_flight s r evs" and st: "\<forall>m \<in> set evs. stamped_by (clk (box s)) m"
    using assms(1) j c by (auto simp: sound_def calls_sound_def)
  have gen: "gen_of (queue b) = gen_of (queue (box s))" using b by (elim disjE) (simp_all add: fun_eq_iff)
  have keys: "map row_key (queue b) = map row_key (queue (box s))"
    using b by (elim disjE) (simp_all only: keys_fail)
  have clk: "clk b = clk (box s)" using b by (auto simp: clk_def fail_row_def push_due_def)
  have ok: "\<forall>q \<in> set (queue b). row_ok valid q"
  proof -
    have q: "\<forall>q \<in> set (queue (box s)). row_ok valid q" using store by (simp add: store_sound_def)
    show ?thesis
      using b q row_ok_fail(1) [OF q] row_ok_fail(2) [OF row_ok_fail(1) [OF q]] by (elim disjE) (simp_all only:)
  qed
  have "r \<in> set (job_rows j)" using c by (simp add: job_rows_def)
  then have "row_ok valid r" and queued: "gen_of (queue (box s)) (row_key r) \<noteq> None"
    using rows unfolding rows_sound_def by fastforce+
  then obtain kind where k: "valid kind (entity_id r)" "row_key r = mirror_key kind (entity_id r)"
    by (auto simp: row_ok_def)
  have "store_sound ?t"
    using store ok st unfolding store_sound_def by (simp add: keys clk ball_Un)
  moreover have "queue_sound ?t" unfolding queue_sound_def
  proof (intro allI impI)
    fix kind' eid assume *: "valid kind' eid" "gen_of (queue (box ?t)) (mirror_key kind' eid) = None"
    then have set': "settled s kind' eid" using que by (simp add: queue_sound_def gen)
    have "(kind', eid) \<noteq> (kind, entity_id r)" using * queued k by (auto simp: gen)
    then have "entity_key kind' eid \<noteq> entity_key kind (entity_id r)"
      using entity_key_inject [OF k(1) *(1)] by auto
    moreover have "\<forall>m \<in> set evs. key_of (fst m) = entity_key kind (entity_id r)"
      using in_flight_keys [OF fl k] .
    ultimately have "\<forall>m \<in> set evs. key_of (fst m) \<noteq> entity_key kind' eid" by metis
    then have "settled (s\<lparr>late := evs @ late s\<rparr>) kind' eid"
      using st set' by (intro settled_late) (auto simp: stamped_by_def)
    then show "settled ?t kind' eid" by (simp add: settled_def)
  qed
  moreover have "rows_sound ?t (j\<lparr>current := None\<rparr>)"
    using rows_distinct_keys [OF rows] by (simp add: rows_sound_def gen)
  ultimately have "sound (?t\<lparr>jobs := js\<rparr>)"
    using js by (auto simp: sound_def calls_sound_def)
  then show ?thesis by simp
qed

lemma sound_fail_snapshot:
  assumes "sound s" and j: "jobs s = [\<lparr>todo = r # rs, current = None\<rparr>]"
  shows "sound (s\<lparr>box := fail_row retryAt message r (box s), jobs := [\<lparr>todo = rs, current = None\<rparr>]\<rparr>)"
proof -
  let ?t = "s\<lparr>box := fail_row retryAt message r (box s)\<rparr>"
  have store: "store_sound s" and que: "queue_sound s"
    and rows: "rows_sound s \<lparr>todo = r # rs, current = None\<rparr>"
    using assms(1) j by (auto simp: sound_def)
  have "clk (box ?t) = clk (box s)" by (simp add: clk_def fail_row_def)
  then have "store_sound ?t"
    using store row_ok_fail(1) [of "box s"] keys_fail(1) [of retryAt message r "box s"]
    by (simp add: store_sound_def del: keys_fail)
  moreover have "queue_sound ?t" using que by (simp add: queue_sound_def)
  ultimately have "sound (?t\<lparr>jobs := [\<lparr>todo = rs, current = None\<rparr>]\<rparr>)"
    using rows by (simp add: sound_def rows_sound_def calls_sound_def job_rows_def)
  then show ?thesis by simp
qed

lemma sound_late_arrival:
  assumes "sound s" and m: "m \<in> set (late s)"
  shows "sound (s\<lparr>index := deliver now m (index s)\<rparr>)" (is "sound ?t")
proof -
  have store: "store_sound s" and que: "queue_sound s" using assms(1) by (simp_all add: sound_def)
  then have st: "stamped_by (clk (box s)) m" using m by (simp add: store_sound_def)
  then obtain e v where e: "m = (e, Some v)" "good e" "0 < v" "v \<le> MAX_SAFE_INTEGER" "v \<le> clk (box s)"
    by (cases m) (auto simp: stamped_by_def)
  have keep: "settled ?t kind eid" if *: "valid kind eid" "settled s kind eid" for kind eid
  proof -
    have "settled (s\<lparr>index := deliver now (e, Some v) (index s)\<rparr>) kind eid"
    proof (rule settled_deliver [OF * st [unfolded e(1)]])
      assume "key_of e = entity_key kind eid" "snap (facts s) (kind_text kind) eid \<noteq> []"
      then have "late_below (key_of e) (version_of (index s) (entity_key kind eid)) (late s)"
        using *(2) by (cases "snap (facts s) (kind_text kind) eid") (auto simp: settled_def)
      then show "\<exists>v'. Some v = Some v' \<and> v' < version_of (index s) (entity_key kind eid)"
        using m e(1) by (auto simp: late_below_def)
    qed
    then show ?thesis by (simp add: e)
  qed
  have "in_flight ?t r evs" if fl: "in_flight s r evs" for r evs
    unfolding in_flight_def
  proof (intro allI impI)
    fix kind eid assume k: "valid kind eid" "row_key r = mirror_key kind eid"
    obtain ds es v' where d: "evs = map (\<lambda>e. (e, Some v')) es" "delivering s kind eid ds es v'"
        "gen_of (queue (box s)) (row_key r) = Some (generation r) \<longrightarrow>
           same_part (snap (facts s) (kind_text kind) eid) (ds @ es)"
      using fl k unfolding in_flight_def by blast
    have "delivering ?t kind eid ds es v'"
    proof (cases "ds @ es = []")
      case True
      then show ?thesis using d(2) by (simp add: delivering_def)
    next
      case False
      then have "key_of e = entity_key kind eid \<Longrightarrow> v < v'"
        using d(2) m e(1) by (auto simp: delivering_def late_below_def)
      then show ?thesis
        using delivering_deliver [OF k(1) d(2) st [unfolded e(1)], of now] by (simp add: e(1))
    qed
    then show "\<exists>ds es v. evs = map (\<lambda>e. (e, Some v)) es \<and> delivering ?t kind eid ds es v \<and>
       (gen_of (queue (box ?t)) (row_key r) = Some (generation r) \<longrightarrow>
          same_part (snap (facts ?t) (kind_text kind) eid) (ds @ es))"
      using d(1,3) by auto
  qed
  moreover have "store_sound ?t" using store e by (auto simp: store_sound_def version_deliver)
  moreover have "queue_sound ?t" using que keep by (simp add: queue_sound_def)
  ultimately show ?thesis
    using assms(1) by (auto simp: sound_def rows_sound_def calls_sound_def split: option.splits)
qed


lemma sound_box:
  "queue b = queue (box s) \<Longrightarrow> clock b = clock (box s) \<Longrightarrow> sound (s\<lparr>box := b\<rparr>) = sound s"
  by (simp add: sound_def store_sound_def queue_sound_def rows_sound_def calls_sound_def in_flight_def
      settled_def clk_def split: option.split)

lemma sound_jobs: "sound s \<Longrightarrow> i < length (jobs s) \<Longrightarrow> i = 0 \<and> jobs s = [jobs s ! 0]"
  by (auto simp: sound_def)

lemma sound_step:
  assumes "mirror_step deliver snap part valid (Suc 0) s t" "sound s"
  shows "sound t"
  using assms
proof cases
  case (start_drain bound m)
  then have "jobs s = []" by simp
  then show ?thesis using sound_start_drain [OF assms(2)] start_drain by simp
next
  case (start_row i r rs now evs b)
  then have "i = 0 \<and> jobs s = [\<lparr>todo = r # rs, current = None\<rparr>]" using sound_jobs [OF assms(2)] by metis
  then show ?thesis using sound_start_row [OF assms(2)] start_row by simp
next
  case (fail_snapshot i r rs retryAt message)
  then have "i = 0 \<and> jobs s = [\<lparr>todo = r # rs, current = None\<rparr>]" using sound_jobs [OF assms(2)] by metis
  then show ?thesis using sound_fail_snapshot [OF assms(2)] fail_snapshot by simp
next
  case (deliver_event i rs r e evs now)
  then have "i = 0 \<and> jobs s = [\<lparr>todo = rs, current = Some (r, e # evs)\<rparr>]"
    using sound_jobs [OF assms(2)] by metis
  then show ?thesis using sound_deliver [OF assms(2)] deliver_event by simp
next
  case (complete_row i rs r)
  then have "i = 0 \<and> jobs s = [\<lparr>todo = rs, current = Some (r, [])\<rparr>]"
    using sound_jobs [OF assms(2)] by metis
  then show ?thesis using sound_complete_row [OF assms(2)] complete_row by simp
next
  case (fail_call i rs r evs retryAt message)
  then have "i = 0 \<and> jobs s = [\<lparr>todo = rs, current = Some (r, evs)\<rparr>]"
    using sound_jobs [OF assms(2)] by metis
  then show ?thesis
    using sound_fail [OF assms(2), of "\<lparr>todo = rs, current = Some (r, evs)\<rparr>" r evs
        "fail_row retryAt message r (box s)" retryAt message "[\<lparr>todo = rs, current = None\<rparr>]"] fail_call
    by simp
next
  case (give_up i rs r evs retryAt message)
  then have "i = 0 \<and> jobs s = [\<lparr>todo = rs, current = Some (r, evs)\<rparr>]"
    using sound_jobs [OF assms(2)] by metis
  then show ?thesis
    using sound_fail [OF assms(2), of "\<lparr>todo = rs, current = Some (r, evs)\<rparr>" r evs
        "push_due retryAt (fail_row retryAt message r (box s))" retryAt message "[]"] give_up
    by simp
next
  case (end_drain i rs)
  then have "i = 0" "jobs s = [jobs s ! 0]" using sound_jobs [OF assms(2)] by blast+
  then have "take i (jobs s) @ drop (Suc i) (jobs s) = []" by (metis append_Nil drop_Suc_Cons drop_Nil take_0)
  then show ?thesis using sound_change_jobs [OF assms(2), of "[]"] end_drain(1) by (simp only:) simp
next
  case fire_alarm
  then show ?thesis using assms(2) by (simp add: sound_box noteAlarmFired_def)
next
  case (schedule_alarm now cs)
  then show ?thesis
    using assms(2) by (simp add: sound_box scheduleEarliestAlarm_def split: option.split)
qed (use assms(2) in \<open>auto intro: sound_write sound_late_arrival\<close>)

lemma sound_restart:
  assumes "sound s"
  shows "sound (s\<lparr>late := concat (map (\<lambda>j. case current j of None \<Rightarrow> [] | Some (r, evs) \<Rightarrow> evs) (jobs s)) @ late s,
     jobs := [], box := (box s)\<lparr>armedAt := None\<rparr>\<rparr>)"
proof -
  have *: "sound (t\<lparr>box := (box s)\<lparr>armedAt := None\<rparr>\<rparr>)" if "sound t" "box t = box s" for t
    using that by (simp add: sound_box)
  consider "jobs s = []" | j where "jobs s = [j]" "current j = None"
    | j r evs where "jobs s = [j]" "current j = Some (r, evs)"
    using assms by (auto simp: sound_def) (metis option.exhaust surj_pair)
  then show ?thesis
  proof cases
    case 3
    have "sound (s\<lparr>box := box s, late := evs @ late s, jobs := []\<rparr>)"
      by (rule sound_fail [OF assms 3]) simp_all
    from * [OF this] show ?thesis using 3 by simp
  qed (use * [OF sound_change_jobs [OF assms, of "[]"]] assms in \<open>simp_all add: sound_change_jobs\<close>)
qed

lemma sound_reachable:
  assumes "mirror_reachable deliver snap part valid (Suc 0) s0 s" "sound s0"
  shows "sound s"
  using assms by induction (auto intro: sound_step sound_restart)

text \<open>What is not queued is mirrored.\<close>

lemma no_lost_update:
  assumes "mirror_reachable deliver snap part valid (Suc 0) s0 s"
    and "queue (box s0) = []" "jobs s0 = []" "late s0 = []" "0 \<le> clk (box s0)"
    and "\<And>k. version_of (index s0) k \<le> clk (box s0)"
    and "\<And>kind eid e. valid kind eid \<Longrightarrow> e \<in> set (snap (facts s0) (kind_text kind) eid) \<Longrightarrow>
           reflects (index s0) e"
    and "valid kind eid" "mirror_key kind eid \<notin> row_key ` set (queue (box s))"
    and "e \<in> set (snap (facts s) (kind_text kind) eid)"
  shows "reflects (index s) e"
proof -
  have "sound s0"
    using assms(2-7)
    by (auto simp: sound_def store_sound_def queue_sound_def settled_def late_below_def)
  then have "sound s" using sound_reachable assms(1) by blast
  then have "settled s kind eid" using assms(8,9) by (simp add: sound_def queue_sound_def gen_of_None)
  then show ?thesis using assms(10) by (simp add: settled_def)
qed

end

subsection \<open>The organisation's snapshot\<close>

text \<open>
  The tables of \<open>OrgDO\<close> that \<open>mirrorSnapshot\<close> reads (\<open>identity/org-do.ts\<close>), with the columns the
  index keeps.
  \<open>defaultAvatar\<close> stands for \<open>generateDefaultAvatar\<close>.
\<close>

record org_workspace =
  ow_name :: string
  ow_created_at :: int
  ow_archived :: bool
  ow_description :: "string option"
  ow_created_by :: "string option"
  ow_avatar_color :: "string option"
  ow_avatar_content :: "string option"
  ow_archived_at :: "int option"
  ow_archived_by :: "string option"
  ow_email_handle :: "string option"

record org_script =
  os_workspace_id :: string
  os_created_by :: "string option"
  os_created_at :: int
  os_updated_at :: int
  os_is_public :: bool
  os_preview_status :: "string option"
  os_preview_error :: "string option"
  os_project_id :: "string option"

record org_thread =
  ot_workspace_id :: string
  ot_title :: "string option"
  ot_created_by :: "string option"
  ot_model :: "string option"
  ot_created_at :: int
  ot_updated_at :: int
  ot_user_message_count :: "int option"
  ot_last_user_message_at :: "int option"
  ot_source :: "string option"
  ot_channel_kind :: "string option"

record org_facts =
  info :: "org_payload option"
  llm_provider_config :: "(string \<times> int option) option"
  members :: "(string \<times> membership_row) list"
  memberships :: "((string \<times> string) \<times> (string \<times> string option \<times> int)) list"
  org_invitations :: "(string \<times> (string \<times> string \<times> string \<times> int \<times> int)) list"
  org_workspaces :: "(string \<times> org_workspace) list"
  integrations :: "(string \<times> (string \<times> int option)) list"
  worker_scripts :: "(string \<times> org_script) list"
  org_threads :: "(string \<times> org_thread) list"

definition normalizeWorkspaceAccess :: "string \<Rightarrow> string" where
  "normalizeWorkspaceAccess access = (if access = ''none'' then ''none'' else ''full'')"

definition getActiveWorkspaceIntegrationCount :: "org_facts \<Rightarrow> string \<Rightarrow> int" where
  "getActiveWorkspaceIntegrationCount f wid =
     count_where (\<lambda>(w, deleted_at). w = wid \<and> deleted_at = None) (integrations f)"

definition workspaceFromRow ::
  "(string \<Rightarrow> string \<times> string) \<Rightarrow> string \<Rightarrow> string \<Rightarrow> org_workspace \<Rightarrow> workspace_payload" where
  "workspaceFromRow defaultAvatar orgId wid row =
     \<lparr>wp_id = wid, wp_name = ow_name row, wp_org_id = orgId, wp_description = ow_description row,
      wp_avatar = Some (case (ow_avatar_color row, ow_avatar_content row) of
          (Some c, Some t) \<Rightarrow> if c \<noteq> [] \<and> t \<noteq> [] then (c, t) else defaultAvatar (ow_name row)
        | _ \<Rightarrow> defaultAvatar (ow_name row)),
      wp_created_at = Some (ow_created_at row),
      wp_created_by = Some (or_default [] (ow_created_by row)),
      wp_archived = ow_archived row, wp_archived_at = ow_archived_at row,
      wp_archived_by = ow_archived_by row, wp_compute_tier = Some ''standard'',
      wp_integration_count = None, wp_email_handle = Some (ow_email_handle row)\<rparr>"

text \<open>The workspace and user of a composite id, by \<open>indexOf\<close> and \<open>slice\<close>.\<close>

definition split_member_id :: "string \<Rightarrow> string \<times> string" where
  "split_member_id eid =
     (if CHR '':'' \<in> set eid
      then (takeWhile (\<lambda>c. c \<noteq> CHR '':'') eid, tl (dropWhile (\<lambda>c. c \<noteq> CHR '':'') eid))
      else (butlast eid, eid))"

definition snapshot_member :: "org_facts \<Rightarrow> string \<Rightarrow> string \<Rightarrow> admin_event list" where
  "snapshot_member f orgId uid =
     (case map_of (members f) uid of
        Some m \<Rightarrow> [Org_membership_upsert orgId uid (mem_role m) (mem_joined_at m)
                    (Some (if mem_access_default m = Some ''none'' then ''none'' else ''full''))]
      | None \<Rightarrow> [Org_membership_delete orgId uid])"

definition snapshot_workspace_member :: "org_facts \<Rightarrow> string \<Rightarrow> string \<Rightarrow> admin_event list" where
  "snapshot_workspace_member f orgId eid =
     (let (workspaceId, userId) = split_member_id eid
      in case map_of (memberships f) (workspaceId, userId) of
           Some (access, granted_by, granted_at) \<Rightarrow>
             [Workspace_member_upsert orgId workspaceId userId (normalizeWorkspaceAccess access)
                granted_by granted_at]
         | None \<Rightarrow> [Workspace_member_delete workspaceId userId])"

definition snapshot_invitation :: "org_facts \<Rightarrow> string \<Rightarrow> string \<Rightarrow> admin_event list" where
  "snapshot_invitation f orgId iid =
     (case map_of (org_invitations f) iid of
        Some (email, role, invited_by, created_at, expires_at) \<Rightarrow>
          [Invitation_upsert \<lparr>ip_id = iid, ip_org_id = orgId, ip_email = email, ip_role = role,
             ip_invited_by = invited_by, ip_status = Some ''pending'',
             ip_created_at = Some created_at, ip_expires_at = Some expires_at\<rparr>]
      | None \<Rightarrow> [Invitation_delete iid])"

definition snapshot_workspace ::
  "(string \<Rightarrow> string \<times> string) \<Rightarrow> org_facts \<Rightarrow> string \<Rightarrow> string \<Rightarrow> admin_event list" where
  "snapshot_workspace defaultAvatar f orgId wid =
     (case map_of (org_workspaces f) wid of
        Some row \<Rightarrow>
          [Workspace_upsert ((workspaceFromRow defaultAvatar orgId wid row)
             \<lparr>wp_integration_count := Some (getActiveWorkspaceIntegrationCount f wid)\<rparr>)]
      | None \<Rightarrow> [Workspace_delete wid])"

definition snapshot_app :: "org_facts \<Rightarrow> string \<Rightarrow> string \<Rightarrow> admin_event list" where
  "snapshot_app f orgId script =
     (case map_of (worker_scripts f) script of
        Some row \<Rightarrow>
          [App_upsert \<lparr>ap_script_name = script, ap_org_id = Some orgId,
             ap_workspace_id = os_workspace_id row, ap_project_id = os_project_id row,
             ap_created_by = os_created_by row, ap_created_at = Some (os_created_at row),
             ap_updated_at = Some (os_updated_at row), ap_is_public = os_is_public row,
             ap_preview_status = os_preview_status row, ap_preview_error = os_preview_error row\<rparr>]
      | None \<Rightarrow> [App_delete script (Some orgId)])"

definition toAdminThreadPayload :: "string \<Rightarrow> org_thread \<Rightarrow> string \<Rightarrow> thread_payload" where
  "toAdminThreadPayload tid t orgId =
     \<lparr>tp_id = tid, tp_org_id = orgId, tp_workspace_id = ot_workspace_id t,
      tp_created_at = Some (ot_created_at t), tp_title = ot_title t, tp_model = ot_model t,
      tp_updated_at = Some (ot_updated_at t), tp_created_by = ot_created_by t,
      tp_user_message_count = ot_user_message_count t,
      tp_last_user_message_at = ot_last_user_message_at t, tp_source = ot_source t,
      tp_channel_kind = ot_channel_kind t\<rparr>"

definition snapshot_thread :: "org_facts \<Rightarrow> string \<Rightarrow> string \<Rightarrow> admin_event list" where
  "snapshot_thread f orgId tid =
     (case map_of (org_threads f) tid of
        Some t \<Rightarrow> [Thread_upsert (toAdminThreadPayload tid t orgId)]
      | None \<Rightarrow> [Thread_delete tid None])"

definition snapshot_org :: "org_facts \<Rightarrow> org_payload \<Rightarrow> admin_event list" where
  "snapshot_org f i =
     [Org_upsert (i\<lparr>op_member_count := Some (int (length (members f))),
                   op_workspace_count := Some (int (length (org_workspaces f)))\<rparr>),
      Org_llm_provider_update (op_id i) (map_option fst (llm_provider_config f))
        (Option.bind (llm_provider_config f) snd)]"

definition mirrorSnapshot ::
  "(string \<Rightarrow> string \<times> string) \<Rightarrow> org_facts \<Rightarrow> string \<Rightarrow> string \<Rightarrow> admin_event list" where
  "mirrorSnapshot defaultAvatar f kind eid =
     (case info f of None \<Rightarrow> []
      | Some i \<Rightarrow>
          if kind = ''org'' then snapshot_org f i
          else if kind = ''org_membership'' then snapshot_member f (op_id i) eid
          else if kind = ''workspace_member'' then snapshot_workspace_member f (op_id i) eid
          else if kind = ''invitation'' then snapshot_invitation f (op_id i) eid
          else if kind = ''workspace'' then snapshot_workspace defaultAvatar f (op_id i) eid
          else if kind = ''app'' then snapshot_app f (op_id i) eid
          else if kind = ''thread'' then snapshot_thread f (op_id i) eid
          else [])"

subsection \<open>The mirror of an organisation never loses an update\<close>

text \<open>
  The snapshot of the organisation \<open>oid\<close> (its object serves no other), the entities it marks, which
  are all but users, and the ledger keys of their events. The organisation itself is marked with
  the empty id; the id of a workspace member contains its separator.
\<close>

definition org_snapshot ::
  "string \<Rightarrow> (string \<Rightarrow> string \<times> string) \<Rightarrow> org_facts \<Rightarrow> string \<Rightarrow> string \<Rightarrow> admin_event list" where
  "org_snapshot oid defaultAvatar f kind eid =
     (if oid \<noteq> [] \<and> map_option op_id (info f) = Some oid
      then mirrorSnapshot defaultAvatar f kind eid else [])"

fun org_entity :: "MirrorKind \<Rightarrow> string \<Rightarrow> bool" where
  "org_entity Mirror_workspace eid = True"
| "org_entity Mirror_app eid = True"
| "org_entity Mirror_org_membership eid = True"
| "org_entity Mirror_workspace_member eid = (CHR '':'' \<in> set eid)"
| "org_entity Mirror_invitation eid = True"
| "org_entity Mirror_thread eid = True"
| "org_entity Mirror_org eid = (eid = [])"
| "org_entity Mirror_user eid = False"

text \<open>The workspace count of an organisation is derived by the index.\<close>

fun without_derived :: "admin_event \<Rightarrow> admin_event" where
  "without_derived (Org_upsert p) = Org_upsert (p\<lparr>op_workspace_count := None\<rparr>)"
| "without_derived e = e"

lemma without_derived_reflects:
  assumes "without_derived e = without_derived e'"
  shows "mirrors d e \<longleftrightarrow> mirrors d e'"
proof (cases e)
  case (Org_upsert p)
  with assms obtain q where q: "e' = Org_upsert q" "q\<lparr>op_workspace_count := None\<rparr> = p\<lparr>op_workspace_count := None\<rparr>"
    by (cases e') auto
  then have "p = q\<lparr>op_workspace_count := op_workspace_count p\<rparr>"
    by (metis org_payload.surjective org_payload.update_convs(10))
  then obtain n where "p = q\<lparr>op_workspace_count := n\<rparr>" by blast
  then show ?thesis
    by (simp add: Org_upsert q(1) mirrors_def ledger_agrees_def split: option.split)
qed (use assms in \<open>cases e'; simp\<close>)+

fun org_entity_key :: "string \<Rightarrow> MirrorKind \<Rightarrow> string \<Rightarrow> ledger_key" where
  "org_entity_key oid Mirror_app eid = (Mirror_app, oid @ '':'' @ eid)"
| "org_entity_key oid Mirror_org_membership eid = (Mirror_org_membership, oid @ '':'' @ eid)"
| "org_entity_key oid Mirror_org eid = (Mirror_org, oid)"
| "org_entity_key oid kind eid = (kind, eid)"

lemma split_member_id_join:
  "CHR '':'' \<in> set eid \<Longrightarrow> split_member_id eid = (wid, uid) \<Longrightarrow> wid @ CHR '':'' # uid = eid"
proof -
  assume "CHR '':'' \<in> set eid" "split_member_id eid = (wid, uid)"
  moreover have "CHR '':'' \<in> set eid \<Longrightarrow>
     takeWhile (\<lambda>c. c \<noteq> CHR '':'') eid @ CHR '':'' # tl (dropWhile (\<lambda>c. c \<noteq> CHR '':'') eid) = eid"
    by (induction eid) auto
  ultimately show ?thesis by (auto simp: split_member_id_def)
qed

lemma snapshot_workspace_member_shape:
  assumes "CHR '':'' \<in> set eid"
  shows "\<exists>e. snapshot_workspace_member f oid eid = [e] \<and> mirrored e \<and>
    event_key e = (Mirror_workspace_member, eid)"
proof -
  obtain wid uid where s: "split_member_id eid = (wid, uid)" by (cases "split_member_id eid")
  then show ?thesis
    using split_member_id_join [OF assms s]
    by (auto simp: snapshot_workspace_member_def workspaceMemberMirrorKey_def split: option.split)
qed

lemma org_snapshot_shape:
  assumes "org_entity kind eid" and e: "e \<in> set (org_snapshot oid avatar f (kind_text kind) eid)"
  shows "mirrored e \<and> event_key e = org_entity_key oid kind eid"
proof -
  from e obtain i where i: "info f = Some i" "op_id i = oid" "oid \<noteq> []"
    by (auto simp: org_snapshot_def split: if_splits)
  show ?thesis
  proof (cases kind)
    case Mirror_workspace_member
    then show ?thesis
      using assms snapshot_workspace_member_shape [of eid f oid] i
      by (auto simp: org_snapshot_def mirrorSnapshot_def)
  qed (use assms i in \<open>auto simp: org_snapshot_def mirrorSnapshot_def snapshot_workspace_def
        workspaceFromRow_def snapshot_app_def snapshot_member_def getAppId_def snapshot_org_def
        snapshot_invitation_def snapshot_thread_def toAdminThreadPayload_def
        orgMembershipMirrorKey_def split: option.splits\<close>)
qed

text \<open>Only the organisation's own snapshot has two events.\<close>

lemma org_snapshot_pair:
  assumes "org_entity kind eid" "org_snapshot oid avatar f (kind_text kind) eid = es @ e # es'" "es \<noteq> []"
  shows "\<exists>p provider updated_at. op_id p = oid \<and> kind = Mirror_org \<and> es = [Org_upsert p] \<and>
    e = Org_llm_provider_update oid provider updated_at"
proof -
  have "kind = Mirror_org"
    using assms
    by (cases kind) (auto simp: org_snapshot_def mirrorSnapshot_def snapshot_workspace_def snapshot_app_def
        snapshot_member_def snapshot_invitation_def snapshot_thread_def snapshot_workspace_member_def
        Cons_eq_append_conv split: option.splits if_splits prod.splits)
  moreover obtain i where "info f = Some i" "op_id i = oid"
    using assms(2) by (auto simp: org_snapshot_def split: if_splits)
  ultimately show ?thesis
    using assms(2,3)
    by (auto simp: org_snapshot_def mirrorSnapshot_def snapshot_org_def Cons_eq_append_conv
        append_eq_Cons_conv split: if_splits)
qed

interpretation org_mirror:
  mirrored_entities applyAdminEvent event_key mirrored recorded_version mirrors
    "org_snapshot oid avatar" without_derived org_entity "org_entity_key oid" for oid avatar
proof
  fix kind eid kind' eid'
  assume "org_entity kind eid" "org_entity kind' eid'"
    "org_entity_key oid kind eid = org_entity_key oid kind' eid'"
  then show "kind = kind' \<and> eid = eid'" by (cases kind; cases kind') simp_all
next
  fix kind eid f es e es' v d now
  assume a: "org_entity kind eid" "org_snapshot oid avatar f (kind_text kind) eid = es @ e # es'" "es \<noteq> []"
    "0 < v" "v \<le> MAX_SAFE_INTEGER" "recorded_version d (org_entity_key oid kind eid) = v"
    "\<forall>e' \<in> set es. mirrors d e'"
  from org_snapshot_pair [OF a(1-3)] obtain p provider updated_at where
    "op_id p = oid" "kind = Mirror_org" "es = [Org_upsert p]"
    "e = Org_llm_provider_update oid provider updated_at" by blast
  then show "\<forall>e' \<in> set (es @ [e]). mirrors (applyAdminEvent now (e, Some v) d) e'"
    using provider_update_lands [OF a(4,5) _ _ refl, of d p now provider updated_at] a(6,7) by simp
qed (rule org_snapshot_shape, assumption+, rule without_derived_reflects)


subsection \<open>Concrete runs\<close>

text \<open>Organisation \<open>o\<close>, without and with the member \<open>u\<close> of workspace \<open>w\<close>.\<close>

definition facts_without :: org_facts where
  "facts_without =
     \<lparr>info = Some \<lparr>op_id = ''o'', op_name = ''n'', op_slug = None, op_created_at = None,
        op_archived = False, op_billing_status = None, op_billing_plan = None, op_created_by = None,
        op_member_count = None, op_workspace_count = None\<rparr>,
      llm_provider_config = None, members = [], memberships = [], org_invitations = [],
      org_workspaces = [], integrations = [], worker_scripts = [], org_threads = []\<rparr>"

definition facts_with :: org_facts where
  "facts_with = facts_without\<lparr>memberships := [((''w'', ''u''), (''full'', None, 5))]\<rparr>"

definition member_row :: "int \<Rightarrow> admin_event OutboxRow" where
  "member_row now = new_row ''workspace_member:w:u'' ''workspace_member'' ''w:u'' None now (now + 1000)"

definition member_event :: admin_event where
  "member_event = Workspace_member_upsert ''o'' ''w'' ''u'' ''full'' None 5"

definition example_state ::
  "org_facts \<Rightarrow> admin_event OutboxRow list \<Rightarrow> int option \<Rightarrow> int option \<Rightarrow> app_index \<Rightarrow>
   admin_event drain_job list \<Rightarrow> (org_facts, admin_event, app_index) mirror_system" where
  "example_state f q c a d js =
     \<lparr>facts = f, box = \<lparr>queue = q, clock = c, armedAt = a, alarm = a\<rparr>, index = d, jobs = js, late = []\<rparr>"

definition example_avatar :: "string \<Rightarrow> string \<times> string" where
  "example_avatar n = (''c'', n)"

abbreviation "example_step \<equiv> mirror_step applyAdminEvent (org_snapshot ''o'' example_avatar) without_derived org_entity"
abbreviation "example_reachable \<equiv> mirror_reachable applyAdminEvent (org_snapshot ''o'' example_avatar) without_derived org_entity"

lemmas example_defs = example_state_def facts_with_def facts_without_def member_row_def member_event_def

lemma example_snapshot:
  "org_snapshot ''o'' example_avatar facts_with ''workspace_member'' ''w:u'' = [member_event]"
  "org_snapshot ''o'' example_avatar facts_without ''workspace_member'' ''w:u'' =
     [Workspace_member_delete ''w'' ''u'']"
  by (simp_all add: example_defs org_snapshot_def mirrorSnapshot_def snapshot_workspace_member_def
      split_member_id_def normalizeWorkspaceAccess_def)

lemma split_member_id_wu:
  "CHR '':'' \<in> set eid \<Longrightarrow> split_member_id eid = (''w'', ''u'') \<Longrightarrow> eid = ''w:u''"
  using split_member_id_join [of eid "''w''" "''u''"] by simp

lemma example_same:
  assumes "(kind, eid) \<notin> set [(Mirror_workspace_member, ''w:u'')]"
  shows "org_snapshot ''o'' example_avatar facts_with (kind_text kind) eid =
    org_snapshot ''o'' example_avatar facts_without (kind_text kind) eid"
proof (cases kind)
  case Mirror_workspace_member
  have "split_member_id eid \<noteq> (''w'', ''u'')" 
  proof
    assume s: "split_member_id eid = (''w'', ''u'')"
    then show False
      using split_member_id_wu [of eid] assms Mirror_workspace_member
      by (cases "CHR '':'' \<in> set eid") (auto simp: split_member_id_def)
  qed
  then show ?thesis
    using Mirror_workspace_member
    by (auto simp: org_snapshot_def mirrorSnapshot_def snapshot_workspace_member_def facts_with_def
        facts_without_def split: prod.split)
qed (simp_all add: org_snapshot_def mirrorSnapshot_def facts_with_def facts_without_def snapshot_org_def
    snapshot_member_def snapshot_invitation_def snapshot_workspace_def snapshot_app_def snapshot_thread_def
    getActiveWorkspaceIntegrationCount_def)

text \<open>The steps of a run, on concrete states.\<close>

lemma example_write:
  "example_step n (example_state facts_without [] c None d js)
     (example_state facts_with [member_row 10] c (Some 1010) d js)"
  "example_step n (example_state facts_with [] c (Some 1010) d js)
     (example_state facts_without [member_row 20] c (Some 1010) d js)"
  using mirror_step.write_facts [of "[(Mirror_workspace_member, ''w:u'')]" org_entity
      "org_snapshot ''o'' example_avatar" facts_with without_derived
      "example_state facts_without [] c None d js" applyAdminEvent n True 10]
    mirror_step.write_facts [of "[(Mirror_workspace_member, ''w:u'')]" org_entity
      "org_snapshot ''o'' example_avatar" facts_without without_derived
      "example_state facts_with [] c (Some 1010) d js" applyAdminEvent n True 20]
    example_same
  by (simp_all add: example_state_def mark_all_def markDirty_def upsert_dirty_def arm_def
      MIRROR_COALESCE_MS_def mirror_key_def member_row_def)

lemma example_start_drain:
  "length js < n \<Longrightarrow>
   example_step n (example_state f [member_row t] c a d js)
     (example_state f [member_row t] c a d (js @ [\<lparr>todo = [member_row t], current = None\<rparr>]))"
  using mirror_step.start_drain [of "example_state f [member_row t] c a d js" n applyAdminEvent
      "org_snapshot ''o'' example_avatar" without_derived org_entity "t + 1000" 1]
  by (simp add: example_state_def select_due_def member_row_def new_row_def)

lemma example_start_row:
  assumes "i < length js" "js ! i = \<lparr>todo = [member_row t], current = None\<rparr>"
    and "v = now * 1000" "v \<le> MAX_SAFE_INTEGER" "or_default 0 c < v"
    and "org_snapshot ''o'' example_avatar f ''workspace_member'' ''w:u'' = [e]"
  shows "example_step n (example_state f q c a d js)
     (example_state f q (Some v) a d
        (js[i := \<lparr>todo = [], current = Some (member_row t, [(e, Some v)])\<rparr>]))"
proof -
  have "begin_row now (org_snapshot ''o'' example_avatar f) (member_row t)
      \<lparr>queue = q, clock = c, armedAt = a, alarm = a\<rparr> =
      ([(e, Some v)], \<lparr>queue = q, clock = Some v, armedAt = a, alarm = a\<rparr>)"
    using assms(3,5,6)
    by (auto simp: begin_row_def member_row_def new_row_def nextVersion_def or_default_def Let_def
        split: option.splits)
  then show ?thesis
    using mirror_step.start_row [of i "example_state f q c a d js" "member_row t" "[]" now
        "org_snapshot ''o'' example_avatar" "[(e, Some v)]"
        "\<lparr>queue = q, clock = Some v, armedAt = a, alarm = a\<rparr>" applyAdminEvent without_derived org_entity n] assms(1,2,4)
    by (simp add: example_state_def)
qed

lemma example_deliver:
  "i < length js \<Longrightarrow> js ! i = \<lparr>todo = [], current = Some (r, [e])\<rparr> \<Longrightarrow>
   example_step n (example_state f q c a d js)
     (example_state f q c a (applyAdminEvent 0 e d) (js[i := \<lparr>todo = [], current = Some (r, [])\<rparr>]))"
  using mirror_step.deliver_event [of i "example_state f q c a d js" "[]" r e "[]" applyAdminEvent
      "org_snapshot ''o'' example_avatar" without_derived org_entity n 0]
  by (simp add: example_state_def)

lemma example_complete:
  "i < length js \<Longrightarrow> js ! i = \<lparr>todo = [], current = Some (member_row t, [])\<rparr> \<Longrightarrow>
   example_step n (example_state f [member_row t'] c a d js)
     (example_state f [] c a d (js[i := \<lparr>todo = [], current = None\<rparr>]))"
  using mirror_step.complete_row [of i "example_state f [member_row t'] c a d js" "[]" "member_row t"
      applyAdminEvent "org_snapshot ''o'' example_avatar" without_derived org_entity n]
  by (simp add: example_state_def finish_row_def member_row_def new_row_def)

lemma example_end:
  "example_step n (example_state f q c a d (\<lparr>todo = [], current = None\<rparr> # js))
     (example_state f q c a d js)"
  using mirror_step.end_drain [of 0 "example_state f q c a d (\<lparr>todo = [], current = None\<rparr> # js)" "[]"
      applyAdminEvent "org_snapshot ''o'' example_avatar" without_derived org_entity n]
  by (simp add: example_state_def)

text \<open>The member is added and mirrored.\<close>

definition example_index :: "int \<Rightarrow> app_index" where
  "example_index v = applyAdminEvent 0 (member_event, Some v) empty_index"

lemma example_mirrored:
  "example_reachable (Suc n) (example_state facts_without [] None None d [])
     (example_state facts_with [] (Some 2000) (Some 1010) (applyAdminEvent 0 (member_event, Some 2000) d)
        [\<lparr>todo = [], current = None\<rparr>])"
proof -
  let ?J = "\<lambda>c. [\<lparr>todo = [], current = c\<rparr>]"
  have "example_reachable (Suc n) (example_state facts_without [] None None d [])
     (example_state facts_with [member_row 10] None (Some 1010) d [])"
    by (rule mirror_reachable.steps [OF mirror_reachable.initially example_write(1)])
  from mirror_reachable.steps [OF this example_start_drain]
  have "example_reachable (Suc n) (example_state facts_without [] None None d [])
     (example_state facts_with [member_row 10] None (Some 1010) d
        [\<lparr>todo = [member_row 10], current = None\<rparr>])" by simp
  from mirror_reachable.steps [OF this example_start_row [of 0 _ 10 2000 2 None facts_with member_event]]
  have "example_reachable (Suc n) (example_state facts_without [] None None d [])
     (example_state facts_with [member_row 10] (Some 2000) (Some 1010) d
        (?J (Some (member_row 10, [(member_event, Some 2000)]))))"
    by (simp add: example_snapshot MAX_SAFE_INTEGER_def)
  from mirror_reachable.steps [OF this example_deliver [of 0 _ "member_row 10" "(member_event, Some 2000)"]]
  have "example_reachable (Suc n) (example_state facts_without [] None None d [])
     (example_state facts_with [member_row 10] (Some 2000) (Some 1010) (applyAdminEvent 0 (member_event, Some 2000) d)
        (?J (Some (member_row 10, []))))"
    by simp
  from mirror_reachable.steps [OF this example_complete [of 0 _ 10]]
  show ?thesis by simp
qed

text \<open>An index that has the organisation's row already.\<close>

definition org_index :: app_index where
  "org_index = fold (\<lambda>e. applyAdminEvent 0 (e, None))
     (org_snapshot ''o'' example_avatar facts_without ''org'' []) empty_index"

lemma org_index_unfold:
  "org_index = empty_index\<lparr>orgs := [(''o'', \<lparr>org_name = ''n'', org_slug = None, org_created_at = 0,
     org_archived = False, org_billing_status = None, org_billing_plan = None, org_created_by = None,
     org_member_count = 0, org_workspace_count = 0, org_llm_provider = None,
     org_llm_provider_updated_at = None\<rparr>)]\<rparr>"
  by (simp add: org_index_def org_snapshot_def mirrorSnapshot_def facts_without_def snapshot_org_def
      guarded_upsert_def claimMirrorVersion_def mirrorUpsertGuard_def normalizeMirrorVersion_def
      empty_index_def write_org_def write_org_llm_provider_def upsert_row_def update_row_def Let_def)

lemma org_index_mirrors:
  "org_entity kind eid \<Longrightarrow> e \<in> set (org_snapshot ''o'' example_avatar facts_without (kind_text kind) eid) \<Longrightarrow>
   mirrors org_index e"
  by (cases kind) (auto simp: org_index_unfold org_snapshot_def mirrorSnapshot_def facts_without_def
      empty_index_def snapshot_member_def snapshot_workspace_member_def snapshot_workspace_def
      snapshot_app_def snapshot_invitation_def snapshot_thread_def snapshot_org_def mirrors_def
      ledger_agrees_def split: prod.splits)


text \<open>The first drain waits for D1 while the second one mirrors the row and deletes it.\<close>

lemma second_drain_completes:
  "example_reachable 2 (example_state facts_without [] None None empty_index [])
     (example_state facts_with [] (Some 3000) (Some 1010) (example_index 3000)
        [\<lparr>todo = [], current = Some (member_row 10, [(member_event, Some 2000)])\<rparr>,
         \<lparr>todo = [], current = None\<rparr>])"
proof -
  let ?s0 = "example_state facts_without [] None None empty_index []"
  let ?A = "\<lparr>todo = [], current = Some (member_row 10, [(member_event, Some 2000)])\<rparr>"
  let ?d = "example_index 3000"
  have "example_reachable 2 ?s0
     (example_state facts_with [member_row 10] None (Some 1010) empty_index [])"
    by (rule mirror_reachable.steps [OF mirror_reachable.initially example_write(1)])
  from mirror_reachable.steps [OF this example_start_drain]
  have "example_reachable 2 ?s0
     (example_state facts_with [member_row 10] None (Some 1010) empty_index
        [\<lparr>todo = [member_row 10], current = None\<rparr>])" by simp
  from mirror_reachable.steps [OF this example_start_row [of 0 _ 10 2000 2 None facts_with member_event]]
  have "example_reachable 2 ?s0
     (example_state facts_with [member_row 10] (Some 2000) (Some 1010) empty_index [?A])"
    by (simp add: example_snapshot MAX_SAFE_INTEGER_def)
  from mirror_reachable.steps [OF this example_start_drain]
  have "example_reachable 2 ?s0
     (example_state facts_with [member_row 10] (Some 2000) (Some 1010) empty_index
        [?A, \<lparr>todo = [member_row 10], current = None\<rparr>])" by simp
  from mirror_reachable.steps [OF this
      example_start_row [of 1 _ 10 3000 3 "Some 2000" facts_with member_event]]
  have "example_reachable 2 ?s0
     (example_state facts_with [member_row 10] (Some 3000) (Some 1010) empty_index
        [?A, \<lparr>todo = [], current = Some (member_row 10, [(member_event, Some 3000)])\<rparr>])"
    by (simp add: example_snapshot MAX_SAFE_INTEGER_def)
  from mirror_reachable.steps [OF this example_deliver [of 1 _ "member_row 10" "(member_event, Some 3000)"]]
  have "example_reachable 2 ?s0
     (example_state facts_with [member_row 10] (Some 3000) (Some 1010) ?d
        [?A, \<lparr>todo = [], current = Some (member_row 10, [])\<rparr>])"
    by (simp add: example_index_def)
  from mirror_reachable.steps [OF this example_complete [of 1 _ 10]]
  show ?thesis by simp
qed

text \<open>
  C21: Two drains at a time can lose an update. The first drain is still waiting for D1 when the
  second one mirrors the same row and deletes it; the row of a later write starts at generation 1
  again, and the first drain deletes it as its own. The removed member stays in the index and
  nothing is queued.
\<close>

theorem two_drains_lose_update:
  "\<exists>s. example_reachable 2 (example_state facts_without [] None None empty_index []) s \<and>
     queue (box s) = [] \<and> jobs s = [] \<and> late s = [] \<and>
     map_of (memberships (facts s)) (''w'', ''u'') = None \<and>
     map_of (workspace_members (index s)) (''w'', ''u'') \<noteq> None"
proof -
  let ?s0 = "example_state facts_without [] None None empty_index []"
  let ?A = "\<lparr>todo = [], current = Some (member_row 10, [(member_event, Some 2000)])\<rparr>"
  let ?d = "example_index 3000"
  have late: "applyAdminEvent 0 (member_event, Some 2000) ?d = ?d"
    by (simp add: example_index_def member_event_def empty_index_def guarded_upsert_def
        claimMirrorVersion_def mirrorUpsertGuard_def upsert_row_def update_row_def write_member_def
        MAX_SAFE_INTEGER_def Let_def)
  from mirror_reachable.steps [OF second_drain_completes example_write(2)]
  have "example_reachable 2 ?s0
     (example_state facts_without [member_row 20] (Some 3000) (Some 1010) ?d
        [?A, \<lparr>todo = [], current = None\<rparr>])" .
  from mirror_reachable.steps [OF this example_deliver [of 0 _ "member_row 10" "(member_event, Some 2000)"]]
  have "example_reachable 2 ?s0
     (example_state facts_without [member_row 20] (Some 3000) (Some 1010) ?d
        [\<lparr>todo = [], current = Some (member_row 10, [])\<rparr>, \<lparr>todo = [], current = None\<rparr>])"
    by (simp add: late)
  from mirror_reachable.steps [OF this example_complete [of 0 _ 10]]
  have "example_reachable 2 ?s0
     (example_state facts_without [] (Some 3000) (Some 1010) ?d
        [\<lparr>todo = [], current = None\<rparr>, \<lparr>todo = [], current = None\<rparr>])" by simp
  from mirror_reachable.steps [OF mirror_reachable.steps [OF this example_end] example_end]
  have final: "example_reachable 2 ?s0 (example_state facts_without [] (Some 3000) (Some 1010) ?d [])" .
  have "map_of (workspace_members ?d) (''w'', ''u'') \<noteq> None"
    by (simp add: example_index_def member_event_def empty_index_def guarded_upsert_def
        claimMirrorVersion_def mirrorUpsertGuard_def upsert_row_def write_member_def
        MAX_SAFE_INTEGER_def Let_def)
  then show ?thesis
    by (intro exI [of _ "example_state facts_without [] (Some 3000) (Some 1010) ?d []"] conjI final)
      (simp_all add: example_state_def facts_without_def)
qed

end
