(* ===== verification/SandboxPlacement.thy ===== *)
theory SandboxPlacement
  imports Prelude
begin

section \<open>Placement rotation of the sandbox Durable Objects\<close>

text \<open>
  Model of \<open>src/workers/main/src/sandbox-placement.ts\<close>: the names of a sandbox's generations,
  the relocation error and the stub that follows it, one object's view of its placement (failed
  starts, retirement) and the registry kept by generation 0, which bounds the rotations. The
  transition system \<open>sandbox_step\<close> puts all the generations of one sandbox together.
\<close>

subsection \<open>Names of generations\<close>

definition sandboxGenerationName :: "string \<Rightarrow> nat \<Rightarrow> string" where
  "sandboxGenerationName b g = (if g > 0 then b @ ''-g'' @ show_nat g else b)"

text \<open>
  The pattern \<open>^(.+)-g([1-9]\d{0,5})$\<close>: the digits are the longest suffix of digits (the
  character before them is not one), and \<open>.\<close> matches all but line terminators.
\<close>

definition is_line_end :: "char \<Rightarrow> bool" where
  "is_line_end c \<longleftrightarrow> c = CHR 0x0A \<or> c = CHR 0x0D"

definition digit_suffix :: "string \<Rightarrow> string" where
  "digit_suffix s = rev (takeWhile is_digit (rev s))"

definition parseSandboxGenerationName :: "string \<Rightarrow> string \<times> nat" where
  "parseSandboxGenerationName s =
     (let ds = digit_suffix s;
          pre = take (length s - length ds) s;
          b = take (length pre - 2) pre
      in if ds \<noteq> [] \<and> hd ds \<noteq> CHR ''0'' \<and> length ds \<le> 6 \<and> 2 < length pre \<and>
            drop (length pre - 2) pre = ''-g'' \<and> (\<forall>c \<in> set b. \<not> is_line_end c)
         then (b, parse_nat ds) else (s, 0))"

subsection \<open>The relocation error\<close>

definition relocated_prefix :: string where
  "relocated_prefix = ''SandboxRelocatedError: the sandbox moved to generation ''"

definition relocated_message :: "nat \<Rightarrow> string" where
  "relocated_message g = relocated_prefix @ show_nat g"

text \<open>\<open>generationOf\<close> on an error that crossed an RPC hop: a search in its message.\<close>

fun generationOf :: "string \<Rightarrow> nat option" where
  "generationOf [] = None"
| "generationOf (c # cs) =
     (let ds = takeWhile is_digit (drop (length relocated_prefix) (c # cs))
      in if take (length relocated_prefix) (c # cs) = relocated_prefix \<and> ds \<noteq> []
         then Some (parse_nat ds) else generationOf cs)"

subsection \<open>Following the current generation\<close>

definition MAX_REDIRECTS :: nat where "MAX_REDIRECTS = 4"

text \<open>
  One call through the stub. \<open>send g i\<close> is what the generation \<open>g\<close> answers to the \<open>i\<close>-th sending
  (the message of an error, or a value); the result comes with the generation the stub is at.
\<close>

function follow_call :: "(nat \<Rightarrow> nat \<Rightarrow> (string, 'a) result) \<Rightarrow> nat \<Rightarrow> nat \<Rightarrow> (string, 'a) result \<times> nat" where
  "follow_call send redirects g =
     (case send g redirects of
        Inr v \<Rightarrow> (Inr v, g)
      | Inl message \<Rightarrow>
          (case generationOf message of
             None \<Rightarrow> (Inl message, g)
           | Some next \<Rightarrow>
               if next \<le> g \<or> redirects \<ge> MAX_REDIRECTS then (Inl message, g)
               else follow_call send (redirects + 1) next))"
  by pat_completeness auto
termination
  by (relation "measure (\<lambda>(send, redirects, g). MAX_REDIRECTS - redirects)") auto

declare follow_call.simps [simp del]

text \<open>
  Calls made at the same time share the stub's \<open>generation\<close> and \<open>current\<close>. One event of such a
  run is a call's \<open>catch\<close> block: given the error it got, it throws or sends again.
\<close>

datatype follow_event = Throw string | Send_again nat

definition follow_catch :: "string \<Rightarrow> nat \<Rightarrow> nat \<Rightarrow> follow_event \<times> nat" where
  "follow_catch message redirects g =
     (case generationOf message of
        None \<Rightarrow> (Throw message, g)
      | Some next \<Rightarrow>
          if next \<le> g \<or> redirects \<ge> MAX_REDIRECTS then (Throw message, g)
          else (Send_again next, next))"

subsection \<open>One object's placement\<close>

definition STARTS_TO_ROTATE :: nat where "STARTS_TO_ROTATE = 2"
definition FAILURE_WINDOW_MS :: int where "FAILURE_WINDOW_MS = 10 * 60000"
definition MAX_ROTATIONS :: nat where "MAX_ROTATIONS = 3"
definition ROTATION_WINDOW_MS :: int where "ROTATION_WINDOW_MS = 60 * 60000"

record PlacementRecord =
  record_generation :: nat
  rotatedAt :: "int list"

text \<open>The object's fields and the two keys of its storage.\<close>

record placement =
  base_name :: "string option"
  own_generation :: nat
  stored_record :: "PlacementRecord option"
  cached_record :: "PlacementRecord option"
  stored_failures :: "int list option"
  cached_failures :: "int list option"

record RotationRequest =
  fromGeneration :: nat
  reason :: string
  detail :: "string option"

record RotationResult =
  result_generation :: nat
  rotated :: bool
  limited :: bool

datatype placement_event = Rotated nat nat | Rotation_limited nat nat

definition new_placement :: "string option \<Rightarrow> placement" where
  "new_placement n =
     \<lparr>base_name = map_option (\<lambda>s. fst (parseSandboxGenerationName s)) n,
      own_generation = (case n of None \<Rightarrow> 0 | Some s \<Rightarrow> snd (parseSandboxGenerationName s)),
      stored_record = None, cached_record = None, stored_failures = None, cached_failures = None\<rparr>"

definition readRecord :: "placement \<Rightarrow> PlacementRecord \<times> placement" where
  "readRecord p =
     (case cached_record p of
        Some r \<Rightarrow> (r, p)
      | None \<Rightarrow> let r = or_default \<lparr>record_generation = 0, rotatedAt = []\<rparr> (stored_record p)
                in (r, p\<lparr>cached_record := Some r\<rparr>))"

definition readFailures :: "placement \<Rightarrow> int list \<times> placement" where
  "readFailures p =
     (case cached_failures p of
        Some f \<Rightarrow> (f, p)
      | None \<Rightarrow> let f = or_default [] (stored_failures p) in (f, p\<lparr>cached_failures := Some f\<rparr>))"

definition assertCurrent :: "placement \<Rightarrow> (string, unit) result \<times> placement" where
  "assertCurrent p =
     (case base_name p of
        None \<Rightarrow> (Inr (), p)
      | Some _ \<Rightarrow>
          let (r, p') = readRecord p
          in if record_generation r > own_generation p
             then (Inl (relocated_message (record_generation r)), p') else (Inr (), p'))"

definition noteStartSucceeded :: "bool \<Rightarrow> placement \<Rightarrow> placement" where
  "noteStartSucceeded delete_ok p =
     (case base_name p of
        None \<Rightarrow> p
      | Some _ \<Rightarrow>
          let (f, p') = readFailures p
          in if f = [] then p'
             else if delete_ok then p'\<lparr>cached_failures := Some [], stored_failures := None\<rparr>
             else p'\<lparr>cached_failures := Some []\<rparr>)"

text \<open>\<open>rotate\<close>, the registry's method: also returns the telemetry it records.\<close>

definition rotate_placement ::
  "int \<Rightarrow> RotationRequest \<Rightarrow> placement \<Rightarrow>
   (string, RotationResult \<times> placement_event list) result \<times> placement" where
  "rotate_placement now request p =
     (if base_name p = None \<or> own_generation p \<noteq> 0
      then (Inl ''Only generation 0 of a sandbox keeps its placement'', p)
      else
        let (r, p') = readRecord p in
        if fromGeneration request < record_generation r
        then (Inr (\<lparr>result_generation = record_generation r, rotated = False, limited = False\<rparr>, []), p')
        else
          let recent = filter (\<lambda>at. now - at < ROTATION_WINDOW_MS) (rotatedAt r) in
          if length recent \<ge> MAX_ROTATIONS
          then (Inr (\<lparr>result_generation = record_generation r, rotated = False, limited = True\<rparr>,
                     [Rotation_limited (record_generation r) (length recent)]), p')
          else
            let from = max (record_generation r) (fromGeneration request);
                next = \<lparr>record_generation = from + 1, rotatedAt = recent @ [now]\<rparr>
            in (Inr (\<lparr>result_generation = from + 1, rotated = True, limited = False\<rparr>,
                     [Rotated from (from + 1)]),
                p'\<lparr>stored_record := Some next, cached_record := Some next\<rparr>))"

text \<open>
  The failures kept by \<open>noteStartFailed\<close>: those of the window, this one last, at most two.
\<close>

definition recent_failures :: "int \<Rightarrow> int list \<Rightarrow> int list" where
  "recent_failures now f =
     (let w = filter (\<lambda>at. now - at < FAILURE_WINDOW_MS) (f @ [now])
      in drop (length w - STARTS_TO_ROTATE) w)"

text \<open>First part of \<open>noteStartFailed\<close>: records the failure; the request to send, if any.\<close>

definition record_failure :: "int \<Rightarrow> string \<Rightarrow> placement \<Rightarrow> RotationRequest option \<times> placement" where
  "record_failure now message p =
     (let (f, p') = readFailures p;
          failures = recent_failures now f;
          p'' = p'\<lparr>cached_failures := Some failures, stored_failures := Some failures\<rparr>
      in (if length failures < STARTS_TO_ROTATE then None
          else Some \<lparr>fromGeneration = own_generation p, reason = ''start_failures'', detail = Some message\<rparr>,
          p''))"

text \<open>
  Last part: the registry has answered. The flag tells that \<open>cleanup\<close> (destroy the container)
  is called.
\<close>

definition retire :: "nat \<Rightarrow> placement \<Rightarrow> bool \<times> placement" where
  "retire current_generation p =
     (if current_generation \<le> own_generation p then (False, p)
      else
        let r = \<lparr>record_generation = current_generation, rotatedAt = []\<rparr>;
            p' = (if own_generation p > 0 then p\<lparr>cached_record := Some r, stored_record := Some r\<rparr> else p)
        in (True, p'\<lparr>cached_failures := Some [], stored_failures := None\<rparr>))"

text \<open>\<open>noteStartFailed\<close> of generation 0, which is its own registry.\<close>

definition noteStartFailed_registry ::
  "int \<Rightarrow> string \<Rightarrow> placement \<Rightarrow> placement_event list \<times> placement" where
  "noteStartFailed_registry now message p =
     (if base_name p = None then ([], p)
      else case record_failure now message p of
        (None, p') \<Rightarrow> ([], p')
      | (Some request, p') \<Rightarrow>
          (case rotate_placement now request p' of
             (Inl e, p'') \<Rightarrow> ([], p'')
           | (Inr (res, evs), p'') \<Rightarrow> (evs, snd (retire (result_generation res) p''))))"

text \<open>
  \<open>noteStartFailed\<close> of a later generation: the registry is another object (at its own time).
  \<open>reply_ok\<close> tells that the registry's answer arrives; when it is lost the error is swallowed.
\<close>

definition noteStartFailed ::
  "bool \<Rightarrow> int \<Rightarrow> string \<Rightarrow> placement \<Rightarrow> placement \<Rightarrow>
   placement_event list \<times> placement \<times> placement" where
  "noteStartFailed reply_ok now message p registry =
     (if base_name p = None then ([], p, registry)
      else case record_failure now message p of
        (None, p') \<Rightarrow> ([], p', registry)
      | (Some request, p') \<Rightarrow>
          (case rotate_placement now request registry of
             (Inl e, registry') \<Rightarrow> ([], p', registry')
           | (Inr (res, evs), registry') \<Rightarrow>
               (evs, if reply_ok then snd (retire (result_generation res) p') else p', registry')))"

text \<open>A start's outcome, and \<open>trackStart\<close> for a later generation.\<close>

datatype start_outcome = Started | Start_failed bool string | Other_error string

definition trackStart ::
  "start_outcome \<Rightarrow> bool \<Rightarrow> int \<Rightarrow> placement \<Rightarrow> placement \<Rightarrow>
   (string, unit) result \<times> placement_event list \<times> placement \<times> placement" where
  "trackStart outcome reply_ok now p registry =
     (case outcome of
        Started \<Rightarrow> (Inr (), [], noteStartSucceeded True p, registry)
      | Start_failed permanent message \<Rightarrow>
          (Inl message, if permanent then ([], p, registry)
                        else noteStartFailed reply_ok now message p registry)
      | Other_error message \<Rightarrow> (Inl message, [], p, registry))"

definition trackStart_registry ::
  "start_outcome \<Rightarrow> int \<Rightarrow> placement \<Rightarrow> (string, unit) result \<times> placement_event list \<times> placement" where
  "trackStart_registry outcome now p =
     (case outcome of
        Started \<Rightarrow> (Inr (), [], noteStartSucceeded True p)
      | Start_failed permanent message \<Rightarrow>
          (Inl message, if permanent then ([], p) else noteStartFailed_registry now message p)
      | Other_error message \<Rightarrow> (Inl message, [], p))"

subsection \<open>All the generations of one sandbox\<close>

text \<open>
  The objects of one sandbox: generation 0, which is the registry, and the later generations.
  Storage calls run with the input gate closed, so each handler step is atomic. \<open>rotations\<close> is a
  history variable: the times of all rotations, newest first. A later generation exists once the
  registry has moved to it; names carry at most six digits. \<open>lossless\<close> restricts the steps to
  those in which the registry's answer is not lost.
\<close>

record sandbox =
  registry :: placement
  later :: "nat \<Rightarrow> placement"
  time :: int
  rotations :: "int list"

definition sandbox_init :: "string \<Rightarrow> int \<Rightarrow> sandbox" where
  "sandbox_init b t =
     \<lparr>registry = new_placement (Some (sandboxGenerationName b 0)),
      later = (\<lambda>g. new_placement (Some (sandboxGenerationName b g))), time = t, rotations = []\<rparr>"

definition object_of :: "sandbox \<Rightarrow> nat \<Rightarrow> placement" where
  "object_of s g = (if g = 0 then registry s else later s g)"

fun is_rotation :: "placement_event \<Rightarrow> bool" where
  "is_rotation (Rotated from to) = True"
| "is_rotation (Rotation_limited at n) = False"

definition note_rotation :: "placement_event list \<Rightarrow> sandbox \<Rightarrow> sandbox" where
  "note_rotation evs s =
     s\<lparr>rotations := (if list_ex is_rotation evs then [time s] else []) @ rotations s\<rparr>"

lemma list_ex_is_rotation [simp]: "list_ex is_rotation evs \<longleftrightarrow> (\<exists>f t. Rotated f t \<in> set evs)"
proof -
  have "is_rotation e \<longleftrightarrow> (\<exists>f t. e = Rotated f t)" for e by (cases e) simp_all
  then show ?thesis by (auto simp: list_ex_iff)
qed

definition current_generation :: "sandbox \<Rightarrow> nat" where
  "current_generation s = record_generation (fst (readRecord (registry s)))"

definition restart_placement :: "placement \<Rightarrow> placement" where
  "restart_placement p = p\<lparr>cached_record := None, cached_failures := None\<rparr>"

inductive sandbox_step :: "bool \<Rightarrow> sandbox \<Rightarrow> sandbox \<Rightarrow> bool" for lossless where
  wait: "0 \<le> d \<Longrightarrow> sandbox_step lossless s (s\<lparr>time := time s + d\<rparr>)"
| start_registry: "trackStart_registry outcome (time s) (registry s) = (r, evs, p) \<Longrightarrow>
     sandbox_step lossless s (note_rotation evs (s\<lparr>registry := p\<rparr>))"
| start_later: "0 < g \<Longrightarrow> g \<le> current_generation s \<Longrightarrow> g < 1000000 \<Longrightarrow> lossless \<longrightarrow> reply_ok \<Longrightarrow>
     trackStart outcome reply_ok (time s) (later s g) (registry s) = (r, evs, p, q) \<Longrightarrow>
     sandbox_step lossless s (note_rotation evs (s\<lparr>registry := q, later := (later s)(g := p)\<rparr>))"
| check_registry: "assertCurrent (registry s) = (r, p) \<Longrightarrow>
     sandbox_step lossless s (s\<lparr>registry := p\<rparr>)"
| check_later: "0 < g \<Longrightarrow> assertCurrent (later s g) = (r, p) \<Longrightarrow>
     sandbox_step lossless s (s\<lparr>later := (later s)(g := p)\<rparr>)"
| restart_registry: "sandbox_step lossless s (s\<lparr>registry := restart_placement (registry s)\<rparr>)"
| restart_later: "sandbox_step lossless s (s\<lparr>later := (later s)(g := restart_placement (later s g))\<rparr>)"

inductive sandbox_reachable :: "bool \<Rightarrow> sandbox \<Rightarrow> sandbox \<Rightarrow> bool" for lossless s0 where
  initial: "sandbox_reachable lossless s0 s0"
| further: "sandbox_reachable lossless s0 s \<Longrightarrow> sandbox_step lossless s t \<Longrightarrow>
    sandbox_reachable lossless s0 t"

subsection \<open>Names and errors are read back\<close>

lemma digit_suffix_append:
  "\<forall>c \<in> set ds. is_digit c \<Longrightarrow> \<not> is_digit (last p) \<Longrightarrow> p \<noteq> [] \<Longrightarrow> digit_suffix (p @ ds) = ds"
proof -
  assume a: "\<forall>c \<in> set ds. is_digit c" "\<not> is_digit (last p)" "p \<noteq> []"
  then obtain q c where p: "p = q @ [c]" "\<not> is_digit c" by (cases p rule: rev_cases) auto
  then show "digit_suffix (p @ ds) = ds"
    using a(1) takeWhile_append2 [of "rev ds" is_digit "c # rev q"] by (simp add: digit_suffix_def)
qed

lemma code_not_zero: "c \<noteq> CHR ''0'' \<longleftrightarrow> (of_char c :: nat) \<noteq> 48"
proof -
  have "(of_char c :: nat) = of_char CHR ''0'' \<longleftrightarrow> c = CHR ''0''" by (rule of_char_eq_iff)
  then show ?thesis by simp
qed

lemma show_nat_head: "0 < n \<Longrightarrow> hd (show_nat n) \<noteq> CHR ''0''"
proof (induction n rule: show_nat.induct)
  case (1 n)
  show ?case
  proof (cases "n < 10")
    case True
    then show ?thesis
      using "1.prems" by (simp add: show_nat.simps [of n] code_not_zero of_char_digit_char)
  next
    case False
    then show ?thesis
      using "1.IH" by (subst show_nat.simps) (simp add: hd_append)
  qed
qed

lemma show_nat_length: "n < 10 ^ Suc k \<Longrightarrow> length (show_nat n) \<le> Suc k"
proof (induction k arbitrary: n)
  case 0
  then show ?case by (subst show_nat.simps) simp
next
  case (Suc k)
  then have "n div 10 < 10 ^ Suc k" by (simp add: less_mult_imp_div_less)
  then have "length (show_nat (n div 10)) \<le> Suc k" by (rule Suc.IH)
  then show ?case by (subst show_nat.simps) simp
qed

lemma foldl_digits_ge: "a \<le> foldl (\<lambda>a c. a * 10 + digit_value c) a cs"
proof (induction cs arbitrary: a)
  case (Cons c cs)
  have "a \<le> a * 10 + digit_value c" by simp
  also have "\<dots> \<le> foldl (\<lambda>a c. a * 10 + digit_value c) (a * 10 + digit_value c) cs" by (rule Cons.IH)
  finally show ?case by simp
qed simp

lemma parse_nat_pos:
  assumes "ds \<noteq> []" "is_digit (hd ds)" "hd ds \<noteq> CHR ''0''"
  shows "0 < parse_nat ds"
proof -
  obtain c cs where ds: "ds = c # cs" using assms(1) by (cases ds) auto
  have "(of_char c :: nat) \<noteq> 48" using assms(3) ds by (simp add: code_not_zero)
  then have "0 < digit_value c" using assms(2) by (simp add: ds is_digit_def digit_value_def)
  then show ?thesis using foldl_digits_ge [of "digit_value c" cs] by (simp add: parse_nat_def ds)
qed

lemma digit_suffix_digits: "c \<in> set (digit_suffix s) \<Longrightarrow> is_digit c"
  by (auto simp: digit_suffix_def dest: set_takeWhileD)

lemma parse_generation_zero:
  "snd (parseSandboxGenerationName s) = 0 \<Longrightarrow> parseSandboxGenerationName s = (s, 0)"
  using parse_nat_pos [of "digit_suffix s"] digit_suffix_digits [of "hd (digit_suffix s)" s]
  by (auto simp: parseSandboxGenerationName_def Let_def split: if_splits)

lemma generation_name_lemma:
  assumes "b \<noteq> []" and "\<forall>c \<in> set b. \<not> is_line_end c" and "g < 1000000"
    and "g = 0 \<longrightarrow> snd (parseSandboxGenerationName b) = 0"
  shows "parseSandboxGenerationName (sandboxGenerationName b g) = (b, g)"
proof (cases "g = 0")
  case True
  then show ?thesis
    using assms(4) parse_generation_zero [of b] by (simp add: sandboxGenerationName_def)
next
  case False
  have d: "\<forall>c \<in> set (show_nat g). is_digit c" by (rule show_nat_digits)
  have ds: "digit_suffix (b @ CHR ''-'' # CHR ''g'' # show_nat g) = show_nat g"
    using digit_suffix_append [OF d, of "b @ ''-g''"] by (simp add: is_digit_def)
  have "length (show_nat g) \<le> 6" using show_nat_length [of g 5] assms(3) by simp
  then show ?thesis
    using False assms(1,2) show_nat_head [of g] ds
    by (simp add: sandboxGenerationName_def parseSandboxGenerationName_def parse_show_nat)
qed

text \<open>
  The name of every generation up to a million is read back as its base and generation,
  whatever the base (unless the base itself has a generation's suffix, in generation 0).
\<close>

theorem generation_name_roundtrip:
  assumes "b \<noteq> []" and "\<forall>c \<in> set b. \<not> is_line_end c" and "g < 1000000"
    and "g = 0 \<longrightarrow> snd (parseSandboxGenerationName b) = 0"
  shows "parseSandboxGenerationName (sandboxGenerationName b g) = (b, g)"
  using assms by (rule generation_name_lemma)

lemma generation_name_roundtrip_witness:
  "parseSandboxGenerationName (sandboxGenerationName ''ws:1-g2'' 17) = (''ws:1-g2'', 17)"
  by (rule generation_name_roundtrip) (simp_all add: is_line_end_def)

lemma generationOf_here:
  assumes "t = [] \<or> \<not> is_digit (hd t)"
  shows "generationOf (relocated_prefix @ show_nat g @ t) = Some g"
proof -
  have "takeWhile is_digit (show_nat g @ t) = show_nat g"
    using assms show_nat_digits [of g] by (cases t) (auto simp: takeWhile_append2)
  moreover have "relocated_prefix @ show_nat g @ t \<noteq> []" by (simp add: relocated_prefix_def)
  then obtain c cs where "relocated_prefix @ show_nat g @ t = c # cs" by (meson neq_Nil_conv)
  moreover from this have "take (length relocated_prefix) (c # cs) = relocated_prefix"
    "drop (length relocated_prefix) (c # cs) = show_nat g @ t"
    by (metis append_eq_conv_conj)+
  ultimately show ?thesis by (simp add: parse_show_nat)
qed

lemma generationOf_relocated [simp]: "generationOf (relocated_message g) = Some g"
  using generationOf_here [of "[]" g] by (simp add: relocated_message_def)

text \<open>
  The generation in a relocation error is read back from the message of the plain error an
  RPC hop delivers, whatever that hop puts before it (up to the first occurrence of the text) and
  after it (not a digit).
\<close>

theorem relocation_error_roundtrip:
  assumes "\<forall>k < length p.
      take (length relocated_prefix) (drop k (p @ relocated_message g @ t)) \<noteq> relocated_prefix"
    and "t = [] \<or> \<not> is_digit (hd t)"
  shows "generationOf (p @ relocated_message g @ t) = Some g"
  using assms(1)
proof (induction p)
  case Nil
  then show ?case using generationOf_here [OF assms(2)] by (simp add: relocated_message_def)
next
  case (Cons c p)
  have "generationOf (p @ relocated_message g @ t) = Some g"
    using Cons.prems by (intro Cons.IH) auto
  moreover have "take (length relocated_prefix) (c # p @ relocated_message g @ t) \<noteq> relocated_prefix"
    using Cons.prems by (auto dest: spec [of _ 0])
  ultimately show ?case by simp
qed

lemma relocation_error_roundtrip_witness:
  "generationOf (''Error: '' @ relocated_message 3 @ ''!'') = Some 3"
proof (rule relocation_error_roundtrip)
  show "\<forall>k < length ''Error: ''. take (length relocated_prefix)
      (drop k (''Error: '' @ relocated_message 3 @ ''!'')) \<noteq> relocated_prefix"
    by (auto simp: relocated_prefix_def relocated_message_def less_Suc_eq numeral_nat)
qed (simp add: is_digit_def)

subsection \<open>The invariant of a sandbox\<close>

definition effective_record :: "placement \<Rightarrow> PlacementRecord" where
  "effective_record p =
     (case cached_record p of Some r \<Rightarrow> r
      | None \<Rightarrow> or_default \<lparr>record_generation = 0, rotatedAt = []\<rparr> (stored_record p))"

abbreviation "retired_to p \<equiv> record_generation (effective_record p)"

text \<open>Cache and storage agree.\<close>

definition coherent :: "placement \<Rightarrow> bool" where
  "coherent p \<longleftrightarrow>
     (case cached_record p of None \<Rightarrow> True
      | Some r \<Rightarrow> r = or_default \<lparr>record_generation = 0, rotatedAt = []\<rparr> (stored_record p))"

lemma effective_coherent:
  "coherent p \<Longrightarrow> effective_record p = or_default \<lparr>record_generation = 0, rotatedAt = []\<rparr> (stored_record p)"
  by (auto simp: coherent_def effective_record_def readRecord_def Let_def split: option.splits)

lemma effective_set [simp]:
  "effective_record (p\<lparr>stored_record := x, cached_record := Some r\<rparr>) = r"
  "effective_record (p\<lparr>cached_record := Some r, stored_record := x\<rparr>) = r"
  "effective_record (p\<lparr>cached_failures := f\<rparr>) = effective_record p"
  "effective_record (p\<lparr>stored_failures := f'\<rparr>) = effective_record p"
  by (simp_all add: effective_record_def split: option.split)

lemma coherent_set [simp]:
  "coherent (p\<lparr>stored_record := Some r, cached_record := Some r\<rparr>)"
  "coherent (p\<lparr>cached_record := Some r, stored_record := Some r\<rparr>)"
  "coherent (p\<lparr>cached_failures := f\<rparr>) = coherent p"
  "coherent (p\<lparr>stored_failures := f'\<rparr>) = coherent p"
  by (simp_all add: coherent_def split: option.split)

text \<open>What an operation that does not move the sandbox keeps.\<close>

definition same_placement :: "placement \<Rightarrow> placement \<Rightarrow> bool" where
  "same_placement p q \<longleftrightarrow>
     base_name q = base_name p \<and> own_generation q = own_generation p \<and>
     effective_record q = effective_record p \<and> stored_record q = stored_record p \<and>
     (coherent p \<longrightarrow> coherent q)"

lemma same_refl [simp]: "same_placement p p"
  by (simp add: same_placement_def)

lemma same_trans: "same_placement p q \<Longrightarrow> same_placement q r \<Longrightarrow> same_placement p r"
  by (simp add: same_placement_def)

lemma same_readRecord: "same_placement p (snd (readRecord p))" "fst (readRecord p) = effective_record p"
  by (auto simp: same_placement_def effective_record_def readRecord_def coherent_def Let_def
      split: option.splits)

lemma same_failures [simp]:
  "same_placement p (q\<lparr>cached_failures := f\<rparr>) \<longleftrightarrow> same_placement p q"
  "same_placement p (q\<lparr>stored_failures := f\<rparr>) \<longleftrightarrow> same_placement p q"
  by (auto simp: same_placement_def)

lemma same_readFailures: "same_placement p (snd (readFailures p))"
  by (auto simp: readFailures_def Let_def split: option.splits)

lemma same_assertCurrent: "same_placement p (snd (assertCurrent p))"
  using same_readRecord(1) [of p]
  by (auto simp: assertCurrent_def Let_def split: option.splits prod.splits)

lemma assertCurrent_result:
  "base_name p \<noteq> None \<Longrightarrow>
   fst (assertCurrent p) =
     (if retired_to p > own_generation p then Inl (relocated_message (retired_to p)) else Inr ())"
  using same_readRecord(2) [of p]
  by (auto simp: assertCurrent_def Let_def split: option.splits prod.splits)

lemma same_noteStartSucceeded: "same_placement p (noteStartSucceeded ok p)"
  using same_readFailures [of p]
  by (auto simp: noteStartSucceeded_def Let_def split: option.splits prod.splits)

lemma same_record_failure: "same_placement p (snd (record_failure now m p))"
  using same_readFailures [of p] by (auto simp: record_failure_def Let_def split: prod.splits)

lemma record_failure_request:
  "record_failure now m p = (Some req, p') \<Longrightarrow> fromGeneration req = own_generation p"
  by (auto simp: record_failure_def Let_def split: prod.splits if_splits)

text \<open>The three answers of the registry.\<close>

definition recent_rotations :: "int \<Rightarrow> placement \<Rightarrow> int list" where
  "recent_rotations now p =
     filter (\<lambda>at. now - at < ROTATION_WINDOW_MS) (rotatedAt (effective_record p))"

definition moved :: "int \<Rightarrow> placement \<Rightarrow> placement \<Rightarrow> bool" where
  "moved now p q \<longleftrightarrow>
     base_name q = base_name p \<and> own_generation q = own_generation p \<and> coherent q \<and>
     length (recent_rotations now p) < MAX_ROTATIONS \<and>
     effective_record q =
       \<lparr>record_generation = retired_to p + 1, rotatedAt = recent_rotations now p @ [now]\<rparr>"

lemma rotate_cases:
  assumes "base_name p \<noteq> None" "own_generation p = 0" "fromGeneration req \<le> retired_to p"
    and "rotate_placement now req p = (res, q)"
  obtains (stay) r evs where "res = Inr (r, evs)" "same_placement p q" "result_generation r = retired_to p"
      "\<forall>f t. Rotated f t \<notin> set evs" "fromGeneration req < retired_to p \<or> limited r"
  | (move) r where "res = Inr (r, [Rotated (retired_to p) (retired_to p + 1)])" "moved now p q"
      "result_generation r = retired_to p + 1"
proof -
  obtain rec p' where rr: "readRecord p = (rec, p')" by (cases "readRecord p")
  have rec: "rec = effective_record p" and same: "same_placement p p'"
    using same_readRecord [of p] rr by simp_all
  consider "fromGeneration req < retired_to p"
    | "\<not> fromGeneration req < retired_to p" "MAX_ROTATIONS \<le> length (recent_rotations now p)"
    | "\<not> fromGeneration req < retired_to p" "length (recent_rotations now p) < MAX_ROTATIONS" by linarith
  then show thesis
  proof cases
    case 1
    then show thesis using assms same by (intro stay) (auto simp: rotate_placement_def rr rec)
  next
    case 2
    then show thesis using assms same
      by (intro stay) (auto simp: rotate_placement_def rr rec recent_rotations_def Let_def)
  next
    case 3
    then have "fromGeneration req = retired_to p" using assms(3) by simp
    then show thesis using 3 assms same
      by (intro move) (auto simp: rotate_placement_def rr rec recent_rotations_def Let_def moved_def
          same_placement_def)
  qed
qed

lemma retire_cases:
  "retire n p = (c, q) \<Longrightarrow>
   same_placement p q \<and> (n \<le> own_generation p \<or> own_generation p = 0) \<or>
   0 < own_generation p \<and> own_generation p < n \<and> base_name q = base_name p \<and>
   own_generation q = own_generation p \<and> coherent q \<and> retired_to q = n"
  by (auto simp: retire_def Let_def same_placement_def split: if_splits)


definition registry_ok :: "placement \<Rightarrow> bool" where
  "registry_ok p \<longleftrightarrow> base_name p \<noteq> None \<and> own_generation p = 0 \<and> coherent p"

text \<open>What a start does to the registry: nothing, or one rotation.\<close>

definition registry_effect :: "int \<Rightarrow> placement \<Rightarrow> placement \<Rightarrow> placement_event list \<Rightarrow> bool" where
  "registry_effect now p q evs \<longleftrightarrow>
     same_placement p q \<and> (\<forall>f t. Rotated f t \<notin> set evs) \<or>
     moved now p q \<and> evs = [Rotated (retired_to p) (retired_to p + 1)]"

lemma registry_ok_same: "registry_ok p \<Longrightarrow> same_placement p q \<Longrightarrow> registry_ok q"
  by (simp add: registry_ok_def same_placement_def)

lemma moved_same: "same_placement p p' \<Longrightarrow> moved now p' q \<Longrightarrow> moved now p q"
  by (simp add: moved_def same_placement_def recent_rotations_def)

lemma moved_then_same: "moved now p q \<Longrightarrow> same_placement q q' \<Longrightarrow> moved now p q'"
  by (simp add: moved_def same_placement_def)

lemma registry_effect_same:
  "same_placement p p' \<Longrightarrow> registry_effect now p' q evs \<Longrightarrow> registry_effect now p q evs"
  unfolding registry_effect_def
  by (metis same_trans moved_same same_placement_def)

lemma same_not_moved: "same_placement p q \<Longrightarrow> \<not> moved now p q"
proof
  assume "same_placement p q" "moved now p q"
  then have "effective_record p =
      \<lparr>record_generation = retired_to p + 1, rotatedAt = recent_rotations now p @ [now]\<rparr>"
    by (simp add: same_placement_def moved_def)
  from arg_cong [OF this, of record_generation] show False by simp
qed

lemma rotate_effect:
  assumes "registry_ok p" "fromGeneration req \<le> retired_to p"
    and "rotate_placement now req p = (res, q)"
  obtains r evs where "res = Inr (r, evs)" "registry_effect now p q evs"
    "result_generation r = retired_to q"
    "moved now p q \<longrightarrow> fromGeneration req = retired_to p"
proof (rule rotate_cases [OF _ _ assms(2,3)])
  show "base_name p \<noteq> None" "own_generation p = 0" using assms(1) by (simp_all add: registry_ok_def)
next
  fix r evs
  assume *: "res = Inr (r, evs)" "same_placement p q" "result_generation r = retired_to p"
    "\<forall>f t. Rotated f t \<notin> set evs" "fromGeneration req < retired_to p \<or> limited r"
  then have "\<not> moved now p q" by (simp add: same_not_moved)
  then show thesis using * that by (simp add: registry_effect_def same_placement_def)
next
  fix r
  assume *: "res = Inr (r, [Rotated (retired_to p) (retired_to p + 1)])" "moved now p q"
    "result_generation r = retired_to p + 1"
  have "fromGeneration req = retired_to p"
  proof (rule ccontr)
    assume "fromGeneration req \<noteq> retired_to p"
    then have "fromGeneration req < retired_to p" using assms(2) by simp
    then show False
      using assms(1,3) * same_readRecord(2) [of p]
      by (auto simp: rotate_placement_def registry_ok_def Let_def split: prod.splits)
  qed
  then show thesis using * that by (simp add: registry_effect_def moved_def)
qed

lemma registry_start_effect:
  assumes "registry_ok p" "trackStart_registry outcome now p = (r, evs, q)"
  shows "registry_effect now p q evs \<and> (moved now p q \<longrightarrow> retired_to p = 0)"
proof -
  have stay: "registry_effect now p q [] \<and> (moved now p q \<longrightarrow> retired_to p = 0)" if "same_placement p q"
    using that by (simp add: registry_effect_def same_not_moved)
  consider (same) "same_placement p q" "evs = []"
    | (failed) message where "noteStartFailed_registry now message p = (evs, q)"
    using assms(2) same_noteStartSucceeded [of p True]
    by (auto simp: trackStart_registry_def split: start_outcome.splits if_splits)
  then show ?thesis
  proof cases
    case same
    then show ?thesis using stay by simp
  next
    case failed
    obtain req p' where f: "record_failure now message p = (req, p')" by (cases "record_failure now message p")
    have p': "same_placement p p'" "registry_ok p'"
      using same_record_failure [of p now message] f registry_ok_same [OF assms(1)] by auto
    show ?thesis
    proof (cases req)
      case None
      then have "evs = [] \<and> q = p'"
        using failed f assms(1) by (auto simp: noteStartFailed_registry_def registry_ok_def)
      then show ?thesis using p' stay by simp
    next
      case (Some rq)
      have from0: "fromGeneration rq = 0"
        using record_failure_request f Some assms(1) by (simp add: registry_ok_def)
      obtain res p'' where rot: "rotate_placement now rq p' = (res, p'')"
        by (cases "rotate_placement now rq p'")
      have le: "fromGeneration rq \<le> retired_to p'" using from0 by simp
      from rotate_effect [OF p'(2) le rot]
      obtain rr es where r: "res = Inr (rr, es)" "registry_effect now p' p'' es"
        "moved now p' p'' \<longrightarrow> fromGeneration rq = retired_to p'"
        by blast
      have own: "own_generation p'' = 0"
        using r(2) p'(2) by (auto simp: registry_effect_def registry_ok_def same_placement_def moved_def)
      have q: "evs = es" "same_placement p'' q"
        using failed f Some rot r(1) assms(1) own retire_cases [of "result_generation rr" p'']
        by (auto simp: noteStartFailed_registry_def registry_ok_def)
          (metis prod.collapse less_irrefl)
      from r(2) [unfolded registry_effect_def] show ?thesis
      proof
        assume *: "same_placement p' p'' \<and> (\<forall>f t. Rotated f t \<notin> set es)"
        then have "same_placement p q" using p'(1) q(2) same_trans by blast
        then show ?thesis using * q(1) by (simp add: registry_effect_def same_not_moved)
      next
        assume *: "moved now p' p'' \<and> es = [Rotated (retired_to p') (retired_to p' + 1)]"
        then have "moved now p q" using p'(1) q(2) moved_same moved_then_same by blast
        moreover have "retired_to p' = retired_to p" using p'(1) by (simp add: same_placement_def)
        ultimately show ?thesis using * q(1) r(3) from0 by (simp add: registry_effect_def)
      qed
    qed
  qed
qed

text \<open>What a start does to a later generation and to the registry.\<close>

lemma later_start_effect:
  assumes reg: "registry_ok p" and later: "base_name x \<noteq> None" "0 < own_generation x"
      "own_generation x \<le> retired_to p" "coherent x"
    and start: "trackStart outcome reply_ok now x p = (r, evs, y, q)"
  shows "registry_effect now p q evs \<and> (moved now p q \<longrightarrow> own_generation x = retired_to p) \<and>
    (same_placement x y \<and> (moved now p q \<longrightarrow> \<not> reply_ok) \<or>
     base_name y = base_name x \<and> own_generation y = own_generation x \<and> coherent y \<and>
     retired_to y = retired_to q \<and> own_generation x < retired_to q)"
proof -
  have stay: ?thesis if "same_placement p q" "same_placement x y" "evs = []"
    using that by (simp add: registry_effect_def same_not_moved)
  consider (same) "same_placement x y" "q = p" "evs = []"
    | (failed) message where "noteStartFailed reply_ok now message x p = (evs, y, q)"
    using start same_noteStartSucceeded [of x True]
    by (auto simp: trackStart_def split: start_outcome.splits if_splits)
  then show ?thesis
  proof cases
    case same
    show ?thesis by (rule stay) (simp_all add: same)
  next
    case failed
    obtain req x' where f: "record_failure now message x = (req, x')" by (cases "record_failure now message x")
    have x': "same_placement x x'" using same_record_failure [of x now message] f by simp
    show ?thesis
    proof (cases req)
      case None
      then have "evs = [] \<and> y = x' \<and> q = p" using failed f later(1) by (auto simp: noteStartFailed_def)
      then show ?thesis using x' by (intro stay) simp_all
    next
      case (Some rq)
      have g: "fromGeneration rq = own_generation x" using record_failure_request f Some by simp
      obtain res p'' where rot: "rotate_placement now rq p = (res, p'')"
        by (cases "rotate_placement now rq p")
      have le: "fromGeneration rq \<le> retired_to p" using g later(3) by simp
      from rotate_effect [OF reg le rot]
      obtain rr es where r: "res = Inr (rr, es)" "registry_effect now p p'' es"
        "result_generation rr = retired_to p''" "moved now p p'' \<longrightarrow> fromGeneration rq = retired_to p"
        by blast
      have out: "evs = es" "q = p''" "y = (if reply_ok then snd (retire (result_generation rr) x') else x')"
        using failed f Some rot r(1) later(1) by (auto simp: noteStartFailed_def)
      have own: "own_generation x' = own_generation x" "base_name x' = base_name x"
        using x' by (simp_all add: same_placement_def)
      have mv: "retired_to p < retired_to p''" if "moved now p p''" using that by (simp add: moved_def)
      show ?thesis
      proof (cases reply_ok)
        case False
        then show ?thesis using r out g x' by simp
      next
        case True
        then obtain c where "retire (result_generation rr) x' = (c, y)"
          using out(3) by (cases "retire (result_generation rr) x'") simp
        from retire_cases [OF this] show ?thesis
          using r out g x' own later mv same_trans [of x x' y] by auto
      qed
    qed
  qed
qed

subsection \<open>Rotations are spaced\<close>

text \<open>Newest first: at every rotation, fewer than the maximum fell in the window before it.\<close>

fun well_spaced :: "int list \<Rightarrow> bool" where
  "well_spaced [] = True"
| "well_spaced (x # xs) =
     ((\<forall>y \<in> set xs. y \<le> x) \<and>
      length (filter (\<lambda>at. x - at < ROTATION_WINDOW_MS) xs) < MAX_ROTATIONS \<and> well_spaced xs)"

lemma length_filter_mono:
  "(\<And>x. x \<in> set xs \<Longrightarrow> P x \<Longrightarrow> Q x) \<Longrightarrow> length (filter P xs) \<le> length (filter Q xs)"
  by (induction xs) auto

lemma well_spaced_window:
  "well_spaced xs \<Longrightarrow>
   length (filter (\<lambda>at. t - ROTATION_WINDOW_MS < at \<and> at \<le> t) xs) \<le> MAX_ROTATIONS"
proof (induction xs)
  case Nil
  then show ?case by simp
next
  case (Cons x xs)
  show ?case
  proof (cases "t - ROTATION_WINDOW_MS < x \<and> x \<le> t")
    case True
    have "length (filter (\<lambda>at. t - ROTATION_WINDOW_MS < at \<and> at \<le> t) xs) \<le>
        length (filter (\<lambda>at. x - at < ROTATION_WINDOW_MS) xs)"
      using True by (intro length_filter_mono) auto
    then show ?thesis using Cons.prems True by simp
  next
    case False
    then show ?thesis using Cons by auto
  qed
qed

definition spaced :: "int \<Rightarrow> placement \<Rightarrow> int list \<Rightarrow> bool" where
  "spaced t p rots \<longleftrightarrow>
     well_spaced rots \<and> (\<forall>at \<in> set rots. at \<le> t) \<and>
     (\<forall>now \<ge> t. recent_rotations now p = rev (filter (\<lambda>at. now - at < ROTATION_WINDOW_MS) rots))"

lemma spaced_later: "spaced t p rots \<Longrightarrow> t \<le> t' \<Longrightarrow> spaced t' p rots"
  by (auto simp: spaced_def)

lemma spaced_same: "same_placement p q \<Longrightarrow> spaced t p rots \<Longrightarrow> spaced t q rots"
  by (simp add: spaced_def same_placement_def recent_rotations_def)

lemma spaced_moved:
  assumes "moved t p q" "spaced t p rots"
  shows "spaced t q (t # rots)"
proof -
  have r: "recent_rotations t p = rev (filter (\<lambda>at. t - at < ROTATION_WINDOW_MS) rots)"
    using assms(2) by (simp add: spaced_def)
  have w: "(0::int) < ROTATION_WINDOW_MS" by (simp add: ROTATION_WINDOW_MS_def)
  have "recent_rotations now q = rev (filter (\<lambda>at. now - at < ROTATION_WINDOW_MS) (t # rots))"
    if "t \<le> now" for now
  proof -
    have "recent_rotations now q = filter (\<lambda>at. now - at < ROTATION_WINDOW_MS) (recent_rotations t p @ [t])"
      using assms(1) by (simp add: recent_rotations_def [of now] moved_def)
    also have "filter (\<lambda>at. now - at < ROTATION_WINDOW_MS) (recent_rotations t p) =
        rev (filter (\<lambda>at. now - at < ROTATION_WINDOW_MS) rots)"
      using that by (auto simp: r rev_filter [symmetric] intro!: filter_cong arg_cong [of _ _ rev])
    ultimately show ?thesis by simp
  qed
  then show ?thesis
    using assms r w by (auto simp: spaced_def moved_def)
qed

subsection \<open>Reachable sandboxes\<close>

definition later_ok :: "bool \<Rightarrow> nat \<Rightarrow> nat \<Rightarrow> placement \<Rightarrow> bool" where
  "later_ok lossless cur g p \<longleftrightarrow>
     base_name p \<noteq> None \<and> own_generation p = g \<and> coherent p \<and>
     (retired_to p = 0 \<or> g < retired_to p \<and> retired_to p \<le> cur) \<and>
     (lossless \<and> g < cur \<longrightarrow> g < retired_to p)"

definition sandbox_sound :: "bool \<Rightarrow> sandbox \<Rightarrow> bool" where
  "sandbox_sound lossless s \<longleftrightarrow>
     registry_ok (registry s) \<and>
     (\<forall>g. 0 < g \<and> g < 1000000 \<longrightarrow> later_ok lossless (retired_to (registry s)) g (later s g)) \<and>
     spaced (time s) (registry s) (rotations s)"

lemma later_ok_same: "later_ok lossless cur g p \<Longrightarrow> same_placement p q \<Longrightarrow> later_ok lossless cur g q"
  by (auto simp: later_ok_def same_placement_def)

lemma later_ok_grow:
  "later_ok lossless cur g p \<Longrightarrow> cur \<le> cur' \<Longrightarrow> (lossless \<Longrightarrow> g < cur' \<Longrightarrow> g < cur) \<Longrightarrow>
   later_ok lossless cur' g p"
  by (auto simp: later_ok_def)

lemma current_generation_retired: "current_generation s = retired_to (registry s)"
  by (simp add: current_generation_def same_readRecord)

text \<open>How a registry effect carries the invariant over, given what the later objects do.\<close>

lemma sound_effect:
  assumes "sandbox_sound lossless s" "registry_effect (time s) (registry s) q evs"
    and "\<And>g. 0 < g \<Longrightarrow> g < 1000000 \<Longrightarrow> later_ok lossless (retired_to q) g (l g)"
  shows "sandbox_sound lossless (note_rotation evs (s\<lparr>registry := q, later := l\<rparr>))"
proof -
  have ok: "registry_ok (registry s)" "spaced (time s) (registry s) (rotations s)"
    using assms(1) by (simp_all add: sandbox_sound_def)
  from assms(2) [unfolded registry_effect_def] show ?thesis
  proof
    assume "same_placement (registry s) q \<and> (\<forall>f t. Rotated f t \<notin> set evs)"
    then show ?thesis
      using ok assms(3) registry_ok_same spaced_same
      by (auto simp: sandbox_sound_def note_rotation_def)
  next
    assume *: "moved (time s) (registry s) q \<and> evs = [Rotated (retired_to (registry s)) (retired_to (registry s) + 1)]"
    then have "registry_ok q" using ok(1) by (auto simp: moved_def registry_ok_def)
    then show ?thesis
      using * ok assms(3) spaced_moved by (auto simp: sandbox_sound_def note_rotation_def)
  qed
qed

lemma effect_grows:
  "registry_effect now p q evs \<Longrightarrow>
   retired_to p \<le> retired_to q \<and> (moved now p q \<and> retired_to q = retired_to p + 1 \<or> retired_to q = retired_to p)"
  by (auto simp: registry_effect_def moved_def same_placement_def)

lemma same_restart: "coherent p \<Longrightarrow> same_placement p (restart_placement p)"
  by (auto simp: same_placement_def restart_placement_def coherent_def effective_record_def
      split: option.splits)

lemma sound_later_same:
  "sandbox_sound lossless s \<Longrightarrow> same_placement (later s g) p \<Longrightarrow>
   sandbox_sound lossless (s\<lparr>later := (later s)(g := p)\<rparr>)"
  using later_ok_same by (auto simp: sandbox_sound_def)

lemma sound_registry_same:
  assumes "sandbox_sound lossless s" "same_placement (registry s) p"
  shows "sandbox_sound lossless (s\<lparr>registry := p\<rparr>)"
proof -
  have old: "registry_ok (registry s)" "spaced (time s) (registry s) (rotations s)"
    using assms(1) by (simp_all add: sandbox_sound_def)
  have "registry_ok p" using old(1) assms(2) by (rule registry_ok_same)
  moreover have "spaced (time s) p (rotations s)" using assms(2) old(2) by (rule spaced_same)
  moreover have "effective_record p = effective_record (registry s)"
    using assms(2) by (simp add: same_placement_def)
  ultimately show ?thesis using assms(1) by (simp add: sandbox_sound_def)
qed

lemma sound_start_registry:
  assumes s: "sandbox_sound lossless s"
    and start: "trackStart_registry outcome (time s) (registry s) = (r, evs, p)"
  shows "sandbox_sound lossless (note_rotation evs (s\<lparr>registry := p\<rparr>))"
proof -
  have e: "registry_effect (time s) (registry s) p evs"
    "moved (time s) (registry s) p \<longrightarrow> retired_to (registry s) = 0"
    using registry_start_effect [OF _ start] s by (simp_all add: sandbox_sound_def)
  have "later_ok lossless (retired_to p) g (later s g)" if g: "0 < g" "g < 1000000" for g
  proof (rule later_ok_grow)
    show "later_ok lossless (retired_to (registry s)) g (later s g)" using s g by (simp add: sandbox_sound_def)
    show "retired_to (registry s) \<le> retired_to p" using effect_grows [OF e(1)] by simp
    show "g < retired_to p \<Longrightarrow> g < retired_to (registry s)" using effect_grows [OF e(1)] e(2) g by auto
  qed
  then have "sandbox_sound lossless (note_rotation evs (s\<lparr>registry := p, later := later s\<rparr>))"
    by (intro sound_effect [OF s e(1)])
  then show ?thesis by simp
qed

lemma sound_start_later:
  assumes s: "sandbox_sound lossless s" and g: "0 < g" "g \<le> current_generation s" "g < 1000000"
    and reply: "lossless \<longrightarrow> reply_ok"
    and start: "trackStart outcome reply_ok (time s) (later s g) (registry s) = (r, evs, p, q)"
  shows "sandbox_sound lossless (note_rotation evs (s\<lparr>registry := q, later := (later s)(g := p)\<rparr>))"
proof (rule sound_effect [OF s])
  have ok: "later_ok lossless (retired_to (registry s)) h (later s h)" if "0 < h" "h < 1000000" for h
    using s that by (simp add: sandbox_sound_def)
  have x: "base_name (later s g) \<noteq> None" "own_generation (later s g) = g" "coherent (later s g)"
    using ok [OF g(1,3)] by (simp_all add: later_ok_def)
  have reg: "registry_ok (registry s)" using s by (simp add: sandbox_sound_def)
  have e: "registry_effect (time s) (registry s) q evs"
    "moved (time s) (registry s) q \<longrightarrow> g = retired_to (registry s)"
    "same_placement (later s g) p \<and> (moved (time s) (registry s) q \<longrightarrow> \<not> reply_ok) \<or>
     base_name p = base_name (later s g) \<and> own_generation p = g \<and> coherent p \<and>
     retired_to p = retired_to q \<and> g < retired_to q"
    using later_start_effect [OF reg x(1) _ _ x(3) start] g x
    by (simp_all add: current_generation_retired)
  note grow = effect_grows [OF e(1)]
  show "registry_effect (time s) (registry s) q evs" by (rule e(1))
  fix h :: nat assume h: "0 < h" "h < 1000000"
  show "later_ok lossless (retired_to q) h (((later s)(g := p)) h)"
  proof (cases "h = g")
    case False
    then have "later_ok lossless (retired_to q) h (later s h)"
      using grow e(2) by (intro later_ok_grow [OF ok [OF h]]) auto
    then show ?thesis using False by simp
  next
    case True
    from e(3) have "later_ok lossless (retired_to q) g p"
    proof
      assume *: "same_placement (later s g) p \<and> (moved (time s) (registry s) q \<longrightarrow> \<not> reply_ok)"
      have "later_ok lossless (retired_to q) g (later s g)"
        using grow * reply by (intro later_ok_grow [OF ok [OF g(1,3)]]) auto
      then show ?thesis using * later_ok_same by blast
    next
      assume "base_name p = base_name (later s g) \<and> own_generation p = g \<and> coherent p \<and>
        retired_to p = retired_to q \<and> g < retired_to q"
      then show ?thesis using x(1) by (simp add: later_ok_def)
    qed
    then show ?thesis using True by simp
  qed
qed

lemma sandbox_sound_step:
  "sandbox_step lossless s t \<Longrightarrow> sandbox_sound lossless s \<Longrightarrow> sandbox_sound lossless t"
proof (induction rule: sandbox_step.induct)
  case (wait d s)
  then show ?case using spaced_later by (auto simp: sandbox_sound_def)
next
  case (start_registry outcome s r evs p)
  then show ?case by (intro sound_start_registry)
next
  case (start_later g s reply_ok outcome r evs p q)
  then show ?case by (intro sound_start_later)
next
  case (check_registry s r p)
  then show ?case using sound_registry_same same_assertCurrent [of "registry s"] by simp
next
  case (check_later g s r p)
  then show ?case using sound_later_same same_assertCurrent [of "later s g"] by simp
next
  case (restart_registry s)
  then have "coherent (registry s)" by (simp add: sandbox_sound_def registry_ok_def)
  then show ?case using restart_registry sound_registry_same same_restart by blast
next
  case (restart_later s g)
  show ?case
  proof (cases "0 < g \<and> g < 1000000")
    case True
    then have "coherent (later s g)" using restart_later by (simp add: sandbox_sound_def later_ok_def)
    then show ?thesis using sound_later_same restart_later same_restart by blast
  next
    case False
    then show ?thesis using restart_later by (auto simp: sandbox_sound_def)
  qed
qed

lemma new_placement_simps [simp]:
  "effective_record (new_placement n) = \<lparr>record_generation = 0, rotatedAt = []\<rparr>"
  "coherent (new_placement n)"
  by (simp_all add: new_placement_def effective_record_def coherent_def)

definition proper_base :: "string \<Rightarrow> bool" where
  "proper_base b \<longleftrightarrow>
     b \<noteq> [] \<and> (\<forall>c \<in> set b. \<not> is_line_end c) \<and> snd (parseSandboxGenerationName b) = 0"

lemma new_placement_named:
  assumes "proper_base b" "g < 1000000"
  shows "base_name (new_placement (Some (sandboxGenerationName b g))) = Some b"
    and "own_generation (new_placement (Some (sandboxGenerationName b g))) = g"
  using generation_name_lemma [OF _ _ assms(2), of b] assms(1)
  by (simp_all add: proper_base_def new_placement_def)

lemma sandbox_sound_init: "proper_base b \<Longrightarrow> sandbox_sound lossless (sandbox_init b t)"
  using new_placement_named [of b]
  by (auto simp: sandbox_sound_def later_ok_def sandbox_init_def registry_ok_def spaced_def
      recent_rotations_def)

lemma sandbox_sound_reachable:
  "sandbox_reachable lossless s0 s \<Longrightarrow> sandbox_sound lossless s0 \<Longrightarrow> sandbox_sound lossless s"
  by (induction rule: sandbox_reachable.induct) (auto intro: sandbox_sound_step)

subsection \<open>Properties of a sandbox\<close>

text \<open>
  Whatever fails, is retried or restarts: within any hour a sandbox rotates at most three
  times.
\<close>

theorem rotations_bounded:
  assumes "proper_base b" "sandbox_reachable lossless (sandbox_init b t0) s"
  shows "length (filter (\<lambda>at. t - ROTATION_WINDOW_MS < at \<and> at \<le> t) (rotations s)) \<le> MAX_ROTATIONS"
proof -
  have "sandbox_sound lossless s"
    using sandbox_sound_reachable [OF assms(2) sandbox_sound_init [OF assms(1)]] .
  then show ?thesis by (intro well_spaced_window) (simp add: sandbox_sound_def spaced_def)
qed


text \<open>What a generation answers to a call: it refuses when it is retired, else it serves it.\<close>

definition answer :: "sandbox \<Rightarrow> (nat \<Rightarrow> (string, 'a) result) \<Rightarrow> nat \<Rightarrow> nat \<Rightarrow> (string, 'a) result" where
  "answer s serve g i =
     (case fst (assertCurrent (object_of s g)) of Inl m \<Rightarrow> Inl m | Inr _ \<Rightarrow> serve g)"

text \<open>
  In every reachable sandbox a call sent through a fresh stub is served once, by the current
  generation, and its result (value or error of its own) is returned, even after the registry's
  answers were lost.
\<close>

theorem follow_reaches_current:
  assumes "proper_base b" "sandbox_reachable lossless (sandbox_init b t0) s"
    and "current_generation s < 1000000"
    and "\<And>g m. serve g = Inl m \<Longrightarrow> generationOf m = None"
  shows "follow_call (answer s serve) 0 0 = (serve (current_generation s), current_generation s)"
proof -
  have s: "sandbox_sound lossless s"
    using sandbox_sound_reachable [OF assms(2) sandbox_sound_init [OF assms(1)]] .
  have zero: "fst (assertCurrent (object_of s 0)) =
      (if current_generation s > 0 then Inl (relocated_message (current_generation s)) else Inr ())"
    using s by (auto simp: sandbox_sound_def registry_ok_def object_of_def assertCurrent_result
        current_generation_retired)
  have live: "answer s serve (current_generation s) i = serve (current_generation s)" for i
  proof (cases "current_generation s = 0")
    case True
    then show ?thesis using zero by (simp add: answer_def)
  next
    case False
    let ?g = "retired_to (registry s)"
    have g: "0 < ?g" "?g < 1000000" using False assms(3) by (simp_all add: current_generation_retired)
    then have "base_name (later s ?g) \<noteq> None" "own_generation (later s ?g) = ?g"
      "retired_to (later s ?g) = 0 \<or> ?g < retired_to (later s ?g) \<and> retired_to (later s ?g) \<le> ?g"
      using s by (simp_all add: sandbox_sound_def later_ok_def)
    then have "fst (assertCurrent (object_of s ?g)) = Inr ()"
      using g by (auto simp: object_of_def assertCurrent_result)
    then show ?thesis by (simp add: answer_def current_generation_retired)
  qed
  have stop: "follow_call (answer s serve) i (current_generation s) =
      (serve (current_generation s), current_generation s)" for i
    using assms(4) [of "current_generation s"]
    by (subst follow_call.simps) (auto simp: live split: sum.split)
  show ?thesis
  proof (cases "current_generation s = 0")
    case True
    then show ?thesis using stop [of 0] by simp
  next
    case False
    then have "answer s serve 0 0 = Inl (relocated_message (current_generation s))"
      by (simp add: answer_def zero)
    then show ?thesis
      using False stop [of 1] by (subst follow_call.simps) (simp add: MAX_REDIRECTS_def)
  qed
qed

text \<open>A run: the first generation fails two starts and the registry moves the sandbox.\<close>

definition fail_first :: "sandbox \<Rightarrow> sandbox" where
  "fail_first s =
     (let (r, evs, p) = trackStart_registry (Start_failed False ''unavailable'') (time s) (registry s)
      in note_rotation evs (s\<lparr>registry := p\<rparr>))"

definition example_sandbox :: sandbox where
  "example_sandbox = fail_first (fail_first (sandbox_init ''ws'' 0))"

lemma example_sandbox_reachable: "sandbox_reachable lossless (sandbox_init ''ws'' 0) example_sandbox"
proof -
  have step: "sandbox_step lossless s (fail_first s)" for s
    by (cases "trackStart_registry (Start_failed False ''unavailable'') (time s) (registry s)")
      (auto simp: fail_first_def intro: sandbox_step.start_registry)
  show ?thesis
    unfolding example_sandbox_def
    by (rule sandbox_reachable.further [OF sandbox_reachable.further [OF sandbox_reachable.initial step] step])
qed

lemma example_sandbox_facts:
  "current_generation example_sandbox = 1" "rotations example_sandbox = [0]" "proper_base ''ws''"
  by code_simp+

lemma rotations_bounded_witness:
  "length (filter (\<lambda>at. 10 - ROTATION_WINDOW_MS < at \<and> at \<le> 10) (rotations example_sandbox)) \<le> MAX_ROTATIONS \<and>
   rotations example_sandbox = [0]"
  using rotations_bounded [OF example_sandbox_facts(3) example_sandbox_reachable, of 10]
  by (simp add: example_sandbox_facts)


lemma follow_reaches_current_witness:
  "follow_call (answer example_sandbox (\<lambda>g. if g = 1 then Inr (42::nat) else Inl ''stale'')) 0 0 = (Inr 42, 1)"
proof -
  have "follow_call (answer example_sandbox (\<lambda>g. if g = 1 then Inr (42::nat) else Inl ''stale'')) 0 0 =
      ((\<lambda>g. if g = 1 then Inr (42::nat) else Inl ''stale'') (current_generation example_sandbox),
       current_generation example_sandbox)"
    by (rule follow_reaches_current [OF example_sandbox_facts(3) example_sandbox_reachable])
      (auto simp: example_sandbox_facts relocated_prefix_def split: if_splits)
  then show ?thesis by (simp add: example_sandbox_facts)
qed


end
