(* ===== verification/SandboxDeadline.thy ===== *)
theory SandboxDeadline
  imports Prelude Complex_Main
begin

section \<open>Deadlines of sandbox commands\<close>

text \<open>
  Model of \<open>src/workers/main/src/sandbox-exec-deadline.ts\<close>: the clamp of a declared timeout and
  the deadline object, whose budget is shared by all \<open>run\<close> calls of one tool call. The fields of
  the closure are a record; the readings of the clock, the work's outcome and the winner of the
  race against the timer are arguments. A declared timeout is a rational number, absent when it
  is undefined or not finite.
\<close>

definition SANDBOX_EXEC_DEADLINE_GRACE_MS :: int where "SANDBOX_EXEC_DEADLINE_GRACE_MS = 15000"
definition SANDBOX_EXEC_DEADLINE_MIN_SLICE_MS :: int where "SANDBOX_EXEC_DEADLINE_MIN_SLICE_MS = 1000"

definition clampSandboxTimeoutMs :: "rat option \<Rightarrow> int \<Rightarrow> int \<Rightarrow> int" where
  "clampSandboxTimeoutMs v fallback most =
     (case v of None \<Rightarrow> fallback | Some x \<Rightarrow> if x \<le> 0 then fallback else min \<lfloor>x\<rfloor> most)"

record deadline_options =
  declaredTimeoutMs :: "rat option"
  defaultTimeoutMs :: int
  maxTimeoutMs :: int
  overheadMs :: "int option"
  graceMs :: "int option"

record exceeded_event =
  event_budgetMs :: int
  event_waitedMs :: int
  event_started :: bool

record exec_deadline =
  budgetMs :: int
  minSliceMs :: int
  deadlineAtMs :: "int option"
  exhausted :: bool
  reported :: "exceeded_event list"

definition createSandboxExecDeadline :: "deadline_options \<Rightarrow> exec_deadline" where
  "createSandboxExecDeadline opts =
     (let b = clampSandboxTimeoutMs (declaredTimeoutMs opts) (defaultTimeoutMs opts) (maxTimeoutMs opts)
              + or_default 0 (overheadMs opts) + or_default SANDBOX_EXEC_DEADLINE_GRACE_MS (graceMs opts)
      in \<lparr>budgetMs = b, minSliceMs = min SANDBOX_EXEC_DEADLINE_MIN_SLICE_MS b, deadlineAtMs = None,
          exhausted = False, reported = []\<rparr>)"

definition remainingMs :: "int \<Rightarrow> exec_deadline \<Rightarrow> int" where
  "remainingMs now d = (case deadlineAtMs d of None \<Rightarrow> budgetMs d | Some t \<Rightarrow> max 0 (t - now))"

text \<open>\<open>excluding\<close>: the readings before and after the excluded work (which may throw).\<close>

definition excluding :: "int \<Rightarrow> int \<Rightarrow> exec_deadline \<Rightarrow> exec_deadline" where
  "excluding startedAt endedAt d =
     d\<lparr>deadlineAtMs := map_option (\<lambda>t. t + max 0 (endedAt - startedAt)) (deadlineAtMs d)\<rparr>"

text \<open>
  The race of the work against the timer, and the reading of the clock when it is decided.
\<close>

datatype 'a race = Work_returned 'a | Work_threw string | Timer_fired

datatype 'a run_result = Value 'a | Threw string | Deadline_exceeded exceeded_event

record 'a run_env =
  first_now :: int
  started_now :: int
  race_result :: "'a race"
  ended_now :: int

text \<open>\<open>run\<close>: the flag tells that the work was dispatched.\<close>

definition run_deadline :: "'a run_env \<Rightarrow> exec_deadline \<Rightarrow> 'a run_result \<times> bool \<times> exec_deadline" where
  "run_deadline e d =
     (let limit = or_default (first_now e + budgetMs d) (deadlineAtMs d);
          d1 = d\<lparr>deadlineAtMs := Some limit\<rparr>
      in if exhausted d \<or> limit - started_now e < minSliceMs d
         then let ev = \<lparr>event_budgetMs = budgetMs d, event_waitedMs = 0, event_started = False\<rparr>
              in (Deadline_exceeded ev, False,
                  if exhausted d then d1 else d1\<lparr>exhausted := True, reported := reported d @ [ev]\<rparr>)
         else case race_result e of
           Work_returned v \<Rightarrow> (Value v, True, d1)
         | Work_threw m \<Rightarrow> (Threw m, True, d1)
         | Timer_fired \<Rightarrow>
             let ev = \<lparr>event_budgetMs = budgetMs d,
                       event_waitedMs = max 0 (ended_now e - started_now e), event_started = True\<rparr>
             in (Deadline_exceeded ev, True, d1\<lparr>exhausted := True, reported := reported d @ [ev]\<rparr>))"

subsection \<open>A tool call: a sequence of operations on one deadline\<close>

datatype 'a deadline_op = Run "'a run_env" | Exclude int int

definition apply_op :: "'a deadline_op \<Rightarrow> exec_deadline \<Rightarrow> exec_deadline" where
  "apply_op op d =
     (case op of Run e \<Rightarrow> snd (snd (run_deadline e d)) | Exclude s t \<Rightarrow> excluding s t d)"

text \<open>The time awaited in dispatched work.\<close>

definition awaited :: "'a deadline_op \<Rightarrow> exec_deadline \<Rightarrow> int" where
  "awaited op d =
     (case op of
        Run e \<Rightarrow> if fst (snd (run_deadline e d)) then ended_now e - started_now e else 0
      | Exclude s t \<Rightarrow> 0)"

fun total_awaited :: "'a deadline_op list \<Rightarrow> exec_deadline \<Rightarrow> int" where
  "total_awaited [] d = 0"
| "total_awaited (op # ops) d = awaited op d + total_awaited ops (apply_op op d)"

text \<open>
  The operations follow each other in time, and the timer keeps its promise: dispatched work is
  awaited no longer than what remained.
\<close>

fun punctual :: "int \<Rightarrow> 'a deadline_op list \<Rightarrow> exec_deadline \<Rightarrow> bool" where
  "punctual now [] d = True"
| "punctual now (Run e # ops) d =
     (now \<le> first_now e \<and> first_now e \<le> started_now e \<and> started_now e \<le> ended_now e \<and>
      (fst (snd (run_deadline e d)) \<longrightarrow>
         ended_now e \<le> or_default (first_now e + budgetMs d) (deadlineAtMs d)) \<and>
      punctual (ended_now e) ops (apply_op (Run e) d))"
| "punctual now (Exclude s t # ops) d =
     (now \<le> s \<and> s \<le> t \<and> punctual t ops (excluding s t d))"

lemma deadline_run [simp]:
  "deadlineAtMs (snd (snd (run_deadline e d))) = Some (or_default (first_now e + budgetMs d) (deadlineAtMs d))"
  "budgetMs (snd (snd (run_deadline e d))) = budgetMs d"
  by (auto simp: run_deadline_def Let_def split: race.split)

lemma dispatched_slice:
  "fst (snd (run_deadline e d)) \<Longrightarrow>
   \<not> exhausted d \<and> minSliceMs d \<le> or_default (first_now e + budgetMs d) (deadlineAtMs d) - started_now e"
  by (auto simp: run_deadline_def Let_def split: if_splits race.split)

lemma run_starts_the_clock:
  "deadlineAtMs d = None \<Longrightarrow>
   run_deadline e (d\<lparr>deadlineAtMs := Some (first_now e + budgetMs d)\<rparr>) = run_deadline e d"
  by (simp add: run_deadline_def Let_def split: race.split)

lemma total_awaited_running:
  "punctual now ops d \<Longrightarrow> deadlineAtMs d = Some limit \<Longrightarrow> total_awaited ops d \<le> max 0 (limit - now)"
proof (induction ops arbitrary: now d limit)
  case Nil
  then show ?case by simp
next
  case (Cons op ops)
  show ?case
  proof (cases op)
    case (Run e)
    with Cons.prems have p: "now \<le> started_now e" "started_now e \<le> ended_now e"
      "fst (snd (run_deadline e d)) \<longrightarrow> ended_now e \<le> limit"
      "punctual (ended_now e) ops (apply_op (Run e) d)" by auto
    have "total_awaited ops (apply_op op d) \<le> max 0 (limit - ended_now e)"
      using Cons.IH [OF p(4)] Cons.prems(2) by (simp add: Run apply_op_def)
    then show ?thesis using p by (auto simp: Run awaited_def)
  next
    case (Exclude s t)
    with Cons.prems have p: "now \<le> s" "s \<le> t" "punctual t ops (excluding s t d)" by auto
    have "total_awaited ops (apply_op op d) \<le> max 0 (limit + (t - s) - t)"
      using Cons.IH [OF p(3)] Cons.prems(2) p(2) by (simp add: Exclude apply_op_def excluding_def)
    then show ?thesis using p by (simp add: Exclude awaited_def)
  qed
qed

lemma total_awaited_fresh:
  "punctual now ops d \<Longrightarrow> deadlineAtMs d = None \<Longrightarrow> total_awaited ops d \<le> max 0 (budgetMs d)"
proof (induction ops arbitrary: now d)
  case Nil
  then show ?case by simp
next
  case (Cons op ops)
  show ?case
  proof (cases op)
    case (Run e)
    let ?d = "d\<lparr>deadlineAtMs := Some (first_now e + budgetMs d)\<rparr>"
    have eq: "run_deadline e ?d = run_deadline e d" using Cons.prems(2) by (rule run_starts_the_clock)
    have "punctual (first_now e) (op # ops) ?d"
      using Cons.prems eq by (simp add: Run apply_op_def)
    from total_awaited_running [OF this] show ?thesis
      by (simp add: Run awaited_def apply_op_def eq)
  next
    case (Exclude s t)
    then show ?thesis
      using Cons.IH [of t "apply_op op d"] Cons.prems by (simp add: apply_op_def excluding_def awaited_def)
  qed
qed


definition example_options :: deadline_options where
  "example_options =
     \<lparr>declaredTimeoutMs = Some 2000, defaultTimeoutMs = 60000, maxTimeoutMs = 120000, overheadMs = None,
      graceMs = Some 0\<rparr>"

definition example_ops :: "string deadline_op list" where
  "example_ops =
     [Run \<lparr>first_now = 100, started_now = 100, race_result = Work_threw ''x'', ended_now = 600\<rparr>,
      Exclude 600 9000,
      Run \<lparr>first_now = 9000, started_now = 9000, race_result = Timer_fired, ended_now = 10500\<rparr>]"


lemma reported_once:
  "length (reported d) \<le> (if exhausted d then 1 else 0) \<Longrightarrow>
   length (reported (apply_op op d)) \<le> (if exhausted (apply_op op d) then 1 else 0)"
  by (auto simp: apply_op_def run_deadline_def excluding_def Let_def
      split: deadline_op.split race.split if_splits)

text \<open>
  A deadline reports its exhaustion at most once, however often it is run, and once it is
  exhausted no work is dispatched.
\<close>

theorem exhaustion_reported_once:
  "length (reported (fold apply_op ops (createSandboxExecDeadline opts))) \<le> 1 \<and>
   \<not> (exhausted (fold apply_op ops (createSandboxExecDeadline opts)) \<and>
      fst (snd (run_deadline e (fold apply_op ops (createSandboxExecDeadline opts)))))"
proof -
  have inv: "length (reported d) \<le> (if exhausted d then 1 else 0) \<Longrightarrow>
      length (reported (fold apply_op ops d)) \<le> (if exhausted (fold apply_op ops d) then 1 else 0)" for d
  proof (induction ops arbitrary: d)
    case (Cons op ops)
    then show ?case using reported_once [of d op] by simp
  qed simp
  have "length (reported (createSandboxExecDeadline opts)) \<le>
      (if exhausted (createSandboxExecDeadline opts) then 1 else 0)"
    by (simp add: createSandboxExecDeadline_def Let_def)
  from inv [OF this] show ?thesis using dispatched_slice by (auto split: if_splits)
qed

end
