(* ===== verification/UsageLease.thy ===== *)
theory UsageLease
  imports Prelude Complex_Main
begin

section \<open>Leases of the app usage guard\<close>

text \<open>
  Model of the leases in \<open>src/workers/main/src/usage-guard-state.ts\<close> (one lease per app, taken by a
  deploy or by an enforcement) and in \<open>src/workers/app-usage-guard/src/index.ts\<close> (the lease of the
  scheduled run). Both are rows of \<open>app_usage_guard_leases\<close>, an association list here. The clock is
  an argument; the retry loop also takes what the others do to the table between two attempts.
\<close>

record lease =
  holder :: string
  expires_at :: int

type_synonym leases = "(string \<times> lease) list"

definition USAGE_GUARD_OPERATION_LEASE_TTL_MS :: int where "USAGE_GUARD_OPERATION_LEASE_TTL_MS = 60000"
definition USAGE_GUARD_OPERATION_LEASE_WAIT_MS :: int where "USAGE_GUARD_OPERATION_LEASE_WAIT_MS = 15000"
definition USAGE_GUARD_OPERATION_LEASE_RETRY_MS :: int where "USAGE_GUARD_OPERATION_LEASE_RETRY_MS = 250"
definition LEASE_NAME :: string where "LEASE_NAME = ''usage-guard-cron''"

definition operationLeaseName :: "string \<Rightarrow> string" where
  "operationLeaseName appId = ''app-operation:'' @ appId"

text \<open>
  \<open>INSERT ... ON CONFLICT(name) DO UPDATE ... WHERE <the old lease is over>\<close>; the flag tells that a
  row changed.
\<close>

definition take_lease :: "string \<Rightarrow> lease \<Rightarrow> (lease \<Rightarrow> bool) \<Rightarrow> leases \<Rightarrow> bool \<times> leases" where
  "take_lease name new over s =
     (case map_of s name of
        None \<Rightarrow> (True, s @ [(name, new)])
      | Some old \<Rightarrow> if over old then (True, update_row name (\<lambda>_. new) s) else (False, s))"

definition tryAcquireUsageGuardOperationLease ::
    "string \<Rightarrow> int option \<Rightarrow> string \<Rightarrow> int \<Rightarrow> leases \<Rightarrow> bool \<times> leases" where
  "tryAcquireUsageGuardOperationLease appId ttlMs h now s =
     take_lease (operationLeaseName appId)
       \<lparr>holder = h, expires_at = now + or_default USAGE_GUARD_OPERATION_LEASE_TTL_MS ttlMs\<rparr>
       (\<lambda>old. expires_at old \<le> now) s"

definition releaseUsageGuardOperationLease :: "string \<Rightarrow> string \<Rightarrow> leases \<Rightarrow> leases" where
  "releaseUsageGuardOperationLease appId h s =
     delete_where (\<lambda>name l. name = operationLeaseName appId \<and> holder l = h) s"

definition acquireLease :: "string \<Rightarrow> int \<Rightarrow> leases \<Rightarrow> bool \<times> leases" where
  "acquireLease h now s =
     take_lease LEASE_NAME \<lparr>holder = h, expires_at = now + 4 * 60 * 1000\<rparr> (\<lambda>old. expires_at old < now) s"

definition releaseLease :: "string \<Rightarrow> leases \<Rightarrow> leases" where
  "releaseLease h s = delete_where (\<lambda>name l. name = LEASE_NAME \<and> holder l = h) s"

text \<open>The table has one row per name (its primary key).\<close>

definition lease_table :: "leases \<Rightarrow> bool" where
  "lease_table s = distinct (map fst s)"

lemma map_of_take_lease:
  "map_of (snd (take_lease name new over s)) n =
     (if n = name \<and> fst (take_lease name new over s) then Some new else map_of s n)"
  by (auto simp: take_lease_def map_add_def split: option.splits)

lemma lease_table_take: "lease_table s \<Longrightarrow> lease_table (snd (take_lease name new over s))"
  by (auto simp: take_lease_def lease_table_def map_of_eq_None_iff split: option.splits)

lemma lease_table_delete: "lease_table s \<Longrightarrow> lease_table (delete_where P s)"
  by (simp add: lease_table_def delete_where_def distinct_filter_keys)

lemma take_lease_held:
  "map_of s name = Some l \<Longrightarrow> \<not> over l \<Longrightarrow> take_lease name new over s = (False, s)"
  by (simp add: take_lease_def)

lemma take_lease_free:
  "map_of s name = None \<Longrightarrow> fst (take_lease name new over s)"
  "map_of s name = Some l \<Longrightarrow> over l \<Longrightarrow> fst (take_lease name new over s)"
  by (simp_all add: take_lease_def)

subsection \<open>The contract of a lease\<close>

text \<open>
  Requests of several holders, one after the other. \<open>lease_trace\<close> collects the answers to the
  acquisitions.
\<close>

datatype lease_request = Acquire string int | Release string

fun requester :: "lease_request \<Rightarrow> string" where
  "requester (Acquire h t) = h"
| "requester (Release h) = h"

fun asked_before :: "int \<Rightarrow> lease_request \<Rightarrow> bool" where
  "asked_before e (Acquire h t) = (t < e)"
| "asked_before e (Release h) = True"

fun lease_trace :: "(string \<Rightarrow> int \<Rightarrow> 's \<Rightarrow> bool \<times> 's) \<Rightarrow> (string \<Rightarrow> 's \<Rightarrow> 's) \<Rightarrow> lease_request list \<Rightarrow> 's \<Rightarrow> bool list \<times> 's" where
  "lease_trace acq rel [] s = ([], s)"
| "lease_trace acq rel (Acquire h t # rs) s =
     (let (ok, s1) = acq h t s; (oks, s2) = lease_trace acq rel rs s1 in (ok # oks, s2))"
| "lease_trace acq rel (Release h # rs) s = lease_trace acq rel rs (rel h s)"

locale lease_contract =
  fixes acq :: "string \<Rightarrow> int \<Rightarrow> 's \<Rightarrow> bool \<times> 's"
    and rel :: "string \<Rightarrow> 's \<Rightarrow> 's"
    and held :: "'s \<Rightarrow> lease option"
    and ok :: "'s \<Rightarrow> bool"
    and ttl :: int
  assumes acq_ok: "ok s \<Longrightarrow> ok (snd (acq h t s))"
    and rel_ok: "ok s \<Longrightarrow> ok (rel h s)"
    and acq_free: "held s = None \<Longrightarrow> fst (acq h t s)"
    and acq_over: "held s = Some l \<Longrightarrow> expires_at l < t \<Longrightarrow> fst (acq h t s)"
    and acq_won: "fst (acq h t s) \<Longrightarrow> held (snd (acq h t s)) = Some \<lparr>holder = h, expires_at = t + ttl\<rparr>"
    and acq_refused: "held s = Some l \<Longrightarrow> t < expires_at l \<Longrightarrow> acq h t s = (False, s)"
    and rel_other: "ok s \<Longrightarrow> held s = Some l \<Longrightarrow> holder l \<noteq> h \<Longrightarrow> held (rel h s) = Some l"
    and rel_own: "ok s \<Longrightarrow> held s = Some l \<Longrightarrow> holder l = h \<Longrightarrow> held (rel h s) = None"
begin

lemma exclusive:
  "\<lbrakk>ok s; held s = Some l; \<forall>r \<in> set rs. requester r \<noteq> holder l \<and> asked_before (expires_at l) r\<rbrakk>
   \<Longrightarrow> True \<notin> set (fst (lease_trace acq rel rs s)) \<and> held (snd (lease_trace acq rel rs s)) = Some l"
proof (induction rs arbitrary: s)
  case Nil
  then show ?case by simp
next
  case (Cons r rs)
  show ?case
  proof (cases r)
    case (Acquire h t)
    with Cons.prems have "acq h t s = (False, s)" by (simp add: acq_refused)
    with Acquire Cons.prems Cons.IH [of s] show ?thesis by (auto simp: case_prod_unfold Let_def)
  next
    case (Release h)
    with Cons.prems have "held (rel h s) = Some l" "ok (rel h s)" by (auto simp: rel_other rel_ok)
    with Release Cons show ?thesis by simp
  qed
qed

lemma released_is_free:
  assumes "ok s" and "fst (acq h t s)"
  shows "fst (acq h' t' (rel h (snd (acq h t s))))"
  using rel_own [OF acq_ok [OF assms(1)] acq_won [OF assms(2)]] by (intro acq_free) simp

end

definition held_lease :: "string \<Rightarrow> leases \<Rightarrow> lease option" where
  "held_lease name s = map_of s name"

lemma held_delete:
  "lease_table s \<Longrightarrow> map_of s name = Some l \<Longrightarrow>
   map_of (delete_where (\<lambda>n l. n = name \<and> holder l = h) s) name = (if holder l = h then None else Some l)"
  by (simp add: lease_table_def map_of_delete_where)

interpretation operation_lease: lease_contract
  "tryAcquireUsageGuardOperationLease appId ttlMs" "releaseUsageGuardOperationLease appId"
  "held_lease (operationLeaseName appId)" lease_table "or_default USAGE_GUARD_OPERATION_LEASE_TTL_MS ttlMs"
  for appId ttlMs
proof unfold_locales
  fix s h t
  show "lease_table s \<Longrightarrow> lease_table (snd (tryAcquireUsageGuardOperationLease appId ttlMs h t s))"
    by (simp add: tryAcquireUsageGuardOperationLease_def lease_table_take)
  show "lease_table s \<Longrightarrow> lease_table (releaseUsageGuardOperationLease appId h s)"
    by (simp add: releaseUsageGuardOperationLease_def lease_table_delete)
qed (auto simp: tryAcquireUsageGuardOperationLease_def releaseUsageGuardOperationLease_def held_lease_def
    map_of_take_lease take_lease_held take_lease_free held_delete)

interpretation cron_lease: lease_contract
  acquireLease releaseLease "held_lease LEASE_NAME" lease_table "4 * 60 * 1000"
proof unfold_locales
  fix s h t
  show "lease_table s \<Longrightarrow> lease_table (snd (acquireLease h t s))"
    by (simp add: acquireLease_def lease_table_take)
  show "lease_table s \<Longrightarrow> lease_table (releaseLease h s)"
    by (simp add: releaseLease_def lease_table_delete)
qed (auto simp: acquireLease_def releaseLease_def held_lease_def
    map_of_take_lease take_lease_held take_lease_free held_delete)

text \<open>
  C31: Once a holder has an app's operation lease, no other holder gets it before it expires, whatever
  the others acquire and release, until its holder gives it back.
\<close>

theorem operation_lease_exclusive:
  assumes "lease_table s"
    and "tryAcquireUsageGuardOperationLease appId ttlMs h now s = (True, s1)"
    and "\<forall>r \<in> set rs. requester r \<noteq> h \<and>
           asked_before (now + or_default USAGE_GUARD_OPERATION_LEASE_TTL_MS ttlMs) r"
  shows "True \<notin> set (fst (lease_trace (tryAcquireUsageGuardOperationLease appId ttlMs)
                             (releaseUsageGuardOperationLease appId) rs s1))"
proof -
  have "lease_table s1" using operation_lease.acq_ok [OF assms(1), of appId ttlMs h now] assms(2) by simp
  moreover have "held_lease (operationLeaseName appId) s1 =
      Some \<lparr>holder = h, expires_at = now + or_default USAGE_GUARD_OPERATION_LEASE_TTL_MS ttlMs\<rparr>"
    using operation_lease.acq_won [of appId ttlMs h now s] assms(2) by simp
  ultimately show ?thesis using operation_lease.exclusive [of s1 appId] assms(3) by simp
qed

lemma operation_lease_exclusive_witness:
  "fst (lease_trace (tryAcquireUsageGuardOperationLease ''a'' None) (releaseUsageGuardOperationLease ''a'')
     [Acquire ''h2'' 5000, Release ''h2'', Acquire ''h3'' 60999]
     (snd (tryAcquireUsageGuardOperationLease ''a'' None ''h1'' 1000 []))) = [False, False] \<and>
   True \<notin> set (fst (lease_trace (tryAcquireUsageGuardOperationLease ''a'' None)
     (releaseUsageGuardOperationLease ''a'') [Acquire ''h2'' 5000, Release ''h2'', Acquire ''h3'' 60999]
     (snd (tryAcquireUsageGuardOperationLease ''a'' None ''h1'' 1000 []))))"
proof (rule conjI)
  show "True \<notin> set (fst (lease_trace (tryAcquireUsageGuardOperationLease ''a'' None)
     (releaseUsageGuardOperationLease ''a'') [Acquire ''h2'' 5000, Release ''h2'', Acquire ''h3'' 60999]
     (snd (tryAcquireUsageGuardOperationLease ''a'' None ''h1'' 1000 []))))"
    by (rule operation_lease_exclusive [where s = "[]" and now = 1000 and h = "''h1''"])
      (simp_all add: lease_table_def tryAcquireUsageGuardOperationLease_def take_lease_def
        USAGE_GUARD_OPERATION_LEASE_TTL_MS_def)
qed code_simp

subsection \<open>Waiting for a lease\<close>

record attempt_env =
  before_attempt :: "leases \<Rightarrow> leases"
  attempt_now :: int
  after_now :: int
  random :: rat

record acquire_result =
  acquired :: bool
  attempts :: nat
  waitedMs :: int

text \<open>\<open>Math.min(jitteredDelay, waitMs - elapsed)\<close>, with \<open>Math.round x = \<lfloor>x + 1/2\<rfloor>\<close>.\<close>

definition retry_sleep :: "int \<Rightarrow> int \<Rightarrow> rat \<Rightarrow> int \<Rightarrow> int" where
  "retry_sleep waitMs retryMs rnd elapsed =
     min (max 1 \<lfloor>of_int retryMs * (3/4 + rnd * (1/2)) + 1/2\<rfloor>) (waitMs - elapsed)"

record retry_input =
  lease_app :: string
  lease_ttl :: "int option"
  lease_holder :: string
  wait_ms :: "int option"
  retry_ms :: "int option"

definition waitMs_of :: "retry_input \<Rightarrow> int" where
  "waitMs_of i = or_default USAGE_GUARD_OPERATION_LEASE_WAIT_MS (wait_ms i)"

definition retryMs_of :: "retry_input \<Rightarrow> int" where
  "retryMs_of i = or_default USAGE_GUARD_OPERATION_LEASE_RETRY_MS (retry_ms i)"

text \<open>The loop; \<open>n\<close> attempts have been made. It need not end if the clock stands still.\<close>

partial_function (option) acquire_attempts ::
    "(nat \<Rightarrow> attempt_env) \<Rightarrow> retry_input \<Rightarrow> int \<Rightarrow> nat \<Rightarrow> leases \<Rightarrow> (acquire_result \<times> leases) option" where
  "acquire_attempts env i startedAt n s =
     (let e = env n;
          r = tryAcquireUsageGuardOperationLease (lease_app i) (lease_ttl i) (lease_holder i)
                (attempt_now e) (before_attempt e s);
          elapsed = after_now e - startedAt
      in if fst r then Some (\<lparr>acquired = True, attempts = Suc n, waitedMs = attempt_now e - startedAt\<rparr>, snd r)
         else if waitMs_of i \<le> elapsed
         then Some (\<lparr>acquired = False, attempts = Suc n, waitedMs = elapsed\<rparr>, snd r)
         else acquire_attempts env i startedAt (Suc n) (snd r))"

definition acquireUsageGuardOperationLeaseWithRetry ::
    "(nat \<Rightarrow> attempt_env) \<Rightarrow> retry_input \<Rightarrow> int \<Rightarrow> leases \<Rightarrow> (acquire_result \<times> leases) option" where
  "acquireUsageGuardOperationLeaseWithRetry env i startedAt s = acquire_attempts env i startedAt 0 s"

text \<open>The clock does not run backwards and a sleep lasts at least as long as it was asked to.\<close>

definition sleeps :: "(nat \<Rightarrow> attempt_env) \<Rightarrow> retry_input \<Rightarrow> int \<Rightarrow> bool" where
  "sleeps env i startedAt \<longleftrightarrow>
     startedAt \<le> attempt_now (env 0) \<and>
     (\<forall>n. attempt_now (env n) \<le> after_now (env n)) \<and>
     (\<forall>n. after_now (env n) + retry_sleep (waitMs_of i) (retryMs_of i) (random (env n)) (after_now (env n) - startedAt)
          \<le> attempt_now (env (Suc n)))"

lemma retry_sleep_pos: "elapsed < waitMs \<Longrightarrow> 1 \<le> retry_sleep waitMs retryMs rnd elapsed"
  by (simp add: retry_sleep_def)

lemma acquire_attempts_return:
  assumes "sleeps env i startedAt"
    and "n \<le> nat (waitMs_of i)" and "startedAt + int n \<le> attempt_now (env n)"
  shows "\<exists>r s'. acquire_attempts env i startedAt n s = Some (r, s') \<and> attempts r \<le> nat (waitMs_of i) + 1 \<and>
           (acquired r \<longrightarrow> held_lease (operationLeaseName (lease_app i)) s' =
              Some \<lparr>holder = lease_holder i,
                    expires_at = startedAt + waitedMs r + or_default USAGE_GUARD_OPERATION_LEASE_TTL_MS (lease_ttl i)\<rparr>) \<and>
           (\<not> acquired r \<longrightarrow> waitMs_of i \<le> waitedMs r)"
  using assms(2,3)
proof (induction "nat (waitMs_of i) - n" arbitrary: n s rule: less_induct)
  case less
  let ?e = "env n"
  let ?r = "tryAcquireUsageGuardOperationLease (lease_app i) (lease_ttl i) (lease_holder i)
              (attempt_now ?e) (before_attempt ?e s)"
  let ?el = "after_now ?e - startedAt"
  have mono: "attempt_now ?e \<le> after_now ?e" using assms(1) by (simp add: sleeps_def)
  show ?case
  proof (cases "fst ?r")
    case True
    then show ?thesis
      using less.prems operation_lease.acq_won [OF True]
      by (subst acquire_attempts.simps) (simp add: Let_def)
  next
    case False
    show ?thesis
    proof (cases "waitMs_of i \<le> ?el")
      case True
      then show ?thesis using False less.prems by (subst acquire_attempts.simps) (simp add: Let_def)
    next
      case short: False
      have "1 \<le> retry_sleep (waitMs_of i) (retryMs_of i) (random ?e) ?el"
        using short by (intro retry_sleep_pos) simp
      moreover have "after_now ?e + retry_sleep (waitMs_of i) (retryMs_of i) (random ?e) ?el
          \<le> attempt_now (env (Suc n))" using assms(1) by (simp add: sleeps_def)
      ultimately have nxt: "startedAt + int (Suc n) \<le> attempt_now (env (Suc n))"
        using less.prems(2) mono by simp
      have lt: "int n < waitMs_of i" using short less.prems(2) mono by simp
      have "acquire_attempts env i startedAt n s = acquire_attempts env i startedAt (Suc n) (snd ?r)"
        using False short by (subst acquire_attempts.simps) (simp add: Let_def)
      then show ?thesis using less.hyps [of "Suc n" "snd ?r"] lt nxt by simp
    qed
  qed
qed

text \<open>
  C29: Waiting for an app's operation lease ends: after at most \<open>waitMs + 1\<close> attempts it returns, with
  the lease held by the caller until its time to live is over, or without it when the time was up.
\<close>

theorem lease_wait_ends:
  assumes "sleeps env i startedAt"
  shows "\<exists>r s'. acquireUsageGuardOperationLeaseWithRetry env i startedAt s = Some (r, s') \<and>
           attempts r \<le> nat (waitMs_of i) + 1 \<and>
           (acquired r \<longrightarrow> held_lease (operationLeaseName (lease_app i)) s' =
              Some \<lparr>holder = lease_holder i,
                    expires_at = startedAt + waitedMs r + or_default USAGE_GUARD_OPERATION_LEASE_TTL_MS (lease_ttl i)\<rparr>) \<and>
           (\<not> acquired r \<longrightarrow> waitMs_of i \<le> waitedMs r)"
  unfolding acquireUsageGuardOperationLeaseWithRetry_def
  by (rule acquire_attempts_return [OF assms]) (use assms in \<open>simp_all add: sleeps_def\<close>)

definition waiting_env :: "nat \<Rightarrow> attempt_env" where
  "waiting_env n = \<lparr>before_attempt = (\<lambda>s. s), attempt_now = 1000 + 300 * int n, after_now = 1000 + 300 * int n, random = 1/2\<rparr>"

definition waiting_input :: retry_input where
  "waiting_input = \<lparr>lease_app = ''a'', lease_ttl = None, lease_holder = ''h2'', wait_ms = None, retry_ms = None\<rparr>"

lemma lease_wait_ends_witness:
  "\<exists>r s'. acquireUsageGuardOperationLeaseWithRetry waiting_env waiting_input 1000
     [(''app-operation:a'', \<lparr>holder = ''h1'', expires_at = 9000\<rparr>)] = Some (r, s') \<and> attempts r \<le> 15001"
proof -
  have "sleeps waiting_env waiting_input 1000"
    by (auto simp: sleeps_def waiting_env_def waiting_input_def retry_sleep_def waitMs_of_def retryMs_of_def
        USAGE_GUARD_OPERATION_LEASE_RETRY_MS_def floor_divide_of_int_eq [where k = 501 and l = 2, simplified])
  from lease_wait_ends [OF this, of "[(''app-operation:a'', \<lparr>holder = ''h1'', expires_at = 9000\<rparr>)]"]
  show ?thesis
    by (auto simp: waitMs_of_def waiting_input_def USAGE_GUARD_OPERATION_LEASE_WAIT_MS_def)
qed

end
