(* ===== verification/UsagePolicy.thy ===== *)
theory UsagePolicy
  imports Prelude Complex_Main
begin

section \<open>Usage policy and telemetry of the app usage guard\<close>

text \<open>
  Model of \<open>src/workers/app-usage-guard/src/policy.ts\<close> (thresholds, cost estimate, decision) and
  \<open>src/workers/app-usage-guard/src/telemetry.ts\<close> (rows read and written, summed by the script that owns
  each Durable Object namespace). Costs are exact rationals where the code has doubles. The answers of
  the Cloudflare API are arguments, already parsed: a field of the wrong type is absent.
\<close>

subsection \<open>Policy\<close>

record script_usage =
  scriptName :: string
  rowsRead :: int
  rowsWritten :: int

datatype window_minutes = Minutes_15 | Minutes_60 | Minutes_1440

record usage_window = script_usage +
  windowMinutes :: window_minutes
  estimatedCostUsd :: rat
  runId :: "string option"
  windowEnd :: int

datatype policy_decision =
    No_action
  | Warn string usage_window
  | Suspend bool string usage_window

record thresholds =
  warn_at :: rat
  suspend_at :: rat
  catastrophic_at :: rat

definition THRESHOLDS :: "window_minutes \<Rightarrow> thresholds" where
  "THRESHOLDS m =
     (case m of
        Minutes_15 \<Rightarrow> \<lparr>warn_at = 1/2, suspend_at = 1, catastrophic_at = 5\<rparr>
      | Minutes_60 \<Rightarrow> \<lparr>warn_at = 1, suspend_at = 2, catastrophic_at = 10\<rparr>
      | Minutes_1440 \<Rightarrow> \<lparr>warn_at = 5/2, suspend_at = 5, catastrophic_at = 25\<rparr>)"

definition estimatedSqliteCostUsd :: "int \<Rightarrow> int \<Rightarrow> rat" where
  "estimatedSqliteCostUsd reads writes = of_int writes / 1000000 + of_int reads / 1000000 * (1/1000)"

text \<open>One of the three assignments of the loop: the first window of the highest cost so far.\<close>

definition keep_worst :: "(usage_window \<Rightarrow> bool) \<Rightarrow> usage_window \<Rightarrow> usage_window option \<Rightarrow> usage_window option" where
  "keep_worst P w best =
     (if P w \<and> (case best of None \<Rightarrow> True | Some b \<Rightarrow> estimatedCostUsd w > estimatedCostUsd b)
      then Some w else best)"

definition warns :: "usage_window \<Rightarrow> bool" where
  "warns w \<longleftrightarrow> estimatedCostUsd w \<ge> warn_at (THRESHOLDS (windowMinutes w))"

definition suspends :: "usage_window \<Rightarrow> bool" where
  "suspends w \<longleftrightarrow>
     estimatedCostUsd w \<ge> suspend_at (THRESHOLDS (windowMinutes w)) \<or>
     (windowMinutes w = Minutes_15 \<and> rowsWritten w \<ge> 1000000)"

definition catastrophic :: "usage_window \<Rightarrow> bool" where
  "catastrophic w \<longleftrightarrow> estimatedCostUsd w \<ge> catastrophic_at (THRESHOLDS (windowMinutes w))"

definition evaluateUsage :: "usage_window list \<Rightarrow> policy_decision" where
  "evaluateUsage windows =
     (let (w, s, c) = foldl (\<lambda>(w, s, c) x. (keep_worst warns x w, keep_worst suspends x s, keep_worst catastrophic x c))
                        (None, None, None) windows
      in case c of
           Some x \<Rightarrow> Suspend True ''catastrophic_sqlite_usage'' x
         | None \<Rightarrow> (case s of
             Some x \<Rightarrow> Suspend False ''sustained_sqlite_usage'' x
           | None \<Rightarrow> (case w of Some x \<Rightarrow> Warn ''elevated_sqlite_usage'' x | None \<Rightarrow> No_action)))"

text \<open>The reference: the first window over the threshold that no other one over it exceeds.\<close>

definition worst :: "(usage_window \<Rightarrow> bool) \<Rightarrow> usage_window list \<Rightarrow> usage_window option" where
  "worst P ws = find (\<lambda>w. P w \<and> list_all (\<lambda>v. P v \<longrightarrow> estimatedCostUsd v \<le> estimatedCostUsd w) ws) ws"

definition decision_of :: "usage_window list \<Rightarrow> policy_decision" where
  "decision_of ws =
     (if list_ex catastrophic ws then Suspend True ''catastrophic_sqlite_usage'' (the (worst catastrophic ws))
      else if list_ex suspends ws then Suspend False ''sustained_sqlite_usage'' (the (worst suspends ws))
      else if list_ex warns ws then Warn ''elevated_sqlite_usage'' (the (worst warns ws))
      else No_action)"

definition pick :: "(usage_window \<Rightarrow> bool) \<Rightarrow> usage_window list \<Rightarrow> usage_window option" where
  "pick P ws = foldl (\<lambda>b x. keep_worst P x b) None ws"

lemma three_folds:
  "foldl (\<lambda>(w, s, c) x. (keep_worst P x w, keep_worst Q x s, keep_worst R x c)) (w0, s0, c0) ws =
   (foldl (\<lambda>b x. keep_worst P x b) w0 ws, foldl (\<lambda>b x. keep_worst Q x b) s0 ws, foldl (\<lambda>b x. keep_worst R x b) c0 ws)"
  by (induction ws arbitrary: w0 s0 c0) auto

text \<open>What the fold has chosen after a list of windows.\<close>

definition chosen :: "(usage_window \<Rightarrow> bool) \<Rightarrow> usage_window list \<Rightarrow> usage_window option \<Rightarrow> bool" where
  "chosen P ws best =
     (case best of
        None \<Rightarrow> \<forall>v \<in> set ws. \<not> P v
      | Some b \<Rightarrow> \<exists>us vs. ws = us @ b # vs \<and> P b \<and>
          (\<forall>v \<in> set us. P v \<longrightarrow> estimatedCostUsd v < estimatedCostUsd b) \<and>
          (\<forall>v \<in> set vs. P v \<longrightarrow> estimatedCostUsd v \<le> estimatedCostUsd b))"

lemma chosen_SomeI:
  assumes "P b" "\<And>v. v \<in> set us \<Longrightarrow> P v \<Longrightarrow> estimatedCostUsd v < estimatedCostUsd b"
    "\<And>v. v \<in> set vs \<Longrightarrow> P v \<Longrightarrow> estimatedCostUsd v \<le> estimatedCostUsd b"
  shows "chosen P (us @ b # vs) (Some b)"
  unfolding chosen_def option.case using assms by blast

lemma pick_chosen: "chosen P ws (pick P ws)"
proof (induction ws rule: rev_induct)
  case Nil
  then show ?case by (simp add: pick_def chosen_def)
next
  case (snoc w ws)
  have step: "pick P (ws @ [w]) = keep_worst P w (pick P ws)" by (simp add: pick_def)
  show ?case
  proof (cases "pick P ws")
    case None
    with snoc have none: "\<forall>v \<in> set ws. \<not> P v" by (simp add: chosen_def)
    show ?thesis
    proof (cases "P w")
      case True
      with none have "chosen P (ws @ w # []) (Some w)" by (intro chosen_SomeI) auto
      with True show ?thesis by (simp add: step None keep_worst_def)
    next
      case False
      with none show ?thesis by (simp add: step None keep_worst_def chosen_def)
    qed
  next
    case (Some b)
    with snoc obtain us vs where b: "ws = us @ b # vs" "P b"
      "\<forall>v \<in> set us. P v \<longrightarrow> estimatedCostUsd v < estimatedCostUsd b"
      "\<forall>v \<in> set vs. P v \<longrightarrow> estimatedCostUsd v \<le> estimatedCostUsd b" by (auto simp: chosen_def)
    show ?thesis
    proof (cases "P w \<and> estimatedCostUsd w > estimatedCostUsd b")
      case True
      have "\<forall>v \<in> set ws. P v \<longrightarrow> estimatedCostUsd v < estimatedCostUsd w" using b True by fastforce
      with True have "chosen P (ws @ w # []) (Some w)" by (intro chosen_SomeI) auto
      with True show ?thesis by (simp add: step Some keep_worst_def)
    next
      case False
      have "chosen P (us @ b # (vs @ [w])) (Some b)"
        using b False by (intro chosen_SomeI) (auto simp: not_less)
      then have "chosen P (ws @ [w]) (Some b)" by (simp add: b(1))
      moreover have "keep_worst P w (Some b) = Some b" using False by (simp only: keep_worst_def option.case if_False)
      ultimately show ?thesis by (simp add: step Some)
    qed
  qed
qed

lemma find_split: "(\<And>u. u \<in> set us \<Longrightarrow> \<not> Q u) \<Longrightarrow> Q b \<Longrightarrow> find Q (us @ b # vs) = Some b"
  by (induction us) auto

lemma worst_chosen: "chosen P ws (Some b) \<Longrightarrow> worst P ws = Some b"
proof -
  assume "chosen P ws (Some b)"
  then obtain us vs where b: "ws = us @ b # vs" "P b"
    "\<forall>v \<in> set us. P v \<longrightarrow> estimatedCostUsd v < estimatedCostUsd b"
    "\<forall>v \<in> set vs. P v \<longrightarrow> estimatedCostUsd v \<le> estimatedCostUsd b" by (auto simp: chosen_def)
  let ?Q = "\<lambda>w. P w \<and> list_all (\<lambda>v. P v \<longrightarrow> estimatedCostUsd v \<le> estimatedCostUsd w) ws"
  have "\<not> ?Q u" if "u \<in> set us" for u
  proof
    assume q: "?Q u"
    then have "estimatedCostUsd b \<le> estimatedCostUsd u" using b(1,2) by (simp add: list_all_iff)
    moreover have "estimatedCostUsd u < estimatedCostUsd b" using b(3) q that by blast
    ultimately show False by simp
  qed
  moreover have "?Q b" using b by (fastforce simp: list_all_iff less_imp_le)
  ultimately have "find ?Q (us @ b # vs) = Some b" by (intro find_split) blast+
  then show ?thesis unfolding worst_def b(1) .
qed

lemma pick_worst: "pick P ws = (if list_ex P ws then Some (the (worst P ws)) else None)"
proof (cases "pick P ws")
  case None
  with pick_chosen [of P ws] show ?thesis by (auto simp: chosen_def list_ex_iff)
next
  case (Some b)
  with pick_chosen [of P ws] have "chosen P ws (Some b)" by simp
  then show ?thesis using Some worst_chosen [of P ws b] by (auto simp: chosen_def list_ex_iff)
qed

text \<open>
  The decision computed in one pass over the windows is the one the thresholds define: the most
  severe threshold that any window exceeds decides, with the first of the costliest such windows.
\<close>

theorem evaluateUsage_decision: "evaluateUsage ws = decision_of ws"
  unfolding evaluateUsage_def decision_of_def three_folds pick_def [symmetric] pick_worst by simp

subsection \<open>Telemetry\<close>

record usage_group =
  namespaceId :: "string option"
  read_sum :: "rat option"
  written_sum :: "rat option"

text \<open>A body that is not JSON is absent; \<open>data\<close> is present unless it is null or missing.\<close>

record graphql_body =
  has_data :: bool
  accounts :: "usage_group list list option"
  graphql_errors :: "string option list option"

record graphql_response =
  graphql_ok :: bool
  graphql_status :: int
  graphql_body :: "graphql_body option"

record namespace_body =
  success :: bool
  script :: "string option"
  namespace_errors :: "string option list option"

record namespace_response =
  namespace_status :: int
  namespace_body :: "namespace_body option"

definition GROUP_LIMIT :: nat where "GROUP_LIMIT = 10000"

definition show_int :: "int \<Rightarrow> string" where
  "show_int n = (if n < 0 then ''-'' @ show_nat (nat (- n)) else show_nat (nat n))"

definition finiteCounter :: "rat option \<Rightarrow> int" where
  "finiteCounter v = (case v of None \<Rightarrow> 0 | Some x \<Rightarrow> if x > 0 then \<lfloor>x + 1/2\<rfloor> else 0)"

text \<open>\<open>errors?.map(e => e.message).filter(Boolean).join("; ") || HTTP status\<close>\<close>

definition api_message :: "string option list option \<Rightarrow> int \<Rightarrow> string" where
  "api_message errors status =
     (let texts = filter (\<lambda>m. m \<noteq> []) (List.map_filter (\<lambda>m. m) (or_default [] errors));
          m = join ''; '' texts
      in if m = [] then ''HTTP '' @ show_int status else m)"

definition resolveNamespaceScript :: "string \<Rightarrow> namespace_response \<Rightarrow> (string, string option) result" where
  "resolveNamespaceScript n resp =
     (if namespace_status resp = 404 then Inr None
      else let b = namespace_body resp in
        if \<not> (200 \<le> namespace_status resp \<and> namespace_status resp \<le> 299) \<or>
           \<not> (case b of None \<Rightarrow> False | Some x \<Rightarrow> success x)
        then Inl (''Durable Object namespace lookup failed for '' @ n @ '': '' @
               api_message (case b of None \<Rightarrow> None | Some x \<Rightarrow> namespace_errors x) (namespace_status resp))
        else Inr (case b of None \<Rightarrow> None | Some x \<Rightarrow>
               (case script x of
                  None \<Rightarrow> None
                | Some s \<Rightarrow> if js_trim s = [] then None else Some (js_trim s))))"

type_synonym namespace_cache = "string \<Rightarrow> string option option"

text \<open>The lookup of one namespace and the cache after it; a failure is not kept.\<close>

definition namespaceScript ::
    "(string \<Rightarrow> namespace_response) \<Rightarrow> string \<Rightarrow> namespace_cache \<Rightarrow> (string, string option) result \<times> namespace_cache" where
  "namespaceScript api n cache =
     (case cache n of
        Some owner \<Rightarrow> (Inr owner, cache)
      | None \<Rightarrow> (case resolveNamespaceScript n (api n) of
          Inl e \<Rightarrow> (Inl e, cache)
        | Inr owner \<Rightarrow> (Inr owner, cache(n \<mapsto> owner))))"

type_synonym rows = "int \<times> int"

definition add_rows :: "'k \<Rightarrow> rows \<Rightarrow> ('k \<times> rows) list \<Rightarrow> ('k \<times> rows) list" where
  "add_rows k u t = upsert_row k u (\<lambda>old. (fst old + fst u, snd old + snd u)) t"

definition add_group :: "usage_group \<Rightarrow> (string \<times> rows) list \<Rightarrow> (string \<times> rows) list" where
  "add_group g t =
     (case namespaceId g of
        None \<Rightarrow> t
      | Some n \<Rightarrow>
          let r = finiteCounter (read_sum g); w = finiteCounter (written_sum g)
          in if n = [] \<or> (r = 0 \<and> w = 0) then t else add_rows n (r, w) t)"

definition byNamespace :: "usage_group list \<Rightarrow> (string \<times> rows) list" where
  "byNamespace groups = fold add_group groups []"

text \<open>
  \<open>Promise.all\<close> of the lookups: every lookup is made (and cached), then the first failure, in the order
  of the namespaces, is thrown.
\<close>

fun lookup_owners ::
    "(string \<Rightarrow> namespace_response) \<Rightarrow> string list \<Rightarrow> namespace_cache \<Rightarrow> (string, string option list) result \<times> namespace_cache" where
  "lookup_owners api [] cache = (Inr [], cache)"
| "lookup_owners api (n # ns) cache =
     (let (r, cache1) = namespaceScript api n cache; (rs, cache2) = lookup_owners api ns cache1
      in (bind_result r (\<lambda>owner. bind_result rs (\<lambda>owners. Inr (owner # owners))), cache2))"

definition add_owned :: "string option \<times> rows \<Rightarrow> (string \<times> rows) list \<Rightarrow> (string \<times> rows) list" where
  "add_owned ou t =
     (case fst ou of None \<Rightarrow> t | Some s \<Rightarrow> if s = [] then t else add_rows s (snd ou) t)"

definition byScript :: "string option list \<Rightarrow> rows list \<Rightarrow> (string \<times> rows) list" where
  "byScript owners usages = fold add_owned (zip owners usages) []"

text \<open>The checks of the analytics answer, up to its groups.\<close>

definition analytics_groups :: "graphql_response \<Rightarrow> (string, usage_group list) result" where
  "analytics_groups resp =
     (let b = graphql_body resp in
      case b of
        None \<Rightarrow> Inl (''Durable Object analytics query failed: '' @ api_message None (graphql_status resp))
      | Some x \<Rightarrow>
          if \<not> graphql_ok resp \<or> \<not> has_data x \<or> or_default [] (graphql_errors x) \<noteq> []
          then Inl (''Durable Object analytics query failed: '' @ api_message (graphql_errors x) (graphql_status resp))
          else case accounts x of
            Some [groups] \<Rightarrow>
              if length groups \<ge> GROUP_LIMIT
              then Inl (''Durable Object analytics query reached its '' @ show_nat GROUP_LIMIT @ '' group limit'')
              else Inr groups
          | _ \<Rightarrow> Inl ''Durable Object analytics query returned no account'')"

definition queryDurableObjectRows ::
    "(string \<Rightarrow> namespace_response) \<Rightarrow> graphql_response \<Rightarrow> namespace_cache \<Rightarrow> (string, script_usage list) result \<times> namespace_cache" where
  "queryDurableObjectRows api resp cache =
     (case analytics_groups resp of
        Inl e \<Rightarrow> (Inl e, cache)
      | Inr groups \<Rightarrow>
          let t = byNamespace groups;
              (owners, cache') = lookup_owners api (map fst t) cache
          in (bind_result owners (\<lambda>os.
                Inr (map (\<lambda>(s, u). \<lparr>scriptName = s, rowsRead = fst u, rowsWritten = snd u\<rparr>)
                       (byScript os (map snd t)))), cache'))"

subsection \<open>Nothing is lost or counted twice\<close>

definition weight :: "(rows \<Rightarrow> int) \<Rightarrow> ('k \<Rightarrow> bool) \<Rightarrow> ('k \<times> rows) list \<Rightarrow> int" where
  "weight f P t = (\<Sum>(k, u) \<leftarrow> t. if P k then f u else 0)"

lemma weight_update_row:
  "distinct (map fst t) \<Longrightarrow> map_of t k = Some u0 \<Longrightarrow> f (g u0) = f u0 + f u \<Longrightarrow>
   weight f P (update_row k g t) = weight f P t + (if P k then f u else 0)"
proof (induction t)
  case (Cons a t)
  obtain k' v where a: "a = (k', v)" by (cases a)
  show ?case
  proof (cases "k' = k")
    case True
    have "update_row k g t = t"
      using Cons.prems(1) a True by (force simp: update_row_def intro!: map_idI)
    then show ?thesis using Cons.prems a True by (simp add: weight_def update_row_def)
  next
    case False
    then show ?thesis using Cons a by (simp add: weight_def update_row_def)
  qed
qed simp

lemma weight_add_rows:
  assumes "distinct (map fst t)" and "\<And>x y. f (fst x + fst y, snd x + snd y) = f x + f y"
  shows "weight f P (add_rows k u t) = weight f P t + (if P k then f u else 0)"
proof (cases "map_of t k")
  case None
  then show ?thesis by (simp add: add_rows_def upsert_row_def weight_def)
next
  case (Some u0)
  then show ?thesis
    using weight_update_row [OF assms(1) Some, of f _ u] assms(2) by (simp add: add_rows_def upsert_row_def)
qed

lemma distinct_add_rows: "distinct (map fst t) \<Longrightarrow> distinct (map fst (add_rows k u t))"
  unfolding add_rows_def by (rule distinct_upsert_row)

lemma distinct_add_group: "distinct (map fst t) \<Longrightarrow> distinct (map fst (add_group g t))"
  by (simp add: add_group_def Let_def distinct_add_rows split: option.split)

lemma fold_distinct:
  "(\<And>x t. distinct (map fst t) \<Longrightarrow> distinct (map fst (g x t))) \<Longrightarrow> distinct (map fst t) \<Longrightarrow>
   distinct (map fst (fold g xs t))"
  by (induction xs arbitrary: t) auto

text \<open>The rows of a group that count for a namespace with property \<open>P\<close>.\<close>

definition group_rows :: "usage_group \<Rightarrow> rows" where
  "group_rows g = (finiteCounter (read_sum g), finiteCounter (written_sum g))"

definition group_in :: "(string \<Rightarrow> bool) \<Rightarrow> usage_group \<Rightarrow> bool" where
  "group_in P g = (case namespaceId g of None \<Rightarrow> False | Some n \<Rightarrow> n \<noteq> [] \<and> P n)"

lemma weight_byNamespace:
  assumes "\<And>x y. f (fst x + fst y, snd x + snd y) = f x + f y" and "f (0, 0) = 0"
  shows "weight f P (byNamespace groups) = (\<Sum>g \<leftarrow> groups. if group_in P g then f (group_rows g) else 0)"
proof -
  have "weight f P (fold add_group groups t) =
      weight f P t + (\<Sum>g \<leftarrow> groups. if group_in P g then f (group_rows g) else 0)"
    if "distinct (map fst t)" for t
    using that
  proof (induction groups arbitrary: t)
    case (Cons g groups)
    have "weight f P (add_group g t) = weight f P t + (if group_in P g then f (group_rows g) else 0)"
      using Cons.prems weight_add_rows [of t f P, OF Cons.prems assms(1)] assms(2)
      by (auto simp: add_group_def group_in_def group_rows_def Let_def split: option.split)
    with Cons.IH [OF distinct_add_group [OF Cons.prems]] show ?case by simp
  qed simp
  from this [of "[]"] show ?thesis by (simp add: byNamespace_def weight_def)
qed

definition owner_of :: "(string \<Rightarrow> namespace_response) \<Rightarrow> namespace_cache \<Rightarrow> string \<Rightarrow> string option" where
  "owner_of api cache n =
     (case cache n of Some owner \<Rightarrow> owner
      | None \<Rightarrow> (case resolveNamespaceScript n (api n) of Inl e \<Rightarrow> None | Inr owner \<Rightarrow> owner))"

lemma namespaceScript_owner:
  "namespaceScript api n cache = (Inr owner, cache') \<Longrightarrow>
   owner = owner_of api cache n \<and> owner_of api cache' = owner_of api cache"
  by (cases "cache n"; cases "resolveNamespaceScript n (api n)")
    (auto simp: namespaceScript_def owner_of_def intro!: ext)

lemma lookup_owners_owner:
  "lookup_owners api ns cache = (Inr os, cache') \<Longrightarrow> os = map (owner_of api cache) ns"
proof (induction ns arbitrary: cache os)
  case (Cons n ns)
  obtain r c1 where r: "namespaceScript api n cache = (r, c1)" by fastforce
  obtain rs c2 where rs: "lookup_owners api ns c1 = (rs, c2)" by fastforce
  from Cons.prems r rs obtain x xs where x: "r = Inr x" "rs = Inr xs" "os = x # xs"
    by (auto simp: result_simps)
  with namespaceScript_owner [of api n cache x c1] Cons.IH [of c1 xs] r rs Cons.prems show ?case
    by auto
qed simp

lemma weight_byScript:
  assumes "\<And>x y. f (fst x + fst y, snd x + snd y) = f x + f y"
  shows "s \<noteq> [] \<Longrightarrow> weight f (\<lambda>k. k = s) (byScript (map own (map fst t)) (map snd t)) = weight f (\<lambda>n. own n = Some s) t"
proof -
  assume s: "s \<noteq> []"
  have "weight f (\<lambda>k. k = s) (fold add_owned (zip (map own (map fst t)) (map snd t)) acc) =
      weight f (\<lambda>k. k = s) acc + weight f (\<lambda>n. own n = Some s) t"
    if "distinct (map fst acc)" for acc
    using that
  proof (induction t arbitrary: acc)
    case (Cons a t)
    have d: "distinct (map fst (add_owned (own (fst a), snd a) acc))"
      using Cons.prems by (simp add: add_owned_def distinct_add_rows split: option.split)
    have "weight f (\<lambda>k. k = s) (add_owned (own (fst a), snd a) acc) =
        weight f (\<lambda>k. k = s) acc + (if own (fst a) = Some s then f (snd a) else 0)"
      using s weight_add_rows [of acc f, OF Cons.prems assms]
      by (auto simp: add_owned_def split: option.split)
    with Cons.IH [OF d] show ?case by (simp add: weight_def case_prod_unfold)
  qed (simp add: weight_def)
  from this [of "[]"] show ?thesis by (simp add: byScript_def weight_def)
qed

text \<open>
  The usage reported for a script is exactly what the analytics groups count for the namespaces the
  script owns: no group is lost, counted twice or attributed to another script.
\<close>

lemma usage_of_script:
  assumes q: "queryDurableObjectRows api resp cache = (Inr usage, cache')"
    and g: "analytics_groups resp = Inr groups" and "s \<noteq> []"
  shows "(\<Sum>u \<leftarrow> usage. if scriptName u = s then rowsRead u else 0) =
           (\<Sum>g \<leftarrow> groups. if group_in (\<lambda>n. owner_of api cache n = Some s) g then fst (group_rows g) else 0) \<and>
         (\<Sum>u \<leftarrow> usage. if scriptName u = s then rowsWritten u else 0) =
           (\<Sum>g \<leftarrow> groups. if group_in (\<lambda>n. owner_of api cache n = Some s) g then snd (group_rows g) else 0)"
proof -
  let ?t = "byNamespace groups"
  obtain os where os: "lookup_owners api (map fst ?t) cache = (Inr os, cache')"
    and usage: "usage = map (\<lambda>(s, u). \<lparr>scriptName = s, rowsRead = fst u, rowsWritten = snd u\<rparr>) (byScript os (map snd ?t))"
    using q g by (auto simp: queryDurableObjectRows_def Let_def result_simps split: prod.splits)
  have w: "weight f (\<lambda>k. k = s) (byScript os (map snd ?t)) =
      (\<Sum>g \<leftarrow> groups. if group_in (\<lambda>n. owner_of api cache n = Some s) g then f (group_rows g) else 0)"
    if "\<And>x y. f (fst x + fst y, snd x + snd y) = f x + f y" "f (0, 0) = 0" for f
    using weight_byScript [of f s "owner_of api cache" ?t, OF that(1) \<open>s \<noteq> []\<close>]
      weight_byNamespace [of f, OF that] lookup_owners_owner [OF os] by simp
  have "(\<Sum>u \<leftarrow> usage. if scriptName u = s then rowsRead u else 0) = weight fst (\<lambda>k. k = s) (byScript os (map snd ?t))"
       "(\<Sum>u \<leftarrow> usage. if scriptName u = s then rowsWritten u else 0) = weight snd (\<lambda>k. k = s) (byScript os (map snd ?t))"
    by (simp_all add: usage weight_def comp_def case_prod_unfold cong: if_cong)
  then show ?thesis using w [of fst] w [of snd] by simp
qed

definition example_groups :: "usage_group list" where
  "example_groups =
     [\<lparr>namespaceId = Some ''n1'', read_sum = Some 10, written_sum = Some (3/2)\<rparr>,
      \<lparr>namespaceId = Some ''n2'', read_sum = Some 5, written_sum = None\<rparr>,
      \<lparr>namespaceId = Some ''n3'', read_sum = None, written_sum = Some 7\<rparr>,
      \<lparr>namespaceId = None, read_sum = Some 1, written_sum = Some 1\<rparr>]"

definition example_response :: graphql_response where
  "example_response =
     \<lparr>graphql_ok = True, graphql_status = 200,
      graphql_body = Some \<lparr>has_data = True, accounts = Some [example_groups], graphql_errors = None\<rparr>\<rparr>"

definition example_api :: "string \<Rightarrow> namespace_response" where
  "example_api n =
     (if n = ''n3'' then \<lparr>namespace_status = 404, namespace_body = None\<rparr>
      else \<lparr>namespace_status = 200,
            namespace_body = Some \<lparr>success = True, script = Some '' app '', namespace_errors = None\<rparr>\<rparr>)"

lemma usage_of_script_witness:
  "fst (queryDurableObjectRows example_api example_response (\<lambda>_. None)) =
     Inr [\<lparr>scriptName = ''app'', rowsRead = 15, rowsWritten = 2\<rparr>] \<and>
   (\<Sum>g \<leftarrow> example_groups.
      if group_in (\<lambda>n. owner_of example_api (\<lambda>_. None) n = Some ''app'') g then fst (group_rows g) else 0) = 15"
proof -
  let ?usage = "[\<lparr>scriptName = ''app'', rowsRead = 15, rowsWritten = 2\<rparr>]"
  have q: "fst (queryDurableObjectRows example_api example_response (\<lambda>_. None)) = Inr ?usage" by code_simp
  then obtain c where "queryDurableObjectRows example_api example_response (\<lambda>_. None) = (Inr ?usage, c)"
    by (metis prod.collapse)
  moreover have "analytics_groups example_response = Inr example_groups" by code_simp
  ultimately show ?thesis using usage_of_script [where s = "''app''"] q by fastforce
qed

end
