(* ===== verification/UsageGuard.thy ===== *)
theory UsageGuard
  imports UsageLease UsagePolicy
begin

section \<open>The app usage guard\<close>

text \<open>
  Model of \<open>src/workers/app-usage-guard/src/index.ts\<close> (the scheduled run and the suspension of an app),
  of \<open>markUsageGuardEligible\<close> in \<open>src/workers/main/src/usage-guard-state.ts\<close>, of the registry refresh of
  a deploy in \<open>src/workers/main/src/services/deploy.ts\<close> and of the dispatcher's check of the registry.
  The world is the D1 tables and the KV registry. What other workers and operators do while a function
  awaits is an argument: a function on worlds for each such moment. D1 statements do not fail in the
  model; a failing registry write and a failing quarantine are errors passed in.
\<close>

subsection \<open>State\<close>

datatype guard_status = Unmonitored | Active | Warned | Suspending | Suspended | Probation | Failed | Exempt

definition USAGE_GUARD_PROBATION_MS :: int where "USAGE_GUARD_PROBATION_MS = 60 * 60 * 1000"
definition RETENTION_MS :: int where "RETENTION_MS = 45 * 24 * 60 * 60 * 1000"
definition MAX_QUARANTINE_ATTEMPTS :: int where "MAX_QUARANTINE_ATTEMPTS = 3"
definition USAGE_GUARD_POLICY_VERSION :: string where "USAGE_GUARD_POLICY_VERSION = ''2026-07-13-v1''"

text \<open>The column \<open>decision_json\<close>: a policy decision, the record of a failed quarantine, or \<open>{}\<close>.\<close>

datatype guard_decision = Decided policy_decision | Decision_failed guard_decision string | No_decision

record guard_row =
  dispatch_script_name :: string
  org_id :: string
  workspace_id :: string
  script_name :: string
  status :: guard_status
  eligible_script_version :: "string option"
  eligible_at :: "int option"
  trace_audited_at :: "int option"
  probation_until :: "int option"
  consecutive_over_limit :: int
  reason_code :: "string option"
  decision_json :: "guard_decision option"
  artifact_cache_key :: "string option"
  suspended_at :: "int option"
  quarantine_version :: "string option"
  quarantine_attempts :: int
  next_retry_at :: "int option"
  updated_at :: int

record guard_evaluation =
  eval_app :: string
  eval_window :: usage_window
  policy_version :: string
  eval_created_at :: int

datatype event_details =
    Status_reason guard_status "string option"
  | Status_error guard_status string
  | Reason_decision string guard_decision
  | Quarantined_as string guard_decision string
  | Superseded_error string guard_decision string
  | Quarantine_failure string int int bool string
  | Candidate policy_decision

record guard_event =
  event_app :: string
  event_type :: string
  event_details :: event_details
  event_created_at :: int

text \<open>An entry \<open>script:<name>\<close> of the KV registry.\<close>

record registry_entry =
  reg_org_id :: string
  reg_org_slug :: "string option"
  reg_is_public :: bool
  usage_guard_status :: "guard_status option"
  usage_guard_eligible_version :: "string option"
  usage_guard_eligible_at :: "int option"
  usage_guard_probation_until :: "int option"
  usage_guard_reason :: "string option"

text \<open>\<open>quarantine_calls\<close> lists the scripts handed to \<open>quarantineDispatchScript\<close>.\<close>

record guard_world =
  guard_rows :: "(string \<times> guard_row) list"
  guard_leases :: leases
  guard_evaluations :: "guard_evaluation list"
  guard_events :: "guard_event list"
  registry :: "string \<Rightarrow> registry_entry option"
  quarantine_calls :: "string list"

type_synonym guard_state = "string \<times> guard_row"

datatype guard_mode = Observe | Warn_mode | Enforce

definition guardMode :: "string option \<Rightarrow> guard_mode" where
  "guardMode v =
     (let m = map_option (\<lambda>s. js_lower (js_trim s)) v
      in if m = Some ''enforce'' then Enforce else if m = Some ''warn'' then Warn_mode else Observe)"

definition isUsageGuardRecovery :: "guard_status option \<Rightarrow> bool" where
  "isUsageGuardRecovery s \<longleftrightarrow> s = Some Suspending \<or> s = Some Suspended \<or> s = Some Failed"

subsection \<open>Statements\<close>

definition appendEvent :: "string \<Rightarrow> string \<Rightarrow> event_details \<Rightarrow> int \<Rightarrow> guard_world \<Rightarrow> guard_world" where
  "appendEvent app ty details now w =
     w\<lparr>guard_events := guard_events w @ [\<lparr>event_app = app, event_type = ty, event_details = details, event_created_at = now\<rparr>]\<rparr>"

definition updateRegistry ::
    "string option \<Rightarrow> guard_state \<Rightarrow> guard_status \<Rightarrow> string option \<Rightarrow> guard_world \<Rightarrow> (string, guard_world) result" where
  "updateRegistry kv_error st new_status why w =
     (case kv_error of
        Some m \<Rightarrow> Inl m
      | None \<Rightarrow>
          let name = dispatch_script_name (snd st)
          in case registry w name of
               None \<Rightarrow> Inl (''App registry entry is missing for '' @ name)
             | Some entry \<Rightarrow>
                 Inr (w\<lparr>registry := (registry w)(name \<mapsto>
                          entry\<lparr>usage_guard_status := Some new_status, usage_guard_reason := why\<rparr>)\<rparr>))"

definition updateRegistryBestEffort ::
    "string option \<Rightarrow> guard_state \<Rightarrow> guard_status \<Rightarrow> string option \<Rightarrow> int \<Rightarrow> guard_world \<Rightarrow> guard_world" where
  "updateRegistryBestEffort kv_error st new_status why now w =
     (case updateRegistry kv_error st new_status why w of
        Inr w' \<Rightarrow> w'
      | Inl m \<Rightarrow> appendEvent (fst st) ''quarantine_registry_update_failed'' (Status_error new_status m) now w)"

definition mirrorExemptionToRegistry :: "string option \<Rightarrow> guard_state \<Rightarrow> int \<Rightarrow> guard_world \<Rightarrow> guard_world" where
  "mirrorExemptionToRegistry kv_error st now w =
     (case map_of (guard_rows w) (fst st) of
        None \<Rightarrow> w
      | Some r \<Rightarrow> if status r = Exempt
                  then updateRegistryBestEffort kv_error st Exempt (reason_code r) now w else w)"

text \<open>\<open>UPDATE ... WHERE app_id = ? AND eligible_script_version = ? AND status != 'exempt'\<close>\<close>

definition update_live :: "string \<Rightarrow> string \<Rightarrow> (guard_row \<Rightarrow> guard_row) \<Rightarrow> guard_world \<Rightarrow> bool \<times> guard_world" where
  "update_live app version f w =
     (case map_of (guard_rows w) app of
        Some r \<Rightarrow>
          if eligible_script_version r = Some version \<and> status r \<noteq> Exempt
          then (True, w\<lparr>guard_rows := update_row app f (guard_rows w)\<rparr>) else (False, w)
      | None \<Rightarrow> (False, w))"

definition setState ::
    "string \<Rightarrow> guard_status \<Rightarrow> int \<Rightarrow> string option \<Rightarrow> guard_decision option \<Rightarrow> string \<Rightarrow> int \<Rightarrow> guard_world \<Rightarrow> guard_world" where
  "setState app new_status streak why decision version now w =
     (let (changed, w') = update_live app version
            (\<lambda>r. r\<lparr>status := new_status, consecutive_over_limit := streak, reason_code := why,
                  decision_json := decision, updated_at := now\<rparr>) w
      in if changed then w'
         else appendEvent app ''state_update_skipped_stale'' (Status_reason new_status why) now w')"

subsection \<open>Eligibility of a new version\<close>

record eligible_input =
  elig_app :: string
  elig_dispatch_script_name :: string
  elig_org :: string
  elig_workspace :: string
  elig_script :: string
  elig_version :: string
  elig_cache_key :: "string option"
  elig_recovering :: bool

record eligibility =
  new_status :: guard_status
  new_probation_until :: "int option"
  new_reason :: "string option"

definition eligible_row :: "eligible_input \<Rightarrow> bool \<Rightarrow> int \<Rightarrow> guard_row" where
  "eligible_row i recovering now =
     \<lparr>dispatch_script_name = elig_dispatch_script_name i, org_id = elig_org i, workspace_id = elig_workspace i,
      script_name = elig_script i, status = (if recovering then Probation else Active),
      eligible_script_version = Some (elig_version i), eligible_at = Some now, trace_audited_at = Some now,
      probation_until = (if recovering then Some (now + USAGE_GUARD_PROBATION_MS) else None),
      consecutive_over_limit = 0, reason_code = None, decision_json = None, artifact_cache_key = elig_cache_key i,
      suspended_at = None, quarantine_version = None, quarantine_attempts = 0, next_retry_at = None, updated_at = now\<rparr>"

text \<open>\<open>ON CONFLICT(app_id) DO UPDATE\<close>: the new row, but an exemption and the cache key survive.\<close>

definition merge_eligible :: "guard_row \<Rightarrow> guard_row \<Rightarrow> guard_row" where
  "merge_eligible new old =
     new\<lparr>status := (if status old = Exempt then Exempt else status new),
         probation_until := (if status old = Exempt then None else probation_until new),
         reason_code := (if status old = Exempt then reason_code old else None),
         decision_json := (if status old = Exempt then decision_json old else None),
         artifact_cache_key := or_else (artifact_cache_key new) (artifact_cache_key old)\<rparr>"

text \<open>
  The prior status is read, the others go on (\<open>meanwhile\<close>), and the row is written. The script name is
  \<open>UNIQUE\<close> over the table.
\<close>

definition markUsageGuardEligible ::
    "eligible_input \<Rightarrow> int \<Rightarrow> (guard_world \<Rightarrow> guard_world) \<Rightarrow> guard_world \<Rightarrow> (string, eligibility) result \<times> guard_world" where
  "markUsageGuardEligible i now meanwhile w0 =
     (let prior = map_option status (map_of (guard_rows w0) (elig_app i));
          recovering = elig_recovering i \<or> isUsageGuardRecovery prior;
          w = meanwhile w0;
          new = eligible_row i recovering now
      in if list_ex (\<lambda>(k, r). k \<noteq> elig_app i \<and> dispatch_script_name r = elig_dispatch_script_name i) (guard_rows w)
         then (Inl ''UNIQUE constraint failed: app_usage_guard_state.dispatch_script_name'', w)
         else let row = (case map_of (guard_rows w) (elig_app i) of None \<Rightarrow> new | Some old \<Rightarrow> merge_eligible new old)
              in (Inr \<lparr>new_status = status row, new_probation_until = probation_until row, new_reason = reason_code row\<rparr>,
                  w\<lparr>guard_rows := upsert_row (elig_app i) new (merge_eligible new) (guard_rows w)\<rparr>))"

record deploy_info =
  deploy_input :: eligible_input
  deploy_org_slug :: "string option"
  deploy_version :: "string option"
  deploy_public :: "bool option"

text \<open>
  \<open>refreshAppRegistryAfterDeploy\<close> with a database: without a script version the guard's fields are
  carried over. An error of the database is thrown before the registry is written.
\<close>

definition refreshAppRegistryAfterDeploy ::
    "deploy_info \<Rightarrow> int \<Rightarrow> int \<Rightarrow> (guard_world \<Rightarrow> guard_world) \<Rightarrow> guard_world \<Rightarrow> (string, unit) result \<times> guard_world" where
  "refreshAppRegistryAfterDeploy d now put_now meanwhile w =
     (let i = deploy_input d;
          name = elig_dispatch_script_name i;
          existing = registry w name;
          public = or_default (case existing of None \<Rightarrow> False | Some e \<Rightarrow> reg_is_public e) (deploy_public d);
          entry = \<lparr>reg_org_id = elig_org i, reg_org_slug = deploy_org_slug d, reg_is_public = public,
                   usage_guard_status = None, usage_guard_eligible_version = None, usage_guard_eligible_at = None,
                   usage_guard_probation_until = None, usage_guard_reason = None\<rparr>
      in case deploy_version d of
           None \<Rightarrow>
             (let kept = (case existing of
                 None \<Rightarrow> entry
               | Some e \<Rightarrow> if usage_guard_status e = None then entry
                   else entry\<lparr>usage_guard_status := usage_guard_status e,
                              usage_guard_eligible_version := usage_guard_eligible_version e,
                              usage_guard_eligible_at := usage_guard_eligible_at e,
                              usage_guard_probation_until := usage_guard_probation_until e,
                              usage_guard_reason := usage_guard_reason e\<rparr>)
              in (Inr (), w\<lparr>registry := (registry w)(name \<mapsto> kept)\<rparr>))
         | Some v \<Rightarrow>
             (let recovering = isUsageGuardRecovery (case existing of None \<Rightarrow> None | Some e \<Rightarrow> usage_guard_status e);
                  (r, w1) = markUsageGuardEligible (i\<lparr>elig_app := elig_org i @ '':'' @ elig_script i, elig_version := v,
                       elig_recovering := recovering\<rparr>) now meanwhile w
              in case r of
                   Inl m \<Rightarrow> (Inl m, w1)
                 | Inr el \<Rightarrow>
                     (Inr (), w1\<lparr>registry := (registry w1)(name \<mapsto>
                        entry\<lparr>usage_guard_status := Some (new_status el), usage_guard_eligible_version := Some v,
                              usage_guard_eligible_at := Some put_now,
                              usage_guard_probation_until := new_probation_until el,
                              usage_guard_reason := new_reason el\<rparr>)\<rparr>)))"

text \<open>The dispatcher refuses a request to an app whose entry is suspended in any way, or missing.\<close>

definition dispatcher_serves :: "string \<Rightarrow> guard_world \<Rightarrow> bool" where
  "dispatcher_serves name w =
     (case registry w name of
        None \<Rightarrow> False
      | Some e \<Rightarrow> \<not> (usage_guard_status e = Some Suspending \<or> usage_guard_status e = Some Suspended \<or>
                     usage_guard_status e = Some Failed))"

subsection \<open>Suspending an app\<close>

text \<open>
  What happens around the statements of one \<open>suspendApp\<close>: what others do before the claim, before the
  last check and during the quarantine, whether the registry writes fail, and what the quarantine
  returns (the installed version) or throws.
\<close>

record suspend_env =
  operation_holder :: string
  before_claim :: "guard_world \<Rightarrow> guard_world"
  claim_kv_error :: "string option"
  before_check :: "guard_world \<Rightarrow> guard_world"
  quarantine_outcome :: "(string, string) result"
  before_finish :: "guard_world \<Rightarrow> guard_world"
  finish_kv_error :: "string option"

definition state_version :: "guard_state \<Rightarrow> string" where
  "state_version st = or_default [] (eligible_script_version (snd st))"

definition retryDelay :: "int \<Rightarrow> int" where
  "retryDelay attempt = min (30 * 60000) (60000 * 2 ^ nat (min (attempt - 1) 5))"

definition finish_suspended ::
    "suspend_env \<Rightarrow> guard_state \<Rightarrow> string \<Rightarrow> guard_decision \<Rightarrow> int \<Rightarrow> string \<Rightarrow> guard_world \<Rightarrow> guard_world" where
  "finish_suspended e st reason decision now qv w =
     (let (changed, w1) = update_live (fst st) (state_version st)
            (\<lambda>r. r\<lparr>status := Suspended, suspended_at := Some now, quarantine_version := Some qv,
                  quarantine_attempts := 0, next_retry_at := None, updated_at := now\<rparr>) w
      in if \<not> changed
         then mirrorExemptionToRegistry (finish_kv_error e) st now
                (appendEvent (fst st) ''quarantine_superseded'' (Quarantined_as reason decision qv) now w1)
         else appendEvent (fst st) ''suspended'' (Quarantined_as reason decision qv) now
                (updateRegistryBestEffort (finish_kv_error e) st Suspended (Some reason) now w1))"

definition finish_failed ::
    "suspend_env \<Rightarrow> guard_state \<Rightarrow> string \<Rightarrow> guard_decision \<Rightarrow> int \<Rightarrow> string \<Rightarrow> guard_world \<Rightarrow> guard_world" where
  "finish_failed e st reason decision now msg w =
     (let attempt = quarantine_attempts (snd st) + 1;
          retry_at = now + retryDelay attempt;
          (changed, w1) = update_live (fst st) (state_version st)
            (\<lambda>r. r\<lparr>status := Failed, reason_code := Some reason,
                  decision_json := Some (Decision_failed decision msg), quarantine_attempts := attempt,
                  next_retry_at := Some retry_at, updated_at := now\<rparr>) w
      in if \<not> changed
         then mirrorExemptionToRegistry (finish_kv_error e) st now
                (appendEvent (fst st) ''quarantine_superseded'' (Superseded_error reason decision msg) now w1)
         else appendEvent (fst st) ''quarantine_failed''
                (Quarantine_failure reason attempt retry_at (attempt \<ge> MAX_QUARANTINE_ATTEMPTS) msg) now
                (updateRegistryBestEffort (finish_kv_error e) st Failed (Some reason) now w1))"

definition still_suspending :: "guard_state \<Rightarrow> guard_world \<Rightarrow> bool" where
  "still_suspending st w =
     (case map_of (guard_rows w) (fst st) of
        None \<Rightarrow> False
      | Some r \<Rightarrow> eligible_script_version r = Some (state_version st) \<and> status r = Suspending)"

definition quarantine_claimed ::
    "suspend_env \<Rightarrow> guard_state \<Rightarrow> string \<Rightarrow> guard_decision \<Rightarrow> int \<Rightarrow> guard_world \<Rightarrow> guard_world" where
  "quarantine_claimed e st reason decision now w =
     (if \<not> still_suspending st w
      then mirrorExemptionToRegistry (finish_kv_error e) st now
             (appendEvent (fst st) ''enforcement_deferred_stale_claim'' (Reason_decision reason decision) now w)
      else let w1 = before_finish e (w\<lparr>quarantine_calls := quarantine_calls w @ [dispatch_script_name (snd st)]\<rparr>)
           in case quarantine_outcome e of
                Inr qv \<Rightarrow> finish_suspended e st reason decision now qv w1
              | Inl msg \<Rightarrow> finish_failed e st reason decision now msg w1)"

definition claim_and_quarantine ::
    "suspend_env \<Rightarrow> guard_state \<Rightarrow> string \<Rightarrow> guard_decision \<Rightarrow> int \<Rightarrow> guard_world \<Rightarrow> guard_world" where
  "claim_and_quarantine e st reason decision now w =
     (let attempt = quarantine_attempts (snd st) + 1;
          (changed, w1) = update_live (fst st) (state_version st)
            (\<lambda>r. r\<lparr>status := Suspending, consecutive_over_limit := consecutive_over_limit (snd st),
                  reason_code := Some reason, decision_json := Some decision, quarantine_attempts := attempt,
                  next_retry_at := None, updated_at := now\<rparr>) w
      in if \<not> changed
         then appendEvent (fst st) ''enforcement_deferred_stale_claim'' (Reason_decision reason decision) now w1
         else quarantine_claimed e st reason decision now
                (before_check e (updateRegistryBestEffort (claim_kv_error e) st Suspending (Some reason) now w1)))"

definition suspendApp ::
    "suspend_env \<Rightarrow> guard_state \<Rightarrow> string \<Rightarrow> guard_decision \<Rightarrow> int \<Rightarrow> guard_world \<Rightarrow> guard_world" where
  "suspendApp e st reason decision now w =
     (let (got, ls) = tryAcquireUsageGuardOperationLease (fst st) None (operation_holder e) now (guard_leases w);
          w1 = w\<lparr>guard_leases := ls\<rparr>
      in if \<not> got
         then appendEvent (fst st) ''enforcement_deferred_deploy_in_progress'' (Reason_decision reason decision) now w1
         else let w2 = claim_and_quarantine e st reason decision now (before_claim e w1)
              in w2\<lparr>guard_leases := releaseUsageGuardOperationLease (fst st) (operation_holder e) (guard_leases w2)\<rparr>)"

subsection \<open>The scheduled run\<close>

text \<open>\<open>Number.parseInt(s, 10)\<close>; NaN is \<open>None\<close>.\<close>

definition js_parse_int :: "string \<Rightarrow> int option" where
  "js_parse_int s =
     (let t = dropWhile is_js_space s;
          neg = (t \<noteq> [] \<and> hd t = CHR ''-'');
          u = (if t \<noteq> [] \<and> (hd t = CHR ''-'' \<or> hd t = CHR ''+'') then tl t else t);
          ds = takeWhile is_digit u
      in if ds = [] then None else Some (if neg then - int (parse_nat ds) else int (parse_nat ds)))"

definition lagMinutes :: "string option \<Rightarrow> int" where
  "lagMinutes v =
     (let n = js_parse_int (or_default ''5'' v) in max 1 (if n = None \<or> n = Some 0 then 5 else the n))"

definition windowEnd_at :: "int \<Rightarrow> int \<Rightarrow> int" where
  "windowEnd_at now lag = (now - lag * 60000) div 60000 * 60000"

fun minutes_of :: "window_minutes \<Rightarrow> int" where
  "minutes_of Minutes_15 = 15"
| "minutes_of Minutes_60 = 60"
| "minutes_of Minutes_1440 = 1440"

definition WINDOWS :: "window_minutes list" where
  "WINDOWS = [Minutes_15, Minutes_60, Minutes_1440]"

record guard_query =
  query_minutes :: window_minutes
  query_from :: int
  query_usage :: "script_usage list"

text \<open>\<open>new Map(entries)\<close>: the last entry of a name wins.\<close>

definition usage_for :: "guard_query \<Rightarrow> string \<Rightarrow> script_usage" where
  "usage_for q name =
     or_default \<lparr>scriptName = name, rowsRead = 0, rowsWritten = 0\<rparr>
       (map_of (rev (map (\<lambda>u. (scriptName u, u)) (query_usage q))) name)"

definition app_windows :: "guard_query list \<Rightarrow> int \<Rightarrow> guard_row \<Rightarrow> usage_window list" where
  "app_windows queries window_end r =
     map (\<lambda>q. let u = usage_for q (dispatch_script_name r)
              in \<lparr>scriptName = scriptName u, rowsRead = rowsRead u, rowsWritten = rowsWritten u,
                  windowMinutes = query_minutes q,
                  estimatedCostUsd = estimatedSqliteCostUsd (rowsRead u) (rowsWritten u),
                  runId = None, windowEnd = window_end\<rparr>)
       (filter (\<lambda>q. \<not> or_default 0 (eligible_at r) > query_from q) queries)"

text \<open>\<open>INSERT OR REPLACE\<close>: the row of the same app, window, end and policy version is replaced.\<close>

definition store_evaluation :: "string \<Rightarrow> int \<Rightarrow> usage_window \<Rightarrow> guard_evaluation list \<Rightarrow> guard_evaluation list" where
  "store_evaluation app now x evs =
     filter (\<lambda>v. \<not> (eval_app v = app \<and> windowMinutes (eval_window v) = windowMinutes x \<and>
                   windowEnd (eval_window v) = windowEnd x \<and> policy_version v = USAGE_GUARD_POLICY_VERSION)) evs
     @ [\<lparr>eval_app = app, eval_window = x, policy_version = USAGE_GUARD_POLICY_VERSION, eval_created_at = now\<rparr>]"

definition storeEvaluations :: "string \<Rightarrow> usage_window list \<Rightarrow> int \<Rightarrow> guard_world \<Rightarrow> guard_world" where
  "storeEvaluations app windows now w =
     w\<lparr>guard_evaluations :=
         fold (store_evaluation app now) (filter (\<lambda>x. rowsRead x > 0 \<or> rowsWritten x > 0) windows) (guard_evaluations w)\<rparr>"

fun mode_name :: "guard_mode \<Rightarrow> string" where
  "mode_name Observe = ''observe''"
| "mode_name Warn_mode = ''warn''"
| "mode_name Enforce = ''enforce''"

text \<open>
  One app in the evaluation loop; \<open>meanwhile\<close> is what the others do after its row was read and before
  its state is written.
\<close>

definition evaluate_app ::
    "suspend_env \<Rightarrow> (guard_world \<Rightarrow> guard_world) \<Rightarrow> guard_mode \<Rightarrow> guard_query list \<Rightarrow> int \<Rightarrow> int \<Rightarrow> guard_state \<Rightarrow> guard_world \<Rightarrow> guard_world" where
  "evaluate_app e meanwhile mode queries window_end now st w0 =
     (let app = fst st; r = snd st; version = state_version st in
      if status r = Suspended \<or> status r = Suspending \<or> status r = Failed then w0
      else
        let windows = app_windows queries window_end r;
            w = meanwhile (storeEvaluations app windows now w0);
            decision = evaluateUsage windows;
            probation = (status r = Probation \<and> or_default 0 (probation_until r) > now)
        in case decision of
             No_action \<Rightarrow>
               if consecutive_over_limit r > 0 \<or> (status r = Probation \<and> \<not> probation) \<or> status r = Warned
               then setState app (if probation then Probation else Active) 0 None None version now w
               else w
           | Warn reason x \<Rightarrow>
               let w1 = appendEvent app (mode_name mode @ ''_warn_candidate'') (Candidate decision) now w
               in if mode = Observe then w1
                  else setState app (if probation then Probation else Warned) 0 (Some reason) (Some (Decided decision)) version now w1
           | Suspend cat reason x \<Rightarrow>
               let w1 = appendEvent app (mode_name mode @ ''_suspend_candidate'') (Candidate decision) now w;
                   nextStreak = consecutive_over_limit r + 1
               in if mode = Observe then w1
                  else if \<not> (mode = Enforce \<and> (cat \<or> probation \<or> nextStreak \<ge> 2))
                  then setState app (if probation then Probation else Warned) nextStreak (Some reason) (Some (Decided decision)) version now w1
                  else suspendApp e (app, r\<lparr>consecutive_over_limit := nextStreak\<rparr>) reason (Decided decision) now w1)"

text \<open>One app in the retry loop of an enforcing run.\<close>

definition retry_app :: "suspend_env \<Rightarrow> guard_mode \<Rightarrow> int \<Rightarrow> guard_state \<Rightarrow> guard_world \<Rightarrow> guard_world" where
  "retry_app e mode now st w =
     (let r = snd st in
      if mode = Enforce \<and> (status r = Suspending \<or> status r = Failed) \<and> or_default 0 (next_retry_at r) \<le> now
      then suspendApp e st (or_default ''quarantine_retry'' (reason_code r))
             (or_default No_decision (decision_json r)) now w
      else w)"

record guard_env =
  run_holder :: string
  env_mode :: "string option"
  env_lag :: "string option"
  retry_env_of :: "string \<Rightarrow> suspend_env"
  suspend_env_of :: "string \<Rightarrow> suspend_env"
  meanwhile_of :: "string \<Rightarrow> guard_world \<Rightarrow> guard_world"
  analytics :: "window_minutes \<Rightarrow> (string, script_usage list) result"

definition guard_queries :: "guard_env \<Rightarrow> int \<Rightarrow> (string, guard_query list) result" where
  "guard_queries g window_end =
     map_result (\<lambda>m. bind_result (analytics g m) (\<lambda>us.
        Inr \<lparr>query_minutes = m, query_from = window_end - minutes_of m * 60000, query_usage = us\<rparr>)) WINDOWS"

definition guarded_states :: "guard_world \<Rightarrow> guard_state list" where
  "guarded_states w =
     filter (\<lambda>(app, r). eligible_script_version r \<noteq> None \<and> status r \<noteq> Exempt) (guard_rows w)"

definition run_states :: "guard_env \<Rightarrow> int \<Rightarrow> guard_world \<Rightarrow> (string, unit) result \<times> guard_world" where
  "run_states g now w =
     (let states = guarded_states w;
          mode = guardMode (env_mode g);
          w1 = fold (\<lambda>st. retry_app (retry_env_of g (fst st)) mode now st) states w;
          window_end = windowEnd_at now (lagMinutes (env_lag g))
      in case guard_queries g window_end of
           Inl m \<Rightarrow> (Inl m, w1)
         | Inr queries \<Rightarrow>
             (Inr (), fold (\<lambda>st. evaluate_app (suspend_env_of g (fst st)) (meanwhile_of g (fst st)) mode queries window_end now st)
                        states w1))"

definition runUsageGuard :: "guard_env \<Rightarrow> int \<Rightarrow> guard_world \<Rightarrow> (string, unit) result \<times> guard_world" where
  "runUsageGuard g now w =
     (let (got, ls) = acquireLease (run_holder g) now (guard_leases w);
          w1 = w\<lparr>guard_leases := ls\<rparr>
      in if \<not> got then (Inr (), w1)
         else let w2 = w1\<lparr>guard_evaluations := filter (\<lambda>v. \<not> eval_created_at v < now - RETENTION_MS) (guard_evaluations w1),
                          guard_events := filter (\<lambda>v. \<not> event_created_at v < now - RETENTION_MS) (guard_events w1)\<rparr>;
                  (r, w3) = run_states g now w2
              in (r, w3\<lparr>guard_leases := releaseLease (run_holder g) (guard_leases w3)\<rparr>))"

end
