(* ===== verification/UsageGuardSafety.thy ===== *)
theory UsageGuardSafety
  imports UsageGuard
begin

section \<open>Safety of the app usage guard\<close>

text \<open>
  Properties of the model in \<open>UsageGuard\<close>: an operator's exemption is never overwritten, also when it
  comes while an app is being suspended; a deploy restores service; an app is suspended only in
  enforcing mode, and outside probation only after two runs or a catastrophe.
\<close>

subsection \<open>Exemptions\<close>

definition exempt_as :: "string \<Rightarrow> string option \<Rightarrow> guard_decision option \<Rightarrow> guard_world \<Rightarrow> bool" where
  "exempt_as app why dec w =
     (case map_of (guard_rows w) app of
        None \<Rightarrow> False
      | Some r \<Rightarrow> status r = Exempt \<and> reason_code r = why \<and> decision_json r = dec)"

definition keeps_exemption :: "(guard_world \<Rightarrow> guard_world) \<Rightarrow> bool" where
  "keeps_exemption f \<longleftrightarrow> (\<forall>app why dec w. exempt_as app why dec w \<longrightarrow> exempt_as app why dec (f w))"

lemma keeps_exemptionD: "keeps_exemption f \<Longrightarrow> exempt_as app why dec w \<Longrightarrow> exempt_as app why dec (f w)"
  by (simp add: keeps_exemption_def)

lemma keeps_id [simp]: "keeps_exemption (\<lambda>w. w)" "keeps_exemption id"
  by (simp_all add: keeps_exemption_def)

lemma guard_rows_frame [simp]:
  "guard_rows (appendEvent a ty d now w) = guard_rows w"
  "guard_rows (updateRegistryBestEffort err st s why now w) = guard_rows w"
  "guard_rows (mirrorExemptionToRegistry err st now w) = guard_rows w"
  "guard_rows (storeEvaluations a xs now w) = guard_rows w"
proof -
  show "guard_rows (appendEvent a ty d now w) = guard_rows w" for a ty d now w
    by (simp add: appendEvent_def)
  then show r: "guard_rows (updateRegistryBestEffort err st s why now w) = guard_rows w" for s why
    by (auto simp: updateRegistryBestEffort_def updateRegistry_def Let_def split: option.split sum.split)
  then show "guard_rows (mirrorExemptionToRegistry err st now w) = guard_rows w"
    by (simp add: mirrorExemptionToRegistry_def split: option.split)
qed (simp add: storeEvaluations_def)

lemma exempt_as_rows: "guard_rows w' = guard_rows w \<Longrightarrow> exempt_as app why dec w' = exempt_as app why dec w"
  by (simp add: exempt_as_def)

lemma exempt_as_frame [simp]:
  "exempt_as app why dec (appendEvent a ty d now w) = exempt_as app why dec w"
  "exempt_as app why dec (updateRegistryBestEffort err st s y now w) = exempt_as app why dec w"
  "exempt_as app why dec (mirrorExemptionToRegistry err st now w) = exempt_as app why dec w"
  "exempt_as app why dec (storeEvaluations a xs now w) = exempt_as app why dec w"
  "exempt_as app why dec (w\<lparr>quarantine_calls := qs\<rparr>) = exempt_as app why dec w"
  "exempt_as app why dec (w\<lparr>guard_leases := ls\<rparr>) = exempt_as app why dec w"
  "exempt_as app why dec (w\<lparr>registry := g\<rparr>) = exempt_as app why dec w"
  "exempt_as app why dec (w\<lparr>guard_evaluations := vs, guard_events := es\<rparr>) = exempt_as app why dec w"
  by (rule exempt_as_rows, simp)+

lemma exempt_as_update_live:
  "exempt_as app why dec w \<Longrightarrow> exempt_as app why dec (snd (update_live a v f w))"
  by (auto simp: exempt_as_def update_live_def split: option.splits if_splits)

lemma update_live_exempt: "exempt_as a why dec w \<Longrightarrow> update_live a v f w = (False, w)"
  by (auto simp: exempt_as_def update_live_def split: option.splits)

lemma exempt_as_setState:
  "exempt_as app why dec w \<Longrightarrow> exempt_as app why dec (setState a s n y d v now w)"
  using exempt_as_update_live [of app why dec w a v]
  by (auto simp: setState_def case_prod_unfold Let_def)

lemma exempt_as_finish:
  "exempt_as app why dec w \<Longrightarrow> exempt_as app why dec (finish_suspended e st reason d now qv w)"
  "exempt_as app why dec w \<Longrightarrow> exempt_as app why dec (finish_failed e st reason d now m w)"
  using exempt_as_update_live [of app why dec w "fst st" "state_version st"]
  by (simp_all add: finish_suspended_def finish_failed_def case_prod_unfold Let_def)

lemma exempt_as_quarantine_claimed:
  "keeps_exemption (before_finish e) \<Longrightarrow> exempt_as app why dec w \<Longrightarrow>
   exempt_as app why dec (quarantine_claimed e st reason d now w)"
  by (simp add: quarantine_claimed_def Let_def exempt_as_finish keeps_exemptionD split: sum.split)

lemma exempt_as_claim:
  "keeps_exemption (before_check e) \<Longrightarrow> keeps_exemption (before_finish e) \<Longrightarrow> exempt_as app why dec w \<Longrightarrow>
   exempt_as app why dec (claim_and_quarantine e st reason d now w)"
  using exempt_as_update_live [of app why dec w "fst st" "state_version st"]
  by (simp add: claim_and_quarantine_def case_prod_unfold Let_def exempt_as_quarantine_claimed keeps_exemptionD)

definition quiet_env :: "suspend_env \<Rightarrow> bool" where
  "quiet_env e \<longleftrightarrow> keeps_exemption (before_claim e) \<and> keeps_exemption (before_check e) \<and> keeps_exemption (before_finish e)"

lemma exempt_as_suspendApp:
  "quiet_env e \<Longrightarrow> exempt_as app why dec w \<Longrightarrow> exempt_as app why dec (suspendApp e st reason d now w)"
  by (simp add: suspendApp_def case_prod_unfold Let_def quiet_env_def exempt_as_claim keeps_exemptionD)

lemma exempt_as_retry_app:
  "quiet_env e \<Longrightarrow> exempt_as app why dec w \<Longrightarrow> exempt_as app why dec (retry_app e mode now st w)"
  by (simp add: retry_app_def Let_def exempt_as_suspendApp)

lemma exempt_as_evaluate_app:
  "quiet_env e \<Longrightarrow> keeps_exemption f \<Longrightarrow> exempt_as app why dec w \<Longrightarrow>
   exempt_as app why dec (evaluate_app e f mode qs we now st w)"
  by (simp add: evaluate_app_def Let_def exempt_as_suspendApp exempt_as_setState keeps_exemptionD
      split: policy_decision.split)

lemma exempt_as_fold:
  "(\<And>x w. exempt_as app why dec w \<Longrightarrow> exempt_as app why dec (f x w)) \<Longrightarrow> exempt_as app why dec w \<Longrightarrow>
   exempt_as app why dec (fold f xs w)"
  by (induction xs arbitrary: w) auto

definition quiet_run :: "guard_env \<Rightarrow> bool" where
  "quiet_run g \<longleftrightarrow> (\<forall>a. quiet_env (retry_env_of g a) \<and> quiet_env (suspend_env_of g a) \<and> keeps_exemption (meanwhile_of g a))"

lemma exempt_as_runUsageGuard:
  assumes "quiet_run g" and "exempt_as app why dec w"
  shows "exempt_as app why dec (snd (runUsageGuard g now w))"
proof -
  have states: "exempt_as app why dec (snd (run_states g now v))" if "exempt_as app why dec v" for v
    using assms(1) that
    by (auto simp: run_states_def Let_def quiet_run_def split: sum.split
        intro!: exempt_as_fold exempt_as_retry_app exempt_as_evaluate_app)
  show ?thesis using assms(2) by (simp add: runUsageGuard_def case_prod_unfold Let_def states)
qed

lemma exempt_as_mark:
  assumes "keeps_exemption f" and "exempt_as app why dec w"
  shows "exempt_as app why dec (snd (markUsageGuardEligible i now f w))"
proof -
  have "exempt_as app why dec (f w)" using assms by (rule keeps_exemptionD)
  then show ?thesis
    by (auto simp: markUsageGuardEligible_def Let_def exempt_as_def merge_eligible_def split: option.splits)
qed

lemma exempt_as_refresh:
  assumes "keeps_exemption f" and "exempt_as app why dec w"
  shows "exempt_as app why dec (snd (refreshAppRegistryAfterDeploy d now put_now f w))"
proof (cases "deploy_version d")
  case None
  then show ?thesis using assms(2) by (simp add: refreshAppRegistryAfterDeploy_def Let_def)
next
  case (Some v)
  then show ?thesis using exempt_as_mark [OF assms]
    by (simp add: refreshAppRegistryAfterDeploy_def Let_def case_prod_unfold split: sum.split)
qed

datatype guard_action =
    Guard_run guard_env int
  | Deploy deploy_info int int "guard_world \<Rightarrow> guard_world"

fun act :: "guard_action \<Rightarrow> guard_world \<Rightarrow> guard_world" where
  "act (Guard_run g now) w = snd (runUsageGuard g now w)"
| "act (Deploy d now put_now meanwhile) w = snd (refreshAppRegistryAfterDeploy d now put_now meanwhile w)"

fun respects_exemptions :: "guard_action \<Rightarrow> bool" where
  "respects_exemptions (Guard_run g now) = quiet_run g"
| "respects_exemptions (Deploy d now put_now meanwhile) = keeps_exemption meanwhile"

text \<open>
  C28: An operator's exemption survives every sequence of guard runs and deploys, with its reason and
  decision, as long as what runs in between does not lift it.
\<close>

theorem exemption_survives:
  assumes "\<forall>a \<in> set actions. respects_exemptions a" and "exempt_as app why dec w"
  shows "exempt_as app why dec (fold act actions w)"
  using assms
proof (induction actions arbitrary: w)
  case (Cons a actions)
  have "exempt_as app why dec (act a w)"
    using Cons.prems by (cases a) (auto simp: exempt_as_runUsageGuard exempt_as_refresh)
  then show ?case using Cons by simp
qed simp

subsection \<open>An exemption during the suspension\<close>

text \<open>The operator's statement.\<close>

definition exempt_app :: "string \<Rightarrow> string option \<Rightarrow> guard_world \<Rightarrow> guard_world" where
  "exempt_app app why w =
     w\<lparr>guard_rows := update_row app (\<lambda>r. r\<lparr>status := Exempt, reason_code := why\<rparr>) (guard_rows w)\<rparr>"

definition shows_exempt :: "string \<Rightarrow> string option \<Rightarrow> guard_world \<Rightarrow> bool" where
  "shows_exempt name why w =
     (case registry w name of None \<Rightarrow> False
      | Some e \<Rightarrow> usage_guard_status e = Some Exempt \<and> usage_guard_reason e = why)"

lemma quarantine_calls_frame [simp]:
  "quarantine_calls (appendEvent a ty d now w) = quarantine_calls w"
  "quarantine_calls (updateRegistryBestEffort err st s why now w) = quarantine_calls w"
  "quarantine_calls (mirrorExemptionToRegistry err st now w) = quarantine_calls w"
proof -
  show "quarantine_calls (appendEvent a ty d now w) = quarantine_calls w" for a ty d now w
    by (simp add: appendEvent_def)
  then show r: "quarantine_calls (updateRegistryBestEffort err st s why now w) = quarantine_calls w" for s why
    by (auto simp: updateRegistryBestEffort_def updateRegistry_def Let_def split: option.split sum.split)
  then show "quarantine_calls (mirrorExemptionToRegistry err st now w) = quarantine_calls w"
    by (simp add: mirrorExemptionToRegistry_def split: option.split)
qed

lemma mirror_shows_exempt:
  "exempt_as (fst st) why dec w \<Longrightarrow> registry w (dispatch_script_name (snd st)) = Some entry \<Longrightarrow>
   shows_exempt (dispatch_script_name (snd st)) why (mirrorExemptionToRegistry None st now w)"
  by (auto simp: mirrorExemptionToRegistry_def exempt_as_def updateRegistryBestEffort_def updateRegistry_def
      shows_exempt_def Let_def split: option.splits)

lemma registry_appendEvent [simp]: "registry (appendEvent a ty d now w) = registry w"
  by (simp add: appendEvent_def)

lemma registry_update_live [simp]: "registry (snd (update_live a v f w)) = registry w"
  by (simp add: update_live_def split: option.split)

lemma finish_mirrors:
  assumes ex: "exempt_as (fst st) why dec w" and kv: "finish_kv_error e = None"
    and reg: "registry w (dispatch_script_name (snd st)) = Some entry"
  shows "shows_exempt (dispatch_script_name (snd st)) why (finish_suspended e st reason d now qv w)"
    and "shows_exempt (dispatch_script_name (snd st)) why (finish_failed e st reason d now m w)"
  using mirror_shows_exempt [of st why dec _ entry] ex reg
  by (simp_all add: finish_suspended_def finish_failed_def update_live_exempt [OF ex] Let_def kv)

lemma quarantine_claimed_stopped:
  assumes ex: "exempt_as (fst st) why dec w" and kv: "finish_kv_error e = None"
    and reg: "registry w (dispatch_script_name (snd st)) = Some entry"
  shows "shows_exempt (dispatch_script_name (snd st)) why (quarantine_claimed e st reason d now w)"
    and "quarantine_calls (quarantine_claimed e st reason d now w) = quarantine_calls w"
proof -
  have "\<not> still_suspending st w" using ex by (auto simp: exempt_as_def still_suspending_def split: option.splits)
  then show "shows_exempt (dispatch_script_name (snd st)) why (quarantine_claimed e st reason d now w)"
    and "quarantine_calls (quarantine_claimed e st reason d now w) = quarantine_calls w"
    using mirror_shows_exempt [of st why dec "appendEvent (fst st) ''enforcement_deferred_stale_claim'' (Reason_decision reason d) now w" entry]
      ex reg by (simp_all add: quarantine_claimed_def kv)
qed

lemma exempt_app_exempts:
  "map_of (guard_rows w) app = Some r \<Longrightarrow> exempt_as app why (decision_json r) (exempt_app app why w)"
  by (simp add: exempt_as_def exempt_app_def)

lemma registry_best_effort:
  "registry w name = Some entry \<Longrightarrow> \<exists>entry'. registry (updateRegistryBestEffort err st s why now w) name = Some entry'"
  by (auto simp: updateRegistryBestEffort_def updateRegistry_def Let_def split: option.split)

lemma exempted_before_check:
  fixes why and now and d and reason
  assumes row: "map_of (guard_rows w) (fst st) = Some r" and reg: "registry w (dispatch_script_name (snd st)) = Some entry"
    and kv: "finish_kv_error e = None"
  defines "w' \<equiv> quarantine_claimed e st reason d now (exempt_app (fst st) why w)"
  shows "shows_exempt (dispatch_script_name (snd st)) why w' \<and> quarantine_calls w' = quarantine_calls w \<and>
         (\<exists>dec. exempt_as (fst st) why dec w')"
proof -
  have ex: "exempt_as (fst st) why (decision_json r) (exempt_app (fst st) why w)"
    using row by (rule exempt_app_exempts)
  have reg': "registry (exempt_app (fst st) why w) (dispatch_script_name (snd st)) = Some entry"
    using reg by (simp add: exempt_app_def)
  have "exempt_as (fst st) why (decision_json r) w'"
    using ex by (auto simp: w'_def quarantine_claimed_def exempt_as_def still_suspending_def split: option.splits)
  with quarantine_claimed_stopped [OF ex kv reg', of reason d now] show ?thesis
    by (auto simp: w'_def exempt_app_def)
qed

lemma exempted_during_quarantine:
  fixes why and now and d and reason
  assumes live: "still_suspending st w" and reg: "registry w (dispatch_script_name (snd st)) = Some entry"
    and kv: "finish_kv_error e = None" and f: "before_finish e = exempt_app (fst st) why"
  defines "w' \<equiv> quarantine_claimed e st reason d now w"
  shows "shows_exempt (dispatch_script_name (snd st)) why w' \<and> (\<exists>dec. exempt_as (fst st) why dec w')"
proof -
  let ?w = "exempt_app (fst st) why (w\<lparr>quarantine_calls := quarantine_calls w @ [dispatch_script_name (snd st)]\<rparr>)"
  obtain r where "map_of (guard_rows w) (fst st) = Some r"
    using live by (auto simp: still_suspending_def split: option.splits)
  then have ex: "exempt_as (fst st) why (decision_json r) ?w" by (intro exempt_app_exempts) simp
  have reg': "registry ?w (dispatch_script_name (snd st)) = Some entry" using reg by (simp add: exempt_app_def)
  have w': "w' = (case quarantine_outcome e of
      Inr qv \<Rightarrow> finish_suspended e st reason d now qv ?w | Inl m \<Rightarrow> finish_failed e st reason d now m ?w)"
    using live f by (simp add: w'_def quarantine_claimed_def Let_def split: sum.split)
  show ?thesis
    using finish_mirrors [OF ex kv reg'] exempt_as_finish [OF ex, of e st]
    by (cases "quarantine_outcome e") (simp add: w', blast)+
qed

text \<open>The claim of a suspension on a live row: what \<open>quarantine_claimed\<close> starts from.\<close>

lemma claimed_world:
  assumes row: "map_of (guard_rows w) (fst st) = Some r" "eligible_script_version r = Some (state_version st)"
      "status r \<noteq> Exempt"
    and reg: "registry w (dispatch_script_name (snd st)) = Some entry"
  obtains w2 entry' where "claim_and_quarantine e st reason d now w = quarantine_claimed e st reason d now (before_check e w2)"
    and "still_suspending st w2" and "registry w2 (dispatch_script_name (snd st)) = Some entry'"
    and "quarantine_calls w2 = quarantine_calls w"
proof -
  let ?f = "\<lambda>r. r\<lparr>status := Suspending, consecutive_over_limit := consecutive_over_limit (snd st),
              reason_code := Some reason, decision_json := Some d,
              quarantine_attempts := quarantine_attempts (snd st) + 1, next_retry_at := None, updated_at := now\<rparr>"
  let ?w1 = "w\<lparr>guard_rows := update_row (fst st) ?f (guard_rows w)\<rparr>"
  let ?w2 = "updateRegistryBestEffort (claim_kv_error e) st Suspending (Some reason) now ?w1"
  have u: "update_live (fst st) (state_version st) ?f w = (True, ?w1)" using row by (simp add: update_live_def)
  obtain entry' where "registry ?w2 (dispatch_script_name (snd st)) = Some entry'"
    using registry_best_effort [of ?w1 "dispatch_script_name (snd st)" entry "claim_kv_error e" st Suspending "Some reason" now] reg
    by (simp, blast)
  moreover have "still_suspending st ?w2" using row by (simp add: still_suspending_def)
  moreover have "claim_and_quarantine e st reason d now w = quarantine_claimed e st reason d now (before_check e ?w2)"
    unfolding claim_and_quarantine_def Let_def u by simp
  ultimately show ?thesis using that [of ?w2] by simp
qed

text \<open>
  When an operator exempts an app after its suspension has been claimed, the exemption wins: the row
  stays exempt, the registry says so again, and before the last check the live script is not touched.
\<close>

theorem exemption_wins_race:
  assumes row: "map_of (guard_rows w) app = Some r" "eligible_script_version r = Some v" "status r \<noteq> Exempt"
    and st: "eligible_script_version snapshot = Some v" "registry w (dispatch_script_name snapshot) = Some entry"
    and lease: "fst (tryAcquireUsageGuardOperationLease app None (operation_holder e) now (guard_leases w))"
    and env: "before_claim e = (\<lambda>w. w)" "finish_kv_error e = None"
    and race: "before_check e = exempt_app app why \<or>
               (before_check e = (\<lambda>w. w) \<and> before_finish e = exempt_app app why)"
  shows "let w' = suspendApp e (app, snapshot) reason d now w in
           (\<exists>dec. exempt_as app why dec w') \<and> shows_exempt (dispatch_script_name snapshot) why w' \<and>
           (before_check e = (\<lambda>w. w) \<or> quarantine_calls w' = quarantine_calls w)"
proof -
  define st where "st = (app, snapshot)"
  let ?l = "tryAcquireUsageGuardOperationLease app None (operation_holder e) now (guard_leases w)"
  let ?w1 = "w\<lparr>guard_leases := snd ?l\<rparr>"
  have "map_of (guard_rows ?w1) (fst st) = Some r" "eligible_script_version r = Some (state_version st)"
    "registry ?w1 (dispatch_script_name (snd st)) = Some entry"
    using row st by (simp_all add: st_def state_version_def)
  from claimed_world [OF this(1,2) row(3) this(3), of e reason d now] obtain w2 entry' where
    q: "claim_and_quarantine e st reason d now ?w1 = quarantine_claimed e st reason d now (before_check e w2)"
    "still_suspending st w2" "registry w2 (dispatch_script_name (snd st)) = Some entry'"
    "quarantine_calls w2 = quarantine_calls ?w1" by blast
  define w3 where "w3 = quarantine_claimed e st reason d now (before_check e w2)"
  have s: "suspendApp e st reason d now w =
      w3\<lparr>guard_leases := releaseUsageGuardOperationLease app (operation_holder e) (guard_leases w3)\<rparr>"
    using lease by (simp add: suspendApp_def st_def case_prod_unfold Let_def env w3_def q(1) [unfolded st_def])
  obtain r2 where r2: "map_of (guard_rows w2) (fst st) = Some r2"
    using q(2) by (auto simp: still_suspending_def split: option.splits)
  have "(\<exists>dec. exempt_as app why dec w3) \<and> shows_exempt (dispatch_script_name snapshot) why w3 \<and>
        (before_check e = (\<lambda>w. w) \<or> quarantine_calls w3 = quarantine_calls w)"
    using race
  proof
    assume "before_check e = exempt_app app why"
    then show ?thesis
      using exempted_before_check [OF r2 q(3) env(2), where reason = reason and d = d and now = now and why = why] q(4) by (simp add: w3_def st_def)
  next
    assume "before_check e = (\<lambda>w. w) \<and> before_finish e = exempt_app app why"
    then show ?thesis
      using exempted_during_quarantine [OF q(2,3) env(2), where reason = reason and d = d and now = now and why = why] by (simp add: w3_def st_def)
  qed
  then show ?thesis unfolding Let_def by (simp add: s [unfolded st_def] shows_exempt_def)
qed

subsection \<open>A deploy restores service\<close>

text \<open>
  After a deploy of a new version that does not fail the dispatcher serves the app again, and the
  app's row is active, on probation or exempt, with its counters and its quarantine cleared.
\<close>

theorem deploy_restores_service:
  assumes "refreshAppRegistryAfterDeploy d now put_now meanwhile w = (Inr (), w')"
    and "deploy_version d = Some v"
  shows "dispatcher_serves (elig_dispatch_script_name (deploy_input d)) w' \<and>
    (case map_of (guard_rows w') (elig_org (deploy_input d) @ '':'' @ elig_script (deploy_input d)) of
       None \<Rightarrow> False
     | Some r \<Rightarrow> status r \<in> {Active, Probation, Exempt} \<and> eligible_script_version r = Some v \<and>
         consecutive_over_limit r = 0 \<and> quarantine_attempts r = 0 \<and> next_retry_at r = None \<and>
         (status r = Probation \<longleftrightarrow> probation_until r = Some (now + USAGE_GUARD_PROBATION_MS)))"
  using assms
  by (auto simp: refreshAppRegistryAfterDeploy_def markUsageGuardEligible_def Let_def dispatcher_serves_def
      eligible_row_def merge_eligible_def split: if_splits option.splits)

subsection \<open>When an app is suspended\<close>

definition untouched :: "guard_world \<Rightarrow> guard_world \<Rightarrow> bool" where
  "untouched w w' \<longleftrightarrow> registry w' = registry w \<and> quarantine_calls w' = quarantine_calls w"

lemma untouched_frame [simp]:
  "untouched w (appendEvent a ty d now w') = untouched w w'"
  "untouched w (w'\<lparr>guard_leases := ls\<rparr>) = untouched w w'"
  "untouched w (w'\<lparr>guard_evaluations := vs, guard_events := es\<rparr>) = untouched w w'"
  "untouched w (storeEvaluations a xs now w') = untouched w w'"
  "untouched w w"
  by (simp_all add: untouched_def storeEvaluations_def)

lemma untouched_update_live: "untouched w w' \<Longrightarrow> untouched w (snd (update_live a v f w'))"
  by (auto simp: untouched_def update_live_def split: option.split)

lemma untouched_setState: "untouched w w' \<Longrightarrow> untouched w (setState a s n y d v now w')"
  using untouched_update_live [of w w' a v]
  by (auto simp: setState_def case_prod_unfold Let_def)

lemma untouched_trans: "untouched w w' \<Longrightarrow> untouched w' w'' \<Longrightarrow> untouched w w''"
  by (simp add: untouched_def)

lemma untouched_evaluate_app:
  assumes "mode \<noteq> Enforce" and f: "\<And>w. untouched w (f w)" and w: "untouched w w'"
  shows "untouched w (evaluate_app e f mode qs we now st w')"
proof -
  have "untouched w (f (storeEvaluations a xs now w'))" for a xs
    using w f [of "storeEvaluations a xs now w'"] untouched_trans by (metis untouched_frame(4))
  then show ?thesis using assms(1) w
    by (simp add: evaluate_app_def Let_def untouched_setState split: policy_decision.split)
qed

lemma untouched_fold:
  "(\<And>x w'. untouched w w' \<Longrightarrow> untouched w (f x w')) \<Longrightarrow> untouched w w' \<Longrightarrow> untouched w (fold f xs w')"
  by (induction xs arbitrary: w') auto

text \<open>
  A run of the guard that is not in enforcing mode touches no live script and no entry of the
  registry: the dispatcher serves what it served before.
\<close>

theorem only_enforcing_suspends:
  assumes "guardMode (env_mode g) \<noteq> Enforce" and "\<forall>a w. untouched w (meanwhile_of g a w)"
  shows "untouched w (snd (runUsageGuard g now w))"
proof -
  have id: "fold (\<lambda>st. retry_app (h st) (guardMode (env_mode g)) now st) sts v = v" for h sts v
    using assms(1) by (induction sts arbitrary: v) (auto simp: retry_app_def Let_def)
  have "untouched w (snd (run_states g now v))" if "untouched w v" for v
    using assms that
    by (auto simp: run_states_def Let_def id split: sum.split intro!: untouched_fold untouched_evaluate_app)
  then show ?thesis by (simp add: runUsageGuard_def case_prod_unfold Let_def)
qed

definition idle_env :: "suspend_env \<Rightarrow> bool" where
  "idle_env e \<longleftrightarrow> before_claim e = (\<lambda>w. w) \<and> before_check e = (\<lambda>w. w) \<and> before_finish e = (\<lambda>w. w) \<and>
     claim_kv_error e = None \<and> finish_kv_error e = None"

definition row_of :: "string \<Rightarrow> guard_world \<Rightarrow> guard_row" where
  "row_of app w = the (map_of (guard_rows w) app)"

lemma first_strike:
  fixes now and e
  assumes "map_of (guard_rows w) app = Some r" "eligible_script_version r = Some v"
    "status r = Active \<or> status r = Warned" "consecutive_over_limit r = 0"
    and "evaluateUsage (app_windows qs we r) = Suspend False reason x"
  defines "w' \<equiv> evaluate_app e (\<lambda>w. w) Enforce qs we now (app, r) w"
  shows "map_of (guard_rows w') app = Some (r\<lparr>status := Warned, consecutive_over_limit := 1, reason_code := Some reason,
           decision_json := Some (Decided (Suspend False reason x)), updated_at := now\<rparr>)"
    and "registry w' = registry w" and "guard_leases w' = guard_leases w" and "quarantine_calls w' = quarantine_calls w"
proof -
  have s: "w' = setState app Warned 1 (Some reason) (Some (Decided (Suspend False reason x))) v now
      (appendEvent app ''enforce_suspend_candidate'' (Candidate (Suspend False reason x)) now
        (storeEvaluations app (app_windows qs we r) now w))"
    using assms(2-5) by (auto simp: w'_def evaluate_app_def Let_def state_version_def)
  show "map_of (guard_rows w') app = Some (r\<lparr>status := Warned, consecutive_over_limit := 1, reason_code := Some reason,
           decision_json := Some (Decided (Suspend False reason x)), updated_at := now\<rparr>)"
    and "registry w' = registry w" and "guard_leases w' = guard_leases w" and "quarantine_calls w' = quarantine_calls w"
    using assms(1-3) by (auto simp: s setState_def update_live_def storeEvaluations_def appendEvent_def)
qed

lemma idle_suspension:
  fixes reason and d
  assumes idle: "idle_env e" and q: "quarantine_outcome e = Inr qv"
    and row: "map_of (guard_rows w) app = Some r" "eligible_script_version r = Some v" "status r \<noteq> Exempt"
    and st: "eligible_script_version s = Some v" "registry w (dispatch_script_name s) = Some entry"
    and lease: "fst (tryAcquireUsageGuardOperationLease app None (operation_holder e) now (guard_leases w))"
  defines "w' \<equiv> suspendApp e (app, s) reason d now w"
  shows "status (row_of app w') = Suspended \<and> \<not> dispatcher_serves (dispatch_script_name s) w' \<and>
         quarantine_calls w' = quarantine_calls w @ [dispatch_script_name s]"
  using assms
  by (simp add: w'_def suspendApp_def case_prod_unfold Let_def idle_env_def claim_and_quarantine_def update_live_def
      quarantine_claimed_def still_suspending_def state_version_def finish_suspended_def row_of_def
      updateRegistryBestEffort_def updateRegistry_def dispatcher_serves_def appendEvent_def)

text \<open>
  Outside probation sustained usage over the limit costs an app two runs: the first one warns and
  leaves it in service, the next one suspends it.
\<close>

theorem two_strikes:
  assumes row: "map_of (guard_rows w) app = Some r" "eligible_script_version r = Some v"
      "status r = Active \<or> status r = Warned" "consecutive_over_limit r = 0"
    and first: "evaluateUsage (app_windows qs1 we1 r) = Suspend False reason1 x1"
    and second: "evaluateUsage (app_windows qs2 we2 r) = Suspend False reason2 x2"
    and env: "idle_env e" "quarantine_outcome e = Inr qv" "registry w (dispatch_script_name r) = Some entry"
      "fst (tryAcquireUsageGuardOperationLease app None (operation_holder e) now2 (guard_leases w))"
  shows "let w1 = evaluate_app e (\<lambda>w. w) Enforce qs1 we1 now1 (app, r) w;
             w2 = evaluate_app e (\<lambda>w. w) Enforce qs2 we2 now2 (app, row_of app w1) w1
         in status (row_of app w1) = Warned \<and> registry w1 = registry w \<and> quarantine_calls w1 = quarantine_calls w \<and>
            status (row_of app w2) = Suspended \<and> \<not> dispatcher_serves (dispatch_script_name r) w2 \<and>
            quarantine_calls w2 = quarantine_calls w @ [dispatch_script_name r]"
proof -
  let ?w1 = "evaluate_app e (\<lambda>w. w) Enforce qs1 we1 now1 (app, r) w"
  let ?r1 = "r\<lparr>status := Warned, consecutive_over_limit := 1, reason_code := Some reason1,
               decision_json := Some (Decided (Suspend False reason1 x1)), updated_at := now1\<rparr>"
  note w1 = first_strike [OF row first, where e = e and now = now1]
  have r1: "row_of app ?w1 = ?r1" using w1(1) by (simp add: row_of_def)
  let ?v = "appendEvent app ''enforce_suspend_candidate'' (Candidate (Suspend False reason2 x2)) now2
             (storeEvaluations app (app_windows qs2 we2 ?r1) now2 ?w1)"
  have "app_windows qs2 we2 ?r1 = app_windows qs2 we2 r" by (simp add: app_windows_def)
  then have w2: "evaluate_app e (\<lambda>w. w) Enforce qs2 we2 now2 (app, ?r1) ?w1 =
      suspendApp e (app, ?r1\<lparr>consecutive_over_limit := 2\<rparr>) reason2 (Decided (Suspend False reason2 x2)) now2 ?v"
    using second by (simp add: evaluate_app_def [of _ _ _ qs2] Let_def)
  have "guard_leases ?v = guard_leases w" "registry ?v = registry w" "quarantine_calls ?v = quarantine_calls w"
    using w1 by (simp_all add: appendEvent_def storeEvaluations_def)
  then show ?thesis
    using idle_suspension [OF env(1,2), where w = ?v and app = app and r = ?r1 and v = v and
        s = "?r1\<lparr>consecutive_over_limit := 2\<rparr>" and entry = entry and now = now2 and reason = reason2 and
        d = "Decided (Suspend False reason2 x2)"] w1 row env
    by (simp add: Let_def r1 w2)
qed

subsection \<open>The properties on a concrete app\<close>

definition example_input :: eligible_input where
  "example_input =
     \<lparr>elig_app = ''o:app'', elig_dispatch_script_name = ''app--o'', elig_org = ''o'', elig_workspace = ''ws'',
      elig_script = ''app'', elig_version = ''v1'', elig_cache_key = None, elig_recovering = False\<rparr>"

definition example_row :: guard_row where
  "example_row = eligible_row example_input False 0"

definition example_entry :: registry_entry where
  "example_entry =
     \<lparr>reg_org_id = ''o'', reg_org_slug = None, reg_is_public = True, usage_guard_status = Some Active,
      usage_guard_eligible_version = Some ''v1'', usage_guard_eligible_at = Some 0,
      usage_guard_probation_until = None, usage_guard_reason = None\<rparr>"

definition example_world :: guard_world where
  "example_world =
     \<lparr>guard_rows = [(''o:app'', example_row)], guard_leases = [], guard_evaluations = [], guard_events = [],
      registry = [''app--o'' \<mapsto> example_entry], quarantine_calls = []\<rparr>"

definition example_idle :: suspend_env where
  "example_idle =
     \<lparr>operation_holder = ''h'', before_claim = (\<lambda>w. w), claim_kv_error = None, before_check = (\<lambda>w. w),
      quarantine_outcome = Inr ''q1'', before_finish = (\<lambda>w. w), finish_kv_error = None\<rparr>"

definition example_usage :: "window_minutes \<Rightarrow> (string, script_usage list) result" where
  "example_usage m = Inr [\<lparr>scriptName = ''app--o'', rowsRead = 0, rowsWritten = 1500000\<rparr>]"

definition example_run :: "string option \<Rightarrow> guard_env" where
  "example_run mode =
     \<lparr>run_holder = ''r'', env_mode = mode, env_lag = None, retry_env_of = (\<lambda>_. example_idle),
      suspend_env_of = (\<lambda>_. example_idle), meanwhile_of = (\<lambda>_ w. w), analytics = example_usage\<rparr>"

definition example_deploy :: deploy_info where
  "example_deploy =
     \<lparr>deploy_input = example_input, deploy_org_slug = None, deploy_version = Some ''v2'', deploy_public = None\<rparr>"

definition example_queries :: "guard_query list" where
  "example_queries =
     [\<lparr>query_minutes = Minutes_15, query_from = 0,
       query_usage = [\<lparr>scriptName = ''app--o'', rowsRead = 0, rowsWritten = 1500000\<rparr>]\<rparr>]"

lemmas example_defs = example_input_def example_row_def example_entry_def example_world_def example_idle_def
  eligible_row_def

lemma exemption_survives_witness:
  "exempt_as ''o:app'' (Some ''vip'') None
     (fold act [Guard_run (example_run (Some ''enforce'')) 6000000, Deploy example_deploy 7000000 7000001 (\<lambda>w. w),
                Guard_run (example_run (Some ''enforce'')) 9000000]
        (exempt_app ''o:app'' (Some ''vip'') example_world))"
  by (rule exemption_survives)
    (simp_all add: quiet_run_def quiet_env_def example_run_def exempt_as_def exempt_app_def example_defs)

lemma exemption_wins_race_witness:
  "let w' = suspendApp (example_idle\<lparr>before_check := exempt_app ''o:app'' (Some ''vip'')\<rparr>)
              (''o:app'', example_row) ''r'' No_decision 1000 example_world in
     (\<exists>dec. exempt_as ''o:app'' (Some ''vip'') dec w') \<and> shows_exempt ''app--o'' (Some ''vip'') w' \<and>
     quarantine_calls w' = []"
proof -
  let ?e = "example_idle\<lparr>before_check := exempt_app ''o:app'' (Some ''vip'')\<rparr>"
  have "example_world \<noteq> exempt_app ''o:app'' (Some ''vip'') example_world"
    by (simp add: exempt_app_def update_row_def example_defs)
  then have ne: "before_check ?e \<noteq> (\<lambda>w. w)" by (auto dest!: fun_cong [where x = example_world])
  have "let w' = suspendApp ?e (''o:app'', example_row) ''r'' No_decision 1000 example_world in
     (\<exists>dec. exempt_as ''o:app'' (Some ''vip'') dec w') \<and>
     shows_exempt (dispatch_script_name example_row) (Some ''vip'') w' \<and>
     (before_check ?e = (\<lambda>w. w) \<or> quarantine_calls w' = quarantine_calls example_world)"
    by (rule exemption_wins_race [where r = example_row and v = "''v1''" and entry = example_entry])
      (simp_all add: example_defs tryAcquireUsageGuardOperationLease_def take_lease_def)
  with ne show ?thesis by (simp add: Let_def) (simp add: example_defs)
qed

lemma deploy_restores_service_witness:
  "dispatcher_serves ''app--o''
     (snd (refreshAppRegistryAfterDeploy example_deploy 9000 9001 (\<lambda>w. w)
        (suspendApp example_idle (''o:app'', example_row) ''r'' No_decision 1000 example_world)))"
proof -
  let ?w = "suspendApp example_idle (''o:app'', example_row) ''r'' No_decision 1000 example_world"
  have "fst (refreshAppRegistryAfterDeploy example_deploy 9000 9001 (\<lambda>w. w) ?w) = Inr ()" by code_simp
  then obtain w' where "refreshAppRegistryAfterDeploy example_deploy 9000 9001 (\<lambda>w. w) ?w = (Inr (), w')"
    by (metis prod.collapse)
  from deploy_restores_service [OF this, of "''v2''"] this show ?thesis
    by (simp add: example_deploy_def example_input_def)
qed

lemma only_enforcing_suspends_witness:
  "untouched example_world (snd (runUsageGuard (example_run (Some '' Warn '')) 6000000 example_world))"
proof (rule only_enforcing_suspends)
  show "guardMode (env_mode (example_run (Some '' Warn ''))) \<noteq> Enforce" by code_simp
qed (simp add: example_run_def)

lemma two_strikes_witness:
  "let w1 = evaluate_app example_idle (\<lambda>w. w) Enforce example_queries 900000 1000000 (''o:app'', example_row) example_world;
       w2 = evaluate_app example_idle (\<lambda>w. w) Enforce example_queries 900000 1300000 (''o:app'', row_of ''o:app'' w1) w1
   in dispatcher_serves ''app--o'' w1 \<and> \<not> dispatcher_serves ''app--o'' w2"
proof -
  let ?x = "hd (app_windows example_queries 900000 example_row)"
  have d: "evaluateUsage (app_windows example_queries 900000 example_row) = Suspend False ''sustained_sqlite_usage'' ?x"
    by code_simp
  have n: "dispatch_script_name example_row = ''app--o''" by (simp add: example_defs)
  have reg: "dispatcher_serves ''app--o'' example_world" by (simp add: dispatcher_serves_def example_defs)
  show ?thesis
    using two_strikes [where w = example_world and app = "''o:app''" and r = example_row and v = "''v1''" and
        e = example_idle and qv = "''q1''" and entry = example_entry and ?now1.0 = 1000000 and ?now2.0 = 1300000,
        OF _ _ _ _ d d] reg
    by (simp add: Let_def n) (simp add: example_defs idle_env_def tryAcquireUsageGuardOperationLease_def
        take_lease_def dispatcher_serves_def)
qed

end
