(* ===== verification/Json.thy ===== *)
theory Json
  imports Prelude Complex_Main
begin

section \<open>JSON values\<close>

text \<open>
  Parsed JSON, as the code inspects it: member access, the \<open>typeof\<close> tests, truthiness and object
  spread. An object is an association list with one entry per key; numbers are rationals.
\<close>

datatype 'c json_of =
    JNull
  | JBool bool
  | JNum rat
  | JStr "'c list"
  | JArr "'c json_of list"
  | JObj "(string \<times> 'c json_of) list"

text \<open>Strings are lists of code units: of \<open>char\<close> below 256, of integers in general.\<close>

type_synonym json = "char json_of"

text \<open>\<open>o.k\<close>, where \<open>undefined\<close> is \<open>None\<close>; \<open>o\<close> is no array, string or null when the code asks.\<close>

definition json_get :: "string \<Rightarrow> 'c json_of \<Rightarrow> 'c json_of option" where
  "json_get k j = (case j of JObj kvs \<Rightarrow> map_of kvs k | _ \<Rightarrow> None)"

definition json_opt :: "string \<Rightarrow> 'c json_of option \<Rightarrow> 'c json_of option" where
  "json_opt k j = (case j of None \<Rightarrow> None | Some v \<Rightarrow> json_get k v)"

definition json_string :: "'c json_of option \<Rightarrow> 'c list option" where
  "json_string j = (case j of Some (JStr s) \<Rightarrow> Some s | _ \<Rightarrow> None)"

definition json_object :: "'c json_of option \<Rightarrow> 'c json_of option" where
  "json_object j = (case j of Some (JObj kvs) \<Rightarrow> Some (JObj kvs) | _ \<Rightarrow> None)"

definition is_object :: "'c json_of \<Rightarrow> bool" where
  "is_object j = (case j of JObj kvs \<Rightarrow> True | _ \<Rightarrow> False)"

definition truthy :: "'c json_of option \<Rightarrow> bool" where
  "truthy j =
     (case j of
        None \<Rightarrow> False
      | Some v \<Rightarrow> (case v of JNull \<Rightarrow> False | JBool b \<Rightarrow> b | JNum n \<Rightarrow> n \<noteq> 0 | JStr s \<Rightarrow> s \<noteq> []
                   | JArr xs \<Rightarrow> True | JObj kvs \<Rightarrow> True))"

text \<open>\<open>{ ...o, k: v }\<close>\<close>

definition json_set :: "string \<Rightarrow> 'c json_of \<Rightarrow> 'c json_of \<Rightarrow> 'c json_of" where
  "json_set k v j = (case j of JObj kvs \<Rightarrow> JObj (upsert_row k v (\<lambda>_. v) kvs) | _ \<Rightarrow> JObj [(k, v)])"

text \<open>The object without a property.\<close>

definition json_delete :: "string \<Rightarrow> 'c json_of \<Rightarrow> 'c json_of" where
  "json_delete k j = (case j of JObj kvs \<Rightarrow> JObj (delete_row k kvs) | _ \<Rightarrow> j)"

lemma json_get_set [simp]:
  "json_get k (json_set k' v j) = (if k = k' then Some v else json_get k j)"
  by (cases j) (auto simp: json_set_def json_get_def split: option.split)

lemma is_object_set [simp]: "is_object (json_set k v j)"
  by (cases j) (simp_all add: json_set_def is_object_def)

lemma json_string_simps [simp]:
  "json_string (Some (JStr s)) = Some s" "json_string None = None"
  by (simp_all add: json_string_def)

lemma json_get_JObj [simp]: "json_get k (JObj kvs) = map_of kvs k"
  by (simp add: json_get_def)

end
