(* ===== verification/UsageQuarantine.thy ===== *)
theory UsageQuarantine
  imports Json
begin

section \<open>Quarantine of a deployed script\<close>

text \<open>
  Model of \<open>src/workers/app-usage-guard/src/quarantine.ts\<close> and of the helpers it uses from
  \<open>src/workers/main/src/usage-guard-config.ts\<close>. The answers of the Cloudflare API are arguments; the
  quarantine returns its result and the metadata it uploaded, if it uploaded. Of the replacement module
  the exports are modelled, not its fixed text.
\<close>

definition USAGE_GUARD_QUARANTINE_MARKER :: string where
  "USAGE_GUARD_QUARANTINE_MARKER = ''CAMELAI_USAGE_GUARD_QUARANTINE''"

subsection \<open>Versions and tracing\<close>

definition is_hex_or_dash :: "char \<Rightarrow> bool" where
  "is_hex_or_dash c \<longleftrightarrow> is_digit c \<or> lower_char c \<in> set ''abcdef'' \<or> c = CHR ''-''"

definition normalizeDispatchScriptVersion :: "string \<Rightarrow> string" where
  "normalizeDispatchScriptVersion v =
     (let t = js_trim v
      in if 32 \<le> length t \<and> length t \<le> 36 \<and> list_all is_hex_or_dash t
         then js_lower (filter (\<lambda>c. c \<noteq> CHR ''-'') t) else t)"

definition version_candidates :: "json \<Rightarrow> json option list" where
  "version_candidates outer =
     (let res = or_default outer (json_object (json_get ''result'' outer));
          script = json_object (json_get ''script'' res)
      in [json_opt ''version_id'' script, json_get ''version_id'' res,
          json_opt ''deployment_id'' script, json_get ''deployment_id'' res,
          json_opt ''id'' script, json_get ''id'' res])"

fun first_version :: "string option \<Rightarrow> json option list \<Rightarrow> string option" where
  "first_version name [] = None"
| "first_version name (v # vs) =
     (case json_string v of
        Some s \<Rightarrow>
          if js_trim s \<noteq> [] \<and> (or_default [] name = [] \<or> js_trim s \<noteq> or_default [] name)
          then Some (normalizeDispatchScriptVersion s) else first_version name vs
      | None \<Rightarrow> first_version name vs)"

definition dispatchScriptVersionFromApiBody :: "json \<Rightarrow> string option \<Rightarrow> string option" where
  "dispatchScriptVersionFromApiBody body name =
     (if is_object body then first_version name (version_candidates body) else None)"

definition withUsageGuardTracing :: "json \<Rightarrow> json" where
  "withUsageGuardTracing metadata =
     (let observability = or_default (JObj []) (json_object (json_get ''observability'' metadata));
          traces = or_default (JObj []) (json_object (json_get ''traces'' observability))
      in json_set ''observability''
           (json_set ''traces''
              (json_set ''head_sampling_rate'' (JNum 1) (json_set ''persist'' (JBool True) (json_set ''enabled'' (JBool True) traces)))
              (json_set ''enabled'' (JBool True) observability))
           metadata)"

record api_response =
  resp_ok :: bool
  resp_status :: nat
  resp_body :: json

definition fetchDispatchScriptVersion :: "api_response \<Rightarrow> string \<Rightarrow> (string, string) result" where
  "fetchDispatchScriptVersion resp name =
     (if \<not> resp_ok resp
      then Inl (''Failed to read deployed script version: HTTP '' @ show_nat (resp_status resp))
      else case dispatchScriptVersionFromApiBody (resp_body resp) (Some name) of
             None \<Rightarrow> Inl ''Cloudflare script details returned no version id''
           | Some v \<Rightarrow> Inr v)"

text \<open>The fetches of the three attempts; a fetch may also throw.\<close>

fun version_attempts :: "(string, api_response) result list \<Rightarrow> string \<Rightarrow> string \<Rightarrow> (string, string) result" where
  "version_attempts [] name lastError = Inl lastError"
| "version_attempts (r # rs) name lastError =
     (case bind_result r (\<lambda>resp. fetchDispatchScriptVersion resp name) of
        Inr v \<Rightarrow> Inr v
      | Inl e \<Rightarrow> version_attempts rs name e)"

definition resolveUploadedDispatchScriptVersion ::
    "json \<Rightarrow> (string, api_response) result list \<Rightarrow> string \<Rightarrow> (string, string) result" where
  "resolveUploadedDispatchScriptVersion uploadBody fetches name =
     (case dispatchScriptVersionFromApiBody uploadBody (Some name) of
        Some v \<Rightarrow> Inr v
      | None \<Rightarrow> version_attempts (take 3 fetches) name ''Could not determine deployed script version'')"

subsection \<open>The quarantine\<close>

definition isIdentifier :: "string \<Rightarrow> bool" where
  "isIdentifier s =
     (let start = (\<lambda>c. c = CHR ''$'' \<or> c = CHR ''_'' \<or>
                       (65 \<le> (of_char c :: nat) \<and> (of_char c :: nat) \<le> 90) \<or>
                       (97 \<le> (of_char c :: nat) \<and> (of_char c :: nat) \<le> 122))
      in case s of [] \<Rightarrow> False | c # cs \<Rightarrow> start c \<and> list_all (\<lambda>d. start d \<or> is_digit d) cs)"

text \<open>The exports of the replacement module.\<close>

definition quarantine_exports :: "string list \<Rightarrow> (string, string list) result" where
  "quarantine_exports classNames =
     (case find (\<lambda>c. \<not> isIdentifier c) classNames of
        Some c \<Rightarrow> Inl (''Unsafe Durable Object class name: '' @ c)
      | None \<Rightarrow> Inr (map (\<lambda>c. ''export { QuarantinedDurableObject as '' @ c @ '' };'') classNames))"

definition cloudflareResult :: "json \<Rightarrow> (string, json) result" where
  "cloudflareResult body =
     (case json_get ''result'' body of
        None \<Rightarrow> Inl ''Cloudflare API returned an invalid response''
      | Some r \<Rightarrow> Inr r)"

text \<open>\<open>settings.bindings ?? []\<close>; a null result or bindings that are no list raise a \<open>TypeError\<close>.\<close>

definition settings_bindings :: "json \<Rightarrow> (string, json list) result" where
  "settings_bindings settings =
     (if settings = JNull then Inl ''TypeError''
      else case json_get ''bindings'' settings of
             None \<Rightarrow> Inr []
           | Some JNull \<Rightarrow> Inr []
           | Some (JArr bs) \<Rightarrow> Inr bs
           | Some _ \<Rightarrow> Inl ''TypeError'')"

definition is_marker :: "json \<Rightarrow> bool" where
  "is_marker b \<longleftrightarrow>
     json_get ''name'' b = Some (JStr USAGE_GUARD_QUARANTINE_MARKER) \<and> json_get ''type'' b = Some (JStr ''plain_text'')"

definition marked_with :: "string \<Rightarrow> json list \<Rightarrow> bool" where
  "marked_with version bs =
     (case find is_marker bs of None \<Rightarrow> False | Some m \<Rightarrow> json_get ''text'' m = Some (JStr version))"

definition own_class :: "json \<Rightarrow> string option" where
  "own_class b =
     (if json_get ''type'' b = Some (JStr ''durable_object_namespace'') \<and> \<not> truthy (json_get ''script_name'' b)
      then json_string (json_get ''class_name'' b) else None)"

definition class_names :: "json list \<Rightarrow> string list" where
  "class_names bs = List.map_filter own_class bs"

definition uploadable :: "json \<Rightarrow> json list" where
  "uploadable b =
     (if json_get ''type'' b = Some (JStr ''secret_text'') \<or> json_get ''type'' b = Some (JStr ''secret_key'') \<or>
         json_get ''name'' b = Some (JStr USAGE_GUARD_QUARANTINE_MARKER) then []
      else if own_class b \<noteq> None then [b]
      else case json_string (json_get ''name'' b) of
             None \<Rightarrow> []
           | Some n \<Rightarrow> [JObj [(''type'', JStr ''inherit''), (''name'', JStr n)]])"

definition marker_binding :: "string \<Rightarrow> json" where
  "marker_binding version =
     JObj [(''type'', JStr ''plain_text''), (''name'', JStr USAGE_GUARD_QUARANTINE_MARKER), (''text'', JStr version)]"

definition uploadableBindings :: "string \<Rightarrow> json list \<Rightarrow> json list" where
  "uploadableBindings version bs = concat (map uploadable bs) @ [marker_binding version]"

definition optional_field :: "string \<Rightarrow> json \<Rightarrow> (string \<times> json) list" where
  "optional_field k settings = (if truthy (json_get k settings) then [(k, the (json_get k settings))] else [])"

definition quarantine_metadata :: "json \<Rightarrow> json list \<Rightarrow> json" where
  "quarantine_metadata settings bindings =
     withUsageGuardTracing (JObj (
       [(''main_module'', JStr ''usage-guard-quarantine.js''),
        (''compatibility_date'',
          (case json_get ''compatibility_date'' settings of
             None \<Rightarrow> JStr ''2026-07-13'' | Some v \<Rightarrow> if v = JNull then JStr ''2026-07-13'' else v))]
       @ optional_field ''compatibility_flags'' settings
       @ [(''bindings'', JArr bindings),
          (''keep_bindings'', JArr [JStr ''secret_text'', JStr ''secret_key'']),
          (''keep_assets'', JBool True)]
       @ optional_field ''tail_consumers'' settings))"

record quarantine_api =
  settings_response :: api_response
  details_response :: api_response
  upload_response :: api_response

record upload =
  upload_metadata :: json
  upload_exports :: "string list"

definition unique_names :: "string list \<Rightarrow> string list" where
  "unique_names xs = rev (remdups (rev xs))"

definition upload_quarantine ::
    "quarantine_api \<Rightarrow> string \<Rightarrow> string \<Rightarrow> json \<Rightarrow> json list \<Rightarrow> (string, string) result \<times> upload option" where
  "upload_quarantine api name expected settings bs =
     (case quarantine_exports (unique_names (class_names bs)) of
        Inl e \<Rightarrow> (Inl e, None)
      | Inr exports \<Rightarrow>
          let up = \<lparr>upload_metadata = quarantine_metadata settings (uploadableBindings expected bs), upload_exports = exports\<rparr>;
              r = upload_response api
          in (if \<not> resp_ok r then Inl (''Failed to upload quarantine: HTTP '' @ show_nat (resp_status r))
              else Inr (or_default (''quarantine:'' @ expected) (dispatchScriptVersionFromApiBody (resp_body r) (Some name))),
              Some up))"

definition quarantineDispatchScript ::
    "quarantine_api \<Rightarrow> string \<Rightarrow> string \<Rightarrow> (string, string) result \<times> upload option" where
  "quarantineDispatchScript api name expected =
     (let s = settings_response api; d = details_response api in
      if \<not> resp_ok s then (Inl (''Failed to read script settings: HTTP '' @ show_nat (resp_status s)), None)
      else case cloudflareResult (resp_body s) of
        Inl e \<Rightarrow> (Inl e, None)
      | Inr settings \<Rightarrow> (case settings_bindings settings of
          Inl e \<Rightarrow> (Inl e, None)
        | Inr bs \<Rightarrow>
            if marked_with expected bs then (Inr (''quarantine:'' @ expected), None)
            else if \<not> resp_ok d then (Inl (''Failed to read live script version: HTTP '' @ show_nat (resp_status d)), None)
            else let live = dispatchScriptVersionFromApiBody (resp_body d) (Some name)
                 in if live \<noteq> Some expected
                    then (Inl (''Refusing to quarantine stale deployment '' @ expected @ ''; live version is '' @
                            or_default ''unknown'' live), None)
                    else upload_quarantine api name expected settings bs))"

subsection \<open>Properties\<close>

lemma own_class_not_marker: "own_class b \<noteq> None \<Longrightarrow> \<not> is_marker b"
  by (auto simp: own_class_def is_marker_def split: if_splits)

lemma no_marker_uploadable: "x \<in> set (uploadable b) \<Longrightarrow> \<not> is_marker x"
  by (auto simp: uploadable_def is_marker_def own_class_not_marker split: if_splits option.splits)

lemma find_append_None: "find P xs = None \<Longrightarrow> find P (xs @ ys) = find P ys"
  by (induction xs) (auto split: if_splits)

lemma uploaded_bindings_marked: "marked_with version (uploadableBindings version bs)"
proof -
  have "\<forall>x \<in> set (concat (map uploadable bs)). \<not> is_marker x" using no_marker_uploadable by fastforce
  then have "find is_marker (concat (map uploadable bs)) = None" by (auto simp: find_None_iff)
  moreover have "is_marker (marker_binding version)" by (simp add: is_marker_def marker_binding_def)
  ultimately have "find is_marker (concat (map uploadable bs) @ [marker_binding version]) = Some (marker_binding version)"
    by (simp add: find_append_None)
  then show ?thesis by (simp add: marked_with_def uploadableBindings_def marker_binding_def)
qed

lemma quarantine_upload:
  assumes "quarantineDispatchScript api name expected = (r, Some up)"
  obtains settings bs where "cloudflareResult (resp_body (settings_response api)) = Inr settings"
    and "settings_bindings settings = Inr bs"
    and "dispatchScriptVersionFromApiBody (resp_body (details_response api)) (Some name) = Some expected"
    and "upload_metadata up = quarantine_metadata settings (uploadableBindings expected bs)"
  using assms
  by (auto simp: quarantineDispatchScript_def upload_quarantine_def Let_def split: if_splits sum.splits)

lemma metadata_bindings: "json_get ''bindings'' (quarantine_metadata settings bs) = Some (JArr bs)"
  by (simp add: quarantine_metadata_def withUsageGuardTracing_def Let_def optional_field_def)


text \<open>
  Whatever observability settings a project asks for, the metadata that is uploaded has tracing
  enabled, persisted and unsampled, and every other setting of the project is kept.
\<close>

theorem tracing_is_enforced:
  "let m = withUsageGuardTracing metadata; traces = json_opt ''traces'' (json_get ''observability'' m) in
     json_opt ''enabled'' (json_get ''observability'' m) = Some (JBool True) \<and>
     json_opt ''enabled'' traces = Some (JBool True) \<and> json_opt ''persist'' traces = Some (JBool True) \<and>
     json_opt ''head_sampling_rate'' traces = Some (JNum 1) \<and>
     (k = ''observability'' \<or> json_get k m = json_get k metadata)"
  by (simp add: withUsageGuardTracing_def Let_def json_opt_def)

definition example_api_response :: "json \<Rightarrow> api_response" where
  "example_api_response r = \<lparr>resp_ok = True, resp_status = 200, resp_body = JObj [(''result'', r)]\<rparr>"

definition example_settings :: json where
  "example_settings =
     JObj [(''bindings'', JArr [JObj [(''type'', JStr ''durable_object_namespace''), (''name'', JStr ''ROOM''),
                                      (''class_name'', JStr ''Room'')],
                                JObj [(''type'', JStr ''secret_text''), (''name'', JStr ''KEY'')]])]"

definition example_quarantine :: "json \<Rightarrow> quarantine_api" where
  "example_quarantine settings =
     \<lparr>settings_response = example_api_response settings,
      details_response = example_api_response (JObj [(''id'', JStr ''v1'')]),
      upload_response = example_api_response (JObj [(''id'', JStr ''v2'')])\<rparr>"


end
