(* ===== verification/TextEdit.thy ===== *)
theory TextEdit
  imports Json
begin

section \<open>Text edits\<close>

text \<open>
  Model of \<open>src/workers/main/src/text-edit.ts\<close>: the edit tool's arguments, the matching of the old
  texts (exactly, or after a normalization), their replacement, and the numbered diff. A text is the
  list of its UTF-16 code units. \<open>JSON.parse\<close>, the Unicode normalization \<open>NFKC\<close> and the functions of
  the \<open>diff\<close> package are arguments.
\<close>

type_synonym units = "int list"

definition LF :: int where "LF = 10"
definition CR :: int where "CR = 13"
definition BOM :: int where "BOM = 65279"

record text_edit =
  oldText :: units
  newText :: units

subsection \<open>Arguments\<close>

datatype argument_error =
    Entry_not_object nat
  | Entry_old_not_string nat
  | Entry_new_not_string nat
  | Old_not_string
  | New_not_string
  | No_edits

text \<open>\<open>typeof o.a === "string" ? o.a : typeof o.b === "string" ? o.b : undefined\<close>\<close>

definition string_field :: "string \<Rightarrow> string \<Rightarrow> int json_of \<Rightarrow> units option" where
  "string_field a b j = or_else (json_string (json_get a j)) (json_string (json_get b j))"

definition edit_entry :: "nat \<times> int json_of \<Rightarrow> (argument_error, text_edit) result" where
  "edit_entry ie =
     (case ie of (i, entry) \<Rightarrow>
        if \<not> is_object entry then Inl (Entry_not_object i)
        else case string_field ''oldText'' ''old_string'' entry of
               None \<Rightarrow> Inl (Entry_old_not_string i)
             | Some old \<Rightarrow> (case string_field ''newText'' ''new_string'' entry of
                 None \<Rightarrow> Inl (Entry_new_not_string i)
               | Some new \<Rightarrow> Inr \<lparr>oldText = old, newText = new\<rparr>))"

definition raw_edits :: "(units \<Rightarrow> int json_of option) \<Rightarrow> int json_of \<Rightarrow> int json_of list" where
  "raw_edits parse args =
     (case json_get ''edits'' args of
        Some (JArr es) \<Rightarrow> es
      | Some (JStr s) \<Rightarrow> (case parse s of Some (JArr es) \<Rightarrow> es | _ \<Rightarrow> [])
      | _ \<Rightarrow> [])"

definition normalizeTextEditArguments ::
    "(units \<Rightarrow> int json_of option) \<Rightarrow> int json_of \<Rightarrow> (argument_error, text_edit list) result" where
  "normalizeTextEditArguments parse args =
     bind_result (map_result edit_entry (enumerate 0 (raw_edits parse args))) (\<lambda>edits.
       let old = string_field ''oldText'' ''old_string'' args;
           new = string_field ''newText'' ''new_string'' args
       in case (old, new) of
            (Some o', Some n) \<Rightarrow> Inr (edits @ [\<lparr>oldText = o', newText = n\<rparr>])
          | (None, Some n) \<Rightarrow> Inl Old_not_string
          | (Some o', None) \<Rightarrow> Inl New_not_string
          | (None, None) \<Rightarrow> if edits = [] then Inl No_edits else Inr edits)"

subsection \<open>Lines and line endings\<close>

text \<open>\<open>s.indexOf(pat, from)\<close>\<close>

definition js_index_of :: "units \<Rightarrow> units \<Rightarrow> nat \<Rightarrow> nat option" where
  "js_index_of pat s from = find (\<lambda>i. take (length pat) (drop i s) = pat) [from ..< Suc (length s)]"

lemma find_upt_Some:
  "find P [a ..< b] = Some m \<longleftrightarrow> a \<le> m \<and> m < b \<and> P m \<and> (\<forall>j. a \<le> j \<and> j < m \<longrightarrow> \<not> P j)"
proof (induction "b - a" arbitrary: a)
  case 0
  then show ?case by simp
next
  case (Suc d)
  then have ab: "[a ..< b] = a # [Suc a ..< b]" "a < b" by (simp_all add: upt_rec)
  have IH: "find P [Suc a ..< b] = Some m \<longleftrightarrow> Suc a \<le> m \<and> m < b \<and> P m \<and> (\<forall>j. Suc a \<le> j \<and> j < m \<longrightarrow> \<not> P j)"
    using Suc by simp
  then show ?case
  proof (cases "P a")
    case True
    have "find P [a ..< b] = Some a" using True by (simp add: ab(1))
    moreover have "a = m \<longleftrightarrow> a \<le> m \<and> m < b \<and> P m \<and> (\<forall>j. a \<le> j \<and> j < m \<longrightarrow> \<not> P j)"
      using True ab(2) by (meson le_neq_implies_less le_refl not_less)
    ultimately show ?thesis by simp
  next
    case False
    have r: "find P [a ..< b] = find P [Suc a ..< b]" using False by (simp add: ab(1))
    have "(\<forall>j. Suc a \<le> j \<and> j < m \<longrightarrow> \<not> P j) \<longleftrightarrow> (\<forall>j. a \<le> j \<and> j < m \<longrightarrow> \<not> P j)"
      using False by (auto simp: Suc_le_eq) (metis le_neq_implies_less)
    moreover have "Suc a \<le> m \<and> P m \<longleftrightarrow> a \<le> m \<and> P m" using False by (cases "m = a") auto
    ultimately show ?thesis unfolding r IH by blast
  qed
qed

lemma js_index_of_Some:
  "js_index_of pat s from = Some m \<longleftrightarrow>
     from \<le> m \<and> m \<le> length s \<and> take (length pat) (drop m s) = pat \<and>
     (\<forall>j. from \<le> j \<and> j < m \<longrightarrow> take (length pat) (drop j s) \<noteq> pat)"
  unfolding js_index_of_def find_upt_Some by (auto simp: less_Suc_eq_le)

datatype line_ending = CRLF_ending | LF_ending

definition detectLineEnding :: "units \<Rightarrow> line_ending" where
  "detectLineEnding content =
     (case (js_index_of [LF] content 0, js_index_of [CR, LF] content 0) of
        (Some lf, Some crlf) \<Rightarrow> if crlf \<le> lf then CRLF_ending else LF_ending
      | _ \<Rightarrow> LF_ending)"

text \<open>\<open>text.replace(/\r\n/g, "\n").replace(/\r/g, "\n")\<close>\<close>

fun replace_crlf :: "units \<Rightarrow> units" where
  "replace_crlf (a # b # s) =
     (if a = CR \<and> b = LF then LF # replace_crlf s else a # replace_crlf (b # s))"
| "replace_crlf s = s"

definition normalizeToLf :: "units \<Rightarrow> units" where
  "normalizeToLf s = map (\<lambda>c. if c = CR then LF else c) (replace_crlf s)"

text \<open>\<open>text.replace(/\n/g, "\r\n")\<close>\<close>

fun lf_to_crlf :: "units \<Rightarrow> units" where
  "lf_to_crlf [] = []"
| "lf_to_crlf (c # s) = (if c = LF then CR # LF # lf_to_crlf s else c # lf_to_crlf s)"

definition is_unit_space :: "int \<Rightarrow> bool" where
  "is_unit_space c \<longleftrightarrow>
     (9 \<le> c \<and> c \<le> 13) \<or> c = 32 \<or> c = 160 \<or> c = 5760 \<or> (8192 \<le> c \<and> c \<le> 8202) \<or> c = 8232 \<or> c = 8233 \<or>
     c = 8239 \<or> c = 8287 \<or> c = 12288 \<or> c = 65279"

definition trimEnd :: "units \<Rightarrow> units" where
  "trimEnd s = rev (dropWhile is_unit_space (rev s))"

text \<open>The four replacements of quotes, dashes and spaces, one after the other.\<close>

definition fuzzy_unit :: "int \<Rightarrow> int" where
  "fuzzy_unit c =
     (if c \<in> set [8216, 8217, 8218, 8219] then 39
      else if c \<in> set [8220, 8221, 8222, 8223] then 34
      else if c \<in> set [8208, 8209, 8210, 8211, 8212, 8213, 8722] then 45
      else if c = 160 \<or> (8194 \<le> c \<and> c \<le> 8202) \<or> c = 8239 \<or> c = 8287 \<or> c = 12288 then 32
      else c)"

definition normalizeForFuzzyMatch :: "(units \<Rightarrow> units) \<Rightarrow> units \<Rightarrow> units" where
  "normalizeForFuzzyMatch nfkc s = map fuzzy_unit (join [LF] (map trimEnd (split_on LF (nfkc s))))"

text \<open>\<open>content.match(/[^\n]*\n|[^\n]+/g) ?? []\<close>\<close>

fun splitLinesWithEndings :: "units \<Rightarrow> units list" where
  "splitLinesWithEndings [] = []"
| "splitLinesWithEndings (c # s) =
     (if c = LF then [c] # splitLinesWithEndings s
      else case splitLinesWithEndings s of [] \<Rightarrow> [[c]] | l # ls \<Rightarrow> (c # l) # ls)"

record line_span =
  span_start :: nat
  span_end :: nat

fun spans_from :: "nat \<Rightarrow> units list \<Rightarrow> line_span list" where
  "spans_from k [] = []"
| "spans_from k (l # ls) = \<lparr>span_start = k, span_end = k + length l\<rparr> # spans_from (k + length l) ls"

definition getLineSpans :: "units \<Rightarrow> line_span list" where
  "getLineSpans content = spans_from 0 (splitLinesWithEndings content)"

subsection \<open>Replacements\<close>

record replacement =
  matchIndex :: nat
  matchLength :: nat
  replacementText :: units

record matched_edit = replacement +
  editIndex :: nat

text \<open>The errors of \<open>applyTextEdits\<close>; an edit's display name is its index and the number of edits.\<close>

datatype edit_error =
    No_edits_given
  | Old_text_empty nat nat
  | Old_text_blank nat nat
  | Old_text_not_found nat nat
  | Old_text_ambiguous nat nat nat
  | Edits_overlap nat nat
  | No_changes
  | Line_count_changed
  | Range_outside

text \<open>
  The replacements from the last to the first. The text may be a part of the content that starts at
  \<open>base\<close>; no replacement starts before it.
\<close>

definition apply_replacement :: "nat \<Rightarrow> 'a replacement_scheme \<Rightarrow> units \<Rightarrow> units" where
  "apply_replacement base r s =
     take (matchIndex r - base) s @ replacementText r @ drop (matchIndex r - base + matchLength r) s"

definition applyReplacements :: "units \<Rightarrow> 'a replacement_scheme list \<Rightarrow> nat \<Rightarrow> units" where
  "applyReplacements content rs base = foldr (apply_replacement base) rs content"

fun end_line :: "line_span list \<Rightarrow> nat \<Rightarrow> nat \<Rightarrow> nat" where
  "end_line [] e k = k"
| "end_line (l # ls) e k = (if span_end l < e then end_line ls e (Suc k) else k)"

definition replacementLineRange :: "line_span list \<Rightarrow> 'a replacement_scheme \<Rightarrow> (edit_error, nat \<times> nat) result" where
  "replacementLineRange ls r =
     (let s = matchIndex r; e = matchIndex r + matchLength r in
      case find (\<lambda>i. span_start (ls ! i) \<le> s \<and> s < span_end (ls ! i)) [0 ..< length ls] of
        None \<Rightarrow> Inl Range_outside
      | Some startLine \<Rightarrow>
          let endLine = end_line (drop startLine ls) e startLine
          in if endLine \<ge> length ls then Inl Range_outside else Inr (startLine, Suc endLine))"

record 'a edit_group =
  startLine :: nat
  endLine :: nat
  group_replacements :: "'a list"

text \<open>One step of the grouping loop; the current group is the last one.\<close>

definition add_to_groups ::
    "line_span list \<Rightarrow> 'a replacement_scheme \<Rightarrow> 'a replacement_scheme edit_group list \<Rightarrow> (edit_error, 'a replacement_scheme edit_group list) result" where
  "add_to_groups ls r groups =
     bind_result (replacementLineRange ls r) (\<lambda>(s, e).
       if groups \<noteq> [] \<and> s < endLine (last groups)
       then let g = last groups
            in Inr (butlast groups @ [g\<lparr>endLine := max (endLine g) e, group_replacements := group_replacements g @ [r]\<rparr>])
       else Inr (groups @ [\<lparr>startLine = s, endLine = e, group_replacements = [r]\<rparr>]))"

text \<open>The lines before each group are the original ones; \<open>k\<close> lines have been emitted.\<close>

fun emit_groups ::
    "units list \<Rightarrow> units \<Rightarrow> line_span list \<Rightarrow> 'a replacement_scheme edit_group list \<Rightarrow> nat \<Rightarrow> units" where
  "emit_groups orig normalized ls [] k = concat (drop k orig)"
| "emit_groups orig normalized ls (g # gs) k =
     (let s = span_start (ls ! startLine g); e = span_end (ls ! (endLine g - 1))
      in concat (drop k (take (startLine g) orig)) @
         applyReplacements (drop s (take e normalized)) (group_replacements g) s @
         emit_groups orig normalized ls gs (endLine g))"

definition applyReplacementsPreservingUnchangedLines ::
    "units \<Rightarrow> units \<Rightarrow> 'a replacement_scheme list \<Rightarrow> (edit_error, units) result" where
  "applyReplacementsPreservingUnchangedLines original normalized rs =
     (let orig = splitLinesWithEndings original; ls = getLineSpans normalized in
      if length orig \<noteq> length ls then Inl Line_count_changed
      else bind_result (fold_result (add_to_groups ls) (sort_key matchIndex rs) []) (\<lambda>groups.
             Inr (emit_groups orig normalized ls groups 0)))"

text \<open>The loop that counts occurrences: each search starts where the last match ended.\<close>

function count_from :: "units \<Rightarrow> units \<Rightarrow> nat \<Rightarrow> nat" where
  "count_from content old k =
     (if old = [] then 0
      else if k > length content then 0
      else case js_index_of old content k of
             None \<Rightarrow> 0
           | Some m \<Rightarrow> Suc (count_from content old (m + length old)))"
  by pat_completeness auto
termination
  by (relation "measure (\<lambda>(content, old, k). Suc (length content) - k)")
    (auto simp: js_index_of_Some intro!: diff_less_mono2 simp flip: length_greater_0_conv)

definition occurrenceCount :: "units \<Rightarrow> units \<Rightarrow> nat" where
  "occurrenceCount content old = count_from content old 0"

subsection \<open>The numbered diff\<close>

record diff_part =
  part_value :: units
  added :: bool
  removed :: bool

record text_edit_details =
  diff_lines :: "units list"
  patch :: units
  firstChangedLine :: "nat option"

record diff_state =
  printed :: "units list"
  oldLine :: nat
  newLine :: nat
  firstChanged :: "nat option"

definition unit_string :: "string \<Rightarrow> units" where
  "unit_string s = map of_char s"

definition padStart :: "nat \<Rightarrow> units \<Rightarrow> units" where
  "padStart width s = replicate (width - length s) 32 @ s"

definition numbered :: "int \<Rightarrow> nat \<Rightarrow> nat \<Rightarrow> units \<Rightarrow> units" where
  "numbered mark width n line = mark # padStart width (unit_string (show_nat n)) @ [32] @ line"

definition ellipsis :: "nat \<Rightarrow> units" where
  "ellipsis width = 32 # padStart width [] @ unit_string '' ...''"

text \<open>The lines of a part: \<open>split("\n")\<close> without an empty last line.\<close>

definition part_lines :: "diff_part \<Rightarrow> units list" where
  "part_lines p = (let ls = split_on LF (part_value p) in if last ls = [] then butlast ls else ls)"

definition add_line :: "nat \<Rightarrow> units \<Rightarrow> diff_state \<Rightarrow> diff_state" where
  "add_line width line d = d\<lparr>printed := printed d @ [numbered 43 width (newLine d) line], newLine := newLine d + 1\<rparr>"

definition remove_line :: "nat \<Rightarrow> units \<Rightarrow> diff_state \<Rightarrow> diff_state" where
  "remove_line width line d = d\<lparr>printed := printed d @ [numbered 45 width (oldLine d) line], oldLine := oldLine d + 1\<rparr>"

definition context_line :: "nat \<Rightarrow> units \<Rightarrow> diff_state \<Rightarrow> diff_state" where
  "context_line width line d =
     d\<lparr>printed := printed d @ [numbered 32 width (oldLine d) line], oldLine := oldLine d + 1, newLine := newLine d + 1\<rparr>"

definition skip_lines :: "nat \<Rightarrow> nat \<Rightarrow> diff_state \<Rightarrow> diff_state" where
  "skip_lines width n d =
     d\<lparr>printed := printed d @ [ellipsis width], oldLine := oldLine d + n, newLine := newLine d + n\<rparr>"

definition contextLines :: nat where "contextLines = 4"

definition changed_part :: "nat \<Rightarrow> diff_part \<Rightarrow> diff_state \<Rightarrow> diff_state" where
  "changed_part width p d =
     fold (if added p then add_line width else remove_line width) (part_lines p)
       (d\<lparr>firstChanged := (case firstChanged d of None \<Rightarrow> Some (newLine d) | Some n \<Rightarrow> Some n)\<rparr>)"

definition context_part :: "nat \<Rightarrow> bool \<Rightarrow> bool \<Rightarrow> diff_part \<Rightarrow> diff_state \<Rightarrow> diff_state" where
  "context_part width previousChanged nextChanged p d =
     (let lines = part_lines p; n = length lines in
      if previousChanged \<and> nextChanged \<and> n > contextLines * 2
      then fold (context_line width) (drop (n - contextLines) lines)
             (skip_lines width (n - contextLines * 2)
                (fold (context_line width) (take contextLines lines) d))
      else
        let visibleStart = (if previousChanged then 0 else n - contextLines);
            visibleEnd = (if nextChanged then n else min n contextLines);
            d1 = (if visibleStart > 0 then skip_lines width visibleStart d else d);
            d2 = fold (context_line width) (drop visibleStart (take visibleEnd lines)) d1
        in if n - visibleEnd > 0 then skip_lines width (n - visibleEnd) d2 else d2)"

definition part_changed :: "diff_part \<Rightarrow> bool" where
  "part_changed p \<longleftrightarrow> added p \<or> removed p"

fun diff_loop :: "nat \<Rightarrow> bool \<Rightarrow> diff_part list \<Rightarrow> diff_state \<Rightarrow> diff_state" where
  "diff_loop width prev [] d = d"
| "diff_loop width prev (p # ps) d =
     diff_loop width (part_changed p) ps
       (if part_changed p then changed_part width p d
        else context_part width prev (ps \<noteq> [] \<and> part_changed (hd ps)) p d)"

definition line_count :: "units \<Rightarrow> nat" where
  "line_count s = length (split_on LF s)"

definition generateTextEditDetails ::
    "(units \<Rightarrow> units \<Rightarrow> diff_part list) \<Rightarrow> (units \<Rightarrow> units \<Rightarrow> units) \<Rightarrow> units \<Rightarrow> units \<Rightarrow> text_edit_details" where
  "generateTextEditDetails diffLines createPatch before after =
     (let width = length (show_nat (max (line_count before) (line_count after)));
          d = diff_loop width False (diffLines before after)
                \<lparr>printed = [], oldLine = 1, newLine = 1, firstChanged = None\<rparr>
      in \<lparr>diff_lines = printed d, patch = createPatch before after, firstChangedLine = firstChanged d\<rparr>)"

subsection \<open>Applying edits\<close>

record applied_edits =
  before_text :: units
  after_text :: units
  replacementCount :: nat
  usedFuzzyMatch :: bool
  details :: text_edit_details

definition split_bom :: "units \<Rightarrow> units \<times> units" where
  "split_bom content =
     (case content of [] \<Rightarrow> ([], []) | c # s \<Rightarrow> if c = BOM then ([BOM], s) else ([], content))"

definition normalize_edit :: "text_edit \<Rightarrow> text_edit" where
  "normalize_edit e = \<lparr>oldText = normalizeToLf (oldText e), newText = normalizeToLf (newText e)\<rparr>"

definition contains :: "units \<Rightarrow> units \<Rightarrow> bool" where
  "contains s pat \<longleftrightarrow> js_index_of pat s 0 \<noteq> None"

definition match_edit ::
    "(units \<Rightarrow> units) \<Rightarrow> bool \<Rightarrow> units \<Rightarrow> nat \<Rightarrow> nat \<times> text_edit \<Rightarrow> (edit_error, matched_edit) result" where
  "match_edit nfkc fuzzy base n ie =
     (case ie of (i, e) \<Rightarrow>
        let pat = (if fuzzy then normalizeForFuzzyMatch nfkc (oldText e) else oldText e)
        in if fuzzy \<and> pat = [] then Inl (Old_text_blank i n)
           else case js_index_of pat base 0 of
                  None \<Rightarrow> Inl (Old_text_not_found i n)
                | Some m \<Rightarrow>
                    if occurrenceCount base pat > 1 then Inl (Old_text_ambiguous (occurrenceCount base pat) i n)
                    else Inr \<lparr>matchIndex = m, matchLength = length pat, replacementText = newText e, editIndex = i\<rparr>)"

fun first_overlap :: "matched_edit list \<Rightarrow> (nat \<times> nat) option" where
  "first_overlap (a # b # ms) =
     (if matchIndex a + matchLength a > matchIndex b then Some (editIndex a, editIndex b) else first_overlap (b # ms))"
| "first_overlap ms = None"

definition applyTextEdits ::
    "(units \<Rightarrow> units) \<Rightarrow> (units \<Rightarrow> units \<Rightarrow> text_edit_details) \<Rightarrow> units \<Rightarrow> text_edit list \<Rightarrow> (edit_error, applied_edits) result" where
  "applyTextEdits nfkc mk_details content edits =
     (if edits = [] then Inl No_edits_given
      else
        let (bom, text) = split_bom content;
            base = normalizeToLf text;
            es = map normalize_edit edits;
            n = length edits;
            fuzzy = list_ex (\<lambda>e. \<not> contains base (oldText e)) es;
            rbase = (if fuzzy then normalizeForFuzzyMatch nfkc base else base)
        in case find (\<lambda>(i, e). oldText e = []) (enumerate 0 es) of
             Some (i, e) \<Rightarrow> Inl (Old_text_empty i n)
           | None \<Rightarrow>
               bind_result (map_result (match_edit nfkc fuzzy rbase n) (enumerate 0 es)) (\<lambda>ms.
                 let matched = sort_key matchIndex ms
                 in case first_overlap matched of
                      Some (i, j) \<Rightarrow> Inl (Edits_overlap i j)
                    | None \<Rightarrow>
                        bind_result (if fuzzy then applyReplacementsPreservingUnchangedLines base rbase matched
                                     else Inr (applyReplacements rbase matched 0)) (\<lambda>edited.
                          if edited = base then Inl No_changes
                          else
                            let restored = (if detectLineEnding text = CRLF_ending then lf_to_crlf edited else edited)
                            in Inr \<lparr>before_text = bom @ text, after_text = bom @ restored,
                                    replacementCount = n, usedFuzzyMatch = fuzzy,
                                    details = mk_details (bom @ text) (bom @ restored)\<rparr>)))"

end
