(* ===== verification/TextEditSafety.thy ===== *)
theory TextEditSafety
  imports TextEdit
begin

section \<open>Correctness of text edits\<close>

text \<open>
  What an edit changes and what it leaves alone: an exactly matched edit replaces the old texts and
  nothing else, line endings and byte order mark survive, and after a normalized match the lines that
  no replacement touches are kept unit for unit.
\<close>

subsection \<open>Texts between gaps\<close>

text \<open>Texts with the gaps before, between and after them.\<close>

fun interleave :: "'a list list \<Rightarrow> 'a list list \<Rightarrow> 'a list" where
  "interleave (g # gs) (x # xs) = g @ x @ interleave gs xs"
| "interleave gs xs = concat gs"

fun weave :: "nat \<Rightarrow> 'b replacement_scheme list \<Rightarrow> units \<Rightarrow> ('b replacement_scheme \<Rightarrow> units) \<Rightarrow> units" where
  "weave p [] s f = drop p s"
| "weave p (r # rs) s f = drop p (take (matchIndex r) s) @ f r @ weave (matchIndex r + matchLength r) rs s f"

fun laid_out :: "nat \<Rightarrow> 'b replacement_scheme list \<Rightarrow> units \<Rightarrow> bool" where
  "laid_out p [] s = (p \<le> length s)"
| "laid_out p (r # rs) s = (p \<le> matchIndex r \<and> laid_out (matchIndex r + matchLength r) rs s)"

lemma laid_out_le: "laid_out p rs s \<Longrightarrow> p \<le> length s"
  by (induction rs arbitrary: p) fastforce+

lemma weave_interleave:
  "\<exists>gaps. length gaps = Suc (length rs) \<and> (\<forall>f. weave p rs s f = interleave gaps (map f rs))"
proof (induction rs arbitrary: p)
  case Nil
  show ?case by (rule exI [of _ "[drop p s]"]) simp
next
  case (Cons r rs)
  from Cons.IH [of "matchIndex r + matchLength r"] obtain gaps where
    "length gaps = Suc (length rs)" "\<And>f. weave (matchIndex r + matchLength r) rs s f = interleave gaps (map f rs)"
    by blast
  then show ?case by (intro exI [of _ "drop p (take (matchIndex r) s) # gaps"]) simp
qed

lemma weave_original:
  "laid_out p rs s \<Longrightarrow> weave p rs s (\<lambda>r. take (matchLength r) (drop (matchIndex r) s)) = drop p s"
proof (induction rs arbitrary: p)
  case (Cons r rs)
  let ?m = "matchIndex r" and ?q = "matchIndex r + matchLength r"
  from Cons.prems have p: "p \<le> ?m" "laid_out ?q rs s" by auto
  have "?m \<le> length s" using laid_out_le [OF p(2)] by simp
  then have "drop p (take ?m s) @ take (matchLength r) (drop ?m s) @ drop ?q s = drop p (take ?m s) @ drop ?m s"
    by (metis append_take_drop_id drop_drop add.commute)
  also have "\<dots> = drop p s"
    using p(1) \<open>?m \<le> length s\<close> by (metis append_take_drop_id drop_append diff_is_0_eq drop0 length_take min.absorb2)
  finally show ?case using Cons.IH [OF p(2)] by simp
qed simp

lemma apply_weave:
  "laid_out p rs s \<Longrightarrow> applyReplacements s rs 0 = take p s @ weave p rs s replacementText"
proof (induction rs arbitrary: p)
  case Nil
  then show ?case by (simp add: applyReplacements_def)
next
  case (Cons r rs)
  let ?m = "matchIndex r" and ?q = "matchIndex r + matchLength r"
  from Cons.prems have p: "p \<le> ?m" "laid_out ?q rs s" by auto
  have q: "?q \<le> length s" using p(2) by (rule laid_out_le)
  have a: "applyReplacements s rs 0 = take ?q s @ weave ?q rs s replacementText" using Cons.IH [OF p(2)] .
  have "applyReplacements s (r # rs) 0 = take ?m (applyReplacements s rs 0) @ replacementText r @ drop ?q (applyReplacements s rs 0)"
    by (simp add: applyReplacements_def apply_replacement_def)
  also have "\<dots> = take ?m s @ replacementText r @ weave ?q rs s replacementText"
    using q by (simp add: a)
  also have "take ?m s = take p s @ drop p (take ?m s)"
    using p(1) by (metis append_take_drop_id min.absorb2 min.commute take_take)
  finally show ?case by simp
qed

subsection \<open>Exact edits\<close>

definition match_text :: "units \<Rightarrow> matched_edit \<Rightarrow> text_edit" where
  "match_text base m = \<lparr>oldText = take (matchLength m) (drop (matchIndex m) base), newText = replacementText m\<rparr>"

lemma match_edit_exact:
  assumes "match_edit nfkc False base n (i, e) = Inr m" and "oldText e \<noteq> []"
  shows "match_text base m = e \<and> matchIndex m + matchLength m \<le> length base"
proof -
  from assms(1) have m: "js_index_of (oldText e) base 0 = Some (matchIndex m)"
    "matchLength m = length (oldText e)" "replacementText m = newText e"
    by (auto simp: match_edit_def Let_def split: option.splits if_splits)
  then have t: "take (length (oldText e)) (drop (matchIndex m) base) = oldText e"
    by (simp add: js_index_of_Some)
  then have "length (oldText e) \<le> length base - matchIndex m" by (metis length_drop length_take min.cobounded1)
  moreover have "matchIndex m \<le> length base" using m(1) by (simp add: js_index_of_Some)
  ultimately have "matchIndex m + matchLength m \<le> length base" using m(2) by simp
  then show ?thesis using m t assms(2) by (cases e) (auto simp: match_text_def)
qed

lemma first_overlap_laid_out:
  "first_overlap ms = None \<Longrightarrow> \<forall>m \<in> set ms. matchIndex m + matchLength m \<le> length s \<Longrightarrow>
   ms = [] \<or> p \<le> matchIndex (hd ms) \<Longrightarrow> p \<le> length s \<Longrightarrow> laid_out p ms s"
proof (induction ms arbitrary: p rule: first_overlap.induct)
  case (1 a b ms)
  then show ?case by (auto split: if_splits)
qed auto

lemma matches_of_edits:
  assumes "map_result (match_edit nfkc False base n) (enumerate 0 es) = Inr ms"
    and "\<forall>e \<in> set es. oldText e \<noteq> []"
  shows "map (match_text base) ms = es \<and> (\<forall>m \<in> set ms. matchIndex m + matchLength m \<le> length base)"
proof -
  have l: "list_all2 (\<lambda>ie m. match_edit nfkc False base n ie = Inr m) (enumerate 0 es) ms"
    using assms(1) by (simp add: map_result_Inr)
  have "map (match_text base) ms = map snd ies \<and> (\<forall>m \<in> set ms. matchIndex m + matchLength m \<le> length base)"
    if "list_all2 (\<lambda>ie m. match_edit nfkc False base n ie = Inr m) ies ms" "\<forall>e \<in> set (map snd ies). oldText e \<noteq> []" for ies
    using that
  proof (induction ies arbitrary: ms)
    case (Cons ie ies)
    then obtain m ms' where ms: "ms = m # ms'" "match_edit nfkc False base n ie = Inr m"
      "list_all2 (\<lambda>ie m. match_edit nfkc False base n ie = Inr m) ies ms'" by (auto simp: list_all2_Cons1)
    with match_edit_exact [of nfkc base n "fst ie" "snd ie" m] Cons show ?case by auto
  qed simp
  from this [OF l] assms(2) show ?thesis by simp
qed

lemma no_empty_old:
  "find (\<lambda>(i, e). oldText e = []) (enumerate k es) = None \<Longrightarrow> \<forall>e \<in> set es. oldText e \<noteq> []"
  by (induction es arbitrary: k) (auto split: if_splits)

lemma split_bom_append [simp]: "fst (split_bom c) @ snd (split_bom c) = c"
  by (cases c) (auto simp: split_bom_def)

definition restore_endings :: "units \<Rightarrow> units \<Rightarrow> units" where
  "restore_endings text edited = (if detectLineEnding text = CRLF_ending then lf_to_crlf edited else edited)"

lemma exact_edit_spec:
  assumes "applyTextEdits nfkc mk content edits = Inr res" and "\<not> usedFuzzyMatch res"
  shows "before_text res = content \<and>
    (\<exists>gaps es. mset es = mset (map normalize_edit edits) \<and> length gaps = Suc (length es) \<and>
       normalizeToLf (snd (split_bom content)) = interleave gaps (map oldText es) \<and>
       after_text res = fst (split_bom content) @
         restore_endings (snd (split_bom content)) (interleave gaps (map newText es)))"
proof -
  let ?text = "snd (split_bom content)"
  let ?base = "normalizeToLf ?text"
  let ?es = "map normalize_edit edits"
  from assms obtain ms where
    none: "find (\<lambda>(i, e). oldText e = []) (enumerate 0 ?es) = None" and
    ms: "map_result (match_edit nfkc False ?base (length edits)) (enumerate 0 ?es) = Inr ms" and
    sep: "first_overlap (sort_key matchIndex ms) = None" and
    res: "before_text res = fst (split_bom content) @ ?text"
      "after_text res = fst (split_bom content) @ restore_endings ?text (applyReplacements ?base (sort_key matchIndex ms) 0)"
    by (auto simp: applyTextEdits_def Let_def case_prod_unfold result_simps restore_endings_def
        split: if_splits option.splits)
  let ?ms = "sort_key matchIndex ms"
  note m = matches_of_edits [OF ms no_empty_old [OF none]]
  have lay: "laid_out 0 ?ms ?base" using m by (intro first_overlap_laid_out [OF sep]) auto
  obtain gaps where gaps: "length gaps = Suc (length ?ms)" "\<And>f. weave 0 ?ms ?base f = interleave gaps (map f ?ms)"
    using weave_interleave [of ?ms 0 ?base] by blast
  let ?sorted = "map (match_text ?base) ?ms"
  have "mset ?sorted = mset (map (match_text ?base) ms)" by simp
  then have "mset ?sorted = mset ?es" using m by simp
  moreover have "?base = interleave gaps (map oldText ?sorted)"
    using weave_original [OF lay] gaps(2) by (simp add: match_text_def comp_def)
  moreover have "applyReplacements ?base ?ms 0 = interleave gaps (map newText ?sorted)"
    using apply_weave [OF lay] gaps(2) by (simp add: match_text_def comp_def)
  ultimately show ?thesis using res gaps(1)
    by (intro conjI exI [of _ gaps] exI [of _ ?sorted]) auto
qed


definition example_edits :: "text_edit list" where
  "example_edits =
     [\<lparr>oldText = unit_string ''b'', newText = unit_string ''xy''\<rparr>, \<lparr>oldText = unit_string ''a'', newText = []\<rparr>]"

definition no_details :: "units \<Rightarrow> units \<Rightarrow> text_edit_details" where
  "no_details before after = \<lparr>diff_lines = [], patch = [], firstChangedLine = None\<rparr>"

definition example_result :: applied_edits where
  "example_result =
     \<lparr>before_text = [97, 13, 10, 98, 99], after_text = [13, 10, 120, 121, 99], replacementCount = 2,
      usedFuzzyMatch = False, details = no_details [] []\<rparr>"

lemma example_edit: "applyTextEdits (\<lambda>s. s) no_details [97, 13, 10, 98, 99] example_edits = Inr example_result"
  by code_simp


text \<open>
  The test that an old text is unique counts matches that do not overlap: in \<open>aaa\<close> the old text
  \<open>aa\<close> occurs at 0 and at 1, and the edit is applied at 0.
\<close>

theorem overlapping_occurrences_accepted:
  "js_index_of (unit_string ''aa'') (unit_string ''aaa'') 0 = Some 0 \<and>
   js_index_of (unit_string ''aa'') (unit_string ''aaa'') 1 = Some 1 \<and>
   (case applyTextEdits (\<lambda>s. s) no_details (unit_string ''aaa'')
           [\<lparr>oldText = unit_string ''aa'', newText = unit_string ''b''\<rparr>] of
      Inl e \<Rightarrow> False | Inr res \<Rightarrow> after_text res = unit_string ''ba'')"
  by code_simp

subsection \<open>Line endings\<close>

lemma normalizeToLf_no_CR: "CR \<notin> set (normalizeToLf s)"
  by (auto simp: normalizeToLf_def CR_def LF_def)

lemma replace_crlf_other: "c \<noteq> CR \<Longrightarrow> replace_crlf (c # s) = c # replace_crlf s"
  by (cases s) auto

lemma normalize_lf_to_crlf: "CR \<notin> set s \<Longrightarrow> normalizeToLf (lf_to_crlf s) = s"
proof (induction s)
  case Nil
  then show ?case by (simp add: normalizeToLf_def)
next
  case (Cons c s)
  then show ?case by (auto simp: normalizeToLf_def replace_crlf_other LF_def CR_def)
qed

lemma lf_to_crlf_append: "lf_to_crlf (a @ b) = lf_to_crlf a @ lf_to_crlf b"
  by (induction a) auto

lemma lf_to_crlf_free: "LF \<notin> set a \<Longrightarrow> lf_to_crlf a = a"
  by (induction a) auto

lemma take_drop_head: "take (Suc n) (drop j s) = x # xs \<Longrightarrow> j < length s \<and> s ! j = x"
  by (cases "j < length s") (auto simp: Cons_nth_drop_Suc [symmetric])

lemma detect_crlf:
  assumes "CR \<notin> set t" and "LF \<in> set t"
  shows "detectLineEnding (lf_to_crlf t) = CRLF_ending"
proof -
  obtain a b where t: "t = a @ LF # b" "LF \<notin> set a" using assms(2) by (meson split_list_first)
  let ?s = "a @ CR # LF # lf_to_crlf b"
  have s: "lf_to_crlf t = ?s" using t by (simp add: lf_to_crlf_append lf_to_crlf_free)
  have "CR \<notin> set a" using assms(1) t by simp
  have "js_index_of [CR, LF] ?s 0 = Some (length a)"
    unfolding js_index_of_Some
  proof (intro conjI allI impI)
    fix j assume j: "0 \<le> j \<and> j < length a"
    then have "?s ! j \<noteq> CR" using \<open>CR \<notin> set a\<close> by (auto simp: nth_append dest: nth_mem)
    then show "take (length [CR, LF]) (drop j ?s) \<noteq> [CR, LF]"
      using take_drop_head [of "Suc 0" j ?s CR "[LF]"] by (simp del: take_append drop_append) blast
  qed auto
  moreover have "js_index_of [LF] ?s 0 = Some (Suc (length a))"
    unfolding js_index_of_Some
  proof (intro conjI allI impI)
    fix j assume j: "0 \<le> j \<and> j < Suc (length a)"
    have "?s ! j \<noteq> LF"
    proof (cases "j = length a")
      case False
      then have "j < length a" using j by simp
      then show ?thesis using t(2) by (auto simp: nth_append dest: nth_mem)
    qed (simp add: CR_def LF_def)
    then show "take (length [LF]) (drop j ?s) \<noteq> [LF]"
      using take_drop_head [of 0 j ?s LF "[]"] by (simp del: take_append drop_append) blast
  qed auto
  ultimately show ?thesis by (simp add: s detectLineEnding_def)
qed

lemma set_interleave_gaps:
  "length gaps = Suc (length xs) \<Longrightarrow>
   set (interleave gaps xs) = (\<Union>g \<in> set gaps. set g) \<union> (\<Union>x \<in> set xs. set x)"
  by (induction gaps xs rule: interleave.induct) auto

text \<open>
  A text whose lines end in CRLF keeps that after an exact edit, whatever line endings the edits
  are written with: every line feed of the result follows a carriage return and no other carriage
  return is left.
\<close>

theorem crlf_text_stays_crlf:
  assumes "applyTextEdits nfkc mk content edits = Inr res" and "\<not> usedFuzzyMatch res"
    and "split_bom content = (bom, lf_to_crlf t)" and "CR \<notin> set t" and "LF \<in> set t"
  shows "\<exists>new. after_text res = bom @ lf_to_crlf new \<and> CR \<notin> set new"
proof -
  from exact_edit_spec [OF assms(1,2)] assms(3) obtain gaps es where
    es: "mset es = mset (map normalize_edit edits)" "length gaps = Suc (length es)"
    and old: "normalizeToLf (lf_to_crlf t) = interleave gaps (map oldText es)"
    and new: "after_text res = bom @ restore_endings (lf_to_crlf t) (interleave gaps (map newText es))" by auto
  have "CR \<notin> set (interleave gaps (map oldText es))" unfolding old [symmetric] by (rule normalizeToLf_no_CR)
  moreover have "\<forall>e \<in> set es. CR \<notin> set (newText e)"
  proof -
    have "set es = set (map normalize_edit edits)" using es(1) by (metis set_mset_mset)
    then show ?thesis by (auto simp: normalize_edit_def normalizeToLf_no_CR)
  qed
  ultimately have "CR \<notin> set (interleave gaps (map newText es))"
    using es(2) by (auto simp: set_interleave_gaps)
  then show ?thesis using new detect_crlf [OF assms(4,5)] by (auto simp: restore_endings_def)
qed

lemma crlf_text_stays_crlf_witness:
  "\<exists>new. [13, 10, 120, 121, 99] = lf_to_crlf new \<and> CR \<notin> set new"
proof -
  have "split_bom [97, 13, 10, 98, 99] = ([], lf_to_crlf [97, 10, 98, 99])" by (simp add: split_bom_def BOM_def LF_def CR_def)
  from crlf_text_stays_crlf [OF example_edit _ this] show ?thesis
    by (simp add: example_result_def CR_def LF_def)
qed

subsection \<open>Lines that no replacement touches\<close>

text \<open>\<open>s\<close> holds the lines \<open>U\<close>, in this order.\<close>

fun holds_lines :: "units list \<Rightarrow> units \<Rightarrow> bool" where
  "holds_lines [] s = True"
| "holds_lines (u # U) s = (\<exists>g t. s = g @ u @ t \<and> holds_lines U t)"

lemma holds_lines_interleave: "holds_lines U s \<Longrightarrow> \<exists>gaps. length gaps = Suc (length U) \<and> s = interleave gaps U"
proof (induction U arbitrary: s)
  case Nil
  show ?case by (rule exI [of _ "[s]"]) simp
next
  case (Cons u U)
  then obtain g t where s: "s = g @ u @ t" "holds_lines U t" by auto
  from Cons.IH [OF s(2)] obtain gaps where "length gaps = Suc (length U)" "t = interleave gaps U" by blast
  with s(1) show ?case by (intro exI [of _ "g # gaps"]) simp
qed

lemma holds_lines_prepend: "holds_lines U s \<Longrightarrow> holds_lines U (t @ s)"
  by (cases U) (auto, metis append.assoc)

lemma holds_lines_concat: "holds_lines U s \<Longrightarrow> holds_lines (L @ U) (concat L @ s)"
proof (induction L)
  case (Cons l L)
  then have "concat (l # L) @ s = [] @ l @ (concat L @ s) \<and> holds_lines (L @ U) (concat L @ s)" by simp
  then show ?case unfolding append_Cons holds_lines.simps by blast
qed simp

lemma holds_lines_filter: "holds_lines (map f xs) s \<Longrightarrow> holds_lines (map f (filter P xs)) s"
proof (induction xs arbitrary: s)
  case (Cons x xs)
  then obtain g t where s: "s = g @ f x @ t" "holds_lines (map f xs) t" by auto
  have t: "holds_lines (map f (filter P xs)) t" using Cons.IH [OF s(2)] .
  show ?case
  proof (cases "P x")
    case True
    with t s(1) show ?thesis by auto
  next
    case False
    have "holds_lines (map f (filter P xs)) ((g @ f x) @ t)" using t by (rule holds_lines_prepend)
    with False s(1) show ?thesis by simp
  qed
qed simp

fun sorted_groups :: "nat \<Rightarrow> nat \<Rightarrow> 'b edit_group list \<Rightarrow> bool" where
  "sorted_groups n k [] = (k \<le> n)"
| "sorted_groups n k (g # gs) =
     (k \<le> startLine g \<and> startLine g < endLine g \<and> endLine g \<le> n \<and> sorted_groups n (endLine g) gs)"

definition in_group :: "nat \<Rightarrow> 'b edit_group \<Rightarrow> bool" where
  "in_group i g \<longleftrightarrow> startLine g \<le> i \<and> i < endLine g"

lemma sorted_groups_after: "sorted_groups n k gs \<Longrightarrow> g \<in> set gs \<Longrightarrow> in_group i g \<Longrightarrow> k \<le> i"
  by (induction gs arbitrary: k) (fastforce simp: in_group_def)+

lemma sorted_groups_snoc:
  "sorted_groups n k (gs @ [g]) \<longleftrightarrow>
     sorted_groups n k gs \<and> (if gs = [] then k else endLine (last gs)) \<le> startLine g \<and>
     startLine g < endLine g \<and> endLine g \<le> n"
  by (induction gs arbitrary: k) auto

lemma outside_groups_split:
  assumes "sorted_groups n k (g # gs)"
  shows "filter (\<lambda>i. \<not> (\<exists>h \<in> set (g # gs). in_group i h)) [k ..< n] =
         [k ..< startLine g] @ filter (\<lambda>i. \<not> (\<exists>h \<in> set gs. in_group i h)) [endLine g ..< n]"
proof -
  let ?P = "\<lambda>i. \<not> (\<exists>h \<in> set (g # gs). in_group i h)"
  have le: "k \<le> startLine g" "startLine g \<le> endLine g" "endLine g \<le> n" and gs: "sorted_groups n (endLine g) gs"
    using assms by auto
  have "[k ..< n] = [k ..< startLine g] @ [startLine g ..< endLine g] @ [endLine g ..< n]"
    using le by (metis le_Suc_ex upt_add_eq_append order_trans)
  moreover have "filter ?P [k ..< startLine g] = [k ..< startLine g]"
    using sorted_groups_after [OF gs] le by (intro filter_True) (fastforce simp: in_group_def)
  moreover have "filter ?P [startLine g ..< endLine g] = []"
    by (intro filter_False) (auto simp: in_group_def)
  moreover have "filter ?P [endLine g ..< n] = filter (\<lambda>i. \<not> (\<exists>h \<in> set gs. in_group i h)) [endLine g ..< n]"
    by (intro filter_cong) (auto simp: in_group_def)
  ultimately show ?thesis by simp
qed

lemma emit_keeps_lines:
  "sorted_groups (length orig) k gs \<Longrightarrow>
   holds_lines (map (nth orig) (filter (\<lambda>i. \<not> (\<exists>h \<in> set gs. in_group i h)) [k ..< length orig]))
     (emit_groups orig normalized ls gs k)"
proof (induction gs arbitrary: k)
  case Nil
  have "map (nth orig) [k ..< length orig] = drop k orig"
    by (metis drop_map drop_upt map_nth add_0)
  then show ?case
    using holds_lines_concat [of "[]" "[]" "drop k orig"] by simp
next
  case (Cons g gs)
  then have gs: "sorted_groups (length orig) (endLine g) gs" and le: "startLine g \<le> length orig" by auto
  have lines: "map (nth orig) [k ..< startLine g] = drop k (take (startLine g) orig)"
    using le by (simp add: list_eq_iff_nth_eq)
  show ?case
    unfolding outside_groups_split [OF Cons.prems] map_append lines emit_groups.simps Let_def
    by (intro holds_lines_concat holds_lines_prepend Cons.IH gs)
qed

lemma spans_from_start: "sp \<in> set (spans_from k ls) \<Longrightarrow> k \<le> span_start sp \<and> span_start sp \<le> span_end sp"
  by (induction ls arbitrary: k) fastforce+

lemma spans_in_order:
  "i < j \<Longrightarrow> j < length (spans_from k ls) \<Longrightarrow> span_end (spans_from k ls ! i) \<le> span_start (spans_from k ls ! j)"
proof (induction ls arbitrary: k i j)
  case (Cons l ls)
  then obtain j' where j: "j = Suc j'" by (cases j) auto
  show ?case
  proof (cases i)
    case 0
    with Cons.prems j spans_from_start [of "spans_from (k + length l) ls ! j'" "k + length l" ls] show ?thesis by simp
  next
    case (Suc i')
    with Cons j show ?thesis by simp
  qed
qed simp

lemma end_line_ge: "k \<le> end_line ls e k"
  by (induction ls e k rule: end_line.induct) auto

lemma line_range:
  assumes "replacementLineRange ls r = Inr (s, e)"
  shows "s < e \<and> e \<le> length ls \<and> span_start (ls ! s) \<le> matchIndex r \<and> matchIndex r < span_end (ls ! s)"
  using assms end_line_ge [of s "drop s ls" "matchIndex r + matchLength r"]
  by (auto simp: replacementLineRange_def Let_def find_upt_Some split: option.splits if_splits)

lemma line_range_mono:
  assumes "replacementLineRange (getLineSpans t) r = Inr (s, e)" "replacementLineRange (getLineSpans t) r' = Inr (s', e')"
    and "matchIndex r \<le> matchIndex r'"
  shows "s \<le> s'"
proof (rule ccontr)
  assume "\<not> s \<le> s'"
  moreover note a = line_range [OF assms(1)] line_range [OF assms(2)]
  ultimately have "span_end (getLineSpans t ! s') \<le> span_start (getLineSpans t ! s)"
    unfolding getLineSpans_def by (intro spans_in_order) (auto simp: getLineSpans_def)
  with a assms(3) show False by simp
qed

definition touches :: "line_span list \<Rightarrow> nat \<Rightarrow> 'b replacement_scheme \<Rightarrow> bool" where
  "touches ls i r = (case replacementLineRange ls r of Inl e \<Rightarrow> False | Inr (s, e) \<Rightarrow> s \<le> i \<and> i < e)"

text \<open>The invariant of the grouping loop, after the replacements \<open>done\<close>.\<close>

definition grouped :: "line_span list \<Rightarrow> 'b replacement_scheme list \<Rightarrow> 'b replacement_scheme edit_group list \<Rightarrow> bool" where
  "grouped ls rs gs \<longleftrightarrow>
     sorted_groups (length ls) 0 gs \<and>
     (\<forall>g \<in> set gs. \<forall>i. in_group i g \<longrightarrow> (\<exists>r \<in> set rs. touches ls i r)) \<and>
     (gs \<noteq> [] \<longrightarrow> (\<exists>r \<in> set rs. \<exists>e. replacementLineRange ls r = Inr (startLine (last gs), e)))"

lemma grouped_step:
  fixes t :: units
  defines "ls \<equiv> getLineSpans t"
  assumes g: "grouped ls rs gs" and sorted: "\<forall>x \<in> set rs. matchIndex x \<le> matchIndex r"
    and add: "add_to_groups ls r gs = Inr gs'"
  shows "grouped ls (rs @ [r]) gs'"
proof -
  from add obtain s e where range: "replacementLineRange ls r = Inr (s, e)"
    by (auto simp: add_to_groups_def result_simps)
  have se: "s < e" "e \<le> length ls" using line_range [OF range] by auto
  have t: "touches ls i r" if "s \<le> i" "i < e" for i using range that by (simp add: touches_def)
  show ?thesis
  proof (cases "gs \<noteq> [] \<and> s < endLine (last gs)")
    case True
    then obtain hs h where gs: "gs = hs @ [h]" by (metis append_butlast_last_id)
    let ?h = "h\<lparr>endLine := max (endLine h) e, group_replacements := group_replacements h @ [r]\<rparr>"
    have gs': "gs' = hs @ [?h]" using add range True gs by (simp add: add_to_groups_def Let_def)
    obtain r0 e0 where r0: "r0 \<in> set rs" "replacementLineRange ls r0 = Inr (startLine h, e0)"
      using g gs by (auto simp: grouped_def)
    have "startLine h \<le> s" using line_range_mono [of t r0 _ e0 r s e] r0 range sorted by (simp add: ls_def)
    then have "touches ls i r \<or> (\<exists>x \<in> set rs. touches ls i x)" if "in_group i ?h" for i
      using that g gs True t [of i] by (cases "i < endLine h") (auto simp: grouped_def in_group_def)
    moreover have "sorted_groups (length ls) 0 gs'"
      using g gs se by (auto simp: gs' grouped_def sorted_groups_snoc)
    ultimately show ?thesis
      using g gs r0 by (auto simp: grouped_def gs')
  next
    case False
    have gs': "gs' = gs @ [\<lparr>startLine = s, endLine = e, group_replacements = [r]\<rparr>]"
      using add range False by (auto simp: add_to_groups_def)
    have "sorted_groups (length ls) 0 gs'"
      using g False se by (auto simp: gs' grouped_def sorted_groups_snoc not_less)
    moreover have "touches ls i r" if "in_group i \<lparr>startLine = s, endLine = e, group_replacements = [r]\<rparr>" for i
      using that t by (simp add: in_group_def)
    ultimately show ?thesis using g range by (auto simp: grouped_def gs')
  qed
qed

lemma grouped_fold:
  "fold_result (add_to_groups (getLineSpans t)) rs gs = Inr gs' \<Longrightarrow> grouped (getLineSpans t) done_rs gs \<Longrightarrow>
   sorted (map matchIndex (done_rs @ rs)) \<Longrightarrow> grouped (getLineSpans t) (done_rs @ rs) gs'"
proof (induction rs arbitrary: gs done_rs)
  case (Cons r rs)
  then obtain g1 where g1: "add_to_groups (getLineSpans t) r gs = Inr g1"
    "fold_result (add_to_groups (getLineSpans t)) rs g1 = Inr gs'" by (auto simp: result_simps)
  have "\<forall>x \<in> set done_rs. matchIndex x \<le> matchIndex r" using Cons.prems(3) by (auto simp: sorted_append)
  then have "grouped (getLineSpans t) (done_rs @ [r]) g1" using grouped_step Cons.prems(2) g1(1) by blast
  then show ?case using Cons.IH [OF g1(2), of "done_rs @ [r]"] Cons.prems(3) by simp
qed simp

text \<open>The lines of the original text that no replacement touches.\<close>

definition untouched_lines :: "units \<Rightarrow> units \<Rightarrow> 'b replacement_scheme list \<Rightarrow> units list" where
  "untouched_lines original normalized rs =
     map (nth (splitLinesWithEndings original))
       (filter (\<lambda>i. \<not> list_ex (touches (getLineSpans normalized) i) rs) [0 ..< length (splitLinesWithEndings original)])"



end
