(* ===== verification/UsagePricing.thy ===== *)
theory UsagePricing
  imports Prelude Complex_Main
begin

section \<open>Prices of model usage\<close>

text \<open>
  Model of \<open>src/src/lib/usage-pricing.ts\<close>: the table of prices per token, the lookup of a model's price
  through its normalized name and its family, and the cost of a usage. Prices and costs are exact
  rationals where the code has doubles. The table has its own keys only: a model named like a member
  of \<open>Object.prototype\<close> is unknown in the model.
\<close>

subsection \<open>The table\<close>

record rates =
  inputPerToken :: rat
  outputPerToken :: rat
  cacheCreationPerToken :: "rat option"
  cacheReadPerToken :: "rat option"

record model_pricing_tier = rates +
  inputTokensAbove :: int

record model_pricing = rates +
  tiers :: "model_pricing_tier list"

definition pricing_tier :: "int \<Rightarrow> rat \<Rightarrow> rat \<Rightarrow> rat option \<Rightarrow> rat option \<Rightarrow> model_pricing_tier" where
  "pricing_tier n i o' cc cr =
     \<lparr>inputPerToken = i, outputPerToken = o', cacheCreationPerToken = cc, cacheReadPerToken = cr, inputTokensAbove = n\<rparr>"

definition pricing :: "rat \<Rightarrow> rat \<Rightarrow> rat option \<Rightarrow> rat option \<Rightarrow> model_pricing_tier list \<Rightarrow> model_pricing" where
  "pricing i o' cc cr ts =
     \<lparr>inputPerToken = i, outputPerToken = o', cacheCreationPerToken = cc, cacheReadPerToken = cr, tiers = ts\<rparr>"

datatype name_test = Starts string | Includes string | Equals string

definition pricing_table_1 :: "(string \<times> model_pricing) list" where
  "pricing_table_1 =
     [(''claude-fable-5-1'', pricing (1/100000) (5/100000) (Some (125/10000000)) (Some (25/100000000)) []),
      (''anthropic/claude-fable-5.1'', pricing (1/100000) (5/100000) (Some (125/10000000)) (Some (25/100000000)) []),
      (''anthropic/claude-fable-5-1'', pricing (1/100000) (5/100000) (Some (125/10000000)) (Some (25/100000000)) []),
      (''anthropic.claude-fable-5-1'', pricing (1/100000) (5/100000) (Some (125/10000000)) (Some (25/100000000)) []),
      (''claude-opus-5-5'', pricing (4/1000000) (2/100000) (Some (5/1000000)) (Some (2/10000000)) []),
      (''anthropic/claude-opus-5.5'', pricing (4/1000000) (2/100000) (Some (5/1000000)) (Some (2/10000000)) []),
      (''anthropic/claude-opus-5-5'', pricing (4/1000000) (2/100000) (Some (5/1000000)) (Some (2/10000000)) []),
      (''anthropic.claude-opus-5-5'', pricing (4/1000000) (2/100000) (Some (5/1000000)) (Some (2/10000000)) []),
      (''claude-fable-5'', pricing (1/100000) (5/100000) (Some (125/10000000)) (Some (1/1000000)) []),
      (''anthropic/claude-fable-5'', pricing (1/100000) (5/100000) (Some (125/10000000)) (Some (1/1000000)) []),
      (''claude-sonnet-5-5'', pricing (2/1000000) (1/100000) (Some (25/10000000)) (Some (2/10000000)) []),
      (''anthropic/claude-sonnet-5.5'', pricing (2/1000000) (1/100000) (Some (25/10000000)) (Some (2/10000000)) []),
      (''anthropic/claude-sonnet-5-5'', pricing (2/1000000) (1/100000) (Some (25/10000000)) (Some (2/10000000)) []),
      (''anthropic.claude-sonnet-5-5'', pricing (2/1000000) (1/100000) (Some (25/10000000)) (Some (2/10000000)) []),
      (''claude-haiku-5-5'', pricing (1/10000000) (5/10000000) (Some (125/1000000000)) (Some (1/100000000)) []),
      (''anthropic/claude-haiku-5.5'', pricing (1/10000000) (5/10000000) (Some (125/1000000000)) (Some (1/100000000)) []),
      (''anthropic/claude-haiku-5-5'', pricing (1/10000000) (5/10000000) (Some (125/1000000000)) (Some (1/100000000)) []),
      (''anthropic.claude-haiku-5-5'', pricing (1/10000000) (5/10000000) (Some (125/1000000000)) (Some (1/100000000)) []),
      (''claude-sonnet-5'', pricing (2/1000000) (1/100000) (Some (25/10000000)) (Some (2/10000000)) []),
      (''anthropic/claude-sonnet-5'', pricing (2/1000000) (1/100000) (Some (25/10000000)) (Some (2/10000000)) []),
      (''claude-opus-5'', pricing (5/1000000) (25/1000000) (Some (625/100000000)) (Some (5/10000000)) []),
      (''anthropic/claude-opus-5'', pricing (5/1000000) (25/1000000) (Some (625/100000000)) (Some (5/10000000)) []),
      (''anthropic.claude-opus-5'', pricing (5/1000000) (25/1000000) (Some (625/100000000)) (Some (5/10000000)) [])]"

definition pricing_table_2 :: "(string \<times> model_pricing) list" where
  "pricing_table_2 =
     [(''claude-opus-4-8'', pricing (5/1000000) (25/1000000) (Some (625/100000000)) (Some (5/10000000)) []),
      (''anthropic/claude-opus-4.8'', pricing (5/1000000) (25/1000000) (Some (625/100000000)) (Some (5/10000000)) []),
      (''anthropic/claude-opus-4-8'', pricing (5/1000000) (25/1000000) (Some (625/100000000)) (Some (5/10000000)) []),
      (''claude-opus-4-7'', pricing (5/1000000) (25/1000000) (Some (625/100000000)) (Some (5/10000000)) []),
      (''anthropic/claude-opus-4.7'', pricing (5/1000000) (25/1000000) (Some (625/100000000)) (Some (5/10000000)) []),
      (''anthropic/claude-opus-4-7'', pricing (5/1000000) (25/1000000) (Some (625/100000000)) (Some (5/10000000)) []),
      (''claude-opus-4-6'', pricing (5/1000000) (25/1000000) (Some (625/100000000)) (Some (5/10000000)) []),
      (''anthropic/claude-opus-4.6'', pricing (5/1000000) (25/1000000) (Some (625/100000000)) (Some (5/10000000)) []),
      (''anthropic/claude-opus-4-6'', pricing (5/1000000) (25/1000000) (Some (625/100000000)) (Some (5/10000000)) []),
      (''claude-sonnet-4-6'', pricing (3/1000000) (15/1000000) (Some (375/100000000)) (Some (3/10000000)) []),
      (''anthropic/claude-sonnet-4.6'', pricing (3/1000000) (15/1000000) (Some (375/100000000)) (Some (3/10000000)) []),
      (''claude-opus-4-5-20251101'', pricing (5/1000000) (25/1000000) (Some (625/100000000)) (Some (5/10000000)) []),
      (''claude-sonnet-4-5-20250929'', pricing (3/1000000) (15/1000000) (Some (375/100000000)) (Some (3/10000000)) []),
      (''claude-haiku-4-5-20251001'', pricing (1/1000000) (5/1000000) (Some (125/100000000)) (Some (1/10000000)) []),
      (''anthropic/claude-haiku-4.5'', pricing (1/1000000) (5/1000000) (Some (125/100000000)) (Some (1/10000000)) []),
      (''claude-sonnet-4-20250514'', pricing (3/1000000) (15/1000000) (Some (375/100000000)) (Some (3/10000000)) []),
      (''claude-opus-4-20250514'', pricing (5/1000000) (25/1000000) (Some (625/100000000)) (Some (5/10000000)) []),
      (''claude-3-5-sonnet-20241022'', pricing (3/1000000) (15/1000000) (Some (375/100000000)) (Some (3/10000000)) []),
      (''claude-3-5-haiku-20241022'', pricing (1/1000000) (5/1000000) (Some (125/100000000)) (Some (1/10000000)) []),
      (''gpt-5.5'', pricing (5/1000000) (3/100000) None (Some (5/10000000)) [pricing_tier 272000 (1/100000) (45/1000000) None (Some (1/1000000))]),
      (''gpt-5.6-sol'', pricing (5/1000000) (3/100000) (Some (625/100000000)) (Some (5/10000000)) [pricing_tier 272000 (1/100000) (45/1000000) (Some (125/10000000)) (Some (1/1000000))])]"

definition pricing_table_3 :: "(string \<times> model_pricing) list" where
  "pricing_table_3 =
     [(''gpt-5.6-terra'', pricing (2/1000000) (12/1000000) (Some (25/10000000)) (Some (2/10000000)) [pricing_tier 272000 (4/1000000) (18/1000000) (Some (5/1000000)) (Some (4/10000000))]),
      (''gpt-6.1-sol'', pricing (2/1000000) (1/100000) (Some (25/10000000)) (Some (1/10000000)) [pricing_tier 272000 (4/1000000) (15/1000000) (Some (5/1000000)) (Some (2/10000000))]),
      (''gpt-6-sol'', pricing (2/1000000) (1/100000) (Some (25/10000000)) (Some (2/10000000)) [pricing_tier 272000 (4/1000000) (15/1000000) (Some (5/1000000)) (Some (4/10000000))]),
      (''gpt-6-luna'', pricing (1/10000000) (5/10000000) (Some (125/1000000000)) (Some (1/100000000)) [pricing_tier 272000 (2/10000000) (75/100000000) (Some (25/100000000)) (Some (2/100000000))]),
      (''gpt-5.6-luna'', pricing (2/10000000) (12/10000000) (Some (25/100000000)) (Some (2/100000000)) [pricing_tier 272000 (4/10000000) (18/10000000) (Some (5/10000000)) (Some (4/100000000))]),
      (''custom'', pricing (0) (0) None (Some (0)) []),
      (''moonshotai/kimi-k3'', pricing (3/1000000) (15/1000000) None (Some (3/10000000)) []),
      (''kimi-k3'', pricing (3/1000000) (15/1000000) None (Some (3/10000000)) []),
      (''x-ai/grok-4.7'', pricing (16/10000000) (48/10000000) None (Some (4/10000000)) []),
      (''grok-4.7'', pricing (16/10000000) (48/10000000) None (Some (4/10000000)) []),
      (''z-ai/glm-5.3-flash'', pricing (15/100000000) (5/10000000) None (Some (3/100000000)) []),
      (''glm-5.3-flash'', pricing (15/100000000) (5/10000000) None (Some (3/100000000)) []),
      (''google/gemini-3.8-flash'', pricing (75/100000000) (375/100000000) (Some (416666666666667/10000000000000000000000)) (Some (75/1000000000)) []),
      (''gemini-3.8-flash'', pricing (75/100000000) (375/100000000) (Some (416666666666667/10000000000000000000000)) (Some (75/1000000000)) []),
      (''deepseek/deepseek-v4.1-flash-1017'', pricing (15/100000000) (6/10000000) None (Some (3/1000000000)) []),
      (''deepseek-v4.1-flash-1017'', pricing (15/100000000) (6/10000000) None (Some (3/1000000000)) []),
      (''deepseek/deepseek-v4.1-flash'', pricing (3/10000000) (12/10000000) None (Some (6/1000000000)) [])]"

definition pricing_table_4 :: "(string \<times> model_pricing) list" where
  "pricing_table_4 =
     [(''azure/deepseek-v4.1-flash'', pricing (3/10000000) (12/10000000) None (Some (6/1000000000)) []),
      (''deepseek-v4.1-flash'', pricing (3/10000000) (12/10000000) None (Some (6/1000000000)) []),
      (''moonshotai/kimi-k2.7-code'', pricing (74/100000000) (35/10000000) None (Some (15/100000000)) []),
      (''kimi-k2.7-code'', pricing (74/100000000) (35/10000000) None (Some (15/100000000)) []),
      (''~moonshotai/kimi-latest'', pricing (7448/10000000000) (4655/1000000000) None None []),
      (''moonshotai/kimi-k2.6'', pricing (7448/10000000000) (4655/1000000000) None None []),
      (''kimi-k2.6'', pricing (7448/10000000000) (4655/1000000000) None None []),
      (''x-ai/grok-4.5'', pricing (2/1000000) (6/1000000) None (Some (5/10000000)) []),
      (''grok-4.5'', pricing (2/1000000) (6/1000000) None (Some (5/10000000)) []),
      (''z-ai/glm-5.3'', pricing (84/100000000) (264/100000000) None (Some (156/1000000000)) []),
      (''glm-5.3'', pricing (84/100000000) (264/100000000) None (Some (156/1000000000)) []),
      (''z-ai/glm-5.2'', pricing (12/10000000) (41/10000000) None (Some (2/10000000)) []),
      (''glm-5.2'', pricing (12/10000000) (41/10000000) None (Some (2/10000000)) []),
      (''google/gemini-3-flash-preview'', pricing (5/10000000) (3/1000000) (Some (8333333333333334/100000000000000000000000)) (Some (5/100000000)) []),
      (''gemini-3-flash-preview'', pricing (5/10000000) (3/1000000) (Some (8333333333333334/100000000000000000000000)) (Some (5/100000000)) []),
      (''google/gemini-3.5-flash'', pricing (15/10000000) (9/1000000) (Some (8333333333333334/100000000000000000000000)) (Some (15/100000000)) []),
      (''gemini-3.5-flash'', pricing (15/10000000) (9/1000000) (Some (8333333333333334/100000000000000000000000)) (Some (15/100000000)) []),
      (''google/gemini-3.1-pro-preview'', pricing (2/1000000) (12/1000000) (Some (375/1000000000)) (Some (2/10000000)) []),
      (''gemini-3.1-pro-preview'', pricing (2/1000000) (12/1000000) (Some (375/1000000000)) (Some (2/10000000)) []),
      (''deepseek/deepseek-v4-pro'', pricing (435/1000000000) (87/100000000) None (Some (3625/1000000000000)) []),
      (''deepseek-v4-pro'', pricing (435/1000000000) (87/100000000) None (Some (3625/1000000000000)) []),
      (''deepseek-v4-auto'', pricing (435/1000000000) (87/100000000) None (Some (3625/1000000000000)) []),
      (''deepseek/deepseek-v4-flash'', pricing (14/100000000) (28/100000000) None (Some (28/10000000000)) []),
      (''deepseek-v4-flash'', pricing (14/100000000) (28/100000000) None (Some (28/10000000000)) [])]"

definition modelPricingTable :: "(string \<times> model_pricing) list" where
  "modelPricingTable = pricing_table_1 @ pricing_table_2 @ pricing_table_3 @ pricing_table_4"

definition family_rules :: "(name_test list \<times> string) list" where
  "family_rules =
     [([Starts ''gpt-5.6-terra''], ''gpt-5.6-terra''),
      ([Starts ''gpt-6.1-sol''], ''gpt-6.1-sol''),
      ([Starts ''gpt-6-sol''], ''gpt-6-sol''),
      ([Starts ''gpt-6-luna''], ''gpt-6-luna''),
      ([Starts ''gpt-5.6-luna''], ''gpt-5.6-luna''),
      ([Starts ''gpt-5.6-sol'', Equals ''gpt-5.6''], ''gpt-5.6-sol''),
      ([Starts ''gpt-5.5''], ''gpt-5.5''),
      ([Starts ''gpt-5.4''], ''gpt-5.6-terra''),
      ([Includes ''claude-fable-5.1'', Includes ''claude-fable-5-1''], ''claude-fable-5-1''),
      ([Includes ''claude-opus-5.5'', Includes ''claude-opus-5-5''], ''claude-opus-5-5''),
      ([Includes ''claude-fable-5''], ''claude-fable-5''),
      ([Includes ''claude-sonnet-5.5'', Includes ''claude-sonnet-5-5''], ''claude-sonnet-5-5''),
      ([Includes ''claude-sonnet-5''], ''claude-sonnet-5''),
      ([Includes ''claude-opus-5''], ''claude-opus-5''),
      ([Includes ''claude-opus-4.8'', Includes ''claude-opus-4-8''], ''claude-opus-4-8''),
      ([Includes ''claude-opus-4.7'', Includes ''claude-opus-4-7''], ''claude-opus-4-7''),
      ([Includes ''claude-opus-4.6'', Includes ''claude-opus-4-6''], ''claude-opus-4-6''),
      ([Includes ''claude-sonnet-4.6'', Includes ''claude-sonnet-4-6''], ''claude-sonnet-4-6''),
      ([Includes ''kimi-k3''], ''moonshotai/kimi-k3''),
      ([Includes ''kimi-k2.7-code''], ''moonshotai/kimi-k2.7-code''),
      ([Includes ''kimi-k2.6'', Includes ''kimi-latest''], ''~moonshotai/kimi-latest''),
      ([Includes ''grok-4.7''], ''x-ai/grok-4.7''),
      ([Includes ''grok-4.5''], ''x-ai/grok-4.5''),
      ([Includes ''grok-4.3''], ''x-ai/grok-4.5''),
      ([Includes ''glm-5.3-flash''], ''z-ai/glm-5.3-flash''),
      ([Includes ''glm-5.3''], ''z-ai/glm-5.3''),
      ([Includes ''glm-5.2''], ''z-ai/glm-5.2''),
      ([Includes ''deepseek-v4-auto''], ''deepseek-v4-auto''),
      ([Includes ''deepseek-v4.1-flash''], ''deepseek/deepseek-v4.1-flash''),
      ([Includes ''deepseek-v4-pro''], ''deepseek/deepseek-v4-pro''),
      ([Includes ''deepseek-v4-flash''], ''deepseek/deepseek-v4-flash''),
      ([Includes ''claude-haiku-5.5'', Includes ''claude-haiku-5-5''], ''claude-haiku-5-5''),
      ([Includes ''claude-haiku-4.5'', Includes ''claude-haiku-4-5''], ''anthropic/claude-haiku-4.5''),
      ([Includes ''gemini-3.8-flash''], ''google/gemini-3.8-flash''),
      ([Includes ''gemini-3.5-flash''], ''google/gemini-3.5-flash''),
      ([Includes ''gemini-3.1-pro-preview''], ''google/gemini-3.1-pro-preview''),
      ([Includes ''gemini-3-flash-preview''], ''google/gemini-3-flash-preview'')]"

definition SONNET_FALLBACK_MODEL :: string where "SONNET_FALLBACK_MODEL = ''claude-sonnet-5-5''"

subsection \<open>Lookup\<close>

definition js_starts_with :: "string \<Rightarrow> string \<Rightarrow> bool" where
  "js_starts_with p s = (take (length p) s = p)"

definition js_includes :: "string \<Rightarrow> string \<Rightarrow> bool" where
  "js_includes p s = list_ex (\<lambda>i. js_starts_with p (drop i s)) [0 ..< Suc (length s)]"

definition strip_prefix :: "string \<Rightarrow> string \<Rightarrow> string" where
  "strip_prefix p s = (if js_starts_with p s then drop (length p) s else s)"

definition pricing_prefixes :: "string list" where
  "pricing_prefixes = [''camel/'', ''camelai-openrouter/'', ''openrouter/'', ''openai/'', ''openai.'']"

definition strip_pass :: "string \<Rightarrow> string" where
  "strip_pass s = fold strip_prefix pricing_prefixes s"

lemma length_strip_prefix: "length (strip_prefix p s) \<le> length s"
  by (simp add: strip_prefix_def)

lemma length_strip_fold: "length (fold strip_prefix ps s) \<le> length s"
  by (induction ps arbitrary: s) (auto intro: order_trans length_strip_prefix)

lemma strip_prefix_same: "length (strip_prefix p s) = length s \<Longrightarrow> p \<noteq> [] \<Longrightarrow> strip_prefix p s = s"
proof (cases "js_starts_with p s")
  case True
  assume a: "length (strip_prefix p s) = length s" "p \<noteq> []"
  then have "length s - length p = length s" using True by (simp add: strip_prefix_def)
  then have "s = []" using a(2) by (cases s; cases p) auto
  then show ?thesis by (simp add: strip_prefix_def)
qed (simp add: strip_prefix_def)

lemma strip_fold_same:
  "length (fold strip_prefix ps s) = length s \<Longrightarrow> [] \<notin> set ps \<Longrightarrow>
   fold strip_prefix ps s = s \<and> (\<forall>p \<in> set ps. strip_prefix p s = s)"
proof (induction ps arbitrary: s)
  case (Cons p ps)
  have len: "length (strip_prefix p s) = length s"
    using Cons.prems(1) length_strip_fold [of ps "strip_prefix p s"] length_strip_prefix [of p s] by simp
  have "p \<noteq> []" using Cons.prems(2) by auto
  with len have s: "strip_prefix p s = s" by (rule strip_prefix_same)
  have "[] \<notin> set ps" using Cons.prems(2) by simp
  moreover have "length (fold strip_prefix ps s) = length s" using Cons.prems(1) by (simp add: s)
  ultimately show ?case using Cons.IH [of s] s by simp
qed simp

lemma strip_pass_shorter: "strip_pass s \<noteq> s \<Longrightarrow> length (strip_pass s) < length s"
  using strip_fold_same [of pricing_prefixes s] length_strip_fold [of pricing_prefixes s]
  by (fastforce simp: strip_pass_def pricing_prefixes_def)

text \<open>The loop: passes over the prefixes until nothing changes.\<close>

function strip_loop :: "string \<Rightarrow> string" where
  "strip_loop s = (if strip_pass s = s then s else strip_loop (strip_pass s))"
  by pat_completeness auto
termination
  by (relation "measure length") (simp_all add: strip_pass_shorter)

declare strip_loop.simps [simp del]

definition strip_nitro :: "string \<Rightarrow> string" where
  "strip_nitro s =
     (let n = length s - length '':nitro'' in
      if length '':nitro'' \<le> length s \<and> drop n s = '':nitro'' then take n s else s)"

definition normalizePricingModel :: "string \<Rightarrow> string" where
  "normalizePricingModel model = strip_loop (strip_nitro (js_trim model))"

fun test_name :: "string \<Rightarrow> name_test \<Rightarrow> bool" where
  "test_name s (Starts p) = js_starts_with p s"
| "test_name s (Includes p) = js_includes p s"
| "test_name s (Equals p) = (s = p)"

definition lookupPricingOrNull :: "string \<Rightarrow> model_pricing option" where
  "lookupPricingOrNull model =
     (case map_of modelPricingTable model of
        Some p \<Rightarrow> Some p
      | None \<Rightarrow>
          let n = normalizePricingModel model
          in case map_of modelPricingTable n of
               Some p \<Rightarrow> Some p
             | None \<Rightarrow> (case find (\<lambda>(tests, target). list_ex (test_name n) tests) family_rules of
                 Some (tests, target) \<Rightarrow> map_of modelPricingTable target
               | None \<Rightarrow> None))"

definition lookupPricing :: "string \<Rightarrow> model_pricing" where
  "lookupPricing model =
     (case lookupPricingOrNull model of
        Some p \<Rightarrow> p | None \<Rightarrow> the (map_of modelPricingTable SONNET_FALLBACK_MODEL))"

subsection \<open>Cost\<close>

record usage_tokens =
  model_name :: string
  inputTokens :: int
  outputTokens :: int
  cacheCreationInputTokens :: int
  cacheReadInputTokens :: int
  reportedCostUsd :: "rat option"
  upstreamInferenceCostUsd :: "rat option"

text \<open>The tier of the highest threshold below the prompt, else the base price.\<close>

definition effective_rates :: "model_pricing \<Rightarrow> int \<Rightarrow> rates" where
  "effective_rates p prompt =
     (case sort_key (\<lambda>t. - inputTokensAbove t) (filter (\<lambda>t. prompt > inputTokensAbove t) (tiers p)) of
        [] \<Rightarrow> rates.truncate p
      | t # ts \<Rightarrow> rates.truncate t)"

definition tokens_cost :: "rates \<Rightarrow> int \<Rightarrow> int \<Rightarrow> int \<Rightarrow> int \<Rightarrow> rat" where
  "tokens_cost r i o' cc cr =
     of_int i * inputPerToken r + of_int o' * outputPerToken r +
     of_int cc * or_default 0 (cacheCreationPerToken r) + of_int cr * or_default 0 (cacheReadPerToken r)"

definition calculateUsageCostUsd :: "usage_tokens \<Rightarrow> rat" where
  "calculateUsageCostUsd u =
     (let prompt = max 0 (inputTokens u) + max 0 (cacheCreationInputTokens u) + max 0 (cacheReadInputTokens u)
      in tokens_cost (effective_rates (lookupPricing (model_name u)) prompt)
           (max 0 (inputTokens u)) (max 0 (outputTokens u))
           (max 0 (cacheCreationInputTokens u)) (max 0 (cacheReadInputTokens u)))"

definition positive_cost :: "rat option \<Rightarrow> bool" where
  "positive_cost c = (case c of None \<Rightarrow> False | Some x \<Rightarrow> x > 0)"

definition calculateEffectiveUsageCostUsd :: "usage_tokens \<Rightarrow> rat" where
  "calculateEffectiveUsageCostUsd u =
     (if positive_cost (reportedCostUsd u) then the (reportedCostUsd u)
      else if positive_cost (upstreamInferenceCostUsd u) then the (upstreamInferenceCostUsd u)
      else calculateUsageCostUsd u)"

subsection \<open>Properties\<close>

definition rates_le :: "'a rates_scheme \<Rightarrow> 'b rates_scheme \<Rightarrow> bool" where
  "rates_le a b \<longleftrightarrow>
     inputPerToken a \<le> inputPerToken b \<and> outputPerToken a \<le> outputPerToken b \<and>
     or_default 0 (cacheCreationPerToken a) \<le> or_default 0 (cacheCreationPerToken b) \<and>
     or_default 0 (cacheReadPerToken a) \<le> or_default 0 (cacheReadPerToken b)"

definition no_rates :: rates where
  "no_rates = \<lparr>inputPerToken = 0, outputPerToken = 0, cacheCreationPerToken = None, cacheReadPerToken = None\<rparr>"

text \<open>No price is negative and the one tier, if any, is not cheaper than the base.\<close>

definition well_priced :: "model_pricing \<Rightarrow> bool" where
  "well_priced p \<longleftrightarrow>
     rates_le no_rates p \<and> length (tiers p) \<le> 1 \<and> list_all (\<lambda>t. rates_le p t) (tiers p)"

lemma tables_well_priced:
  "list_all (\<lambda>(n, p). well_priced p) pricing_table_1"
  "list_all (\<lambda>(n, p). well_priced p) pricing_table_2"
  "list_all (\<lambda>(n, p). well_priced p) pricing_table_3"
  "list_all (\<lambda>(n, p). well_priced p) pricing_table_4"
  by (simp_all add: pricing_table_1_def pricing_table_2_def pricing_table_3_def pricing_table_4_def
      well_priced_def rates_le_def no_rates_def pricing_def pricing_tier_def)

lemma table_well_priced: "map_of modelPricingTable n = Some p \<Longrightarrow> well_priced p"
  using tables_well_priced by (auto simp: modelPricingTable_def list_all_iff dest!: map_of_SomeD)

lemma fallback_known: "map_of modelPricingTable SONNET_FALLBACK_MODEL \<noteq> None"
  by (simp add: modelPricingTable_def SONNET_FALLBACK_MODEL_def pricing_table_1_def map_add_def split: option.split)

lemma lookup_well_priced: "well_priced (lookupPricing model)"
  using fallback_known
  by (auto simp: lookupPricing_def lookupPricingOrNull_def Let_def intro: table_well_priced
      split: option.splits prod.splits)

lemma effective_well_priced:
  assumes "well_priced p" and "m \<le> n"
  shows "rates_le no_rates (effective_rates p m) \<and> rates_le (effective_rates p m) (effective_rates p n)"
proof (cases "tiers p")
  case Nil
  then show ?thesis using assms(1) by (simp add: effective_rates_def well_priced_def rates_le_def rates.defs)
next
  case (Cons t ts)
  with assms(1) have "tiers p = [t]" "rates_le no_rates p" "rates_le p t" by (auto simp: well_priced_def)
  then show ?thesis using assms(2)
    by (auto simp: effective_rates_def rates_le_def no_rates_def rates.defs)
qed

lemma mult_mono_rat: "(0::int) \<le> a \<Longrightarrow> a \<le> b \<Longrightarrow> (0::rat) \<le> x \<Longrightarrow> x \<le> y \<Longrightarrow> of_int a * x \<le> of_int b * y"
  by (intro mult_mono) auto

lemma tokens_cost_mono:
  assumes "rates_le no_rates r" "rates_le r r'"
    and "0 \<le> i" "i \<le> i'" "0 \<le> j" "j \<le> j'" "0 \<le> k" "k \<le> k'" "0 \<le> l" "l \<le> l'"
  shows "0 \<le> tokens_cost r i j k l \<and> tokens_cost r i j k l \<le> tokens_cost r' i' j' k' l'"
  using assms unfolding tokens_cost_def rates_le_def no_rates_def
  by (auto intro!: add_mono mult_mono_rat add_nonneg_nonneg)

text \<open>
  The cost of a usage is never negative, and a usage with more tokens of any kind never costs less,
  also when it passes the threshold of a price tier.
\<close>

theorem usage_cost_monotone:
  assumes "model_name u = model_name v" and "inputTokens u \<le> inputTokens v" and "outputTokens u \<le> outputTokens v"
    and "cacheCreationInputTokens u \<le> cacheCreationInputTokens v" and "cacheReadInputTokens u \<le> cacheReadInputTokens v"
  shows "0 \<le> calculateUsageCostUsd u \<and> calculateUsageCostUsd u \<le> calculateUsageCostUsd v"
proof -
  let ?prompt = "\<lambda>u. max 0 (inputTokens u) + max 0 (cacheCreationInputTokens u) + max 0 (cacheReadInputTokens u)"
  have "?prompt u \<le> ?prompt v" using assms by (intro add_mono max.mono) auto
  note e = effective_well_priced [OF lookup_well_priced [of "model_name u"] this]
  show ?thesis
    unfolding calculateUsageCostUsd_def Let_def assms(1) [symmetric]
    using e assms(2-) by (intro tokens_cost_mono) auto
qed

definition example_tokens :: "int \<Rightarrow> usage_tokens" where
  "example_tokens n =
     \<lparr>model_name = ''openrouter/gpt-5.5-mini'', inputTokens = n, outputTokens = 10, cacheCreationInputTokens = 0,
      cacheReadInputTokens = 0, reportedCostUsd = None, upstreamInferenceCostUsd = None\<rparr>"

lemma usage_cost_monotone_witness:
  "0 \<le> calculateUsageCostUsd (example_tokens 272000) \<and>
   calculateUsageCostUsd (example_tokens 272000) \<le> calculateUsageCostUsd (example_tokens 272001)"
  by (rule usage_cost_monotone) (simp_all add: example_tokens_def)

lemma strip_loop_fixed: "strip_pass (strip_loop s) = strip_loop s"
proof (induction s rule: strip_loop.induct)
  case (1 s)
  then show ?case by (cases "strip_pass s = s") (simp_all add: strip_loop.simps [of s])
qed

text \<open>
  Normalizing a model's name ends, and its result starts with none of the provider prefixes.
\<close>

theorem normalized_name_has_no_prefix:
  "\<not> list_ex (\<lambda>p. js_starts_with p (normalizePricingModel model)) pricing_prefixes"
proof -
  let ?n = "normalizePricingModel model"
  have "strip_pass ?n = ?n" by (simp add: normalizePricingModel_def strip_loop_fixed)
  then have same: "\<forall>p \<in> set pricing_prefixes. strip_prefix p ?n = ?n"
    using strip_fold_same [of pricing_prefixes ?n] by (simp add: strip_pass_def pricing_prefixes_def)
  have "\<not> js_starts_with p ?n" if "p \<in> set pricing_prefixes" for p
  proof
    assume s: "js_starts_with p ?n"
    have "p \<noteq> []" using that by (auto simp: pricing_prefixes_def)
    moreover have "drop (length p) ?n = ?n" using same that s by (auto simp: strip_prefix_def)
    ultimately have "?n = []" by (cases ?n) (metis diff_less length_0_conv length_drop length_greater_0_conv less_irrefl)+
    with s \<open>p \<noteq> []\<close> show False by (simp add: js_starts_with_def)
  qed
  then show ?thesis by (simp add: list_ex_iff)
qed

end
