(* ===== verification/UsageControls.thy ===== *)
theory UsageControls
  imports UsagePricing "HOL-Library.List_Lexorder" "HOL-Library.Char_ord" "HOL-Library.Product_Lexorder"
begin

section \<open>Usage limits of an organization\<close>

text \<open>
  Model of \<open>src/workers/main/src/identity/org/usage-controls.ts\<close> (with \<open>identity/usage.ts\<close>): the
  validation of limits and prices, the metered cost of a request, the status of a user's rolling
  limits and the decision whether a request may start. The tables are lists, the clock is an
  argument. A number that reaches the code as \<open>unknown\<close> is a rational, absent when it is not finite;
  an optional text is absent when it is no string.
\<close>

subsection \<open>Values\<close>

definition MICRO_USD_PER_USD :: int where "MICRO_USD_PER_USD = 1000000"
definition MAX_USER_LLM_LIMITS :: nat where "MAX_USER_LLM_LIMITS = 10"
definition MIN_LIMIT_WINDOW_MS :: int where "MIN_LIMIT_WINDOW_MS = 60000"
definition MAX_LIMIT_WINDOW_MS :: int where "MAX_LIMIT_WINDOW_MS = 5 * 365 * 24 * 60 * 60 * 1000"

datatype usage_kind = Llm | Image | Audio | Capability | Unknown_kind

datatype usage_surface =
  Agent | Subagent | Compaction | Virtual_ai | Auxiliary | Capability_surface | Unknown_surface

datatype cost_source = Provider_reported | Org_override | Builtin_pricing | Legacy_estimate | Unpriced

definition normalizeUsageKind :: "string option \<Rightarrow> usage_kind" where
  "normalizeUsageKind v =
     (if v = Some ''llm'' then Llm else if v = Some ''image'' then Image else if v = Some ''audio'' then Audio
      else if v = Some ''capability'' then Capability else Unknown_kind)"

definition normalizeUsageSurface :: "string option \<Rightarrow> usage_surface" where
  "normalizeUsageSurface v =
     (if v = Some ''agent'' then Agent else if v = Some ''subagent'' then Subagent
      else if v = Some ''compaction'' then Compaction else if v = Some ''virtual_ai'' then Virtual_ai
      else if v = Some ''auxiliary'' then Auxiliary else if v = Some ''capability'' then Capability_surface
      else Unknown_surface)"

definition usageInteger :: "rat option \<Rightarrow> int" where
  "usageInteger v = (case v of None \<Rightarrow> 0 | Some x \<Rightarrow> max 0 \<lfloor>x\<rfloor>)"

definition usageText :: "string option \<Rightarrow> string" where
  "usageText v = (case v of None \<Rightarrow> [] | Some s \<Rightarrow> js_trim s)"

definition js_round :: "rat \<Rightarrow> int" where
  "js_round x = \<lfloor>x + 1/2\<rfloor>"

definition safe_integer :: "int \<Rightarrow> bool" where
  "safe_integer n \<longleftrightarrow> \<bar>n\<bar> \<le> 9007199254740991"

definition finiteNonNegative :: "rat option \<Rightarrow> string \<Rightarrow> (string, rat) result" where
  "finiteNonNegative v field =
     (case v of
        None \<Rightarrow> Inl (field @ '' must be a finite non-negative number'')
      | Some x \<Rightarrow> if x < 0 then Inl (field @ '' must be a finite non-negative number'') else Inr x)"

definition isApproximatelyInteger :: "rat \<Rightarrow> bool" where
  "isApproximatelyInteger v \<longleftrightarrow>
     safe_integer (js_round v) \<and>
     \<bar>v - of_int (js_round v)\<bar> \<le> max (1/1000000) (\<bar>v\<bar> * (1/4503599627370496) * 2)"

definition hasAtMostSixDecimals :: "rat \<Rightarrow> bool" where
  "hasAtMostSixDecimals v = isApproximatelyInteger (v * of_int MICRO_USD_PER_USD)"

definition usdToMicrousd :: "rat option \<Rightarrow> string \<Rightarrow> (string, int) result" where
  "usdToMicrousd v field =
     bind_result (finiteNonNegative v field) (\<lambda>x.
       if \<not> hasAtMostSixDecimals x then Inl (field @ '' must have at most six decimal places'')
       else let micro = js_round (x * of_int MICRO_USD_PER_USD)
            in if \<not> safe_integer micro then Inl (field @ '' is too large'') else Inr micro)"

definition microusdToUsd :: "int \<Rightarrow> rat" where
  "microusdToUsd v = of_int (max 0 v) / of_int MICRO_USD_PER_USD"

subsection \<open>Tables\<close>

record limit_row =
  limit_user :: string
  window_ms :: int
  limit_microusd :: int
  limit_label :: "string option"

record pricing_row =
  price_provider :: string
  price_model :: string
  input_microusd_per_million :: int
  output_microusd_per_million :: int
  cache_creation_microusd_per_million :: int
  cache_read_microusd_per_million :: int

record usage_row =
  usage_id :: int
  usage_user :: string
  usage_kind_of :: usage_kind
  created_at_ms :: int
  metered_cost_microusd :: "int option"

record usage_state =
  user_limits :: "limit_row list"
  pricing_overrides :: "pricing_row list"
  usage_log :: "usage_row list"
  org_members :: "string list"

subsection \<open>Cost of a request\<close>

record strict_cost_input =
  cost_provider :: "string option"
  cost_model :: "string option"
  cost_input_tokens :: "rat option"
  cost_output_tokens :: "rat option"
  cost_cache_creation_tokens :: "rat option"
  cost_cache_read_tokens :: "rat option"
  reported_cost_usd :: "rat option"
  upstream_inference_cost_usd :: "rat option"

definition costFromBuiltin :: "int \<Rightarrow> int \<Rightarrow> int \<Rightarrow> int \<Rightarrow> model_pricing \<Rightarrow> int" where
  "costFromBuiltin i o' cc cr p =
     js_round (of_int MICRO_USD_PER_USD * tokens_cost (effective_rates p (i + cc + cr)) i o' cc cr)"

definition costFromOverride :: "int \<Rightarrow> int \<Rightarrow> int \<Rightarrow> int \<Rightarrow> pricing_row \<Rightarrow> int" where
  "costFromOverride i o' cc cr p =
     js_round (of_int (i * input_microusd_per_million p + o' * output_microusd_per_million p +
       cc * cache_creation_microusd_per_million p + cr * cache_read_microusd_per_million p) / 1000000)"

definition or_unknown :: "string \<Rightarrow> string" where
  "or_unknown s = (if s = [] then ''unknown'' else s)"

definition builtin_compatible :: "string \<Rightarrow> string \<Rightarrow> bool" where
  "builtin_compatible provider model \<longleftrightarrow>
     provider = ''openrouter'' \<or> provider = ''compat'' \<or>
     (provider = ''openai'' \<and> js_includes ''gpt'' model) \<or>
     (provider = ''anthropic'' \<and> js_includes ''claude'' model) \<or>
     (provider = ''bedrock'' \<and> (js_includes ''claude'' model \<or> js_includes ''gpt'' model)) \<or>
     ((provider = ''google'' \<or> provider = ''vertex'') \<and> js_includes ''gemini'' model)"

definition resolveStrictUsageCost :: "usage_state \<Rightarrow> strict_cost_input \<Rightarrow> int option \<times> cost_source" where
  "resolveStrictUsageCost st raw =
     (let provider = or_unknown (usageText (cost_provider raw));
          model = or_unknown (usageText (cost_model raw));
          i = usageInteger (cost_input_tokens raw); o' = usageInteger (cost_output_tokens raw);
          cc = usageInteger (cost_cache_creation_tokens raw); cr = usageInteger (cost_cache_read_tokens raw)
      in case find positive_cost [reported_cost_usd raw, upstream_inference_cost_usd raw] of
           Some c \<Rightarrow> (Some (js_round (the c * of_int MICRO_USD_PER_USD)), Provider_reported)
         | None \<Rightarrow>
             (case find (\<lambda>p. price_provider p = provider \<and> price_model p = model) (pricing_overrides st) of
                Some p \<Rightarrow> (Some (costFromOverride i o' cc cr p), Org_override)
              | None \<Rightarrow>
                  (case (if builtin_compatible (js_lower provider) (js_lower model)
                         then lookupPricingOrNull model else None) of
                     Some p \<Rightarrow> (Some (costFromBuiltin i o' cc cr p), Builtin_pricing)
                   | None \<Rightarrow> (None, Unpriced))))"

subsection \<open>Validation\<close>

record limit_input =
  in_window_hours :: "rat option"
  in_limit_usd :: "rat option"
  in_label :: "string option"

record normalized_limit =
  windowMs :: int
  limitMicrousd :: int
  norm_label :: "string option"

definition text_or_none :: "string \<Rightarrow> string option" where
  "text_or_none s = (if s = [] then None else Some s)"

definition indexed :: "string \<Rightarrow> nat \<Rightarrow> string \<Rightarrow> string" where
  "indexed name i field = name @ ''['' @ show_nat i @ '']'' @ field"

text \<open>One entry, with the windows seen before it.\<close>

definition normalize_limit ::
    "nat \<times> limit_input \<Rightarrow> normalized_limit list \<Rightarrow> (string, normalized_limit list) result" where
  "normalize_limit ix acc =
     (case ix of (i, x) \<Rightarrow>
        bind_result (finiteNonNegative (in_window_hours x) (indexed ''limits'' i ''.window_hours'')) (\<lambda>hours.
          let raw = hours * 60 * 60 * 1000; w = js_round raw in
          if \<not> isApproximatelyInteger raw \<or> w < MIN_LIMIT_WINDOW_MS \<or> w > MAX_LIMIT_WINDOW_MS
          then Inl (indexed ''limits'' i ''.window_hours must be between one minute and five years'')
          else if list_ex (\<lambda>l. windowMs l = w) acc then Inl ''duplicate window_hours''
          else bind_result (finiteNonNegative (in_limit_usd x) (indexed ''limits'' i ''.limit_usd'')) (\<lambda>usd.
            if usd > 1000000000 then Inl (indexed ''limits'' i ''.limit_usd exceeds 1000000000'')
            else bind_result (usdToMicrousd (Some usd) (indexed ''limits'' i ''.limit_usd'')) (\<lambda>micro.
              Inr (acc @ [\<lparr>windowMs = w, limitMicrousd = micro,
                           norm_label = text_or_none (usageText (in_label x))\<rparr>])))))"

definition normalizeLimitInputs :: "limit_input list \<Rightarrow> (string, normalized_limit list) result" where
  "normalizeLimitInputs inputs =
     (if length inputs > MAX_USER_LLM_LIMITS then Inl ''limits must contain at most 10 entries''
      else bind_result (fold_result normalize_limit (enumerate 0 inputs) []) (\<lambda>ls.
             Inr (sort_key windowMs ls)))"

record pricing_input =
  in_provider :: "string option"
  in_model :: "string option"
  in_input_usd :: "rat option"
  in_output_usd :: "rat option"
  in_cache_creation_usd :: "rat option option"
  in_cache_read_usd :: "rat option option"

text \<open>A rate; the outer option of an optional rate is \<open>undefined\<close>.\<close>

definition pricing_rate :: "rat option \<Rightarrow> string \<Rightarrow> (string, int) result" where
  "pricing_rate v field =
     bind_result (finiteNonNegative v field) (\<lambda>x.
       if x > 1000000 then Inl (field @ '' exceeds 1000000'') else usdToMicrousd (Some x) field)"

definition optional_rate :: "rat option option \<Rightarrow> string \<Rightarrow> (string, int) result" where
  "optional_rate v field = (case v of None \<Rightarrow> Inr 0 | Some x \<Rightarrow> pricing_rate x field)"

definition normalize_price ::
    "nat \<times> pricing_input \<Rightarrow> pricing_row list \<Rightarrow> (string, pricing_row list) result" where
  "normalize_price ix acc =
     (case ix of (i, x) \<Rightarrow>
        let provider = usageText (in_provider x); model = usageText (in_model x) in
        if provider = [] \<or> length provider > 200 \<or> model = [] \<or> length model > 200
        then Inl (indexed ''prices'' i '' provider and model must be 1-200 trimmed characters'')
        else if list_ex (\<lambda>p. price_provider p = provider \<and> price_model p = model) acc
        then Inl (''duplicate price for '' @ provider @ ''/'' @ model)
        else bind_result (pricing_rate (in_input_usd x) (indexed ''prices'' i ''.input_usd_per_million'')) (\<lambda>a.
             bind_result (pricing_rate (in_output_usd x) (indexed ''prices'' i ''.output_usd_per_million'')) (\<lambda>b.
             bind_result (optional_rate (in_cache_creation_usd x) (indexed ''prices'' i ''.cache_creation_usd_per_million'')) (\<lambda>c.
             bind_result (optional_rate (in_cache_read_usd x) (indexed ''prices'' i ''.cache_read_usd_per_million'')) (\<lambda>d.
               Inr (acc @ [\<lparr>price_provider = provider, price_model = model, input_microusd_per_million = a,
                            output_microusd_per_million = b, cache_creation_microusd_per_million = c,
                            cache_read_microusd_per_million = d\<rparr>]))))))"

definition normalizePricingInputs :: "pricing_input list \<Rightarrow> (string, pricing_row list) result" where
  "normalizePricingInputs inputs =
     (if length inputs > 500 then Inl ''prices must contain at most 500 entries''
      else bind_result (fold_result normalize_price (enumerate 0 inputs) []) (\<lambda>ps.
             Inr (sort_key (\<lambda>p. (price_provider p, price_model p)) ps)))"

subsection \<open>Operations\<close>

definition replaceUserLimits :: "string option \<Rightarrow> limit_input list \<Rightarrow> usage_state \<Rightarrow> (string, usage_state) result" where
  "replaceUserLimits userId limits st =
     (let u = usageText userId in
      if u = [] \<or> u \<notin> set (org_members st) then Inl ''current organization member not found''
      else bind_result (normalizeLimitInputs limits) (\<lambda>ls.
        Inr (st\<lparr>user_limits := filter (\<lambda>r. limit_user r \<noteq> u) (user_limits st) @
               map (\<lambda>l. \<lparr>limit_user = u, window_ms = windowMs l, limit_microusd = limitMicrousd l,
                         limit_label = norm_label l\<rparr>) ls\<rparr>)))"

definition clearUserLimits :: "string option \<Rightarrow> usage_state \<Rightarrow> usage_state" where
  "clearUserLimits userId st =
     st\<lparr>user_limits := filter (\<lambda>r. limit_user r \<noteq> usageText userId) (user_limits st)\<rparr>"

definition replacePricing :: "pricing_input list \<Rightarrow> usage_state \<Rightarrow> (string, usage_state) result" where
  "replacePricing inputs st =
     bind_result (normalizePricingInputs inputs) (\<lambda>ps. Inr (st\<lparr>pricing_overrides := ps\<rparr>))"

definition loadLimitRows :: "string \<Rightarrow> usage_state \<Rightarrow> limit_row list" where
  "loadLimitRows u st =
     (if u = [] then [] else sort_key window_ms (filter (\<lambda>r. limit_user r = u) (user_limits st)))"

subsection \<open>Status of the limits\<close>

record user_limit =
  dto_window_hours :: rat
  dto_limit_usd :: rat
  dto_label :: "string option"

record limit_status = user_limit +
  spent_usd :: rat
  remaining_usd :: rat
  unpriced_requests :: int
  exceeded :: bool
  retry_at_ms :: "int option"

datatype access_reason = No_limits | Within_limits | Limit_exceeded | Pricing_unavailable

record access_result =
  allowed :: bool
  access_reason :: access_reason
  evaluated_at_ms :: int
  blocking_limit :: "limit_status option"
  access_limits :: "limit_status list"

definition no_limits :: "int \<Rightarrow> access_result" where
  "no_limits now =
     \<lparr>allowed = True, access_reason = No_limits, evaluated_at_ms = now, blocking_limit = None, access_limits = []\<rparr>"

definition limit_dto_label :: "limit_row \<Rightarrow> string option" where
  "limit_dto_label r = (case limit_label r of None \<Rightarrow> None | Some s \<Rightarrow> text_or_none s)"

definition limitDto :: "limit_row \<Rightarrow> user_limit" where
  "limitDto r =
     \<lparr>dto_window_hours = of_int (window_ms r) / 3600000, dto_limit_usd = microusdToUsd (limit_microusd r),
      dto_label = limit_dto_label r\<rparr>"

text \<open>The rows of a user's rolling window at a time.\<close>

definition window_rows :: "usage_state \<Rightarrow> string \<Rightarrow> int \<Rightarrow> int \<Rightarrow> usage_row list" where
  "window_rows st u w now =
     filter (\<lambda>r. usage_user r = u \<and> usage_kind_of r = Llm \<and> created_at_ms r \<ge> now - w \<and> created_at_ms r < now)
       (usage_log st)"

definition row_cost :: "usage_row \<Rightarrow> int" where
  "row_cost r = or_default 0 (metered_cost_microusd r)"

definition spent_microusd :: "usage_state \<Rightarrow> string \<Rightarrow> int \<Rightarrow> int \<Rightarrow> int" where
  "spent_microusd st u w now = sum_list (map row_cost (window_rows st u w now))"

definition unpriced_count :: "usage_state \<Rightarrow> string \<Rightarrow> int \<Rightarrow> int \<Rightarrow> int" where
  "unpriced_count st u w now = int (length (filter (\<lambda>r. metered_cost_microusd r = None) (window_rows st u w now)))"

text \<open>
  The expiry candidates: with the running sum \<open>acc\<close> of the rows in order, the times at which a row and
  all rows before it have left the window, where that brings the spending under the limit.
\<close>

fun expiry_candidates :: "int \<Rightarrow> int \<Rightarrow> int \<Rightarrow> int \<Rightarrow> usage_row list \<Rightarrow> int list" where
  "expiry_candidates spent cap w acc [] = []"
| "expiry_candidates spent cap w acc (r # rs) =
     (let acc' = acc + row_cost r; rest = expiry_candidates spent cap w acc' rs
      in if spent - acc' < cap then (created_at_ms r + w + 1) # rest else rest)"

fun min_option :: "int list \<Rightarrow> int option" where
  "min_option [] = None"
| "min_option (x # xs) = Some (fold min xs x)"

definition retry_at :: "usage_state \<Rightarrow> string \<Rightarrow> int \<Rightarrow> int \<Rightarrow> int \<Rightarrow> int option" where
  "retry_at st u w cap now =
     min_option (expiry_candidates (spent_microusd st u w now) cap w 0
       (sort_key created_at_ms (sort_key usage_id
          (filter (\<lambda>r. metered_cost_microusd r \<noteq> None) (window_rows st u w now)))))"

definition status_of_limit :: "usage_state \<Rightarrow> string \<Rightarrow> int \<Rightarrow> limit_row \<Rightarrow> limit_status" where
  "status_of_limit st u now r =
     (let w = window_ms r; cap = limit_microusd r;
          spent = spent_microusd st u w now; unpriced = unpriced_count st u w now;
          d = limitDto r
      in \<lparr>dto_window_hours = dto_window_hours d, dto_limit_usd = dto_limit_usd d, dto_label = dto_label d,
          spent_usd = microusdToUsd spent, remaining_usd = microusdToUsd (max 0 (cap - spent)),
          unpriced_requests = unpriced, exceeded = (spent \<ge> cap),
          retry_at_ms = (if spent \<ge> cap \<and> unpriced = 0 then retry_at st u w cap now else None)\<rparr>)"

text \<open>The reduction over the exceeded limits: a null retry dominates, else the latest retry.\<close>

definition stricter :: "limit_status option \<Rightarrow> limit_status \<Rightarrow> limit_status option" where
  "stricter blocking candidate =
     (case blocking of
        None \<Rightarrow> Some candidate
      | Some b \<Rightarrow>
          (case retry_at_ms b of
             None \<Rightarrow> Some b
           | Some tb \<Rightarrow>
               (case retry_at_ms candidate of
                  None \<Rightarrow> Some candidate
                | Some tc \<Rightarrow> if tc > tb then Some candidate else Some b)))"

definition user_status :: "usage_state \<Rightarrow> int \<Rightarrow> string \<Rightarrow> access_result" where
  "user_status st now u =
     (let statuses = map (status_of_limit st u now) (loadLimitRows u st) in
      if statuses = [] then no_limits now
      else
        let unpriced = find (\<lambda>s. unpriced_requests s > 0) statuses;
            blocking = foldl stricter None (filter exceeded statuses)
        in \<lparr>allowed = (unpriced = None \<and> blocking = None),
            access_reason = (if unpriced \<noteq> None then Pricing_unavailable
                             else if blocking \<noteq> None then Limit_exceeded else Within_limits),
            evaluated_at_ms = now, blocking_limit = or_else unpriced blocking, access_limits = statuses\<rparr>)"

definition limitStatusesForUsers :: "usage_state \<Rightarrow> string option list \<Rightarrow> int \<Rightarrow> (string \<times> access_result) list" where
  "limitStatusesForUsers st userIds now =
     map (\<lambda>u. (u, user_status st now u))
       (rev (remdups (rev (filter (\<lambda>u. u \<noteq> []) (map usageText userIds)))))"

definition getLimitStatus :: "usage_state \<Rightarrow> string option \<Rightarrow> int \<Rightarrow> access_result" where
  "getLimitStatus st userId now =
     or_default (no_limits now)
       (map_of (limitStatusesForUsers st [userId] now) (usageText userId))"

definition checkAccess :: "usage_state \<Rightarrow> string option \<Rightarrow> string option \<Rightarrow> string option \<Rightarrow> int \<Rightarrow> access_result" where
  "checkAccess st userId provider model now =
     (let status = getLimitStatus st userId now in
      if access_reason status = No_limits then status
      else
        let priced = fst (resolveStrictUsageCost st
              \<lparr>cost_provider = provider, cost_model = model, cost_input_tokens = Some 0, cost_output_tokens = Some 0,
               cost_cache_creation_tokens = Some 0, cost_cache_read_tokens = Some 0,
               reported_cost_usd = None, upstream_inference_cost_usd = None\<rparr>)
        in if priced = None \<or> access_reason status = Pricing_unavailable
           then \<lparr>allowed = False, access_reason = Pricing_unavailable, evaluated_at_ms = now,
                 blocking_limit = (if access_reason status = Pricing_unavailable then blocking_limit status
                                   else case access_limits status of [] \<Rightarrow> None | s # ss \<Rightarrow> Some s),
                 access_limits = access_limits status\<rparr>
           else status)"

end
