(* ===== verification/UsageControlsSafety.thy ===== *)
theory UsageControlsSafety
  imports UsageControls
begin

section \<open>Correctness of usage limits\<close>

text \<open>
  Stored limits are well formed, access is decided by the spending in every window, and the time at
  which a blocked user may retry is exactly the time at which the spending falls below the limit.
\<close>

subsection \<open>Validation\<close>

definition limit_ok :: "normalized_limit \<Rightarrow> bool" where
  "limit_ok l \<longleftrightarrow>
     MIN_LIMIT_WINDOW_MS \<le> windowMs l \<and> windowMs l \<le> MAX_LIMIT_WINDOW_MS \<and>
     0 \<le> limitMicrousd l \<and> limitMicrousd l \<le> 1000000000 * MICRO_USD_PER_USD"

definition limits_ok :: "normalized_limit list \<Rightarrow> bool" where
  "limits_ok ls \<longleftrightarrow> list_all limit_ok ls \<and> distinct (map windowMs ls)"

lemma js_round_mono: "x \<le> y \<Longrightarrow> js_round x \<le> js_round y"
  unfolding js_round_def by (intro floor_mono) simp

lemma js_round_of_int: "js_round (of_int n) = n"
  by (simp add: js_round_def floor_eq_iff)

lemma usdToMicrousd_bounds:
  assumes "usdToMicrousd (Some x) field = Inr m" and "x \<le> of_int k"
  shows "0 \<le> m \<and> m \<le> k * MICRO_USD_PER_USD"
proof -
  from assms(1) have x: "0 \<le> x" "m = js_round (x * of_int MICRO_USD_PER_USD)"
    by (auto simp: usdToMicrousd_def finiteNonNegative_def Let_def split: if_splits)
  have "js_round (of_int 0) \<le> js_round (x * of_int MICRO_USD_PER_USD)"
    using x(1) by (intro js_round_mono) (simp add: MICRO_USD_PER_USD_def)
  moreover have "js_round (x * of_int MICRO_USD_PER_USD) \<le> js_round (of_int (k * MICRO_USD_PER_USD))"
    using assms(2) by (intro js_round_mono) (simp add: MICRO_USD_PER_USD_def)
  ultimately show ?thesis unfolding x(2) js_round_of_int by simp
qed

lemma normalize_limit_ok:
  assumes "normalize_limit ix acc = Inr acc'" and "limits_ok acc"
  shows "limits_ok acc' \<and> length acc' = Suc (length acc)"
proof -
  obtain i x where ix: "ix = (i, x)" by fastforce
  from assms(1) obtain hours usd micro where
    w: "\<not> js_round (hours * 60 * 60 * 1000) < MIN_LIMIT_WINDOW_MS"
      "\<not> MAX_LIMIT_WINDOW_MS < js_round (hours * 60 * 60 * 1000)"
      "\<not> list_ex (\<lambda>l. windowMs l = js_round (hours * 60 * 60 * 1000)) acc" and
    usd: "\<not> 1000000000 < usd" "usdToMicrousd (Some usd) (indexed ''limits'' i ''.limit_usd'') = Inr micro" and
    acc': "acc' = acc @ [\<lparr>windowMs = js_round (hours * 60 * 60 * 1000), limitMicrousd = micro,
             norm_label = text_or_none (usageText (in_label x))\<rparr>]"
    unfolding ix normalize_limit_def by (auto simp: Let_def result_simps split: if_splits)
  have "0 \<le> micro \<and> micro \<le> 1000000000 * MICRO_USD_PER_USD"
    using usdToMicrousd_bounds [OF usd(2), of 1000000000] usd(1) by simp
  then show ?thesis
    using assms(2) w by (auto simp: acc' limits_ok_def limit_ok_def list_ex_iff)
qed

lemma fold_limits_ok:
  "fold_result normalize_limit ixs acc = Inr ls \<Longrightarrow> limits_ok acc \<Longrightarrow>
   limits_ok ls \<and> length ls = length acc + length ixs"
proof (induction ixs arbitrary: acc)
  case (Cons ix ixs)
  then obtain acc' where a: "normalize_limit ix acc = Inr acc'" "fold_result normalize_limit ixs acc' = Inr ls"
    by (auto simp: result_simps)
  from normalize_limit_ok [OF a(1) Cons.prems(2)] Cons.IH [OF a(2)] show ?case by simp
qed simp

lemma limits_ok_sort: "limits_ok (sort_key f ls) = limits_ok ls"
proof -
  have "distinct (map windowMs (sort_key f ls)) = distinct (map windowMs ls)"
    by (simp add: distinct_map)
  then show ?thesis by (simp add: limits_ok_def list_all_iff)
qed

text \<open>
  C37: Accepted limits are well formed: one per entry, at most ten, ordered by distinct windows between
  one minute and five years, each with a cap between zero and a billion dollars.
\<close>

theorem accepted_limits_well_formed:
  assumes "normalizeLimitInputs inputs = Inr ls"
  shows "limits_ok ls \<and> sorted (map windowMs ls) \<and> length ls = length inputs \<and> length ls \<le> MAX_USER_LLM_LIMITS"
proof -
  from assms obtain ls0 where l: "fold_result normalize_limit (enumerate 0 inputs) [] = Inr ls0"
    "ls = sort_key windowMs ls0" "length inputs \<le> MAX_USER_LLM_LIMITS"
    by (auto simp: normalizeLimitInputs_def result_simps split: if_splits)
  have "limits_ok []" by (simp add: limits_ok_def)
  from fold_limits_ok [OF l(1) this] l(2,3) show ?thesis by (simp add: limits_ok_sort)
qed

lemma accepted_limits_well_formed_witness:
  "case normalizeLimitInputs
      [\<lparr>in_window_hours = Some 24, in_limit_usd = Some (1/2), in_label = Some '' day ''\<rparr>,
       \<lparr>in_window_hours = Some 1, in_limit_usd = Some 0, in_label = None\<rparr>] of
     Inl m \<Rightarrow> False
   | Inr ls \<Rightarrow> map windowMs ls = [3600000, 86400000] \<and> limits_ok ls"
proof -
  let ?in = "[\<lparr>in_window_hours = Some 24, in_limit_usd = Some (1/2), in_label = Some '' day ''\<rparr>,
       \<lparr>in_window_hours = Some 1, in_limit_usd = Some 0, in_label = None\<rparr>]"
  let ?out = "[\<lparr>windowMs = 3600000, limitMicrousd = 0, norm_label = None\<rparr>,
       \<lparr>windowMs = 86400000, limitMicrousd = 500000, norm_label = Some ''day''\<rparr>]"
  have r: "normalizeLimitInputs ?in = Inr ?out" by code_simp
  from accepted_limits_well_formed [OF r] show ?thesis by (simp add: r)
qed

subsection \<open>Access\<close>

definition limit_holds :: "usage_state \<Rightarrow> string \<Rightarrow> int \<Rightarrow> limit_row \<Rightarrow> bool" where
  "limit_holds st u now r \<longleftrightarrow>
     unpriced_count st u (window_ms r) now = 0 \<and> spent_microusd st u (window_ms r) now < limit_microusd r"

definition model_priced :: "usage_state \<Rightarrow> string option \<Rightarrow> string option \<Rightarrow> bool" where
  "model_priced st provider model \<longleftrightarrow>
     fst (resolveStrictUsageCost st
       \<lparr>cost_provider = provider, cost_model = model, cost_input_tokens = Some 0, cost_output_tokens = Some 0,
        cost_cache_creation_tokens = Some 0, cost_cache_read_tokens = Some 0,
        reported_cost_usd = None, upstream_inference_cost_usd = None\<rparr>) \<noteq> None"

lemma stricter_Some: "stricter b c \<noteq> None"
  by (auto simp: stricter_def split: option.split)

lemma foldl_stricter: "foldl stricter b cs = None \<longleftrightarrow> b = None \<and> cs = []"
  by (induction cs arbitrary: b) (auto simp: stricter_Some)

lemma unpriced_count_nonneg: "0 \<le> unpriced_count st u w now"
  by (simp add: unpriced_count_def)

lemma status_of_limit_simps:
  "unpriced_requests (status_of_limit st u now r) = unpriced_count st u (window_ms r) now"
  "exceeded (status_of_limit st u now r) = (spent_microusd st u (window_ms r) now \<ge> limit_microusd r)"
  "retry_at_ms (status_of_limit st u now r) =
     (if exceeded (status_of_limit st u now r) \<and> unpriced_count st u (window_ms r) now = 0
      then retry_at st u (window_ms r) (limit_microusd r) now else None)"
  by (simp_all add: status_of_limit_def Let_def)

lemma user_status_allowed: "allowed (user_status st now u) = list_all (limit_holds st u now) (loadLimitRows u st)"
proof -
  have "limit_holds st u now r \<longleftrightarrow>
      \<not> unpriced_requests (status_of_limit st u now r) > 0 \<and> \<not> exceeded (status_of_limit st u now r)" for r
    using unpriced_count_nonneg [of st u "window_ms r" now] by (auto simp: limit_holds_def status_of_limit_simps)
  then show ?thesis
    by (auto simp: user_status_def Let_def no_limits_def foldl_stricter find_None_iff list_all_iff filter_empty_conv)
qed

lemma user_status_reason:
  "access_reason (user_status st now u) = No_limits \<longleftrightarrow> loadLimitRows u st = []"
  "access_reason (user_status st now u) = Pricing_unavailable \<Longrightarrow> \<not> allowed (user_status st now u)"
  by (auto simp: user_status_def Let_def no_limits_def split: if_splits)

lemma getLimitStatus_user:
  "getLimitStatus st userId now = user_status st now (usageText userId)"
  by (simp add: getLimitStatus_def limitStatusesForUsers_def user_status_def loadLimitRows_def)


subsection \<open>The time to retry\<close>

definition expired_cost :: "int \<Rightarrow> int \<Rightarrow> usage_row list \<Rightarrow> int" where
  "expired_cost w now' rs = sum_list (map row_cost (filter (\<lambda>r. created_at_ms r < now' - w) rs))"

lemma expired_cost_none: "\<forall>x \<in> set rs. \<not> created_at_ms x < now' - w \<Longrightarrow> expired_cost w now' rs = 0"
  by (simp add: expired_cost_def filter_empty_conv)

lemma expiry_candidates_exact:
  assumes "sorted (map created_at_ms rs)" and "\<forall>r \<in> set rs. 0 \<le> row_cost r"
  shows "(\<exists>c \<in> set (expiry_candidates s cap w acc rs). c \<le> now') \<longleftrightarrow>
         (\<exists>r \<in> set rs. created_at_ms r < now' - w) \<and> s - (acc + expired_cost w now' rs) < cap"
  using assms
proof (induction rs arbitrary: acc)
  case (Cons r rs)
  let ?c = "\<lambda>acc rs. \<exists>c \<in> set (expiry_candidates s cap w acc rs). c \<le> now'"
  have later: "created_at_ms r \<le> created_at_ms x" if "x \<in> set rs" for x using Cons.prems(1) that by simp
  have IH: "?c acc' rs \<longleftrightarrow>
      (\<exists>r \<in> set rs. created_at_ms r < now' - w) \<and> s - (acc' + expired_cost w now' rs) < cap" for acc'
    using Cons by simp
  have step: "?c acc (r # rs) \<longleftrightarrow>
      (s - (acc + row_cost r) < cap \<and> created_at_ms r + w + 1 \<le> now') \<or> ?c (acc + row_cost r) rs"
    by (simp add: Let_def)
  show ?case
  proof (cases "created_at_ms r < now' - w")
    case True
    have nonneg: "0 \<le> expired_cost w now' rs"
      unfolding expired_cost_def using Cons.prems(2) by (intro sum_list_nonneg) auto
    have e: "expired_cost w now' (r # rs) = row_cost r + expired_cost w now' rs"
      using True by (simp add: expired_cost_def)
    show ?thesis
    proof (cases "\<exists>x \<in> set rs. created_at_ms x < now' - w")
      case some: True
      then show ?thesis unfolding step IH e using True nonneg by auto
    next
      case none: False
      then have "expired_cost w now' rs = 0" by (intro expired_cost_none) auto
      with none show ?thesis unfolding step IH e using True by auto
    qed
  next
    case False
    have "\<not> (\<exists>x \<in> set rs. created_at_ms x < now' - w)" using later False by force
    then show ?thesis unfolding step IH using False by auto
  qed
qed simp

lemma min_option_le: "(case min_option xs of None \<Rightarrow> False | Some m \<Rightarrow> m \<le> t) \<longleftrightarrow> (\<exists>x \<in> set xs. x \<le> t)"
proof (cases xs)
  case (Cons x ys)
  have "fold min ys x \<le> t \<longleftrightarrow> (\<exists>y \<in> set (x # ys). y \<le> t)" for x
    by (induction ys arbitrary: x) (auto simp: min_le_iff_disj)
  with Cons show ?thesis by simp
qed simp

lemma sorted_by_time: "sorted (map created_at_ms (sort_key created_at_ms xs))"
  by simp

lemma row_cost_priced: "sum_list (map row_cost (filter (\<lambda>r. metered_cost_microusd r \<noteq> None) rs)) = sum_list (map row_cost rs)"
  by (induction rs) (auto simp: row_cost_def)

lemma sum_list_sort: "sum_list (map f (sort_key g xs)) = (sum_list (map f xs) :: int)"
proof -
  have "sum_mset (mset (map f (sort_key g xs))) = sum_mset (mset (map f xs))" by simp
  then show ?thesis by (simp only: sum_mset_sum_list)
qed

text \<open>Nothing is logged from \<open>now\<close> on, and costs are not negative.\<close>

definition quiet_log :: "usage_state \<Rightarrow> int \<Rightarrow> bool" where
  "quiet_log st now = list_all (\<lambda>r. created_at_ms r < now \<and> 0 \<le> row_cost r) (usage_log st)"

lemma spent_later:
  assumes "quiet_log st now" and "now \<le> now'"
  shows "spent_microusd st u w now' = spent_microusd st u w now - expired_cost w now' (window_rows st u w now)"
proof -
  have "sum_list (map row_cost (filter (\<lambda>r. usage_user r = u \<and> usage_kind_of r = Llm \<and> created_at_ms r \<ge> now' - w \<and> created_at_ms r < now') rs)) =
      sum_list (map row_cost (filter (\<lambda>r. usage_user r = u \<and> usage_kind_of r = Llm \<and> created_at_ms r \<ge> now - w \<and> created_at_ms r < now) rs)) -
      sum_list (map row_cost (filter (\<lambda>r. created_at_ms r < now' - w)
        (filter (\<lambda>r. usage_user r = u \<and> usage_kind_of r = Llm \<and> created_at_ms r \<ge> now - w \<and> created_at_ms r < now) rs)))"
    if "list_all (\<lambda>r. created_at_ms r < now \<and> 0 \<le> row_cost r) rs" for rs
    using that assms(2) by (induction rs) auto
  then show ?thesis
    using assms(1) unfolding spent_microusd_def window_rows_def expired_cost_def quiet_log_def by blast
qed

text \<open>
  C35: The retry time of an exceeded limit is exact: if nothing more is logged, the spending in the window
  is below the cap at a later time exactly when that time has come; without a retry time it never is.
\<close>

theorem retry_time_exact:
  assumes "quiet_log st now" and "limit_microusd r \<le> spent_microusd st u (window_ms r) now"
    and "unpriced_count st u (window_ms r) now = 0" and "now \<le> later"
  shows "spent_microusd st u (window_ms r) later < limit_microusd r \<longleftrightarrow>
         (case retry_at_ms (status_of_limit st u now r) of None \<Rightarrow> False | Some t \<Rightarrow> t \<le> later)"
proof -
  let ?w = "window_ms r" and ?cap = "limit_microusd r"
  let ?rows = "filter (\<lambda>r. metered_cost_microusd r \<noteq> None) (window_rows st u ?w now)"
  let ?sorted = "sort_key created_at_ms (sort_key usage_id ?rows)"
  have nonneg: "\<forall>r \<in> set ?sorted. 0 \<le> row_cost r"
    using assms(1) by (auto simp: quiet_log_def list_all_iff window_rows_def)
  have exp: "expired_cost ?w later ?sorted = expired_cost ?w later (window_rows st u ?w now)"
  proof -
    have "expired_cost ?w later ?sorted =
        sum_list (map row_cost (filter (\<lambda>r. metered_cost_microusd r \<noteq> None)
          (filter (\<lambda>r. created_at_ms r < later - ?w) (window_rows st u ?w now))))"
      by (simp add: expired_cost_def filter_sort sum_list_sort conj_commute)
    then show ?thesis by (simp only: row_cost_priced expired_cost_def)
  qed
  have "retry_at_ms (status_of_limit st u now r) = retry_at st u ?w ?cap now"
    using assms(2,3) by (simp add: status_of_limit_simps)
  then have "(case retry_at_ms (status_of_limit st u now r) of None \<Rightarrow> False | Some t \<Rightarrow> t \<le> later) \<longleftrightarrow>
      (\<exists>c \<in> set (expiry_candidates (spent_microusd st u ?w now) ?cap ?w 0 ?sorted). c \<le> later)"
    by (simp add: retry_at_def min_option_le)
  also have "\<dots> \<longleftrightarrow> (\<exists>x \<in> set ?sorted. created_at_ms x < later - ?w) \<and>
      spent_microusd st u ?w now - (0 + expired_cost ?w later ?sorted) < ?cap"
    by (rule expiry_candidates_exact [OF sorted_by_time nonneg])
  also have "\<dots> \<longleftrightarrow> spent_microusd st u ?w later < ?cap"
  proof -
    have sl: "spent_microusd st u ?w later = spent_microusd st u ?w now - expired_cost ?w later ?sorted"
      unfolding exp by (rule spent_later [OF assms(1,4)])
    show ?thesis
    proof (cases "\<exists>x \<in> set ?sorted. created_at_ms x < later - ?w")
      case True
      then show ?thesis unfolding sl by (simp only: simp_thms add_0)
    next
      case False
      then have "expired_cost ?w later ?sorted = 0" by (intro expired_cost_none) blast
      with False assms(2) show ?thesis unfolding sl by (simp only: simp_thms diff_zero not_less)
    qed
  qed
  finally show ?thesis by simp
qed

definition example_state :: usage_state where
  "example_state =
     \<lparr>user_limits = [\<lparr>limit_user = ''u'', window_ms = 60000, limit_microusd = 100, limit_label = None\<rparr>],
      pricing_overrides = [],
      usage_log = [\<lparr>usage_id = 1, usage_user = ''u'', usage_kind_of = Llm, created_at_ms = 1000, metered_cost_microusd = Some 70\<rparr>,
                   \<lparr>usage_id = 2, usage_user = ''u'', usage_kind_of = Llm, created_at_ms = 2000, metered_cost_microusd = Some 50\<rparr>],
      org_members = [''u'']\<rparr>"

lemma retry_time_exact_witness:
  "retry_at_ms (status_of_limit example_state ''u'' 3000 (hd (user_limits example_state))) = Some 61001 \<and>
   \<not> spent_microusd example_state ''u'' 60000 61000 < 100 \<and> spent_microusd example_state ''u'' 60000 61001 < 100"
proof -
  let ?r = "hd (user_limits example_state)"
  have t: "retry_at_ms (status_of_limit example_state ''u'' 3000 ?r) = Some 61001" by code_simp
  have q: "quiet_log example_state 3000" "limit_microusd ?r \<le> spent_microusd example_state ''u'' (window_ms ?r) 3000"
    "unpriced_count example_state ''u'' (window_ms ?r) 3000 = 0" by code_simp+
  have r: "window_ms ?r = 60000" "limit_microusd ?r = 100" by (simp_all add: example_state_def)
  show ?thesis
    using retry_time_exact [OF q, of 61000] retry_time_exact [OF q, of 61001] by (simp add: t r)
qed

end
