(* ===== verification/BillingPlans.thy ===== *)
theory BillingPlans
  imports Prelude Complex_Main
begin

section \<open>Billing plans\<close>

text \<open>
  Model of \<open>src/src/lib/billing-plans.ts\<close>: the limits of every plan, the normalization of stored plan
  names, seat counts, and the seats that must be paid for when team members are invited. A seat count is
  a rational, or \<open>None\<close> where the code has \<open>null\<close>, \<open>undefined\<close> or a number that is not finite.
\<close>

subsection \<open>Plans and their limits\<close>

datatype BillingPlan = Free | Payg | Starter | Pro | Team | Enterprise

definition BILLING_PLANS :: "(string \<times> BillingPlan) list" where
  "BILLING_PLANS =
     [(''free'', Free), (''payg'', Payg), (''starter'', Starter), (''pro'', Pro), (''team'', Team),
      (''enterprise'', Enterprise)]"

record BillingPlanLimits =
  plan :: BillingPlan
  label :: string
  monthlyPriceCents :: "int option"
  minimumSeats :: int
  includedWorkspaceCount :: "int option"
  storageGbPerWorkspace :: "int option"
  includedCreditCentsPerSeat :: int
  includedCreditCentsBase :: int
  maxDeployedAppsPerWorkspace :: "int option"
  maxCustomDomains :: "int option"
  maxCronJobsPerWorkspace :: "int option"
  maxCronJobsPerUser :: "int option"
  minCronIntervalMs :: "int option"
  byokOnly :: bool
  emailInbox :: bool

definition PLAN_MINUTE_MS :: int where "PLAN_MINUTE_MS = 60 * 1000"
definition HOUR_MS :: int where "HOUR_MS = 60 * PLAN_MINUTE_MS"
definition DAY_MS :: int where "DAY_MS = 24 * HOUR_MS"

fun BILLING_PLAN_LIMITS :: "BillingPlan \<Rightarrow> BillingPlanLimits" where
  "BILLING_PLAN_LIMITS Free =
     \<lparr>plan = Free, label = ''Free'', monthlyPriceCents = Some 0, minimumSeats = 1,
      includedWorkspaceCount = Some 1, storageGbPerWorkspace = Some 5, includedCreditCentsPerSeat = 0,
      includedCreditCentsBase = 0, maxDeployedAppsPerWorkspace = Some 3, maxCustomDomains = Some 0,
      maxCronJobsPerWorkspace = Some 1, maxCronJobsPerUser = None, minCronIntervalMs = Some DAY_MS,
      byokOnly = True, emailInbox = False\<rparr>"
| "BILLING_PLAN_LIMITS Payg =
     \<lparr>plan = Payg, label = ''Free'', monthlyPriceCents = Some 0, minimumSeats = 1,
      includedWorkspaceCount = Some 1, storageGbPerWorkspace = Some 5, includedCreditCentsPerSeat = 0,
      includedCreditCentsBase = 0, maxDeployedAppsPerWorkspace = Some 3, maxCustomDomains = Some 0,
      maxCronJobsPerWorkspace = Some 1, maxCronJobsPerUser = None, minCronIntervalMs = Some DAY_MS,
      byokOnly = False, emailInbox = False\<rparr>"
| "BILLING_PLAN_LIMITS Starter =
     \<lparr>plan = Starter, label = ''Starter'', monthlyPriceCents = Some 1000, minimumSeats = 1,
      includedWorkspaceCount = Some 1, storageGbPerWorkspace = Some 50, includedCreditCentsPerSeat = 0,
      includedCreditCentsBase = 1000, maxDeployedAppsPerWorkspace = Some 30, maxCustomDomains = Some 10,
      maxCronJobsPerWorkspace = Some 1, maxCronJobsPerUser = None, minCronIntervalMs = Some HOUR_MS,
      byokOnly = False, emailInbox = True\<rparr>"
| "BILLING_PLAN_LIMITS Pro =
     \<lparr>plan = Pro, label = ''Pro'', monthlyPriceCents = Some 4000, minimumSeats = 1,
      includedWorkspaceCount = Some 1, storageGbPerWorkspace = Some 100, includedCreditCentsPerSeat = 0,
      includedCreditCentsBase = 4000, maxDeployedAppsPerWorkspace = None, maxCustomDomains = None,
      maxCronJobsPerWorkspace = Some 50, maxCronJobsPerUser = None,
      minCronIntervalMs = Some (5 * PLAN_MINUTE_MS), byokOnly = False, emailInbox = True\<rparr>"
| "BILLING_PLAN_LIMITS Team =
     \<lparr>plan = Team, label = ''Team'', monthlyPriceCents = Some 5000, minimumSeats = 3,
      includedWorkspaceCount = Some 2, storageGbPerWorkspace = Some 100, includedCreditCentsPerSeat = 5000,
      includedCreditCentsBase = 0, maxDeployedAppsPerWorkspace = None, maxCustomDomains = None,
      maxCronJobsPerWorkspace = None, maxCronJobsPerUser = Some 50,
      minCronIntervalMs = Some (5 * PLAN_MINUTE_MS), byokOnly = False, emailInbox = True\<rparr>"
| "BILLING_PLAN_LIMITS Enterprise =
     \<lparr>plan = Enterprise, label = ''Enterprise'', monthlyPriceCents = None, minimumSeats = 1,
      includedWorkspaceCount = None, storageGbPerWorkspace = None, includedCreditCentsPerSeat = 0,
      includedCreditCentsBase = 0, maxDeployedAppsPerWorkspace = None, maxCustomDomains = None,
      maxCronJobsPerWorkspace = None, maxCronJobsPerUser = None, minCronIntervalMs = None,
      byokOnly = False, emailInbox = True\<rparr>"

definition isBillingPlan :: "string option \<Rightarrow> bool" where
  "isBillingPlan v \<longleftrightarrow> (case v of None \<Rightarrow> False | Some s \<Rightarrow> map_of BILLING_PLANS s \<noteq> None)"

definition normalizeBillingPlan :: "string option \<Rightarrow> string option \<Rightarrow> BillingPlan" where
  "normalizeBillingPlan pl st =
     (if st = Some ''enterprise'' \<or> pl = Some ''enterprise'' then Enterprise
      else if pl = Some ''free'' then Payg
      else if isBillingPlan pl then the (map_of BILLING_PLANS (the pl))
      else if st = Some ''trialing'' \<or> st = Some ''active'' \<or> st = Some ''past_due'' \<or> st = Some ''paying''
           then Starter
      else Payg)"

definition getBillingPlanLimits :: "string option \<Rightarrow> string option \<Rightarrow> BillingPlanLimits" where
  "getBillingPlanLimits pl st = BILLING_PLAN_LIMITS (normalizeBillingPlan pl st)"

subsection \<open>Seats\<close>

record billing_org =
  billing_status :: string
  billing_plan :: "string option"
  billing_seat_count :: "rat option"
  billing_subscription_id :: "string option"
  billing_subscription_status :: "string option"

definition getMinimumSeats :: "BillingPlan \<Rightarrow> int" where
  "getMinimumSeats p = minimumSeats (BILLING_PLAN_LIMITS p)"

definition normalizeSeatCount :: "BillingPlan \<Rightarrow> rat option \<Rightarrow> int" where
  "normalizeSeatCount p seatCount =
     (case seatCount of None \<Rightarrow> getMinimumSeats p | Some n \<Rightarrow> max (getMinimumSeats p) \<lfloor>n\<rfloor>)"

definition getIncludedCreditCentsForPlan :: "BillingPlan \<Rightarrow> rat option \<Rightarrow> int" where
  "getIncludedCreditCentsForPlan p seatCount =
     (let limits = BILLING_PLAN_LIMITS p
      in includedCreditCentsBase limits + includedCreditCentsPerSeat limits * normalizeSeatCount p seatCount)"

definition getOrgBillingPlan :: "billing_org \<Rightarrow> BillingPlan" where
  "getOrgBillingPlan org = normalizeBillingPlan (billing_plan org) (Some (billing_status org))"

definition getOrgSeatCount :: "billing_org \<Rightarrow> int" where
  "getOrgSeatCount org = normalizeSeatCount (getOrgBillingPlan org) (billing_seat_count org)"

definition getOrgSeatLimit :: "billing_org \<Rightarrow> int option" where
  "getOrgSeatLimit org =
     (let p = getOrgBillingPlan org
      in if p = Enterprise then None else if p = Team then Some (getOrgSeatCount org) else Some 1)"

definition isTeamSeatSyncableStatus :: "string \<Rightarrow> bool" where
  "isTeamSeatSyncableStatus st \<longleftrightarrow>
     js_lower (js_trim st) \<in> {''trialing'', ''active'', ''past_due'', ''paying''}"

definition isTeamSeatBillingSyncable :: "billing_org \<Rightarrow> bool" where
  "isTeamSeatBillingSyncable org \<longleftrightarrow>
     (if getOrgBillingPlan org \<noteq> Team \<or> billing_status org = ''enterprise'' then False
      else if js_trim (or_default [] (billing_subscription_id org)) = [] then False
      else let stripe = js_trim (or_default [] (billing_subscription_status org))
           in if stripe \<noteq> [] then isTeamSeatSyncableStatus stripe
              else isTeamSeatSyncableStatus (billing_status org))"

record BillableTeamInviteSeatChange =
  coveredSeatCount :: int
  occupiedSeatCount :: int
  requestedInviteCount :: int
  nextSeatCount :: int
  addedSeatCount :: int
  addedMonthlyAmountCents :: int

definition getBillableTeamInviteSeatChangeForCount ::
    "billing_org \<Rightarrow> int \<Rightarrow> int \<Rightarrow> BillableTeamInviteSeatChange option" where
  "getBillableTeamInviteSeatChangeForCount org occupied requested =
     (if requested \<le> 0 \<or> \<not> isTeamSeatBillingSyncable org then None
      else
        let covered = getOrgSeatCount org;
            next_seats = normalizeSeatCount Team (Some (of_int (occupied + requested)));
            added = max 0 (next_seats - covered)
        in if added = 0 then None
           else Some \<lparr>coveredSeatCount = covered, occupiedSeatCount = occupied, requestedInviteCount = requested,
                      nextSeatCount = next_seats, addedSeatCount = added,
                      addedMonthlyAmountCents = added * or_default 0 (monthlyPriceCents (BILLING_PLAN_LIMITS Team))\<rparr>)"

definition getBillableTeamInviteSeatChange :: "billing_org \<Rightarrow> int \<Rightarrow> BillableTeamInviteSeatChange option" where
  "getBillableTeamInviteSeatChange org occupied = getBillableTeamInviteSeatChangeForCount org occupied 1"

subsection \<open>Facts about plans and seats\<close>

text \<open>A plan limits automations per user or per workspace, never both, and \<open>Free\<close> is never in force.\<close>

lemma one_automation_limit:
  "maxCronJobsPerUser (BILLING_PLAN_LIMITS p) = None \<or> maxCronJobsPerWorkspace (BILLING_PLAN_LIMITS p) = None"
  by (cases p) simp_all

lemma normalized_never_free: "normalizeBillingPlan pl st \<noteq> Free"
  by (auto simp: normalizeBillingPlan_def isBillingPlan_def BILLING_PLANS_def split: option.splits if_splits)

lemma seats_at_least_minimum: "getMinimumSeats p \<le> normalizeSeatCount p s"
  by (cases s) (simp_all add: normalizeSeatCount_def)

text \<open>
  After the billed seats are added, every member and invited member has a seat, and no seat is added
  that nobody takes, unless the plan's minimum asks for it.
\<close>

lemma billed_seats_cover_invites:
  assumes "getBillableTeamInviteSeatChangeForCount org occupied requested = Some c"
  shows "coveredSeatCount c + addedSeatCount c = max (getMinimumSeats Team) (occupied + requested)"
    and "addedMonthlyAmountCents c = 5000 * addedSeatCount c" and "0 < addedSeatCount c"
  using assms
  by (auto simp: getBillableTeamInviteSeatChangeForCount_def Let_def normalizeSeatCount_def split: if_splits)

end
