(* ===== verification/Automations.thy ===== *)
theory Automations
  imports CronSchedule BillingPlans "HOL-Library.List_Lexorder" "HOL-Library.Char_ord" "HOL-Library.Product_Lexorder"
begin

section \<open>Scheduled automations of a workspace\<close>

text \<open>
  Model of \<open>src/workers/main/src/workspace-cron.ts\<close>: the state of one \<open>WorkspaceCronDO\<close> (scheduled
  prompts, deterministic automations with their source versions, the run history and the alarm) and the
  statements and checks its operations are made of. The operations follow in \<open>AutomationOps\<close>. A table is
  a list of rows by primary key in the order of insertion; \<open>UPDATE\<close> and \<open>DELETE\<close> do not change that
  order. Keys the code draws with \<open>crypto.randomUUID()\<close> and readings of the clock are arguments.
\<close>

named_theorems cron_row_simps \<open>columns after a statement\<close>

subsection \<open>Rows\<close>

datatype run_status = Started | Success | Error | Question | Busy
datatype run_kind = Scheduled_prompt | Deterministic_automation
datatype run_trigger = Schedule | Manual
datatype outcome_status = Outcome_success | Outcome_failed | Outcome_partial | Outcome_needs_attention

text \<open>What both tables of schedules have in common, and what each adds.\<close>

record schedule_row =
  name :: string
  cron_expression :: string
  enabled :: bool
  created_by :: string
  created_at :: int
  updated_at :: int
  next_run_at :: "int option"
  last_run_at :: "int option"
  last_run_status :: "run_status option"
  last_run_error :: "string option"
  run_count :: int

record prompt_row = schedule_row +
  prompt :: string
  thread_id :: string
  scheduled_by_thread_id :: "string option"
  last_run_id :: "string option"

record automation_row = schedule_row +
  description :: "string option"
  source :: string
  source_version :: int
  last_instance_id :: "string option"

record version_row =
  version_workspace :: string
  version_source :: string
  version_created_by :: string
  version_created_at :: int

record run_row =
  run_kind :: run_kind
  run_automation :: string
  run_trigger :: run_trigger
  run_status :: run_status
  run_started_at :: int
  run_completed_at :: "int option"
  run_message :: "string option"
  run_thread :: "string option"
  run_instance :: "string option"
  run_created_at :: int
  reported_status :: "outcome_status option"
  reported_summary :: "string option"

text \<open>What is sent to the agent runtime and to the workflow engine.\<close>

record turn_request =
  turn_thread :: string
  turn_user :: string
  turn_run :: string
  turn_message :: string

record workflow_request =
  workflow_instance :: string
  workflow_automation :: string
  workflow_version :: int
  workflow_name :: string
  workflow_scheduled_for :: int
  workflow_triggered_at :: int
  workflow_trigger :: run_trigger

record cron_world =
  workspace_key :: "string option"
  prompts :: "(string \<times> prompt_row) list"
  automations :: "(string \<times> automation_row) list"
  versions :: "((string \<times> int) \<times> version_row) list"
  runs :: "(string \<times> run_row) list"
  alarm_at :: "int option"
  turn_requests :: "turn_request list"
  workflow_requests :: "workflow_request list"

text \<open>What the other operations do while one awaits.\<close>

type_synonym others = "cron_world \<Rightarrow> cron_world"

datatype cron_failure = Cron_failure cron_error | Failure string

type_synonym 'a outcome = "(cron_failure, 'a) result \<times> cron_world"

definition cron_result :: "(cron_error, 'a) result \<Rightarrow> (cron_failure, 'a) result" where
  "cron_result r = (case r of Inl e \<Rightarrow> Inl (Cron_failure e) | Inr a \<Rightarrow> Inr a)"

text \<open>An answer of another object or service: a value or the message of the error it throws.\<close>

type_synonym 'a answer = "(string, 'a) result"

definition from_service :: "'a answer \<Rightarrow> (cron_failure, 'a) result" where
  "from_service r = (case r of Inl m \<Rightarrow> Inl (Failure m) | Inr a \<Rightarrow> Inr a)"

text \<open>Sequencing: an error stops the operation and leaves what was written.\<close>

definition checked :: "(cron_failure, 'a) result \<Rightarrow> ('a \<Rightarrow> cron_world \<Rightarrow> 'b outcome) \<Rightarrow> cron_world \<Rightarrow> 'b outcome" where
  "checked r f w = (case r of Inl e \<Rightarrow> (Inl e, w) | Inr a \<Rightarrow> f a w)"

definition then_do :: "'a outcome \<Rightarrow> ('a \<Rightarrow> cron_world \<Rightarrow> 'b outcome) \<Rightarrow> 'b outcome" where
  "then_do p f = checked (fst p) f (snd p)"

lemma checked_simps [simp]: "checked (Inl e) f w = (Inl e, w)" "checked (Inr a) f w = f a w"
  by (simp_all add: checked_def)

lemma then_do_simps [simp]: "then_do (Inl e, w) f = (Inl e, w)" "then_do (Inr a, w) f = f a w"
  by (simp_all add: then_do_def)

definition MAX_DUE_JOBS_PER_ALARM :: nat where "MAX_DUE_JOBS_PER_ALARM = 20"
definition BILLING_BLOCK_RECHECK_MS :: int where "BILLING_BLOCK_RECHECK_MS = 6 * 60 * 60 * 1000"
definition SCHEDULE_BLOCKED_BY_BILLING_PREFIX :: string where
  "SCHEDULE_BLOCKED_BY_BILLING_PREFIX = ''Schedule blocked by billing plan:''"
definition AUTOMATION_RUN_RETENTION :: nat where "AUTOMATION_RUN_RETENTION = 20"
definition AUTOMATION_RUNS_PAGE_SIZE :: int where "AUTOMATION_RUNS_PAGE_SIZE = 20"
definition AUTOMATION_RUNS_PAGE_MAX :: int where "AUTOMATION_RUNS_PAGE_MAX = 50"

text \<open>\<open>!t\<close> for a time: \<open>null\<close> and \<open>0\<close> are falsy.\<close>

definition no_time :: "int option \<Rightarrow> bool" where
  "no_time t \<longleftrightarrow> t = None \<or> t = Some 0"

definition next_run :: "string \<Rightarrow> int \<Rightarrow> (cron_failure, int option) result" where
  "next_run expr fromMs = cron_result (getNextCronRunAt_string expr fromMs)"

subsection \<open>Arguments\<close>

definition require :: "string \<Rightarrow> int \<Rightarrow> string \<Rightarrow> string \<Rightarrow> (cron_failure, string) result" where
  "require field max_length too_long v =
     (let trimmed = js_trim v
      in if trimmed = [] then Inl (Failure (field @ '' is required''))
         else if int (length trimmed) > max_length then Inl (Failure (field @ too_long))
         else Inr trimmed)"

definition parseName :: "string \<Rightarrow> (cron_failure, string) result" where
  "parseName = require ''name'' 120 '' must be 120 characters or fewer''"

definition parsePrompt :: "string \<Rightarrow> (cron_failure, string) result" where
  "parsePrompt = require ''prompt'' 20000 '' must be 20000 characters or fewer''"

definition parseDescription :: "string \<Rightarrow> (cron_failure, string) result" where
  "parseDescription = require ''description'' 500 '' must be 500 characters or fewer''"

definition parseAutomationSource :: "string \<Rightarrow> (cron_failure, string) result" where
  "parseAutomationSource v =
     (if js_trim v = [] then Inl (Failure ''source is required'')
      else if int (length v) > 100000 then Inl (Failure ''source must be 100000 characters or fewer'')
      else Inr v)"

definition parseOptionalThreadId :: "string option \<Rightarrow> string option" where
  "parseOptionalThreadId v =
     (case v of None \<Rightarrow> None | Some s \<Rightarrow> let trimmed = js_trim s in if trimmed = [] then None else Some trimmed)"

definition normalizeCronExpression :: "string \<Rightarrow> (cron_failure, string) result" where
  "normalizeCronExpression v =
     (let trimmed = collapse_spaces (js_trim v)
      in if trimmed = [] then Inl (Failure ''cronExpression is required'')
         else if int (length trimmed) > 100 then Inl (Failure ''cronExpression must be 100 characters or fewer'')
         else bind_result (cron_result (parseCronExpression trimmed)) (\<lambda>_. Inr trimmed))"

definition creator :: "string option \<Rightarrow> string" where
  "creator v = (let t = js_trim (or_default [] v) in if t = [] then ''system'' else t)"

subsection \<open>The workspace of a scheduler\<close>

definition normalizeWorkspaceId :: "string \<Rightarrow> (cron_failure, string) result" where
  "normalizeWorkspaceId workspaceId =
     (let normalized = js_trim workspaceId
      in if normalized = [] then Inl (Failure ''workspaceId is required'') else Inr normalized)"

definition assertWorkspaceIdentity :: "string \<Rightarrow> cron_world \<Rightarrow> string outcome" where
  "assertWorkspaceIdentity workspaceId w =
     checked (normalizeWorkspaceId workspaceId) (\<lambda>normalized w.
       let stored = or_default [] (workspace_key w)
       in if stored = [] then (Inr normalized, w\<lparr>workspace_key := Some normalized\<rparr>)
          else if stored \<noteq> normalized then (Inl (Failure ''Workspace scheduler context mismatch''), w)
          else (Inr normalized, w)) w"

definition getStoredWorkspaceId :: "cron_world \<Rightarrow> string option" where
  "getStoredWorkspaceId w =
     (let trimmed = js_trim (or_default [] (workspace_key w)) in if trimmed = [] then None else Some trimmed)"

record workspace_info =
  info_workspace :: string
  info_org :: string
  info_archived :: bool

text \<open>\<open>getInfo\<close> of the workspace's Durable Object answers \<open>null\<close> or a row, or throws.\<close>

definition getWorkspaceInfo :: "workspace_info option answer \<Rightarrow> (cron_failure, workspace_info) result" where
  "getWorkspaceInfo answer =
     bind_result (from_service answer) (\<lambda>info. case info of
        None \<Rightarrow> Inl (Failure ''Workspace not found or archived'')
      | Some i \<Rightarrow> if info_archived i then Inl (Failure ''Workspace not found or archived'') else Inr i)"

subsection \<open>Run history\<close>

text \<open>\<open>ORDER BY started_at DESC, id DESC\<close>\<close>

definition newest_first :: "(string \<times> run_row) list \<Rightarrow> (string \<times> run_row) list" where
  "newest_first rs = rev (sort_key (\<lambda>(i, r). (run_started_at r, i)) rs)"

definition runs_of :: "run_kind \<Rightarrow> string \<Rightarrow> cron_world \<Rightarrow> (string \<times> run_row) list" where
  "runs_of kind a w = filter (\<lambda>(i, r). run_kind r = kind \<and> run_automation r = a) (runs w)"

definition trimAutomationRuns :: "run_kind \<Rightarrow> string \<Rightarrow> cron_world \<Rightarrow> cron_world" where
  "trimAutomationRuns kind a w =
     (let kept = map fst (take AUTOMATION_RUN_RETENTION (newest_first (runs_of kind a w)))
      in w\<lparr>runs := filter (\<lambda>(i, r). \<not> (run_kind r = kind \<and> run_automation r = a \<and> i \<notin> set kept)) (runs w)\<rparr>)"

definition insertAutomationRun :: "string \<Rightarrow> run_row \<Rightarrow> cron_world \<Rightarrow> cron_world" where
  "insertAutomationRun i r w = trimAutomationRuns (run_kind r) (run_automation r) (w\<lparr>runs := runs w @ [(i, r)]\<rparr>)"

text \<open>The row an insertion makes: nothing was reported, \<open>created\<close> is the reading of the clock.\<close>

definition new_run ::
    "run_kind \<Rightarrow> string \<Rightarrow> run_trigger \<Rightarrow> run_status \<Rightarrow> int \<Rightarrow> int option \<Rightarrow> string option \<Rightarrow> string option \<Rightarrow>
     string option \<Rightarrow> int \<Rightarrow> run_row" where
  "new_run kind a trigger st startedAt completedAt msg threadId instanceId created =
     \<lparr>run_kind = kind, run_automation = a, run_trigger = trigger, run_status = st, run_started_at = startedAt,
      run_completed_at = completedAt, run_message = msg, run_thread = threadId, run_instance = instanceId,
      run_created_at = created, reported_status = None, reported_summary = None\<rparr>"

text \<open>\<open>UPDATE automation_runs ... WHERE\<close> a condition; the flag tells that a row was written.\<close>

definition update_runs :: "(string \<Rightarrow> run_row \<Rightarrow> bool) \<Rightarrow> (run_row \<Rightarrow> run_row) \<Rightarrow> cron_world \<Rightarrow> bool \<times> cron_world" where
  "update_runs P f w =
     (list_ex (\<lambda>(i, r). P i r) (runs w), w\<lparr>runs := map (\<lambda>(i, r). (i, if P i r then f r else r)) (runs w)\<rparr>)"

text \<open>
  \<open>completedAt\<close> of the argument: left out, \<open>null\<close> or a number.
\<close>

datatype completion = Completion_default | Completion_null | Completed_at int

definition updateAutomationRunById ::
    "string \<Rightarrow> run_kind \<Rightarrow> string \<Rightarrow> run_status \<Rightarrow> string option \<Rightarrow> completion \<Rightarrow> int \<Rightarrow> cron_world \<Rightarrow> bool \<times> cron_world" where
  "updateAutomationRunById i kind a st msg completion now =
     (let completedAt = (case completion of
            Completion_null \<Rightarrow> None
          | Completed_at t \<Rightarrow> Some t
          | Completion_default \<Rightarrow> if st = Started \<or> st = Question then None else Some now)
      in update_runs (\<lambda>j r. j = i \<and> run_kind r = kind \<and> run_automation r = a)
           (\<lambda>r. r\<lparr>run_status := st, run_message := msg, run_completed_at := completedAt\<rparr>))"

definition updateDeterministicRunByInstance ::
    "string \<Rightarrow> string \<Rightarrow> run_status \<Rightarrow> string option \<Rightarrow> int \<Rightarrow> cron_world \<Rightarrow> bool \<times> cron_world" where
  "updateDeterministicRunByInstance a instanceId st msg now =
     update_runs (\<lambda>_ r. run_kind r = Deterministic_automation \<and> run_automation r = a \<and> run_instance r = Some instanceId)
       (\<lambda>r. r\<lparr>run_status := st, run_message := msg, run_completed_at := Some now\<rparr>)"

definition getAutomationRunRow :: "run_kind \<Rightarrow> string \<Rightarrow> string \<Rightarrow> cron_world \<Rightarrow> run_row option" where
  "getAutomationRunRow kind a i w =
     (case map_of (runs w) i of
        Some r \<Rightarrow> if run_kind r = kind \<and> run_automation r = a then Some r else None
      | None \<Rightarrow> None)"

subsection \<open>Limits of the billing plan\<close>

text \<open>\<open>Math.round(ms / MINUTE)\<close>; the intervals of the plans are positive.\<close>

definition formatInterval :: "int \<Rightarrow> string" where
  "formatInterval ms =
     (let unit = (\<lambda>n singular. show_nat (nat n) @ '' '' @ singular @ (if n = 1 then [] else ''s''))
      in if ms mod (24 * 60 * 60 * 1000) = 0 then unit (ms div (24 * 60 * 60 * 1000)) ''day''
         else if ms mod (60 * 60 * 1000) = 0 then unit (ms div (60 * 60 * 1000)) ''hour''
         else unit ((2 * ms + 60 * 1000) div (2 * (60 * 1000))) ''minute'')"

text \<open>\<open>style\<close>: the message of a rejected edit (\<open>assert\<close>) or of a blocked run (\<open>runtime\<close>).\<close>

datatype message_style = Assert_style | Runtime_style

definition plan_subject :: "message_style \<Rightarrow> string" where
  "plan_subject style = (if style = Assert_style then ''Your current billing plan'' else ''your current plan'')"

definition formatAutomationCountLimitMessage :: "int \<Rightarrow> string \<Rightarrow> message_style \<Rightarrow> string" where
  "formatAutomationCountLimitMessage n scope style =
     plan_subject style @ '' allows '' @ show_nat (nat n) @ '' automation'' @ (if n = 1 then [] else ''s'') @
     '' per '' @ scope @ ''.''"

text \<open>\<open>isSelfhostRuntime\<close> and the answer of the organization's \<open>getInfo\<close> (plan and status) are arguments.\<close>

definition getWorkspaceBillingLimits ::
    "bool \<Rightarrow> (string option \<times> string option) answer \<Rightarrow> (cron_failure, BillingPlanLimits) result" where
  "getWorkspaceBillingLimits selfhost org =
     (if selfhost then Inr (getBillingPlanLimits (Some ''enterprise'') (Some ''enterprise''))
      else bind_result (from_service org) (\<lambda>(pl, st). Inr (getBillingPlanLimits pl st)))"

text \<open>\<open>getCronMinimumIntervalMs\<close> starts its search at its reading of the clock.\<close>

definition getCronBillingIntervalViolation ::
    "string \<Rightarrow> BillingPlanLimits \<Rightarrow> message_style \<Rightarrow> int \<Rightarrow> (cron_failure, string option) result" where
  "getCronBillingIntervalViolation expr limits style now =
     (case minCronIntervalMs limits of
        None \<Rightarrow> Inr None
      | Some least \<Rightarrow>
          bind_result (cron_result (getCronMinimumIntervalMs_string expr now)) (\<lambda>actual. case actual of
             None \<Rightarrow> Inr None
           | Some ms \<Rightarrow>
               if ms < least
               then Inr (Some (plan_subject style @ '' allows automations no more frequent than every '' @
                               formatInterval least @ ''.''))
               else Inr None))"

text \<open>
  The enabled automations of both kinds that a limit counts, oldest first: \<open>(created_at, id)\<close> and kind.
\<close>

definition enabled_rows :: "run_kind \<Rightarrow> string option \<Rightarrow> (string \<times> 'a schedule_row_scheme) list \<Rightarrow> ((int \<times> string) \<times> run_kind) list" where
  "enabled_rows kind createdBy t =
     map (\<lambda>(i, r). ((created_at r, i), kind))
       (filter (\<lambda>(i, r). enabled r \<and> (case createdBy of None \<Rightarrow> True | Some u \<Rightarrow> created_by r = u)) t)"

definition getEnabledAutomationLimitRows :: "string option \<Rightarrow> cron_world \<Rightarrow> ((int \<times> string) \<times> run_kind) list" where
  "getEnabledAutomationLimitRows createdBy w =
     sort_key fst (enabled_rows Scheduled_prompt createdBy (prompts w) @
                   enabled_rows Deterministic_automation createdBy (automations w))"

text \<open>\<open>findIndex\<close>\<close>

fun find_index :: "('a \<Rightarrow> bool) \<Rightarrow> 'a list \<Rightarrow> nat option" where
  "find_index P [] = None"
| "find_index P (x # xs) = (if P x then Some 0 else map_option Suc (find_index P xs))"

definition count_violation :: "run_kind \<Rightarrow> string \<Rightarrow> ((int \<times> string) \<times> run_kind) list \<Rightarrow> int \<Rightarrow> string \<Rightarrow> string option" where
  "count_violation kind a rows n scope =
     (if int (length rows) \<le> n then None
      else case find_index (\<lambda>((c, i), k). k = kind \<and> i = a) rows of
             Some ix \<Rightarrow> if int ix < n then None else Some (formatAutomationCountLimitMessage n scope Runtime_style)
           | None \<Rightarrow> Some (formatAutomationCountLimitMessage n scope Runtime_style))"

definition getAutomationCountViolation ::
    "run_kind \<Rightarrow> string \<Rightarrow> string \<Rightarrow> BillingPlanLimits \<Rightarrow> cron_world \<Rightarrow> string option" where
  "getAutomationCountViolation kind a createdBy limits w =
     (case maxCronJobsPerUser limits of
        Some n \<Rightarrow> count_violation kind a (getEnabledAutomationLimitRows (Some createdBy) w) n ''user''
      | None \<Rightarrow> (case maxCronJobsPerWorkspace limits of
            Some n \<Rightarrow> count_violation kind a (getEnabledAutomationLimitRows None w) n ''workspace''
          | None \<Rightarrow> None))"

definition getRuntimeBillingViolation ::
    "run_kind \<Rightarrow> string \<Rightarrow> string \<Rightarrow> string \<Rightarrow> BillingPlanLimits \<Rightarrow> int \<Rightarrow> cron_world \<Rightarrow> (cron_failure, string option) result" where
  "getRuntimeBillingViolation kind a expr createdBy limits now w =
     bind_result (getCronBillingIntervalViolation expr limits Runtime_style now) (\<lambda>v. case v of
        Some m \<Rightarrow> Inr (Some m)
      | None \<Rightarrow> Inr (getAutomationCountViolation kind a createdBy limits w))"

definition formatScheduleBlockedByBillingMessage :: "string \<Rightarrow> string" where
  "formatScheduleBlockedByBillingMessage msg = SCHEDULE_BLOCKED_BY_BILLING_PREFIX @ '' '' @ msg"

definition isScheduleBlockedByBillingMessage :: "string option \<Rightarrow> bool" where
  "isScheduleBlockedByBillingMessage msg \<longleftrightarrow>
     (case msg of None \<Rightarrow> False
      | Some m \<Rightarrow> take (length SCHEDULE_BLOCKED_BY_BILLING_PREFIX) m = SCHEDULE_BLOCKED_BY_BILLING_PREFIX)"

text \<open>\<open>COUNT(*)\<close> over both tables, leaving out one id.\<close>

definition count_enabled :: "string option \<Rightarrow> string \<Rightarrow> cron_world \<Rightarrow> int" where
  "count_enabled createdBy except w =
     int (length (filter (\<lambda>((c, i), k). i \<noteq> except)
        (enabled_rows Scheduled_prompt createdBy (prompts w) @
         enabled_rows Deterministic_automation createdBy (automations w))))"

text \<open>\<open>assertCronWithinBillingLimits\<close>, after the limits were fetched.\<close>

definition assertCronWithinBillingLimits ::
    "BillingPlanLimits \<Rightarrow> string \<Rightarrow> string \<Rightarrow> string option \<Rightarrow> int \<Rightarrow> cron_world \<Rightarrow> (cron_failure, unit) result" where
  "assertCronWithinBillingLimits limits expr createdBy existing now w =
     bind_result (getCronBillingIntervalViolation expr limits Assert_style now) (\<lambda>v. case v of
        Some m \<Rightarrow> Inl (Failure m)
      | None \<Rightarrow>
          (case maxCronJobsPerUser limits of
             Some n \<Rightarrow>
               if count_enabled (Some createdBy) (or_default [] existing) w \<ge> n
               then Inl (Failure (formatAutomationCountLimitMessage n ''user'' Assert_style)) else Inr ()
           | None \<Rightarrow> (case maxCronJobsPerWorkspace limits of
               Some n \<Rightarrow>
                 if count_enabled None (or_default [] existing) w \<ge> n
                 then Inl (Failure (formatAutomationCountLimitMessage n ''workspace'' Assert_style)) else Inr ()
             | None \<Rightarrow> Inr ())))"

subsection \<open>The alarm\<close>

text \<open>The runs the alarm waits for: \<open>WHERE enabled = 1 AND next_run_at IS NOT NULL\<close>.\<close>

definition next_runs :: "(string \<times> 'a schedule_row_scheme) list \<Rightarrow> int list" where
  "next_runs t = List.map_filter (\<lambda>(i, r). if enabled r then next_run_at r else None) t"

definition all_next_runs :: "cron_world \<Rightarrow> int list" where
  "all_next_runs w = next_runs (prompts w) @ next_runs (automations w)"

definition earliest_run :: "cron_world \<Rightarrow> int option" where
  "earliest_run w = (let ts = all_next_runs w in if ts = [] then None else Some (foldr min ts (hd ts)))"

definition scheduleNextAlarm :: "int \<Rightarrow> cron_world \<Rightarrow> cron_world" where
  "scheduleNextAlarm now w =
     (let nextRunAt = earliest_run w
      in if no_time nextRunAt then w\<lparr>alarm_at := None\<rparr>
         else w\<lparr>alarm_at := Some (max (now + 1000) (the nextRunAt))\<rparr>)"

text \<open>\<open>WHERE enabled = 1 AND next_run_at <= ? ORDER BY next_run_at LIMIT ?\<close>\<close>

definition is_due :: "int \<Rightarrow> 'a schedule_row_scheme \<Rightarrow> bool" where
  "is_due now r \<longleftrightarrow> enabled r \<and> (case next_run_at r of None \<Rightarrow> False | Some t \<Rightarrow> t \<le> now)"

definition due_rows :: "int \<Rightarrow> (string \<times> 'a schedule_row_scheme) list \<Rightarrow> (string \<times> 'a schedule_row_scheme) list" where
  "due_rows now t =
     take MAX_DUE_JOBS_PER_ALARM (sort_key (\<lambda>(i, r). or_default 0 (next_run_at r)) (filter (\<lambda>(i, r). is_due now r) t))"

definition hasDueScheduledWork :: "int \<Rightarrow> cron_world \<Rightarrow> bool" where
  "hasDueScheduledWork now w \<longleftrightarrow>
     list_ex (\<lambda>(i, r). is_due now r) (prompts w) \<or> list_ex (\<lambda>(i, r). is_due now r) (automations w)"

text \<open>\<open>UPDATE scheduled_prompts ... WHERE id = ?\<close> and the same for automations.\<close>

definition update_prompt :: "string \<Rightarrow> (prompt_row \<Rightarrow> prompt_row) \<Rightarrow> cron_world \<Rightarrow> cron_world" where
  "update_prompt i f w = w\<lparr>prompts := update_row i f (prompts w)\<rparr>"

definition update_automation :: "string \<Rightarrow> (automation_row \<Rightarrow> automation_row) \<Rightarrow> cron_world \<Rightarrow> cron_world" where
  "update_automation i f w = w\<lparr>automations := update_row i f (automations w)\<rparr>"

text \<open>\<open>toAutomation\<close>: the stored description is checked again.\<close>

definition toAutomation :: "automation_row \<Rightarrow> (cron_failure, automation_row) result" where
  "toAutomation r =
     bind_result (parseDescription (or_default (name r) (description r))) (\<lambda>d. Inr (r\<lparr>description := Some d\<rparr>))"

end
