(* ===== verification/AutomationOps.thy ===== *)
theory AutomationOps
  imports Automations
begin

section \<open>Operations of a workspace's scheduler\<close>

text \<open>
  The operations of \<open>WorkspaceCronDO\<close> on the state of \<open>Automations\<close>. An operation that awaits another
  object or service takes its answer and, for each such moment, what the other operations of the
  scheduler do meanwhile: a function on worlds, as others may run whenever an operation awaits anything
  but its own storage. Threads, models and workflow runs are created by services; their answers are
  arguments. \<open>wrapWorkflowBinding\<close>, the worker loader and the agent runtime are not part of the model.
\<close>

subsection \<open>Answers of services\<close>

record service_env =
  is_selfhost :: bool
  workspace_answer :: "workspace_info option answer"
  after_workspace :: others
  org_answer :: "(string option \<times> string option) answer"
  after_org :: others

definition fetch_workspace :: "'a service_env_scheme \<Rightarrow> cron_world \<Rightarrow> workspace_info outcome" where
  "fetch_workspace e w = (getWorkspaceInfo (workspace_answer e), after_workspace e w)"

definition fetch_limits :: "'a service_env_scheme \<Rightarrow> cron_world \<Rightarrow> BillingPlanLimits outcome" where
  "fetch_limits e w =
     (getWorkspaceBillingLimits (is_selfhost e) (org_answer e), if is_selfhost e then w else after_org e w)"

subsection \<open>Automation source\<close>

definition is_word_char :: "char \<Rightarrow> bool" where
  "is_word_char c \<longleftrightarrow>
     (let n = (of_char c :: nat)
      in is_digit c \<or> (65 \<le> n \<and> n \<le> 90) \<or> (97 \<le> n \<and> n \<le> 122) \<or> n = 95)"

text \<open>The words one after the other, with white space between them and a word boundary at the end.\<close>

fun match_words :: "string list \<Rightarrow> string \<Rightarrow> bool" where
  "match_words [] s = (s = [] \<or> \<not> is_word_char (hd s))"
| "match_words [x] s = (take (length x) s = x \<and> match_words [] (drop (length x) s))"
| "match_words (x # y # xs) s =
     (take (length x) s = x \<and>
      (let u = drop (length x) s in u \<noteq> [] \<and> is_js_space (hd u) \<and> match_words (y # xs) (dropWhile is_js_space u)))"

text \<open>The regular expression's search; the flag tells that a word character precedes.\<close>

fun find_words :: "string list \<Rightarrow> bool \<Rightarrow> string \<Rightarrow> bool" where
  "find_words xs after_word [] = False"
| "find_words xs after_word (c # cs) =
     ((\<not> after_word \<and> match_words xs (c # cs)) \<or> find_words xs (is_word_char c) cs)"

definition exports_workflow :: "string \<Rightarrow> bool" where
  "exports_workflow s = find_words [''export'', ''class'', ''AutomationWorkflow'', ''extends'', ''WorkflowEntrypoint''] False s"

text \<open>\<open>loader\<close>: the error of the worker loader, when there is a loader and it throws.\<close>

definition validateDeterministicAutomationSource :: "string option \<Rightarrow> string \<Rightarrow> (cron_failure, string list) result" where
  "validateDeterministicAutomationSource loader source_text =
     bind_result (parseAutomationSource source_text) (\<lambda>normalized.
       Inr ((if exports_workflow normalized then []
             else [''source must export `class AutomationWorkflow extends WorkflowEntrypoint`'']) @
            (case loader of None \<Rightarrow> [] | Some m \<Rightarrow> [m])))"

definition assertValidDeterministicAutomationSource :: "string option \<Rightarrow> string \<Rightarrow> (cron_failure, unit) result" where
  "assertValidDeterministicAutomationSource loader source_text =
     bind_result (validateDeterministicAutomationSource loader source_text) (\<lambda>errors.
       if errors = [] then Inr ()
       else Inl (Failure (''Invalid deterministic automation source: '' @ join ''; '' errors)))"

subsection \<open>Creating\<close>

record create_env = service_env +
  limits_now :: int
  create_now :: int
  thread_answer :: "string answer"
  after_thread :: others
  loader_error :: "string option"
  new_id :: string
  rearm_now :: int

record prompt_input =
  in_workspace :: string
  in_name :: string
  in_prompt :: string
  in_cron :: string
  in_creator :: "string option"
  in_origin :: "string option"
  in_enabled :: "bool option"

record automation_input =
  in_workspace :: string
  in_name :: string
  in_description :: string
  in_source :: string
  in_cron :: string
  in_creator :: "string option"
  in_enabled :: "bool option"

text \<open>Fetches the plan and checks the schedule against it; \<open>enabled\<close> schedules only.\<close>

definition within_limits ::
    "bool \<Rightarrow> 'a service_env_scheme \<Rightarrow> int \<Rightarrow> string \<Rightarrow> string \<Rightarrow> string option \<Rightarrow> cron_world \<Rightarrow> unit outcome" where
  "within_limits on e now expr who existing w =
     (if \<not> on then (Inr (), w)
      else then_do (fetch_limits e w) (\<lambda>limits w.
             (assertCronWithinBillingLimits limits expr who existing now w, w)))"

definition NO_NEXT_RUN :: cron_failure where
  "NO_NEXT_RUN = Failure ''Unable to compute next run time for this cron expression''"

text \<open>The first run of an enabled schedule, which must exist.\<close>

definition first_run :: "bool \<Rightarrow> string \<Rightarrow> int \<Rightarrow> (cron_failure, int option) result" where
  "first_run on expr now =
     (if \<not> on then Inr None
      else bind_result (next_run expr now) (\<lambda>t. if no_time t then Inl NO_NEXT_RUN else Inr t))"

definition createScheduledPrompt :: "create_env \<Rightarrow> prompt_input \<Rightarrow> cron_world \<Rightarrow> (string \<times> prompt_row) outcome" where
  "createScheduledPrompt e x w =
     then_do (assertWorkspaceIdentity (prompt_input.in_workspace x) w) (\<lambda>_ w.
     then_do (fetch_workspace e w) (\<lambda>_.
     checked (parseName (prompt_input.in_name x)) (\<lambda>nm.
     checked (parsePrompt (in_prompt x)) (\<lambda>pr.
     checked (normalizeCronExpression (prompt_input.in_cron x)) (\<lambda>expr w.
       let who = creator (prompt_input.in_creator x); on = or_default True (prompt_input.in_enabled x) in
       then_do (within_limits on e (limits_now e) expr who None w) (\<lambda>_.
       checked (first_run on expr (create_now e)) (\<lambda>nextRunAt w.
       then_do (from_service (thread_answer e), after_thread e w) (\<lambda>thread w.
         let row = \<lparr>name = nm, cron_expression = expr, enabled = on, created_by = who, created_at = create_now e,
                    updated_at = create_now e, next_run_at = nextRunAt, last_run_at = None, last_run_status = None,
                    last_run_error = None, run_count = 0, prompt = pr, thread_id = thread,
                    scheduled_by_thread_id = parseOptionalThreadId (in_origin x), last_run_id = None\<rparr>;
             w' = scheduleNextAlarm (rearm_now e) (w\<lparr>prompts := prompts w @ [(new_id e, row)]\<rparr>)
         in (case map_of (prompts w') (new_id e) of
               None \<Rightarrow> (Inl (Failure ''Failed to create scheduled prompt''), w')
             | Some r \<Rightarrow> (Inr (new_id e, r), w'))))))))))"

definition insertAutomationVersion :: "string \<Rightarrow> string \<Rightarrow> int \<Rightarrow> string \<Rightarrow> string \<Rightarrow> int \<Rightarrow> cron_world \<Rightarrow> cron_world" where
  "insertAutomationVersion workspaceId a v src who now w =
     (let row = \<lparr>version_workspace = workspaceId, version_source = src, version_created_by = who, version_created_at = now\<rparr>
      in w\<lparr>versions := upsert_row (a, v) row (\<lambda>_. row) (versions w)\<rparr>)"

definition read_automation :: "string \<Rightarrow> cron_failure \<Rightarrow> cron_world \<Rightarrow> (string \<times> automation_row) outcome" where
  "read_automation a missing w =
     (case map_of (automations w) a of
        None \<Rightarrow> (Inl missing, w)
      | Some r \<Rightarrow> (bind_result (toAutomation r) (\<lambda>r. Inr (a, r)), w))"

definition createDeterministicAutomation ::
    "create_env \<Rightarrow> automation_input \<Rightarrow> cron_world \<Rightarrow> (string \<times> automation_row) outcome" where
  "createDeterministicAutomation e x w =
     then_do (assertWorkspaceIdentity (automation_input.in_workspace x) w) (\<lambda>workspaceId w.
     then_do (fetch_workspace e w) (\<lambda>_.
     checked (parseName (automation_input.in_name x)) (\<lambda>nm.
     checked (parseDescription (in_description x)) (\<lambda>descr.
     checked (parseAutomationSource (in_source x)) (\<lambda>src.
     checked (assertValidDeterministicAutomationSource (loader_error e) src) (\<lambda>_.
     checked (normalizeCronExpression (automation_input.in_cron x)) (\<lambda>expr w.
       let who = creator (automation_input.in_creator x); on = or_default True (automation_input.in_enabled x) in
       then_do (within_limits on e (limits_now e) expr who None w) (\<lambda>_.
       checked (first_run on expr (create_now e)) (\<lambda>nextRunAt w.
         let row = \<lparr>name = nm, cron_expression = expr, enabled = on, created_by = who, created_at = create_now e,
                    updated_at = create_now e, next_run_at = nextRunAt, last_run_at = None, last_run_status = None,
                    last_run_error = None, run_count = 0, description = Some descr, source = src,
                    source_version = 1, last_instance_id = None\<rparr>;
             w' = scheduleNextAlarm (rearm_now e)
                    (insertAutomationVersion workspaceId (new_id e) 1 src who (create_now e)
                       (w\<lparr>automations := automations w @ [(new_id e, row)]\<rparr>))
         in read_automation (new_id e) (Failure ''Failed to create deterministic automation'') w')))))))))"

subsection \<open>Editing and deleting\<close>

definition parse_optional :: "('a \<Rightarrow> (cron_failure, 'a) result) \<Rightarrow> 'a option \<Rightarrow> 'a \<Rightarrow> (cron_failure, 'a) result" where
  "parse_optional f v old = (case v of None \<Rightarrow> Inr old | Some s \<Rightarrow> f s)"

text \<open>The next run an edit stores; \<open>r\<close> is the row read at the start of the edit.\<close>

definition updated_next_run :: "bool \<Rightarrow> string \<Rightarrow> 'a schedule_row_scheme \<Rightarrow> int \<Rightarrow> (cron_failure, int option) result" where
  "updated_next_run on expr r now =
     (if \<not> on then Inr None
      else
        let needsRecompute = (\<not> enabled r \<or> expr \<noteq> cron_expression r \<or> next_run_at r = None)
        in bind_result (if needsRecompute then next_run expr now else Inr (next_run_at r)) (\<lambda>t.
             if no_time t then Inl NO_NEXT_RUN else Inr t))"

record update_env = service_env +
  limits_now :: int
  update_now :: int
  loader_error :: "string option"
  rearm_now :: int

record prompt_update =
  up_workspace :: string
  up_id :: string
  up_name :: "string option"
  up_prompt :: "string option"
  up_cron :: "string option"
  up_enabled :: "bool option"

record automation_update =
  up_workspace :: string
  up_id :: string
  up_name :: "string option"
  up_description :: "string option"
  up_source :: "string option"
  up_cron :: "string option"
  up_enabled :: "bool option"
  expectedSourceVersion :: "int option"

definition updateScheduledPrompt ::
    "update_env \<Rightarrow> prompt_update \<Rightarrow> cron_world \<Rightarrow> (string \<times> prompt_row) option outcome" where
  "updateScheduledPrompt e x w =
     then_do (assertWorkspaceIdentity (prompt_update.up_workspace x) w) (\<lambda>_ w.
     case map_of (prompts w) (prompt_update.up_id x) of
       None \<Rightarrow> (Inr None, w)
     | Some existing \<Rightarrow>
         then_do (fetch_workspace e w) (\<lambda>_.
         checked (parse_optional parseName (prompt_update.up_name x) (name existing)) (\<lambda>nm.
         checked (parse_optional parsePrompt (up_prompt x) (prompt existing)) (\<lambda>pr.
         checked (parse_optional normalizeCronExpression (prompt_update.up_cron x) (cron_expression existing)) (\<lambda>expr w.
           let on = or_default (enabled existing) (prompt_update.up_enabled x); i = prompt_update.up_id x in
           then_do (within_limits on e (update_env.limits_now e) expr (created_by existing) (Some i) w) (\<lambda>_.
           checked (updated_next_run on expr existing (update_now e)) (\<lambda>nextRunAt w.
             let w' = scheduleNextAlarm (update_env.rearm_now e)
                        (update_prompt i (\<lambda>r. r\<lparr>name := nm, prompt := pr, cron_expression := expr, enabled := on,
                           updated_at := update_now e, next_run_at := nextRunAt\<rparr>) w)
             in (Inr (map_option (Pair i) (map_of (prompts w') i)), w'))))))))"

definition show_int :: "int \<Rightarrow> string" where
  "show_int n = (if n < 0 then ''-'' @ show_nat (nat (- n)) else show_nat (nat n))"

definition updateDeterministicAutomation ::
    "update_env \<Rightarrow> automation_update \<Rightarrow> cron_world \<Rightarrow> (string \<times> automation_row) option outcome" where
  "updateDeterministicAutomation e x w =
     then_do (assertWorkspaceIdentity (automation_update.up_workspace x) w) (\<lambda>workspaceId w.
     case map_of (automations w) (automation_update.up_id x) of
       None \<Rightarrow> (Inr None, w)
     | Some stored \<Rightarrow>
         then_do (fetch_workspace e w) (\<lambda>_.
         checked (toAutomation stored) (\<lambda>existing.
         checked (case expectedSourceVersion x of
             Some v \<Rightarrow> if v \<noteq> source_version existing
               then Inl (Failure (''Automation edit conflict: expected source version '' @ show_int v @ '', found '' @
                      show_int (source_version existing) @ ''. Read it again and retry.''))
               else Inr ()
           | None \<Rightarrow> Inr ()) (\<lambda>_.
         checked (parse_optional parseName (automation_update.up_name x) (name existing)) (\<lambda>nm.
         checked (parse_optional parseDescription (up_description x) (or_default [] (description existing))) (\<lambda>descr.
         checked (parse_optional parseAutomationSource (up_source x) (source existing)) (\<lambda>src.
         checked (if up_source x \<noteq> None \<and> src \<noteq> source existing
                  then assertValidDeterministicAutomationSource (update_env.loader_error e) src else Inr ()) (\<lambda>_.
         checked (parse_optional normalizeCronExpression (automation_update.up_cron x) (cron_expression existing)) (\<lambda>expr w.
           let on = or_default (enabled existing) (automation_update.up_enabled x); i = automation_update.up_id x in
           then_do (within_limits on e (update_env.limits_now e) expr (created_by existing) (Some i) w) (\<lambda>_.
           checked (updated_next_run on expr existing (update_now e)) (\<lambda>nextRunAt w.
             let v = (if src \<noteq> source existing then source_version existing + 1 else source_version existing);
                 write = (\<lambda>r. r\<lparr>name := nm, description := Some descr, source := src, source_version := v,
                              cron_expression := expr, enabled := on, updated_at := update_now e, next_run_at := nextRunAt\<rparr>);
                 hit = (case (expectedSourceVersion x, map_of (automations w) i) of
                          (Some u, Some r) \<Rightarrow> source_version r = u
                        | (Some u, None) \<Rightarrow> False
                        | (None, _) \<Rightarrow> True)
             in if \<not> hit
                then (Inl (Failure (''Automation edit conflict: source version '' @ show_int (the (expectedSourceVersion x)) @
                        '' changed while the edit was running. Read it again and retry.'')), w)
                else
                  let w1 = update_automation i write w;
                      w2 = (if src \<noteq> source existing
                            then insertAutomationVersion workspaceId i v src (created_by existing) (update_now e) w1 else w1);
                      w3 = scheduleNextAlarm (update_env.rearm_now e) w2
                  in (case map_of (automations w3) i of
                        None \<Rightarrow> (Inr None, w3)
                      | Some r \<Rightarrow> (bind_result (toAutomation r) (\<lambda>r. Inr (Some (i, r))), w3)))))))))))))"

definition delete_runs :: "run_kind \<Rightarrow> string \<Rightarrow> cron_world \<Rightarrow> cron_world" where
  "delete_runs kind a w = w\<lparr>runs := filter (\<lambda>(i, r). \<not> (run_kind r = kind \<and> run_automation r = a)) (runs w)\<rparr>"

definition deleteScheduledPrompt :: "int \<Rightarrow> string \<Rightarrow> string \<Rightarrow> cron_world \<Rightarrow> bool outcome" where
  "deleteScheduledPrompt now workspaceId i w =
     then_do (assertWorkspaceIdentity workspaceId w) (\<lambda>_ w.
     case map_of (prompts w) i of
       None \<Rightarrow> (Inr False, w)
     | Some _ \<Rightarrow>
         (Inr True, scheduleNextAlarm now (delete_runs Scheduled_prompt i (w\<lparr>prompts := delete_row i (prompts w)\<rparr>))))"

definition deleteDeterministicAutomation :: "int \<Rightarrow> string \<Rightarrow> string \<Rightarrow> cron_world \<Rightarrow> bool outcome" where
  "deleteDeterministicAutomation now workspaceId i w =
     then_do (assertWorkspaceIdentity workspaceId w) (\<lambda>_ w.
     case map_of (automations w) i of
       None \<Rightarrow> (Inr False, w)
     | Some _ \<Rightarrow>
         (Inr True, scheduleNextAlarm now
            (delete_runs Deterministic_automation i (w\<lparr>automations := delete_row i (automations w)\<rparr>))))"

definition disable_row :: "int \<Rightarrow> string \<Rightarrow> 'a schedule_row_scheme \<Rightarrow> 'a schedule_row_scheme" where
  "disable_row now why r =
     (if enabled r then r\<lparr>enabled := False, next_run_at := None, updated_at := now, last_run_error := Some why\<rparr> else r)"

definition disableAllScheduledPrompts :: "int \<Rightarrow> string \<Rightarrow> string \<Rightarrow> cron_world \<Rightarrow> unit outcome" where
  "disableAllScheduledPrompts now workspaceId why w =
     then_do (assertWorkspaceIdentity workspaceId w) (\<lambda>_ w.
       (Inr (), w\<lparr>prompts := map (\<lambda>(i, r). (i, disable_row now why r)) (prompts w),
                  automations := map (\<lambda>(i, r). (i, disable_row now why r)) (automations w),
                  alarm_at := None\<rparr>))"

subsection \<open>Reading\<close>

definition by_creation :: "(string \<times> 'a schedule_row_scheme) list \<Rightarrow> (string \<times> 'a schedule_row_scheme) list" where
  "by_creation t = sort_key (\<lambda>(i, r). - created_at r) t"

definition listScheduledPrompts :: "string \<Rightarrow> cron_world \<Rightarrow> (string \<times> prompt_row) list outcome" where
  "listScheduledPrompts workspaceId w =
     then_do (assertWorkspaceIdentity workspaceId w) (\<lambda>_ w. (Inr (by_creation (prompts w)), w))"

definition listDeterministicAutomations :: "string \<Rightarrow> cron_world \<Rightarrow> (string \<times> automation_row) list outcome" where
  "listDeterministicAutomations workspaceId w =
     then_do (assertWorkspaceIdentity workspaceId w) (\<lambda>_ w.
       (map_result (\<lambda>(i, r). bind_result (toAutomation r) (\<lambda>r. Inr (i, r))) (by_creation (automations w)), w))"

fun kind_text :: "run_kind \<Rightarrow> string" where
  "kind_text Scheduled_prompt = ''scheduled_prompt''"
| "kind_text Deterministic_automation = ''deterministic_automation''"

definition listAutomationRuns ::
    "string \<Rightarrow> int option \<Rightarrow> cron_world \<Rightarrow> ((run_kind \<times> string) \<times> (string \<times> run_row) list) list outcome" where
  "listAutomationRuns workspaceId limitPer w =
     then_do (assertWorkspaceIdentity workspaceId w) (\<lambda>_ w.
       let cap = max 1 (min 20 (or_default 5 limitPer));
           rows = sort_key (\<lambda>(i, r). (kind_text (run_kind r), run_automation r)) (newest_first (runs w));
           add = (\<lambda>(i, r) t. upsert_row (run_kind r, run_automation r) [(i, r)]
                    (\<lambda>existing. if int (length existing) \<ge> cap then existing else existing @ [(i, r)]) t)
       in (Inr (fold add rows []), w))"

type_synonym run_cursor = "int \<times> string"

text \<open>The page after a cursor, and the cursor of the next page.\<close>

definition runs_page ::
    "int \<Rightarrow> run_cursor option \<Rightarrow> (string \<times> run_row) list \<Rightarrow> (string \<times> run_row) list \<times> run_cursor option" where
  "runs_page n cursor history =
     (let later = (\<lambda>(i, r). case cursor of None \<Rightarrow> True
                     | Some (t, c) \<Rightarrow> run_started_at r < t \<or> (run_started_at r = t \<and> i < c));
          rows = take (nat (n + 1)) (newest_first (filter later history));
          hasMore = int (length rows) > n;
          pageRows = (if hasMore then take (nat n) rows else rows)
      in (pageRows,
          if hasMore \<and> pageRows \<noteq> [] then (case last pageRows of (i, r) \<Rightarrow> Some (run_started_at r, i)) else None))"

definition page_limit :: "int option \<Rightarrow> int" where
  "page_limit n = max 1 (min AUTOMATION_RUNS_PAGE_MAX (or_default AUTOMATION_RUNS_PAGE_SIZE n))"

definition listAutomationRunsPage ::
    "string \<Rightarrow> run_kind \<Rightarrow> string \<Rightarrow> int option \<Rightarrow> run_cursor option \<Rightarrow> cron_world \<Rightarrow>
     ((string \<times> run_row) list \<times> run_cursor option) outcome" where
  "listAutomationRunsPage workspaceId kind a n cursor w =
     then_do (assertWorkspaceIdentity workspaceId w) (\<lambda>_ w.
       let automationId = js_trim a
       in if automationId = [] then (Inl (Failure ''automationId is required''), w)
          else (Inr (runs_page (page_limit n) cursor (runs_of kind automationId w)), w))"

text \<open>\<open>(automation, workspace, version, source, creator)\<close>\<close>

definition getDeterministicAutomationSource ::
    "string \<Rightarrow> string \<Rightarrow> int option \<Rightarrow> cron_world \<Rightarrow> (string \<times> string \<times> int \<times> string \<times> string) option outcome" where
  "getDeterministicAutomationSource workspaceId a sourceVersion w =
     then_do (assertWorkspaceIdentity workspaceId w) (\<lambda>_ w.
       let i = js_trim a
       in if i = [] then (Inl (Failure ''automationId is required''), w)
          else (Inr (case sourceVersion of
              Some v \<Rightarrow> (case map_of (versions w) (i, v) of
                   Some r \<Rightarrow> if version_workspace r = workspaceId
                             then Some (i, version_workspace r, v, version_source r, version_created_by r) else None
                 | None \<Rightarrow> None)
            | None \<Rightarrow> map_option (\<lambda>r. (i, workspaceId, source_version r, source r, created_by r)) (map_of (automations w) i)), w))"

subsection \<open>Dispatching\<close>

datatype turn_answer = Turn_accepted | Turn_busy "string option" | Turn_error "string option" | Unmovable string

text \<open>
  What one dispatch meets: readings of the clock, drawn keys, answers, and what others do at each await.
  \<open>thread_found\<close>: the prompt's thread exists in this workspace. \<open>new_thread\<close>: the thread made for a prompt
  that has none, \<open>rehomed_thread\<close>: the one made when the prompt's thread cannot move to the runtime.
\<close>

record job_env =
  job_started :: int
  job_inserted :: int
  job_finished :: int
  job_run :: string
  job_instance :: string
  thread_found :: "bool answer"
  new_thread :: "string answer"
  new_thread_now :: int
  before_insert :: others
  direct_threads :: bool
  org_owner :: "string option answer"
  before_turn :: others
  first_turn :: "turn_answer option answer"
  during_turn :: others
  old_title :: "string option answer"
  rehomed_thread :: "string answer"
  rehomed_now :: int
  before_rehome :: others
  second_turn :: "turn_answer option answer"
  during_second_turn :: others
  workflows_configured :: bool
  workflow_answer :: "unit answer"
  triggered_now :: int
  during_workflow :: others

record dispatch_result =
  dispatch_status :: run_status
  dispatch_error :: "string option"
  dispatch_thread :: string
  accepted :: bool

definition pad :: "nat \<Rightarrow> int \<Rightarrow> string" where
  "pad n v = (let s = show_nat (nat v) in replicate (n - length s) (CHR ''0'') @ s)"

text \<open>\<open>new Date(t).toISOString()\<close>\<close>

definition toISOString :: "int \<Rightarrow> string" where
  "toISOString t =
     (let y = getUTCFullYear t; ms = time_within_day t
      in (if 0 \<le> y \<and> y \<le> 9999 then pad 4 y else (if y < 0 then ''-'' else ''+'') @ pad 6 \<bar>y\<bar>) @ ''-'' @
         pad 2 (getUTCMonth t + 1) @ ''-'' @ pad 2 (getUTCDate t) @ ''T'' @ pad 2 (getUTCHours t) @ '':'' @
         pad 2 (getUTCMinutes t) @ '':'' @ pad 2 (ms div 1000 mod 60) @ ''.'' @ pad 3 (ms mod 1000) @ ''Z'')"

definition NEWLINES :: string where "NEWLINES = [CHR 0x0A, CHR 0x0A]"

definition buildScheduledMessage :: "prompt_row \<Rightarrow> int \<Rightarrow> string" where
  "buildScheduledMessage p scheduledFor =
     ''<camelai system message>Scheduled prompt '' @ [CHR 0x22] @ name p @ [CHR 0x22] @ '' fired at '' @
     toISOString scheduledFor @ '' UTC. Origin scheduler thread/session id: '' @
     or_default ''unknown'' (scheduled_by_thread_id p) @
     ''. Use this id to search prior context from when this cron was created.</camelai system message>'' @
     NEWLINES @ prompt p"

text \<open>\<open>rehomedThreadNote\<close> of \<open>channels.ts\<close>\<close>

definition rehomedThreadNote :: "string \<Rightarrow> string \<Rightarrow> string \<Rightarrow> string" where
  "rehomedThreadNote oldThread oldTitle why =
     ''<camelai system message>This conversation continues from the earlier thread '' @ [CHR 0x22] @ oldTitle @
     [CHR 0x22] @ '' ('' @ oldThread @ ''), which could not move to camelAI'' @ [CHR 0x27] @ ''s new chat engine ('' @
     (if why = ''too_large'' then ''it was too large''
      else if why = ''invalid_history'' then ''its history could not be imported''
      else ''its model is not available there'') @
     ''). That thread stays readable, read-only, at /chat/'' @ oldThread @
     ''; its history is not in this conversation.</camelai system message>''"

text \<open>\<open>members.find(m => m.role === "owner")\<close> is \<open>org_owner\<close>.\<close>

definition scheduledRunActor :: "job_env \<Rightarrow> prompt_row \<Rightarrow> string option answer" where
  "scheduledRunActor j p =
     (let c = js_trim (created_by p)
      in if c \<noteq> [] \<and> c \<noteq> ''system'' then Inr (Some c)
         else if \<not> direct_threads j then Inr None
         else org_owner j)"

text \<open>The prompt runs in a new thread from now on.\<close>

definition move_prompt :: "string \<Rightarrow> string \<Rightarrow> int \<Rightarrow> cron_world \<Rightarrow> cron_world" where
  "move_prompt i t now = update_prompt i (\<lambda>r. r\<lparr>thread_id := t, updated_at := now\<rparr>)"

definition ensureRunnableThread :: "job_env \<Rightarrow> string \<times> prompt_row \<Rightarrow> cron_world \<Rightarrow> string outcome" where
  "ensureRunnableThread j p w =
     then_do (from_service (thread_found j), before_insert j w) (\<lambda>found w.
       if found then (Inr (thread_id (snd p)), w)
       else checked (from_service (new_thread j)) (\<lambda>t w. (Inr t, move_prompt (fst p) t (new_thread_now j) w)) w)"

definition start_turn :: "string \<Rightarrow> string \<Rightarrow> string \<Rightarrow> string \<Rightarrow> cron_world \<Rightarrow> cron_world" where
  "start_turn t actor i msg w =
     w\<lparr>turn_requests := turn_requests w @ [\<lparr>turn_thread = t, turn_user = actor, turn_run = i, turn_message = msg\<rparr>]\<rparr>"

definition dispatch_failed :: "string \<Rightarrow> string \<Rightarrow> dispatch_result" where
  "dispatch_failed msg t = \<lparr>dispatch_status = Error, dispatch_error = Some msg, dispatch_thread = t, accepted = False\<rparr>"

fun turn_result :: "turn_answer option \<Rightarrow> string \<Rightarrow> dispatch_result" where
  "turn_result (Some Turn_accepted) t =
     \<lparr>dispatch_status = Success, dispatch_error = None, dispatch_thread = t, accepted = True\<rparr>"
| "turn_result (Some (Turn_busy m)) t =
     \<lparr>dispatch_status = Busy, dispatch_error = Some (or_default ''Thread is busy with another run'' m),
      dispatch_thread = t, accepted = False\<rparr>"
| "turn_result (Some (Turn_error m)) t =
     \<lparr>dispatch_status = Error, dispatch_error = Some (or_default ''Unknown chat error'' m),
      dispatch_thread = t, accepted = False\<rparr>"
| "turn_result _ t = dispatch_failed ''The scheduled prompt's thread could not move to the agent runtime'' t"

text \<open>A prompt whose thread cannot move continues in a new thread.\<close>

definition rehome_prompt ::
    "job_env \<Rightarrow> string \<times> prompt_row \<Rightarrow> string \<Rightarrow> string \<Rightarrow> string \<Rightarrow> string \<Rightarrow> string \<Rightarrow> cron_world \<Rightarrow> dispatch_result \<times> cron_world" where
  "rehome_prompt j p t why actor i msg w0 =
     (let w = before_rehome j w0 in
      case old_title j of
        Inl m \<Rightarrow> (dispatch_failed m t, w)
      | Inr title \<Rightarrow>
          (case rehomed_thread j of
             Inl m \<Rightarrow> (dispatch_failed m t, w)
           | Inr t' \<Rightarrow>
               let titled = (if or_default [] title = [] then ''Scheduled: '' @ name (snd p) else the title);
                   w1 = move_prompt (fst p) t' (rehomed_now j) w;
                   w2 = snd (update_runs (\<lambda>k r. k = i) (\<lambda>r. r\<lparr>run_thread := Some t'\<rparr>) w1);
                   w3 = during_second_turn j
                          (start_turn t' actor i (rehomedThreadNote t titled why @ NEWLINES @ msg) w2)
               in (case second_turn j of
                     Inl m \<Rightarrow> (dispatch_failed m t', w3)
                   | Inr ans \<Rightarrow> (turn_result ans t', w3))))"

definition dispatch_turn ::
    "job_env \<Rightarrow> string \<times> prompt_row \<Rightarrow> int \<Rightarrow> string \<Rightarrow> string \<Rightarrow> cron_world \<Rightarrow> dispatch_result \<times> cron_world" where
  "dispatch_turn j p scheduledFor i t w0 =
     (let w = before_turn j w0 in
      case scheduledRunActor j (snd p) of
        Inl m \<Rightarrow> (dispatch_failed m t, w)
      | Inr None \<Rightarrow> (dispatch_failed ''No workspace member to run this scheduled prompt as'' t, w)
      | Inr (Some actor) \<Rightarrow>
          let msg = buildScheduledMessage (snd p) scheduledFor;
              w1 = during_turn j (start_turn t actor i msg w)
          in (case first_turn j of
                Inl m \<Rightarrow> (dispatch_failed m t, w1)
              | Inr (Some (Unmovable why)) \<Rightarrow> rehome_prompt j p t why actor i msg w1
              | Inr ans \<Rightarrow> (turn_result ans t, w1)))"

definition dispatchPrompt ::
    "job_env \<Rightarrow> string \<times> prompt_row \<Rightarrow> int \<Rightarrow> run_trigger \<Rightarrow> string \<Rightarrow> cron_world \<Rightarrow> dispatch_result outcome" where
  "dispatchPrompt j p scheduledFor trigger i w =
     then_do (ensureRunnableThread j p w) (\<lambda>t w.
       let (d, w') = dispatch_turn j p scheduledFor i t
             (insertAutomationRun i
                (new_run Scheduled_prompt (fst p) trigger Started scheduledFor None None (Some t) None (job_inserted j)) w)
       in (Inr d, w'))"

definition WORKFLOW_NOT_CONFIGURED :: string where
  "WORKFLOW_NOT_CONFIGURED = ''Deterministic automation workflow binding is not configured''"

text \<open>The error of a failed start, if any. \<open>dispatchDeterministicAutomation\<close>\<close>

definition dispatchDeterministicAutomation ::
    "job_env \<Rightarrow> string \<times> automation_row \<Rightarrow> int \<Rightarrow> run_trigger \<Rightarrow> string \<Rightarrow> cron_world \<Rightarrow> string option \<times> cron_world" where
  "dispatchDeterministicAutomation j a scheduledFor trigger i w =
     (if \<not> workflows_configured j then (Some WORKFLOW_NOT_CONFIGURED, w)
      else
        let w1 = during_workflow j (w\<lparr>workflow_requests := workflow_requests w @
               [\<lparr>workflow_instance = i, workflow_automation = fst a, workflow_version = source_version (snd a),
                 workflow_name = name (snd a), workflow_scheduled_for = scheduledFor,
                 workflow_triggered_at = triggered_now j, workflow_trigger = trigger\<rparr>]\<rparr>)
        in (case workflow_answer j of Inl m \<Rightarrow> Some m | Inr _ \<Rightarrow> None, w1))"

text \<open>What both callers write when a workflow could not be started and no billing message is to be kept.\<close>

definition workflow_start_failed :: "job_env \<Rightarrow> string \<Rightarrow> string \<Rightarrow> string \<Rightarrow> cron_world \<Rightarrow> cron_world" where
  "workflow_start_failed j a i msg w =
     update_automation a (\<lambda>r.
         if last_instance_id r = Some i \<and> last_run_status r = Some Started
         then r\<lparr>updated_at := job_finished j, last_run_status := Some Error, last_run_error := Some msg, last_instance_id := None\<rparr>
         else r) w"

definition fail_run :: "job_env \<Rightarrow> string \<Rightarrow> string \<Rightarrow> string \<Rightarrow> cron_world \<Rightarrow> cron_world" where
  "fail_run j a i msg w = snd (updateDeterministicRunByInstance a i Error (Some msg) (job_finished j) w)"

subsection \<open>Running now\<close>

text \<open>The next run a manual run stores for an enabled schedule; \<open>r\<close> is the row read at its start.\<close>

definition manual_next_run :: "'a schedule_row_scheme \<Rightarrow> string option \<Rightarrow> int \<Rightarrow> (cron_failure, int option) result" where
  "manual_next_run r violation started =
     (if \<not> enabled r then Inr None
      else if violation \<noteq> None then next_run (cron_expression r) (started + BILLING_BLOCK_RECHECK_MS)
      else if no_time (next_run_at r) \<or> the (next_run_at r) \<le> started then next_run (cron_expression r) started
      else Inr (next_run_at r))"

definition schedule_violation ::
    "run_kind \<Rightarrow> string \<Rightarrow> 'a schedule_row_scheme \<Rightarrow> BillingPlanLimits \<Rightarrow> int \<Rightarrow> cron_world \<Rightarrow> (cron_failure, string option) result" where
  "schedule_violation kind i r limits now w =
     (if enabled r then getRuntimeBillingViolation kind i (cron_expression r) (created_by r) limits now w else Inr None)"

text \<open>The end of a dispatched prompt run in the history; an accepted run stays \<open>Started\<close>.\<close>

definition settle_run :: "job_env \<Rightarrow> string \<Rightarrow> string \<Rightarrow> dispatch_result \<Rightarrow> cron_world \<Rightarrow> cron_world" where
  "settle_run j p i d w =
     (if accepted d then w
      else snd (updateAutomationRunById i Scheduled_prompt p (dispatch_status d) (dispatch_error d)
                  Completion_default (job_finished j) w))"

definition runScheduledPromptNow ::
    "service_env \<Rightarrow> job_env \<Rightarrow> int \<Rightarrow> string \<Rightarrow> string \<Rightarrow> cron_world \<Rightarrow> ((string \<times> prompt_row) \<times> dispatch_result) option outcome" where
  "runScheduledPromptNow e j rearm workspaceId i w =
     then_do (assertWorkspaceIdentity workspaceId w) (\<lambda>_ w.
     case map_of (prompts w) i of
       None \<Rightarrow> (Inr None, w)
     | Some existing \<Rightarrow>
         then_do (fetch_workspace e w) (\<lambda>_ w.
         then_do (fetch_limits e w) (\<lambda>limits w.
         then_do (dispatchPrompt j (i, existing) (job_started j) Manual (job_run j) w) (\<lambda>d w.
           let w1 = settle_run j i (job_run j) d w in
           checked (schedule_violation Scheduled_prompt i existing limits (job_finished j) w1) (\<lambda>violation.
           checked (manual_next_run existing violation (job_started j)) (\<lambda>nextRunAt w.
             let blocked = map_option formatScheduleBlockedByBillingMessage violation;
                 w2 = scheduleNextAlarm rearm
                        (update_prompt i (\<lambda>r. r\<lparr>thread_id := dispatch_thread d, updated_at := job_finished j,
                           enabled := enabled existing, next_run_at := nextRunAt, last_run_at := Some (job_started j),
                           last_run_id := Some (job_run j),
                           last_run_status := Some (if blocked \<noteq> None then Error else dispatch_status d),
                           last_run_error := or_else blocked (dispatch_error d), run_count := run_count r + 1\<rparr>) w)
             in (Inr (map_option (\<lambda>r. ((i, r), d)) (map_of (prompts w2) i)), w2))) w1))))"

text \<open>The columns a manual run of an automation writes, given its status, error and workflow instance.\<close>

definition manual_summary ::
    "job_env \<Rightarrow> string \<times> automation_row \<Rightarrow> int option \<Rightarrow> run_status \<Rightarrow> string option \<Rightarrow> string option \<Rightarrow> cron_world \<Rightarrow> cron_world" where
  "manual_summary j a nextRunAt st err inst =
     update_automation (fst a) (\<lambda>r. r\<lparr>updated_at := job_finished j, enabled := enabled (snd a),
       next_run_at := nextRunAt, last_run_at := Some (job_started j), last_run_status := Some st,
       last_run_error := err, last_instance_id := inst, run_count := run_count r + 1\<rparr>)"

text \<open>The error of a workflow that did not start is kept, under a billing message if there is one.\<close>

definition manual_workflow ::
    "job_env \<Rightarrow> string \<times> automation_row \<Rightarrow> string option \<Rightarrow> int option \<Rightarrow> cron_world \<Rightarrow> string option \<times> cron_world" where
  "manual_workflow j a blocked nextRunAt w =
     (let inst = job_instance j;
          w1 = manual_summary j a nextRunAt (if blocked \<noteq> None then Error else Started) blocked (Some inst)
                 (insertAutomationRun (job_run j)
                    (new_run Deterministic_automation (fst a) Manual Started (job_started j) None None None
                       (Some inst) (job_inserted j)) w);
          (err, w2) = dispatchDeterministicAutomation j a (job_started j) Manual inst w1
      in case err of
           None \<Rightarrow> (None, w2)
         | Some m \<Rightarrow>
             (Some m,
              if blocked \<noteq> None
              then update_automation (fst a) (\<lambda>r. if last_instance_id r = Some inst
                     then r\<lparr>updated_at := job_finished j, last_instance_id := None\<rparr> else r) (fail_run j (fst a) inst m w2)
              else workflow_start_failed j (fst a) inst m (fail_run j (fst a) inst m w2)))"

definition manual_unconfigured ::
    "job_env \<Rightarrow> string \<times> automation_row \<Rightarrow> string option \<Rightarrow> int option \<Rightarrow> cron_world \<Rightarrow> cron_world" where
  "manual_unconfigured j a blocked nextRunAt w =
     manual_summary j a nextRunAt Error (or_else blocked (Some WORKFLOW_NOT_CONFIGURED)) None
       (insertAutomationRun (job_run j)
          (new_run Deterministic_automation (fst a) Manual Error (job_started j) (Some (job_finished j))
             (Some WORKFLOW_NOT_CONFIGURED) None None (job_inserted j)) w)"

definition runDeterministicAutomationNow ::
    "service_env \<Rightarrow> job_env \<Rightarrow> int \<Rightarrow> string \<Rightarrow> string \<Rightarrow> cron_world \<Rightarrow> ((string \<times> automation_row) \<times> string option) option outcome" where
  "runDeterministicAutomationNow e j rearm workspaceId i w =
     then_do (assertWorkspaceIdentity workspaceId w) (\<lambda>_ w.
     case map_of (automations w) i of
       None \<Rightarrow> (Inr None, w)
     | Some stored \<Rightarrow>
         checked (toAutomation stored) (\<lambda>existing w.
         then_do (fetch_workspace e w) (\<lambda>_ w.
         then_do (fetch_limits e w) (\<lambda>limits w.
         checked (schedule_violation Deterministic_automation i existing limits (job_started j) w) (\<lambda>violation.
         checked (manual_next_run existing violation (job_started j)) (\<lambda>nextRunAt w.
           let blocked = map_option formatScheduleBlockedByBillingMessage violation;
               (err, w1) =
                 (if \<not> workflows_configured j
                  then (Some WORKFLOW_NOT_CONFIGURED, manual_unconfigured j (i, existing) blocked nextRunAt w)
                  else manual_workflow j (i, existing) blocked nextRunAt w);
               w2 = scheduleNextAlarm rearm w1
           in (case map_of (automations w2) i of
                 None \<Rightarrow> (Inr None, w2)
               | Some r \<Rightarrow> (bind_result (toAutomation r) (\<lambda>r. Inr (Some ((i, r), err))), w2)))) w))) w)"

subsection \<open>Results of runs\<close>

definition OUTCOMES :: "(string \<times> outcome_status) list" where
  "OUTCOMES = [(''success'', Outcome_success), (''failed'', Outcome_failed), (''partial'', Outcome_partial),
               (''needs_attention'', Outcome_needs_attention)]"

fun outcome_text :: "outcome_status \<Rightarrow> string" where
  "outcome_text Outcome_success = ''success''"
| "outcome_text Outcome_failed = ''failed''"
| "outcome_text Outcome_partial = ''partial''"
| "outcome_text Outcome_needs_attention = ''needs_attention''"

definition text_or_null :: "string option \<Rightarrow> string option" where
  "text_or_null v = (let t = js_trim (or_default [] v) in if t = [] then None else Some t)"

definition reportScheduledRunOutcome :: "string \<Rightarrow> string \<Rightarrow> string \<Rightarrow> string \<Rightarrow> cron_world \<Rightarrow> string outcome" where
  "reportScheduledRunOutcome workspaceId threadId st summary w =
     then_do (assertWorkspaceIdentity workspaceId w) (\<lambda>_ w.
     case map_of OUTCOMES st of
       None \<Rightarrow> (Inl (Failure ''status must be one of success, failed, partial, needs_attention''), w)
     | Some oc \<Rightarrow>
         (case text_or_null (Some summary) of
            None \<Rightarrow> (Inl (Failure ''Automation outcome summary is required''), w)
          | Some text \<Rightarrow>
              (case newest_first (filter (\<lambda>(i, r). run_kind r = Scheduled_prompt \<and> run_thread r = Some threadId \<and>
                                        run_status r = Started) (runs w)) of
                 [] \<Rightarrow> (Inl (Failure ''No scheduled automation run is active''), w)
               | (i, r) # _ \<Rightarrow>
                   if reported_status r \<noteq> None
                   then (Inl (Failure ''Automation outcome was already reported for this run''), w)
                   else (Inr (''Automation outcome recorded: '' @ st),
                         snd (update_runs (\<lambda>k _. k = i)
                                (\<lambda>r. r\<lparr>reported_status := Some oc, reported_summary := Some text\<rparr>) w)))))"

text \<open>\<open>WHERE id = ? AND (last_run_id = ? OR (last_run_id IS NULL AND last_run_at = ?))\<close>\<close>

definition summarizes :: "string \<Rightarrow> run_row \<Rightarrow> prompt_row \<Rightarrow> bool" where
  "summarizes i r p \<longleftrightarrow> last_run_id p = Some i \<or> (last_run_id p = None \<and> last_run_at p = Some (run_started_at r))"

definition billing_summary :: "'a schedule_row_scheme option \<Rightarrow> bool" where
  "billing_summary row \<longleftrightarrow>
     (case row of None \<Rightarrow> False
      | Some r \<Rightarrow> last_run_status r = Some Error \<and> isScheduleBlockedByBillingMessage (last_run_error r))"

definition recordScheduledPromptRunResult ::
    "int \<Rightarrow> string \<Rightarrow> string \<Rightarrow> string \<Rightarrow> run_status \<Rightarrow> string option \<Rightarrow> completion \<Rightarrow> cron_world \<Rightarrow> bool outcome" where
  "recordScheduledPromptRunResult now workspaceId promptId0 runId0 st msg0 completion w =
     then_do (assertWorkspaceIdentity workspaceId w) (\<lambda>_ w.
     let promptId = js_trim promptId0; runId = js_trim runId0 in
     if promptId = [] then (Inl (Failure ''promptId is required''), w)
     else if runId = [] then (Inl (Failure ''runId is required''), w)
     else if st = Started then (Inl (Failure ''status must be success, error, question, or busy''), w)
     else
       let msg = text_or_null msg0;
           (runUpdated, w1) = updateAutomationRunById runId Scheduled_prompt promptId st msg
              (if completion = Completion_default \<and> st = Question then Completion_null else completion) now w
       in if \<not> runUpdated then (Inr False, w1)
          else (case getAutomationRunRow Scheduled_prompt promptId runId w1 of
                  None \<Rightarrow> (Inr True, w1)
                | Some runRow \<Rightarrow>
                    if st = Success \<and> billing_summary (map_of (prompts w1) promptId)
                    then (Inr True, update_prompt promptId
                            (\<lambda>p. if summarizes runId runRow p then p\<lparr>updated_at := now\<rparr> else p) w1)
                    else (Inr True, update_prompt promptId
                            (\<lambda>p. if summarizes runId runRow p
                                 then p\<lparr>updated_at := now, last_run_status := Some st,
                                        last_run_error := (if st = Error \<or> st = Busy then msg else None)\<rparr>
                                 else p) w1)))"

definition finishScheduledRun ::
    "int \<Rightarrow> string \<Rightarrow> string \<Rightarrow> string option \<Rightarrow> int option \<Rightarrow> cron_world \<Rightarrow> bool outcome" where
  "finishScheduledRun now workspaceId runId err completedAt w =
     then_do (assertWorkspaceIdentity workspaceId w) (\<lambda>_ w.
     case map_of (runs w) runId of
       None \<Rightarrow> (Inr False, w)
     | Some run \<Rightarrow>
         if run_kind run \<noteq> Scheduled_prompt \<or> run_status run \<noteq> Started then (Inr False, w)
         else
           let reported = (case (reported_status run, reported_summary run) of
                    (Some oc, Some (c # cs)) \<Rightarrow> Some (oc, c # cs)
                  | _ \<Rightarrow> None);
               failure = text_or_null err;
               st = (if failure = None \<and> map_option fst reported = Some Outcome_success then Success else Error);
               msg = (case failure of
                        Some m \<Rightarrow> m
                      | None \<Rightarrow>
                          (case reported of
                             None \<Rightarrow> ''Automation completed without explicitly reporting an outcome''
                           | Some (oc, text) \<Rightarrow>
                               if oc = Outcome_success then text else ''['' @ outcome_text oc @ ''] '' @ text))
           in recordScheduledPromptRunResult now workspaceId (run_automation run) runId st (Some msg)
                (Completed_at (or_default now completedAt)) w)"

definition recordDeterministicAutomationRunResult ::
    "int \<Rightarrow> string \<Rightarrow> string \<Rightarrow> string \<Rightarrow> run_status \<Rightarrow> string option \<Rightarrow> cron_world \<Rightarrow> bool outcome" where
  "recordDeterministicAutomationRunResult now workspaceId automationId0 instanceId0 st err w =
     then_do (assertWorkspaceIdentity workspaceId w) (\<lambda>_ w.
     let automationId = js_trim automationId0; instanceId = js_trim instanceId0 in
     if automationId = [] then (Inl (Failure ''automationId is required''), w)
     else if instanceId = [] then (Inl (Failure ''instanceId is required''), w)
     else if st \<noteq> Success \<and> st \<noteq> Error then (Inl (Failure ''status must be success or error''), w)
     else
       let msg = (if st = Error then Some (or_default ''Workflow failed'' err) else None);
           (runUpdated, w1) = updateDeterministicRunByInstance automationId instanceId st msg now w;
           keep = (st = Success \<and> billing_summary (map_of (automations w1) automationId))
       in (Inr runUpdated, update_automation automationId
             (\<lambda>r. if last_instance_id r = Some instanceId
                  then (if keep then r\<lparr>updated_at := now\<rparr>
                        else r\<lparr>updated_at := now, last_run_status := Some st, last_run_error := msg\<rparr>)
                  else r) w1))"

subsection \<open>The alarm handler\<close>

text \<open>A loop over jobs that an error stops.\<close>

fun run_jobs :: "('j \<Rightarrow> cron_world \<Rightarrow> unit outcome) \<Rightarrow> 'j list \<Rightarrow> cron_world \<Rightarrow> unit outcome" where
  "run_jobs f [] w = (Inr (), w)"
| "run_jobs f (x # xs) w = then_do (f x w) (\<lambda>_. run_jobs f xs)"

record alarm_env = service_env +
  alarm_now :: int
  prompt_jobs :: "string \<Rightarrow> job_env"
  automation_jobs :: "string \<Rightarrow> job_env"
  alarm_rearm :: int

text \<open>What every scheduled attempt writes to its row.\<close>

definition attempt ::
    "int \<Rightarrow> int option \<Rightarrow> int \<Rightarrow> run_status \<Rightarrow> string option \<Rightarrow> 'a schedule_row_scheme \<Rightarrow> 'a schedule_row_scheme" where
  "attempt now nextRunAt started st err r =
     r\<lparr>updated_at := now, next_run_at := nextRunAt, last_run_at := Some started, last_run_status := Some st,
       last_run_error := err, run_count := run_count r + 1\<rparr>"

definition WORKSPACE_UNAVAILABLE :: string where "WORKSPACE_UNAVAILABLE = ''workspace_unavailable''"

definition unavailable_prompt :: "alarm_env \<Rightarrow> string \<times> prompt_row \<Rightarrow> cron_world \<Rightarrow> unit outcome" where
  "unavailable_prompt e p w =
     (let j = prompt_jobs e (fst p); now = alarm_now e; r = snd p in
      checked (next_run (cron_expression r) now) (\<lambda>nextRunAt w.
        (Inr (), update_prompt (fst p)
           (\<lambda>q. if enabled q then (attempt now nextRunAt now Error (Some WORKSPACE_UNAVAILABLE) q)\<lparr>last_run_id := Some (job_run j)\<rparr>
                else q)
           (insertAutomationRun (job_run j)
              (new_run Scheduled_prompt (fst p) Schedule Error (or_default now (next_run_at r)) (Some now)
                 (Some WORKSPACE_UNAVAILABLE) (Some (thread_id r)) None (job_inserted j)) w))) w)"

definition unavailable_automation :: "alarm_env \<Rightarrow> string \<times> automation_row \<Rightarrow> cron_world \<Rightarrow> unit outcome" where
  "unavailable_automation e a w =
     (let j = automation_jobs e (fst a); now = alarm_now e; r = snd a in
      checked (next_run (cron_expression r) now) (\<lambda>nextRunAt w.
        (Inr (), update_automation (fst a)
           (\<lambda>q. if enabled q then (attempt now nextRunAt now Error (Some WORKSPACE_UNAVAILABLE) q)\<lparr>last_instance_id := None\<rparr>
                else q)
           (insertAutomationRun (job_run j)
              (new_run Deterministic_automation (fst a) Schedule Error (or_default now (next_run_at r)) (Some now)
                 (Some WORKSPACE_UNAVAILABLE) None None (job_inserted j)) w))) w)"

definition recordDueWorkspaceUnavailable :: "alarm_env \<Rightarrow> cron_world \<Rightarrow> unit outcome" where
  "recordDueWorkspaceUnavailable e w =
     then_do (run_jobs (unavailable_prompt e) (due_rows (alarm_now e) (prompts w)) w) (\<lambda>_ w.
     then_do (run_jobs (unavailable_automation e) (due_rows (alarm_now e) (automations w)) w) (\<lambda>_ w.
       (Inr (), scheduleNextAlarm (alarm_rearm e) w)))"

definition blocked_message :: "string \<Rightarrow> string" where
  "blocked_message violation = ''Blocked by billing plan: '' @ violation"

definition NO_FUTURE_RUN :: string where "NO_FUTURE_RUN = ''No future run found''"

definition run_due_prompt :: "alarm_env \<Rightarrow> BillingPlanLimits \<Rightarrow> string \<times> prompt_row \<Rightarrow> cron_world \<Rightarrow> unit outcome" where
  "run_due_prompt e limits p w =
     (let j = prompt_jobs e (fst p); r = snd p; started = job_started j; scheduledFor = or_default started (next_run_at r) in
      checked (getRuntimeBillingViolation Scheduled_prompt (fst p) (cron_expression r) (created_by r) limits started w) (\<lambda>violation.
        case violation of
          Some v \<Rightarrow>
            checked (next_run (cron_expression r) (started + BILLING_BLOCK_RECHECK_MS)) (\<lambda>nextRunAt w.
              (Inr (), update_prompt (fst p)
                 (\<lambda>q. (attempt (job_finished j) nextRunAt started Error (Some (blocked_message v)) q)\<lparr>last_run_id := Some (job_run j)\<rparr>)
                 (insertAutomationRun (job_run j)
                    (new_run Scheduled_prompt (fst p) Schedule Error scheduledFor (Some (job_finished j))
                       (Some (blocked_message v)) None None (job_inserted j)) w)))
        | None \<Rightarrow> (\<lambda>w.
            then_do (dispatchPrompt j p scheduledFor Schedule (job_run j) w) (\<lambda>d w.
              checked (next_run (cron_expression r) started) (\<lambda>nextRunAt w.
                let on = \<not> no_time nextRunAt
                in (Inr (), update_prompt (fst p)
                      (\<lambda>q. (attempt (job_finished j) nextRunAt started (dispatch_status d)
                              (or_else (dispatch_error d) (if on then None else Some NO_FUTURE_RUN)) q)
                           \<lparr>thread_id := dispatch_thread d, enabled := on, last_run_id := Some (job_run j)\<rparr>) w))
                (settle_run j (fst p) (job_run j) d w)))) w)"

text \<open>The two branches of an automation that is not blocked.\<close>

definition start_due_automation :: "job_env \<Rightarrow> string \<times> automation_row \<Rightarrow> int \<Rightarrow> int option \<Rightarrow> cron_world \<Rightarrow> cron_world" where
  "start_due_automation j a scheduledFor nextRunAt w =
     (let on = \<not> no_time nextRunAt; i = fst a; inst = job_instance j; started = job_started j;
          note = (if on then None else Some NO_FUTURE_RUN) in
      if \<not> workflows_configured j
      then update_automation i
             (\<lambda>q. (attempt (job_finished j) nextRunAt started Error (Some WORKFLOW_NOT_CONFIGURED) q)
                  \<lparr>enabled := on, last_instance_id := None\<rparr>)
             (insertAutomationRun (job_run j)
                (new_run Deterministic_automation i Schedule Error scheduledFor (Some (job_finished j))
                   (Some WORKFLOW_NOT_CONFIGURED) None None (job_inserted j)) w)
      else
        let w1 = update_automation i
                   (\<lambda>q. (attempt (job_finished j) nextRunAt started Started note q)\<lparr>enabled := on, last_instance_id := Some inst\<rparr>)
                   (insertAutomationRun (job_run j)
                      (new_run Deterministic_automation i Schedule Started scheduledFor None note None (Some inst) (job_inserted j)) w);
            (err, w2) = dispatchDeterministicAutomation j a scheduledFor Schedule inst w1
        in (case err of
              None \<Rightarrow> w2
            | Some m \<Rightarrow> workflow_start_failed j i inst m (fail_run j i inst m w2)))"

definition run_due_automation :: "alarm_env \<Rightarrow> BillingPlanLimits \<Rightarrow> string \<times> automation_row \<Rightarrow> cron_world \<Rightarrow> unit outcome" where
  "run_due_automation e limits stored w =
     (let i = fst stored; j = automation_jobs e i; started = job_started j in
      checked (toAutomation (snd stored)) (\<lambda>r w.
        let scheduledFor = or_default started (next_run_at r) in
        checked (getRuntimeBillingViolation Deterministic_automation i (cron_expression r) (created_by r) limits started w) (\<lambda>violation.
          case violation of
            Some v \<Rightarrow>
              checked (next_run (cron_expression r) (started + BILLING_BLOCK_RECHECK_MS)) (\<lambda>nextRunAt w.
                (Inr (), update_automation i
                   (\<lambda>q. (attempt (job_finished j) nextRunAt started Error (Some (blocked_message v)) q)\<lparr>last_instance_id := None\<rparr>)
                   (insertAutomationRun (job_run j)
                      (new_run Deterministic_automation i Schedule Error scheduledFor (Some (job_finished j))
                         (Some (blocked_message v)) None None (job_inserted j)) w)))
          | None \<Rightarrow>
              checked (next_run (cron_expression r) started) (\<lambda>nextRunAt w.
                (Inr (), start_due_automation j (i, r) scheduledFor nextRunAt w))) w) w)"

definition run_due_jobs :: "alarm_env \<Rightarrow> BillingPlanLimits \<Rightarrow> cron_world \<Rightarrow> unit outcome" where
  "run_due_jobs e limits w =
     then_do (run_jobs (run_due_prompt e limits) (due_rows (alarm_now e) (prompts w)) w) (\<lambda>_ w.
              run_jobs (run_due_automation e limits) (due_rows (alarm_now e) (automations w)) w)"

definition alarm :: "alarm_env \<Rightarrow> cron_world \<Rightarrow> unit outcome" where
  "alarm e w0 =
     (case getStoredWorkspaceId w0 of
        None \<Rightarrow> (Inr (), w0\<lparr>alarm_at := None\<rparr>)
      | Some _ \<Rightarrow>
          let hasDueWork = hasDueScheduledWork (alarm_now e) w0;
              (found, w) = fetch_workspace e w0
          in (case found of
                Inl _ \<Rightarrow>
                  if hasDueWork then recordDueWorkspaceUnavailable e w
                  else (Inr (), scheduleNextAlarm (alarm_rearm e) w)
              | Inr _ \<Rightarrow>
                  if \<not> hasDueWork then (Inr (), scheduleNextAlarm (alarm_rearm e) w)
                  else then_do (fetch_limits e w) (\<lambda>limits w.
                       then_do (run_due_jobs e limits w) (\<lambda>_ w.
                         (Inr (), scheduleNextAlarm (alarm_rearm e) w)))))"

text \<open>The runtime invokes the handler once the alarm's time has come; from then on no alarm is set.\<close>

definition alarm_fires :: "alarm_env \<Rightarrow> cron_world \<Rightarrow> unit outcome" where
  "alarm_fires e w = alarm e (w\<lparr>alarm_at := None\<rparr>)"

definition runDueAutomationsForTest :: "alarm_env \<Rightarrow> string \<Rightarrow> cron_world \<Rightarrow> unit outcome" where
  "runDueAutomationsForTest e workspaceId w = then_do (assertWorkspaceIdentity workspaceId w) (\<lambda>_. alarm e)"

end
