(* ===== verification/AutomationInvariant.thy ===== *)
theory AutomationInvariant
  imports AutomationOps CronLanguage
begin

section \<open>The alarm of a scheduler\<close>

text \<open>
  After every sequence of operations the alarm is set for the earliest run of the enabled automations.
  What an operation does to the schedule is a projection of the state (\<open>schedules\<close>), which most
  statements leave alone; two invariants of that projection carry the theorem.
\<close>

subsection \<open>Schedules\<close>

type_synonym schedule = "string \<times> bool \<times> int option"

definition schedule_of :: "'a schedule_row_scheme \<Rightarrow> schedule" where
  "schedule_of r = (cron_expression r, enabled r, next_run_at r)"

definition description_of :: "automation_row \<Rightarrow> string" where
  "description_of r = or_default (name r) (description r)"

definition prompt_schedules :: "cron_world \<Rightarrow> (string \<times> schedule) list" where
  "prompt_schedules w = map (\<lambda>(i, r). (i, schedule_of r)) (prompts w)"

definition automation_schedules :: "cron_world \<Rightarrow> (string \<times> schedule \<times> string) list" where
  "automation_schedules w = map (\<lambda>(i, r). (i, schedule_of r, description_of r)) (automations w)"

text \<open>Two worlds of one workspace with the same alarm and the same schedules.\<close>

definition same_schedules :: "cron_world \<Rightarrow> cron_world \<Rightarrow> bool" where
  "same_schedules w w' \<longleftrightarrow>
     workspace_key w' = workspace_key w \<and> alarm_at w' = alarm_at w \<and> prompt_schedules w' = prompt_schedules w \<and>
     automation_schedules w' = automation_schedules w"

text \<open>
  A stored schedule is usable: its expression parses and its next run is no falsy time; a stored
  description is accepted again by \<open>toAutomation\<close>; the scheduler knows its workspace, which the first
  call of any operation binds.
\<close>

definition schedule_ok :: "schedule \<Rightarrow> bool" where
  "schedule_ok s \<longleftrightarrow>
     (\<exists>p. parseCronExpression (fst s) = Inr p) \<and> (\<forall>n. snd (snd s) = Some n \<longrightarrow> 0 < n)"

definition description_ok :: "string \<Rightarrow> bool" where
  "description_ok d \<longleftrightarrow> (\<exists>t. parseDescription d = Inr t)"

definition world_ok :: "cron_world \<Rightarrow> bool" where
  "world_ok w \<longleftrightarrow> getStoredWorkspaceId w \<noteq> None \<and>
     (\<forall>(i, s) \<in> set (prompt_schedules w). schedule_ok s) \<and>
     (\<forall>(i, s, d) \<in> set (automation_schedules w). schedule_ok s \<and> description_ok d)"

text \<open>\<open>c\<close> bounds the readings of the clock so far.\<close>

definition armed :: "int \<Rightarrow> cron_world \<Rightarrow> bool" where
  "armed c w \<longleftrightarrow> (\<forall>t \<in> set (all_next_runs w). \<exists>a. alarm_at w = Some a \<and> a \<le> max t (c + 1000))"

lemma next_runs_schedules:
  "next_runs t = List.map_filter (\<lambda>(i, s). if fst (snd s) then snd (snd s) else None)
     (map (\<lambda>(i, r). (i, schedule_of r)) t)"
  by (induction t) (auto simp: next_runs_def List.map_filter_simps schedule_of_def split: option.splits if_splits)

lemma all_next_runs_schedules:
  "all_next_runs w = List.map_filter (\<lambda>(i, s). if fst (snd s) then snd (snd s) else None)
     (prompt_schedules w @ map (\<lambda>(i, s, d). (i, s)) (automation_schedules w))"
proof -
  have "map (\<lambda>(i, s, d). (i, s)) (automation_schedules w) = map (\<lambda>(i, r). (i, schedule_of r)) (automations w)"
    by (simp add: automation_schedules_def comp_def case_prod_unfold)
  then show ?thesis
    by (simp add: all_next_runs_def next_runs_schedules prompt_schedules_def List.map_filter_def)
qed

lemma same_schedules_refl [simp]: "same_schedules w w"
  by (simp add: same_schedules_def)

lemma same_schedules_trans: "same_schedules u v \<Longrightarrow> same_schedules v w \<Longrightarrow> same_schedules u w"
  by (simp add: same_schedules_def)

lemma same_schedules_ok:
  "same_schedules w w' \<Longrightarrow> world_ok w' = world_ok w" "same_schedules w w' \<Longrightarrow> armed c w' = armed c w"
  by (simp_all add: same_schedules_def world_ok_def armed_def all_next_runs_schedules getStoredWorkspaceId_def)

subsection \<open>Statements that leave the schedules alone\<close>

lemma map_update_row_same:
  "(\<And>r. g (f r) = g r) \<Longrightarrow> map (\<lambda>(i, r). (i, g r)) (update_row k f t) = map (\<lambda>(i, r). (i, g r)) t"
  by (induction t) (auto simp: update_row_def)

lemma map_if_row_same:
  "(\<And>r. g (f r) = g r) \<Longrightarrow>
   map (\<lambda>(i, r). (i, g r)) (map (\<lambda>(i, r). (i, f r)) t) = map (\<lambda>(i, r). (i, g r)) t"
  by (induction t) auto

lemma same_update_prompt:
  "(\<And>r. schedule_of (f r) = schedule_of r) \<Longrightarrow> same_schedules w (update_prompt i f w)"
  by (simp add: same_schedules_def update_prompt_def prompt_schedules_def automation_schedules_def map_update_row_same)

lemma same_update_automation:
  assumes "\<And>r. schedule_of (f r) = schedule_of r" "\<And>r. description_of (f r) = description_of r"
  shows "same_schedules w (update_automation i f w)"
proof -
  have "map (\<lambda>(i, r). (i, (schedule_of r, description_of r))) (update_row i f (automations w)) =
        map (\<lambda>(i, r). (i, (schedule_of r, description_of r))) (automations w)"
    by (rule map_update_row_same) (simp add: assms)
  then show ?thesis
    by (simp add: same_schedules_def update_automation_def prompt_schedules_def automation_schedules_def)
qed

lemma same_runs [simp]: "same_schedules w (w\<lparr>runs := rs\<rparr>)"
  by (simp add: same_schedules_def prompt_schedules_def automation_schedules_def)

lemma same_insertAutomationRun [simp]: "same_schedules w (insertAutomationRun i r w)"
  by (simp add: insertAutomationRun_def trimAutomationRuns_def Let_def same_schedules_def prompt_schedules_def
      automation_schedules_def)

lemma same_update_runs [simp]: "same_schedules w (snd (update_runs P f w))"
  by (simp add: update_runs_def)

lemma same_updateAutomationRunById [simp]:
  "same_schedules w (snd (updateAutomationRunById i k a st m cp now w))"
  by (simp add: updateAutomationRunById_def Let_def)

lemma same_updateDeterministicRunByInstance [simp]:
  "same_schedules w (snd (updateDeterministicRunByInstance a i st m now w))"
  by (simp add: updateDeterministicRunByInstance_def)

lemma same_start_turn [simp]: "same_schedules w (start_turn t u i m w)"
  by (simp add: start_turn_def same_schedules_def prompt_schedules_def automation_schedules_def)

lemma same_move_prompt [simp]: "same_schedules w (move_prompt i t now w)"
  unfolding move_prompt_def by (rule same_update_prompt) (simp add: schedule_of_def)

lemma same_settle_run [simp]: "same_schedules w (settle_run j p i d w)"
  by (simp add: settle_run_def)

lemma same_workflow_start_failed [simp]: "same_schedules w (workflow_start_failed j a i m w)"
  unfolding workflow_start_failed_def
  by (rule same_update_automation) (simp_all add: schedule_of_def description_of_def)

lemma same_fail_run [simp]: "same_schedules w (fail_run j a i m w)"
  by (simp add: fail_run_def)

lemma stored_workspace_simps [simp]:
  "getStoredWorkspaceId (w\<lparr>prompts := p\<rparr>) = getStoredWorkspaceId w"
  "getStoredWorkspaceId (w\<lparr>automations := a\<rparr>) = getStoredWorkspaceId w"
  "getStoredWorkspaceId (w\<lparr>runs := r\<rparr>) = getStoredWorkspaceId w"
  "getStoredWorkspaceId (w\<lparr>alarm_at := t\<rparr>) = getStoredWorkspaceId w"
  by (simp_all add: getStoredWorkspaceId_def)

lemma assert_bound: "getStoredWorkspaceId w \<noteq> None \<Longrightarrow> snd (assertWorkspaceIdentity x w) = w"
  by (auto simp: assertWorkspaceIdentity_def getStoredWorkspaceId_def checked_def Let_def js_trim_def
      split: sum.splits if_splits)

lemma same_versions [simp]: "same_schedules w (insertAutomationVersion x a v s u t w)"
  by (simp add: insertAutomationVersion_def Let_def same_schedules_def prompt_schedules_def automation_schedules_def)

subsection \<open>Setting the alarm\<close>

lemma foldr_min: "foldr min xs (y::int) \<le> y" "x \<in> set xs \<Longrightarrow> foldr min xs y \<le> x"
  "foldr min xs y = y \<or> foldr min xs y \<in> set xs"
  by (induction xs) (auto simp: min_def)

lemma earliest_run_None: "earliest_run w = None \<longleftrightarrow> all_next_runs w = []"
  by (simp add: earliest_run_def Let_def)

lemma earliest_run_Some:
  assumes "earliest_run w = Some t"
  shows "t \<in> set (all_next_runs w)" "u \<in> set (all_next_runs w) \<Longrightarrow> t \<le> u"
  using assms foldr_min [where xs = "all_next_runs w" and y = "hd (all_next_runs w)"]
  by (auto simp: earliest_run_def Let_def split: if_splits)

lemma schedules_alarm [simp]:
  "prompt_schedules (w\<lparr>alarm_at := a\<rparr>) = prompt_schedules w"
  "automation_schedules (w\<lparr>alarm_at := a\<rparr>) = automation_schedules w"
  "all_next_runs (w\<lparr>alarm_at := a\<rparr>) = all_next_runs w"
  "world_ok (w\<lparr>alarm_at := a\<rparr>) = world_ok w"
  by (simp_all add: prompt_schedules_def automation_schedules_def all_next_runs_def world_ok_def getStoredWorkspaceId_def)

lemma next_runs_positive:
  assumes "world_ok w" "t \<in> set (all_next_runs w)"
  shows "0 < t"
  using assms
  by (auto simp: world_ok_def all_next_runs_schedules List.map_filter_def schedule_ok_def split: if_splits; fastforce)

lemma world_ok_scheduleNextAlarm [simp]: "world_ok (scheduleNextAlarm now w) = world_ok w"
  by (simp add: scheduleNextAlarm_def Let_def)

lemma armed_scheduleNextAlarm:
  assumes "world_ok w" "now \<le> c"
  shows "armed c (scheduleNextAlarm now w)"
proof (cases "earliest_run w")
  case None
  then show ?thesis by (simp add: armed_def scheduleNextAlarm_def no_time_def earliest_run_None)
next
  case (Some t)
  have "0 < t" using next_runs_positive [OF assms(1)] earliest_run_Some(1) [OF Some] .
  moreover have "max (now + 1000) t \<le> max u (c + 1000)" if "u \<in> set (all_next_runs w)" for u
    using earliest_run_Some(2) [OF Some that] assms(2) by auto
  ultimately show ?thesis
    using Some by (auto simp: armed_def scheduleNextAlarm_def no_time_def)
qed

subsection \<open>One invariant for operations and their parts\<close>

text \<open>\<open>strict\<close>: the alarm is covered too, which does not hold while the handler runs.\<close>

definition alarm_inv :: "int \<Rightarrow> bool \<Rightarrow> cron_world \<Rightarrow> bool" where
  "alarm_inv c strict w \<longleftrightarrow> world_ok w \<and> (strict \<longrightarrow> armed c w)"

lemma alarm_inv_same: "same_schedules w w' \<Longrightarrow> alarm_inv c s w' = alarm_inv c s w"
  by (simp add: alarm_inv_def same_schedules_ok)

lemma alarm_inv_ok: "alarm_inv c s w \<Longrightarrow> world_ok w"
  by (simp add: alarm_inv_def)

lemma alarm_inv_rearm: "world_ok w \<Longrightarrow> now \<le> c \<Longrightarrow> alarm_inv c s (scheduleNextAlarm now w)"
  by (simp add: alarm_inv_def armed_scheduleNextAlarm)

lemma then_do_keeps:
  assumes "P (snd p)" "\<And>a. fst p = Inr a \<Longrightarrow> P (snd p) \<Longrightarrow> P (snd (f a (snd p)))"
  shows "P (snd (then_do p f))"
  using assms by (cases "fst p") (simp_all add: then_do_def)

lemma checked_keeps:
  assumes "P w" "\<And>a. r = Inr a \<Longrightarrow> P (snd (f a w))"
  shows "P (snd (checked r f w))"
  using assms by (cases r) simp_all

text \<open>
  What the scheduler relies on of the cron schedule: an accepted expression always has an answer, and a
  next run lies after the time it is computed from.
\<close>

locale run_times =
  fixes accepts :: "string \<Rightarrow> bool"
    and following :: "string \<Rightarrow> int \<Rightarrow> (cron_failure, int option) result"
  assumes answers: "accepts expr \<Longrightarrow> \<exists>t. following expr fromMs = Inr t"
    and accepted: "following expr fromMs = Inr t \<Longrightarrow> accepts expr"
    and later: "following expr fromMs = Inr (Some n) \<Longrightarrow> fromMs < n"
begin

lemma positive: "following expr fromMs = Inr (Some n) \<Longrightarrow> 0 \<le> fromMs \<Longrightarrow> 0 < n"
  using later by (rule order.strict_trans1 [rotated])

lemma not_due_again:
  assumes "accepts expr" "now \<le> fromMs"
  shows "\<exists>t. following expr fromMs = Inr t \<and> (\<forall>n. t = Some n \<longrightarrow> now < n)"
proof -
  obtain t where t: "following expr fromMs = Inr t" using answers [OF assms(1)] by blast
  have "now < n" if "t = Some n" for n using later [of expr fromMs n] t that assms(2) by simp
  with t show ?thesis by blast
qed

end

definition accepted_cron :: "string \<Rightarrow> bool" where
  "accepted_cron expr \<longleftrightarrow> (\<exists>p. parseCronExpression expr = Inr p)"

interpretation cron_times: run_times accepted_cron next_run
proof
  fix expr fromMs t n
  show "\<exists>t. next_run expr fromMs = Inr t" if "accepted_cron expr"
    using that next_run_total [of expr _ fromMs]
    by (auto simp: accepted_cron_def next_run_def cron_result_def getNextCronRunAt_string_def; fastforce)
  show "accepted_cron expr" if "next_run expr fromMs = Inr t"
    using that by (auto simp: accepted_cron_def next_run_def cron_result_def getNextCronRunAt_string_def result_simps
        split: sum.splits)
  show "fromMs < n" if "next_run expr fromMs = Inr (Some n)"
  proof -
    from that obtain p where p: "parseCronExpression expr = Inr p" and r: "getNextCronRunAt p fromMs = Inr (Some n)"
      by (auto simp: next_run_def cron_result_def getNextCronRunAt_string_def result_simps split: sum.splits)
    obtain r' where "getNextCronRunAt p fromMs = Inr r'"
      "next_run_spec p (fromMs + SEARCH_WINDOW_MS) (toNextMinute fromMs) r'"
      using next_run_total [OF p] by blast
    then show ?thesis using r toNextMinute_least(1) [of fromMs] by (auto simp: next_run_spec_def)
  qed
qed

lemma next_run_later:
  assumes "next_run expr fromMs = Inr t"
  shows "\<exists>p. parseCronExpression expr = Inr p" "t = Some n \<Longrightarrow> fromMs < n"
  using cron_times.accepted [OF assms] cron_times.later [of expr fromMs n] assms by (simp_all add: accepted_cron_def)

lemma normalizeCron_parses: "normalizeCronExpression v = Inr expr \<Longrightarrow> \<exists>p. parseCronExpression expr = Inr p"
  by (auto simp: normalizeCronExpression_def cron_result_def Let_def result_simps split: if_splits sum.splits)

lemma js_trim_trim [simp]: "js_trim (js_trim s) = js_trim s"
proof -
  let ?u = "dropWhile is_js_space s"
  let ?v = "dropWhile is_js_space (rev ?u)"
  have "dropWhile is_js_space (rev ?v) = rev ?v"
  proof (cases "?v = []")
    case False
    obtain p where p: "rev ?u = p @ ?v" using takeWhile_dropWhile_id [of is_js_space "rev ?u"] by metis
    then have "?u = rev ?v @ rev p" by (metis rev_append rev_rev_ident)
    then have "hd (rev ?v) = hd ?u" using False by (metis hd_append2 rev_is_Nil_conv)
    moreover have "?u \<noteq> []"
    proof
      assume "?u = []"
      then have "?v = []" by (simp only: rev.simps dropWhile.simps)
      with False show False by blast
    qed
    ultimately have "\<not> is_js_space (hd (rev ?v))" by (metis hd_dropWhile)
    then show ?thesis using False by (cases "rev ?v") auto
  next
    case True
    then show ?thesis by (simp only: rev.simps dropWhile.simps)
  qed
  then show ?thesis by (simp add: js_trim_def)
qed

lemma parseDescription_ok: "parseDescription d = Inr t \<Longrightarrow> description_ok t"
  by (auto simp: description_ok_def parseDescription_def require_def Let_def split: if_splits)

lemma parsed_description: "parseDescription d = Inr t \<Longrightarrow> description_ok d"
  by (auto simp: description_ok_def)

lemma toAutomation_facts:
  assumes "toAutomation r = Inr r'"
  shows "schedule_of r' = schedule_of r" "source r' = source r" "created_by r' = created_by r" "name r' = name r"
    "source_version r' = source_version r" "\<exists>d. description r' = Some d \<and> description_ok d"
    "enabled r' = enabled r" "cron_expression r' = cron_expression r" "next_run_at r' = next_run_at r"
  using assms by (auto simp: toAutomation_def schedule_of_def result_simps dest: parseDescription_ok)

lemma toAutomation_works: "description_ok (description_of r) \<Longrightarrow> \<exists>r'. toAutomation r = Inr r'"
  by (auto simp: description_ok_def description_of_def toAutomation_def)

lemma world_ok_rows:
  assumes "world_ok w"
  shows "map_of (prompts w) i = Some r \<Longrightarrow> schedule_ok (schedule_of r)"
    "(i, r) \<in> set (prompts w) \<Longrightarrow> schedule_ok (schedule_of r)"
    "map_of (automations w) i = Some a \<Longrightarrow> schedule_ok (schedule_of a) \<and> description_ok (description_of a)"
    "(i, a) \<in> set (automations w) \<Longrightarrow> schedule_ok (schedule_of a) \<and> description_ok (description_of a)"
  using assms by (auto simp: world_ok_def prompt_schedules_def automation_schedules_def dest!: map_of_SomeD)

lemma world_ok_iff:
  "world_ok w \<longleftrightarrow> getStoredWorkspaceId w \<noteq> None \<and> (\<forall>(i, r) \<in> set (prompts w). schedule_ok (schedule_of r)) \<and>
     (\<forall>(i, r) \<in> set (automations w). schedule_ok (schedule_of r) \<and> description_ok (description_of r))"
  by (simp add: world_ok_def prompt_schedules_def automation_schedules_def case_prod_unfold)

lemma world_ok_update_prompt:
  assumes "world_ok w" "\<And>r. schedule_ok (schedule_of r) \<Longrightarrow> schedule_ok (schedule_of (f r))"
  shows "world_ok (update_prompt i f w)"
  using assms by (auto simp: world_ok_iff update_prompt_def update_row_def)

lemma world_ok_update_automation:
  assumes "world_ok w" "\<And>r. schedule_ok (schedule_of r) \<Longrightarrow> schedule_ok (schedule_of (f r))"
    "\<And>r. description_ok (description_of r) \<Longrightarrow> description_ok (description_of (f r))"
  shows "world_ok (update_automation i f w)"
  using assms by (auto simp: world_ok_iff update_automation_def update_row_def)

lemma schedule_ok_next:
  "schedule_ok (expr, on, t) \<Longrightarrow> schedule_ok s \<Longrightarrow> schedule_ok (fst s, on', t)"
  by (auto simp: schedule_ok_def)

lemma world_ok_add_prompt:
  "world_ok w \<Longrightarrow> schedule_ok (schedule_of r) \<Longrightarrow> world_ok (w\<lparr>prompts := prompts w @ [(i, r)]\<rparr>)"
  by (auto simp: world_ok_iff)

lemma world_ok_add_automation:
  "world_ok w \<Longrightarrow> schedule_ok (schedule_of r) \<Longrightarrow> description_ok (description_of r) \<Longrightarrow>
   world_ok (w\<lparr>automations := automations w @ [(i, r)]\<rparr>)"
  by (auto simp: world_ok_iff)

lemma world_ok_versions [simp]: "world_ok (insertAutomationVersion x a v s u t w) = world_ok w"
  using same_schedules_ok(1) [OF same_versions] .

lemma world_ok_insertAutomationRun [simp]: "world_ok (insertAutomationRun i r w) = world_ok w"
  using same_schedules_ok(1) [OF same_insertAutomationRun] .

lemma alarm_inv_assert: "alarm_inv c s w \<Longrightarrow> alarm_inv c s (snd (assertWorkspaceIdentity x w))"
  by (simp add: assert_bound alarm_inv_def world_ok_def)

subsection \<open>Services and jobs\<close>

text \<open>What others do at the awaits of an operation is related by \<open>R\<close>.\<close>

definition service_steps :: "(cron_world \<Rightarrow> cron_world \<Rightarrow> bool) \<Rightarrow> 'a service_env_scheme \<Rightarrow> bool" where
  "service_steps R e \<longleftrightarrow> (\<forall>w. R w (after_workspace e w)) \<and> (\<forall>w. R w (after_org e w))"

definition job_steps :: "(cron_world \<Rightarrow> cron_world \<Rightarrow> bool) \<Rightarrow> job_env \<Rightarrow> bool" where
  "job_steps R j \<longleftrightarrow>
     (\<forall>w. R w (before_insert j w)) \<and> (\<forall>w. R w (before_turn j w)) \<and> (\<forall>w. R w (during_turn j w)) \<and>
     (\<forall>w. R w (before_rehome j w)) \<and> (\<forall>w. R w (during_second_turn j w)) \<and> (\<forall>w. R w (during_workflow j w)) \<and>
     0 \<le> job_started j"

abbreviation keeps :: "(cron_world \<Rightarrow> bool) \<Rightarrow> cron_world \<Rightarrow> cron_world \<Rightarrow> bool" where
  "keeps I \<equiv> (\<lambda>w w'. I w \<longrightarrow> I w')"

lemma service_keeps:
  assumes "service_steps (keeps I) e" "I w"
  shows "I (snd (fetch_workspace e w))" "I (snd (fetch_limits e w))"
  using assms by (simp_all add: service_steps_def fetch_workspace_def fetch_limits_def)

lemma within_limits_keeps:
  assumes "service_steps (keeps I) e" "I w"
  shows "I (snd (within_limits on e now expr who x w))"
  unfolding within_limits_def
  by (auto intro!: then_do_keeps [where P = I] service_keeps [OF assms] simp: assms(2))

lemma first_run_ok:
  "first_run on expr now = Inr t \<Longrightarrow> \<exists>p. parseCronExpression expr = Inr p \<Longrightarrow> 0 \<le> now \<Longrightarrow> schedule_ok (expr, on, t)"
  by (auto simp: first_run_def schedule_ok_def result_simps split: if_splits dest: next_run_later(2))

lemma updated_next_run_ok:
  assumes "updated_next_run on expr r now = Inr t" "\<exists>p. parseCronExpression expr = Inr p" "0 \<le> now"
    "schedule_ok (schedule_of r)"
  shows "schedule_ok (expr, on, t)"
  using assms
  by (auto simp: updated_next_run_def schedule_ok_def schedule_of_def Let_def result_simps split: if_splits
      dest: next_run_later(2))

lemma manual_next_run_ok:
  assumes "manual_next_run r v started = Inr t" "0 \<le> started" "schedule_ok (schedule_of r)"
  shows "schedule_ok (cron_expression r, enabled r, t)"
  using assms
  by (auto simp: manual_next_run_def schedule_ok_def schedule_of_def BILLING_BLOCK_RECHECK_MS_def
      split: if_splits dest: next_run_later(2))

subsection \<open>Every operation keeps the invariant\<close>

lemmas inv_then = then_do_keeps [where P = "alarm_inv c s" for c s]
lemmas inv_checked = checked_keeps [where P = "alarm_inv c s" for c s]

lemma add_prompt_keeps:
  assumes "alarm_inv c s w" "normalizeCronExpression v = Inr expr" "first_run on expr now = Inr t"
    "0 \<le> now" "rearm \<le> c" "schedule_of r = (expr, on, t)"
  shows "alarm_inv c s (scheduleNextAlarm rearm (w\<lparr>prompts := prompts w @ [(i, r)]\<rparr>))"
  using assms(5,6) first_run_ok [OF assms(3) normalizeCron_parses [OF assms(2)] assms(4)]
  by (intro alarm_inv_rearm world_ok_add_prompt alarm_inv_ok [OF assms(1)]) simp_all

lemma create_prompt_keeps:
  assumes "service_steps (keeps (alarm_inv c s)) e" "\<forall>w. alarm_inv c s w \<longrightarrow> alarm_inv c s (after_thread e w)"
    "0 \<le> create_now e" "create_env.rearm_now e \<le> c" "alarm_inv c s w"
  shows "alarm_inv c s (snd (createScheduledPrompt e x w))"
  unfolding createScheduledPrompt_def Let_def
  by (intro inv_then inv_checked alarm_inv_assert service_keeps(1) [OF assms(1)] within_limits_keeps [OF assms(1)] assms(5))
    (use assms(2) in simp,
     auto simp: schedule_of_def intro!: add_prompt_keeps [OF _ _ _ assms(3,4)] split: option.split)

lemma read_automation_keeps [simp]: "snd (read_automation a m w) = w"
  by (simp add: read_automation_def split: option.split)

lemma add_automation_keeps:
  assumes "alarm_inv c s w" "normalizeCronExpression v = Inr expr" "first_run on expr now = Inr t"
    "0 \<le> now" "rearm \<le> c" "schedule_of r = (expr, on, t)" "parseDescription d = Inr (description_of r)"
  shows "alarm_inv c s (scheduleNextAlarm rearm
           (insertAutomationVersion x i n src u now (w\<lparr>automations := automations w @ [(i, r)]\<rparr>)))"
  using assms(5-7) first_run_ok [OF assms(3) normalizeCron_parses [OF assms(2)] assms(4)]
  by (intro alarm_inv_rearm, simp)
    (intro world_ok_add_automation alarm_inv_ok [OF assms(1)], simp_all add: parseDescription_ok)

lemma create_automation_keeps:
  assumes "service_steps (keeps (alarm_inv c s)) e"
    "0 \<le> create_now e" "create_env.rearm_now e \<le> c" "alarm_inv c s w"
  shows "alarm_inv c s (snd (createDeterministicAutomation e x w))"
  unfolding createDeterministicAutomation_def Let_def
  by (intro inv_then inv_checked alarm_inv_assert service_keeps(1) [OF assms(1)] within_limits_keeps [OF assms(1)] assms(4))
    (auto simp: schedule_of_def description_of_def intro!: add_automation_keeps [OF _ _ _ assms(2,3)])

lemma optional_cron_parses:
  assumes "parse_optional normalizeCronExpression v old = Inr expr" "\<exists>p. parseCronExpression old = Inr p"
  shows "\<exists>p. parseCronExpression expr = Inr p"
  using assms by (cases v) (auto simp: parse_optional_def dest: normalizeCron_parses)

text \<open>The statement of an edit, for both kinds; \<open>r0\<close> is the row read at the start.\<close>

lemma edited_schedule_ok:
  assumes "parse_optional normalizeCronExpression v (cron_expression r0) = Inr expr"
    "updated_next_run on expr r0 now = Inr t" "0 \<le> now" "schedule_ok (schedule_of r0)"
  shows "schedule_ok (expr, on, t)"
  using updated_next_run_ok [OF assms(2) optional_cron_parses [OF assms(1)] assms(3,4)] assms(4)
  by (simp add: schedule_ok_def schedule_of_def)

lemma edit_prompt_keeps:
  assumes "alarm_inv c s w" "schedule_ok k" "rearm \<le> c" "\<And>r. schedule_of (f r) = k"
  shows "alarm_inv c s (scheduleNextAlarm rearm (update_prompt i f w))"
  using assms(2-4) by (intro alarm_inv_rearm world_ok_update_prompt alarm_inv_ok [OF assms(1)]) simp_all

lemma update_prompt_keeps:
  assumes "service_steps (keeps (alarm_inv c s)) e" "0 \<le> update_now e" "update_env.rearm_now e \<le> c" "alarm_inv c s w"
  shows "alarm_inv c s (snd (updateScheduledPrompt e x w))"
  unfolding updateScheduledPrompt_def Let_def
proof (intro inv_then alarm_inv_assert assms(4), goal_cases)
  case (1 a)
  let ?w = "snd (assertWorkspaceIdentity (prompt_update.up_workspace x) w)"
  show ?case
  proof (cases "map_of (prompts ?w) (prompt_update.up_id x)")
    case None
    with 1 show ?thesis by simp
  next
    case (Some r0)
    have ok: "schedule_ok (schedule_of r0)"
      using world_ok_rows(1) [OF alarm_inv_ok [OF 1(2)] Some] .
    show ?thesis
      unfolding Some option.case
      by (intro inv_then inv_checked service_keeps(1) [OF assms(1)] within_limits_keeps [OF assms(1)] 1(2))
        (auto simp: schedule_of_def intro!: edit_prompt_keeps [OF _ edited_schedule_ok [OF _ _ assms(2) ok] assms(3)])
  qed
qed

lemma edit_automation_keeps:
  assumes "alarm_inv c s w" "schedule_ok k" "rearm \<le> c" "\<And>r. schedule_of (f r) = k"
    "\<And>r. description_of (f r) = d" "description_ok d"
  shows "alarm_inv c s (scheduleNextAlarm rearm (update_automation i f w))"
    "alarm_inv c s (scheduleNextAlarm rearm (insertAutomationVersion x a v src u now (update_automation i f w)))"
proof -
  have "world_ok (update_automation i f w)"
    using assms(2,4-6) by (intro world_ok_update_automation alarm_inv_ok [OF assms(1)]) simp_all
  then show "alarm_inv c s (scheduleNextAlarm rearm (update_automation i f w))"
    "alarm_inv c s (scheduleNextAlarm rearm (insertAutomationVersion x a v src u now (update_automation i f w)))"
    using assms(3) by (simp_all add: alarm_inv_rearm)
qed

lemma parsed_optional_description:
  assumes "parse_optional parseDescription v old = Inr d" "description_ok old"
  shows "description_ok d"
  using assms by (cases v) (auto simp: parse_optional_def dest: parseDescription_ok)

lemma update_automation_keeps:
  assumes "service_steps (keeps (alarm_inv c s)) e" "0 \<le> update_now e" "update_env.rearm_now e \<le> c" "alarm_inv c s w"
  shows "alarm_inv c s (snd (updateDeterministicAutomation e x w))"
  unfolding updateDeterministicAutomation_def Let_def
proof (intro inv_then alarm_inv_assert assms(4), goal_cases)
  case (1 a)
  let ?w = "snd (assertWorkspaceIdentity (automation_update.up_workspace x) w)"
  show ?case
  proof (cases "map_of (automations ?w) (automation_update.up_id x)")
    case None
    with 1 show ?thesis by simp
  next
    case (Some r0)
    have ok: "schedule_ok (schedule_of r0)"
      using world_ok_rows(3) [OF alarm_inv_ok [OF 1(2)] Some] by blast
    show ?thesis
      unfolding Some option.case
    proof (intro inv_then inv_checked service_keeps(1) [OF assms(1)] within_limits_keeps [OF assms(1)] 1(2), goal_cases)
      case (1 info existing u nm descr src u' expr u'' t)
      note r = toAutomation_facts [OF 1(3)]
      have k: "schedule_ok (expr, or_default (enabled existing) (automation_update.up_enabled x), t)"
        using edited_schedule_ok [OF 1(9,12) assms(2)] ok r(1) by simp
      have d: "description_ok descr"
        using parsed_optional_description [OF 1(6)] r(6) by auto
      show ?case
        using 1(1,2,11)
        by (auto simp: schedule_of_def description_of_def intro!: edit_automation_keeps [OF _ k assms(3) _ _ d]
            split: option.split)
    qed
  qed
qed

lemma world_ok_delete:
  "world_ok w \<Longrightarrow> world_ok (w\<lparr>prompts := delete_row i (prompts w)\<rparr>)"
  "world_ok w \<Longrightarrow> world_ok (w\<lparr>automations := delete_row i (automations w)\<rparr>)"
  "world_ok (delete_runs k a w) = world_ok w"
  by (auto simp: world_ok_iff delete_row_def delete_runs_def)

lemma delete_keeps:
  assumes "now \<le> c" "alarm_inv c s w"
  shows "alarm_inv c s (snd (deleteScheduledPrompt now x i w))" "alarm_inv c s (snd (deleteDeterministicAutomation now x i w))"
  unfolding deleteScheduledPrompt_def deleteDeterministicAutomation_def
  by (intro inv_then alarm_inv_assert assms(2);
      simp split: option.split add: alarm_inv_rearm [OF _ assms(1)] world_ok_delete alarm_inv_ok)+

lemma disabled_rows:
  "next_runs (map (\<lambda>(i, r). (i, disable_row now why r)) t) = []"
  by (induction t) (auto simp: next_runs_def List.map_filter_simps disable_row_def)

lemma disabled_ok:
  "schedule_ok (schedule_of r) \<Longrightarrow> schedule_ok (schedule_of (disable_row now why r))"
  "description_of (disable_row now why a) = description_of a"
  by (simp_all add: disable_row_def schedule_of_def schedule_ok_def description_of_def)

lemma disable_all_keeps:
  assumes "alarm_inv c s w"
  shows "alarm_inv c s (snd (disableAllScheduledPrompts now x why w))"
  unfolding disableAllScheduledPrompts_def
  by (intro inv_then alarm_inv_assert assms)
    (auto simp: alarm_inv_def armed_def all_next_runs_def disabled_rows world_ok_iff disabled_ok)

subsection \<open>Runs keep the invariant\<close>

lemma inv_same_steps [simp]:
  "alarm_inv c s (insertAutomationRun i r w) = alarm_inv c s w"
  "alarm_inv c s (snd (update_runs P f w)) = alarm_inv c s w"
  "alarm_inv c s (snd (updateAutomationRunById i' k a st m cp now w)) = alarm_inv c s w"
  "alarm_inv c s (snd (updateDeterministicRunByInstance a i' st m now w)) = alarm_inv c s w"
  "alarm_inv c s (start_turn t u i m' w) = alarm_inv c s w"
  "alarm_inv c s (move_prompt i t now w) = alarm_inv c s w"
  "alarm_inv c s (settle_run j p i d w) = alarm_inv c s w"
  "alarm_inv c s (workflow_start_failed j a i m' w) = alarm_inv c s w"
  "alarm_inv c s (fail_run j a i m' w) = alarm_inv c s w"
  by (simp_all add: alarm_inv_same)

lemma job_keeps:
  assumes "job_steps (keeps I) j" "I w"
  shows "I (before_insert j w)" "I (before_turn j w)" "I (during_turn j w)" "I (before_rehome j w)"
    "I (during_second_turn j w)" "I (during_workflow j w)"
  using assms by (simp_all add: job_steps_def)

lemma ensure_keeps:
  assumes "job_steps (keeps (alarm_inv c s)) j" "alarm_inv c s w"
  shows "alarm_inv c s (snd (ensureRunnableThread j p w))"
  unfolding ensureRunnableThread_def
  by (intro inv_then) (auto intro!: inv_checked simp: job_keeps [OF assms])

lemma dispatch_turn_keeps:
  assumes "job_steps (keeps (alarm_inv c s)) j" "alarm_inv c s w"
  shows "alarm_inv c s (snd (dispatch_turn j p f i t w))"
  using assms(2)
  by (simp add: dispatch_turn_def rehome_prompt_def Let_def job_keeps [OF assms(1)]
      split: sum.split option.split turn_answer.split)

lemma dispatchPrompt_keeps:
  assumes "job_steps (keeps (alarm_inv c s)) j" "alarm_inv c s w"
  shows "alarm_inv c s (snd (dispatchPrompt j p f tr i w))"
  unfolding dispatchPrompt_def
  by (intro inv_then ensure_keeps assms) (simp add: case_prod_unfold Let_def dispatch_turn_keeps [OF assms(1)])

lemma update_prompt_next:
  assumes "alarm_inv c s w" "schedule_ok (expr, on, t)" "rearm \<le> c"
    "\<And>r. schedule_of (f r) = (cron_expression r, on', t)"
  shows "alarm_inv c s (scheduleNextAlarm rearm (update_prompt i f w))"
  using assms(2-4)
  by (intro alarm_inv_rearm world_ok_update_prompt alarm_inv_ok [OF assms(1)])
    (auto simp: schedule_ok_def schedule_of_def)

lemma run_prompt_now_keeps:
  assumes "service_steps (keeps (alarm_inv c s)) e" "job_steps (keeps (alarm_inv c s)) j" "rearm \<le> c" "alarm_inv c s w"
  shows "alarm_inv c s (snd (runScheduledPromptNow e j rearm x i w))"
  unfolding runScheduledPromptNow_def Let_def
proof (intro inv_then alarm_inv_assert assms(4), goal_cases)
  case (1 a)
  let ?w = "snd (assertWorkspaceIdentity x w)"
  show ?case
  proof (cases "map_of (prompts ?w) i")
    case None
    with 1 show ?thesis by simp
  next
    case (Some r0)
    have ok: "schedule_ok (schedule_of r0)" using world_ok_rows(1) [OF alarm_inv_ok [OF 1(2)] Some] .
    have started: "0 \<le> job_started j" using assms(2) by (simp add: job_steps_def)
    show ?thesis
      unfolding Some option.case
      by (intro inv_then inv_checked service_keeps [OF assms(1)] dispatchPrompt_keeps [OF assms(2)] 1(2))
        (auto simp: schedule_of_def intro!: update_prompt_next [OF _ manual_next_run_ok [OF _ started ok] assms(3)])
  qed
qed

lemma world_ok_manual_summary:
  assumes "world_ok w" "schedule_ok (expr, on, t)"
  shows "world_ok (manual_summary j a t st err inst w)"
  unfolding manual_summary_def
  using assms(2)
  by (intro world_ok_update_automation assms(1)) (auto simp: schedule_ok_def schedule_of_def description_of_def)

lemma world_ok_same [simp]:
  "world_ok (workflow_start_failed j a i m w) = world_ok w" "world_ok (fail_run j a i m w) = world_ok w"
  "world_ok (w\<lparr>workflow_requests := q\<rparr>) = world_ok w"
  by (simp_all add: same_schedules_ok(1), rule same_schedules_ok(1), simp add: same_schedules_def prompt_schedules_def automation_schedules_def)

lemma world_ok_manual_workflow:
  assumes "job_steps (keeps world_ok) j" "world_ok w" "schedule_ok (expr, on, t)"
  shows "world_ok (snd (manual_workflow j a b t w))" "world_ok (manual_unconfigured j a b t w)"
proof -
  note m = world_ok_manual_summary [OF _ assms(3)]
  show "world_ok (manual_unconfigured j a b t w)"
    unfolding manual_unconfigured_def by (intro m) (simp add: assms(2))
  let ?u = "\<lambda>w. update_automation (fst a) (\<lambda>r. if last_instance_id r = Some (job_instance j)
                     then r\<lparr>updated_at := job_finished j, last_instance_id := None\<rparr> else r) w"
  have u: "world_ok w' \<Longrightarrow> world_ok (?u w')" for w'
    by (intro world_ok_update_automation) (auto simp: schedule_of_def description_of_def)
  have d: "world_ok (snd (dispatchDeterministicAutomation j a f tr i w'))" if "world_ok w'" for f tr i w'
    using that by (simp add: dispatchDeterministicAutomation_def Let_def job_keeps [OF assms(1)])
  show "world_ok (snd (manual_workflow j a b t w))"
    unfolding manual_workflow_def Let_def case_prod_unfold
    by (auto split: option.split intro!: u d m simp: assms(2))
qed

lemma run_automation_now_keeps:
  assumes "service_steps (keeps (alarm_inv c s)) e" "job_steps (keeps world_ok) j" "rearm \<le> c" "alarm_inv c s w"
  shows "alarm_inv c s (snd (runDeterministicAutomationNow e j rearm x i w))"
  unfolding runDeterministicAutomationNow_def Let_def
proof (intro inv_then alarm_inv_assert assms(4), goal_cases)
  case (1 a)
  let ?w = "snd (assertWorkspaceIdentity x w)"
  show ?case
  proof (cases "map_of (automations ?w) i")
    case None
    with 1 show ?thesis by simp
  next
    case (Some r0)
    have ok: "schedule_ok (schedule_of r0)" using world_ok_rows(3) [OF alarm_inv_ok [OF 1(2)] Some] by blast
    have started: "0 \<le> job_started j" using assms(2) by (simp add: job_steps_def)
    have fin: "alarm_inv c s (scheduleNextAlarm rearm (snd (manual_workflow j (i, r) b t w')))"
      "alarm_inv c s (scheduleNextAlarm rearm (manual_unconfigured j (i, r) b t w'))"
      if "alarm_inv c s w'" "toAutomation r0 = Inr r" "manual_next_run r v (job_started j) = Inr t" for w' r b v t
    proof -
      have "schedule_ok (cron_expression r, enabled r, t)"
        using manual_next_run_ok [OF that(3) started] ok toAutomation_facts(1) [OF that(2)] by simp
      note k = world_ok_manual_workflow [OF assms(2) alarm_inv_ok [OF that(1)] this]
      show "alarm_inv c s (scheduleNextAlarm rearm (snd (manual_workflow j (i, r) b t w')))"
        "alarm_inv c s (scheduleNextAlarm rearm (manual_unconfigured j (i, r) b t w'))"
        by (intro alarm_inv_rearm k assms(3))+
    qed
    show ?thesis
      unfolding Some option.case
      by (intro inv_then inv_checked service_keeps [OF assms(1)] 1(2))
        (auto simp: case_prod_unfold split: option.split intro!: fin)
  qed
qed

lemma update_prompt_summary:
  "(\<And>r. schedule_of (f r) = schedule_of r) \<Longrightarrow> alarm_inv c s (update_prompt i f w) = alarm_inv c s w"
  by (intro alarm_inv_same same_update_prompt)

lemma update_automation_summary:
  "(\<And>r. schedule_of (f r) = schedule_of r) \<Longrightarrow> (\<And>r. description_of (f r) = description_of r) \<Longrightarrow>
   alarm_inv c s (update_automation i f w) = alarm_inv c s w"
  by (intro alarm_inv_same same_update_automation)

lemma record_prompt_result_keeps:
  "alarm_inv c s w \<Longrightarrow> alarm_inv c s (snd (recordScheduledPromptRunResult now x p i st m cp w))"
  unfolding recordScheduledPromptRunResult_def Let_def case_prod_unfold
  by (intro inv_then alarm_inv_assert)
    (auto simp: update_prompt_summary schedule_of_def split: option.split)

lemma results_keep:
  assumes "alarm_inv c s w"
  shows "alarm_inv c s (snd (reportScheduledRunOutcome x t st summary w))"
    "alarm_inv c s (snd (finishScheduledRun now x i err cp w))"
    "alarm_inv c s (snd (recordDeterministicAutomationRunResult now x a i res err w))"
  unfolding reportScheduledRunOutcome_def finishScheduledRun_def recordDeterministicAutomationRunResult_def
    Let_def case_prod_unfold
  by (intro inv_then alarm_inv_assert assms;
      auto simp: record_prompt_result_keeps update_automation_summary schedule_of_def description_of_def
        split: option.split list.split)+

lemma reads_keep:
  assumes "alarm_inv c s w"
  shows "alarm_inv c s (snd (listScheduledPrompts x w))" "alarm_inv c s (snd (listDeterministicAutomations x w))"
    "alarm_inv c s (snd (listAutomationRuns x n w))" "alarm_inv c s (snd (listAutomationRunsPage x k a n cu w))"
    "alarm_inv c s (snd (getDeterministicAutomationSource x a v w))"
  unfolding listScheduledPrompts_def listDeterministicAutomations_def listAutomationRuns_def
    listAutomationRunsPage_def getDeterministicAutomationSource_def Let_def
  by (intro inv_then alarm_inv_assert assms; simp)+

subsection \<open>The alarm handler re-arms itself\<close>

lemma attempt_schedule:
  "schedule_of (attempt now t started st err r) = (cron_expression r, enabled r, t)"
  by (simp add: attempt_def schedule_of_def)

definition next_time :: "int option \<Rightarrow> bool" where
  "next_time t \<longleftrightarrow> (\<forall>n. t = Some n \<longrightarrow> 0 < n)"

lemma next_run_time: "next_run expr fromMs = Inr t \<Longrightarrow> 0 \<le> fromMs \<Longrightarrow> next_time t"
  using cron_times.positive by (auto simp: next_time_def)

lemma world_ok_attempt_prompt:
  assumes "world_ok w" "\<And>r. cron_expression (f r) = cron_expression r"
    "\<And>r. next_time (next_run_at (f r)) \<or> next_run_at (f r) = next_run_at r"
  shows "world_ok (update_prompt i f w)"
proof (intro world_ok_update_prompt assms(1))
  fix r :: prompt_row
  assume "schedule_ok (schedule_of r)"
  then show "schedule_ok (schedule_of (f r))"
    using assms(2) [of r] assms(3) [of r] by (auto simp: schedule_ok_def schedule_of_def next_time_def)
qed

lemma world_ok_attempt_automation:
  assumes "world_ok w" "\<And>r. cron_expression (f r) = cron_expression r"
    "\<And>r. next_time (next_run_at (f r)) \<or> next_run_at (f r) = next_run_at r"
    "\<And>r. description_of (f r) = description_of r"
  shows "world_ok (update_automation i f w)"
proof (intro world_ok_update_automation assms(1))
  fix r :: automation_row
  assume "schedule_ok (schedule_of r)"
  then show "schedule_ok (schedule_of (f r))"
    using assms(2) [of r] assms(3) [of r] by (auto simp: schedule_ok_def schedule_of_def next_time_def)
qed (simp add: assms(4))

lemmas ok_then = then_do_keeps [where P = world_ok]
lemmas ok_checked = checked_keeps [where P = world_ok]

lemma run_jobs_keeps:
  "(\<And>x w. x \<in> set xs \<Longrightarrow> P w \<Longrightarrow> P (snd (f x w))) \<Longrightarrow> P w \<Longrightarrow> P (snd (run_jobs f xs w))"
proof (induction xs arbitrary: w)
  case (Cons x xs)
  then show ?case by (auto intro!: then_do_keeps [where P = P])
qed simp

definition alarm_steps :: "(cron_world \<Rightarrow> cron_world \<Rightarrow> bool) \<Rightarrow> alarm_env \<Rightarrow> bool" where
  "alarm_steps R e \<longleftrightarrow>
     service_steps R e \<and> (\<forall>i. job_steps R (prompt_jobs e i)) \<and> (\<forall>i. job_steps R (automation_jobs e i)) \<and> 0 \<le> alarm_now e"

lemma unavailable_ok:
  assumes "0 \<le> alarm_now e" "world_ok w"
  shows "world_ok (snd (unavailable_prompt e p w))" "world_ok (snd (unavailable_automation e a w))"
  unfolding unavailable_prompt_def unavailable_automation_def Let_def
  by (intro ok_checked assms(2); auto simp: assms(2) attempt_def description_of_def intro: next_run_time [OF _ assms(1)]
      intro!: world_ok_attempt_prompt world_ok_attempt_automation)+

lemma alarm_inv_False [simp]: "alarm_inv c False w = world_ok w"
  by (simp add: alarm_inv_def)

lemma dispatchPrompt_ok:
  "job_steps (keeps world_ok) j \<Longrightarrow> world_ok w \<Longrightarrow> world_ok (snd (dispatchPrompt j p f tr i w))"
  using dispatchPrompt_keeps [where s = False] by simp

lemma settle_run_ok [simp]: "world_ok (settle_run j p i d w) = world_ok w"
  by (intro same_schedules_ok(1)) simp

lemma run_due_prompt_ok:
  assumes "alarm_steps (keeps world_ok) e" "world_ok w"
  shows "world_ok (snd (run_due_prompt e limits p w))"
proof -
  let ?j = "prompt_jobs e (fst p)"
  have j: "job_steps (keeps world_ok) ?j" and started: "0 \<le> job_started ?j"
      "0 \<le> job_started ?j + BILLING_BLOCK_RECHECK_MS"
    using assms(1) by (auto simp: alarm_steps_def job_steps_def BILLING_BLOCK_RECHECK_MS_def)
  show ?thesis
    unfolding run_due_prompt_def Let_def
    by (intro ok_checked assms(2))
      (auto split: option.split simp: assms(2) attempt_def
        intro!: ok_checked ok_then dispatchPrompt_ok [OF j]
          world_ok_attempt_prompt,
        (erule next_run_time [OF _ started(1)] | erule next_run_time [OF _ started(2)])+)
qed

lemma start_due_automation_ok:
  assumes "job_steps (keeps world_ok) j" "world_ok w" "next_time t"
  shows "world_ok (start_due_automation j a f t w)"
proof -
  have d: "world_ok (snd (dispatchDeterministicAutomation j a f tr i w'))" if "world_ok w'" for f tr i w'
    using that by (simp add: dispatchDeterministicAutomation_def Let_def job_keeps [OF assms(1)])
  show ?thesis
    unfolding start_due_automation_def Let_def case_prod_unfold
    by (auto split: option.split intro!: d world_ok_attempt_automation
        simp: assms(2,3) attempt_def description_of_def)
qed

lemma run_due_automation_ok:
  assumes "alarm_steps (keeps world_ok) e" "world_ok w"
  shows "world_ok (snd (run_due_automation e limits a w))"
proof -
  let ?j = "automation_jobs e (fst a)"
  have j: "job_steps (keeps world_ok) ?j" and started: "0 \<le> job_started ?j"
      "0 \<le> job_started ?j + BILLING_BLOCK_RECHECK_MS"
    using assms(1) by (auto simp: alarm_steps_def job_steps_def BILLING_BLOCK_RECHECK_MS_def)
  show ?thesis
    unfolding run_due_automation_def Let_def
    by (intro ok_checked assms(2))
      (auto split: option.split simp: assms(2) attempt_def description_of_def
        intro!: ok_checked start_due_automation_ok [OF j _ next_run_time [OF _ started(1)]]
          world_ok_attempt_automation,
        erule next_run_time [OF _ started(2)])
qed

lemma run_due_jobs_ok:
  assumes "alarm_steps (keeps world_ok) e" "world_ok w"
  shows "world_ok (snd (run_due_jobs e limits w))"
  unfolding run_due_jobs_def
  by (intro ok_then run_jobs_keeps [where P = world_ok] run_due_prompt_ok [OF assms(1)]
      run_due_automation_ok [OF assms(1)] assms(2))

lemma recordDueWorkspaceUnavailable_inv:
  assumes "0 \<le> alarm_now e" "alarm_rearm e \<le> c" "world_ok w" "fst (recordDueWorkspaceUnavailable e w) = Inr ()"
  shows "alarm_inv c s (snd (recordDueWorkspaceUnavailable e w))"
proof -
  obtain w1 w2 where "recordDueWorkspaceUnavailable e w = (Inr (), scheduleNextAlarm (alarm_rearm e) w2)" "world_ok w2"
  proof -
    have 1: "world_ok (snd (run_jobs (unavailable_prompt e) xs w))" for xs
      by (intro run_jobs_keeps [where P = world_ok] unavailable_ok(1) [OF assms(1)] assms(3))
    have 2: "world_ok w' \<Longrightarrow> world_ok (snd (run_jobs (unavailable_automation e) xs w'))" for xs w'
      by (intro run_jobs_keeps [where P = world_ok] unavailable_ok(2) [OF assms(1)])
    show ?thesis
      using assms(4) 1 2 that
      by (auto simp: recordDueWorkspaceUnavailable_def then_do_def checked_def split: sum.splits)
  qed
  then show ?thesis using assms(2) by (simp add: alarm_inv_rearm)
qed

text \<open>A handler that returns has set the alarm again, whatever the others did meanwhile.\<close>

lemma alarm_rearms:
  assumes "alarm_steps (keeps world_ok) e" "alarm_rearm e \<le> c" "world_ok w" "fst (alarm e w) = Inr ()"
  shows "alarm_inv c s (snd (alarm e w))"
proof -
  have sv: "service_steps (keeps world_ok) e" and now: "0 \<le> alarm_now e"
    using assms(1) by (auto simp: alarm_steps_def)
  obtain i where i: "getStoredWorkspaceId w = Some i" using assms(3) by (auto simp: world_ok_def)
  note f = service_keeps [OF sv]
  note r = alarm_inv_rearm [OF _ assms(2)]
  have w1: "world_ok (snd (fetch_workspace e w))" using f(1) [OF assms(3)] .
  show ?thesis
    using assms(4) w1 f(2) [OF w1] run_due_jobs_ok [OF assms(1)]
    by (auto simp: alarm_def i case_prod_unfold Let_def then_do_def checked_def r
        recordDueWorkspaceUnavailable_inv [OF now assms(2)] split: sum.splits if_splits)
qed

subsection \<open>Reachable schedulers\<close>

lemma service_steps_mono [mono]: "R \<le> S \<Longrightarrow> service_steps R e \<longrightarrow> service_steps S e"
  by (auto simp: service_steps_def le_fun_def)

lemma job_steps_mono [mono]: "R \<le> S \<Longrightarrow> job_steps R j \<longrightarrow> job_steps S j"
  by (auto simp: job_steps_def le_fun_def)

lemma alarm_steps_mono [mono]: "R \<le> S \<Longrightarrow> alarm_steps R e \<longrightarrow> alarm_steps S e"
  unfolding alarm_steps_def using service_steps_mono [of R S e] job_steps_mono [of R S] by blast

text \<open>
  Runs of operations, each with any runs of other operations at its awaits. Readings of the clock are
  not negative and those from which the alarm is set are at most \<open>c\<close>. The handler's runs are those that
  return; \<open>failed_alarm_unarmed\<close> below shows what a failing one leaves.
\<close>

inductive cron_run :: "int \<Rightarrow> cron_world \<Rightarrow> cron_world \<Rightarrow> bool" for c where
  run_refl: "cron_run c w w"
| run_trans: "cron_run c u v \<Longrightarrow> cron_run c v w \<Longrightarrow> cron_run c u w"
| run_create_prompt:
    "service_steps (cron_run c) e \<Longrightarrow> \<forall>w. cron_run c w (after_thread e w) \<Longrightarrow> 0 \<le> create_now e \<Longrightarrow>
     create_env.rearm_now e \<le> c \<Longrightarrow> cron_run c w (snd (createScheduledPrompt e x w))"
| run_create_automation:
    "service_steps (cron_run c) e \<Longrightarrow> 0 \<le> create_now e \<Longrightarrow> create_env.rearm_now e \<le> c \<Longrightarrow>
     cron_run c w (snd (createDeterministicAutomation e y w))"
| run_update_prompt:
    "service_steps (cron_run c) u \<Longrightarrow> 0 \<le> update_now u \<Longrightarrow> update_env.rearm_now u \<le> c \<Longrightarrow>
     cron_run c w (snd (updateScheduledPrompt u p w))"
| run_update_automation:
    "service_steps (cron_run c) u \<Longrightarrow> 0 \<le> update_now u \<Longrightarrow> update_env.rearm_now u \<le> c \<Longrightarrow>
     cron_run c w (snd (updateDeterministicAutomation u a w))"
| run_delete_prompt: "now \<le> c \<Longrightarrow> cron_run c w (snd (deleteScheduledPrompt now ws i w))"
| run_delete_automation: "now \<le> c \<Longrightarrow> cron_run c w (snd (deleteDeterministicAutomation now ws i w))"
| run_disable_all: "cron_run c w (snd (disableAllScheduledPrompts now ws why w))"
| run_prompt_now:
    "service_steps (cron_run c) s \<Longrightarrow> job_steps (cron_run c) j \<Longrightarrow> now \<le> c \<Longrightarrow>
     cron_run c w (snd (runScheduledPromptNow s j now ws i w))"
| run_automation_now:
    "service_steps (cron_run c) s \<Longrightarrow> job_steps (cron_run c) j \<Longrightarrow> now \<le> c \<Longrightarrow>
     cron_run c w (snd (runDeterministicAutomationNow s j now ws i w))"
| run_report: "cron_run c w (snd (reportScheduledRunOutcome ws t oc summary w))"
| run_finish: "cron_run c w (snd (finishScheduledRun now ws i err at' w))"
| run_record_prompt: "cron_run c w (snd (recordScheduledPromptRunResult now ws i r st msg cp w))"
| run_record_automation: "cron_run c w (snd (recordDeterministicAutomationRunResult now ws i r st err w))"
| run_list_prompts: "cron_run c w (snd (listScheduledPrompts ws w))"
| run_list_automations: "cron_run c w (snd (listDeterministicAutomations ws w))"
| run_list_runs: "cron_run c w (snd (listAutomationRuns ws n w))"
| run_list_page: "cron_run c w (snd (listAutomationRunsPage ws k i n cu w))"
| run_source: "cron_run c w (snd (getDeterministicAutomationSource ws i v w))"
| run_alarm:
    "alarm_steps (cron_run c) h \<Longrightarrow> alarm_rearm h \<le> c \<Longrightarrow> fst (alarm_fires h w) = Inr () \<Longrightarrow>
     cron_run c w (snd (alarm_fires h w))"

text \<open>What the induction gives for the interleaved operations.\<close>

abbreviation both :: "int \<Rightarrow> (cron_world \<Rightarrow> cron_world \<Rightarrow> bool) \<Rightarrow> cron_world \<Rightarrow> cron_world \<Rightarrow> bool" where
  "both c R \<equiv> (\<lambda>w w'. R w w' \<and> (\<forall>s. alarm_inv c s w \<longrightarrow> alarm_inv c s w'))"

lemma both_keeps: "both c R \<le> keeps (alarm_inv c s)" "both c R \<le> keeps world_ok"
proof -
  show "both c R \<le> keeps (alarm_inv c s)" for s by auto
  from this [of False] show "both c R \<le> keeps world_ok" by simp
qed

lemma steps_conj:
  "service_steps (both c R) e \<Longrightarrow> service_steps (keeps (alarm_inv c s)) e"
  "job_steps (both c R) j \<Longrightarrow> job_steps (keeps (alarm_inv c s)) j"
  "job_steps (both c R) j \<Longrightarrow> job_steps (keeps world_ok) j"
  "alarm_steps (both c R) h \<Longrightarrow> alarm_steps (keeps world_ok) h"
  using service_steps_mono [OF both_keeps(1)] job_steps_mono [OF both_keeps(1)] job_steps_mono [OF both_keeps(2)]
    alarm_steps_mono [OF both_keeps(2)] by blast+

lemma cron_run_keeps: "cron_run c w w' \<Longrightarrow> alarm_inv c s w \<Longrightarrow> alarm_inv c s w'"
proof (induction arbitrary: s rule: cron_run.induct)
  case (run_alarm h w)
  then show ?case
    using alarm_rearms [OF steps_conj(4) [OF run_alarm(1)] run_alarm(2), of "w\<lparr>alarm_at := None\<rparr>" s]
    by (simp add: alarm_fires_def alarm_inv_def)
qed (auto intro: create_prompt_keeps create_automation_keeps update_prompt_keeps update_automation_keeps
      delete_keeps disable_all_keeps run_prompt_now_keeps run_automation_now_keeps results_keep
      record_prompt_result_keeps reads_keep dest: steps_conj)

end
