(* ===== verification/AutomationSafety.thy ===== *)
theory AutomationSafety
  imports AutomationInvariant
begin

section \<open>Properties of scheduled automations\<close>

text \<open>
  What the alarm achieves and what it can undo, how results reach the summary of an automation, paging
  through the run history, and the limits of a billing plan at run time.
\<close>

subsection \<open>An alarm that meets no failure\<close>

definition no_others :: "job_env \<Rightarrow> bool" where
  "no_others j \<longleftrightarrow>
     (\<forall>w. before_insert j w = w) \<and> (\<forall>w. before_turn j w = w) \<and> (\<forall>w. during_turn j w = w) \<and>
     (\<forall>w. before_rehome j w = w) \<and> (\<forall>w. during_second_turn j w = w) \<and> (\<forall>w. during_workflow j w = w)"

text \<open>
  The thread lookup answers, a thread can be made where one is needed, and no other operation runs.
  Nothing is assumed of the turns and workflows themselves.
\<close>

definition job_served :: "int \<Rightarrow> job_env \<Rightarrow> bool" where
  "job_served now j \<longleftrightarrow> no_others j \<and> now \<le> job_started j \<and>
     (\<exists>b. thread_found j = Inr b \<and> (b \<or> (\<exists>t. new_thread j = Inr t)))"

definition alarm_served :: "alarm_env \<Rightarrow> bool" where
  "alarm_served e \<longleftrightarrow>
     (\<forall>w. after_workspace e w = w) \<and> (\<forall>w. after_org e w = w) \<and>
     (\<exists>i. workspace_answer e = Inr (Some i) \<and> \<not> info_archived i) \<and> (is_selfhost e \<or> (\<exists>o'. org_answer e = Inr o')) \<and>
     (\<forall>i. job_served (alarm_now e) (prompt_jobs e i)) \<and> (\<forall>i. job_served (alarm_now e) (automation_jobs e i))"

lemma violation_computed:
  assumes "schedule_ok (schedule_of r)"
  shows "\<exists>v. getRuntimeBillingViolation kind i (cron_expression r) u limits now w = Inr v"
proof -
  obtain p where p: "parseCronExpression (cron_expression r) = Inr p"
    using assms by (auto simp: schedule_ok_def schedule_of_def)
  have "\<exists>v. getCronMinimumIntervalMs_string (cron_expression r) now = Inr v"
  proof -
    obtain a where "getNextCronRunAt p now = Inr a" using next_run_total [OF p] by blast
    moreover obtain b where "getNextCronRunAt p (the a) = Inr b" using next_run_total [OF p] by blast
    ultimately show ?thesis
      using p by (auto simp: getCronMinimumIntervalMs_string_def getCronMinimumIntervalMs_def split: option.split)
  qed
  then show ?thesis
    by (auto simp: getRuntimeBillingViolation_def getCronBillingIntervalViolation_def cron_result_def split: option.split)
qed

lemma next_run_computed:
  assumes "schedule_ok (schedule_of r)" "now \<le> from"
  shows "\<exists>t. next_run (cron_expression r) from = Inr t \<and> (\<forall>n. t = Some n \<longrightarrow> now < n)"
  using assms by (intro cron_times.not_due_again) (simp_all add: schedule_ok_def schedule_of_def accepted_cron_def)

text \<open>What an attempt makes of a row: one more run, and not due any more.\<close>

definition served :: "int \<Rightarrow> ('a schedule_row_scheme \<Rightarrow> 'a schedule_row_scheme) \<Rightarrow> bool" where
  "served now f \<longleftrightarrow> (\<forall>q. \<not> is_due now (f q) \<and> run_count (f q) = run_count q + 1)"

lemma update_row_twice: "update_row i f (update_row i g t) = update_row i (\<lambda>r. f (g r)) t"
  by (induction t) (auto simp: update_row_def)

lemma tables_simps [simp]:
  "prompts (insertAutomationRun i r w) = prompts w" "automations (insertAutomationRun i r w) = automations w"
  "prompts (snd (update_runs P f w)) = prompts w" "automations (snd (update_runs P f w)) = automations w"
  "prompts (settle_run j p i d w) = prompts w" "automations (settle_run j p i d w) = automations w"
  "prompts (start_turn t u i m w) = prompts w" "automations (start_turn t u i m w) = automations w"
  "automations (update_prompt i g w) = automations w" "prompts (update_automation i h w) = prompts w"
  "prompts (fail_run k a i m w) = prompts w" "automations (fail_run k a i m w) = automations w"
  by (simp_all add: insertAutomationRun_def trimAutomationRuns_def Let_def update_runs_def settle_run_def
      updateAutomationRunById_def start_turn_def update_prompt_def update_automation_def fail_run_def
      updateDeterministicRunByInstance_def)

text \<open>A dispatch changes at most the row's thread.\<close>

definition moves :: "(prompt_row \<Rightarrow> prompt_row) \<Rightarrow> bool" where
  "moves g \<longleftrightarrow> (\<forall>r. schedule_of (g r) = schedule_of r \<and> run_count (g r) = run_count r)"

definition moved :: "string \<Rightarrow> int \<Rightarrow> prompt_row \<Rightarrow> prompt_row" where
  "moved t now r = r\<lparr>thread_id := t, updated_at := now\<rparr>"

lemma prompts_move [simp]: "prompts (move_prompt i t now w) = update_row i (moved t now) (prompts w)"
  by (simp add: move_prompt_def update_prompt_def moved_def [abs_def])

lemma moves_moved: "moves (moved t now)"
  by (simp add: moves_def moved_def schedule_of_def)

lemma no_move: "\<exists>g. moves g \<and> t = update_row i g t"
  by (rule exI [of _ "\<lambda>r. r"]) (simp add: moves_def update_row_def map_idI)

lemma moves_compose: "moves f \<Longrightarrow> moves g \<Longrightarrow> moves (\<lambda>r. f (g r))"
  by (simp add: moves_def)

lemma automations_move [simp]: "automations (move_prompt i t now w) = automations w"
  by (simp add: move_prompt_def)

lemma dispatch_turn_quiet:
  assumes "no_others j"
  shows "automations (snd (dispatch_turn j p f i t w)) = automations w \<and>
    (\<exists>g. moves g \<and> prompts (snd (dispatch_turn j p f i t w)) = update_row (fst p) g (prompts w))"
  using assms moves_moved no_move
  by (auto simp: dispatch_turn_def rehome_prompt_def no_others_def Let_def split: sum.split option.split turn_answer.split)


lemma ensure_quiet:
  assumes "job_served now j"
  shows "\<exists>t. fst (ensureRunnableThread j p w) = Inr t" "automations (snd (ensureRunnableThread j p w)) = automations w"
    "\<exists>g. moves g \<and> prompts (snd (ensureRunnableThread j p w)) = update_row (fst p) g (prompts w)"
proof -
  have bi: "before_insert j w = w" using assms by (auto simp: job_served_def no_others_def)
  obtain b where b: "thread_found j = Inr b" "b \<or> (\<exists>t. new_thread j = Inr t)" using assms by (auto simp: job_served_def)
  show "\<exists>t. fst (ensureRunnableThread j p w) = Inr t" "automations (snd (ensureRunnableThread j p w)) = automations w"
    using b by (auto simp: ensureRunnableThread_def from_service_def bi)
  show "\<exists>g. moves g \<and> prompts (snd (ensureRunnableThread j p w)) = update_row (fst p) g (prompts w)"
  proof (cases b)
    case True
    then show ?thesis using b no_move by (simp add: ensureRunnableThread_def from_service_def bi)
  next
    case False
    with b obtain t where "new_thread j = Inr t" by auto
    with False b(1) show ?thesis
      by (intro exI [of _ "moved t (new_thread_now j)"]) (simp add: ensureRunnableThread_def from_service_def bi moves_moved)
  qed
qed

lemma dispatchPrompt_quiet:
  assumes "job_served now j"
  shows "\<exists>d. fst (dispatchPrompt j p f tr i w) = Inr d" "automations (snd (dispatchPrompt j p f tr i w)) = automations w"
    "\<exists>g. moves g \<and> prompts (snd (dispatchPrompt j p f tr i w)) = update_row (fst p) g (prompts w)"
proof -
  have q: "no_others j" using assms by (simp add: job_served_def)
  obtain t where t: "fst (ensureRunnableThread j p w) = Inr t" using ensure_quiet(1) [OF assms] by blast
  let ?w1 = "snd (ensureRunnableThread j p w)"
  let ?w2 = "insertAutomationRun i (new_run Scheduled_prompt (fst p) tr Started f None None (Some t) None (job_inserted j)) ?w1"
  have d: "dispatchPrompt j p f tr i w = (Inr (fst (dispatch_turn j p f i t ?w2)), snd (dispatch_turn j p f i t ?w2))"
    using t by (simp add: dispatchPrompt_def then_do_def checked_def case_prod_unfold Let_def)
  note turn = dispatch_turn_quiet [OF q, of p f i t ?w2]
  obtain g1 where g1: "moves g1" "prompts ?w1 = update_row (fst p) g1 (prompts w)"
    using ensure_quiet(3) [OF assms] by blast
  obtain g2 where g2: "moves g2" "prompts (snd (dispatch_turn j p f i t ?w2)) = update_row (fst p) g2 (prompts ?w1)"
    using turn by auto
  show "\<exists>d. fst (dispatchPrompt j p f tr i w) = Inr d" by (simp add: d)
  show "automations (snd (dispatchPrompt j p f tr i w)) = automations w" using turn ensure_quiet(2) [OF assms] by (simp add: d)
  show "\<exists>g. moves g \<and> prompts (snd (dispatchPrompt j p f tr i w)) = update_row (fst p) g (prompts w)"
    using g1(2) g2(2) moves_compose [OF g2(1) g1(1)] by (auto simp: d update_row_twice)
qed

lemma run_due_prompt_served:
  assumes "job_served (alarm_now e) (prompt_jobs e (fst p))" "schedule_ok (schedule_of (snd p))"
  shows "fst (run_due_prompt e limits p w) = Inr ()" "automations (snd (run_due_prompt e limits p w)) = automations w"
    "\<exists>f. served (alarm_now e) f \<and> prompts (snd (run_due_prompt e limits p w)) = update_row (fst p) f (prompts w)"
proof -
  let ?j = "prompt_jobs e (fst p)"
  have now: "alarm_now e \<le> job_started ?j" "alarm_now e \<le> job_started ?j + BILLING_BLOCK_RECHECK_MS"
    using assms(1) by (auto simp: job_served_def BILLING_BLOCK_RECHECK_MS_def)
  obtain v where v: "getRuntimeBillingViolation Scheduled_prompt (fst p) (cron_expression (snd p)) (created_by (snd p))
      limits (job_started ?j) w = Inr v" using violation_computed [OF assms(2)] by blast
  obtain t where t: "next_run (cron_expression (snd p)) (job_started ?j) = Inr t" "\<forall>n. t = Some n \<longrightarrow> alarm_now e < n"
    using next_run_computed [OF assms(2) now(1)] by blast
  obtain t' where t': "next_run (cron_expression (snd p)) (job_started ?j + BILLING_BLOCK_RECHECK_MS) = Inr t'"
      "\<forall>n. t' = Some n \<longrightarrow> alarm_now e < n"
    using next_run_computed [OF assms(2) now(2)] by blast
  note dq = dispatchPrompt_quiet [OF assms(1), of p "or_default (job_started ?j) (next_run_at (snd p))" Schedule "job_run ?j" w]
  obtain d where d: "fst (dispatchPrompt ?j p (or_default (job_started ?j) (next_run_at (snd p))) Schedule (job_run ?j) w) = Inr d"
    using dq(1) by blast
  obtain g where g: "moves g"
    "prompts (snd (dispatchPrompt ?j p (or_default (job_started ?j) (next_run_at (snd p))) Schedule (job_run ?j) w)) =
     update_row (fst p) g (prompts w)"
    using dq(3) by blast
  note unfold = run_due_prompt_def v t(1) t'(1) d then_do_def Let_def
  show "fst (run_due_prompt e limits p w) = Inr ()" by (simp add: unfold split: option.split)
  show "automations (snd (run_due_prompt e limits p w)) = automations w"
    by (simp add: unfold dq(2) split: option.split)
  show "\<exists>f. served (alarm_now e) f \<and> prompts (snd (run_due_prompt e limits p w)) = update_row (fst p) f (prompts w)"
  proof (cases v)
    case None
    show ?thesis
      by (simp add: unfold None update_prompt_def g(2) update_row_twice split del: if_split)
        (rule exI, rule conjI [rotated], rule refl,
          use g(1) t(2) in \<open>auto simp: served_def attempt_def is_due_def moves_def split: option.split\<close>)
  next
    case (Some m)
    show ?thesis
      by (simp add: unfold Some update_prompt_def)
        (rule exI, rule conjI [rotated], rule refl,
          use t'(2) in \<open>auto simp: served_def attempt_def is_due_def split: option.split\<close>)
  qed
qed


lemma start_due_automation_served:
  assumes "job_served now j" "\<forall>n. t = Some n \<longrightarrow> now < n"
  shows "prompts (start_due_automation j a f t w) = prompts w"
    "\<exists>g. served now g \<and> automations (start_due_automation j a f t w) = update_row (fst a) g (automations w)"
proof -
  have q: "during_workflow j w = w" for w using assms(1) by (simp add: job_served_def no_others_def)
  show "prompts (start_due_automation j a f t w) = prompts w"
    by (simp add: start_due_automation_def Let_def case_prod_unfold dispatchDeterministicAutomation_def q
        workflow_start_failed_def split: option.split sum.split)
  show "\<exists>g. served now g \<and> automations (start_due_automation j a f t w) = update_row (fst a) g (automations w)"
  proof (cases "workflows_configured j")
    case True
    show ?thesis
    proof (cases "workflow_answer j")
      case (Inl m)
      show ?thesis
        by (simp add: start_due_automation_def Let_def case_prod_unfold dispatchDeterministicAutomation_def q True Inl
            workflow_start_failed_def update_automation_def update_row_twice split del: if_split)
          (rule exI, rule conjI [rotated], rule refl,
            use assms(2) in \<open>auto simp: served_def attempt_def is_due_def split: option.split\<close>)
    next
      case (Inr u)
      show ?thesis
        by (simp add: start_due_automation_def Let_def case_prod_unfold dispatchDeterministicAutomation_def q True Inr
            update_automation_def split del: if_split)
          (rule exI, rule conjI [rotated], rule refl,
            use assms(2) in \<open>auto simp: served_def attempt_def is_due_def split: option.split\<close>)
    qed
  next
    case False
    show ?thesis
      by (simp add: start_due_automation_def Let_def False update_automation_def split del: if_split)
        (rule exI, rule conjI [rotated], rule refl,
          use assms(2) in \<open>auto simp: served_def attempt_def is_due_def split: option.split\<close>)
  qed
qed

lemma run_due_automation_served:
  assumes "job_served (alarm_now e) (automation_jobs e (fst a))" "schedule_ok (schedule_of (snd a))"
    "description_ok (description_of (snd a))"
  shows "fst (run_due_automation e limits a w) = Inr ()" "prompts (snd (run_due_automation e limits a w)) = prompts w"
    "\<exists>f. served (alarm_now e) f \<and> automations (snd (run_due_automation e limits a w)) = update_row (fst a) f (automations w)"
proof -
  let ?j = "automation_jobs e (fst a)"
  have now: "alarm_now e \<le> job_started ?j" "alarm_now e \<le> job_started ?j + BILLING_BLOCK_RECHECK_MS"
    using assms(1) by (auto simp: job_served_def BILLING_BLOCK_RECHECK_MS_def)
  obtain r where r: "toAutomation (snd a) = Inr r" using toAutomation_works [OF assms(3)] by blast
  have ok: "schedule_ok (schedule_of r)" using assms(2) toAutomation_facts(1) [OF r] by simp
  obtain v where v: "getRuntimeBillingViolation Deterministic_automation (fst a) (cron_expression r) (created_by r)
      limits (job_started ?j) w = Inr v" using violation_computed [OF ok] by blast
  obtain t where t: "next_run (cron_expression r) (job_started ?j) = Inr t" "\<forall>n. t = Some n \<longrightarrow> alarm_now e < n"
    using next_run_computed [OF ok now(1)] by blast
  obtain t' where t': "next_run (cron_expression r) (job_started ?j + BILLING_BLOCK_RECHECK_MS) = Inr t'"
      "\<forall>n. t' = Some n \<longrightarrow> alarm_now e < n"
    using next_run_computed [OF ok now(2)] by blast
  note start = start_due_automation_served [OF assms(1) t(2)]
  note unfold = run_due_automation_def r v t(1) t'(1) Let_def
  show "fst (run_due_automation e limits a w) = Inr ()" by (simp add: unfold split: option.split)
  show "prompts (snd (run_due_automation e limits a w)) = prompts w" by (simp add: unfold start(1) split: option.split)
  show "\<exists>f. served (alarm_now e) f \<and> automations (snd (run_due_automation e limits a w)) = update_row (fst a) f (automations w)"
  proof (cases v)
    case None
    show ?thesis using start(2) [of "(fst a, r)"] by (simp add: unfold None)
  next
    case (Some m)
    show ?thesis
      by (simp add: unfold Some update_automation_def)
        (rule exI, rule conjI [rotated], rule refl,
          use t'(2) in \<open>auto simp: served_def attempt_def is_due_def split: option.split\<close>)
  qed
qed

text \<open>A loop over rows with different keys, each step rewriting its own row of a table.\<close>

lemma run_jobs_rows:
  assumes "distinct (map fst xs)"
    "\<And>x w. x \<in> set xs \<Longrightarrow> fst (F x w) = Inr () \<and> U (snd (F x w)) = U w \<and>
       (\<exists>f. Q f \<and> T (snd (F x w)) = update_row (fst x) f (T w))"
  shows "fst (run_jobs F xs w) = Inr () \<and> U (snd (run_jobs F xs w)) = U w \<and>
    map fst (T (snd (run_jobs F xs w))) = map fst (T w) \<and>
    (\<forall>k. if k \<in> fst ` set xs then \<exists>f. Q f \<and> map_of (T (snd (run_jobs F xs w))) k = map_option f (map_of (T w) k)
         else map_of (T (snd (run_jobs F xs w))) k = map_of (T w) k)"
  using assms
proof (induction xs arbitrary: w)
  case (Cons x xs)
  let ?w = "snd (F x w)"
  obtain f where f: "fst (F x w) = Inr ()" "U ?w = U w" "Q f" "T ?w = update_row (fst x) f (T w)"
    using Cons.prems(2) [of x w] by auto
  have run: "run_jobs F (x # xs) w = run_jobs F xs ?w" using f(1) by (simp add: then_do_def)
  have ih: "fst (run_jobs F xs ?w) = Inr () \<and> U (snd (run_jobs F xs ?w)) = U ?w \<and>
    map fst (T (snd (run_jobs F xs ?w))) = map fst (T ?w) \<and>
    (\<forall>k. if k \<in> fst ` set xs then \<exists>f. Q f \<and> map_of (T (snd (run_jobs F xs ?w))) k = map_option f (map_of (T ?w) k)
         else map_of (T (snd (run_jobs F xs ?w))) k = map_of (T ?w) k)"
    by (rule Cons.IH) (use Cons.prems in simp_all)
  have x: "fst x \<notin> fst ` set xs" using Cons.prems(1) by auto
  show ?case
    unfolding run
  proof (intro conjI allI)
    fix k
    have "if k \<in> fst ` set xs then \<exists>f. Q f \<and> map_of (T (snd (run_jobs F xs ?w))) k = map_option f (map_of (T ?w) k)
         else map_of (T (snd (run_jobs F xs ?w))) k = map_of (T ?w) k"
      using ih by blast
    then show "if k \<in> fst ` set (x # xs)
        then \<exists>f. Q f \<and> map_of (T (snd (run_jobs F xs ?w))) k = map_option f (map_of (T w) k)
        else map_of (T (snd (run_jobs F xs ?w))) k = map_of (T w) k"
      using x f(3,4) by (cases "k = fst x") (auto split: if_splits)
  qed (use ih f(2,4) in simp_all)
qed simp


definition same_rows :: "int \<Rightarrow> (string \<times> 'a schedule_row_scheme) list \<Rightarrow> (string \<times> 'a schedule_row_scheme) list \<Rightarrow> bool" where
  "same_rows now t t' \<longleftrightarrow> map fst t' = map fst t \<and>
     (\<forall>k r. map_of t k = Some r \<longrightarrow>
        (\<exists>r'. map_of t' k = Some r' \<and>
           (if k \<in> fst ` set (due_rows now t) then \<not> is_due now r' \<and> run_count r' = run_count r + 1 else r' = r)))"

lemma due_rows_distinct: "distinct (map fst t) \<Longrightarrow> distinct (map fst (due_rows now t))"
proof -
  assume a: "distinct (map fst t)"
  let ?d = "filter (\<lambda>(i, r). is_due now r) t" and ?k = "\<lambda>(i, r). or_default 0 (next_run_at r)"
  have "mset (map fst (sort_key ?k ?d)) = mset (map fst ?d)" by simp
  then have "distinct (map fst (sort_key ?k ?d))"
    using distinct_filter_keys [OF a] by (metis mset_eq_imp_distinct_iff)
  then show ?thesis by (simp add: due_rows_def take_map [symmetric])
qed

lemma due_rows_subset: "set (due_rows now t) \<subseteq> {x \<in> set t. is_due now (snd x)}"
  by (auto simp: due_rows_def dest: in_set_takeD)

lemma run_due_jobs_served:
  assumes "alarm_served e" "world_ok w" "distinct (map fst (prompts w))" "distinct (map fst (automations w))"
  shows "fst (run_due_jobs e limits w) = Inr ()"
    "same_rows (alarm_now e) (prompts w) (prompts (snd (run_due_jobs e limits w)))"
    "same_rows (alarm_now e) (automations w) (automations (snd (run_due_jobs e limits w)))"
proof -
  let ?now = "alarm_now e"
  let ?w1 = "snd (run_jobs (run_due_prompt e limits) (due_rows ?now (prompts w)) w)"
  let ?w2 = "snd (run_jobs (run_due_automation e limits) (due_rows ?now (automations w)) ?w1)"
  have p: "schedule_ok (schedule_of (snd x))" if "x \<in> set (due_rows ?now (prompts w))" for x
    using that due_rows_subset world_ok_rows(2) [OF assms(2), of "fst x" "snd x"] by auto
  have a: "schedule_ok (schedule_of (snd x)) \<and> description_ok (description_of (snd x))"
    if "x \<in> set (due_rows ?now (automations w))" for x
    using that due_rows_subset world_ok_rows(4) [OF assms(2), of "fst x" "snd x"] by auto
  have jobs: "job_served ?now (prompt_jobs e i)" "job_served ?now (automation_jobs e i)" for i
    using assms(1) by (auto simp: alarm_served_def)
  let ?xs = "due_rows ?now (prompts w)"
  have 1: "fst (run_jobs (run_due_prompt e limits) ?xs w) = Inr () \<and> automations ?w1 = automations w \<and>
      map fst (prompts ?w1) = map fst (prompts w) \<and>
      (\<forall>k. if k \<in> fst ` set ?xs then \<exists>f. served ?now f \<and> map_of (prompts ?w1) k = map_option f (map_of (prompts w) k)
           else map_of (prompts ?w1) k = map_of (prompts w) k)"
    using run_due_prompt_served [OF jobs(1) p]
    by (intro run_jobs_rows due_rows_distinct assms(3)) blast
  let ?ys = "due_rows ?now (automations w)"
  have 2: "fst (run_jobs (run_due_automation e limits) ?ys ?w1) = Inr () \<and>
      prompts (snd (run_jobs (run_due_automation e limits) ?ys ?w1)) = prompts ?w1 \<and>
      map fst (automations (snd (run_jobs (run_due_automation e limits) ?ys ?w1))) = map fst (automations ?w1) \<and>
      (\<forall>k. if k \<in> fst ` set ?ys
           then \<exists>f. served ?now f \<and> map_of (automations (snd (run_jobs (run_due_automation e limits) ?ys ?w1))) k =
                  map_option f (map_of (automations ?w1) k)
           else map_of (automations (snd (run_jobs (run_due_automation e limits) ?ys ?w1))) k = map_of (automations ?w1) k)"
    using run_due_automation_served [OF jobs(2)] a
    by (intro run_jobs_rows due_rows_distinct assms(4)) blast
  have run: "run_due_jobs e limits w = run_jobs (run_due_automation e limits) ?ys ?w1"
    using 1 by (simp add: run_due_jobs_def then_do_def)
  show "fst (run_due_jobs e limits w) = Inr ()" using 2 by (simp add: run)
  show "same_rows ?now (prompts w) (prompts (snd (run_due_jobs e limits w)))"
    using 1 2 unfolding run same_rows_def served_def by (simp split: if_splits) (metis option.simps(9))
  show "same_rows ?now (automations w) (automations (snd (run_due_jobs e limits w)))"
    using 1 2 unfolding run same_rows_def served_def by (simp split: if_splits) (metis option.simps(9))
qed

definition due_count :: "int \<Rightarrow> (string \<times> 'a schedule_row_scheme) list \<Rightarrow> nat" where
  "due_count now t = length (filter (\<lambda>(i, r). is_due now r) t)"

lemma due_count_card:
  "distinct (map fst t) \<Longrightarrow> due_count now t = card {k. \<exists>r. map_of t k = Some r \<and> is_due now r}"
proof -
  assume d: "distinct (map fst t)"
  let ?f = "filter (\<lambda>(i, r). is_due now r) t"
  have "due_count now t = card (set (map fst ?f))"
    using distinct_card [OF distinct_filter_keys [OF d]] by (metis due_count_def length_map)
  also have "set (map fst ?f) = {k. \<exists>r. map_of t k = Some r \<and> is_due now r}"
    using d by (force dest: map_of_SomeD simp: map_of_eq_Some_iff)
  finally show ?thesis .
qed

lemma due_after:
  assumes "same_rows now t t'" "distinct (map fst t)"
  shows "due_count now t' = due_count now t - MAX_DUE_JOBS_PER_ALARM"
proof -
  let ?D = "{k. \<exists>r. map_of t k = Some r \<and> is_due now r}"
  let ?S = "fst ` set (due_rows now t)"
  have "?S \<subseteq> ?D" using due_rows_subset [of now t] assms(2) by (force simp: map_of_eq_Some_iff)
  moreover have "{k. \<exists>r. map_of t' k = Some r \<and> is_due now r} = ?D - ?S"
  proof -
    have dom: "map_of t' k = None \<longleftrightarrow> map_of t k = None" for k
      using assms(1) by (metis map_of_eq_None_iff same_rows_def set_map)
    show ?thesis
    proof (intro set_eqI iffI)
      fix k assume "k \<in> {k. \<exists>r. map_of t' k = Some r \<and> is_due now r}"
      then obtain r' where r': "map_of t' k = Some r'" "is_due now r'" by blast
      with dom [of k] obtain r where r: "map_of t k = Some r" by fastforce
      with assms(1) r' have "if k \<in> ?S then False else r' = r"
        unfolding same_rows_def by (metis option.inject)
      with r r' show "k \<in> ?D - ?S" by (simp split: if_splits)
    next
      fix k assume "k \<in> ?D - ?S"
      then obtain r where "map_of t k = Some r" "is_due now r" "k \<notin> ?S" by blast
      then show "k \<in> {k. \<exists>r. map_of t' k = Some r \<and> is_due now r}"
        using assms(1) unfolding same_rows_def by fastforce
    qed
  qed
  moreover have "card ?S = min (due_count now t) MAX_DUE_JOBS_PER_ALARM"
  proof -
    have "card ?S = length (due_rows now t)"
      using distinct_card [OF due_rows_distinct [OF assms(2)]] by simp
    then show ?thesis by (simp add: due_rows_def due_count_def min.commute)
  qed
  moreover have "distinct (map fst t')" using assms by (simp add: same_rows_def)
  moreover have "finite ?D" by (rule finite_subset [of _ "fst ` set t"]) (force dest: map_of_SomeD)+
  ultimately show ?thesis
    using due_count_card [OF assms(2)] due_count_card [of t'] by (simp add: card_Diff_subset finite_subset)
qed

lemma alarm_serves:
  assumes "alarm_served e" "world_ok w" "distinct (map fst (prompts w))" "distinct (map fst (automations w))"
    "hasDueScheduledWork (alarm_now e) w"
  shows "fst (alarm_fires e w) = Inr ()"
    "same_rows (alarm_now e) (prompts w) (prompts (snd (alarm_fires e w)))"
    "same_rows (alarm_now e) (automations w) (automations (snd (alarm_fires e w)))"
proof -
  let ?w = "w\<lparr>alarm_at := None\<rparr>"
  have ok: "world_ok ?w" using assms(2) by simp
  obtain ws where ws: "getStoredWorkspaceId ?w = Some ws" using ok by (auto simp: world_ok_def)
  obtain i where i: "workspace_answer e = Inr (Some i)" "\<not> info_archived i" using assms(1) by (auto simp: alarm_served_def)
  have id: "after_workspace e v = v" "after_org e v = v" for v using assms(1) by (auto simp: alarm_served_def)
  obtain limits where l: "getWorkspaceBillingLimits (is_selfhost e) (org_answer e) = Inr limits"
    using assms(1) by (cases "is_selfhost e")
      (auto simp: alarm_served_def getWorkspaceBillingLimits_def from_service_def)
  note run = run_due_jobs_served [OF assms(1) ok, of limits]
  have due: "hasDueScheduledWork (alarm_now e) ?w" using assms(5) by (simp add: hasDueScheduledWork_def)
  have a: "alarm_fires e w = then_do (run_due_jobs e limits ?w) (\<lambda>_ w. (Inr (), scheduleNextAlarm (alarm_rearm e) w))"
    using ws due i l by (simp add: alarm_fires_def alarm_def fetch_workspace_def fetch_limits_def getWorkspaceInfo_def
        from_service_def id)
  have r: "fst (run_due_jobs e limits ?w) = Inr ()" using run(1) assms(3,4) by simp
  have tables: "prompts (scheduleNextAlarm n v) = prompts v" "automations (scheduleNextAlarm n v) = automations v" for n v
    by (simp_all add: scheduleNextAlarm_def Let_def)
  show "fst (alarm_fires e w) = Inr ()"
    "same_rows (alarm_now e) (prompts w) (prompts (snd (alarm_fires e w)))"
    "same_rows (alarm_now e) (automations w) (automations (snd (alarm_fires e w)))"
    using run(2,3) assms(3,4) r by (simp_all add: a then_do_def tables)
qed

subsection \<open>What the handler writes last\<close>

lemma handler_writes_last:
  assumes "run_due_prompt e limits (i, p) w = (Inr (), w')"
    and "getRuntimeBillingViolation Scheduled_prompt i (cron_expression p) (created_by p) limits (job_started (prompt_jobs e i)) w = Inr None"
    and "next_run (cron_expression p) (job_started (prompt_jobs e i)) = Inr (Some t)" "t \<noteq> 0"
    and "map_of (prompts w') i = Some q"
  shows "enabled q" "next_run_at q = Some t" "last_run_id q = Some (job_run (prompt_jobs e i))"
    "\<exists>d w1. dispatchPrompt (prompt_jobs e i) (i, p) (or_default (job_started (prompt_jobs e i)) (next_run_at p)) Schedule
        (job_run (prompt_jobs e i)) w = (Inr d, w1) \<and> last_run_status q = Some (dispatch_status d)"
proof -
  let ?j = "prompt_jobs e i"
  let ?d = "dispatchPrompt ?j (i, p) (or_default (job_started ?j) (next_run_at p)) Schedule (job_run ?j) w"
  obtain d where d: "fst ?d = Inr d"
    using assms(1-3) by (cases "fst ?d") (auto simp: run_due_prompt_def Let_def then_do_def)
  have on: "\<not> no_time (Some t)" using assms(4) by (simp add: no_time_def)
  have w': "w' = update_prompt i (\<lambda>q. (attempt (job_finished ?j) (Some t) (job_started ?j) (dispatch_status d)
        (or_else (dispatch_error d) None) q)\<lparr>thread_id := dispatch_thread d, enabled := True, last_run_id := Some (job_run ?j)\<rparr>)
        (settle_run ?j i (job_run ?j) d (snd ?d))"
    using assms(1-3) d on by (simp add: run_due_prompt_def Let_def then_do_def)
  show "enabled q" "next_run_at q = Some t" "last_run_id q = Some (job_run ?j)"
    using assms(5) by (auto simp: w' update_prompt_def attempt_def)
  have "last_run_status q = Some (dispatch_status d)"
    using assms(5) by (auto simp: w' update_prompt_def attempt_def)
  moreover have "?d = (Inr d, snd ?d)" using d by (simp add: prod_eq_iff)
  ultimately show "\<exists>d w1. ?d = (Inr d, w1) \<and> last_run_status q = Some (dispatch_status d)" by blast
qed

subsection \<open>Results\<close>

lemma map_of_map_rows: "map_of (map (\<lambda>(i, r). (i, g i r)) t) k = map_option (g k) (map_of t k)"
  by (induction t) auto

lemma assert_tables [simp]:
  "prompts (snd (assertWorkspaceIdentity x w)) = prompts w" "runs (snd (assertWorkspaceIdentity x w)) = runs w"
  "automations (snd (assertWorkspaceIdentity x w)) = automations w"
  by (simp_all add: assertWorkspaceIdentity_def checked_def Let_def split: sum.split)

lemma updateAutomationRunById_row:
  assumes "map_of (runs w) i = Some r" "run_kind r = k" "run_automation r = a"
  shows "fst (updateAutomationRunById i k a st m cp now w)" "prompts (snd (updateAutomationRunById i k a st m cp now w)) = prompts w"
    "\<exists>r'. map_of (runs (snd (updateAutomationRunById i k a st m cp now w))) i = Some r' \<and> run_kind r' = k \<and>
      run_automation r' = a \<and> run_status r' = st \<and> run_message r' = m \<and> run_started_at r' = run_started_at r"
  using assms map_of_SomeD [OF assms(1)]
  by (auto simp: updateAutomationRunById_def Let_def update_runs_def map_of_map_rows list_ex_iff)

lemma updateAutomationRunById_other:
  "j \<noteq> i \<Longrightarrow> map_of (runs (snd (updateAutomationRunById i k a st m cp now w))) j = map_of (runs w) j"
  by (simp add: updateAutomationRunById_def Let_def update_runs_def map_of_map_rows)
    (cases "map_of (runs w) j", simp_all)

lemma recorded_result:
  assumes "recordScheduledPromptRunResult now ws i r st m cp w = (Inr b, w')"
    and "map_of (prompts w) (js_trim i) = Some p" "map_of (runs w) (js_trim r) = Some run"
    and "run_kind run = Scheduled_prompt" "run_automation run = js_trim i"
  shows "\<exists>q run'. b \<and> map_of (prompts w') (js_trim i) = Some q \<and> map_of (runs w') (js_trim r) = Some run' \<and>
      run_status run' = st \<and> run_message run' = text_or_null m \<and> schedule_of q = schedule_of p \<and>
      (if summarizes (js_trim r) run p \<and> \<not> (st = Success \<and> billing_summary (Some p))
       then last_run_status q = Some st \<and> last_run_error q = (if st = Error \<or> st = Busy then text_or_null m else None)
       else last_run_status q = last_run_status p \<and> last_run_error q = last_run_error p)"
proof -
  let ?i = "js_trim i" and ?r = "js_trim r"
  let ?cp = "if cp = Completion_default \<and> st = Question then Completion_null else cp"
  let ?w0 = "snd (assertWorkspaceIdentity ws w)"
  let ?u = "updateAutomationRunById ?r Scheduled_prompt ?i st (text_or_null m) ?cp now ?w0"
  obtain a where a: "fst (assertWorkspaceIdentity ws w) = Inr a"
    using assms(1) by (cases "fst (assertWorkspaceIdentity ws w)")
      (auto simp: recordScheduledPromptRunResult_def then_do_def)
  have run0: "map_of (runs ?w0) ?r = Some run" using assms(3) by simp
  note u = updateAutomationRunById_row [OF run0 assms(4,5), of st "text_or_null m" ?cp now]
  obtain run' where run': "map_of (runs (snd ?u)) ?r = Some run'" "run_kind run' = Scheduled_prompt" "run_automation run' = ?i"
    "run_status run' = st" "run_message run' = text_or_null m" "run_started_at run' = run_started_at run" using u(3) by blast
  have row: "getAutomationRunRow Scheduled_prompt ?i ?r (snd ?u) = Some run'"
    by (simp add: getAutomationRunRow_def run'(1-3))
  have p: "map_of (prompts (snd ?u)) ?i = Some p" using assms(2) by (simp add: u(2))
  have s: "summarizes ?r run' x = summarizes ?r run x" for x by (simp add: summarizes_def run'(6))
  have ne: "?i \<noteq> []" "?r \<noteq> []" "st \<noteq> Started"
    using assms(1) a by (auto simp: recordScheduledPromptRunResult_def then_do_def Let_def split: if_splits)
  have eq: "(Inr b :: (cron_failure, bool) result, w') = (if st = Success \<and> billing_summary (Some p)
      then (Inr True, update_prompt ?i (\<lambda>p. if summarizes ?r run' p then p\<lparr>updated_at := now\<rparr> else p) (snd ?u))
      else (Inr True, update_prompt ?i (\<lambda>p. if summarizes ?r run' p
             then p\<lparr>updated_at := now, last_run_status := Some st,
                    last_run_error := (if st = Error \<or> st = Busy then text_or_null m else None)\<rparr> else p) (snd ?u)))"
    using assms(1) unfolding recordScheduledPromptRunResult_def then_do_def Let_def case_prod_unfold a checked_simps
    by (simp only: if_False ne u(1) not_True_eq_False row option.case p)
  have runs: "runs (update_prompt x f v) = runs v" for x f v by (simp add: update_prompt_def)
  show ?thesis
  proof (cases "st = Success \<and> billing_summary (Some p)")
    case True
    with eq have "b" "w' = update_prompt ?i (\<lambda>p. if summarizes ?r run' p then p\<lparr>updated_at := now\<rparr> else p) (snd ?u)"
      by auto
    with True p run' s show ?thesis by (simp add: update_prompt_def schedule_of_def)
  next
    case False
    with eq have "b" "w' = update_prompt ?i (\<lambda>p. if summarizes ?r run' p
             then p\<lparr>updated_at := now, last_run_status := Some st,
                    last_run_error := (if st = Error \<or> st = Busy then text_or_null m else None)\<rparr> else p) (snd ?u)"
      by (simp_all only: if_False prod.inject sum.inject)
    with False p run' s show ?thesis by (simp add: update_prompt_def schedule_of_def)
  qed
qed

subsection \<open>Paging through the history\<close>

text \<open>A client that follows the cursors, for at most \<open>fuel\<close> pages.\<close>

primrec all_pages :: "nat \<Rightarrow> int \<Rightarrow> run_cursor option \<Rightarrow> (string \<times> run_row) list \<Rightarrow> (string \<times> run_row) list list" where
  "all_pages 0 n cursor history = []"
| "all_pages (Suc fuel) n cursor history =
     (let (page, more) = runs_page n cursor history
      in page # (case more of None \<Rightarrow> [] | Some c \<Rightarrow> all_pages fuel n (Some c) history))"

definition run_key :: "string \<times> run_row \<Rightarrow> int \<times> string" where
  "run_key x = (run_started_at (snd x), fst x)"

lemma newest_first_key: "newest_first h = rev (sort_key run_key h)"
  by (simp add: newest_first_def run_key_def [abs_def] case_prod_unfold)

lemma newest_first_filter: "newest_first (filter P h) = filter P (newest_first h)"
  by (simp add: newest_first_key filter_sort [symmetric] rev_filter)

lemma newest_first_sorted:
  assumes "distinct (map fst h)"
  shows "sorted_wrt (\<lambda>x y. run_key y < run_key x) (newest_first h)"
proof -
  let ?s = "sort_key run_key h"
  have "distinct (map run_key h)"
    using assms by (auto simp: distinct_map inj_on_def run_key_def)
  then have "distinct (map run_key ?s)"
    by (metis mset_map mset_sort mset_eq_imp_distinct_iff)
  moreover have "sorted (map run_key ?s)" by simp
  ultimately have "sorted_wrt (<) (map run_key ?s)" by (simp add: strict_sorted_iff)
  then show ?thesis by (simp add: newest_first_key sorted_wrt_rev sorted_wrt_map)
qed

text \<open>The rows after a cursor.\<close>

definition rows_after :: "run_cursor option \<Rightarrow> (string \<times> run_row) list \<Rightarrow> (string \<times> run_row) list" where
  "rows_after cursor h =
     filter (\<lambda>x. case cursor of None \<Rightarrow> True | Some c \<Rightarrow> run_key x < c) (newest_first h)"

lemma runs_page_after:
  assumes "1 \<le> n"
  shows "runs_page n cursor h =
     (let rows = rows_after cursor h
      in if int (length rows) > n then (take (nat n) rows, Some (run_key (rows ! (nat n - 1)))) else (rows, None))"
proof -
  let ?later = "\<lambda>(i, r). case cursor of None \<Rightarrow> True | Some (t, c) \<Rightarrow> run_started_at r < t \<or> (run_started_at r = t \<and> i < c)"
  have "?later = (\<lambda>x. case cursor of None \<Rightarrow> True | Some c \<Rightarrow> run_key x < c)"
    by (rule ext) (auto simp: run_key_def less_prod_def' split: option.split)
  then have rows: "newest_first (filter ?later h) = rows_after cursor h"
    by (simp only: newest_first_filter rows_after_def)
  let ?rows = "rows_after cursor h"
  have len: "int (length (take (nat (n + 1)) ?rows)) > n \<longleftrightarrow> int (length ?rows) > n"
    using assms by auto
  have last: "last (take (nat n) ?rows) = ?rows ! (nat n - 1)" "take (nat n) ?rows \<noteq> []" if "int (length ?rows) > n"
  proof -
    show ne: "take (nat n) ?rows \<noteq> []" using that assms by auto
    then show "last (take (nat n) ?rows) = ?rows ! (nat n - 1)" using that assms by (simp add: last_conv_nth min_def)
  qed
  have "take (nat n) (take (nat (n + 1)) ?rows) = take (nat n) ?rows" using assms by (simp add: min_def)
  moreover have "take (nat (n + 1)) ?rows = ?rows" if "\<not> int (length ?rows) > n" using that by simp
  moreover have "(case x of (i, r) \<Rightarrow> Some (run_started_at r, i)) = Some (run_key x)" for x
    by (cases x) (simp add: run_key_def)
  ultimately show ?thesis
    unfolding runs_page_def Let_def rows using last len by simp
qed

lemma rows_after_nth:
  assumes "distinct (map fst h)" "m < length (newest_first h)"
  shows "rows_after (Some (run_key (newest_first h ! m))) h = drop (Suc m) (newest_first h)"
proof -
  let ?s = "newest_first h"
  note sorted = newest_first_sorted [OF assms(1)]
  have s: "?s = take (Suc m) ?s @ drop (Suc m) ?s" by simp
  have "\<not> run_key x < run_key (?s ! m)" if x: "x \<in> set (take (Suc m) ?s)" for x
  proof -
    obtain k where k: "k < length (take (Suc m) ?s)" "take (Suc m) ?s ! k = x"
      using x unfolding in_set_conv_nth by blast
    then have k: "k \<le> m" "x = ?s ! k" by simp_all
    then show ?thesis
      using sorted assms(2) by (cases "k = m") (auto simp: sorted_wrt_iff_nth_less not_less less_imp_le)
  qed
  moreover have "run_key x < run_key (?s ! m)" if x: "x \<in> set (drop (Suc m) ?s)" for x
  proof -
    obtain k where "k < length (drop (Suc m) ?s)" "drop (Suc m) ?s ! k = x"
      using x unfolding in_set_conv_nth by blast
    then have k: "Suc m + k < length ?s" "x = ?s ! (Suc m + k)" using assms(2) by simp_all
    then show ?thesis using sorted by (auto simp: sorted_wrt_iff_nth_less)
  qed
  ultimately have "filter (\<lambda>x. run_key x < run_key (?s ! m)) (take (Suc m) ?s @ drop (Suc m) ?s) = drop (Suc m) ?s"
    by (simp only: filter_append) (simp add: filter_empty_conv filter_id_conv)
  then show ?thesis by (simp add: rows_after_def)
qed

lemma pages_from:
  assumes "distinct (map fst h)" "1 \<le> n" "rows_after cursor h = drop m (newest_first h)" "length (newest_first h) - m < fuel"
  shows "concat (all_pages fuel n cursor h) = drop m (newest_first h) \<and> (\<forall>p \<in> set (all_pages fuel n cursor h). int (length p) \<le> n)"
  using assms(3,4)
proof (induction fuel arbitrary: cursor m)
  case (Suc fuel)
  let ?s = "newest_first h"
  note page = runs_page_after [OF assms(2), of cursor h]
  show ?case
  proof (cases "int (length (drop m ?s)) > n")
    case False
    with Suc.prems show ?thesis by (simp add: page Let_def)
  next
    case True
    let ?m = "m + (nat n - 1)"
    have m: "?m < length ?s" "drop m ?s ! (nat n - 1) = ?s ! ?m" using True assms(2) by auto
    have next': "rows_after (Some (run_key (?s ! ?m))) h = drop (m + nat n) ?s"
      using rows_after_nth [OF assms(1) m(1)] assms(2) by (simp add: Suc_diff_le)
    have "length ?s - (m + nat n) < fuel" using Suc.prems(2) True assms(2) by simp
    note ih = Suc.IH [OF next' this]
    have "runs_page n cursor h = (take (nat n) (drop m ?s), Some (run_key (?s ! ?m)))"
      unfolding page Suc.prems(1) Let_def m(2) using True by (simp only: if_True)
    then have pages: "all_pages (Suc fuel) n cursor h = take (nat n) (drop m ?s) # all_pages fuel n (Some (run_key (?s ! ?m))) h"
      by (simp only: all_pages.simps Let_def prod.case option.case)
    have "drop m ?s = take (nat n) (drop m ?s) @ drop (m + nat n) ?s"
      by (metis add.commute append_take_drop_id drop_drop)
    then show ?thesis unfolding pages using ih assms(2) by (metis (no_types, lifting) concat.simps(2) length_take
          min.cobounded2 nat_int_comparison(3) set_ConsD int_nat_eq order.trans zero_le_one)
  qed
qed simp

subsection \<open>Limits at run time\<close>

lemma filter_take:
  assumes "\<And>k. k < length xs \<Longrightarrow> P (xs ! k) \<longleftrightarrow> k < m"
  shows "filter P xs = take m xs"
proof -
  have "filter P (take m xs) = take m xs"
    using assms by (auto simp: filter_id_conv in_set_conv_nth)
  moreover have "filter P (drop m xs) = []"
    using assms by (auto simp: filter_empty_conv in_set_conv_nth)
  ultimately show ?thesis by (metis append_Nil2 append_take_drop_id filter_append)
qed

lemma find_index_nth:
  "distinct (map f xs) \<Longrightarrow> k < length xs \<Longrightarrow> find_index (\<lambda>x. f x = f (xs ! k)) xs = Some k"
proof (induction xs arbitrary: k)
  case (Cons x xs)
  show ?case
  proof (cases k)
    case (Suc k')
    with Cons.prems have "xs ! k' \<in> set xs" "f x \<notin> f ` set xs" by simp_all
    then have "f x \<noteq> f (xs ! k')" by (metis image_eqI)
    with Cons Suc show ?thesis by simp
  qed simp
qed simp

definition limit_key :: "(int \<times> string) \<times> run_kind \<Rightarrow> run_kind \<times> string" where
  "limit_key x = (snd x, snd (fst x))"

lemma allowed_rows:
  assumes "distinct (map limit_key rows)" "0 \<le> n"
  shows "filter (\<lambda>((c, i), k). count_violation k i rows n scope = None) rows = take (nat n) rows"
proof (rule filter_take)
  fix ix
  assume ix: "ix < length rows"
  have "(\<lambda>((c, i), k). k = snd (rows ! ix) \<and> i = snd (fst (rows ! ix))) = (\<lambda>x. limit_key x = limit_key (rows ! ix))"
    by (auto simp: limit_key_def fun_eq_iff)
  then have "find_index (\<lambda>((c, i), k). k = snd (rows ! ix) \<and> i = snd (fst (rows ! ix))) rows = Some ix"
    using find_index_nth [OF assms(1) ix] by simp
  then show "(case rows ! ix of (x, xa) \<Rightarrow> (case x of (c, i) \<Rightarrow> \<lambda>k. count_violation k i rows n scope = None) xa) =
      (ix < nat n)"
    using ix assms(2) by (auto simp: count_violation_def case_prod_unfold)
qed

lemma enabled_rows_keys:
  "map limit_key (enabled_rows k who t) = map (Pair k) (map fst (filter (\<lambda>(i, r). enabled r \<and>
     (case who of None \<Rightarrow> True | Some u \<Rightarrow> created_by r = u)) t))"
  by (simp add: enabled_rows_def limit_key_def comp_def case_prod_unfold)

lemma enabled_rows_distinct:
  assumes "distinct (map fst t)"
  shows "distinct (map limit_key (enabled_rows k who t))"
  unfolding enabled_rows_keys using distinct_filter_keys [OF assms] by (simp add: distinct_map inj_on_def)

lemma enabled_rows_kind: "x \<in> set (enabled_rows k who t) \<Longrightarrow> fst (limit_key x) = k"
  by (auto simp: enabled_rows_def limit_key_def)

lemma limit_rows_distinct:
  assumes "distinct (map fst (prompts w))" "distinct (map fst (automations w))"
  shows "distinct (map limit_key (getEnabledAutomationLimitRows who w))"
proof -
  let ?p = "enabled_rows Scheduled_prompt who (prompts w)" and ?a = "enabled_rows Deterministic_automation who (automations w)"
  have "distinct (map limit_key (?p @ ?a))"
    using enabled_rows_distinct [OF assms(1)] enabled_rows_distinct [OF assms(2)]
    by (auto dest!: enabled_rows_kind)
  moreover have "mset (map limit_key (getEnabledAutomationLimitRows who w)) = mset (map limit_key (?p @ ?a))"
    by (simp add: getEnabledAutomationLimitRows_def)
  ultimately show ?thesis by (metis mset_eq_imp_distinct_iff)
qed

lemma violation_of_plan:
  assumes "maxCronJobsPerUser limits = Some n \<and> who = Some u \<or>
      maxCronJobsPerUser limits = None \<and> maxCronJobsPerWorkspace limits = Some n \<and> who = None"
    "0 \<le> n" "distinct (map fst (prompts w))" "distinct (map fst (automations w))"
  shows "filter (\<lambda>((c, i), k). getAutomationCountViolation k i u limits w = None) (getEnabledAutomationLimitRows who w) =
    take (nat n) (getEnabledAutomationLimitRows who w)"
  using assms(1) allowed_rows [OF limit_rows_distinct [OF assms(3,4)] assms(2)]
  by (auto simp: getAutomationCountViolation_def)

subsection \<open>A failing lookup\<close>

lemma failed_lookup_stops:
  assumes "getStoredWorkspaceId w = Some ws" "after_workspace e = (\<lambda>w. w)" "after_org e = (\<lambda>w. w)"
    "getWorkspaceInfo (workspace_answer e) = Inr info"
    "getWorkspaceBillingLimits (is_selfhost e) (org_answer e) = Inr limits"
    "due_rows (alarm_now e) (prompts w) = (i, p) # ps"
    "getRuntimeBillingViolation Scheduled_prompt i (cron_expression p) (created_by p) limits
       (job_started (prompt_jobs e i)) (w\<lparr>alarm_at := None\<rparr>) = Inr None"
    "before_insert (prompt_jobs e i) = (\<lambda>w. w)" "thread_found (prompt_jobs e i) = Inl m"
  shows "alarm_fires e w = (Inl (Failure m), w\<lparr>alarm_at := None\<rparr>)"
proof -
  have "(i, p) \<in> {x \<in> set (prompts w). is_due (alarm_now e) (snd x)}"
    using due_rows_subset [of "alarm_now e" "prompts w"] assms(6) by auto
  then have "hasDueScheduledWork (alarm_now e) (w\<lparr>alarm_at := None\<rparr>)"
    by (auto simp: hasDueScheduledWork_def list_ex_iff)
  with assms show ?thesis
    by (simp add: alarm_fires_def alarm_def fetch_workspace_def fetch_limits_def run_due_jobs_def run_due_prompt_def
        dispatchPrompt_def ensureRunnableThread_def from_service_def Let_def)
qed

subsection \<open>A sample scheduler\<close>

definition new_scheduler :: "string \<Rightarrow> cron_world" where
  "new_scheduler ws = \<lparr>workspace_key = Some ws, prompts = [], automations = [], versions = [], runs = [], alarm_at = None,
     turn_requests = [], workflow_requests = []\<rparr>"

definition sample_prompt :: prompt_row where
  "sample_prompt =
     \<lparr>name = ''Report'', cron_expression = ''30 9 * * 1'', enabled = True, created_by = ''u1'', created_at = 1, updated_at = 1,
      next_run_at = Some 1760347800000, last_run_at = None, last_run_status = None, last_run_error = None, run_count = 0,
      prompt = ''Write the report'', thread_id = ''t1'', scheduled_by_thread_id = None, last_run_id = None\<rparr>"

definition sample_world :: cron_world where
  "sample_world = \<lparr>workspace_key = Some ''ws1'', prompts = [(''p1'', sample_prompt)], automations = [], versions = [], runs = [],
     alarm_at = Some 1760347800000, turn_requests = [], workflow_requests = []\<rparr>"

definition sample_services :: service_env where
  "sample_services = \<lparr>is_selfhost = False,
     workspace_answer = Inr (Some \<lparr>info_workspace = ''ws1'', info_org = ''org1'', info_archived = False\<rparr>),
     after_workspace = (\<lambda>w. w), org_answer = Inr (Some ''pro'', Some ''active''), after_org = (\<lambda>w. w)\<rparr>"

definition sample_limits :: BillingPlanLimits where
  "sample_limits = BILLING_PLAN_LIMITS Pro"

definition sample_job :: "bool answer \<Rightarrow> others \<Rightarrow> job_env" where
  "sample_job found meanwhile = \<lparr>job_started = 1760347800500, job_inserted = 1760347800500, job_finished = 1760347801000,
     job_run = ''r1'', job_instance = ''i1'', thread_found = found, new_thread = Inr ''t2'', new_thread_now = 1760347800500,
     before_insert = (\<lambda>w. w), direct_threads = True, org_owner = Inr None, before_turn = (\<lambda>w. w),
     first_turn = Inr (Some Turn_accepted), during_turn = meanwhile, old_title = Inr None, rehomed_thread = Inr ''t3'',
     rehomed_now = 1760347800500, before_rehome = (\<lambda>w. w), second_turn = Inr None, during_second_turn = (\<lambda>w. w),
     workflows_configured = True, workflow_answer = Inr (), triggered_now = 1760347800600, during_workflow = (\<lambda>w. w)\<rparr>"

definition sample_alarm :: "bool answer \<Rightarrow> others \<Rightarrow> alarm_env" where
  "sample_alarm found meanwhile = service_env.extend sample_services
     \<lparr>alarm_now = 1760347800100, prompt_jobs = (\<lambda>_. sample_job found meanwhile),
      automation_jobs = (\<lambda>_. sample_job found meanwhile), alarm_rearm = 1760347801000\<rparr>"

lemmas sample_alarm_defs = sample_alarm_def service_env.extend_def sample_services_def

text \<open>While the turn starts, its run fails and the owner switches the schedule off.\<close>

definition sample_edit :: others where
  "sample_edit w =
     snd (updateScheduledPrompt (service_env.extend sample_services
            \<lparr>limits_now = 1760347800800, update_now = 1760347800800, loader_error = None, rearm_now = 1760347800800\<rparr>)
          (prompt_update.make ''ws1'' ''p1'' None None None (Some False))
          (snd (finishScheduledRun 1760347800700 ''ws1'' ''r1'' (Some ''The turn failed'') None w)))"

lemma sample_next: "next_run ''30 9 * * 1'' 1760347800500 = Inr (Some 1760952600000)"
  by code_simp

lemma sample_interval: "getCronMinimumIntervalMs_string ''30 9 * * 1'' 1760347800500 = Inr (Some 604800000)"
  by code_simp

lemma sample_interval_ok: "getCronBillingIntervalViolation ''30 9 * * 1'' sample_limits Runtime_style 1760347800500 = Inr None"
  by (simp add: getCronBillingIntervalViolation_def sample_interval cron_result_def sample_limits_def PLAN_MINUTE_MS_def)

lemma sample_counts: "maxCronJobsPerUser sample_limits = None" "maxCronJobsPerWorkspace sample_limits = Some 50"
  by (simp_all add: sample_limits_def)

lemma sample_violation:
  "getRuntimeBillingViolation Scheduled_prompt ''p1'' ''30 9 * * 1'' ''u1'' sample_limits 1760347800500 sample_world = Inr None"
  by (simp add: getRuntimeBillingViolation_def sample_interval_ok sample_counts
      getAutomationCountViolation_def count_violation_def getEnabledAutomationLimitRows_def enabled_rows_def sample_world_def)

lemma sample_jobs [simp]: "prompt_jobs (sample_alarm found meanwhile) i = sample_job found meanwhile"
  by (simp add: sample_alarm_defs)

lemma sample_times [simp]: "job_started (sample_job found meanwhile) = 1760347800500" "job_run (sample_job found meanwhile) = ''r1''"
  by (simp_all add: sample_job_def)

lemma sample_dispatch:
  "dispatchPrompt (sample_job (Inr True) meanwhile) (''p1'', sample_prompt) 1760347800000 Schedule ''r1'' sample_world =
   (Inr \<lparr>dispatch_status = Success, dispatch_error = None, dispatch_thread = ''t1'', accepted = True\<rparr>,
    meanwhile (start_turn ''t1'' ''u1'' ''r1'' (buildScheduledMessage sample_prompt 1760347800000)
      (sample_world\<lparr>runs := [(''r1'', new_run Scheduled_prompt ''p1'' Schedule Started 1760347800000 None None (Some ''t1'') None 1760347800500)]\<rparr>)))"
proof -
  have t: "trimAutomationRuns Scheduled_prompt ''p1'' (sample_world\<lparr>runs := [(''r1'', r)]\<rparr>) = sample_world\<lparr>runs := [(''r1'', r)]\<rparr>"
    if "run_kind r = Scheduled_prompt" "run_automation r = ''p1''" for r
    using that by (simp add: trimAutomationRuns_def runs_of_def newest_first_def AUTOMATION_RUN_RETENTION_def)
  show ?thesis
    by (simp add: dispatchPrompt_def ensureRunnableThread_def from_service_def sample_job_def dispatch_turn_def scheduledRunActor_def
        js_trim_def is_js_space_def insertAutomationRun_def sample_prompt_def Let_def)
      (simp add: sample_world_def trimAutomationRuns_def runs_of_def newest_first_def AUTOMATION_RUN_RETENTION_def new_run_def)
qed


lemma sample_edit:
  "\<exists>q r. map_of (prompts (sample_edit (start_turn ''t1'' ''u1'' ''r1'' m
      (sample_world\<lparr>runs := [(''r1'', new_run Scheduled_prompt ''p1'' Schedule Started 1760347800000 None None (Some ''t1'') None 1760347800500)]\<rparr>)))) ''p1'' = Some q \<and>
    \<not> enabled q \<and> next_run_at q = None \<and>
   map_of (runs (sample_edit (start_turn ''t1'' ''u1'' ''r1'' m
      (sample_world\<lparr>runs := [(''r1'', new_run Scheduled_prompt ''p1'' Schedule Started 1760347800000 None None (Some ''t1'') None 1760347800500)]\<rparr>)))) ''r1'' = Some r \<and>
    run_status r = Error \<and> run_message r = Some ''The turn failed''"
  by (simp add: sample_edit_def service_env.extend_def sample_services_def updateScheduledPrompt_def prompt_update.make_def
      assertWorkspaceIdentity_def normalizeWorkspaceId_def js_trim_def is_js_space_def checked_def sample_world_def start_turn_def
      finishScheduledRun_def recordScheduledPromptRunResult_def updateAutomationRunById_def update_runs_def new_run_def
      text_or_null_def getAutomationRunRow_def sample_prompt_def then_do_def fetch_workspace_def getWorkspaceInfo_def from_service_def
      parse_optional_def within_limits_def updated_next_run_def update_prompt_def update_row_def scheduleNextAlarm_def Let_def
      summarizes_def billing_summary_def)


subsection \<open>Properties\<close>

text \<open>
  C3: Once a scheduler knows its workspace, after every sequence of completed operations and alarms, with
  any such operations interleaved at their awaits, every next run of an enabled automation is a time after
  the epoch and an alarm is set no later than it, or one second after the last reading of the clock.
\<close>

theorem alarm_follows_schedule:
  assumes "js_trim ws \<noteq> []" "cron_run c (new_scheduler ws) w" "t \<in> set (all_next_runs w)"
  shows "0 < t \<and> (\<exists>a. alarm_at w = Some a \<and> a \<le> max t (c + 1000))"
proof -
  have "alarm_inv c True (new_scheduler ws)"
    using assms(1) by (simp add: alarm_inv_def world_ok_iff armed_def all_next_runs_def next_runs_def List.map_filter_def
        new_scheduler_def getStoredWorkspaceId_def Let_def)
  then have "alarm_inv c True w" by (rule cron_run_keeps [OF assms(2)])
  then show ?thesis using next_runs_positive [OF _ assms(3)] assms(3) by (auto simp: alarm_inv_def armed_def)
qed

definition sample_create :: create_env where
  "sample_create = service_env.extend sample_services
     \<lparr>create_env.limits_now = 1760347700000, create_now = 1760347700000, thread_answer = Inr ''t1'', after_thread = (\<lambda>w. w),
      create_env.loader_error = None, new_id = ''p1'', create_env.rearm_now = 1760347700500\<rparr>"

definition sample_input :: prompt_input where
  "sample_input = prompt_input.make ''ws1'' ''Report'' ''Write the report'' '' 30 9 * *  1'' (Some ''u1'') None None"

lemma sample_created:
  "let w = snd (createScheduledPrompt sample_create sample_input (new_scheduler ''ws1''))
   in all_next_runs w = [1760347800000] \<and> alarm_at w = Some 1760347800000"
  by code_simp

lemma alarm_follows_schedule_witness:
  "\<exists>w t. cron_run 1760347700500 (new_scheduler ''ws1'') w \<and> all_next_runs w = [t] \<and> alarm_at w = Some t \<and> 0 < t \<and>
     (\<exists>a. alarm_at w = Some a \<and> a \<le> max t (1760347700500 + 1000))"
proof -
  let ?w = "snd (createScheduledPrompt sample_create sample_input (new_scheduler ''ws1''))"
  have run: "cron_run 1760347700500 (new_scheduler ''ws1'') ?w"
    by (rule run_create_prompt)
      (simp_all add: service_steps_def sample_create_def service_env.extend_def sample_services_def run_refl)
  have "js_trim ''ws1'' \<noteq> []" by (simp add: js_trim_def is_js_space_def)
  from alarm_follows_schedule [OF this run, of 1760347800000] run sample_created [unfolded Let_def] show ?thesis
    by (intro exI [of _ ?w] exI [of _ 1760347800000]) simp
qed

text \<open>
  The handler writes last: after a prompt's dispatch its row is enabled, with the next run of the
  expression read before the dispatch, and its summary says what the dispatch returned, whatever others
  wrote to the row meanwhile. An owner's edit or switching off, and a result that arrives during the
  dispatch, are overwritten.
\<close>

theorem handler_overwrites_edits:
  assumes "run_due_prompt e limits (i, p) w = (Inr (), w')"
    and "getRuntimeBillingViolation Scheduled_prompt i (cron_expression p) (created_by p) limits (job_started (prompt_jobs e i)) w = Inr None"
    and "next_run (cron_expression p) (job_started (prompt_jobs e i)) = Inr (Some t)" "t \<noteq> 0"
    and "map_of (prompts w') i = Some q"
  shows "enabled q \<and> next_run_at q = Some t \<and> last_run_id q = Some (job_run (prompt_jobs e i)) \<and>
    (\<exists>d w1. dispatchPrompt (prompt_jobs e i) (i, p) (or_default (job_started (prompt_jobs e i)) (next_run_at p)) Schedule
        (job_run (prompt_jobs e i)) w = (Inr d, w1) \<and> last_run_status q = Some (dispatch_status d))"
  using handler_writes_last [OF assms] by blast

text \<open>The sample: the run failed and the owner switched the prompt off, and neither shows afterwards.\<close>

lemma handler_overwrites_edits_witness:
  "\<exists>w' q q1 w1. run_due_prompt (sample_alarm (Inr True) sample_edit) sample_limits (''p1'', sample_prompt) sample_world = (Inr (), w') \<and>
     w1 = snd (dispatchPrompt (sample_job (Inr True) sample_edit) (''p1'', sample_prompt) 1760347800000 Schedule ''r1'' sample_world) \<and>
     map_of (prompts w1) ''p1'' = Some q1 \<and> \<not> enabled q1 \<and> map_option run_status (map_of (runs w1) ''r1'') = Some Error \<and>
     map_of (prompts w') ''p1'' = Some q \<and> enabled q \<and> next_run_at q = Some 1760952600000 \<and> last_run_status q = Some Success"
proof -
  let ?e = "sample_alarm (Inr True) sample_edit"
  let ?j = "sample_job (Inr True) sample_edit"
  let ?d = "dispatchPrompt ?j (''p1'', sample_prompt) 1760347800000 Schedule ''r1'' sample_world"
  have p: "cron_expression sample_prompt = ''30 9 * * 1''" "created_by sample_prompt = ''u1''" "next_run_at sample_prompt = Some 1760347800000"
    by (simp_all add: sample_prompt_def)
  have v: "getRuntimeBillingViolation Scheduled_prompt ''p1'' (cron_expression sample_prompt) (created_by sample_prompt) sample_limits
      (job_started (prompt_jobs ?e ''p1'')) sample_world = Inr None"
    by (simp add: p sample_violation)
  have n: "next_run (cron_expression sample_prompt) (job_started (prompt_jobs ?e ''p1'')) = Inr (Some 1760952600000)"
    by (simp add: p sample_next)
  obtain q1 where q1: "map_of (prompts (snd ?d)) ''p1'' = Some q1" "\<not> enabled q1" "map_option run_status (map_of (runs (snd ?d)) ''r1'') = Some Error"
    using sample_edit unfolding sample_dispatch snd_conv by fastforce
  have d: "fst ?d = Inr \<lparr>dispatch_status = Success, dispatch_error = None, dispatch_thread = ''t1'', accepted = True\<rparr>"
    by (simp add: sample_dispatch)
  obtain w' where w': "run_due_prompt ?e sample_limits (''p1'', sample_prompt) sample_world = (Inr (), w')"
      "map_of (prompts w') ''p1'' \<noteq> None"
    using v n d q1(1) by (simp add: run_due_prompt_def Let_def p then_do_def settle_run_def update_prompt_def no_time_def)
  then obtain q where q: "map_of (prompts w') ''p1'' = Some q" by blast
  note r = handler_overwrites_edits [OF w'(1) v n _ q]
  have "last_run_status q = Some Success" using r by (simp add: sample_dispatch p(3))
  with r w'(1) q1 q show ?thesis by auto
qed


text \<open>
  The run a prompt's summary is about: the one it names or, in a row from before runs had ids, the one that
  started when the prompt last ran. The owner is told of a schedule that billing blocked until the next run.
\<close>

definition latest_run :: "prompt_row \<Rightarrow> string \<Rightarrow> run_row \<Rightarrow> bool" where
  "latest_run p i r =
     (case last_run_id p of Some k \<Rightarrow> k = i | None \<Rightarrow> (case last_run_at p of None \<Rightarrow> False | Some t \<Rightarrow> t = run_started_at r))"

definition says_blocked :: "prompt_row \<Rightarrow> bool" where
  "says_blocked p \<longleftrightarrow> last_run_status p = Some Error \<and>
     (\<exists>m. last_run_error p = Some (SCHEDULE_BLOCKED_BY_BILLING_PREFIX @ m))"

lemma says_blocked_code: "says_blocked p = billing_summary (Some p)"
proof -
  have "take (length x) m = x \<longleftrightarrow> (\<exists>t. m = x @ t)" for x m :: string
    by (metis append_eq_conv_conj append_take_drop_id)
  then show ?thesis
    by (auto simp: says_blocked_def billing_summary_def isScheduleBlockedByBillingMessage_def split: option.split)
qed

lemma latest_run_code: "latest_run p i r = summarizes i r p"
  by (auto simp: latest_run_def summarizes_def split: option.split)

text \<open>
  C23: A result that is recorded for a run in the history changes the run, and the prompt's summary exactly
  when that run is the prompt's latest one, with one exception: a success does not replace a summary saying
  that billing blocked the schedule. A late result of an earlier run never changes the summary, and no
  result changes the schedule.
\<close>

theorem result_reaches_summary:
  assumes "recordScheduledPromptRunResult now ws i r st m cp w = (Inr b, w')"
    and "map_of (prompts w) (js_trim i) = Some p" "map_of (runs w) (js_trim r) = Some run"
    and "run_kind run = Scheduled_prompt" "run_automation run = js_trim i"
  shows "\<exists>q run'. b \<and> map_of (prompts w') (js_trim i) = Some q \<and> map_of (runs w') (js_trim r) = Some run' \<and>
      run_status run' = st \<and> run_message run' = text_or_null m \<and> schedule_of q = schedule_of p \<and>
      (if latest_run p (js_trim r) run \<and> \<not> (st = Success \<and> says_blocked p)
       then last_run_status q = Some st \<and> last_run_error q = (if st = Error \<or> st = Busy then text_or_null m else None)
       else last_run_status q = last_run_status p \<and> last_run_error q = last_run_error p)"
  using recorded_result [OF assms] unfolding latest_run_code says_blocked_code .

definition sample_stale :: cron_world where
  "sample_stale = sample_world\<lparr>
     prompts := [(''p1'', sample_prompt\<lparr>last_run_id := Some ''r2'', last_run_status := Some Success, last_run_at := Some 5\<rparr>)],
     runs := [(''r1'', new_run Scheduled_prompt ''p1'' Schedule Started 3 None None (Some ''t1'') None 3),
              (''r2'', new_run Scheduled_prompt ''p1'' Manual Success 5 (Some 6) None (Some ''t1'') None 5)]\<rparr>"

lemma result_reaches_summary_witness:
  "\<exists>w' q run'. recordScheduledPromptRunResult 9 ''ws1'' ''p1'' ''r1'' Error (Some ''late'') Completion_default sample_stale = (Inr True, w') \<and>
     map_of (prompts w') ''p1'' = Some q \<and> map_of (runs w') ''r1'' = Some run' \<and> run_status run' = Error \<and>
     last_run_status q = Some Success \<and> last_run_error q = None"
proof -
  let ?r = "recordScheduledPromptRunResult 9 ''ws1'' ''p1'' ''r1'' Error (Some ''late'') Completion_default sample_stale"
  have t: "js_trim ''p1'' = ''p1''" "js_trim ''r1'' = ''r1''" by code_simp+
  have f: "fst ?r = Inr True" by code_simp
  have w: "?r = (Inr True, snd ?r)" using f by (simp add: prod_eq_iff)
  have p: "map_of (prompts sample_stale) (js_trim ''p1'') =
      Some (sample_prompt\<lparr>last_run_id := Some ''r2'', last_run_status := Some Success, last_run_at := Some 5\<rparr>)"
    "map_of (runs sample_stale) (js_trim ''r1'') = Some (new_run Scheduled_prompt ''p1'' Schedule Started 3 None None (Some ''t1'') None 3)"
    by (simp_all add: t sample_stale_def)
  show ?thesis
    using result_reaches_summary [OF w p] w
    by (simp add: t new_run_def latest_run_def) (auto simp: sample_prompt_def)
qed

text \<open>A client of \<open>listAutomationRunsPage\<close> that follows the cursors, for at most \<open>fuel\<close> pages.\<close>

primrec fetch_pages ::
    "nat \<Rightarrow> string \<Rightarrow> run_kind \<Rightarrow> string \<Rightarrow> int option \<Rightarrow> run_cursor option \<Rightarrow> cron_world \<Rightarrow> (string \<times> run_row) list list" where
  "fetch_pages 0 ws kind a n cursor w = []"
| "fetch_pages (Suc fuel) ws kind a n cursor w =
     (case fst (listAutomationRunsPage ws kind a n cursor w) of
        Inl _ \<Rightarrow> []
      | Inr (page, nextCursor) \<Rightarrow> page # (case nextCursor of None \<Rightarrow> [] | Some c \<Rightarrow> fetch_pages fuel ws kind a n (Some c) w))"

lemma fetch_all_pages:
  assumes "fst (assertWorkspaceIdentity ws w) = Inr x" "js_trim a \<noteq> []"
  shows "fetch_pages fuel ws kind a n cursor w = all_pages fuel (page_limit n) cursor (runs_of kind (js_trim a) w)"
proof (induction fuel arbitrary: cursor)
  case (Suc fuel)
  have "runs_of kind (js_trim a) (snd (assertWorkspaceIdentity ws w)) = runs_of kind (js_trim a) w"
    by (simp add: runs_of_def)
  then have "fst (listAutomationRunsPage ws kind a n cursor w) = Inr (runs_page (page_limit n) cursor (runs_of kind (js_trim a) w))"
    using assms by (simp add: listAutomationRunsPage_def then_do_def Let_def)
  then show ?case by (simp add: Suc.IH case_prod_unfold Let_def split: option.split)
qed simp

text \<open>
  C25: Following the cursors through pages of any size returns the whole history of an automation, newest
  first, each run once, and no page is longer than its limit.
\<close>

theorem pages_cover_history:
  assumes "fst (assertWorkspaceIdentity ws w) = Inr x" "js_trim a \<noteq> []" "distinct (map fst (runs w))"
    "length (runs_of kind (js_trim a) w) < fuel"
  shows "concat (fetch_pages fuel ws kind a n None w) = newest_first (runs_of kind (js_trim a) w) \<and>
    (\<forall>page \<in> set (fetch_pages fuel ws kind a n None w). int (length page) \<le> page_limit n)"
proof -
  let ?h = "runs_of kind (js_trim a) w"
  have "distinct (map fst ?h)" using distinct_filter_keys [OF assms(3)] by (simp add: runs_of_def)
  moreover have "1 \<le> page_limit n" by (simp add: page_limit_def)
  moreover have "rows_after None ?h = drop 0 (newest_first ?h)" by (simp add: rows_after_def)
  moreover have "length (newest_first ?h) - 0 < fuel" using assms(4) by (simp add: newest_first_def)
  ultimately show ?thesis using pages_from [of ?h "page_limit n" None 0 fuel] by (simp add: fetch_all_pages [OF assms(1,2)])
qed

lemma pages_cover_history_witness:
  "concat (fetch_pages 3 ''ws1'' Scheduled_prompt ''p1'' (Some 1) None sample_stale) =
     newest_first (runs_of Scheduled_prompt ''p1'' sample_stale) \<and>
   map (map fst) (fetch_pages 3 ''ws1'' Scheduled_prompt ''p1'' (Some 1) None sample_stale) = [[''r2''], [''r1'']]"
proof -
  have t: "js_trim ''p1'' = ''p1''" by code_simp
  have a: "fst (assertWorkspaceIdentity ''ws1'' sample_stale) = Inr ''ws1''" by code_simp
  have d: "distinct (map fst (runs sample_stale))" by (simp add: sample_stale_def)
  have l: "length (runs_of Scheduled_prompt (js_trim ''p1'') sample_stale) < 3"
    by (simp add: t runs_of_def sample_stale_def new_run_def)
  have "map (map fst) (fetch_pages 3 ''ws1'' Scheduled_prompt ''p1'' (Some 1) None sample_stale) = [[''r2''], [''r1'']]"
    by code_simp
  then show ?thesis using pages_cover_history [OF a _ d l, of "Some 1"] by (simp add: t)
qed

text \<open>
  When the plan limits automations per user or per workspace, the enabled ones that may run are exactly
  the oldest, as many as the limit allows, whatever let more be enabled.
\<close>

theorem oldest_automations_run:
  assumes "maxCronJobsPerUser limits = Some n \<and> who = Some u \<or>
      maxCronJobsPerUser limits = None \<and> maxCronJobsPerWorkspace limits = Some n \<and> who = None"
    "0 \<le> n" "distinct (map fst (prompts w))" "distinct (map fst (automations w))"
  shows "filter (\<lambda>((c, i), k). getAutomationCountViolation k i u limits w = None) (getEnabledAutomationLimitRows who w) =
      take (nat n) (getEnabledAutomationLimitRows who w) \<and>
    sorted (map fst (getEnabledAutomationLimitRows who w))"
  using violation_of_plan [OF assms] by (simp add: getEnabledAutomationLimitRows_def)

lemma oldest_automations_run_witness:
  "let w = sample_world\<lparr>prompts := [(''p2'', sample_prompt\<lparr>created_at := 8\<rparr>), (''p1'', sample_prompt)]\<rparr>
   in filter (\<lambda>((c, i), k). getAutomationCountViolation k i ''u1'' (BILLING_PLAN_LIMITS Starter) w = None)
        (getEnabledAutomationLimitRows None w) = [((1, ''p1''), Scheduled_prompt)]"
proof -
  let ?w = "sample_world\<lparr>prompts := [(''p2'', sample_prompt\<lparr>created_at := 8\<rparr>), (''p1'', sample_prompt)]\<rparr>"
  have rows: "getEnabledAutomationLimitRows None ?w = [((1, ''p1''), Scheduled_prompt), ((8, ''p2''), Scheduled_prompt)]"
    by code_simp
  have "filter (\<lambda>((c, i), k). getAutomationCountViolation k i ''u1'' (BILLING_PLAN_LIMITS Starter) ?w = None)
      (getEnabledAutomationLimitRows None ?w) = take (nat 1) (getEnabledAutomationLimitRows None ?w)"
    using oldest_automations_run [of "BILLING_PLAN_LIMITS Starter" 1 None "''u1''" ?w] by (simp add: sample_world_def)
  then show ?thesis unfolding Let_def rows by simp
qed

text \<open>
  When the lookup of a due prompt's thread fails, the handler stops with that error and nothing else
  happens: every due automation stays due, the ones behind it have not run, and no alarm is set. (The
  runtime calls a failed handler again a limited number of times.)
\<close>

theorem failed_lookup_stops_alarm:
  assumes "getStoredWorkspaceId w = Some ws" "after_workspace e = (\<lambda>w. w)" "after_org e = (\<lambda>w. w)"
    "getWorkspaceInfo (workspace_answer e) = Inr info"
    "getWorkspaceBillingLimits (is_selfhost e) (org_answer e) = Inr limits"
    "due_rows (alarm_now e) (prompts w) = (i, p) # ps"
    "getRuntimeBillingViolation Scheduled_prompt i (cron_expression p) (created_by p) limits
       (job_started (prompt_jobs e i)) (w\<lparr>alarm_at := None\<rparr>) = Inr None"
    "before_insert (prompt_jobs e i) = (\<lambda>w. w)" "thread_found (prompt_jobs e i) = Inl m"
  shows "alarm_fires e w = (Inl (Failure m), w\<lparr>alarm_at := None\<rparr>)"
  using failed_lookup_stops [OF assms] .

lemma failed_lookup_stops_alarm_witness:
  "alarm_fires (sample_alarm (Inl ''overloaded'') (\<lambda>w. w)) sample_world =
     (Inl (Failure ''overloaded''), sample_world\<lparr>alarm_at := None\<rparr>) \<and>
   due_count 1760347800100 (prompts sample_world) = 1"
proof -
  let ?e = "sample_alarm (Inl ''overloaded'') (\<lambda>w. w)"
  have ws: "getStoredWorkspaceId sample_world = Some ''ws1''" by code_simp
  have due: "due_rows (alarm_now ?e) (prompts sample_world) = [(''p1'', sample_prompt)]"
    by (simp add: due_rows_def is_due_def sample_world_def sample_prompt_def sample_alarm_defs MAX_DUE_JOBS_PER_ALARM_def)
  have limits: "getWorkspaceBillingLimits (is_selfhost ?e) (org_answer ?e) = Inr sample_limits"
    by (simp add: sample_alarm_defs getWorkspaceBillingLimits_def from_service_def getBillingPlanLimits_def
        normalizeBillingPlan_def isBillingPlan_def BILLING_PLANS_def sample_limits_def)
  have rows: "getEnabledAutomationLimitRows x (sample_world\<lparr>alarm_at := None\<rparr>) = getEnabledAutomationLimitRows x sample_world" for x
    by (simp add: getEnabledAutomationLimitRows_def)
  have v: "getRuntimeBillingViolation Scheduled_prompt ''p1'' (cron_expression sample_prompt) (created_by sample_prompt) sample_limits
      (job_started (prompt_jobs ?e ''p1'')) (sample_world\<lparr>alarm_at := None\<rparr>) = Inr None"
    using sample_violation
    by (simp add: getRuntimeBillingViolation_def getAutomationCountViolation_def [abs_def] rows sample_prompt_def
        cong: option.case_cong)
  have "alarm_fires ?e sample_world = (Inl (Failure ''overloaded''), sample_world\<lparr>alarm_at := None\<rparr>)"
    by (rule failed_lookup_stops_alarm [OF ws _ _ _ limits due v])
      (simp_all add: sample_alarm_defs sample_job_def getWorkspaceInfo_def from_service_def)
  then show ?thesis by (simp add: due_count_def sample_world_def sample_prompt_def is_due_def)
qed

text \<open>
  The plan's shortest interval is compared with the next gap only: on a plan of at least five minutes
  between runs, \<open>0,1,20,40 * * * *\<close> passes the check when it runs at 09:00 and again at 09:01, one
  minute later.
\<close>

theorem interval_limit_checks_next_gap:
  "minCronIntervalMs sample_limits = Some 300000 \<and>
   getNextCronRunAt_string ''0,1,20,40 * * * *'' 1760345999000 = Inr (Some 1760346000000) \<and>
   getNextCronRunAt_string ''0,1,20,40 * * * *'' 1760346000000 = Inr (Some 1760346060000) \<and>
   getCronBillingIntervalViolation ''0,1,20,40 * * * *'' sample_limits Assert_style 1760346000000 = Inr None \<and>
   getCronBillingIntervalViolation ''0,1,20,40 * * * *'' sample_limits Runtime_style 1760346000500 = Inr None \<and>
   getCronBillingIntervalViolation ''0,1,20,40 * * * *'' sample_limits Runtime_style 1760346060500 = Inr None"
  by (intro conjI; code_simp)

end
