(* ===== verification/AutomationAlarm.thy ===== *)
theory AutomationAlarm
  imports AutomationSafety
begin

section \<open>What an alarm starts\<close>

text \<open>
  The alarm handler seen from outside: for each due automation it serves there is a row in the run
  history, and the agent turns and workflows it asks for are those of the automations that no plan
  limit blocked, in the order of their due times.
\<close>

subsection \<open>Rows of the run history\<close>

definition other_run :: "run_kind \<Rightarrow> string \<Rightarrow> string \<times> run_row \<Rightarrow> bool" where
  "other_run kind a x \<longleftrightarrow> \<not> (run_kind (snd x) = kind \<and> run_automation (snd x) = a)"

text \<open>Fewer than the rows kept are newer than a new one.\<close>

definition history_room :: "run_kind \<Rightarrow> string \<Rightarrow> int \<times> string \<Rightarrow> cron_world \<Rightarrow> bool" where
  "history_room kind a key w \<longleftrightarrow>
     length (filter (\<lambda>x. key < run_key x) (runs_of kind a w)) < AUTOMATION_RUN_RETENTION"

lemma runs_of_other: "runs_of kind a w = filter (\<lambda>x. \<not> other_run kind a x) (runs w)"
  by (simp add: runs_of_def other_run_def case_prod_unfold)

lemma trim_runs:
  "runs (trimAutomationRuns kind a w) = filter (\<lambda>x. other_run kind a x \<or>
     fst x \<in> fst ` set (take AUTOMATION_RUN_RETENTION (newest_first (runs_of kind a w)))) (runs w)"
  by (auto simp: trimAutomationRuns_def Let_def other_run_def case_prod_unfold intro!: filter_cong)

lemma runs_insert:
  "runs (insertAutomationRun i r w) =
     (let new = runs w @ [(i, r)]
      in filter (\<lambda>x. other_run (run_kind r) (run_automation r) x \<or>
           fst x \<in> fst ` set (take AUTOMATION_RUN_RETENTION
             (newest_first (filter (\<lambda>x. \<not> other_run (run_kind r) (run_automation r) x) new)))) new)"
  by (simp add: insertAutomationRun_def trim_runs runs_of_other Let_def)

lemma newest_in_take:
  assumes "(i, r) \<in> set h" and "\<And>r'. (i, r') \<in> set h \<Longrightarrow> r' = r"
    and "length (filter (\<lambda>x. run_key (i, r) < run_key x) h) < n"
  shows "(i, r) \<in> set (take n (newest_first h))"
proof -
  let ?s = "newest_first h" and ?P = "\<lambda>x. run_key (i, r) < run_key x"
  have set_s: "set ?s = set h" by (simp add: newest_first_key)
  have mset_s: "mset ?s = mset h" by (simp add: newest_first_key)
  obtain ys zs where s: "?s = ys @ (i, r) # zs" "(i, r) \<notin> set ys"
    using assms(1) set_s split_list_first by (metis)
  have sorted: "sorted_wrt (\<lambda>x y. run_key y \<le> run_key x) ?s"
    by (simp add: newest_first_key sorted_wrt_rev sorted_wrt_map [symmetric])
  have "?P y" if "y \<in> set ys" for y
  proof -
    have "run_key (i, r) \<le> run_key y" using sorted that by (auto simp: s(1) sorted_wrt_append)
    moreover have "run_key y \<noteq> run_key (i, r)"
    proof
      assume "run_key y = run_key (i, r)"
      then have "fst y = i" by (simp add: run_key_def)
      then have "y = (i, r)" using assms(2) [of "snd y"] that set_s s(1) by (metis Un_iff prod.collapse set_append)
      then show False using that s(2) by simp
    qed
    ultimately show ?thesis by simp
  qed
  then have "length ys \<le> length (filter ?P ?s)" by (simp add: s(1) filter_id_conv [THEN iffD2])
  also have "length (filter ?P ?s) = length (filter ?P h)"
    using mset_s by (metis mset_filter size_mset)
  finally have "length ys < n" using assms(3) by simp
  then show ?thesis by (simp add: s(1) take_Cons' )
qed

lemma distinct_filter_fst: "distinct (map fst t) \<Longrightarrow> distinct (map fst (filter P t))"
  by (induction t) auto

lemma insert_run_effect:
  assumes "distinct (map fst (runs w))" "i \<notin> fst ` set (runs w)"
    and room: "history_room (run_kind r) (run_automation r) (run_started_at r, i) w"
  shows "(i, r) \<in> set (runs (insertAutomationRun i r w))"
    and "distinct (map fst (runs (insertAutomationRun i r w)))"
    and "filter (other_run (run_kind r) (run_automation r)) (runs (insertAutomationRun i r w)) =
         filter (other_run (run_kind r) (run_automation r)) (runs w)"
    and "fst ` set (runs (insertAutomationRun i r w)) \<subseteq> insert i (fst ` set (runs w))"
proof -
  let ?o = "other_run (run_kind r) (run_automation r)"
  let ?h = "filter (\<lambda>x. \<not> ?o x) (runs w @ [(i, r)])"
  let ?kept = "fst ` set (take AUTOMATION_RUN_RETENTION (newest_first ?h))"
  have own: "\<not> ?o (i, r)" by (simp add: other_run_def)
  have new: "runs (insertAutomationRun i r w) = filter (\<lambda>x. ?o x \<or> fst x \<in> ?kept) (runs w @ [(i, r)])"
    by (simp only: runs_insert Let_def)
  have "(i, r) \<in> set (take AUTOMATION_RUN_RETENTION (newest_first ?h))"
  proof (rule newest_in_take)
    show "(i, r) \<in> set ?h" using own by simp
    show "r' = r" if "(i, r') \<in> set ?h" for r' using that image_eqI [of i fst "(i, r')" "set (runs w)"] assms(2)
      by (auto split: if_splits)
    have "filter (\<lambda>x. run_key (i, r) < run_key x) ?h =
        filter (\<lambda>x. (run_started_at r, i) < run_key x) (runs_of (run_kind r) (run_automation r) w)"
      using own by (simp add: runs_of_other run_key_def)
    then show "length (filter (\<lambda>x. run_key (i, r) < run_key x) ?h) < AUTOMATION_RUN_RETENTION"
      using room by (simp only: history_room_def)
  qed
  then have kept: "i \<in> ?kept" by (metis fst_conv image_eqI)
  show "(i, r) \<in> set (runs (insertAutomationRun i r w))" unfolding new using kept by simp
  have "distinct (map fst (runs w @ [(i, r)]))" using assms(1,2) by simp
  then show "distinct (map fst (runs (insertAutomationRun i r w)))"
    unfolding new by (rule distinct_filter_fst)
  have "filter ?o (filter (\<lambda>x. ?o x \<or> fst x \<in> ?kept) (runs w @ [(i, r)])) = filter ?o (runs w @ [(i, r)])"
    unfolding filter_filter by (rule filter_cong) auto
  then show "filter ?o (runs (insertAutomationRun i r w)) = filter ?o (runs w)"
    unfolding new using own by simp
  show "fst ` set (runs (insertAutomationRun i r w)) \<subseteq> insert i (fst ` set (runs w))"
    unfolding new by auto
qed

text \<open>Changing rows of one automation, none of whose identifying columns changes.\<close>

lemma filter_map_same:
  "(\<And>x. x \<in> set xs \<Longrightarrow> P (g x) = P x \<and> (P x \<longrightarrow> g x = x)) \<Longrightarrow> filter P (map g xs) = filter P xs"
  by (induction xs) simp_all

lemma update_runs_effect:
  assumes "\<And>k r. (k, r) \<in> set (runs w) \<Longrightarrow> P k r \<Longrightarrow> run_kind r = kind \<and> run_automation r = a"
    and "\<And>r. run_kind (f r) = run_kind r \<and> run_automation (f r) = run_automation r"
  shows "map fst (runs (snd (update_runs P f w))) = map fst (runs w)"
    and "filter (other_run kind a) (runs (snd (update_runs P f w))) = filter (other_run kind a) (runs w)"
    and "(k, r) \<in> set (runs w) \<Longrightarrow> (k, if P k r then f r else r) \<in> set (runs (snd (update_runs P f w)))"
proof -
  show "map fst (runs (snd (update_runs P f w))) = map fst (runs w)"
    by (simp add: update_runs_def case_prod_unfold)
  show "filter (other_run kind a) (runs (snd (update_runs P f w))) = filter (other_run kind a) (runs w)"
  proof (simp add: update_runs_def, rule filter_map_same)
    fix x assume x: "x \<in> set (runs w)"
    obtain k r where k: "x = (k, r)" by (cases x)
    show "other_run kind a (case x of (i, r) \<Rightarrow> (i, if P i r then f r else r)) = other_run kind a x \<and>
        (other_run kind a x \<longrightarrow> (case x of (i, r) \<Rightarrow> (i, if P i r then f r else r)) = x)"
      using assms(1) [of k r] assms(2) [of r] x by (cases "P k r") (simp_all add: k other_run_def)
  qed
  show "(k, r) \<in> set (runs w) \<Longrightarrow> (k, if P k r then f r else r) \<in> set (runs (snd (update_runs P f w)))"
    by (force simp: update_runs_def)
qed


subsection \<open>One job\<close>

text \<open>
  A job of automation \<open>a\<close> with the run id \<open>i\<close>: it asks for \<open>made\<close> unless it was blocked, leaves the
  other kind of request alone, and its row is in the history; runs of other automations stay.
\<close>

definition job_effect ::
  "(cron_world \<Rightarrow> 'q list) \<Rightarrow> (cron_world \<Rightarrow> 'p list) \<Rightarrow> run_kind \<Rightarrow> string \<Rightarrow> string \<Rightarrow> 'q list \<Rightarrow>
   (bool \<Rightarrow> run_row \<Rightarrow> bool) \<Rightarrow> cron_world \<Rightarrow> cron_world \<Rightarrow> bool" where
  "job_effect asked rest kind a i made ok w w' \<longleftrightarrow>
     distinct (map fst (runs w')) \<and> filter (other_run kind a) (runs w') = filter (other_run kind a) (runs w) \<and>
     fst ` set (runs w') \<subseteq> insert i (fst ` set (runs w)) \<and> rest w' = rest w \<and>
     (\<exists>blocked r. asked w' = asked w @ (if blocked then [] else made) \<and> (i, r) \<in> set (runs w') \<and>
        run_kind r = kind \<and> run_automation r = a \<and> ok blocked r)"

lemma only_row:
  assumes "distinct (map fst (runs w))" "(i, r) \<in> set (runs w)" "(k, r') \<in> set (runs w)" "k = i"
  shows "r' = r"
  using assms by (metis eq_key_imp_eq_value)

lemma job_effect_start:
  assumes "distinct (map fst (runs w))" "i \<notin> fst ` set (runs w)"
    "history_room (run_kind r) (run_automation r) (run_started_at r, i) w"
    "runs w' = runs (insertAutomationRun i r w)" "asked w' = asked w @ (if blocked then [] else made)" "rest w' = rest w"
    "ok blocked r" "kind = run_kind r" "a = run_automation r"
  shows "job_effect asked rest kind a i made ok w w'"
proof -
  note i = insert_run_effect [OF assms(1-3)]
  have "(i, r) \<in> set (runs w')" "distinct (map fst (runs w'))" "fst ` set (runs w') \<subseteq> insert i (fst ` set (runs w))"
    "filter (other_run kind a) (runs w') = filter (other_run kind a) (runs w)"
    unfolding assms(4,8,9) by (fact i)+
  then show ?thesis
    unfolding job_effect_def using assms(5-9) by blast
qed

text \<open>A later change of the job's own row that keeps what identifies it.\<close>

lemma job_effect_update:
  assumes "job_effect asked rest kind a i made ok w w1" "runs w2 = runs (snd (update_runs P f w1))"
    "asked w2 = asked w1" "rest w2 = rest w1"
    "\<And>k r. (k, r) \<in> set (runs w1) \<Longrightarrow> P k r \<Longrightarrow> run_kind r = kind \<and> run_automation r = a"
    "\<And>r. run_kind (f r) = run_kind r \<and> run_automation (f r) = run_automation r"
    "\<And>b r. ok b r \<Longrightarrow> P i r \<Longrightarrow> ok b (f r)"
  shows "job_effect asked rest kind a i made ok w w2"
proof -
  note u = update_runs_effect [OF assms(5,6)]
  obtain b r where r: "asked w1 = asked w @ (if b then [] else made)" "(i, r) \<in> set (runs w1)"
      "run_kind r = kind" "run_automation r = a" "ok b r"
    using assms(1) by (auto simp: job_effect_def)
  let ?r = "if P i r then f r else r"
  have "(i, ?r) \<in> set (runs w2)" unfolding assms(2) by (rule u(3) [OF _ _ r(2)])
  moreover have "run_kind ?r = kind" "run_automation ?r = a" "ok b ?r" using r(3-5) assms(6,7) by auto
  moreover have "map fst (runs w2) = map fst (runs w1)" unfolding assms(2) by (rule u(1))
  then have "distinct (map fst (runs w2)) = distinct (map fst (runs w1))" "fst ` set (runs w2) = fst ` set (runs w1)"
    by (simp_all only: set_map [symmetric])
  moreover have "filter (other_run kind a) (runs w2) = filter (other_run kind a) (runs w1)"
    unfolding assms(2) by (rule u(2))
  moreover have "asked w2 = asked w @ (if b then [] else made)" using r(1) assms(3) by simp
  moreover note assms(1,4)
  ultimately show ?thesis unfolding job_effect_def by (simp only:) blast
qed

subsection \<open>A due prompt\<close>

text \<open>The turns one dispatch asks for; the second one when the thread cannot move.\<close>

definition due_at :: "job_env \<Rightarrow> 'a schedule_row_scheme \<Rightarrow> int" where
  "due_at j r = or_default (job_started j) (next_run_at r)"

definition runs_in :: "job_env \<Rightarrow> prompt_row \<Rightarrow> string" where
  "runs_in j p = (if thread_found j = Inr True then thread_id p else (case new_thread j of Inr t \<Rightarrow> t | Inl _ \<Rightarrow> []))"

definition turn_for :: "job_env \<Rightarrow> string \<Rightarrow> string \<Rightarrow> string \<Rightarrow> turn_request" where
  "turn_for j t actor msg = \<lparr>turn_thread = t, turn_user = actor, turn_run = job_run j, turn_message = msg\<rparr>"

definition moved_turn :: "job_env \<Rightarrow> prompt_row \<Rightarrow> string \<Rightarrow> string \<Rightarrow> turn_request list" where
  "moved_turn j p actor msg =
     (case (first_turn j, old_title j, rehomed_thread j) of
        (Inr (Some (Unmovable why)), Inr title, Inr t) \<Rightarrow>
          [turn_for j t actor (rehomedThreadNote (runs_in j p)
             (if or_default [] title = [] then ''Scheduled: '' @ name p else the title) why @ NEWLINES @ msg)]
      | _ \<Rightarrow> [])"

definition prompt_turns :: "job_env \<Rightarrow> prompt_row \<Rightarrow> turn_request list" where
  "prompt_turns j p =
     (case scheduledRunActor j p of
        Inr (Some actor) \<Rightarrow>
          turn_for j (runs_in j p) actor (buildScheduledMessage p (due_at j p)) #
          moved_turn j p actor (buildScheduledMessage p (due_at j p))
      | _ \<Rightarrow> [])"

text \<open>A run that the plan blocked has no thread.\<close>

definition prompt_run :: "job_env \<Rightarrow> prompt_row \<Rightarrow> bool \<Rightarrow> run_row \<Rightarrow> bool" where
  "prompt_run j p blocked r \<longleftrightarrow>
     run_trigger r = Schedule \<and> run_started_at r = due_at j p \<and> (run_thread r = None \<longleftrightarrow> blocked)"

lemma requests_simps [simp]:
  "turn_requests (insertAutomationRun i r w) = turn_requests w" "workflow_requests (insertAutomationRun i r w) = workflow_requests w"
  "turn_requests (snd (update_runs P f w)) = turn_requests w" "workflow_requests (snd (update_runs P f w)) = workflow_requests w"
  "turn_requests (settle_run j k i d w) = turn_requests w" "workflow_requests (settle_run j k i d w) = workflow_requests w"
  "turn_requests (update_prompt k g w) = turn_requests w" "workflow_requests (update_prompt k g w) = workflow_requests w"
  "turn_requests (update_automation k h w) = turn_requests w" "workflow_requests (update_automation k h w) = workflow_requests w"
  "turn_requests (move_prompt k t n w) = turn_requests w" "workflow_requests (move_prompt k t n w) = workflow_requests w"
  "turn_requests (start_turn t u i m w) =
     turn_requests w @ [\<lparr>turn_thread = t, turn_user = u, turn_run = i, turn_message = m\<rparr>]"
  "workflow_requests (start_turn t u i m w) = workflow_requests w"
  "turn_requests (fail_run j a i m w) = turn_requests w" "workflow_requests (fail_run j a i m w) = workflow_requests w"
  by (simp_all add: insertAutomationRun_def trimAutomationRuns_def Let_def update_runs_def settle_run_def
      updateAutomationRunById_def start_turn_def update_prompt_def update_automation_def fail_run_def move_prompt_def
      updateDeterministicRunByInstance_def)

lemma runs_simps [simp]:
  "runs (update_prompt k g w) = runs w" "runs (update_automation k h w) = runs w"
  "runs (move_prompt k t n w) = runs w" "runs (start_turn t u i m w) = runs w"
  by (simp_all add: update_prompt_def update_automation_def move_prompt_def start_turn_def)


lemma ensure_effect:
  assumes "job_served now j"
  shows "fst (ensureRunnableThread j p w) = Inr (runs_in j (snd p))"
    "runs (snd (ensureRunnableThread j p w)) = runs w"
    "turn_requests (snd (ensureRunnableThread j p w)) = turn_requests w"
    "workflow_requests (snd (ensureRunnableThread j p w)) = workflow_requests w"
proof -
  have bi: "before_insert j w = w" using assms by (auto simp: job_served_def no_others_def)
  obtain b where b: "thread_found j = Inr b" "b \<or> (\<exists>t. new_thread j = Inr t)" using assms by (auto simp: job_served_def)
  show "fst (ensureRunnableThread j p w) = Inr (runs_in j (snd p))"
    "runs (snd (ensureRunnableThread j p w)) = runs w"
    "turn_requests (snd (ensureRunnableThread j p w)) = turn_requests w"
    "workflow_requests (snd (ensureRunnableThread j p w)) = workflow_requests w"
    using b by (auto simp: ensureRunnableThread_def from_service_def bi runs_in_def)
qed

lemma runs_update_runs: "runs (snd (update_runs P f w)) = map (\<lambda>(i, r). (i, if P i r then f r else r)) (runs w)"
  by (simp add: update_runs_def)

lemma dispatch_turn_effect:
  assumes "no_others j"
    and w': "w' = snd (dispatch_turn j p (due_at j (snd p)) (job_run j) (runs_in j (snd p)) w)"
  shows "turn_requests w' = turn_requests w @ prompt_turns j (snd p)" "workflow_requests w' = workflow_requests w"
    "runs w' = runs w \<or>
     (\<exists>t. runs w' = runs (snd (update_runs (\<lambda>k r. k = job_run j) (\<lambda>r. r\<lparr>run_thread := Some t\<rparr>) w)))"
  using assms(1)
  by (auto simp: w' dispatch_turn_def rehome_prompt_def no_others_def Let_def prompt_turns_def moved_turn_def
      turn_for_def runs_update_runs split: sum.split option.split turn_answer.split)

definition no_plan_limits :: "BillingPlanLimits \<Rightarrow> bool" where
  "no_plan_limits limits \<longleftrightarrow> minCronIntervalMs limits = None \<and> maxCronJobsPerUser limits = None \<and>
     maxCronJobsPerWorkspace limits = None"

lemma dispatchPrompt_effect:
  assumes "job_served now j" "distinct (map fst (runs w))" "job_run j \<notin> fst ` set (runs w)"
    "history_room Scheduled_prompt (fst p) (due_at j (snd p), job_run j) w"
  shows "job_effect turn_requests workflow_requests Scheduled_prompt (fst p) (job_run j) (prompt_turns j (snd p))
    (\<lambda>b r. \<not> b \<and> prompt_run j (snd p) b r) w (snd (dispatchPrompt j p (due_at j (snd p)) Schedule (job_run j) w))"
proof -
  let ?t = "runs_in j (snd p)" and ?f = "due_at j (snd p)"
  let ?r = "new_run Scheduled_prompt (fst p) Schedule Started ?f None None (Some ?t) None (job_inserted j)"
  let ?w1 = "snd (ensureRunnableThread j p w)"
  let ?w2 = "insertAutomationRun (job_run j) ?r ?w1"
  let ?w3 = "snd (dispatch_turn j p ?f (job_run j) ?t ?w2)"
  note e = ensure_effect [OF assms(1), of p w]
  have q: "no_others j" using assms(1) by (simp add: job_served_def)
  have d: "snd (dispatchPrompt j p ?f Schedule (job_run j) w) = ?w3"
    using e(1) by (simp add: dispatchPrompt_def then_do_def checked_def case_prod_unfold Let_def)
  note t = dispatch_turn_effect [OF q refl, of p ?w2]
  define w2' where "w2' = ?w2\<lparr>turn_requests := turn_requests ?w3\<rparr>"
  have runs_w: "runs_of k a ?w1 = runs_of k a w" for k a by (simp add: runs_of_def e(2))
  have 1: "job_effect turn_requests workflow_requests Scheduled_prompt (fst p) (job_run j) (prompt_turns j (snd p))
      (\<lambda>b r. \<not> b \<and> prompt_run j (snd p) b r) w w2'"
  proof (rule job_effect_start [where r = ?r and blocked = False])
    show "history_room (run_kind ?r) (run_automation ?r) (run_started_at ?r, job_run j) w"
      using assms(4) by (simp add: new_run_def)
    show "runs w2' = runs (insertAutomationRun (job_run j) ?r w)"
      by (simp add: w2'_def runs_insert e(2))
    show "turn_requests w2' = turn_requests w @ (if False then [] else prompt_turns j (snd p))"
      using t(1) e(3) by (simp add: w2'_def)
  qed (use assms e(4) in \<open>simp_all add: w2'_def new_run_def prompt_run_def\<close>)
  have "job_effect turn_requests workflow_requests Scheduled_prompt (fst p) (job_run j) (prompt_turns j (snd p))
      (\<lambda>b r. \<not> b \<and> prompt_run j (snd p) b r) w ?w3"
    using t(3)
  proof
    assume "runs ?w3 = runs ?w2"
    then show ?thesis using 1 t(2) by (simp add: job_effect_def w2'_def)
  next
    assume "\<exists>t. runs ?w3 = runs (snd (update_runs (\<lambda>k r. k = job_run j) (\<lambda>r. r\<lparr>run_thread := Some t\<rparr>) ?w2))"
    then obtain t' where t': "runs ?w3 = runs (snd (update_runs (\<lambda>k r. k = job_run j) (\<lambda>r. r\<lparr>run_thread := Some t'\<rparr>) w2'))"
      by (auto simp: runs_update_runs w2'_def)
    show ?thesis
    proof (rule job_effect_update [OF 1 t'])
      obtain r where r: "(job_run j, r) \<in> set (runs w2')" "run_kind r = Scheduled_prompt" "run_automation r = fst p"
        using 1 by (auto simp: job_effect_def)
      have "distinct (map fst (runs w2'))" using 1 by (simp add: job_effect_def)
      then show "run_kind r' = Scheduled_prompt \<and> run_automation r' = fst p"
        if "(k, r') \<in> set (runs w2')" "k = job_run j" for k r'
        using only_row [OF _ r(1) that] r(2,3) by simp
    qed (use t(2) in \<open>auto simp: w2'_def prompt_run_def\<close>)
  qed
  then show ?thesis unfolding d .
qed


lemma no_limits_no_violation:
  "no_plan_limits limits \<Longrightarrow> getRuntimeBillingViolation kind i expr u limits now w = Inr v \<Longrightarrow> v = None"
  by (auto simp: no_plan_limits_def getRuntimeBillingViolation_def getCronBillingIntervalViolation_def
      getAutomationCountViolation_def)

lemma job_effect_mono:
  "job_effect asked rest kind a i made ok w w' \<Longrightarrow> (\<And>b r. ok b r \<Longrightarrow> ok' b r) \<Longrightarrow>
   job_effect asked rest kind a i made ok' w w'"
  unfolding job_effect_def by blast

lemma job_effect_same:
  "job_effect asked rest kind a i made ok w w1 \<Longrightarrow> runs w2 = runs w1 \<Longrightarrow> asked w2 = asked w1 \<Longrightarrow>
   rest w2 = rest w1 \<Longrightarrow> job_effect asked rest kind a i made ok w w2"
  by (simp add: job_effect_def)

lemma settle_effect:
  assumes "job_effect turn_requests workflow_requests Scheduled_prompt a i made (\<lambda>b r. \<not> b \<and> prompt_run j p b r) w w1"
  shows "job_effect turn_requests workflow_requests Scheduled_prompt a i made (\<lambda>b r. \<not> b \<and> prompt_run j p b r) w
    (settle_run j' a i d w1)"
proof (cases "accepted d")
  case False
  then have "runs (settle_run j' a i d w1) =
      runs (snd (updateAutomationRunById i Scheduled_prompt a (dispatch_status d) (dispatch_error d)
                   Completion_default (job_finished j') w1))"
    by (simp add: settle_run_def)
  then show ?thesis
    unfolding updateAutomationRunById_def Let_def
    by (rule job_effect_update [OF assms]) (simp_all add: prompt_run_def)
qed (use assms in \<open>simp add: settle_run_def\<close>)

lemma run_due_prompt_effect:
  assumes "job_served (alarm_now e) (prompt_jobs e (fst p))" "schedule_ok (schedule_of (snd p))"
    "distinct (map fst (runs w))" "job_run (prompt_jobs e (fst p)) \<notin> fst ` set (runs w)"
    "history_room Scheduled_prompt (fst p)
       (due_at (prompt_jobs e (fst p)) (snd p), job_run (prompt_jobs e (fst p))) w"
  shows "job_effect turn_requests workflow_requests Scheduled_prompt (fst p) (job_run (prompt_jobs e (fst p)))
    (prompt_turns (prompt_jobs e (fst p)) (snd p))
    (\<lambda>b r. prompt_run (prompt_jobs e (fst p)) (snd p) b r \<and> (no_plan_limits limits \<longrightarrow> \<not> b))
    w (snd (run_due_prompt e limits p w))"
proof -
  let ?j = "prompt_jobs e (fst p)"
  have now: "alarm_now e \<le> job_started ?j" "alarm_now e \<le> job_started ?j + BILLING_BLOCK_RECHECK_MS"
    using assms(1) by (auto simp: job_served_def BILLING_BLOCK_RECHECK_MS_def)
  obtain v where v: "getRuntimeBillingViolation Scheduled_prompt (fst p) (cron_expression (snd p)) (created_by (snd p))
      limits (job_started ?j) w = Inr v" using violation_computed [OF assms(2)] by blast
  obtain t where t: "next_run (cron_expression (snd p)) (job_started ?j) = Inr t"
    using next_run_computed [OF assms(2) now(1)] by blast
  obtain t' where t': "next_run (cron_expression (snd p)) (job_started ?j + BILLING_BLOCK_RECHECK_MS) = Inr t'"
    using next_run_computed [OF assms(2) now(2)] by blast
  obtain d where d: "fst (dispatchPrompt ?j p (or_default (job_started ?j) (next_run_at (snd p))) Schedule (job_run ?j) w) = Inr d"
    using dispatchPrompt_quiet(1) [OF assms(1)] by blast
  note unfold = run_due_prompt_def v t(1) t'(1) d then_do_def Let_def
  show ?thesis
  proof (cases v)
    case None
    note e1 = settle_effect [OF dispatchPrompt_effect [OF assms(1,3-5)], of ?j d]
    show ?thesis
      by (rule job_effect_mono [OF job_effect_same [OF e1]]) (auto simp: unfold None due_at_def prompt_run_def)
  next
    case (Some m)
    have lim: "\<not> no_plan_limits limits" using no_limits_no_violation [OF _ v] Some by auto
    let ?r = "new_run Scheduled_prompt (fst p) Schedule Error (due_at ?j (snd p)) (Some (job_finished ?j))
         (Some (blocked_message m)) None None (job_inserted ?j)"
    show ?thesis
    proof (rule job_effect_start [where r = ?r and blocked = True])
      show "history_room (run_kind ?r) (run_automation ?r) (run_started_at ?r, job_run ?j) w"
        using assms(5) by (simp add: new_run_def)
    qed (use assms(3,4) lim in \<open>simp_all add: unfold Some new_run_def prompt_run_def due_at_def\<close>)
  qed
qed


subsection \<open>A due automation\<close>

text \<open>The workflow asked for; a run that was blocked, or could not ask, has no instance.\<close>

definition automation_workflows :: "job_env \<Rightarrow> string \<Rightarrow> automation_row \<Rightarrow> workflow_request list" where
  "automation_workflows j i a =
     [\<lparr>workflow_instance = job_instance j, workflow_automation = i, workflow_version = source_version a,
       workflow_name = name a, workflow_scheduled_for = due_at j a,
       workflow_triggered_at = triggered_now j, workflow_trigger = Schedule\<rparr>]"

definition automation_run :: "job_env \<Rightarrow> automation_row \<Rightarrow> bool \<Rightarrow> run_row \<Rightarrow> bool" where
  "automation_run j a blocked r \<longleftrightarrow>
     run_trigger r = Schedule \<and> run_started_at r = due_at j a \<and>
     run_instance r = (if blocked then None else Some (job_instance j))"

lemma start_due_automation_effect:
  assumes q: "no_others j" and r: "toAutomation stored = Inr a"
    and "distinct (map fst (runs w))" "job_run j \<notin> fst ` set (runs w)"
    "history_room Deterministic_automation i (due_at j stored, job_run j) w"
  shows "job_effect workflow_requests turn_requests Deterministic_automation i (job_run j)
    (automation_workflows j i stored)
    (\<lambda>b r. automation_run j stored b r \<and> (workflows_configured j \<longrightarrow> \<not> b)) w
    (start_due_automation j (i, a) (due_at j stored) t w)"
proof -
  have m: "during_workflow j w = w" for w using q by (simp add: no_others_def)
  let ?ok = "\<lambda>b r. automation_run j stored b r \<and> (workflows_configured j \<longrightarrow> \<not> b)"
  show ?thesis
  proof (cases "workflows_configured j")
    case False
    let ?r = "new_run Deterministic_automation i Schedule Error (due_at j stored) (Some (job_finished j))
       (Some WORKFLOW_NOT_CONFIGURED) None None (job_inserted j)"
    show ?thesis
    proof (rule job_effect_start [where r = ?r and blocked = True])
      show "history_room (run_kind ?r) (run_automation ?r) (run_started_at ?r, job_run j) w"
        using assms(5) by (simp add: new_run_def)
    qed (use assms(3,4) False in \<open>simp_all add: start_due_automation_def Let_def new_run_def automation_run_def\<close>)
  next
    case True
    let ?note = "if \<not> no_time t then None else Some NO_FUTURE_RUN"
    let ?r = "new_run Deterministic_automation i Schedule Started (due_at j stored) None ?note None
       (Some (job_instance j)) (job_inserted j)"
    let ?w1 = "snd (dispatchDeterministicAutomation j (i, a) (due_at j stored) Schedule (job_instance j)
        (insertAutomationRun (job_run j) ?r w))"
    have 1: "job_effect workflow_requests turn_requests Deterministic_automation i (job_run j)
      (automation_workflows j i stored) ?ok w ?w1"
    proof (rule job_effect_start [where r = ?r and blocked = False])
      show "history_room (run_kind ?r) (run_automation ?r) (run_started_at ?r, job_run j) w"
        using assms(5) by (simp add: new_run_def)
      show "runs ?w1 = runs (insertAutomationRun (job_run j) ?r w)"
        by (simp add: dispatchDeterministicAutomation_def True Let_def m)
    qed (use assms(3,4) True toAutomation_facts(4,5) [OF r] in \<open>simp_all add: dispatchDeterministicAutomation_def Let_def m new_run_def
        automation_run_def automation_workflows_def\<close>)
    show ?thesis
    proof (cases "workflow_answer j")
      case (Inr u)
      show ?thesis
        by (rule job_effect_same [OF 1])
          (simp_all add: start_due_automation_def Let_def case_prod_unfold dispatchDeterministicAutomation_def
            True Inr m insertAutomationRun_def trimAutomationRuns_def update_automation_def runs_of_def)
    next
      case (Inl msg)
      have "job_effect workflow_requests turn_requests Deterministic_automation i (job_run j)
        (automation_workflows j i stored) ?ok w (fail_run j i (job_instance j) msg ?w1)"
        unfolding fail_run_def updateDeterministicRunByInstance_def
        by (rule job_effect_update [OF 1 refl]) (simp_all add: automation_run_def)
      then show ?thesis
        by (rule job_effect_same)
          (simp_all add: start_due_automation_def Let_def case_prod_unfold dispatchDeterministicAutomation_def
            True Inl m workflow_start_failed_def fail_run_def updateDeterministicRunByInstance_def update_runs_def
            insertAutomationRun_def trimAutomationRuns_def update_automation_def runs_of_def)
    qed
  qed
qed

lemma run_due_automation_effect:
  assumes "job_served (alarm_now e) (automation_jobs e (fst a))" "schedule_ok (schedule_of (snd a))"
    "description_ok (description_of (snd a))"
    "distinct (map fst (runs w))" "job_run (automation_jobs e (fst a)) \<notin> fst ` set (runs w)"
    "history_room Deterministic_automation (fst a)
       (due_at (automation_jobs e (fst a)) (snd a), job_run (automation_jobs e (fst a))) w"
  shows "job_effect workflow_requests turn_requests Deterministic_automation (fst a)
    (job_run (automation_jobs e (fst a))) (automation_workflows (automation_jobs e (fst a)) (fst a) (snd a))
    (\<lambda>b r. automation_run (automation_jobs e (fst a)) (snd a) b r \<and>
       (no_plan_limits limits \<and> workflows_configured (automation_jobs e (fst a)) \<longrightarrow> \<not> b))
    w (snd (run_due_automation e limits a w))"
proof -
  let ?j = "automation_jobs e (fst a)"
  have now: "alarm_now e \<le> job_started ?j" "alarm_now e \<le> job_started ?j + BILLING_BLOCK_RECHECK_MS"
    using assms(1) by (auto simp: job_served_def BILLING_BLOCK_RECHECK_MS_def)
  obtain r where r: "toAutomation (snd a) = Inr r" using toAutomation_works [OF assms(3)] by blast
  have ok: "schedule_ok (schedule_of r)" using assms(2) toAutomation_facts(1) [OF r] by simp
  have due: "or_default (job_started ?j) (next_run_at r) = due_at ?j (snd a)"
    using toAutomation_facts(1) [OF r] by (simp add: due_at_def schedule_of_def)
  obtain v where v: "getRuntimeBillingViolation Deterministic_automation (fst a) (cron_expression r) (created_by r)
      limits (job_started ?j) w = Inr v" using violation_computed [OF ok] by blast
  obtain t where t: "next_run (cron_expression r) (job_started ?j) = Inr t"
    using next_run_computed [OF ok now(1)] by blast
  obtain t' where t': "next_run (cron_expression r) (job_started ?j + BILLING_BLOCK_RECHECK_MS) = Inr t'"
    using next_run_computed [OF ok now(2)] by blast
  have q: "no_others ?j" using assms(1) by (simp add: job_served_def)
  note unfold = run_due_automation_def r v t(1) t'(1) due Let_def
  show ?thesis
  proof (cases v)
    case None
    show ?thesis
      by (rule job_effect_mono [OF job_effect_same [OF start_due_automation_effect [OF q r assms(4-6), of t]]])
        (auto simp: unfold None)
  next
    case (Some m)
    have lim: "\<not> no_plan_limits limits" using no_limits_no_violation [OF _ v] Some by auto
    let ?r = "new_run Deterministic_automation (fst a) Schedule Error (due_at ?j (snd a)) (Some (job_finished ?j))
         (Some (blocked_message m)) None None (job_inserted ?j)"
    show ?thesis
    proof (rule job_effect_start [where r = ?r and blocked = True])
      show "history_room (run_kind ?r) (run_automation ?r) (run_started_at ?r, job_run ?j) w"
        using assms(6) by (simp add: new_run_def)
    qed (use assms(4,5) lim in \<open>simp_all add: unfold Some new_run_def automation_run_def\<close>)
  qed
qed


subsection \<open>The whole alarm\<close>

lemma filter_other_history:
  "filter (\<lambda>x. \<forall>k \<in> K. other_run kind k x) (runs w') = filter (\<lambda>x. \<forall>k \<in> K. other_run kind k x) (runs w) \<Longrightarrow>
   kind' \<noteq> kind \<or> a \<notin> K \<Longrightarrow> runs_of kind' a w' = runs_of kind' a w"
proof -
  assume eq: "filter (\<lambda>x. \<forall>k \<in> K. other_run kind k x) (runs w') = filter (\<lambda>x. \<forall>k \<in> K. other_run kind k x) (runs w)"
    and d: "kind' \<noteq> kind \<or> a \<notin> K"
  have h: "runs_of kind' a v = filter (\<lambda>x. \<not> other_run kind' a x) (filter (\<lambda>x. \<forall>k \<in> K. other_run kind k x) (runs v))" for v
    unfolding runs_of_other filter_filter using d by (intro filter_cong) (auto simp: other_run_def)
  show ?thesis by (simp only: h eq)
qed

lemma run_jobs_effect:
  assumes "\<And>x w. x \<in> set xs \<Longrightarrow> distinct (map fst (runs w)) \<Longrightarrow> jid x \<notin> fst ` set (runs w) \<Longrightarrow>
      history_room kind (fst x) (key x) w \<Longrightarrow>
      fst (F x w) = Inr () \<and> job_effect asked rest kind (fst x) (jid x) (made x) (ok x) w (snd (F x w))"
    and "distinct (map fst xs)" "distinct (map jid xs)" "jid ` set xs \<inter> fst ` set (runs w) = {}"
    and "\<forall>x \<in> set xs. history_room kind (fst x) (key x) w" "distinct (map fst (runs w))"
  shows "distinct (map fst (runs (snd (run_jobs F xs w)))) \<and>
    filter (\<lambda>x. \<forall>k \<in> fst ` set xs. other_run kind k x) (runs (snd (run_jobs F xs w))) =
      filter (\<lambda>x. \<forall>k \<in> fst ` set xs. other_run kind k x) (runs w) \<and>
    fst ` set (runs (snd (run_jobs F xs w))) \<subseteq> jid ` set xs \<union> fst ` set (runs w) \<and>
    rest (snd (run_jobs F xs w)) = rest w \<and>
    (\<exists>B. asked (snd (run_jobs F xs w)) = asked w @ concat (map (\<lambda>x. if fst x \<in> B then [] else made x) xs) \<and>
       (\<forall>x \<in> set xs. \<exists>r. (jid x, r) \<in> set (runs (snd (run_jobs F xs w))) \<and> run_kind r = kind \<and>
          run_automation r = fst x \<and> ok x (fst x \<in> B) r))"
  using assms
proof (induction xs arbitrary: w)
  case (Cons x xs)
  let ?w = "snd (F x w)" and ?v = "snd (run_jobs F (x # xs) w)"
  have s: "fst (F x w) = Inr ()" "job_effect asked rest kind (fst x) (jid x) (made x) (ok x) w ?w"
    using Cons.prems(1) [of x w] Cons.prems(3-6) by auto
  have run: "?v = snd (run_jobs F xs ?w)" using s(1) by (simp add: then_do_def)
  obtain b r where e: "distinct (map fst (runs ?w))"
      "filter (other_run kind (fst x)) (runs ?w) = filter (other_run kind (fst x)) (runs w)"
      "fst ` set (runs ?w) \<subseteq> insert (jid x) (fst ` set (runs w))" "rest ?w = rest w"
      "asked ?w = asked w @ (if b then [] else made x)" "(jid x, r) \<in> set (runs ?w)" "run_kind r = kind"
      "run_automation r = fst x" "ok x b r"
    using s(2) unfolding job_effect_def by blast
  have dx: "fst x \<notin> fst ` set xs" "jid x \<notin> jid ` set xs" using Cons.prems(2,3) by (simp_all flip: set_map)
  have "runs_of kind k ?w = runs_of kind k w" if "k \<in> fst ` set xs" for k
  proof -
    have "k \<noteq> fst x" using that dx(1) by blast
    then show ?thesis using filter_other_history [of "{fst x}" kind ?w w kind k] e(2) by simp
  qed
  then have room: "\<forall>y \<in> set xs. history_room kind (fst y) (key y) ?w"
    using Cons.prems(5) by (simp add: history_room_def)
  have fresh: "jid ` set xs \<inter> fst ` set (runs ?w) = {}" 
  proof -
    have "jid ` set xs \<subseteq> jid ` set (x # xs)" by auto
    then have d: "jid ` set xs \<inter> fst ` set (runs w) = {}" using Cons.prems(4) by blast
    show ?thesis
    proof (rule equals0I)
      fix y assume "y \<in> jid ` set xs \<inter> fst ` set (runs ?w)"
      then have y: "y \<in> jid ` set xs" "y \<in> fst ` set (runs ?w)" by (rule IntD1, rule IntD2)
      then have "y = jid x \<or> y \<in> fst ` set (runs w)" using e(3) by (auto dest!: subsetD)
      then show False using y(1) dx(2) d by (metis IntI empty_iff)
    qed
  qed
  have ih: "distinct (map fst (runs ?v)) \<and>
    filter (\<lambda>x. \<forall>k \<in> fst ` set xs. other_run kind k x) (runs ?v) =
      filter (\<lambda>x. \<forall>k \<in> fst ` set xs. other_run kind k x) (runs ?w) \<and>
    fst ` set (runs ?v) \<subseteq> jid ` set xs \<union> fst ` set (runs ?w) \<and> rest ?v = rest ?w \<and>
    (\<exists>B. asked ?v = asked ?w @ concat (map (\<lambda>x. if fst x \<in> B then [] else made x) xs) \<and>
       (\<forall>x \<in> set xs. \<exists>r. (jid x, r) \<in> set (runs ?v) \<and> run_kind r = kind \<and>
          run_automation r = fst x \<and> ok x (fst x \<in> B) r))"
    unfolding run
    by (rule Cons.IH) (use Cons.prems(1-3) fresh room e(1) in auto)
  then obtain B where B: "asked ?v = asked ?w @ concat (map (\<lambda>x. if fst x \<in> B then [] else made x) xs)"
     "\<forall>x \<in> set xs. \<exists>r. (jid x, r) \<in> set (runs ?v) \<and> run_kind r = kind \<and>
        run_automation r = fst x \<and> ok x (fst x \<in> B) r" by blast
  let ?B = "if b then insert (fst x) B else B - {fst x}"
  have same: "fst y \<in> ?B \<longleftrightarrow> fst y \<in> B" if "y \<in> set xs" for y
  proof -
    have "fst y \<noteq> fst x" using that dx(1) by (metis image_eqI)
    then show ?thesis by simp
  qed
  let ?rest = "\<lambda>y. \<forall>k \<in> fst ` set xs. other_run kind k y"
  have all: "(\<lambda>y. \<forall>k \<in> fst ` set (x # xs). other_run kind k y) = (\<lambda>y. ?rest y \<and> other_run kind (fst x) y)"
    by (auto simp: fun_eq_iff)
  have "filter (\<lambda>y. ?rest y \<and> other_run kind (fst x) y) (runs ?v) = filter (other_run kind (fst x)) (filter ?rest (runs ?v))"
    by simp
  also have "filter ?rest (runs ?v) = filter ?rest (runs ?w)" using ih by blast
  also have "filter (other_run kind (fst x)) (filter ?rest (runs ?w)) = filter ?rest (filter (other_run kind (fst x)) (runs ?w))"
    by (simp add: conj_commute)
  also have "\<dots> = filter ?rest (filter (other_run kind (fst x)) (runs w))" by (simp only: e(2))
  also have "\<dots> = filter (\<lambda>y. ?rest y \<and> other_run kind (fst x) y) (runs w)" by (simp add: conj_commute)
  finally have filters: "filter (\<lambda>y. \<forall>k \<in> fst ` set (x # xs). other_run kind k y) (runs ?v) =
      filter (\<lambda>y. \<forall>k \<in> fst ` set (x # xs). other_run kind k y) (runs w)" by (simp only: all)
  have kept: "(jid x, r) \<in> set (runs ?v)"
  proof -
    have "(jid x, r) \<in> set (filter (\<lambda>x. \<forall>k \<in> fst ` set xs. other_run kind k x) (runs ?w))"
      using e(6,7,8) dx(1) by (auto simp: other_run_def)
    then show ?thesis using ih by (metis (no_types, lifting) filter_is_subset subsetD)
  qed
  have requests: "asked ?v = asked w @ concat (map (\<lambda>x. if fst x \<in> ?B then [] else made x) (x # xs))"
  proof -
    have "map (\<lambda>x. if fst x \<in> ?B then [] else made x) xs = map (\<lambda>x. if fst x \<in> B then [] else made x) xs"
      using same by (intro map_cong) auto
    moreover have "(if fst x \<in> ?B then [] else made x) = (if b then [] else made x)" by simp
    ultimately show ?thesis using B(1) e(5) by (simp only: list.map concat.simps append_assoc)
  qed
  have rows: "\<exists>r. (jid y, r) \<in> set (runs ?v) \<and> run_kind r = kind \<and> run_automation r = fst y \<and> ok y (fst y \<in> ?B) r"
    if "y \<in> set (x # xs)" for y
  proof (cases "y = x")
    case True
    then show ?thesis using kept e(7-9) by auto
  next
    case False
    then have "y \<in> set xs" using that by simp
    then show ?thesis using B(2) same [of y] by (simp only:)
  qed
  have i1: "distinct (map fst (runs ?v))" and i4: "rest ?v = rest w" using ih e(4) by simp_all
  have "fst ` set (runs ?v) \<subseteq> jid ` set xs \<union> fst ` set (runs ?w)" using ih by blast
  then have sub: "fst ` set (runs ?v) \<subseteq> jid ` set (x # xs) \<union> fst ` set (runs w)"
    by (rule order_trans) (use e(3) in \<open>simp only: list.set image_insert, blast\<close>)
  show ?case
    by (intro conjI exI [of _ ?B] ballI) ((fact i1 filters sub i4 requests)+, rule rows, assumption)
qed simp


text \<open>
  The ids of the new runs are new and differ, and no automation has a full history of runs newer than
  the one to come.
\<close>

definition fresh_runs :: "alarm_env \<Rightarrow> cron_world \<Rightarrow> bool" where
  "fresh_runs e w \<longleftrightarrow>
     (let P = due_rows (alarm_now e) (prompts w); A = due_rows (alarm_now e) (automations w);
          pj = (\<lambda>x. prompt_jobs e (fst x)); aj = (\<lambda>x. automation_jobs e (fst x))
      in distinct (map (\<lambda>x. job_run (pj x)) P @ map (\<lambda>x. job_run (aj x)) A @ map fst (runs w)) \<and>
         (\<forall>x \<in> set P. history_room Scheduled_prompt (fst x) (due_at (pj x) (snd x), job_run (pj x)) w) \<and>
         (\<forall>x \<in> set A. history_room Deterministic_automation (fst x) (due_at (aj x) (snd x), job_run (aj x)) w))"

lemma history_room_alarm [simp]: "history_room kind a key (w\<lparr>alarm_at := t\<rparr>) = history_room kind a key w"
  by (simp add: history_room_def runs_of_def)

lemma fresh_runs_alarm [simp]: "fresh_runs e (w\<lparr>alarm_at := t\<rparr>) = fresh_runs e w"
  by (simp add: fresh_runs_def)

text \<open>The row a job left in the history, and what it asked for.\<close>

definition prompt_recorded :: "alarm_env \<Rightarrow> cron_world \<Rightarrow> string \<times> prompt_row \<Rightarrow> bool" where
  "prompt_recorded e w x =
     (case map_of (runs w) (job_run (prompt_jobs e (fst x))) of None \<Rightarrow> False
      | Some r \<Rightarrow> run_kind r = Scheduled_prompt \<and> run_automation r = fst x \<and> run_trigger r = Schedule \<and>
          run_started_at r = due_at (prompt_jobs e (fst x)) (snd x))"

definition prompt_blocked :: "alarm_env \<Rightarrow> cron_world \<Rightarrow> string \<times> prompt_row \<Rightarrow> bool" where
  "prompt_blocked e w x =
     (case map_of (runs w) (job_run (prompt_jobs e (fst x))) of None \<Rightarrow> True | Some r \<Rightarrow> run_thread r = None)"

definition automation_recorded :: "alarm_env \<Rightarrow> cron_world \<Rightarrow> string \<times> automation_row \<Rightarrow> bool" where
  "automation_recorded e w x =
     (case map_of (runs w) (job_run (automation_jobs e (fst x))) of None \<Rightarrow> False
      | Some r \<Rightarrow> run_kind r = Deterministic_automation \<and> run_automation r = fst x \<and> run_trigger r = Schedule \<and>
          run_started_at r = due_at (automation_jobs e (fst x)) (snd x))"

definition automation_blocked :: "alarm_env \<Rightarrow> cron_world \<Rightarrow> string \<times> automation_row \<Rightarrow> bool" where
  "automation_blocked e w x =
     (case map_of (runs w) (job_run (automation_jobs e (fst x))) of None \<Rightarrow> True | Some r \<Rightarrow> run_instance r = None)"

definition turns_of :: "alarm_env \<Rightarrow> cron_world \<Rightarrow> string \<times> prompt_row \<Rightarrow> turn_request list" where
  "turns_of e w x = (if prompt_blocked e w x then [] else prompt_turns (prompt_jobs e (fst x)) (snd x))"

definition workflows_of :: "alarm_env \<Rightarrow> cron_world \<Rightarrow> string \<times> automation_row \<Rightarrow> workflow_request list" where
  "workflows_of e w x =
     (if automation_blocked e w x then [] else automation_workflows (automation_jobs e (fst x)) (fst x) (snd x))"

lemma run_due_jobs_asks:
  assumes "alarm_served e" "world_ok w" "distinct (map fst (prompts w))" "distinct (map fst (automations w))"
    "fresh_runs e w"
    and v: "v = snd (run_due_jobs e limits w)"
    and P_def: "P = due_rows (alarm_now e) (prompts w)"
    and A_def: "A = due_rows (alarm_now e) (automations w)"
  shows "(\<forall>x \<in> set P. prompt_recorded e v x \<and> (no_plan_limits limits \<longrightarrow> \<not> prompt_blocked e v x)) \<and>
    (\<forall>x \<in> set A. automation_recorded e v x \<and>
       (no_plan_limits limits \<and> workflows_configured (automation_jobs e (fst x)) \<longrightarrow> \<not> automation_blocked e v x)) \<and>
    turn_requests v = turn_requests w @ concat (map (turns_of e v) P) \<and>
    workflow_requests v = workflow_requests w @ concat (map (workflows_of e v) A)"
proof -
  let ?now = "alarm_now e"
  let ?pj = "\<lambda>x. prompt_jobs e (fst x)" and ?aj = "\<lambda>x. automation_jobs e (fst x)"
  let ?w1 = "snd (run_jobs (run_due_prompt e limits) P w)"
  have jobs: "job_served ?now (prompt_jobs e i)" "job_served ?now (automation_jobs e i)" for i
    using assms(1) by (auto simp: alarm_served_def)
  have p: "schedule_ok (schedule_of (snd x))" if "x \<in> set P" for x
    using that due_rows_subset world_ok_rows(2) [OF assms(2), of "fst x" "snd x"] unfolding P_def by auto
  have a: "schedule_ok (schedule_of (snd x)) \<and> description_ok (description_of (snd x))" if "x \<in> set A" for x
    using that due_rows_subset world_ok_rows(4) [OF assms(2), of "fst x" "snd x"] unfolding A_def by auto
  have fresh: "distinct (map (\<lambda>x. job_run (?pj x)) P @ map (\<lambda>x. job_run (?aj x)) A @ map fst (runs w))"
    "\<forall>x \<in> set P. history_room Scheduled_prompt (fst x) (due_at (?pj x) (snd x), job_run (?pj x)) w"
    "\<forall>x \<in> set A. history_room Deterministic_automation (fst x) (due_at (?aj x) (snd x), job_run (?aj x)) w"
    using assms(5) by (simp_all add: fresh_runs_def P_def A_def Let_def)
  have 1: "distinct (map fst (runs ?w1)) \<and>
    filter (\<lambda>x. \<forall>k \<in> fst ` set P. other_run Scheduled_prompt k x) (runs ?w1) =
      filter (\<lambda>x. \<forall>k \<in> fst ` set P. other_run Scheduled_prompt k x) (runs w) \<and>
    fst ` set (runs ?w1) \<subseteq> (\<lambda>x. job_run (?pj x)) ` set P \<union> fst ` set (runs w) \<and>
    workflow_requests ?w1 = workflow_requests w \<and>
    (\<exists>B. turn_requests ?w1 = turn_requests w @ concat (map (\<lambda>x. if fst x \<in> B then [] else prompt_turns (?pj x) (snd x)) P) \<and>
       (\<forall>x \<in> set P. \<exists>r. (job_run (?pj x), r) \<in> set (runs ?w1) \<and> run_kind r = Scheduled_prompt \<and>
          run_automation r = fst x \<and>
          (prompt_run (?pj x) (snd x) (fst x \<in> B) r \<and> (no_plan_limits limits \<longrightarrow> \<not> fst x \<in> B))))"
    using run_due_prompt_effect [OF jobs(1) p] run_due_prompt_served(1) [OF jobs(1) p] fresh(1,2)
      due_rows_distinct [OF assms(3), of ?now]
    by (intro run_jobs_effect) (auto simp: P_def)
  have quiet: "fst (run_jobs (run_due_prompt e limits) P w) = Inr () \<and> automations ?w1 = automations w"
    using run_jobs_rows [of P "run_due_prompt e limits" automations "served ?now" prompts w]
      run_due_prompt_served [OF jobs(1) p] due_rows_distinct [OF assms(3), of ?now]
    unfolding P_def by blast
  have v2: "v = snd (run_jobs (run_due_automation e limits) A ?w1)"
    using quiet by (simp add: v run_due_jobs_def then_do_def P_def A_def)
  have "runs_of Deterministic_automation k ?w1 = runs_of Deterministic_automation k w" for k
    using 1 by (intro filter_other_history [of "fst ` set P" Scheduled_prompt]) auto
  then have room: "\<forall>x \<in> set A. history_room Deterministic_automation (fst x) (due_at (?aj x) (snd x), job_run (?aj x)) ?w1"
    using fresh(3) by (simp add: history_room_def)
  have 2: "distinct (map fst (runs v)) \<and>
    filter (\<lambda>x. \<forall>k \<in> fst ` set A. other_run Deterministic_automation k x) (runs v) =
      filter (\<lambda>x. \<forall>k \<in> fst ` set A. other_run Deterministic_automation k x) (runs ?w1) \<and>
    fst ` set (runs v) \<subseteq> (\<lambda>x. job_run (?aj x)) ` set A \<union> fst ` set (runs ?w1) \<and>
    turn_requests v = turn_requests ?w1 \<and>
    (\<exists>B. workflow_requests v = workflow_requests ?w1 @
        concat (map (\<lambda>x. if fst x \<in> B then [] else automation_workflows (?aj x) (fst x) (snd x)) A) \<and>
       (\<forall>x \<in> set A. \<exists>r. (job_run (?aj x), r) \<in> set (runs v) \<and> run_kind r = Deterministic_automation \<and>
          run_automation r = fst x \<and>
          (automation_run (?aj x) (snd x) (fst x \<in> B) r \<and>
           (no_plan_limits limits \<and> workflows_configured (?aj x) \<longrightarrow> \<not> fst x \<in> B))))"
    unfolding v2
  proof (rule run_jobs_effect)
    show "(\<lambda>x. job_run (?aj x)) ` set A \<inter> fst ` set (runs ?w1) = {}"
      using 1 fresh(1) by (auto simp del: set_map simp flip: set_map)
  qed (use run_due_automation_effect [OF jobs(2)] run_due_automation_served(1) [OF jobs(2)] a fresh(1) room 1
      due_rows_distinct [OF assms(4), of ?now] in \<open>auto simp: A_def\<close>)
  obtain B where B: "turn_requests ?w1 = turn_requests w @ concat (map (\<lambda>x. if fst x \<in> B then [] else prompt_turns (?pj x) (snd x)) P)"
     "\<forall>x \<in> set P. \<exists>r. (job_run (?pj x), r) \<in> set (runs ?w1) \<and> run_kind r = Scheduled_prompt \<and>
          run_automation r = fst x \<and>
          (prompt_run (?pj x) (snd x) (fst x \<in> B) r \<and> (no_plan_limits limits \<longrightarrow> \<not> fst x \<in> B))"
    using 1 by blast
  obtain C where C: "workflow_requests v = workflow_requests ?w1 @
        concat (map (\<lambda>x. if fst x \<in> C then [] else automation_workflows (?aj x) (fst x) (snd x)) A)"
     "\<forall>x \<in> set A. \<exists>r. (job_run (?aj x), r) \<in> set (runs v) \<and> run_kind r = Deterministic_automation \<and>
          run_automation r = fst x \<and> (automation_run (?aj x) (snd x) (fst x \<in> C) r \<and>
           (no_plan_limits limits \<and> workflows_configured (?aj x) \<longrightarrow> \<not> fst x \<in> C))"
    using 2 by blast
  have keys: "map_of (runs v) k = Some r" if "(k, r) \<in> set (runs v)" for k r
    using 2 that by (simp add: map_of_is_SomeI)
  have prompts: "prompt_recorded e v x \<and> prompt_blocked e v x = (fst x \<in> B) \<and> (no_plan_limits limits \<longrightarrow> \<not> fst x \<in> B)"
    if x: "x \<in> set P" for x
  proof -
    obtain r where r: "(job_run (?pj x), r) \<in> set (runs ?w1)" "run_kind r = Scheduled_prompt" "run_automation r = fst x"
        "prompt_run (?pj x) (snd x) (fst x \<in> B) r" "no_plan_limits limits \<longrightarrow> \<not> fst x \<in> B"
      using B(2) x by blast
    have "(job_run (?pj x), r) \<in> set (filter (\<lambda>x. \<forall>k \<in> fst ` set A. other_run Deterministic_automation k x) (runs ?w1))"
      using r(1,2) by (simp add: other_run_def)
    moreover have "filter (\<lambda>x. \<forall>k \<in> fst ` set A. other_run Deterministic_automation k x) (runs v) =
        filter (\<lambda>x. \<forall>k \<in> fst ` set A. other_run Deterministic_automation k x) (runs ?w1)" using 2 by blast
    ultimately have "(job_run (?pj x), r) \<in> set (runs v)" by (metis (no_types, lifting) filter_is_subset subsetD)
    then show ?thesis using keys r by (simp add: prompt_recorded_def prompt_blocked_def prompt_run_def)
  qed
  have automations: "automation_recorded e v x \<and> automation_blocked e v x = (fst x \<in> C) \<and>
      (no_plan_limits limits \<and> workflows_configured (?aj x) \<longrightarrow> \<not> fst x \<in> C)"
    if x: "x \<in> set A" for x
  proof -
    obtain r where r: "(job_run (?aj x), r) \<in> set (runs v)" "run_kind r = Deterministic_automation" "run_automation r = fst x"
        "automation_run (?aj x) (snd x) (fst x \<in> C) r"
        "no_plan_limits limits \<and> workflows_configured (?aj x) \<longrightarrow> \<not> fst x \<in> C"
      using C(2) x by blast
    then show ?thesis using keys by (simp add: automation_recorded_def automation_blocked_def automation_run_def)
  qed
  have mB: "map (\<lambda>x. if fst x \<in> B then [] else prompt_turns (?pj x) (snd x)) P = map (turns_of e v) P"
    using prompts by (intro map_cong) (simp_all add: turns_of_def)
  have "turn_requests v = turn_requests ?w1" using 2 by blast
  then have turns: "turn_requests v = turn_requests w @ concat (map (turns_of e v) P)" using B(1) by (simp only: mB)
  have mC: "map (\<lambda>x. if fst x \<in> C then [] else automation_workflows (?aj x) (fst x) (snd x)) A = map (workflows_of e v) A"
    using automations by (intro map_cong) (simp_all add: workflows_of_def)
  have "workflow_requests ?w1 = workflow_requests w" using 1 by blast
  then have "workflow_requests v = workflow_requests w @ concat (map (workflows_of e v) A)" using C(1) by (simp only: mC)
  then show ?thesis using turns prompts automations by simp
qed

lemma alarm_asks:
  assumes "alarm_served e" "world_ok w" "distinct (map fst (prompts w))" "distinct (map fst (automations w))"
    "hasDueScheduledWork (alarm_now e) w" "fresh_runs e w"
    "getWorkspaceBillingLimits (is_selfhost e) (org_answer e) = Inr limits"
    and v: "v = snd (alarm_fires e w)"
    and P_def: "P = due_rows (alarm_now e) (prompts w)"
    and A_def: "A = due_rows (alarm_now e) (automations w)"
  shows "(\<forall>x \<in> set P. prompt_recorded e v x \<and> (no_plan_limits limits \<longrightarrow> \<not> prompt_blocked e v x)) \<and>
    (\<forall>x \<in> set A. automation_recorded e v x \<and>
       (no_plan_limits limits \<and> workflows_configured (automation_jobs e (fst x)) \<longrightarrow> \<not> automation_blocked e v x)) \<and>
    turn_requests v = turn_requests w @ concat (map (turns_of e v) P) \<and>
    workflow_requests v = workflow_requests w @ concat (map (workflows_of e v) A)"
proof -
  let ?w = "w\<lparr>alarm_at := None\<rparr>"
  have ok: "world_ok ?w" using assms(2) by simp
  obtain ws where ws: "getStoredWorkspaceId ?w = Some ws" using ok by (auto simp: world_ok_def)
  obtain i where i: "workspace_answer e = Inr (Some i)" "\<not> info_archived i" using assms(1) by (auto simp: alarm_served_def)
  have id: "after_workspace e v = v" "after_org e v = v" for v using assms(1) by (auto simp: alarm_served_def)
  have due: "hasDueScheduledWork (alarm_now e) ?w" using assms(5) by (simp add: hasDueScheduledWork_def)
  have r: "fst (run_due_jobs e limits ?w) = Inr ()" using run_due_jobs_served(1) [OF assms(1) ok] assms(3,4) by simp
  have "alarm_fires e w = then_do (run_due_jobs e limits ?w) (\<lambda>_ w. (Inr (), scheduleNextAlarm (alarm_rearm e) w))"
    using ws due i assms(7) by (simp add: alarm_fires_def alarm_def fetch_workspace_def fetch_limits_def getWorkspaceInfo_def
        from_service_def id)
  then have v': "v = scheduleNextAlarm (alarm_rearm e) (snd (run_due_jobs e limits ?w))" using r by (simp add: v then_do_def)
  have tables: "runs (scheduleNextAlarm n u) = runs u" "turn_requests (scheduleNextAlarm n u) = turn_requests u"
    "workflow_requests (scheduleNextAlarm n u) = workflow_requests u" for n u
    by (simp_all add: scheduleNextAlarm_def Let_def)
  have same: "prompt_recorded e v = prompt_recorded e u" "prompt_blocked e v = prompt_blocked e u"
      "automation_recorded e v = automation_recorded e u" "automation_blocked e v = automation_blocked e u"
      "turns_of e v = turns_of e u" "workflows_of e v = workflows_of e u"
    if "runs v = runs u" for u
    using that by (simp_all add: fun_eq_iff prompt_recorded_def prompt_blocked_def automation_recorded_def
        automation_blocked_def turns_of_def workflows_of_def)
  note main = run_due_jobs_asks [OF assms(1) ok _ _ _ refl, of P A limits]
  show ?thesis
    unfolding same [OF trans [OF arg_cong [OF v', of runs] tables(1)]]
    using main assms(3,4,6) by (simp add: v' tables P_def A_def)
qed


definition selfhost_alarm :: alarm_env where
  "selfhost_alarm = (sample_alarm (Inr True) (\<lambda>w. w))\<lparr>is_selfhost := True\<rparr>"


end
