(* ===== verification/DiscordText.thy ===== *)
theory DiscordText
  imports TextEdit
begin

section \<open>Texts sent to Discord\<close>

text \<open>
  Model of \<open>src/workers/discord-bridge/src/gateway-protocol.ts\<close>: the answers to a closed connection, the
  delays, the payloads that open a session, thread names, nonces, and the splitting of a long message into
  chunks that close and reopen a code fence. A text is the list of its UTF-16 code units, as in \<open>TextEdit\<close>.
\<close>

subsection \<open>Closed connections and delays\<close>

datatype content_mode = Full | Mention_only

datatype close_action = Resume | Reidentify | Fatal

definition DISCORD_GATEWAY_VERSION :: int where "DISCORD_GATEWAY_VERSION = 10"

fun DISCORD_GATEWAY_INTENTS :: "content_mode \<Rightarrow> int" where
  "DISCORD_GATEWAY_INTENTS Full = 33281"
| "DISCORD_GATEWAY_INTENTS Mention_only = 513"

definition FATAL_CLOSE_CODES :: "int list" where
  "FATAL_CLOSE_CODES = [4004, 4010, 4011, 4012, 4013, 4014]"

definition REIDENTIFY_CLOSE_CODES :: "int list" where
  "REIDENTIFY_CLOSE_CODES = [4003, 4005, 4007, 4009]"

definition classifyDiscordGatewayClose :: "int \<Rightarrow> close_action" where
  "classifyDiscordGatewayClose code =
     (if code \<in> set FATAL_CLOSE_CODES then Fatal
      else if code \<in> set REIDENTIFY_CLOSE_CODES then Reidentify else Resume)"

text \<open>\<open>random\<close> is what \<open>Math.random()\<close> returns, here an exact rational.\<close>

definition discordReconnectDelayMs :: "nat \<Rightarrow> rat \<Rightarrow> int" where
  "discordReconnectDelayMs attempt random =
     (let ceiling = min 60000 (1000 * 2 ^ attempt)
      in \<lfloor>max 0 (min 1 random) * of_int ceiling\<rfloor>)"

definition discordInitialHeartbeatDelayMs :: "rat \<Rightarrow> rat \<Rightarrow> int" where
  "discordInitialHeartbeatDelayMs interval random = \<lfloor>max 0 (min 1 random) * max 0 interval\<rfloor>"

record identify_payload =
  identify_token :: string
  identify_intents :: int
  identify_shard :: "int \<times> int"

definition discordIdentifyPayload :: "string \<Rightarrow> content_mode \<Rightarrow> int \<Rightarrow> int \<Rightarrow> identify_payload" where
  "discordIdentifyPayload token mode shardId shardCount =
     \<lparr>identify_token = token, identify_intents = DISCORD_GATEWAY_INTENTS mode, identify_shard = (shardId, shardCount)\<rparr>"

record resume_payload =
  resume_token :: string
  resume_session :: string
  resume_seq :: int

definition discordResumePayload :: "string \<Rightarrow> string \<Rightarrow> int \<Rightarrow> resume_payload" where
  "discordResumePayload token sessionId sequence =
     \<lparr>resume_token = token, resume_session = sessionId, resume_seq = sequence\<rparr>"

lemma reconnect_delay_bounds:
  "0 \<le> discordReconnectDelayMs attempt random \<and> discordReconnectDelayMs attempt random \<le> 60000 \<and>
   discordReconnectDelayMs attempt random \<le> 1000 * 2 ^ attempt"
proof -
  define c :: int where "c = min 60000 (1000 * 2 ^ attempt)"
  let ?r = "max 0 (min 1 random)"
  have c: "0 \<le> c" by (simp add: c_def)
  have "?r * of_int c \<le> of_int c" using c by (intro mult_left_le_one_le) auto
  then have "\<lfloor>?r * of_int c\<rfloor> \<le> c" using floor_mono by fastforce
  moreover have "0 \<le> ?r * of_int c" using c by (intro mult_nonneg_nonneg) auto
  ultimately show ?thesis unfolding discordReconnectDelayMs_def Let_def c_def [symmetric] by (simp add: c_def)
qed

subsection \<open>Splitting a message\<close>

definition BACKTICK :: int where "BACKTICK = 96"
definition SPACE :: int where "SPACE = 32"
definition FENCE :: units where "FENCE = [BACKTICK, BACKTICK, BACKTICK]"

text \<open>
  \<open>s.lastIndexOf(pat, from)\<close>: the last position not after \<open>from\<close>, which counts as 0 when it is
  negative, or \<open>-1\<close>.
\<close>

definition js_last_index_of :: "units \<Rightarrow> units \<Rightarrow> int \<Rightarrow> int" where
  "js_last_index_of pat s from =
     (case find (\<lambda>i. take (length pat) (drop i s) = pat) (rev [0 ..< Suc (min (nat from) (length s))]) of
        None \<Rightarrow> - 1 | Some i \<Rightarrow> int i)"

text \<open>\<open>s.slice(0, n)\<close> and \<open>s.slice(n)\<close>; a negative \<open>n\<close> counts from the end.\<close>

definition slice_point :: "units \<Rightarrow> int \<Rightarrow> nat" where
  "slice_point s n = (if n < 0 then nat (int (length s) + n) else nat n)"

definition slice_to :: "units \<Rightarrow> int \<Rightarrow> units" where
  "slice_to s n = take (slice_point s n) s"

definition slice_from :: "units \<Rightarrow> int \<Rightarrow> units" where
  "slice_from s n = drop (slice_point s n) s"

text \<open>\<open>s.charCodeAt(i)\<close>, \<open>None\<close> for the \<open>NaN\<close> of a position outside the text.\<close>

definition char_code_at :: "units \<Rightarrow> int \<Rightarrow> int option" where
  "char_code_at s i = (if 0 \<le> i \<and> i < int (length s) then Some (s ! nat i) else None)"

definition is_high_surrogate :: "int \<Rightarrow> bool" where "is_high_surrogate c \<longleftrightarrow> 55296 \<le> c \<and> c \<le> 56319"
definition is_low_surrogate :: "int \<Rightarrow> bool" where "is_low_surrogate c \<longleftrightarrow> 56320 \<le> c \<and> c \<le> 57343"

text \<open>
  \<open>Math.floor(maximum * 0.55)\<close> is \<open>maximum * 55 div 100\<close> for every \<open>maximum\<close> that is not negative; for
  a negative one both are below every position the comparison meets, except that both are \<open>-1\<close> at \<open>-1\<close>.
\<close>

definition preferredDiscordSplitIndex :: "units \<Rightarrow> int \<Rightarrow> int" where
  "preferredDiscordSplitIndex s maximum =
     (if int (length s) \<le> maximum then int (length s)
      else
        let preferred = max (js_last_index_of [LF, LF] s maximum)
              (max (js_last_index_of [LF] s maximum) (js_last_index_of [SPACE] s maximum));
            index = (if maximum * 55 div 100 \<le> preferred then preferred else maximum);
            before = char_code_at s (index - 1);
            after = char_code_at s index
        in (case (before, after) of
              (Some b, Some a) \<Rightarrow> if is_high_surrogate b \<and> is_low_surrogate a then index - 1 else index
            | _ \<Rightarrow> index))"

definition not_in_info :: "int \<Rightarrow> bool" where "not_in_info c \<longleftrightarrow> c \<noteq> LF \<and> c \<noteq> BACKTICK"

text \<open>
  The second groups of the matches of \<open>/(^|\n)```([^\n`]*)/g\<close>; \<open>start\<close> tells that the scan stands at
  the start of the text.
\<close>

function fence_infos :: "bool \<Rightarrow> units \<Rightarrow> units list" where
  "fence_infos start s =
     (if start \<and> take 3 s = FENCE
      then takeWhile not_in_info (drop 3 s) # fence_infos False (dropWhile not_in_info (drop 3 s))
      else (case s of
          [] \<Rightarrow> []
        | c # t \<Rightarrow>
            if c = LF \<and> take 3 t = FENCE
            then takeWhile not_in_info (drop 3 t) # fence_infos False (dropWhile not_in_info (drop 3 t))
            else fence_infos False t))"
  by pat_completeness auto
termination
proof (relation "measure (\<lambda>(b, s). length s)")
  fix start :: bool and s :: units
  assume "start \<and> take 3 s = FENCE"
  then have "s \<noteq> []" by (auto simp: FENCE_def)
  then have "length (drop 3 s) < length s" by simp
  then show "((False, dropWhile not_in_info (drop 3 s)), start, s) \<in> measure (\<lambda>(b, s). length s)"
    using length_dropWhile_le [of not_in_info "drop 3 s"] by simp
qed (auto intro: le_less_trans [OF length_dropWhile_le])

declare fence_infos.simps [simp del]

definition units_trim :: "units \<Rightarrow> units" where
  "units_trim s = trimEnd (dropWhile is_unit_space s)"

text \<open>The code fence that is open after a piece of text: its info string.\<close>

definition toggle_fence :: "units option \<Rightarrow> units \<Rightarrow> units option" where
  "toggle_fence current info = (case current of None \<Rightarrow> Some (units_trim info) | Some _ \<Rightarrow> None)"

definition fenceState :: "units \<Rightarrow> units option \<Rightarrow> units option" where
  "fenceState s current = foldl toggle_fence current (fence_infos True s)"

definition chunk_prefix :: "units option \<Rightarrow> units" where
  "chunk_prefix openFence = (case openFence of None \<Rightarrow> [] | Some info \<Rightarrow> FENCE @ info @ [LF])"

definition chunk_suffix :: "units option \<Rightarrow> bool \<Rightarrow> units" where
  "chunk_suffix nextFence end_of_text = (if nextFence = None \<or> end_of_text then [] else LF # FENCE)"

text \<open>One pass: where the text is cut, the chunk, what remains, and the fence that is open.\<close>

definition cut_chunk :: "units \<Rightarrow> units option \<Rightarrow> int \<Rightarrow> int \<times> units \<times> units option \<times> units" where
  "cut_chunk remaining openFence bodyLimit =
     (let splitAt = preferredDiscordSplitIndex remaining bodyLimit;
          body = slice_to remaining splitAt;
          nextFence = fenceState body openFence
      in (splitAt, body, nextFence, chunk_suffix nextFence (splitAt = int (length remaining))))"

definition split_pass :: "int \<Rightarrow> units \<Rightarrow> units option \<Rightarrow> units \<times> units \<times> units option" where
  "split_pass limit remaining openFence =
     (let prefix = chunk_prefix openFence;
          bodyLimit = limit - int (length prefix);
          (splitAt, body, nextFence, suffix) = cut_chunk remaining openFence bodyLimit;
          (splitAt, body, nextFence, suffix) =
            (if limit < int (length prefix + length body + length suffix)
             then cut_chunk remaining openFence (bodyLimit - int (length suffix))
             else (splitAt, body, nextFence, suffix))
      in (prefix @ body @ suffix, slice_from remaining splitAt, nextFence))"

partial_function (option) split_loop :: "int \<Rightarrow> units \<Rightarrow> units option \<Rightarrow> units list \<Rightarrow> units list option" where
  "split_loop limit remaining openFence chunks =
     (if remaining = [] then Some chunks
      else (case split_pass limit remaining openFence of
              (chunk, rest, nextFence) \<Rightarrow> split_loop limit rest nextFence (chunks @ [chunk])))"

datatype split_error = Limit_too_small

text \<open>\<open>None\<close>: the loop never ends.\<close>

definition splitDiscordMessage :: "units \<Rightarrow> int \<Rightarrow> (split_error, units list) result option" where
  "splitDiscordMessage s limit =
     (if s = [] then Some (Inr [])
      else if limit < 16 then Some (Inl Limit_too_small)
      else map_option Inr (split_loop limit s None []))"

definition DISCORD_MESSAGE_LIMIT :: int where "DISCORD_MESSAGE_LIMIT = 2000"

subsection \<open>Thread names, nonces and the notice\<close>

text \<open>\<open>value.replace(/<@!?\d+>/g, "")\<close>: what follows a mention that starts here.\<close>

definition is_digit_unit :: "int \<Rightarrow> bool" where "is_digit_unit c \<longleftrightarrow> 48 \<le> c \<and> c \<le> 57"

definition after_mention :: "units \<Rightarrow> units option" where
  "after_mention s =
     (if take 2 s = unit_string ''<@'' then
        let t = drop 2 s;
            t = (if take 1 t = unit_string ''!'' then drop 1 t else t);
            rest = dropWhile is_digit_unit t
        in if takeWhile is_digit_unit t \<noteq> [] \<and> take 1 rest = unit_string ''>'' then Some (drop 1 rest) else None
      else None)"

lemma after_mention_shorter:
  assumes "after_mention s = Some t"
  shows "length t < length s"
proof -
  define u where "u = (if take 1 (drop 2 s) = unit_string ''!'' then drop 1 (drop 2 s) else drop 2 s)"
  have "s \<noteq> []" using assms by (auto simp: after_mention_def unit_string_def)
  then have "length (drop 2 s) < length s" by simp
  moreover have "length (if c then drop 1 v else v) \<le> length v" for c and v :: units by simp
  then have "length u \<le> length (drop 2 s)" unfolding u_def .
  moreover have "t = drop 1 (dropWhile is_digit_unit u)"
    using assms unfolding after_mention_def Let_def u_def [symmetric] by (simp split: if_split_asm)
  moreover have "length (drop 1 (dropWhile is_digit_unit u)) \<le> length u"
    using length_dropWhile_le [of is_digit_unit u] by simp
  ultimately show ?thesis by simp
qed

function remove_mentions :: "units \<Rightarrow> units" where
  "remove_mentions s =
     (case after_mention s of
        Some rest \<Rightarrow> remove_mentions rest
      | None \<Rightarrow> (case s of [] \<Rightarrow> [] | c # t \<Rightarrow> c # remove_mentions t))"
  by pat_completeness auto
termination by (relation "measure length") (auto dest: after_mention_shorter)

declare remove_mentions.simps [simp del]

text \<open>\<open>s.replace(/\s+/g, " ")\<close>\<close>

function collapse_units :: "units \<Rightarrow> units" where
  "collapse_units [] = []"
| "collapse_units (c # s) =
     (if is_unit_space c then SPACE # collapse_units (dropWhile is_unit_space s) else c # collapse_units s)"
  by pat_completeness auto
termination by (relation "measure length") (auto simp: le_imp_less_Suc length_dropWhile_le)

text \<open>\<open>Array.from(s)\<close>: the code points, a surrogate pair being one.\<close>

fun code_points :: "units \<Rightarrow> units list" where
  "code_points (a # b # s) =
     (if is_high_surrogate a \<and> is_low_surrogate b then [a, b] # code_points s else [a] # code_points (b # s))"
| "code_points [a] = [[a]]"
| "code_points [] = []"

definition normalizeDiscordThreadName :: "units \<Rightarrow> units" where
  "normalizeDiscordThreadName value =
     (let normalized = units_trim (collapse_units (remove_mentions value))
      in concat (take 100 (code_points (if normalized = [] then unit_string ''Camel request'' else normalized))))"

text \<open>\<open>btoa\<close> of a byte string, then the characters that are safe in a URL, without the padding.\<close>

definition BASE64 :: string where
  "BASE64 = ''ABCDEFGHIJKLMNOPQRSTUVWXYZabcdefghijklmnopqrstuvwxyz0123456789+/''"

fun btoa :: "nat list \<Rightarrow> string" where
  "btoa [] = []"
| "btoa [a] = [BASE64 ! (a div 4), BASE64 ! (a mod 4 * 16), CHR ''='', CHR ''='']"
| "btoa [a, b] = [BASE64 ! (a div 4), BASE64 ! (a mod 4 * 16 + b div 16), BASE64 ! (b mod 16 * 4), CHR ''='']"
| "btoa (a # b # c # rest) =
     [BASE64 ! (a div 4), BASE64 ! (a mod 4 * 16 + b div 16), BASE64 ! (b mod 16 * 4 + c div 64), BASE64 ! (c mod 64)] @ btoa rest"

definition url_char :: "char \<Rightarrow> char" where
  "url_char c = (if c = CHR ''+'' then CHR ''-'' else if c = CHR ''/'' then CHR ''_'' else c)"

text \<open>\<open>sha256\<close> is \<open>crypto.subtle.digest("SHA-256", ...)\<close> of the encoded text.\<close>

definition stableDiscordNonce :: "(string \<Rightarrow> nat list) \<Rightarrow> string \<Rightarrow> nat \<Rightarrow> string" where
  "stableDiscordNonce sha256 operationId chunkIndex =
     (let digest = sha256 (operationId @ '':'' @ show_nat chunkIndex);
          encoded = rev (dropWhile (\<lambda>c. c = CHR ''='') (rev (map url_char (btoa (take 16 digest)))))
      in ''c-'' @ encoded)"

definition DISCORD_MENTION_ONLY_NOTICE :: units where
  "DISCORD_MENTION_ONLY_NOTICE = unit_string ''Mention @Camel in every follow-up while Discord is in mention-only mode.''"

definition discordOutboundTextWithNotice :: "units option \<Rightarrow> content_mode \<Rightarrow> bool \<Rightarrow> units option \<times> bool" where
  "discordOutboundTextWithNotice s mode noticeSent =
     (if mode \<noteq> Mention_only \<or> noticeSent then (s, False)
      else (Some (if or_default [] s = [] then DISCORD_MENTION_ONLY_NOTICE
                  else the s @ [LF, LF] @ DISCORD_MENTION_ONLY_NOTICE), True))"

subsection \<open>Facts about names and nonces\<close>

lemma code_points_concat: "concat (code_points s) = s"
  by (induction s rule: code_points.induct) auto

lemma code_points_Nil [simp]: "code_points s = [] \<longleftrightarrow> s = []"
  by (induction s rule: code_points.induct) auto

lemma code_points_take: "code_points (concat (take n (code_points s))) = take n (code_points s)"
proof (induction s arbitrary: n rule: code_points.induct)
  case (1 a b s)
  show ?case
  proof (cases n)
    case (Suc m)
    show ?thesis
    proof (cases "is_high_surrogate a \<and> is_low_surrogate b")
      case True
      with 1(1) Suc show ?thesis by simp
    next
      case False
      then have IH: "code_points (concat (take m (code_points (b # s)))) = take m (code_points (b # s))" using 1(2) by blast
      show ?thesis
      proof (cases "take m (code_points (b # s))")
        case Nil
        with Suc False show ?thesis by simp
      next
        case (Cons x xs)
        obtain t where t: "concat (take m (code_points (b # s))) = b # t"
          using Cons by (cases s; cases m) (auto split: if_splits)
        have "code_points (a # b # t) = [a] # code_points (b # t)" using False by simp
        then show ?thesis using Suc False IH t by auto
      qed
    qed
  qed simp
qed (simp_all add: take_Cons')

lemma code_points_first: "s \<noteq> [] \<Longrightarrow> 0 < n \<Longrightarrow> concat (take n (code_points s)) \<noteq> []"
  by (induction s rule: code_points.induct) (auto simp: take_Cons')

lemma thread_name_length:
  "length (code_points (normalizeDiscordThreadName value)) \<le> 100 \<and> normalizeDiscordThreadName value \<noteq> []"
proof -
  let ?n = "units_trim (collapse_units (remove_mentions value))"
  let ?s = "if ?n = [] then unit_string ''Camel request'' else ?n"
  have "normalizeDiscordThreadName value = concat (take 100 (code_points ?s))"
    unfolding normalizeDiscordThreadName_def Let_def by (rule refl)
  moreover have "?s \<noteq> []" by (simp add: unit_string_def)
  ultimately show ?thesis using code_points_first [of ?s 100] by (simp add: code_points_take)
qed

lemma nonce_of_digest:
  assumes "length d = 16"
  shows "length (rev (dropWhile (\<lambda>c. c = CHR ''='') (rev (map url_char (btoa d))))) = 22"
proof -
  have b64: "length BASE64 = 64" "CHR ''='' \<notin> set BASE64" by (simp_all add: BASE64_def)
  have url: "url_char c \<noteq> CHR ''=''" if "c \<noteq> CHR ''=''" for c using that by (simp add: url_char_def)
  have alpha: "url_char (BASE64 ! k) \<noteq> CHR ''=''" if "k < 64" for k
    by (rule url) (metis b64 nth_mem that)
  obtain a1 a2 a3 a4 a5 a6 a7 a8 a9 a10 a11 a12 a13 a14 a15 a16 where
    l: "d = [a1, a2, a3, a4, a5, a6, a7, a8, a9, a10, a11, a12, a13, a14, a15, a16]"
    using assms by (auto simp: length_Suc_conv numeral_eq_Suc)
  have "url_char (BASE64 ! (a16 mod 4 * 16)) \<noteq> CHR ''=''" by (rule alpha) (use mod_less_divisor [of 4 a16] in linarith)
  moreover have "url_char (CHR ''='') = CHR ''=''" by (simp add: url_char_def)
  ultimately show ?thesis by (simp add: l)
qed

lemma stable_nonce_length:
  "16 \<le> length (sha256 (operationId @ '':'' @ show_nat i)) \<Longrightarrow> length (stableDiscordNonce sha256 operationId i) = 24"
  unfolding stableDiscordNonce_def Let_def length_append
  by (subst nonce_of_digest) simp_all

end
