(* ===== verification/DiscordTextSafety.thy ===== *)
theory DiscordTextSafety
  imports DiscordText
begin

section \<open>Splitting a message: what the chunks are and when the loop ends\<close>

text \<open>
  When no run of a message without a line end or backtick is too long for a reopened fence, splitting ends,
  every chunk fits the limit, nothing is lost and every chunk but the last closes the fences it opens. With
  a longer run the loop may never end.
\<close>

subsection \<open>Cutting\<close>

lemma slice_append [simp]: "slice_to s n @ slice_from s n = s"
  by (simp add: slice_to_def slice_from_def)

lemma find_SomeD: "find P xs = Some x \<Longrightarrow> x \<in> set xs \<and> P x"
  by (metis find_Some_iff nth_mem)

lemma last_index_match:
  "js_last_index_of pat s from = int i \<Longrightarrow> take (length pat) (drop i s) = pat"
  unfolding js_last_index_of_def by (split option.split_asm) (auto dest: find_SomeD simp del: upt_Suc)

lemma last_index_range: "- 1 \<le> js_last_index_of pat s from \<and> js_last_index_of pat s from \<le> max 0 from"
  unfolding js_last_index_of_def by (split option.split) (auto dest!: find_SomeD simp del: upt_Suc)

text \<open>A pos of at least two units takes at least one and stays inside.\<close>

lemma preferred_range:
  assumes "2 \<le> n" "s \<noteq> []"
  shows "1 \<le> preferredDiscordSplitIndex s n" "preferredDiscordSplitIndex s n \<le> min n (int (length s))"
proof -
  define p where "p = max (js_last_index_of [LF, LF] s n) (max (js_last_index_of [LF] s n) (js_last_index_of [SPACE] s n))"
  define ix where "ix = (if n * 55 div 100 \<le> p then p else n)"
  have p: "p \<le> n"
    using last_index_range [of "[LF, LF]" s n] last_index_range [of "[LF]" s n] last_index_range [of "[SPACE]" s n] assms(1)
    by (simp add: p_def)
  have ge: "1 \<le> ix" and le: "ix \<le> n" using assms(1) p by (auto simp: ix_def)
  have no_low: "\<not> is_low_surrogate a" if one: "ix = 1" and a: "char_code_at s ix = Some a" for a
  proof -
    have "p = 1" using one assms(1) by (auto simp: ix_def split: if_splits)
    then obtain pat where pat: "pat \<in> {[LF, LF], [LF], [SPACE]}" "js_last_index_of pat s n = int 1"
      unfolding p_def by (auto simp: max_def split: if_splits)
    then have "take (length pat) (drop 1 s) = pat" by (intro last_index_match)
    moreover have "1 < length s" "a = s ! 1" using a one by (auto simp: char_code_at_def split: if_splits)
    ultimately have "a = hd pat" using pat(1) by (cases s; cases "tl s") (auto simp: take_Suc)
    then show ?thesis using pat(1) by (auto simp: is_low_surrogate_def LF_def SPACE_def)
  qed
  have eq: "preferredDiscordSplitIndex s n = (if int (length s) \<le> n then int (length s) else
      (case (char_code_at s (ix - 1), char_code_at s ix) of
         (Some b, Some a) \<Rightarrow> if is_high_surrogate b \<and> is_low_surrogate a then ix - 1 else ix | _ \<Rightarrow> ix))"
    unfolding preferredDiscordSplitIndex_def Let_def p_def [symmetric] ix_def [symmetric] by (rule refl)
  show "1 \<le> preferredDiscordSplitIndex s n" "preferredDiscordSplitIndex s n \<le> min n (int (length s))"
    unfolding eq using assms(2) ge le no_low
    by (auto split: option.splits simp: Suc_le_eq) (smt (verit) length_greater_0_conv of_nat_0_less_iff)+
qed

lemma slice_length:
  "0 \<le> n \<Longrightarrow> n \<le> int (length s) \<Longrightarrow> length (slice_to s n) = nat n \<and> slice_to s n = take (nat n) s \<and> slice_from s n = drop (nat n) s"
  by (auto simp: slice_to_def slice_from_def slice_point_def)

lemma suffix_length: "length (chunk_suffix f e) \<le> 4"
  by (simp add: chunk_suffix_def FENCE_def)

lemma cut_chunk_step:
  assumes "2 \<le> n" "s \<noteq> []" "cut_chunk s f n = (pos, body, nf, suffix)"
  obtains k where "pos = int k" "1 \<le> k" "k \<le> length s" "int k \<le> n" "body = take k s" "slice_from s pos = drop k s"
    "nf = fenceState body f" "suffix = chunk_suffix nf (drop k s = [])"
proof -
  let ?p = "preferredDiscordSplitIndex s n"
  have eqs: "pos = ?p" "body = slice_to s ?p" "nf = fenceState body f" "suffix = chunk_suffix nf (?p = int (length s))"
    using assms(3) by (auto simp: cut_chunk_def Let_def)
  note r = preferred_range [OF assms(1,2)]
  have "(drop (nat ?p) s = []) = (?p = int (length s))" using r by auto
  moreover have "nat ?p \<le> length s" using r by linarith
  ultimately show thesis using r eqs slice_length [of ?p s] by (intro that [of "nat ?p"]) simp_all
qed

text \<open>One pass makes progress and its chunk fits when the fence's info string leaves ten units of room.\<close>

lemma split_pass_step:
  assumes "s \<noteq> []" "int (length (chunk_prefix f)) + 6 \<le> limit" "split_pass limit s f = (c, rest, g)"
  obtains k where "1 \<le> k" "k \<le> length s" "rest = drop k s" "g = fenceState (take k s) f"
    "c = chunk_prefix f @ take k s @ chunk_suffix g (rest = [])" "int (length c) \<le> limit"
proof -
  let ?p = "chunk_prefix f" and ?n = "limit - int (length (chunk_prefix f))"
  obtain a1 b1 g1 x1 where c1: "cut_chunk s f ?n = (a1, b1, g1, x1)" by (metis prod_cases4)
  obtain a2 b2 g2 x2 where c2: "cut_chunk s f (?n - int (length x1)) = (a2, b2, g2, x2)" by (metis prod_cases4)
  obtain k1 where k1: "a1 = int k1" "1 \<le> k1" "k1 \<le> length s" "int k1 \<le> ?n" "b1 = take k1 s"
      "slice_from s a1 = drop k1 s" "g1 = fenceState b1 f" "x1 = chunk_suffix g1 (drop k1 s = [])"
    using cut_chunk_step [OF _ assms(1) c1] assms(2) by auto
  have x1: "length x1 \<le> 4" using k1(8) suffix_length by simp
  obtain k2 where k2: "a2 = int k2" "1 \<le> k2" "k2 \<le> length s" "int k2 \<le> ?n - int (length x1)" "b2 = take k2 s"
      "slice_from s a2 = drop k2 s" "g2 = fenceState b2 f" "x2 = chunk_suffix g2 (drop k2 s = [])"
    using cut_chunk_step [OF _ assms(1) c2] assms(2) x1 by auto
  show thesis
  proof (cases "limit < int (length ?p + length b1 + length x1)")
    case False
    then have r: "c = ?p @ b1 @ x1" "rest = drop k1 s" "g = g1"
      using assms(3) c1 k1(6) by (auto simp: split_pass_def Let_def)
    show thesis by (rule that [of k1]) (use k1 r False in auto)
  next
    case True
    then have r: "c = ?p @ b2 @ x2" "rest = drop k2 s" "g = g2"
      using assms(3) c1 c2 k2(6) by (auto simp: split_pass_def Let_def)
    have "x1 \<noteq> []" using True k1 by auto
    then have "length x1 = 4" using k1(8) by (auto simp: chunk_suffix_def FENCE_def split: if_splits)
    moreover have "length x2 \<le> 4" using k2(8) suffix_length by simp
    ultimately have "int (length c) \<le> limit" using k2(3,4,5) r(1) by simp
    then show thesis by (intro that [of k2]) (use k2 r in auto)
  qed
qed

subsection \<open>Fences\<close>

lemma fence_infos_Nil [simp]: "fence_infos b [] = []"
  by (subst fence_infos.simps) (simp add: FENCE_def)

lemma fence_infos_Cons:
  "\<not> (b \<and> take 3 (c # t) = FENCE) \<Longrightarrow> fence_infos b (c # t) =
     (if c = LF \<and> take 3 t = FENCE
      then takeWhile not_in_info (drop 3 t) # fence_infos False (dropWhile not_in_info (drop 3 t)) else fence_infos False t)"
  by (rule trans [OF fence_infos.simps]) (simp only: if_False list.case)

lemma FENCE_simps: "take 3 (FENCE @ t) = FENCE" "drop 3 (FENCE @ t) = t" "length FENCE = 3"
  by (simp_all add: FENCE_def)

lemma fence_infos_start:
  "fence_infos True (FENCE @ t) = takeWhile not_in_info t # fence_infos False (dropWhile not_in_info t)"
  by (rule trans [OF fence_infos.simps]) (simp add: FENCE_simps)

lemma take3_FENCE: "take 3 s = FENCE \<longleftrightarrow> (\<exists>t. s = FENCE @ t)"
  by (metis FENCE_simps(1) append_take_drop_id)

lemma fence_infos_line: "fence_infos False (LF # s) = fence_infos True s"
proof (cases "take 3 s = FENCE")
  case True
  then obtain t where t: "s = FENCE @ t" by (auto simp: take3_FENCE)
  show ?thesis unfolding t fence_infos_start by (subst fence_infos_Cons) (simp_all add: FENCE_simps)
next
  case False
  then have "fence_infos True s = fence_infos False s" by (subst (1 2) fence_infos.simps) simp
  with False show ?thesis by (subst fence_infos_Cons) simp_all
qed

lemma not_in_info_LF [simp]: "\<not> not_in_info LF" by (simp add: not_in_info_def)

lemma info_chars: "\<forall>c \<in> set info. not_in_info c \<Longrightarrow> takeWhile not_in_info (info @ LF # s) = info"
    "\<forall>c \<in> set info. not_in_info c \<Longrightarrow> dropWhile not_in_info (info @ LF # s) = LF # s"
  by (simp_all add: takeWhile_append2 dropWhile_append2)

lemma fence_infos_prefix:
  "\<forall>c \<in> set info. not_in_info c \<Longrightarrow> fence_infos True (FENCE @ info @ LF # s) = info # fence_infos True s"
  by (simp add: fence_infos_start info_chars fence_infos_line)

lemma fence_infos_suffix: "fence_infos b (s @ LF # FENCE) = fence_infos b s @ [[]]"
proof (induction b s rule: fence_infos.induct)
  case (1 b s)
  let ?e = "LF # FENCE"
  have tw: "takeWhile not_in_info (t @ ?e) = takeWhile not_in_info t" "dropWhile not_in_info (t @ ?e) = dropWhile not_in_info t @ ?e" for t
    by (induction t) (auto simp: not_in_info_def)
  have three: "take 3 (t @ ?e) = FENCE \<longleftrightarrow> take 3 t = FENCE" for t
    by (cases t rule: list.exhaust; cases "tl t"; cases "tl (tl t)") (auto simp: FENCE_def LF_def BACKTICK_def)
  show ?case
  proof (cases "b \<and> take 3 s = FENCE")
    case True
    then obtain t where t: "s = FENCE @ t" by (auto simp: take3_FENCE)
    with True "1.IH"(1) have "fence_infos False (dropWhile not_in_info t @ ?e) = fence_infos False (dropWhile not_in_info t) @ [[]]"
      by (simp add: FENCE_simps)
    with True t show ?thesis using fence_infos_start [of "t @ ?e"] fence_infos_start [of t] by (simp add: tw)
  next
    case start: False
    show ?thesis
    proof (cases s)
      case Nil
      have "take 3 (LF # FENCE) \<noteq> FENCE" by (simp add: FENCE_def LF_def BACKTICK_def)
      with Nil show ?thesis using fence_infos_Cons [of b LF FENCE] FENCE_simps(1,2) [of "[]"] by simp
    next
      case (Cons c t)
      have ns: "\<not> (b \<and> take 3 (c # t @ ?e) = FENCE)" using start three [of "c # t"] Cons by simp
      show ?thesis
      proof (cases "c = LF \<and> take 3 t = FENCE")
        case True
        then obtain u where u: "t = FENCE @ u" by (auto simp: take3_FENCE)
        have "fence_infos False (dropWhile not_in_info u @ ?e) = fence_infos False (dropWhile not_in_info u) @ [[]]"
          using "1.IH"(2) [OF start Cons True] u by (simp add: FENCE_def)
        moreover have "fence_infos b (s @ ?e) = takeWhile not_in_info (u @ ?e) # fence_infos False (dropWhile not_in_info (u @ ?e))"
          using fence_infos_Cons [of b c "t @ ?e"] ns True u Cons three [of t] by (simp add: FENCE_simps)
        moreover have "fence_infos b s = takeWhile not_in_info u # fence_infos False (dropWhile not_in_info u)"
          using fence_infos_Cons [of b c t] start True u Cons by (simp add: FENCE_simps)
        ultimately show ?thesis by (simp add: tw)
      next
        case False
        have "fence_infos b (s @ ?e) = fence_infos False (t @ ?e)" "fence_infos b s = fence_infos False t"
          using fence_infos_Cons [of b c "t @ ?e"] fence_infos_Cons [of b c t] ns start False Cons three [of t] by auto
        with "1.IH"(3) [OF start Cons False] show ?thesis by simp
      qed
    qed
  qed
qed

lemma infos_chars: "info \<in> set (fence_infos b s) \<Longrightarrow> \<forall>c \<in> set info. not_in_info c"
proof (induction b s rule: fence_infos.induct)
  case (1 b s)
  show ?case
  proof (cases "b \<and> take 3 s = FENCE")
    case True
    then have "fence_infos b s = takeWhile not_in_info (drop 3 s) # fence_infos False (dropWhile not_in_info (drop 3 s))"
      by (subst fence_infos.simps) simp
    with 1 True show ?thesis by (auto dest: set_takeWhileD)
  next
    case start: False
    show ?thesis
    proof (cases s)
      case Nil
      with 1 show ?thesis by simp
    next
      case (Cons c t)
      have "fence_infos b s = (if c = LF \<and> take 3 t = FENCE
          then takeWhile not_in_info (drop 3 t) # fence_infos False (dropWhile not_in_info (drop 3 t)) else fence_infos False t)"
        using start Cons by (simp add: fence_infos_Cons)
      with 1 start Cons show ?thesis by (auto dest: set_takeWhileD split: if_splits)
    qed
  qed
qed

text \<open>Lengths of runs without a line end or backtick.\<close>

definition short_runs :: "nat \<Rightarrow> units \<Rightarrow> bool" where
  "short_runs n s \<longleftrightarrow> list_all (\<lambda>i. length (takeWhile not_in_info (drop i s)) \<le> n) [0 ..< length s]"

lemma short_runsD: "short_runs n s \<Longrightarrow> length (takeWhile not_in_info (drop i s)) \<le> n"
  by (cases "i < length s") (auto simp: short_runs_def list_all_iff)

lemma short_runsI: "(\<And>i. length (takeWhile not_in_info (drop i s)) \<le> n) \<Longrightarrow> short_runs n s"
  by (simp add: short_runs_def list_all_iff)

lemma takeWhile_take_length: "length (takeWhile P (take k s)) \<le> length (takeWhile P s)"
  by (induction s arbitrary: k) (auto simp: take_Cons' split: if_splits)

lemma short_runs_parts: "short_runs n s \<Longrightarrow> short_runs n (drop k s)" "short_runs n s \<Longrightarrow> short_runs n (take k s)"
  by (auto intro!: short_runsI order_trans [OF takeWhile_take_length] dest: short_runsD simp: drop_take)

lemma info_short: "info \<in> set (fence_infos b s) \<Longrightarrow> short_runs n s \<Longrightarrow> length info \<le> n"
proof (induction b s rule: fence_infos.induct)
  case (1 b s)
  have tl: "short_runs n (dropWhile not_in_info (drop k s))" for k
    using 1(5) by (simp add: dropWhile_eq_drop short_runs_parts)
  show ?case
  proof (cases "b \<and> take 3 s = FENCE")
    case True
    then have "fence_infos b s = takeWhile not_in_info (drop 3 s) # fence_infos False (dropWhile not_in_info (drop 3 s))"
      by (subst fence_infos.simps) simp
    with 1(1,4) True tl [of 3] short_runsD [OF 1(5), of 3] show ?thesis by auto
  next
    case start: False
    show ?thesis
    proof (cases s)
      case Nil
      with 1 show ?thesis by simp
    next
      case (Cons c t)
      have t: "short_runs n t" using short_runs_parts(1) [OF 1(5), of 1] Cons by simp
      have "fence_infos b s = (if c = LF \<and> take 3 t = FENCE
          then takeWhile not_in_info (drop 3 t) # fence_infos False (dropWhile not_in_info (drop 3 t)) else fence_infos False t)"
        using start Cons by (simp add: fence_infos_Cons)
      with 1(2,3,4) start Cons tl [of 4] t short_runsD [OF t, of 3] show ?thesis by (auto split: if_splits)
    qed
  qed
qed

text \<open>The info string of an open fence, as the loop keeps it.\<close>

definition fence_ok :: "nat \<Rightarrow> units option \<Rightarrow> bool" where
  "fence_ok n f \<longleftrightarrow> (\<forall>info \<in> set_option f. length info \<le> n \<and> (\<forall>c \<in> set info. not_in_info c))"

lemma units_trim_parts: "set (units_trim s) \<subseteq> set s" "length (units_trim s) \<le> length s"
proof -
  have "set (units_trim s) \<subseteq> set (dropWhile is_unit_space s)"
    using set_dropWhileD by (fastforce simp: units_trim_def trimEnd_def)
  then show "set (units_trim s) \<subseteq> set s" by (auto dest: set_dropWhileD)
  have "length (units_trim s) \<le> length (dropWhile is_unit_space s)"
    using length_dropWhile_le [of is_unit_space "rev (dropWhile is_unit_space s)"] by (simp add: units_trim_def trimEnd_def)
  then show "length (units_trim s) \<le> length s" using length_dropWhile_le le_trans by blast
qed

lemma fence_ok_state:
  assumes "short_runs n s" "fence_ok n f"
  shows "fence_ok n (fenceState s f)"
proof -
  have "fence_ok n (foldl toggle_fence f infos)" if "\<forall>i \<in> set infos. length i \<le> n \<and> (\<forall>c \<in> set i. not_in_info c)" "fence_ok n f" for infos
    using that
  proof (induction infos arbitrary: f)
    case (Cons i infos)
    have "fence_ok n (toggle_fence f i)" using Cons.prems units_trim_parts [of i]
      by (cases f) (auto simp: fence_ok_def toggle_fence_def intro: order_trans)
    with Cons show ?case by simp
  qed simp
  then show ?thesis using assms info_short infos_chars unfolding fenceState_def by blast
qed

subsection \<open>What the chunks are\<close>

text \<open>The chunks of a text cut into \<open>bodies\<close>: each reopens the fence it starts in and closes the one it ends in.\<close>

fun wrapped :: "units option \<Rightarrow> units list \<Rightarrow> units list" where
  "wrapped f [] = []"
| "wrapped f (b # bs) = (chunk_prefix f @ b @ chunk_suffix (fenceState b f) (bs = [])) # wrapped (fenceState b f) bs"

lemma split_loop_returns:
  assumes "short_runs n s" "fence_ok n f" "int n + 10 \<le> limit"
  shows "\<exists>bodies. split_loop limit s f cs = Some (cs @ wrapped f bodies) \<and> concat bodies = s \<and> [] \<notin> set bodies \<and>
    (\<forall>c \<in> set (wrapped f bodies). int (length c) \<le> limit)"
  using assms(1,2)
proof (induction "length s" arbitrary: s f cs rule: less_induct)
  case less
  show ?case
  proof (cases "s = []")
    case True
    then show ?thesis by (subst split_loop.simps) (rule exI [of _ "[]"], simp)
  next
    case False
    obtain c rest g where pass: "split_pass limit s f = (c, rest, g)" by (metis prod_cases3)
    have "int (length (chunk_prefix f)) + 6 \<le> limit"
      using less.prems(2) assms(3) by (auto simp: chunk_prefix_def fence_ok_def FENCE_def split: option.splits)
    from split_pass_step [OF False this pass] obtain k where k: "1 \<le> k" "k \<le> length s" "rest = drop k s"
        "g = fenceState (take k s) f" "c = chunk_prefix f @ take k s @ chunk_suffix g (rest = [])" "int (length c) \<le> limit" .
    have "length rest < length s" "short_runs n rest" "fence_ok n g"
      using k less.prems short_runs_parts fence_ok_state by auto
    from less.hyps [OF this, of "cs @ [c]"] obtain bodies where b:
      "split_loop limit rest g (cs @ [c]) = Some ((cs @ [c]) @ wrapped g bodies)" "concat bodies = rest" "[] \<notin> set bodies"
      "\<forall>c \<in> set (wrapped g bodies). int (length c) \<le> limit" by blast
    have "rest = [] \<longleftrightarrow> bodies = []" using b(2,3) by (cases bodies) auto
    then have w: "wrapped f (take k s # bodies) = c # wrapped g bodies" using k(4,5) by simp
    have "split_loop limit s f cs = Some (cs @ wrapped f (take k s # bodies))"
      using b(1) False pass unfolding w by (subst split_loop.simps) simp
    then show ?thesis
      using b k w False by (intro exI [of _ "take k s # bodies"]) auto
  qed
qed

lemma fence_open_iff: "(f = None \<longleftrightarrow> g = None) \<Longrightarrow> (foldl toggle_fence f xs = None \<longleftrightarrow> foldl toggle_fence g xs = None)"
proof (induction xs arbitrary: f g)
  case (Cons x xs)
  have "toggle_fence f x = None \<longleftrightarrow> toggle_fence g x = None"
    using Cons.prems by (cases f; cases g) (simp_all add: toggle_fence_def)
  then show ?case using Cons.IH [of "toggle_fence f x" "toggle_fence g x"] by simp
qed simp

lemma chunk_balanced:
  assumes "fence_ok n f"
  shows "fenceState (chunk_prefix f @ b @ chunk_suffix (fenceState b f) False) None = None"
proof -
  have pre: "fenceState (chunk_prefix f @ t) None = None \<longleftrightarrow> fenceState t f = None" for t
  proof (cases f)
    case None
    then show ?thesis by (simp add: chunk_prefix_def)
  next
    case (Some info)
    have "\<forall>c \<in> set info. not_in_info c" using assms Some by (simp add: fence_ok_def)
    then have "fenceState (chunk_prefix f @ t) None = foldl toggle_fence (Some (units_trim info)) (fence_infos True t)"
      using Some by (simp add: fenceState_def chunk_prefix_def fence_infos_prefix toggle_fence_def)
    then show ?thesis using Some fence_open_iff by (metis fenceState_def option.distinct(1))
  qed
  show ?thesis
  proof (cases "fenceState b f")
    case None
    then show ?thesis by (simp add: pre chunk_suffix_def)
  next
    case (Some g)
    then show ?thesis
      by (simp add: pre chunk_suffix_def) (simp add: fenceState_def fence_infos_suffix toggle_fence_def)
  qed
qed

lemma wrapped_balanced:
  assumes "fence_ok n f" "\<forall>b \<in> set bodies. short_runs n b" "c \<in> set (butlast (wrapped f bodies))"
  shows "fenceState c None = None"
  using assms
proof (induction bodies arbitrary: f)
  case (Cons b bs)
  show ?case
  proof (cases bs)
    case (Cons b' bs')
    with Cons.prems(3) have "c = chunk_prefix f @ b @ chunk_suffix (fenceState b f) False \<or> c \<in> set (butlast (wrapped (fenceState b f) bs))"
      by auto
    then show ?thesis
      using Cons.IH [of "fenceState b f"] Cons.prems fence_ok_state [of n b f] chunk_balanced [OF Cons.prems(1)] by auto
  qed (use Cons.prems in simp)
qed simp

lemma short_runs_append:
  assumes "short_runs n (a @ b)"
  shows "short_runs n a" "short_runs n b"
  using short_runs_parts(2) [OF assms, of "length a"] short_runs_parts(1) [OF assms, of "length a"] by simp_all

lemma short_runs_concat: "short_runs n (concat bs) \<Longrightarrow> \<forall>b \<in> set bs. short_runs n b"
  by (induction bs) (auto dest: short_runs_append)

lemma message_chunks:
  assumes "s \<noteq> []" "16 \<le> limit" "short_runs n s" "int n + 10 \<le> limit"
  shows "\<exists>bodies. splitDiscordMessage s limit = Some (Inr (wrapped None bodies)) \<and> concat bodies = s \<and> [] \<notin> set bodies \<and>
    (\<forall>c \<in> set (wrapped None bodies). int (length c) \<le> limit) \<and>
    (\<forall>c \<in> set (butlast (wrapped None bodies)). fenceState c None = None)"
proof -
  have f: "fence_ok n None" by (simp add: fence_ok_def)
  from split_loop_returns [OF assms(3) f assms(4), of "[]"] obtain bodies where b:
    "split_loop limit s None [] = Some (wrapped None bodies)" "concat bodies = s" "[] \<notin> set bodies"
    "\<forall>c \<in> set (wrapped None bodies). int (length c) \<le> limit" by auto
  have "\<forall>b \<in> set bodies. short_runs n b" using short_runs_concat assms(3) b(2) by blast
  then show ?thesis using b assms(1,2) wrapped_balanced [OF f]
    by (intro exI [of _ bodies]) (auto simp: splitDiscordMessage_def)
qed

subsection \<open>A message that is split forever\<close>

lemma split_stuck:
  assumes "split_loop limit s f cs = Some r"
  shows "s = [] \<or> (\<forall>c. split_pass limit s f \<noteq> (c, s, f))"
proof (rule split_loop.raw_induct [OF _ assms, where P = "\<lambda>limit s f cs r. s = [] \<or> (\<forall>c. split_pass limit s f \<noteq> (c, s, f))"])
  fix loop limit s f cs r
  assume IH: "\<And>limit s f cs r. loop limit s f cs = Some r \<Longrightarrow> s = [] \<or> (\<forall>c. split_pass limit s f \<noteq> (c, s, f))"
    and step: "(if s = [] then Some cs else case split_pass limit s f of (c, rest, g) \<Rightarrow> loop limit rest g (cs @ [c])) = Some r"
  show "s = [] \<or> (\<forall>c. split_pass limit s f \<noteq> (c, s, f))" using IH [of limit s f] step by fastforce
qed

lemma no_last_index:
  "(\<And>i. i \<le> nat from \<Longrightarrow> take (length pat) (drop i s) \<noteq> pat) \<Longrightarrow> js_last_index_of pat s from = - 1"
  by (auto simp: js_last_index_of_def find_None_iff simp del: upt_Suc split: option.split dest!: find_SomeD)

lemma no_last_index_unit: "c \<notin> set s \<Longrightarrow> js_last_index_of (c # pat) s from = - 1"
proof (rule no_last_index)
  fix i assume "c \<notin> set s"
  then have "c \<notin> set (take (length (c # pat)) (drop i s))" by (meson in_set_dropD in_set_takeD)
  then show "take (length (c # pat)) (drop i s) \<noteq> c # pat" by (metis list.set_intros(1))
qed

lemma last_index_first: "c \<notin> set t \<Longrightarrow> js_last_index_of [c] (c # t) from = 0"
proof -
  assume c: "c \<notin> set t"
  let ?P = "\<lambda>i. take (length [c]) (drop i (c # t)) = [c]"
  have P: "?P i \<longleftrightarrow> i = 0" for i
  proof (cases i)
    case (Suc j)
    have "take 1 (drop j t) \<noteq> [c]" using c by (metis in_set_dropD in_set_takeD list.set_intros(1))
    with Suc show ?thesis by simp
  qed simp
  have "find ?P (rev [0 ..< Suc (min (nat from) (length (c # t)))]) = Some 0"
  proof (cases "find ?P (rev [0 ..< Suc (min (nat from) (length (c # t)))])")
    case None
    then have "\<not> ?P 0" unfolding find_None_iff by (auto simp del: upt_Suc)
    then show ?thesis by simp
  next
    case (Some i)
    then have "?P i" by (blast dest: find_SomeD)
    then show ?thesis using Some by (simp only: P)
  qed
  then show ?thesis unfolding js_last_index_of_def by simp
qed

text \<open>A line end, the start of a code fence and a long run of one letter.\<close>

definition endless_text :: "nat \<Rightarrow> units" where
  "endless_text n = LF # FENCE @ replicate n 97"

lemma letters: "LF \<notin> set (replicate n 97)" "SPACE \<notin> set (replicate n 97)" "BACKTICK \<notin> set (replicate n 97)"
  by (auto simp: LF_def SPACE_def BACKTICK_def)

lemma endless_indices:
  "js_last_index_of [LF, LF] (endless_text n) from = - 1" "js_last_index_of [LF] (endless_text n) from = 0"
  "js_last_index_of [SPACE] (endless_text n) from = - 1"
proof -
  have no: "LF \<notin> set (FENCE @ replicate n 97)" by (auto simp: LF_def FENCE_def BACKTICK_def)
  show "js_last_index_of [LF] (endless_text n) from = 0" unfolding endless_text_def by (rule last_index_first [OF no])
  show "js_last_index_of [SPACE] (endless_text n) from = - 1"
    by (rule no_last_index_unit) (auto simp: endless_text_def LF_def FENCE_def BACKTICK_def SPACE_def)
  show "js_last_index_of [LF, LF] (endless_text n) from = - 1"
  proof (rule no_last_index)
    fix i
    show "take (length [LF, LF]) (drop i (endless_text n)) \<noteq> [LF, LF]"
    proof (cases i)
      case 0
      then show ?thesis by (simp add: endless_text_def FENCE_def LF_def BACKTICK_def)
    next
      case (Suc j)
      then have "drop i (endless_text n) = drop j (FENCE @ replicate n 97)" by (simp add: endless_text_def)
      then show ?thesis using no by (metis in_set_dropD in_set_takeD list.set_intros(1))
    qed
  qed
qed

lemma letters_indices:
  "js_last_index_of [LF, LF] (replicate n 97) from = - 1" "js_last_index_of [LF] (replicate n 97) from = - 1"
  "js_last_index_of [SPACE] (replicate n 97) from = - 1"
  by (rule no_last_index_unit, simp add: LF_def SPACE_def)+

lemma letter_surrogate: "\<not> is_low_surrogate 97" "\<not> is_high_surrogate 97" "\<not> is_high_surrogate LF" "\<not> is_high_surrogate BACKTICK"
  by (simp_all add: is_low_surrogate_def is_high_surrogate_def LF_def BACKTICK_def)

lemma endless_split: "4 \<le> m \<Longrightarrow> m < int n + 4 \<Longrightarrow> preferredDiscordSplitIndex (endless_text n) m = m"
proof -
  assume m: "4 \<le> m" "m < int n + 4"
  have "char_code_at (endless_text n) m = Some 97"
    using m by (auto simp: char_code_at_def endless_text_def FENCE_def nth_Cons' nth_append)
  moreover have "length (endless_text n) = n + 4" by (simp add: endless_text_def FENCE_def)
  moreover have "\<not> m * 55 div 100 \<le> 0" using m by simp
  ultimately show ?thesis
    using m by (simp add: preferredDiscordSplitIndex_def endless_indices letter_surrogate Let_def split: option.split)
qed

lemma letters_split: "0 \<le> m \<Longrightarrow> m < int n \<Longrightarrow> preferredDiscordSplitIndex (replicate n 97) m = m"
  by (auto simp: preferredDiscordSplitIndex_def letters_indices letter_surrogate Let_def char_code_at_def split: option.split)

lemma letters_trim: "units_trim (replicate n 97) = replicate n 97"
proof -
  have "dropWhile is_unit_space (replicate n 97) = replicate n 97" by (cases n) (simp_all add: is_unit_space_def)
  then show ?thesis by (simp add: units_trim_def trimEnd_def)
qed

lemma endless_fence: "fenceState (endless_text n) None = Some (replicate n 97)"
proof -
  have a: "not_in_info 97" by (simp add: not_in_info_def LF_def BACKTICK_def)
  have "fence_infos True (endless_text n) = [replicate n 97]"
    using fence_infos_Cons [of True LF "FENCE @ replicate n 97"] a
    by (simp add: endless_text_def FENCE_def LF_def BACKTICK_def)
  then show ?thesis by (simp add: fenceState_def toggle_fence_def letters_trim)
qed

lemma letters_fence: "fenceState (replicate n 97) f = f"
proof -
  have "fence_infos b (replicate n 97) = []" for b
  proof (induction n arbitrary: b)
    case (Suc n)
    have "fence_infos b (97 # replicate n 97) = fence_infos False (replicate n 97)"
      by (subst fence_infos_Cons) (auto simp: FENCE_def BACKTICK_def LF_def)
    with Suc show ?case by simp
  qed simp
  then show ?thesis by (simp add: fenceState_def)
qed

lemma endless_take: "slice_to (endless_text n) (int (m + 4)) = endless_text (min m n)"
    "slice_from (endless_text n) (int (m + 4)) = replicate (n - m) 97"
  by (simp_all add: slice_to_def slice_from_def slice_point_def endless_text_def FENCE_def nat_add_distrib eval_nat_numeral)

lemma letters_take: "slice_to (replicate n 97) (int m) = replicate (min m n) 97"
    "slice_from (replicate n 97) (int m) = replicate (n - m) 97"
  by (simp_all add: slice_to_def slice_from_def slice_point_def)

lemma endless_cut:
  "m < n \<Longrightarrow> cut_chunk (endless_text n) None (int (m + 4)) = (int (m + 4), endless_text m, Some (replicate m 97), LF # FENCE)"
  using endless_split [of "int (m + 4)" n] endless_take [of n m] endless_fence [of m]
  by (simp add: cut_chunk_def Let_def chunk_suffix_def min_def) (simp add: endless_text_def FENCE_def)

lemma letters_cut:
  "m < n \<Longrightarrow> cut_chunk (replicate n 97) (Some i) (int m) = (int m, replicate m 97, Some i, LF # FENCE)"
  using letters_split [of "int m" n] letters_take [of n m] letters_fence [of m "Some i"]
  by (simp add: cut_chunk_def Let_def chunk_suffix_def min_def)

lemma endless_pass:
  assumes "8 \<le> k" "k + 8 \<le> n"
  shows "split_pass (int (k + 8)) (endless_text n) None = (endless_text k @ LF # FENCE, replicate (n - k) 97, Some (replicate k 97))"
proof -
  have a: "cut_chunk (endless_text n) None (int k + 8) = (int k + 8, endless_text (k + 4), Some (replicate (k + 4) 97), LF # FENCE)"
    using endless_cut [of "k + 4" n] assms by (simp add: add.commute)
  have b: "cut_chunk (endless_text n) None (int k + 4) = (int k + 4, endless_text k, Some (replicate k 97), LF # FENCE)"
    using endless_cut [of k n] assms by (simp add: add.commute)
  have l: "length (endless_text (k + 4)) = k + 8" "length (LF # FENCE) = 4" by (simp_all add: endless_text_def FENCE_def)
  have "slice_from (endless_text n) (int k + 4) = replicate (n - k) 97" "slice_from (endless_text n) (4 + int k) = replicate (n - k) 97"
    using endless_take(2) [of n k] by (simp_all add: add.commute)
  then show ?thesis by (simp add: split_pass_def chunk_prefix_def a b b [unfolded add.commute [of "int k" 4]] l Let_def FENCE_def)
qed

lemma letters_pass:
  assumes "4 < n"
  shows "split_pass (int (k + 8)) (replicate n 97) (Some (replicate k 97)) =
    (chunk_prefix (Some (replicate k 97)) @ LF # FENCE, replicate n 97, Some (replicate k 97))"
proof -
  let ?f = "Some (replicate k 97)"
  have p: "length (chunk_prefix ?f) = k + 4" by (simp add: chunk_prefix_def FENCE_def)
  have a: "cut_chunk (replicate n 97) ?f 4 = (4, replicate 4 97, ?f, LF # FENCE)"
    using letters_cut [of 4 n] assms by simp
  have b: "cut_chunk (replicate n 97) ?f 0 = (0, [], ?f, LF # FENCE)"
    using letters_cut [of 0 n] assms by simp
  have "slice_from (replicate n 97) 0 = replicate n 97" by (simp add: slice_from_def slice_point_def)
  then show ?thesis by (simp add: split_pass_def p a b FENCE_def)
qed

lemma endless_message:
  assumes "16 \<le> limit" "limit \<le> int n"
  shows "splitDiscordMessage (endless_text n) limit = None"
proof -
  define k where "k = nat limit - 8"
  have k: "limit = int (k + 8)" "8 \<le> k" "k + 8 \<le> n" using assms by (auto simp: k_def)
  have r: "replicate (n - k) 97 \<noteq> []" "4 < n - k" using k by auto
  have stuck: "split_loop limit (replicate (n - k) 97) (Some (replicate k 97)) cs = None" for cs
    using split_stuck [of limit "replicate (n - k) 97" "Some (replicate k 97)" cs] letters_pass [OF r(2), of k] r(1) k(1)
    by (cases "split_loop limit (replicate (n - k) 97) (Some (replicate k 97)) cs") auto
  have ne: "endless_text n \<noteq> []" by (simp add: endless_text_def)
  have "split_loop limit (endless_text n) None [] = None"
    using endless_pass [OF k(2,3)] by (subst split_loop.simps) (simp add: ne stuck k(1) [symmetric] del: of_nat_add)
  then show ?thesis using assms(1) ne by (simp add: splitDiscordMessage_def)
qed

subsection \<open>Properties\<close>

definition sample_message :: units where
  "sample_message = unit_string ''Here it is:'' @ [LF] @ FENCE @ unit_string ''py'' @ [LF] @ unit_string ''print(1)'' @ [LF] @
     unit_string ''print(2)'' @ [LF] @ FENCE @ [LF] @ unit_string ''Run it twice.''"

lemma sample_short: "short_runs 13 sample_message" "sample_message \<noteq> []"
  by code_simp+

text \<open>
  C38: Splitting a message ends, with chunks that are none longer than the limit, when no run of the message
  without a line end or backtick is longer than the limit less ten.
\<close>

theorem split_fits_limit:
  assumes "s \<noteq> []" "16 \<le> limit" "short_runs n s" "int n + 10 \<le> limit"
  shows "\<exists>chunks. splitDiscordMessage s limit = Some (Inr chunks) \<and> (\<forall>c \<in> set chunks. int (length c) \<le> limit)"
  using message_chunks [OF assms] by blast

lemma split_fits_limit_witness:
  "\<exists>chunks. splitDiscordMessage sample_message 24 = Some (Inr chunks) \<and> (\<forall>c \<in> set chunks. int (length c) \<le> 24)"
  using split_fits_limit [OF sample_short(2) _ sample_short(1), of 24] by simp





end
