(* ===== verification/DiscordGateway.thy ===== *)
theory DiscordGateway
  imports DiscordText
begin

section \<open>The connection to Discord\<close>

text \<open>
  Model of \<open>src/workers/discord-bridge/src/discord-gateway-do.ts\<close>: the Durable Object that holds one
  WebSocket to Discord's gateway, with its stored session, health and alarm, its timers, and the chain of
  dispatches it forwards to the control object; and of \<open>bridge-health.ts\<close> and the flags of
  \<open>types.ts\<close>. A handler is a function of the state; one that awaits is cut at the await. The SHA-256
  digest, JSON parsing, the clock and random numbers are arguments.
\<close>

subsection \<open>Configuration\<close>

record bridge_config =
  bot_token :: string
  application_id :: string
  content_mode_setting :: "string option"
  ingress_setting :: "string option"
  outbound_setting :: "string option"

definition discordContentMode :: "bridge_config \<Rightarrow> content_mode" where
  "discordContentMode c =
     (if map_option (\<lambda>s. js_lower (js_trim s)) (content_mode_setting c) = Some ''mention_only'' then Mention_only else Full)"

definition envFlag :: "string option \<Rightarrow> bool \<Rightarrow> bool" where
  "envFlag value d =
     (case value of None \<Rightarrow> d
      | Some s \<Rightarrow> js_lower (js_trim s) \<notin> set [''0'', ''false'', ''off'', ''no''])"

fun mode_text :: "content_mode \<Rightarrow> string" where
  "mode_text Full = ''full''"
| "mode_text Mention_only = ''mention_only''"

definition WATCHDOG_INTERVAL_MS :: int where "WATCHDOG_INTERVAL_MS = 60000"
definition SEQUENCE_PERSIST_INTERVAL_MS :: int where "SEQUENCE_PERSIST_INTERVAL_MS = 5000"
definition SEQUENCE_PERSIST_DISPATCH_COUNT :: nat where "SEQUENCE_PERSIST_DISPATCH_COUNT = 100"
definition GATEWAY_CONFIGURATION_FINGERPRINT_VERSION :: string where
  "GATEWAY_CONFIGURATION_FINGERPRINT_VERSION = ''v1''"

definition CONFIGURATION_RECOVERABLE_FATAL_REASONS :: "string list" where
  "CONFIGURATION_RECOVERABLE_FATAL_REASONS =
     [''missing_configuration'', ''application_identity_mismatch'', ''gateway_close_4004'', ''gateway_close_4013'', ''gateway_close_4014'']"

definition hex_digit :: "nat \<Rightarrow> char" where "hex_digit k = ''0123456789abcdef'' ! k"

definition hex_byte :: "nat \<Rightarrow> string" where "hex_byte b = [hex_digit (b div 16), hex_digit (b mod 16)]"

text \<open>\<open>sha256\<close> is the digest of a text's UTF-8 bytes.\<close>

definition configurationFingerprint :: "(string \<Rightarrow> nat list) \<Rightarrow> bridge_config \<Rightarrow> string" where
  "configurationFingerprint sha256 c =
     concat (map hex_byte (sha256 (join [CHR 0x00]
       [GATEWAY_CONFIGURATION_FINGERPRINT_VERSION, application_id c, bot_token c, mode_text (discordContentMode c)])))"

subsection \<open>State\<close>

datatype gateway_state = Idle | Connecting | Ready_state | Resumed_state | Reconnecting | Fatal_state

record gateway_health =
  health_state :: gateway_state
  readyAt :: "int option"
  resumedAt :: "int option"
  health_interval :: "rat option"
  lastHeartbeatAt :: "int option"
  lastHeartbeatAckAt :: "int option"
  lastSequence :: "int option"
  reconnectCount :: nat
  lastCloseCode :: "int option"
  sessionStartsRemaining :: "int option"
  sessionStartsResetAt :: "int option"
  maxConcurrency :: "int option"
  recommendedShardCount :: "int option"
  health_mode :: content_mode
  fatalReason :: "string option"

definition initialHealth :: "bridge_config \<Rightarrow> gateway_health" where
  "initialHealth c =
     \<lparr>health_state = Idle, readyAt = None, resumedAt = None, health_interval = None, lastHeartbeatAt = None,
      lastHeartbeatAckAt = None, lastSequence = None, reconnectCount = 0, lastCloseCode = None,
      sessionStartsRemaining = None, sessionStartsResetAt = None, maxConcurrency = None,
      recommendedShardCount = None, health_mode = discordContentMode c, fatalReason = None\<rparr>"

record gateway_session =
  session_id :: string
  resume_url :: string
  session_sequence :: int
  session_updated :: int

record bot_metadata =
  metadata_url :: string
  metadata_shards :: int
  starts_remaining :: int
  starts_reset_after :: int
  starts_concurrency :: int

text \<open>
  A frame from Discord. \<open>data_present\<close> tells that \<open>d\<close> is neither null nor undefined; the other fields
  are what the code reads of it, \<open>hello_interval\<close> being \<open>Number(d?.heartbeat_interval)\<close> when that is finite.
  A frame that parses to null, on which the listener throws, is not modelled.
\<close>

record envelope =
  envelope_op :: int
  envelope_s :: "int option"
  envelope_t :: "string option"
  data_present :: bool
  data_true :: bool
  hello_interval :: "rat option"
  ready_session :: "string option"
  ready_url :: "string option"
  ready_user :: "string option"
  envelope_body :: string

datatype incoming = Binary_message | Unparsable | Parsed envelope

datatype outgoing = Heartbeat "int option" | Identify identify_payload | Resume_session resume_payload

datatype ready_status = Socket_connecting | Socket_open | Socket_closing | Socket_closed

text \<open>A link of the chain of dispatches; \<open>in_control\<close> once the control object has been called.\<close>

record dispatch_task =
  task_generation :: nat
  task_envelope :: envelope
  in_control :: bool

text \<open>Who waits for a connection, and how far the connection in progress is.\<close>

datatype connect_caller = From_request | From_alarm | From_timer
datatype connect_phase = Awaiting_metadata | Awaiting_alarm

text \<open>
  The object's storage, its fields, and what it has done to others: the frames sent and the close codes,
  with the socket, and the dispatches the control object has handled. A socket is known by the generation
  it was opened in.
\<close>

record gateway =
  stored_health :: "gateway_health option"
  stored_session :: "gateway_session option"
  stored_fingerprint :: "string option"
  watchdog :: "int option"
  socket :: "nat option"
  sockets :: "nat \<Rightarrow> ready_status"
  socketGeneration :: nat
  heartbeatTimer :: "(nat \<times> int) option"
  reconnectTimer :: "int option"
  heartbeatIntervalMs :: rat
  heartbeatAwaitingAck :: bool
  reconnectAttempt :: nat
  gateway_sequence :: "int option"
  processedSequence :: "int option"
  lastSequencePersistAt :: int
  dispatchesSinceSequencePersist :: nat
  dispatchChain :: "dispatch_task list"
  dispatchForwardingFailed :: bool
  nextReconnectDelayMs :: "int option"
  connectInFlight :: "connect_phase option"
  callers :: "connect_caller list"
  healthState :: gateway_health
  frames_sent :: "(nat \<times> outgoing) list"
  closes_sent :: "(nat \<times> int) list"
  control_log :: "envelope list"
  bot_identity :: "string option"

text \<open>
  The constructor, on what is stored when the object is created or recreated. The code counts generations
  from 0 again; a generation is only compared with those the same object gave its sockets and tasks, and none
  of these survive, so the model counts on, which keeps the sockets apart.
\<close>

definition gateway_created :: "bridge_config \<Rightarrow> int \<Rightarrow> gateway \<Rightarrow> gateway" where
  "gateway_created c now g =
     (let s = map_option session_sequence (stored_session g) in
      g\<lparr>watchdog := Some (now + WATCHDOG_INTERVAL_MS), socket := None, sockets := (\<lambda>k. Socket_closed),
        socketGeneration := socketGeneration g + 1, heartbeatTimer := None,
        reconnectTimer := None, heartbeatIntervalMs := 0, heartbeatAwaitingAck := False, reconnectAttempt := 0,
        gateway_sequence := s, processedSequence := s, lastSequencePersistAt := 0, dispatchesSinceSequencePersist := 0,
        dispatchChain := [], dispatchForwardingFailed := False, nextReconnectDelayMs := None, connectInFlight := None,
        callers := [], healthState := or_default (initialHealth c) (stored_health g)\<rparr>)"

subsection \<open>Storage, sending and timers\<close>

definition persistHealth :: "gateway \<Rightarrow> gateway" where
  "persistHealth g =
     (let h = (healthState g)\<lparr>lastSequence := gateway_sequence g\<rparr> in g\<lparr>healthState := h, stored_health := Some h\<rparr>)"

definition set_health :: "(gateway_health \<Rightarrow> gateway_health) \<Rightarrow> gateway \<Rightarrow> gateway" where
  "set_health f g = g\<lparr>healthState := f (healthState g)\<rparr>"

definition clearSession :: "gateway \<Rightarrow> gateway" where
  "clearSession g = g\<lparr>stored_session := None, gateway_sequence := None, processedSequence := None\<rparr>"

text \<open>\<open>this.socket?.close(code)\<close>\<close>

definition close_socket :: "int \<Rightarrow> gateway \<Rightarrow> gateway" where
  "close_socket code g =
     (case socket g of None \<Rightarrow> g
      | Some k \<Rightarrow> g\<lparr>sockets := (sockets g)(k := (if sockets g k = Socket_closed then Socket_closed else Socket_closing)),
                    closes_sent := closes_sent g @ [(k, code)]\<rparr>)"

definition gateway_send :: "outgoing \<Rightarrow> nat \<Rightarrow> gateway \<Rightarrow> gateway" where
  "gateway_send f n g =
     (case socket g of None \<Rightarrow> g
      | Some k \<Rightarrow> if n \<noteq> socketGeneration g \<or> sockets g k \<noteq> Socket_open then g
                  else g\<lparr>frames_sent := frames_sent g @ [(k, f)]\<rparr>)"

definition clearTimers :: "gateway \<Rightarrow> gateway" where
  "clearTimers g = g\<lparr>heartbeatTimer := None, reconnectTimer := None\<rparr>"

definition persistProcessedSequence :: "int \<Rightarrow> bool \<Rightarrow> int \<Rightarrow> gateway \<Rightarrow> gateway" where
  "persistProcessedSequence seq force now g0 =
     (let g = g0\<lparr>processedSequence := Some seq\<rparr> in
      case stored_session g of None \<Rightarrow> g
      | Some session \<Rightarrow>
          if \<not> force \<and> now - lastSequencePersistAt g < SEQUENCE_PERSIST_INTERVAL_MS \<and>
             dispatchesSinceSequencePersist g < SEQUENCE_PERSIST_DISPATCH_COUNT
          then g
          else g\<lparr>stored_session := Some (session\<lparr>session_sequence := seq, session_updated := now\<rparr>),
                 lastSequencePersistAt := now, dispatchesSinceSequencePersist := 0\<rparr>)"

definition fatal :: "string \<Rightarrow> gateway \<Rightarrow> gateway" where
  "fatal reason g = persistHealth (set_health (\<lambda>h. h\<lparr>health_state := Fatal_state, fatalReason := Some reason\<rparr>) g)"

definition refreshConfigurationIdentity :: "string \<Rightarrow> bridge_config \<Rightarrow> gateway \<Rightarrow> gateway" where
  "refreshConfigurationIdentity fingerprint c g0 =
     (let previous = stored_fingerprint g0;
          g = set_health (\<lambda>h. h\<lparr>health_mode := discordContentMode c\<rparr>) (g0\<lparr>stored_fingerprint := Some fingerprint\<rparr>);
          shouldReset = (case previous of
              None \<Rightarrow> health_state (healthState g) = Fatal_state \<and>
                or_default [] (fatalReason (healthState g)) \<in> set CONFIGURATION_RECOVERABLE_FATAL_REASONS
            | Some p \<Rightarrow> p \<noteq> fingerprint)
      in if \<not> shouldReset then persistHealth g
         else
           let closed = (close_socket 1000 (clearTimers g))\<lparr>socket := None, socketGeneration := socketGeneration g + 1\<rparr>
           in persistHealth (set_health (\<lambda>h. h\<lparr>health_state := Idle, fatalReason := None\<rparr>)
                ((clearSession closed)\<lparr>heartbeatAwaitingAck := False\<rparr>)))"

text \<open>\<open>setTimeout(..., Math.max(1, delay))\<close>\<close>

definition scheduleHeartbeat :: "nat \<Rightarrow> rat \<Rightarrow> int \<Rightarrow> gateway \<Rightarrow> gateway" where
  "scheduleHeartbeat n delay now g = g\<lparr>heartbeatTimer := Some (n, now + \<lfloor>max 1 delay\<rfloor>)\<rparr>"

definition heartbeat_fires :: "int \<Rightarrow> gateway \<Rightarrow> gateway" where
  "heartbeat_fires now g0 =
     (case heartbeatTimer g0 of None \<Rightarrow> g0
      | Some (n, due) \<Rightarrow>
          let g = g0\<lparr>heartbeatTimer := None\<rparr> in
          if n \<noteq> socketGeneration g then g
          else if heartbeatAwaitingAck g then close_socket 4000 g
          else
            scheduleHeartbeat n (heartbeatIntervalMs g) now
              (gateway_send (Heartbeat (gateway_sequence g)) n
                (persistHealth (set_health (\<lambda>h. h\<lparr>lastHeartbeatAt := Some now\<rparr>) (g\<lparr>heartbeatAwaitingAck := True\<rparr>)))))"

definition scheduleReconnect :: "int option \<Rightarrow> rat \<Rightarrow> int \<Rightarrow> gateway \<Rightarrow> gateway" where
  "scheduleReconnect explicitDelay random now g =
     (if health_state (healthState g) = Fatal_state \<or> reconnectTimer g \<noteq> None then g
      else
        let delay = (case explicitDelay of Some d \<Rightarrow> d | None \<Rightarrow> discordReconnectDelayMs (reconnectAttempt g) random);
            attempt = (case explicitDelay of Some d \<Rightarrow> reconnectAttempt g | None \<Rightarrow> reconnectAttempt g + 1)
        in g\<lparr>reconnectAttempt := attempt, reconnectTimer := Some (now + delay), watchdog := Some (now + max delay 1000)\<rparr>)"

subsection \<open>Opening the connection\<close>

definition authenticate :: "bridge_config \<Rightarrow> nat \<Rightarrow> int \<Rightarrow> gateway \<Rightarrow> gateway" where
  "authenticate c n now g =
     (case stored_session g of
        Some s \<Rightarrow> gateway_send (Resume_session (discordResumePayload (bot_token c) (session_id s) (session_sequence s))) n g
      | None \<Rightarrow>
          (case sessionStartsRemaining (healthState g) of
             Some r \<Rightarrow>
               if r \<le> 0 \<and> now < or_default 0 (sessionStartsResetAt (healthState g))
               then close_socket 1000 (fatal ''session_start_limit'' g)
               else persistHealth (set_health (\<lambda>h. h\<lparr>sessionStartsRemaining := Some (max 0 (r - 1))\<rparr>)
                      (gateway_send (Identify (discordIdentifyPayload (bot_token c) (discordContentMode c) 0 1)) n g))
           | None \<Rightarrow> gateway_send (Identify (discordIdentifyPayload (bot_token c) (discordContentMode c) 0 1)) n g))"

text \<open>The microtask that authenticates runs before any other event.\<close>

definition onHello :: "bridge_config \<Rightarrow> envelope \<Rightarrow> nat \<Rightarrow> rat \<Rightarrow> int \<Rightarrow> gateway \<Rightarrow> gateway" where
  "onHello c e n random now g =
     (case hello_interval e of
        None \<Rightarrow> close_socket 4002 g
      | Some interval \<Rightarrow>
          if interval \<le> 0 then close_socket 4002 g
          else
            authenticate c n now
              (scheduleHeartbeat n (of_int (discordInitialHeartbeatDelayMs interval random)) now
                (persistHealth (set_health (\<lambda>h. h\<lparr>health_interval := Some interval\<rparr>) (g\<lparr>heartbeatIntervalMs := interval\<rparr>)))))"

text \<open>The caller of \<open>ensureConnected\<close> goes on, or gets its error.\<close>

fun caller_returns :: "int \<Rightarrow> connect_caller \<Rightarrow> gateway \<Rightarrow> gateway" where
  "caller_returns now From_alarm g = g\<lparr>watchdog := Some (now + WATCHDOG_INTERVAL_MS)\<rparr>"
| "caller_returns now From_request g = g"
| "caller_returns now From_timer g = g"

fun caller_fails :: "rat \<Rightarrow> int \<Rightarrow> connect_caller \<Rightarrow> gateway \<Rightarrow> gateway" where
  "caller_fails random now From_timer g = scheduleReconnect None random now g"
| "caller_fails random now From_request g = g"
| "caller_fails random now From_alarm g = g"

definition all_return :: "int \<Rightarrow> gateway \<Rightarrow> gateway" where
  "all_return now g = foldl (\<lambda>g k. caller_returns now k g) (g\<lparr>connectInFlight := None, callers := []\<rparr>) (callers g)"

definition all_fail :: "rat \<Rightarrow> int \<Rightarrow> gateway \<Rightarrow> gateway" where
  "all_fail random now g = foldl (\<lambda>g k. caller_fails random now k g) (g\<lparr>connectInFlight := None, callers := []\<rparr>) (callers g)"

text \<open>\<open>openGatewayConnection\<close> up to its first await.\<close>

definition openGatewayConnection :: "bridge_config \<Rightarrow> int \<Rightarrow> connect_caller \<Rightarrow> gateway \<Rightarrow> gateway" where
  "openGatewayConnection c now k g0 =
     (let h = healthState g0;
          configured = (bot_token c \<noteq> [] \<and> application_id c \<noteq> []);
          limit_over = (fatalReason h = Some ''session_start_limit'' \<and>
             or_default 0 (sessionStartsResetAt h) \<noteq> 0 \<and> or_default 0 (sessionStartsResetAt h) \<le> now);
          configured_now = (fatalReason h = Some ''missing_configuration'' \<and> configured)
      in if health_state h = Fatal_state \<and> \<not> limit_over \<and> \<not> configured_now then caller_returns now k g0
         else
           let g = (if health_state h = Fatal_state
                    then set_health (\<lambda>h. h\<lparr>health_state := Idle, fatalReason := None\<rparr>) g0 else g0)
           in if \<not> configured then caller_returns now k (fatal ''missing_configuration'' g)
              else g\<lparr>connectInFlight := Some Awaiting_metadata, callers := [k]\<rparr>)"

text \<open>After the digest is computed, up to the next await.\<close>

definition ensureConnected :: "string \<Rightarrow> bridge_config \<Rightarrow> int \<Rightarrow> connect_caller \<Rightarrow> gateway \<Rightarrow> gateway" where
  "ensureConnected fingerprint c now k g0 =
     (let g = refreshConfigurationIdentity fingerprint c g0;
          usable = (case socket g of None \<Rightarrow> False | Some n \<Rightarrow> sockets g n = Socket_open \<or> sockets g n = Socket_connecting)
      in if usable then caller_returns now k g
         else if health_state (healthState g) = Reconnecting \<and> reconnectTimer g \<noteq> None then caller_returns now k g
         else if connectInFlight g \<noteq> None then g\<lparr>callers := callers g @ [k]\<rparr>
         else openGatewayConnection c now k g)"

text \<open>
  The metadata arrives; \<open>url_ok\<close> tells whether \<open>new URL\<close> accepts a text. Then the alarm is set, which
  completes the connection.
\<close>

definition metadata_arrives ::
    "(string \<Rightarrow> bool) \<Rightarrow> bot_metadata option \<Rightarrow> rat \<Rightarrow> int \<Rightarrow> gateway \<Rightarrow> gateway" where
  "metadata_arrives url_ok metadata random now g0 =
     (case metadata of
        None \<Rightarrow> all_fail random now g0
      | Some m \<Rightarrow>
          let g1 = set_health (\<lambda>h. h\<lparr>sessionStartsRemaining := Some (starts_remaining m),
                     sessionStartsResetAt := Some (now + starts_reset_after m), maxConcurrency := Some (starts_concurrency m),
                     recommendedShardCount := Some (metadata_shards m)\<rparr>) g0
          in if 1 < metadata_shards m then all_return now (fatal ''sharding_required'' g1)
             else
               let g2 = persistHealth (set_health (\<lambda>h. h\<lparr>lastHeartbeatAt := None, lastHeartbeatAckAt := None,
                          health_state := Connecting\<rparr>) (g1\<lparr>heartbeatAwaitingAck := False\<rparr>));
                   stored = or_default [] (map_option resume_url (stored_session g2));
                   url = (if stored = [] then metadata_url m else stored);
                   n = socketGeneration g2 + 1
               in if \<not> url_ok url then all_fail random now g2
                  else g2\<lparr>socketGeneration := n, dispatchForwardingFailed := False, socket := Some n,
                          sockets := (sockets g2)(n := Socket_connecting), connectInFlight := Some Awaiting_alarm\<rparr>)"

definition connection_opened :: "int \<Rightarrow> gateway \<Rightarrow> gateway" where
  "connection_opened now g = all_return now (g\<lparr>watchdog := Some (now + WATCHDOG_INTERVAL_MS)\<rparr>)"

subsection \<open>Dispatches\<close>

definition FORWARDED_DISPATCHES :: "string list" where
  "FORWARDED_DISPATCHES = [''MESSAGE_CREATE'', ''GUILD_CREATE'', ''GUILD_DELETE'', ''CHANNEL_DELETE'', ''THREAD_DELETE'']"

definition forwarded :: "envelope \<Rightarrow> bool" where
  "forwarded e \<longleftrightarrow> or_default [] (envelope_t e) \<in> set FORWARDED_DISPATCHES"

text \<open>The first link of a generation's chain.\<close>

definition chain_head :: "nat \<Rightarrow> gateway \<Rightarrow> dispatch_task option" where
  "chain_head n g = find (\<lambda>t. task_generation t = n) (dispatchChain g)"

fun update_first :: "('a \<Rightarrow> bool) \<Rightarrow> ('a \<Rightarrow> 'a option) \<Rightarrow> 'a list \<Rightarrow> 'a list" where
  "update_first P f [] = []"
| "update_first P f (x # xs) = (if P x then (case f x of None \<Rightarrow> xs | Some y \<Rightarrow> y # xs) else x # update_first P f xs)"

definition end_task :: "nat \<Rightarrow> gateway \<Rightarrow> gateway" where
  "end_task n g = g\<lparr>dispatchChain := update_first (\<lambda>t. task_generation t = n) (\<lambda>t. None) (dispatchChain g)\<rparr>"

definition call_control :: "nat \<Rightarrow> gateway \<Rightarrow> gateway" where
  "call_control n g =
     g\<lparr>dispatchChain := update_first (\<lambda>t. task_generation t = n) (\<lambda>t. Some (t\<lparr>in_control := True\<rparr>)) (dispatchChain g)\<rparr>"

text \<open>The chain's handler of an error.\<close>

definition dispatch_failed_close :: "nat \<Rightarrow> gateway \<Rightarrow> gateway" where
  "dispatch_failed_close n g = end_task n (close_socket 4000 (g\<lparr>dispatchForwardingFailed := True\<rparr>))"

text \<open>The end of \<open>onDispatch\<close>: the sequence is processed.\<close>

definition dispatch_processed :: "envelope \<Rightarrow> nat \<Rightarrow> int \<Rightarrow> gateway \<Rightarrow> gateway" where
  "dispatch_processed e n now g =
     (if n \<noteq> socketGeneration g then g
      else (case envelope_s e of None \<Rightarrow> g
            | Some s \<Rightarrow> persistProcessedSequence s False now
                (g\<lparr>dispatchesSinceSequencePersist := dispatchesSinceSequencePersist g + 1\<rparr>)))"

text \<open>A link starts: \<open>onDispatch\<close> up to its await, if it has one.\<close>

definition dispatch_starts :: "bridge_config \<Rightarrow> nat \<Rightarrow> int \<Rightarrow> gateway \<Rightarrow> gateway" where
  "dispatch_starts c n now g =
     (case chain_head n g of None \<Rightarrow> g
      | Some t \<Rightarrow>
          let e = task_envelope t; text = or_default [] (envelope_t e) in
          if in_control t then g
          else if n \<noteq> socketGeneration g \<or> dispatchForwardingFailed g then end_task n g
          else if text = ''READY'' then
            (if \<not> data_present e then dispatch_failed_close n g
             else if or_default [] (ready_session e) = [] \<or> or_default [] (ready_url e) = [] \<or>
                     or_default [] (ready_user e) = [] \<or> gateway_sequence g = None
             then end_task n (close_socket 4002 g)
             else if or_default [] (ready_user e) \<noteq> application_id c
             then end_task n (close_socket 4004 (fatal ''application_identity_mismatch'' g))
             else call_control n g)
          else if text = ''RESUMED'' then
            end_task n (persistHealth ((set_health (\<lambda>h. h\<lparr>health_state := Resumed_state, resumedAt := Some now, fatalReason := None\<rparr>)
               (case envelope_s e of None \<Rightarrow> g | Some s \<Rightarrow> persistProcessedSequence s True now g))\<lparr>reconnectAttempt := 0\<rparr>))
          else if forwarded e then call_control n g
          else end_task n (dispatch_processed e n now g))"

text \<open>
  The control object has answered; \<open>handled\<close> tells whether it has handled the dispatch, which a lost
  answer leaves open. Discord numbers every READY; without a number, and with the sequence cleared by a
  reset meanwhile, the code would store null where the model stores 0.
\<close>

definition ready_accepted :: "envelope \<Rightarrow> nat \<Rightarrow> int \<Rightarrow> gateway \<Rightarrow> gateway" where
  "ready_accepted e n now g =
     (if n \<noteq> socketGeneration g then g
      else
        let s = or_default (or_default 0 (gateway_sequence g)) (envelope_s e) in
        persistHealth ((set_health (\<lambda>h. h\<lparr>health_state := Ready_state, readyAt := Some now, fatalReason := None\<rparr>) g)
          \<lparr>stored_session := Some \<lparr>session_id = or_default [] (ready_session e), resume_url = or_default [] (ready_url e),
              session_sequence = s, session_updated = now\<rparr>,
           processedSequence := Some s, lastSequencePersistAt := now, dispatchesSinceSequencePersist := 0,
           reconnectAttempt := 0\<rparr>))"

definition dispatch_answered :: "bool \<Rightarrow> bool \<Rightarrow> nat \<Rightarrow> int \<Rightarrow> gateway \<Rightarrow> gateway" where
  "dispatch_answered handled ok n now g0 =
     (case chain_head n g0 of None \<Rightarrow> g0
      | Some t \<Rightarrow>
          if \<not> in_control t then g0
          else
            let e = task_envelope t; ready = (or_default [] (envelope_t e) = ''READY'');
                g = (if \<not> handled \<and> \<not> ok then g0
                     else if ready then g0\<lparr>bot_identity := ready_user e\<rparr> else g0\<lparr>control_log := control_log g0 @ [e]\<rparr>)
            in if \<not> ok then dispatch_failed_close n g
               else if ready then end_task n (ready_accepted e n now g)
               else end_task n (dispatch_processed e n now g))"

subsection \<open>Events of the socket\<close>

definition acknowledged :: "int \<Rightarrow> gateway \<Rightarrow> gateway" where
  "acknowledged now g =
     persistHealth (set_health (\<lambda>h. h\<lparr>lastHeartbeatAckAt := Some now\<rparr>) (g\<lparr>heartbeatAwaitingAck := False\<rparr>))"

definition heartbeat_requested :: "nat \<Rightarrow> int \<Rightarrow> gateway \<Rightarrow> gateway" where
  "heartbeat_requested n now g =
     persistHealth (set_health (\<lambda>h. h\<lparr>lastHeartbeatAt := Some now\<rparr>)
       (gateway_send (Heartbeat (gateway_sequence g)) n (g\<lparr>heartbeatAwaitingAck := True\<rparr>)))"

definition session_invalid :: "bool \<Rightarrow> rat \<Rightarrow> gateway \<Rightarrow> gateway" where
  "session_invalid resumable random g0 =
     (let g = (if resumable then g0 else clearSession g0)
      in close_socket (if resumable then 4000 else 4007) (g\<lparr>nextReconnectDelayMs := Some (1000 + \<lfloor>random * 4000\<rfloor>)\<rparr>))"

definition handleMessage :: "bridge_config \<Rightarrow> incoming \<Rightarrow> nat \<Rightarrow> rat \<Rightarrow> int \<Rightarrow> gateway \<Rightarrow> gateway" where
  "handleMessage c m n random now g0 =
     (if n \<noteq> socketGeneration g0 then g0
      else (case m of
          Binary_message \<Rightarrow> g0
        | Unparsable \<Rightarrow> close_socket 4002 g0
        | Parsed e \<Rightarrow>
            let g = (case envelope_s e of None \<Rightarrow> g0 | Some s \<Rightarrow> g0\<lparr>gateway_sequence := Some s\<rparr>); op = envelope_op e
            in if op = 10 then onHello c e n random now g
               else if op = 11 then acknowledged now g
               else if op = 1 then heartbeat_requested n now g
               else if op = 7 then close_socket 4000 g
               else if op = 9 then session_invalid (data_true e) random g
               else if op = 0 then
                 g\<lparr>dispatchChain := dispatchChain g @ [\<lparr>task_generation = n, task_envelope = e, in_control = False\<rparr>]\<rparr>
               else g))"

definition handleClose :: "int \<Rightarrow> nat \<Rightarrow> rat \<Rightarrow> int \<Rightarrow> gateway \<Rightarrow> gateway" where
  "handleClose code n random now g0 =
     (if n \<noteq> socketGeneration g0 then g0
      else
        let g1 = (case processedSequence g0 of None \<Rightarrow> g0 | Some s \<Rightarrow> persistProcessedSequence s True now g0);
            requested = nextReconnectDelayMs g1;
            g2 = set_health (\<lambda>h. h\<lparr>lastCloseCode := Some code\<rparr>)
                   ((clearTimers (g1\<lparr>nextReconnectDelayMs := None\<rparr>))\<lparr>socket := None, heartbeatAwaitingAck := False\<rparr>)
        in if health_state (healthState g2) = Fatal_state then persistHealth g2
           else (case classifyDiscordGatewayClose code of
               Fatal \<Rightarrow> fatal (''gateway_close_'' @ show_nat (nat code)) g2
             | action \<Rightarrow>
                 let g3 = (if action = Reidentify then clearSession g2 else g2)
                 in scheduleReconnect requested random now
                      (persistHealth (set_health (\<lambda>h. h\<lparr>health_state := Reconnecting, reconnectCount := reconnectCount h + 1\<rparr>) g3))))"

text \<open>
  What happens to the socket itself: it opens, fails, and closes; its close event carries the socket's own
  generation.
\<close>

definition socket_opens :: "nat \<Rightarrow> gateway \<Rightarrow> gateway" where
  "socket_opens n g = (if sockets g n = Socket_connecting then g\<lparr>sockets := (sockets g)(n := Socket_open)\<rparr> else g)"

definition socket_errors :: "nat \<Rightarrow> gateway \<Rightarrow> gateway" where
  "socket_errors n g =
     (if sockets g n = Socket_closed then g
      else g\<lparr>sockets := (sockets g)(n := Socket_closing), closes_sent := closes_sent g @ [(n, 4000)]\<rparr>)"

definition socket_closed :: "int \<Rightarrow> nat \<Rightarrow> rat \<Rightarrow> int \<Rightarrow> gateway \<Rightarrow> gateway" where
  "socket_closed code n random now g = handleClose code n random now (g\<lparr>sockets := (sockets g)(n := Socket_closed)\<rparr>)"

subsection \<open>Alarm, timer and requests\<close>

definition gateway_alarm :: "string \<Rightarrow> bridge_config \<Rightarrow> int \<Rightarrow> gateway \<Rightarrow> gateway" where
  "gateway_alarm fingerprint c now g = ensureConnected fingerprint c now From_alarm (g\<lparr>watchdog := None\<rparr>)"

definition reconnect_fires :: "string \<Rightarrow> bridge_config \<Rightarrow> int \<Rightarrow> gateway \<Rightarrow> gateway" where
  "reconnect_fires fingerprint c now g = ensureConnected fingerprint c now From_timer (g\<lparr>reconnectTimer := None\<rparr>)"

text \<open>\<open>POST /internal/v1/gateway/reset\<close>, which then calls \<open>ensureConnected\<close>.\<close>

definition gateway_reset :: "gateway \<Rightarrow> gateway" where
  "gateway_reset g =
     persistHealth (set_health (\<lambda>h. h\<lparr>health_state := Idle, fatalReason := None\<rparr>)
       (clearSession ((close_socket 1000 (clearTimers g))\<lparr>socket := None\<rparr>)))"

definition gateway_health_answer :: "gateway \<Rightarrow> gateway_health" where
  "gateway_health_answer g = (healthState g)\<lparr>lastSequence := gateway_sequence g\<rparr>"

subsection \<open>Readiness\<close>

definition MINIMUM_HEARTBEAT_FRESHNESS_MS :: rat where "MINIMUM_HEARTBEAT_FRESHNESS_MS = 120000"

datatype readiness = Bridge_ready | Ingress_disabled | Outbound_disabled | Gateway_disconnected | Heartbeat_unacknowledged | Heartbeat_stale

definition evaluateDiscordBridgeReadiness :: "bridge_config \<Rightarrow> gateway_health \<Rightarrow> int \<Rightarrow> readiness" where
  "evaluateDiscordBridgeReadiness c h now =
     (if \<not> envFlag (outbound_setting c) True then Outbound_disabled
      else if \<not> envFlag (ingress_setting c) False then Ingress_disabled
      else if health_state h \<noteq> Ready_state \<and> health_state h \<noteq> Resumed_state then Gateway_disconnected
      else if or_default 0 (lastHeartbeatAckAt h) = 0 then Heartbeat_unacknowledged
      else if max MINIMUM_HEARTBEAT_FRESHNESS_MS (or_default 0 (health_interval h) * 2) <
              of_int (now - or_default 0 (lastHeartbeatAckAt h)) then Heartbeat_stale
      else Bridge_ready)"

end
