(* ===== verification/DiscordGatewayInvariant.thy ===== *)
theory DiscordGatewayInvariant
  imports DiscordGateway
begin

section \<open>The connection to Discord loses no dispatch\<close>

text \<open>
  Discord's side of the gateway protocol as the environment of the gateway: it numbers the dispatches of
  each session, delivers them in order on the connection that holds the session, and on a resumption replays
  those after the sequence the client names. \<open>gateway_step\<close> interleaves the events of the object with
  Discord's; the invariant says that the sequence the object would resume from never passes a dispatch that
  it forwards and the control object has not handled.
\<close>

subsection \<open>Discord's side\<close>

text \<open>
  The dispatches of every session, numbered from 1, and what each connection has delivered: the session and
  how many of its dispatches.
\<close>

record discord =
  logs :: "string \<Rightarrow> envelope list"
  conns :: "nat \<Rightarrow> (string \<times> nat) option"

definition is_ready :: "envelope \<Rightarrow> bool" where "is_ready e \<longleftrightarrow> or_default [] (envelope_t e) = ''READY''"
definition is_resumed :: "envelope \<Rightarrow> bool" where "is_resumed e \<longleftrightarrow> or_default [] (envelope_t e) = ''RESUMED''"

text \<open>
  The alarm and the timer first mark that they have run; their connection attempt, like a request's, goes
  on when the digest is computed, with other events between.
\<close>

inductive gateway_step :: "gateway \<times> discord \<Rightarrow> gateway \<times> discord \<Rightarrow> bool" where
  recreated: "gateway_step (g, d) (gateway_created c now g, d)"
| alarm_runs: "gateway_step (g, d) (g\<lparr>watchdog := None\<rparr>, d)"
| timer_runs: "gateway_step (g, d) (g\<lparr>reconnectTimer := None\<rparr>, d)"
| connect: "gateway_step (g, d) (ensureConnected fp c now k g, d)"
| metadata: "connectInFlight g = Some Awaiting_metadata \<Longrightarrow>
    gateway_step (g, d) (metadata_arrives url_ok m random now g, d)"
| opened: "connectInFlight g = Some Awaiting_alarm \<Longrightarrow> gateway_step (g, d) (connection_opened now g, d)"
| heartbeat: "gateway_step (g, d) (heartbeat_fires now g, d)"
| operator_reset: "gateway_step (g, d) (gateway_reset g, d)"
| socket_open: "gateway_step (g, d) (socket_opens n g, d)"
| socket_error: "gateway_step (g, d) (socket_errors n g, d)"
| socket_close: "gateway_step (g, d) (socket_closed code n random now g, d)"
| dispatch_start: "gateway_step (g, d) (dispatch_starts c n now g, d)"
| dispatch_answer: "gateway_step (g, d) (dispatch_answered handled ok n now g, d)"
| other_frame: "(\<And>e. m = Parsed e \<Longrightarrow> envelope_op e \<noteq> 0) \<Longrightarrow> gateway_step (g, d) (handleMessage c m n random now g, d)"
| session_starts: "(n, Identify p) \<in> set (frames_sent g) \<Longrightarrow> conns d n = None \<Longrightarrow> logs d sid = [] \<Longrightarrow>
    envelope_op e = 0 \<Longrightarrow> is_ready e \<Longrightarrow> envelope_s e = Some 1 \<Longrightarrow> ready_session e = Some sid \<Longrightarrow>
    gateway_step (g, d) (handleMessage c (Parsed e) n random now g,
      d\<lparr>logs := (logs d)(sid := [e]), conns := (conns d)(n := Some (sid, 1))\<rparr>)"
| session_resumes: "(n, Resume_session p) \<in> set (frames_sent g) \<Longrightarrow> conns d n = None \<Longrightarrow>
    resume_seq p \<le> int (length (logs d (resume_session p))) \<Longrightarrow>
    gateway_step (g, d) (g, d\<lparr>conns := (conns d)(n := Some (resume_session p, nat (resume_seq p)))\<rparr>)"
| event_happens: "logs d sid \<noteq> [] \<Longrightarrow> envelope_op e = 0 \<Longrightarrow> \<not> is_ready e \<Longrightarrow> \<not> is_resumed e \<Longrightarrow>
    envelope_s e = Some (int (length (logs d sid)) + 1) \<Longrightarrow>
    gateway_step (g, d) (g, d\<lparr>logs := (logs d)(sid := logs d sid @ [e])\<rparr>)"
| event_delivered: "conns d n = Some (sid, k) \<Longrightarrow> k < length (logs d sid) \<Longrightarrow>
    gateway_step (g, d) (handleMessage c (Parsed (logs d sid ! k)) n random now g, d\<lparr>conns := (conns d)(n := Some (sid, k + 1))\<rparr>)"
| resumed_delivered: "conns d n = Some (sid, k) \<Longrightarrow> envelope_op e = 0 \<Longrightarrow> is_resumed e \<Longrightarrow>
    envelope_s e = None \<or> envelope_s e = Some (int k) \<Longrightarrow>
    gateway_step (g, d) (handleMessage c (Parsed e) n random now g, d)"

inductive gateway_reachable :: "gateway \<times> discord \<Rightarrow> gateway \<times> discord \<Rightarrow> bool" for s0 where
  start: "gateway_reachable s0 s0"
| step: "gateway_reachable s0 s \<Longrightarrow> gateway_step s s' \<Longrightarrow> gateway_reachable s0 s'"

subsection \<open>The invariant\<close>

definition handled_upto :: "discord \<Rightarrow> envelope list \<Rightarrow> string \<Rightarrow> int \<Rightarrow> bool" where
  "handled_upto d handled sid q \<longleftrightarrow> q \<le> int (length (logs d sid)) \<and>
     (\<forall>k. int k < q \<longrightarrow> forwarded (logs d sid ! k) \<longrightarrow> logs d sid ! k \<in> set handled)"

text \<open>
  The links of a chain are the dispatches from position \<open>j\<close> to \<open>k\<close> of the session, with answers to a
  resumption between them.
\<close>

fun chain_ok :: "envelope list \<Rightarrow> nat \<Rightarrow> nat \<Rightarrow> envelope list \<Rightarrow> bool" where
  "chain_ok L j k [] \<longleftrightarrow> j = k"
| "chain_ok L j k (e # es) \<longleftrightarrow>
     (if is_resumed e then (\<forall>p. envelope_s e = Some p \<longrightarrow> p \<le> int j) \<and> chain_ok L j k es
      else j < k \<and> e = L ! j \<and> chain_ok L (Suc j) k es)"

definition tasks_of :: "nat \<Rightarrow> gateway \<Rightarrow> dispatch_task list" where
  "tasks_of n g = filter (\<lambda>t. task_generation t = n) (dispatchChain g)"

abbreviation chain_of :: "nat \<Rightarrow> gateway \<Rightarrow> envelope list" where
  "chain_of n g \<equiv> map task_envelope (tasks_of n g)"

text \<open>Only the first link of a chain waits for the control object.\<close>

definition head_waits :: "dispatch_task list \<Rightarrow> bool" where
  "head_waits ts \<longleftrightarrow> ts \<noteq> [] \<and> in_control (hd ts)"

definition logs_ok :: "discord \<Rightarrow> bool" where
  "logs_ok d \<longleftrightarrow> (\<forall>sid i. i < length (logs d sid) \<longrightarrow> envelope_op (logs d sid ! i) = 0 \<and>
     envelope_s (logs d sid ! i) = Some (int i + 1) \<and> \<not> is_resumed (logs d sid ! i) \<and>
     (is_ready (logs d sid ! i) \<longrightarrow> i = 0 \<and> ready_session (logs d sid ! i) = Some sid))"

definition generations_ok :: "gateway \<Rightarrow> discord \<Rightarrow> bool" where
  "generations_ok g d \<longleftrightarrow> (\<forall>k. socket g = Some k \<longrightarrow> k = socketGeneration g) \<and>
     (\<forall>t \<in> set (dispatchChain g). task_generation t \<le> socketGeneration g) \<and>
     (\<forall>(n, f) \<in> set (frames_sent g). n \<le> socketGeneration g) \<and>
     (\<forall>n. conns d n \<noteq> None \<longrightarrow> n \<le> socketGeneration g)"

text \<open>The stored session, the processed sequence, and what was sent to resume.\<close>

definition session_ok :: "gateway \<Rightarrow> discord \<Rightarrow> bool" where
  "session_ok g d \<longleftrightarrow>
     (\<forall>s. stored_session g = Some s \<longrightarrow> handled_upto d (control_log g) (session_id s) (session_sequence s) \<and>
        (\<forall>p. processedSequence g = Some p \<longrightarrow> handled_upto d (control_log g) (session_id s) p)) \<and>
     (\<forall>n p. (n, Resume_session p) \<in> set (frames_sent g) \<longrightarrow>
        handled_upto d (control_log g) (resume_session p) (resume_seq p))"

text \<open>The connection of the current generation, before and after Discord accepts it.\<close>

definition waiting_ok :: "gateway \<Rightarrow> bool" where
  "waiting_ok g \<longleftrightarrow> chain_of (socketGeneration g) g = [] \<and>
     (\<forall>p s. (socketGeneration g, Resume_session p) \<in> set (frames_sent g) \<and> stored_session g = Some s \<longrightarrow> session_id s = resume_session p) \<and>
     (\<forall>p. (socketGeneration g, Identify p) \<in> set (frames_sent g) \<longrightarrow> stored_session g = None)"

definition accepted_ok :: "gateway \<Rightarrow> discord \<Rightarrow> string \<Rightarrow> nat \<Rightarrow> bool" where
  "accepted_ok g d sid k \<longleftrightarrow> k \<le> length (logs d sid) \<and> (\<forall>s. stored_session g = Some s \<longrightarrow> session_id s = sid) \<and>
     (\<forall>t \<in> set (tl (tasks_of (socketGeneration g) g)). \<not> in_control t) \<and>
     (\<not> dispatchForwardingFailed g \<or> head_waits (tasks_of (socketGeneration g) g) \<longrightarrow>
        (\<exists>j. chain_ok (logs d sid) j k (chain_of (socketGeneration g) g) \<and> handled_upto d (control_log g) sid (int j)))"

definition connection_ok :: "gateway \<Rightarrow> discord \<Rightarrow> bool" where
  "connection_ok g d \<longleftrightarrow> (case conns d (socketGeneration g) of
     None \<Rightarrow> waiting_ok g | Some (sid, k) \<Rightarrow> accepted_ok g d sid k)"

definition gateway_inv :: "gateway \<Rightarrow> discord \<Rightarrow> bool" where
  "gateway_inv g d \<longleftrightarrow> logs_ok d \<and> generations_ok g d \<and> session_ok g d \<and> connection_ok g d"

lemmas inv_defs = gateway_inv_def generations_ok_def session_ok_def connection_ok_def waiting_ok_def accepted_ok_def

subsection \<open>What the small operations leave alone\<close>

definition core :: "gateway \<Rightarrow> _" where
  "core g = (stored_session g, socket g, socketGeneration g, processedSequence g, dispatchChain g,
     dispatchForwardingFailed g, frames_sent g, control_log g)"

lemma inv_cong:
  assumes "core g = core g'"
  shows "gateway_inv g d \<longleftrightarrow> gateway_inv g' d"
proof -
  have c: "tasks_of n g = tasks_of n g'" for n using assms by (simp add: core_def tasks_of_def)
  have "waiting_ok g = waiting_ok g'" "accepted_ok g d = accepted_ok g' d" "session_ok g d = session_ok g' d"
    "generations_ok g d = generations_ok g' d" "socketGeneration g = socketGeneration g'"
    using assms c by (auto simp: core_def waiting_ok_def accepted_ok_def session_ok_def generations_ok_def fun_eq_iff)
  then show ?thesis by (simp add: gateway_inv_def connection_ok_def split: option.split)
qed

lemma core_persistHealth [simp]: "core (persistHealth g) = core g"
  by (simp add: core_def persistHealth_def Let_def)
lemma core_set_health [simp]: "core (set_health f g) = core g"
  by (simp add: core_def set_health_def)
lemma core_close_socket [simp]: "core (close_socket code g) = core g"
  by (simp add: core_def close_socket_def split: option.split)
lemma core_clearTimers [simp]: "core (clearTimers g) = core g"
  by (simp add: core_def clearTimers_def)
lemma core_fatal [simp]: "core (fatal r g) = core g"
  by (simp add: fatal_def)
lemma core_scheduleHeartbeat [simp]: "core (scheduleHeartbeat n delay now g) = core g"
  by (simp add: core_def scheduleHeartbeat_def)
lemma core_scheduleReconnect [simp]: "core (scheduleReconnect delay r now g) = core g"
  by (simp add: core_def scheduleReconnect_def Let_def)
lemma core_update [simp]:
  "core (g\<lparr>heartbeatAwaitingAck := b\<rparr>) = core g" "core (g\<lparr>heartbeatTimer := h\<rparr>) = core g"
  "core (g\<lparr>reconnectTimer := t\<rparr>) = core g" "core (g\<lparr>watchdog := w\<rparr>) = core g" "core (g\<lparr>callers := cs\<rparr>) = core g"
  "core (g\<lparr>connectInFlight := ph\<rparr>) = core g" "core (g\<lparr>heartbeatIntervalMs := i\<rparr>) = core g"
  "core (g\<lparr>gateway_sequence := q\<rparr>) = core g" "core (g\<lparr>nextReconnectDelayMs := nd\<rparr>) = core g"
  "core (g\<lparr>stored_fingerprint := fp\<rparr>) = core g" "core (g\<lparr>sockets := ss\<rparr>) = core g" "core (g\<lparr>closes_sent := cl\<rparr>) = core g"
  "core (g\<lparr>reconnectAttempt := a\<rparr>) = core g" "core (g\<lparr>bot_identity := bi\<rparr>) = core g" "core (g\<lparr>dispatchesSinceSequencePersist := m\<rparr>) = core g"
  "core (g\<lparr>lastSequencePersistAt := m'\<rparr>) = core g"
  by (simp_all add: core_def)
lemma core_caller_returns [simp]: "core (caller_returns now k g) = core g"
  by (cases k) simp_all
lemma core_caller_fails [simp]: "core (caller_fails r now k g) = core g"
  by (cases k) simp_all
lemma core_fold: "(\<And>g k. core (f g k) = core g) \<Longrightarrow> core (foldl f g ks) = core g"
  by (induction ks arbitrary: g) simp_all
lemma core_all_return [simp]: "core (all_return now g) = core g"
  by (simp add: all_return_def core_fold)
lemma core_all_fail [simp]: "core (all_fail r now g) = core g"
  by (simp add: all_fail_def core_fold)
lemma core_openGatewayConnection [simp]: "core (openGatewayConnection c now k g) = core g"
  by (simp add: openGatewayConnection_def Let_def)

lemma core_fields: "core g = core g' \<Longrightarrow> stored_session g = stored_session g' \<and> socket g = socket g' \<and>
    socketGeneration g = socketGeneration g' \<and> processedSequence g = processedSequence g' \<and> dispatchChain g = dispatchChain g' \<and>
    dispatchForwardingFailed g = dispatchForwardingFailed g' \<and> frames_sent g = frames_sent g' \<and> control_log g = control_log g'"
  by (simp add: core_def)

subsection \<open>The larger operations keep the invariant\<close>

lemma handled_mono: "handled_upto d l sid q \<Longrightarrow> set l \<subseteq> set l' \<Longrightarrow> handled_upto d l' sid q"
  by (auto simp: handled_upto_def)

lemma inv_clearSession: "gateway_inv g d \<Longrightarrow> gateway_inv (clearSession g) d"
  by (auto simp: inv_defs clearSession_def tasks_of_def split: option.splits)

lemma inv_no_socket: "gateway_inv g d \<Longrightarrow> gateway_inv (g\<lparr>socket := None\<rparr>) d"
  by (auto simp: inv_defs tasks_of_def split: option.splits)

lemma chain_of_new: "\<forall>t \<in> set (dispatchChain g). task_generation t \<le> n \<Longrightarrow> filter (\<lambda>t. task_generation t = Suc n) (dispatchChain g) = []"
  by (auto simp: filter_empty_conv)

text \<open>A new generation starts without dispatches, frames or a session of Discord's.\<close>

lemma inv_next_generation:
  assumes "gateway_inv g d" "s = None \<or> s = Some (socketGeneration g + 1)"
  shows "gateway_inv (g\<lparr>socket := s, socketGeneration := socketGeneration g + 1, dispatchForwardingFailed := f\<rparr>) d"
proof -
  let ?n = "Suc (socketGeneration g)"
  have none: "conns d ?n = None"
    using assms(1) unfolding gateway_inv_def generations_ok_def by (meson Suc_n_not_le_n)
  have ch: "filter (\<lambda>t. task_generation t = ?n) (dispatchChain g) = []"
    using assms(1) by (intro chain_of_new) (simp add: gateway_inv_def generations_ok_def)
  have fr: "(?n, x) \<notin> set (frames_sent g)" for x using assms(1) by (fastforce simp: gateway_inv_def generations_ok_def)
  show ?thesis using assms none ch fr
    by (auto simp: inv_defs tasks_of_def le_Suc_eq split: option.splits)
qed

lemma inv_persist:
  assumes "gateway_inv g d" "\<And>s. stored_session g = Some s \<Longrightarrow> handled_upto d (control_log g) (session_id s) q"
  shows "gateway_inv (persistProcessedSequence q force now g) d"
  using assms by (auto simp: inv_defs persistProcessedSequence_def tasks_of_def Let_def split: option.splits)

lemma inv_frame:
  assumes "gateway_inv g d"
    and "\<And>p. f = Resume_session p \<Longrightarrow> handled_upto d (control_log g) (resume_session p) (resume_seq p)"
    and "\<And>p s. f = Resume_session p \<Longrightarrow> stored_session g = Some s \<Longrightarrow> session_id s = resume_session p"
    and "\<And>p. f = Identify p \<Longrightarrow> stored_session g = None"
  shows "gateway_inv (gateway_send f n g) d"
proof (cases "gateway_send f n g = g")
  case False
  then obtain k where k: "socket g = Some k" "gateway_send f n g = g\<lparr>frames_sent := frames_sent g @ [(k, f)]\<rparr>"
    by (auto simp: gateway_send_def split: option.splits if_splits)
  let ?g = "g\<lparr>frames_sent := frames_sent g @ [(k, f)]\<rparr>"
  have kg: "k = socketGeneration g" using assms(1) k(1) by (simp add: gateway_inv_def generations_ok_def)
  have c: "tasks_of m ?g = tasks_of m g" for m by (simp add: tasks_of_def)
  have "generations_ok ?g d" using assms(1) kg by (auto simp: gateway_inv_def generations_ok_def)
  moreover have "session_ok ?g d" using assms(1,2) by (auto simp: gateway_inv_def session_ok_def)
  moreover have "waiting_ok ?g" if "waiting_ok g" using that assms(3,4) c by (auto simp: waiting_ok_def)
  moreover have "accepted_ok ?g d sid m" if "accepted_ok g d sid m" for sid m using that c by (simp add: accepted_ok_def)
  ultimately show ?thesis unfolding k(2) using assms(1)
    by (auto simp: gateway_inv_def connection_ok_def split: option.splits)
qed (use assms(1) in simp)

lemma inv_send_heartbeat: "gateway_inv g d \<Longrightarrow> gateway_inv (gateway_send (Heartbeat q) n g) d"
  by (rule inv_frame) simp_all

lemma inv_send_resume:
  assumes "gateway_inv g d" "stored_session g = Some s" "resume_session p = session_id s" "resume_seq p = session_sequence s"
  shows "gateway_inv (gateway_send (Resume_session p) n g) d"
  using assms by (intro inv_frame) (auto simp: gateway_inv_def session_ok_def)

lemma inv_send_identify:
  "gateway_inv g d \<Longrightarrow> stored_session g = None \<Longrightarrow> gateway_inv (gateway_send (Identify p) n g) d"
  by (rule inv_frame) simp_all

lemma inv_core: "gateway_inv g d \<Longrightarrow> core g' = core g \<Longrightarrow> gateway_inv g' d"
  using inv_cong by blast

lemmas core_of_close = core_fields [OF core_close_socket]

lemma inv_bump: "gateway_inv g d \<Longrightarrow> gateway_inv (g\<lparr>socket := None, socketGeneration := socketGeneration g + 1\<rparr>) d"
  using inv_next_generation [of g d None "dispatchForwardingFailed g"] by simp

lemma inv_refresh:
  assumes "gateway_inv g d"
  shows "gateway_inv (refreshConfigurationIdentity fp c g) d"
proof -
  let ?g = "set_health (\<lambda>h. h\<lparr>health_mode := discordContentMode c\<rparr>) (g\<lparr>stored_fingerprint := Some fp\<rparr>)"
  let ?c = "close_socket 1000 (clearTimers ?g)"
  have c: "core ?c = core g" by simp
  have "core ?c = core ?g" by simp
  then have "socketGeneration ?c = socketGeneration ?g" by (blast dest: core_fields)
  then have "gateway_inv (clearSession (?c\<lparr>socket := None, socketGeneration := socketGeneration ?g + 1\<rparr>)) d"
    using inv_clearSession [OF inv_bump [OF inv_core [OF assms c]]] by simp
  moreover have "gateway_inv (persistHealth ?g) d" using assms by (rule inv_core) simp
  ultimately show ?thesis
    unfolding refreshConfigurationIdentity_def Let_def by (auto intro: inv_core split: option.split)
qed

lemma inv_created: "gateway_inv g d \<Longrightarrow> gateway_inv (gateway_created c now g) d"
proof -
  assume g: "gateway_inv g d"
  let ?g = "g\<lparr>socket := None, socketGeneration := socketGeneration g + 1, dispatchForwardingFailed := False\<rparr>"
  have "gateway_inv ?g d" using g by (rule inv_next_generation) simp
  moreover have "tasks_of (socketGeneration g + 1) g = []"
    using g by (simp add: tasks_of_def gateway_inv_def generations_ok_def chain_of_new)
  moreover have "conns d (socketGeneration g + 1) = None"
    using g unfolding gateway_inv_def generations_ok_def by (metis Suc_eq_plus1 Suc_n_not_le_n)
  ultimately have "gateway_inv (?g\<lparr>dispatchChain := [], processedSequence := map_option session_sequence (stored_session g)\<rparr>) d"
    by (auto simp: inv_defs tasks_of_def split: option.splits)
  then show ?thesis by (rule inv_core) (simp add: core_def gateway_created_def Let_def)
qed

lemma inv_authenticate:
  assumes "gateway_inv g d"
  shows "gateway_inv (authenticate c n now g) d"
proof (cases "stored_session g")
  case None
  show ?thesis
    using assms inv_send_identify [OF assms None, of "discordIdentifyPayload (bot_token c) (discordContentMode c) 0 1" n]
    by (auto simp: authenticate_def None intro: inv_core split: option.split)
next
  case (Some s)
  then show ?thesis by (simp add: authenticate_def inv_send_resume [OF assms Some] discordResumePayload_def)
qed

lemma inv_ensure: "gateway_inv g d \<Longrightarrow> gateway_inv (ensureConnected fp c now k g) d"
  using inv_refresh [of g d fp c] unfolding ensureConnected_def Let_def by (auto intro: inv_core)

lemma inv_metadata:
  assumes "gateway_inv g d"
  shows "gateway_inv (metadata_arrives url_ok m random now g) d"
proof (cases m)
  case None
  then show ?thesis using assms by (auto simp: metadata_arrives_def intro: inv_core)
next
  case (Some md)
  define g2 where "g2 = persistHealth (set_health (\<lambda>h. h\<lparr>lastHeartbeatAt := None, lastHeartbeatAckAt := None, health_state := Connecting\<rparr>)
    ((set_health (\<lambda>h. h\<lparr>sessionStartsRemaining := Some (starts_remaining md), sessionStartsResetAt := Some (now + starts_reset_after md),
       maxConcurrency := Some (starts_concurrency md), recommendedShardCount := Some (metadata_shards md)\<rparr>) g)\<lparr>heartbeatAwaitingAck := False\<rparr>))"
  have g2: "core g2 = core g" by (simp add: g2_def)
  have "gateway_inv (g2\<lparr>socket := Some (socketGeneration g2 + 1), socketGeneration := socketGeneration g2 + 1, dispatchForwardingFailed := False\<rparr>) d"
    by (rule inv_next_generation [OF inv_core [OF assms g2]]) simp
  then have "gateway_inv (g2\<lparr>socketGeneration := socketGeneration g2 + 1, dispatchForwardingFailed := False, socket := Some (socketGeneration g2 + 1),
      sockets := ss, connectInFlight := ph\<rparr>) d" for ss ph
    by (rule inv_core) (simp add: core_def)
  then show ?thesis using assms g2
    by (auto simp: metadata_arrives_def Some Let_def g2_def [symmetric] intro: inv_core)
qed

lemma inv_hello: "gateway_inv g d \<Longrightarrow> gateway_inv (onHello c e n random now g) d"
  by (auto simp: onHello_def intro!: inv_authenticate intro: inv_core split: option.split)

lemma inv_heartbeat: "gateway_inv g d \<Longrightarrow> gateway_inv (heartbeat_fires now g) d"
proof (cases "heartbeatTimer g")
  case (Some t)
  assume g: "gateway_inv g d"
  let ?h = "\<lambda>g. persistHealth (set_health (\<lambda>h. h\<lparr>lastHeartbeatAt := Some now\<rparr>) (g\<lparr>heartbeatTimer := None, heartbeatAwaitingAck := True\<rparr>))"
  have "gateway_inv (?h g) d" using g by (rule inv_core) (simp add: core_def [of "g\<lparr>heartbeatTimer := None, heartbeatAwaitingAck := True\<rparr>"] core_def [of g])
  then have "gateway_inv (gateway_send (Heartbeat (gateway_sequence g)) (fst t) (?h g)) d" by (rule inv_send_heartbeat)
  then show ?thesis using g
    by (auto simp: heartbeat_fires_def Some Let_def split: prod.split intro: inv_core)
qed (simp add: heartbeat_fires_def)

subsection \<open>The chain\<close>

lemma tasks_update_first:
  "filter (\<lambda>t. task_generation t = m) (update_first (\<lambda>t. task_generation t = n) (\<lambda>t. None) ts) =
   (let us = filter (\<lambda>t. task_generation t = m) ts in if m = n then tl us else us)"
  "filter (\<lambda>t. task_generation t = m) (update_first (\<lambda>t. task_generation t = n) (\<lambda>t. Some (t\<lparr>in_control := True\<rparr>)) ts) =
   (let us = filter (\<lambda>t. task_generation t = m) ts in
    if m = n then (case us of [] \<Rightarrow> [] | u # vs \<Rightarrow> u\<lparr>in_control := True\<rparr> # vs) else us)"
  by (induction ts) (auto simp: Let_def split: list.split)

lemma tasks_of_end: "tasks_of m (end_task n g) = (if m = n then tl (tasks_of m g) else tasks_of m g)"
  by (simp add: tasks_of_def end_task_def tasks_update_first Let_def)

lemma tasks_of_call:
  "tasks_of m (call_control n g) =
   (if m = n then (case tasks_of m g of [] \<Rightarrow> [] | u # vs \<Rightarrow> u\<lparr>in_control := True\<rparr> # vs) else tasks_of m g)"
  by (simp add: tasks_of_def call_control_def tasks_update_first Let_def)

lemma chain_head_tasks: "chain_head n g = (case tasks_of n g of [] \<Rightarrow> None | t # ts \<Rightarrow> Some t)"
proof -
  have "find P xs = (case filter P xs of [] \<Rightarrow> None | t # ts \<Rightarrow> Some t)" for P :: "dispatch_task \<Rightarrow> bool" and xs
    by (induction xs) auto
  then show ?thesis by (simp add: chain_head_def tasks_of_def)
qed

lemma chain_head_Some: "chain_head n g = Some t \<longleftrightarrow> (\<exists>ts. tasks_of n g = t # ts)"
  by (auto simp: chain_head_tasks split: list.splits)

lemma generation_update_first:
  "(\<And>t u. f t = Some u \<Longrightarrow> task_generation u = task_generation t) \<Longrightarrow>
   t \<in> set (update_first P f ts) \<Longrightarrow> \<exists>u \<in> set ts. task_generation u = task_generation t"
  by (induction ts) (auto split: if_splits option.splits)

lemma end_task_fields [simp]:
  "stored_session (end_task n g) = stored_session g" "socket (end_task n g) = socket g"
  "socketGeneration (end_task n g) = socketGeneration g" "processedSequence (end_task n g) = processedSequence g"
  "dispatchForwardingFailed (end_task n g) = dispatchForwardingFailed g" "frames_sent (end_task n g) = frames_sent g"
  "control_log (end_task n g) = control_log g"
  by (simp_all add: end_task_def)

lemma call_control_fields [simp]:
  "stored_session (call_control n g) = stored_session g" "socket (call_control n g) = socket g"
  "socketGeneration (call_control n g) = socketGeneration g" "processedSequence (call_control n g) = processedSequence g"
  "dispatchForwardingFailed (call_control n g) = dispatchForwardingFailed g" "frames_sent (call_control n g) = frames_sent g"
  "control_log (call_control n g) = control_log g"
  by (simp_all add: call_control_def)

lemma generations_end: "generations_ok g d \<Longrightarrow> generations_ok (end_task n g) d"
  using generation_update_first [of "\<lambda>t. None" _ "\<lambda>t. task_generation t = n" "dispatchChain g"]
  by (fastforce simp: generations_ok_def end_task_def)

lemma generations_call: "generations_ok g d \<Longrightarrow> generations_ok (call_control n g) d"
  using generation_update_first [of "\<lambda>t. Some (t\<lparr>in_control := True\<rparr>)" _ "\<lambda>t. task_generation t = n" "dispatchChain g"]
  by (fastforce simp: generations_ok_def call_control_def)

text \<open>A dispatch of the session is handled or needs no handling.\<close>

definition settled :: "gateway \<Rightarrow> envelope \<Rightarrow> bool" where
  "settled g e \<longleftrightarrow> is_resumed e \<or> \<not> forwarded e \<or> e \<in> set (control_log g)"

lemma handled_next:
  assumes "handled_upto d l sid (int j)" "j < length (logs d sid)" "forwarded (logs d sid ! j) \<longrightarrow> logs d sid ! j \<in> set l"
  shows "handled_upto d l sid (int j + 1)"
proof -
  have "int i < int j + 1 \<Longrightarrow> i < j \<or> i = j" for i by linarith
  then show ?thesis using assms by (fastforce simp: handled_upto_def)
qed

lemma head_position:
  assumes inv: "gateway_inv g d" and t: "tasks_of (socketGeneration g) g = t # ts"
    and live: "\<not> dispatchForwardingFailed g \<or> in_control t" and s: "settled g (task_envelope t)"
  obtains sid k j where "conns d (socketGeneration g) = Some (sid, k)" "k \<le> length (logs d sid)"
    "chain_ok (logs d sid) j k (map task_envelope ts)" "handled_upto d (control_log g) sid (int j)"
    "\<And>q. envelope_s (task_envelope t) = Some q \<Longrightarrow> handled_upto d (control_log g) sid q"
    "is_ready (task_envelope t) \<Longrightarrow> \<not> is_resumed (task_envelope t) \<Longrightarrow>
       ready_session (task_envelope t) = Some sid \<and> envelope_s (task_envelope t) = Some 1"
    "\<And>s. stored_session g = Some s \<Longrightarrow> session_id s = sid"
proof -
  let ?e = "task_envelope t"
  from inv t obtain sid k where c: "conns d (socketGeneration g) = Some (sid, k)" and a: "accepted_ok g d sid k"
    by (auto simp: gateway_inv_def connection_ok_def waiting_ok_def split: option.splits)
  from a t live obtain j where j: "chain_ok (logs d sid) j k (?e # map task_envelope ts)" "handled_upto d (control_log g) sid (int j)"
    by (auto simp: accepted_ok_def head_waits_def)
  from a have k: "k \<le> length (logs d sid)" "\<And>s. stored_session g = Some s \<Longrightarrow> session_id s = sid" by (auto simp: accepted_ok_def)
  have L: "logs_ok d" using inv by (simp add: gateway_inv_def)
  show ?thesis
  proof (cases "is_resumed ?e")
    case True
    with j have "chain_ok (logs d sid) j k (map task_envelope ts)" "\<And>q. envelope_s ?e = Some q \<Longrightarrow> q \<le> int j" by auto
    with that [OF c k(1) _ j(2) _ _ k(2)] True j(2) show ?thesis by (force simp: handled_upto_def)
  next
    case False
    with j have f: "j < k" "?e = logs d sid ! j" "chain_ok (logs d sid) (Suc j) k (map task_envelope ts)" by auto
    from f k have jl: "j < length (logs d sid)" by simp
    have h: "handled_upto d (control_log g) sid (int j + 1)"
      using handled_next [OF j(2) jl] s False f(2) by (auto simp: settled_def)
    have e: "envelope_s ?e = Some (int j + 1)" "is_ready ?e \<Longrightarrow> j = 0 \<and> ready_session ?e = Some sid"
      using L jl f(2) by (auto simp: logs_ok_def)
    have h': "handled_upto d (control_log g) sid (int (Suc j))" using h by (simp add: add.commute)
    show ?thesis by (rule that [OF c k(1) f(3) h' _ _ k(2)]) (use e h in auto)
  qed
qed


subsection \<open>The steps of a dispatch keep the invariant\<close>

lemma connection_frame:
  assumes "connection_ok g d" "socketGeneration g' = socketGeneration g" "stored_session g' = stored_session g"
    "frames_sent g' = frames_sent g"
    "chain_of (socketGeneration g) g = [] \<Longrightarrow> chain_of (socketGeneration g) g' = []"
    "\<And>sid k. conns d (socketGeneration g) = Some (sid, k) \<Longrightarrow> accepted_ok g d sid k \<Longrightarrow> accepted_ok g' d sid k"
  shows "connection_ok g' d"
proof (cases "conns d (socketGeneration g)")
  case None
  with assms show ?thesis by (simp add: connection_ok_def waiting_ok_def)
next
  case (Some c)
  then obtain sid k where "conns d (socketGeneration g) = Some (sid, k)" by (cases c) auto
  with assms show ?thesis by (simp add: connection_ok_def)
qed

lemma inv_fail: "gateway_inv g d \<Longrightarrow> gateway_inv (g\<lparr>dispatchForwardingFailed := True\<rparr>) d"
  by (auto simp: gateway_inv_def generations_ok_def session_ok_def tasks_of_def accepted_ok_def elim!: connection_frame)

lemma inv_log:
  assumes "gateway_inv g d" "set (control_log g) \<subseteq> set l"
  shows "gateway_inv (g\<lparr>control_log := l\<rparr>) d"
proof -
  have h: "handled_upto d (control_log g) sid q \<Longrightarrow> handled_upto d l sid q" for sid q by (rule handled_mono [OF _ assms(2)])
  have "connection_ok (g\<lparr>control_log := l\<rparr>) d"
  proof (rule connection_frame [of g])
    fix sid k assume "accepted_ok g d sid k"
    then show "accepted_ok (g\<lparr>control_log := l\<rparr>) d sid k"
      using h by (auto simp: accepted_ok_def tasks_of_def)
  qed (use assms(1) in \<open>simp_all add: gateway_inv_def tasks_of_def\<close>)
  moreover have "session_ok (g\<lparr>control_log := l\<rparr>) d" using assms(1) h by (auto simp: gateway_inv_def session_ok_def)
  ultimately show ?thesis using assms(1) by (simp add: gateway_inv_def generations_ok_def)
qed

lemma inv_end:
  assumes inv: "gateway_inv g d"
    and s: "\<And>t ts. n = socketGeneration g \<Longrightarrow> \<not> dispatchForwardingFailed g \<Longrightarrow> tasks_of n g = t # ts \<Longrightarrow> settled g (task_envelope t)"
  shows "gateway_inv (end_task n g) d"
proof -
  have "connection_ok (end_task n g) d"
  proof (rule connection_frame [of g])
    show "connection_ok g d" using inv by (simp add: gateway_inv_def)
    fix sid k assume c: "conns d (socketGeneration g) = Some (sid, k)" "accepted_ok g d sid k"
    show "accepted_ok (end_task n g) d sid k"
    proof (cases "n = socketGeneration g \<and> tasks_of n g \<noteq> []")
      case False
      then show ?thesis using c(2) by (auto simp: accepted_ok_def tasks_of_end)
    next
      case True
      then obtain t ts where ts: "tasks_of n g = t # ts" by (meson neq_Nil_conv)
      have w: "\<not> head_waits ts" using True ts c(2) by (cases ts) (auto simp: accepted_ok_def head_waits_def)
      have "\<exists>j. chain_ok (logs d sid) j k (map task_envelope ts) \<and> handled_upto d (control_log g) sid (int j)"
        if f: "\<not> dispatchForwardingFailed g"
        by (rule head_position [OF inv, of t ts]) (use True ts s [OF _ f ts] f c in auto)
      moreover have "\<forall>u \<in> set (tl ts). \<not> in_control u" using True ts c(2) by (cases ts) (auto simp: accepted_ok_def)
      ultimately show ?thesis using True ts c(2) w by (auto simp: accepted_ok_def tasks_of_end)
    qed
  qed (auto simp: tasks_of_end)
  then show ?thesis using inv generations_end by (simp add: gateway_inv_def session_ok_def)
qed

lemma inv_call:
  assumes inv: "gateway_inv g d" and live: "n = socketGeneration g \<Longrightarrow> \<not> dispatchForwardingFailed g"
  shows "gateway_inv (call_control n g) d"
proof -
  have m: "chain_of m (call_control n g) = chain_of m g" for m by (auto simp: tasks_of_call split: list.splits)
  have "connection_ok (call_control n g) d"
  proof (rule connection_frame [of g])
    show "connection_ok g d" using inv by (simp add: gateway_inv_def)
    fix sid k assume c: "accepted_ok g d sid k"
    then show "accepted_ok (call_control n g) d sid k"
      using live m by (auto simp: accepted_ok_def tasks_of_call split: list.splits)
  qed (simp_all add: m)
  then show ?thesis using inv generations_call by (simp add: gateway_inv_def session_ok_def)
qed

lemma inv_failed_close: "gateway_inv g d \<Longrightarrow> gateway_inv (dispatch_failed_close n g) d"
proof -
  assume g: "gateway_inv g d"
  let ?g = "close_socket 4000 (g\<lparr>dispatchForwardingFailed := True\<rparr>)"
  have c: "core ?g = core (g\<lparr>dispatchForwardingFailed := True\<rparr>)" by simp
  have "dispatchForwardingFailed ?g" using core_fields [OF c] by simp
  then show ?thesis unfolding dispatch_failed_close_def by (intro inv_end inv_core [OF inv_fail [OF g] c]) simp
qed

lemma core_tasks: "core g = core g' \<Longrightarrow> tasks_of n g = tasks_of n g'"
  by (simp add: core_def tasks_of_def)

lemma core_settled: "core g = core g' \<Longrightarrow> settled g e = settled g' e"
  by (simp add: core_def settled_def)

lemma inv_end_core:
  assumes "gateway_inv g d" "core g' = core g"
    and "\<And>t ts. n = socketGeneration g \<Longrightarrow> \<not> dispatchForwardingFailed g \<Longrightarrow> tasks_of n g = t # ts \<Longrightarrow> settled g (task_envelope t)"
  shows "gateway_inv (end_task n g') d"
  using assms core_tasks [OF assms(2), of n] core_settled [OF assms(2)] core_fields [OF assms(2)]
  by (intro inv_end inv_core [OF assms(1,2)]) simp

lemma persist_fields [simp]:
  "socketGeneration (persistProcessedSequence q force now g) = socketGeneration g"
  "dispatchChain (persistProcessedSequence q force now g) = dispatchChain g"
  "control_log (persistProcessedSequence q force now g) = control_log g"
  "dispatchForwardingFailed (persistProcessedSequence q force now g) = dispatchForwardingFailed g"
  by (simp_all add: persistProcessedSequence_def Let_def split: option.split)

lemma tasks_of_persist [simp]: "tasks_of n (persistProcessedSequence q force now g) = tasks_of n g"
  "settled (persistProcessedSequence q force now g) e = settled g e"
  by (simp_all add: tasks_of_def settled_def)

lemma inv_persist_head:
  assumes inv: "gateway_inv g d" and t: "tasks_of (socketGeneration g) g = t # ts"
    and live: "\<not> dispatchForwardingFailed g \<or> in_control t" and s: "settled g (task_envelope t)"
    and q: "envelope_s (task_envelope t) = Some q"
  shows "gateway_inv (persistProcessedSequence q force now g) d"
  by (rule head_position [OF inv t live s], rule inv_persist [OF inv]) (use q in auto)


lemma processed_fields [simp]:
  "socketGeneration (dispatch_processed e n now g) = socketGeneration g"
  "tasks_of m (dispatch_processed e n now g) = tasks_of m g"
  "dispatchForwardingFailed (dispatch_processed e n now g) = dispatchForwardingFailed g"
  "settled (dispatch_processed e n now g) e' = settled g e'"
  by (simp_all add: dispatch_processed_def tasks_of_def settled_def split: option.split)

lemma inv_processed:
  assumes inv: "gateway_inv g d" and t: "tasks_of n g = t # ts"
    and live: "n = socketGeneration g \<Longrightarrow> \<not> dispatchForwardingFailed g \<or> in_control t" and s: "settled g (task_envelope t)"
  shows "gateway_inv (end_task n (dispatch_processed (task_envelope t) n now g)) d"
proof (rule inv_end)
  let ?e = "task_envelope t" and ?g = "g\<lparr>dispatchesSinceSequencePersist := dispatchesSinceSequencePersist g + 1\<rparr>"
  have g: "gateway_inv ?g d" using inv by (rule inv_core) simp
  have "gateway_inv (persistProcessedSequence q False now ?g) d" if "n = socketGeneration g" "envelope_s ?e = Some q" for q
    by (rule inv_persist_head [OF g, of t ts]) (use t live s that in \<open>simp_all add: tasks_of_def settled_def\<close>)
  then show "gateway_inv (dispatch_processed ?e n now g) d" using inv by (auto simp: dispatch_processed_def split: option.split)
qed (use t s in auto)

lemma ready_accepted_fields [simp]:
  "socketGeneration (ready_accepted e n now g) = socketGeneration g"
  "tasks_of m (ready_accepted e n now g) = tasks_of m g"
  "dispatchForwardingFailed (ready_accepted e n now g) = dispatchForwardingFailed g"
  "settled (ready_accepted e n now g) e' = settled g e'"
  by (simp_all add: ready_accepted_def tasks_of_def settled_def persistHealth_def set_health_def Let_def)

lemma ready_settled: "is_ready e \<Longrightarrow> settled g e \<and> \<not> is_resumed e"
  by (simp add: settled_def is_ready_def is_resumed_def forwarded_def FORWARDED_DISPATCHES_def)

lemma inv_ready:
  assumes inv: "gateway_inv g d" and t: "tasks_of n g = t # ts" and c: "in_control t" and r: "is_ready (task_envelope t)"
  shows "gateway_inv (end_task n (ready_accepted (task_envelope t) n now g)) d"
proof (rule inv_end)
  let ?e = "task_envelope t"
  show "gateway_inv (ready_accepted ?e n now g) d"
  proof (cases "n = socketGeneration g")
    case False then show ?thesis using inv by (simp add: ready_accepted_def)
  next
    case n: True
    from inv t n c r ready_settled [OF r] obtain sid k where
      conn: "conns d (socketGeneration g) = Some (sid, k)" and q: "handled_upto d (control_log g) sid 1"
      and e: "ready_session ?e = Some sid" "envelope_s ?e = Some 1"
      using head_position [of g d t ts thesis] by metis
    let ?s = "\<lparr>session_id = sid, resume_url = or_default [] (ready_url ?e), session_sequence = 1, session_updated = now\<rparr>"
    let ?g = "g\<lparr>stored_session := Some ?s, processedSequence := Some 1\<rparr>"
    have a: "accepted_ok g d sid k" using inv conn by (simp add: gateway_inv_def connection_ok_def)
    have "accepted_ok ?g d sid k" using a by (simp add: accepted_ok_def tasks_of_def)
    then have "gateway_inv ?g d"
      using inv conn q by (auto simp: gateway_inv_def generations_ok_def session_ok_def connection_ok_def)
    then show ?thesis
      by (rule inv_core)
        (simp add: ready_accepted_def n Let_def e or_default_def, simp add: core_def set_health_def)
  qed
qed (use t ready_settled [OF r] in auto)

lemma inv_dispatch_starts:
  assumes inv: "gateway_inv g d"
  shows "gateway_inv (dispatch_starts c n now g) d"
proof (cases "chain_head n g")
  case (Some t)
  then obtain ts where t: "tasks_of n g = t # ts" by (auto simp: chain_head_Some)
  let ?e = "task_envelope t"
  note f = dispatch_starts_def Some Let_def
  consider "in_control t" | "\<not> in_control t" "n \<noteq> socketGeneration g \<or> dispatchForwardingFailed g"
    | "\<not> in_control t" "n = socketGeneration g" "\<not> dispatchForwardingFailed g" "is_ready ?e"
    | "\<not> in_control t" "n = socketGeneration g" "\<not> dispatchForwardingFailed g" "is_resumed ?e"
    | "\<not> in_control t" "n = socketGeneration g" "\<not> dispatchForwardingFailed g" "\<not> is_ready ?e" "\<not> is_resumed ?e"
    by blast
  then show ?thesis
  proof cases
    case 2 then show ?thesis unfolding f using inv by (auto intro: inv_end)
  next
    case 3
    have "gateway_inv (end_task n g') d" if "core g' = core g" for g'
      by (rule inv_end_core [OF inv that]) (use t ready_settled [OF 3(4)] in auto)
    then show ?thesis unfolding f using 3 inv
      by (auto simp: is_ready_def intro!: inv_failed_close inv_call)
  next
    case 4
    then have s: "settled g ?e" by (simp add: settled_def)
    let ?p = "case envelope_s ?e of None \<Rightarrow> g | Some q \<Rightarrow> persistProcessedSequence q True now g"
    have p: "gateway_inv ?p d"
      using inv inv_persist_head [OF inv, of t ts] t 4 s by (auto split: option.split)
    have "gateway_inv (end_task n g') d" if "core g' = core ?p" for g'
      by (rule inv_end_core [OF p that]) (use t s in \<open>auto split: option.splits\<close>)
    then show ?thesis unfolding f using 4 by (simp add: is_resumed_def)
  next
    case 5
    have "gateway_inv (end_task n (dispatch_processed ?e n now g)) d" if "\<not> forwarded ?e"
      by (rule inv_processed [OF inv t]) (use 5 that in \<open>auto simp: settled_def\<close>)
    then show ?thesis unfolding f using 5 inv by (auto simp: is_ready_def is_resumed_def intro: inv_call)
  qed (use inv in \<open>simp add: f\<close>)
qed (use inv in \<open>simp add: dispatch_starts_def\<close>)

lemma inv_dispatch_answered:
  assumes inv: "gateway_inv g d"
  shows "gateway_inv (dispatch_answered handled ok n now g) d"
proof (cases "\<exists>t. chain_head n g = Some t \<and> in_control t")
  case True
  then obtain t ts where h: "chain_head n g = Some t" and t: "tasks_of n g = t # ts" and c: "in_control t"
    by (auto simp: chain_head_Some)
  let ?e = "task_envelope t"
  define g' where "g' = (if \<not> handled \<and> \<not> ok then g
     else if is_ready ?e then g\<lparr>bot_identity := ready_user ?e\<rparr> else g\<lparr>control_log := control_log g @ [?e]\<rparr>)"
  have inv': "gateway_inv g' d"
    unfolding g'_def using inv inv_log [OF inv, of "control_log g @ [?e]"] by (auto intro: inv_core)
  have t': "tasks_of n g' = t # ts" using t by (simp add: g'_def tasks_of_def)
  have s: "settled g' ?e" if ok by (simp add: g'_def that settled_def is_ready_def forwarded_def FORWARDED_DISPATCHES_def)
  have "dispatch_answered handled ok n now g =
      (if \<not> ok then dispatch_failed_close n g'
       else if is_ready ?e then end_task n (ready_accepted ?e n now g') else end_task n (dispatch_processed ?e n now g'))"
    using c by (simp add: dispatch_answered_def h Let_def g'_def is_ready_def)
  then show ?thesis
    using inv_failed_close [OF inv'] inv_ready [OF inv' t' c] inv_processed [OF inv' t' _ s] c by simp
qed (use inv in \<open>auto simp: dispatch_answered_def split: option.split\<close>)


subsection \<open>Frames, closing and the operator\<close>

lemma inv_other_frame:
  assumes inv: "gateway_inv g d" and op: "\<And>e. m = Parsed e \<Longrightarrow> envelope_op e \<noteq> 0"
  shows "gateway_inv (handleMessage c m n random now g) d"
proof (cases "n = socketGeneration g \<and> (\<exists>e. m = Parsed e)")
  case False
  then show ?thesis using inv by (cases m) (auto simp: handleMessage_def intro: inv_core)
next
  case True
  then obtain e where m: "m = Parsed e" by blast
  let ?g = "case envelope_s e of None \<Rightarrow> g | Some s \<Rightarrow> g\<lparr>gateway_sequence := Some s\<rparr>"
  have g: "gateway_inv ?g d" using inv by (auto intro: inv_core split: option.split)
  have "gateway_inv (?g\<lparr>heartbeatAwaitingAck := True\<rparr>) d" using g by (rule inv_core) simp
  then have "gateway_inv (gateway_send (Heartbeat (gateway_sequence ?g)) n (?g\<lparr>heartbeatAwaitingAck := True\<rparr>)) d"
    by (rule inv_send_heartbeat)
  then have "gateway_inv (heartbeat_requested n now ?g) d" unfolding heartbeat_requested_def by (rule inv_core) simp
  moreover have "gateway_inv (acknowledged now ?g) d" using g by (rule inv_core) (simp add: acknowledged_def)
  moreover have "gateway_inv (session_invalid b random ?g) d" for b
    using inv_clearSession [OF g] g by (auto simp: session_invalid_def Let_def intro: inv_core)
  moreover have "gateway_inv (close_socket 4000 ?g) d" using g by (rule inv_core) simp
  ultimately show ?thesis using True op [OF m] inv_hello [OF g] g by (simp add: handleMessage_def m Let_def)
qed

lemma inv_handleClose:
  assumes inv: "gateway_inv g d"
  shows "gateway_inv (handleClose code n random now g) d"
proof (cases "n = socketGeneration g")
  case True
  let ?g = "case processedSequence g of None \<Rightarrow> g | Some s \<Rightarrow> persistProcessedSequence s True now g"
  have persisted: "gateway_inv (persistProcessedSequence s True now g) d" if "processedSequence g = Some s" for s
    using inv that by (intro inv_persist [OF inv]) (simp add: gateway_inv_def session_ok_def)
  have g: "gateway_inv ?g d"
    using inv persisted by (auto split: option.split)
  let ?h = "set_health (\<lambda>h. h\<lparr>lastCloseCode := Some code\<rparr>)
    ((clearTimers (?g\<lparr>nextReconnectDelayMs := None\<rparr>))\<lparr>socket := None, heartbeatAwaitingAck := False\<rparr>)"
  have h: "gateway_inv ?h d"
    using inv_no_socket [OF g] by (rule inv_core) (simp add: core_def clearTimers_def set_health_def)
  have "gateway_inv (persistHealth ?h) d" "gateway_inv (fatal r ?h) d" for r using h by (auto intro: inv_core)
  moreover have "gateway_inv (scheduleReconnect req random now (persistHealth (set_health F ?h))) d" for req F
    using h by (rule inv_core) simp
  moreover have "gateway_inv (scheduleReconnect req random now (persistHealth (set_health F (clearSession ?h)))) d" for req F
    using inv_clearSession [OF h] by (rule inv_core) simp
  ultimately show ?thesis using True by (simp add: handleClose_def Let_def split: close_action.split)
qed (use inv in \<open>simp add: handleClose_def\<close>)

lemma inv_socket_closed: "gateway_inv g d \<Longrightarrow> gateway_inv (socket_closed code n random now g) d"
  unfolding socket_closed_def by (intro inv_handleClose) (auto intro: inv_core)

lemma inv_reset: "gateway_inv g d \<Longrightarrow> gateway_inv (gateway_reset g) d"
proof -
  assume g: "gateway_inv g d"
  have "gateway_inv (close_socket 1000 (clearTimers g)) d" using g by (rule inv_core) simp
  then have "gateway_inv (clearSession ((close_socket 1000 (clearTimers g))\<lparr>socket := None\<rparr>)) d"
    by (intro inv_clearSession inv_no_socket)
  then show ?thesis unfolding gateway_reset_def by (rule inv_core) simp
qed

subsection \<open>Discord's steps keep the invariant\<close>

lemma chain_ok_grow: "chain_ok L j k es \<Longrightarrow> k \<le> length L \<Longrightarrow> chain_ok (L @ L') j k es"
  by (induction es arbitrary: j) (auto simp: nth_append)

lemma chain_ok_le: "chain_ok L j k es \<Longrightarrow> j \<le> k"
  by (induction es arbitrary: j) (auto split: if_splits dest: Suc_leD)

lemma chain_ok_snoc: "chain_ok L j k es \<Longrightarrow> \<not> is_resumed (L ! k) \<Longrightarrow> chain_ok L j (Suc k) (es @ [L ! k])"
  by (induction es arbitrary: j) (auto simp: less_Suc_eq)

lemma chain_ok_resumed:
  "chain_ok L j k es \<Longrightarrow> is_resumed e \<Longrightarrow> (\<And>p. envelope_s e = Some p \<Longrightarrow> p \<le> int k) \<Longrightarrow> chain_ok L j k (es @ [e])"
  by (induction es arbitrary: j) auto

definition grows :: "discord \<Rightarrow> discord \<Rightarrow> bool" where
  "grows d d' \<longleftrightarrow> (\<forall>sid. \<exists>es. logs d' sid = logs d sid @ es)"

lemma handled_grows:
  assumes "grows d d'" "handled_upto d l sid q"
  shows "handled_upto d' l sid q"
proof -
  obtain es where "logs d' sid = logs d sid @ es" using assms(1) by (auto simp: grows_def)
  then show ?thesis using assms(2) by (auto simp: handled_upto_def nth_append)
qed

lemma accepted_grows:
  assumes "grows d d'" "accepted_ok g d sid k"
  shows "accepted_ok g d' sid k"
proof -
  obtain es where es: "logs d' sid = logs d sid @ es" using assms(1) by (auto simp: grows_def)
  then show ?thesis
    using assms(2) handled_grows [OF assms(1)] by (auto simp: accepted_ok_def intro!: chain_ok_grow)
qed

text \<open>What Discord does on a connection other than the current one changes nothing.\<close>

lemma inv_discord:
  assumes inv: "gateway_inv g d" and gr: "grows d d'" and l: "logs_ok d'"
    and n: "\<And>m. conns d' m \<noteq> None \<Longrightarrow> m \<le> socketGeneration g"
    and c: "conns d' (socketGeneration g) = conns d (socketGeneration g)"
  shows "gateway_inv g d'"
proof -
  have "connection_ok g d'"
    using inv accepted_grows [OF gr] by (auto simp: gateway_inv_def connection_ok_def c split: option.splits)
  moreover have "session_ok g d'" using inv handled_grows [OF gr] by (auto simp: gateway_inv_def session_ok_def)
  moreover have "generations_ok g d'" using inv n by (auto simp: gateway_inv_def generations_ok_def)
  ultimately show ?thesis using l by (simp add: gateway_inv_def)
qed

lemma conns_bound: "gateway_inv g d \<Longrightarrow> conns d m \<noteq> None \<Longrightarrow> m \<le> socketGeneration g"
  by (simp add: gateway_inv_def generations_ok_def)

lemma frames_bound: "gateway_inv g d \<Longrightarrow> (m, f) \<in> set (frames_sent g) \<Longrightarrow> m \<le> socketGeneration g"
  by (fastforce simp: gateway_inv_def generations_ok_def)

lemma message_other: "n \<noteq> socketGeneration g \<Longrightarrow> handleMessage c m n random now g = g"
  by (simp add: handleMessage_def)

definition add_task :: "nat \<Rightarrow> envelope \<Rightarrow> gateway \<Rightarrow> gateway" where
  "add_task n e g = g\<lparr>dispatchChain := dispatchChain g @ [\<lparr>task_generation = n, task_envelope = e, in_control = False\<rparr>]\<rparr>"

lemma add_task_fields [simp]:
  "stored_session (add_task n e g) = stored_session g" "socket (add_task n e g) = socket g"
  "socketGeneration (add_task n e g) = socketGeneration g" "processedSequence (add_task n e g) = processedSequence g"
  "dispatchForwardingFailed (add_task n e g) = dispatchForwardingFailed g" "frames_sent (add_task n e g) = frames_sent g"
  "control_log (add_task n e g) = control_log g"
  by (simp_all add: add_task_def)

lemma tasks_of_add: "tasks_of m (add_task n e g) =
    tasks_of m g @ (if m = n then [\<lparr>task_generation = n, task_envelope = e, in_control = False\<rparr>] else [])"
  by (simp add: tasks_of_def add_task_def)

lemma inv_dispatch_frame:
  assumes op: "envelope_op e = 0" and n: "n = socketGeneration g" and inv: "gateway_inv (add_task n e g) d"
  shows "gateway_inv (handleMessage c (Parsed e) n random now g) d"
  using inv by (rule inv_core) (simp add: handleMessage_def n op Let_def add_task_def core_def split: option.split)

text \<open>A dispatch that arrives on the current connection.\<close>

lemma inv_add_task:
  assumes inv: "gateway_inv g d" and gr: "grows d d'" and l: "logs_ok d'"
    and n: "\<And>m. conns d' m \<noteq> None \<Longrightarrow> m \<le> socketGeneration g"
    and c: "conns d' (socketGeneration g) = Some (sid, k')" "k' \<le> length (logs d' sid)"
    and s: "\<And>s. stored_session g = Some s \<Longrightarrow> session_id s = sid"
    and w: "\<forall>t \<in> set (tl (tasks_of (socketGeneration g) g)). \<not> in_control t"
    and ch: "\<not> dispatchForwardingFailed g \<or> head_waits (tasks_of (socketGeneration g) g) \<Longrightarrow>
       \<exists>j. chain_ok (logs d' sid) j k' (chain_of (socketGeneration g) g @ [e]) \<and> handled_upto d' (control_log g) sid (int j)"
  shows "gateway_inv (add_task (socketGeneration g) e g) d'"
proof -
  let ?g = "add_task (socketGeneration g) e g"
  have "accepted_ok ?g d' sid k'" using c(2) s w ch
    by (cases "tasks_of (socketGeneration g) g") (auto simp: accepted_ok_def tasks_of_add head_waits_def)
  then have "connection_ok ?g d'" by (simp add: connection_ok_def c)
  moreover have "session_ok ?g d'" using inv handled_grows [OF gr] by (auto simp: gateway_inv_def session_ok_def)
  moreover have "generations_ok ?g d'" using inv n by (auto simp: gateway_inv_def generations_ok_def add_task_def)
  ultimately show ?thesis using l by (simp add: gateway_inv_def)
qed


lemma grows_logs: "grows d (d\<lparr>logs := (logs d)(sid := logs d sid @ es), conns := C\<rparr>)"
  by (simp add: grows_def)

lemma logs_snoc:
  assumes "logs_ok d" "envelope_op e = 0" "envelope_s e = Some (int (length (logs d sid)) + 1)" "\<not> is_resumed e"
    and "is_ready e \<Longrightarrow> logs d sid = [] \<and> ready_session e = Some sid"
  shows "logs_ok (d\<lparr>logs := (logs d)(sid := logs d sid @ [e]), conns := C\<rparr>)"
  using assms by (auto simp: logs_ok_def nth_append less_Suc_eq)

lemma inv_session_starts:
  assumes inv: "gateway_inv g d" and f: "(n, Identify p) \<in> set (frames_sent g)" and new: "conns d n = None" "logs d sid = []"
    and e: "envelope_op e = 0" "is_ready e" "envelope_s e = Some 1" "ready_session e = Some sid"
  shows "gateway_inv (handleMessage c (Parsed e) n random now g) (d\<lparr>logs := (logs d)(sid := [e]), conns := (conns d)(n := Some (sid, 1))\<rparr>)"
    (is "gateway_inv _ ?d")
proof -
  have gr: "grows d ?d" using grows_logs [where d = d and sid = sid and es = "[e]"] new(2) by simp
  have r: "\<not> is_resumed e" using e(2) ready_settled by blast
  have l: "logs_ok ?d" using logs_snoc [where d = d and e = e and sid = sid] inv e r new(2) by (simp add: gateway_inv_def)
  have b: "conns ?d m \<noteq> None \<Longrightarrow> m \<le> socketGeneration g" for m
    using conns_bound [OF inv] frames_bound [OF inv f] by (simp split: if_splits)
  show ?thesis
  proof (cases "n = socketGeneration g")
    case False
    then show ?thesis using inv_discord [OF inv gr l b] by (simp add: message_other)
  next
    case True
    have w: "waiting_ok g" using inv new True by (simp add: gateway_inv_def connection_ok_def)
    have h: "handled_upto ?d (control_log g) sid (int 0)" by (simp add: handled_upto_def)
    have "gateway_inv (add_task n e g) ?d" unfolding True
      by (rule inv_add_task [OF inv gr [unfolded True] l [unfolded True] b [unfolded True], of sid 1])
        (use True w f r h in \<open>auto simp: waiting_ok_def\<close>)
    then show ?thesis by (rule inv_dispatch_frame [OF e(1) True])
  qed
qed

lemma inv_session_resumes:
  assumes inv: "gateway_inv g d" and f: "(n, Resume_session p) \<in> set (frames_sent g)" and new: "conns d n = None"
  shows "gateway_inv g (d\<lparr>conns := (conns d)(n := Some (resume_session p, nat (resume_seq p)))\<rparr>)" (is "gateway_inv g ?d")
proof -
  have gr: "grows d ?d" by (simp add: grows_def)
  have l: "logs_ok ?d" using inv by (simp add: gateway_inv_def logs_ok_def)
  have b: "conns ?d m \<noteq> None \<Longrightarrow> m \<le> socketGeneration g" for m
    using conns_bound [OF inv] frames_bound [OF inv f] by (simp split: if_splits)
  show ?thesis
  proof (cases "n = socketGeneration g")
    case False
    then show ?thesis using inv_discord [OF inv gr l b] by simp
  next
    case True
    have w: "waiting_ok g" using inv new True by (simp add: gateway_inv_def connection_ok_def)
    have h: "handled_upto d (control_log g) (resume_session p) (resume_seq p)" using inv f by (simp add: gateway_inv_def session_ok_def)
    have h': "handled_upto ?d (control_log g) (resume_session p) (int (nat (resume_seq p)))"
      using h by (auto simp: handled_upto_def)
    have len: "nat (resume_seq p) \<le> length (logs d (resume_session p))" using h by (auto simp: handled_upto_def)
    have "accepted_ok g ?d (resume_session p) (nat (resume_seq p))"
      using w f True h' len by (auto simp: accepted_ok_def waiting_ok_def simp del: int_nat_eq)
    moreover have "session_ok g ?d" using inv handled_grows [OF gr] by (auto simp: gateway_inv_def session_ok_def)
    moreover have "generations_ok g ?d" using inv b by (auto simp: gateway_inv_def generations_ok_def)
    ultimately show ?thesis using l True by (simp add: gateway_inv_def connection_ok_def)
  qed
qed

lemma inv_event_happens:
  assumes inv: "gateway_inv g d" and e: "envelope_op e = 0" "\<not> is_ready e" "\<not> is_resumed e" "envelope_s e = Some (int (length (logs d sid)) + 1)"
  shows "gateway_inv g (d\<lparr>logs := (logs d)(sid := logs d sid @ [e])\<rparr>)"
  using inv_discord [OF inv grows_logs [where d = d and sid = sid and es = "[e]" and C = "conns d"]] logs_snoc [where d = d and e = e and sid = sid and C = "conns d"] inv e conns_bound [OF inv]
  by (simp add: gateway_inv_def)

lemma inv_delivered:
  assumes inv: "gateway_inv g d" and c: "conns d n = Some (sid, k)" and op: "envelope_op e = 0" and k: "k' \<le> length (logs d sid)"
    and ch: "\<And>j es. chain_ok (logs d sid) j k es \<Longrightarrow> chain_ok (logs d sid) j k' (es @ [e])"
  shows "gateway_inv (handleMessage cf (Parsed e) n random now g) (d\<lparr>conns := (conns d)(n := Some (sid, k'))\<rparr>)" (is "gateway_inv _ ?d")
proof -
  have gr: "grows d ?d" by (simp add: grows_def)
  have l: "logs_ok ?d" using inv by (simp add: gateway_inv_def logs_ok_def)
  have b: "conns ?d m \<noteq> None \<Longrightarrow> m \<le> socketGeneration g" for m
    using conns_bound [OF inv, of n] conns_bound [OF inv, of m] c by (simp split: if_splits)
  show ?thesis
  proof (cases "n = socketGeneration g")
    case False
    then show ?thesis using inv_discord [OF inv gr l b] by (simp add: message_other)
  next
    case True
    have a: "accepted_ok g d sid k" using inv c True by (simp add: gateway_inv_def connection_ok_def)
    have h: "handled_upto d q r s \<Longrightarrow> handled_upto ?d q r s" for q r s by (rule handled_grows [OF gr])
    have "\<exists>j. chain_ok (logs d sid) j k' (chain_of (socketGeneration g) g @ [e]) \<and> handled_upto ?d (control_log g) sid (int j)"
      if "\<not> dispatchForwardingFailed g \<or> head_waits (tasks_of (socketGeneration g) g)"
      using a that ch h unfolding accepted_ok_def by blast
    then have "gateway_inv (add_task n e g) ?d" unfolding True
      by (intro inv_add_task [OF inv gr [unfolded True] l [unfolded True] b [unfolded True], of sid k'])
        (use a k True in \<open>auto simp: accepted_ok_def\<close>)
    then show ?thesis by (rule inv_dispatch_frame [OF op True])
  qed
qed

theorem gateway_step_inv:
  assumes "gateway_step (g, d) (g', d')" "gateway_inv g d"
  shows "gateway_inv g' d'"
  using assms
proof (induction "(g, d)" "(g', d')" arbitrary: g' d' rule: gateway_step.induct)
  case (event_delivered n sid k c random now)
  let ?e = "logs d sid ! k"
  have "envelope_op ?e = 0" "\<not> is_resumed ?e" using event_delivered by (auto simp: gateway_inv_def logs_ok_def)
  then show ?case using event_delivered by (intro inv_delivered) (auto intro: chain_ok_snoc [simplified])
next
  case (resumed_delivered n sid k e c random now)
  have "k \<le> length (logs d sid) \<or> n \<noteq> socketGeneration g"
    using resumed_delivered by (auto simp: gateway_inv_def connection_ok_def accepted_ok_def)
  then show ?case
  proof
    assume "n \<noteq> socketGeneration g"
    then show ?thesis using resumed_delivered by (simp add: message_other)
  next
    assume k: "k \<le> length (logs d sid)"
    have "gateway_inv (handleMessage c (Parsed e) n random now g) (d\<lparr>conns := (conns d)(n := Some (sid, k))\<rparr>)"
      by (rule inv_delivered [OF resumed_delivered(5) resumed_delivered(1,2) k]) (use resumed_delivered in \<open>auto intro: chain_ok_resumed\<close>)
    then show ?thesis using resumed_delivered(1) by (simp add: fun_upd_idem)
  qed
next
  case (socket_open n) then show ?case by (auto simp: socket_opens_def intro: inv_core)
next
  case (socket_error n) then show ?case by (auto simp: socket_errors_def core_def intro: inv_core)
next
  case (recreated c now) then show ?case by (intro inv_created)
next
  case (connect fp c now k) then show ?case by (intro inv_ensure)
next
  case alarm_runs then show ?case by (auto intro: inv_core)
next
  case timer_runs then show ?case by (auto intro: inv_core)
next
  case (opened now) then show ?case unfolding connection_opened_def by (auto intro: inv_core)
next
  case (session_starts n p sid e c random now) then show ?case by (intro inv_session_starts) auto
next
  case (session_resumes n p) then show ?case by (intro inv_session_resumes)
next
  case (event_happens sid e) then show ?case by (intro inv_event_happens)
qed (auto intro: inv_metadata inv_heartbeat inv_reset inv_socket_closed inv_dispatch_starts inv_dispatch_answered inv_other_frame)

end
