(* ===== verification/DiscordGatewaySafety.thy ===== *)
theory DiscordGatewaySafety
  imports DiscordGatewayInvariant
begin

section \<open>The connection to Discord: properties\<close>

text \<open>
  The invariant on the runs of a gateway and Discord from the start, the sockets it holds open, and how a
  lost connection is taken up again.
\<close>

subsection \<open>Runs from the start\<close>

definition gateway_new :: "bridge_config \<Rightarrow> int \<Rightarrow> gateway" where
  "gateway_new c now =
     gateway_created c now
       \<lparr>stored_health = None, stored_session = None, stored_fingerprint = None, watchdog = None, socket = None,
        sockets = (\<lambda>k. Socket_closed), socketGeneration = 0, heartbeatTimer = None, reconnectTimer = None,
        heartbeatIntervalMs = 0, heartbeatAwaitingAck = False, reconnectAttempt = 0, gateway_sequence = None,
        processedSequence = None, lastSequencePersistAt = 0, dispatchesSinceSequencePersist = 0, dispatchChain = [],
        dispatchForwardingFailed = False, nextReconnectDelayMs = None, connectInFlight = None, callers = [],
        healthState = initialHealth c, frames_sent = [], closes_sent = [], control_log = [], bot_identity = None\<rparr>"

definition discord_new :: discord where "discord_new = \<lparr>logs = (\<lambda>sid. []), conns = (\<lambda>n. None)\<rparr>"

lemma inv_new: "gateway_inv (gateway_new c now) discord_new"
  by (simp add: inv_defs logs_ok_def gateway_new_def gateway_created_def discord_new_def tasks_of_def Let_def)

lemma reachable_inv:
  assumes "gateway_reachable (gateway_new c now, discord_new) (g, d)"
  shows "gateway_inv g d"
proof -
  have "gateway_inv (fst s) (snd s)" if "gateway_reachable (gateway_new c now, discord_new) s" for s
    using that by induction (auto simp: inv_new intro: gateway_step_inv [of "fst _" "snd _"] gateway_step_inv)
  from this [OF assms] show ?thesis by simp
qed

subsection \<open>One socket\<close>

definition live :: "gateway \<Rightarrow> nat \<Rightarrow> bool" where
  "live g m \<longleftrightarrow> sockets g m = Socket_open \<or> sockets g m = Socket_connecting"

definition sockets_ok :: "gateway \<Rightarrow> bool" where
  "sockets_ok g \<longleftrightarrow> (\<forall>m. live g m \<longrightarrow> socket g = Some m) \<and> (\<forall>k. socket g = Some k \<longrightarrow> k = socketGeneration g) \<and>
     (connectInFlight g = Some Awaiting_metadata \<longrightarrow> (\<forall>m. \<not> live g m))"

definition shape :: "gateway \<Rightarrow> _" where
  "shape g = (sockets g, socket g, socketGeneration g, connectInFlight g)"

lemma shape_small [simp]:
  "shape (persistHealth g) = shape g" "shape (set_health f g) = shape g" "shape (clearTimers g) = shape g"
  "shape (fatal r g) = shape g" "shape (gateway_send x n g) = shape g" "shape (scheduleHeartbeat n delay now g) = shape g"
  "shape (scheduleReconnect ex rnd now g) = shape g" "shape (persistProcessedSequence q b now g) = shape g"
  "shape (clearSession g) = shape g" "shape (end_task n g) = shape g" "shape (call_control n g) = shape g"
  by (simp_all add: shape_def persistHealth_def set_health_def clearTimers_def fatal_def gateway_send_def scheduleHeartbeat_def
      scheduleReconnect_def persistProcessedSequence_def clearSession_def end_task_def call_control_def Let_def split: option.split)

lemma shape_update [simp]:
  "shape (g\<lparr>heartbeatAwaitingAck := b\<rparr>) = shape g" "shape (g\<lparr>heartbeatTimer := h\<rparr>) = shape g"
  "shape (g\<lparr>reconnectTimer := t\<rparr>) = shape g" "shape (g\<lparr>watchdog := w\<rparr>) = shape g" "shape (g\<lparr>callers := cs\<rparr>) = shape g"
  "shape (g\<lparr>heartbeatIntervalMs := i\<rparr>) = shape g" "shape (g\<lparr>gateway_sequence := q\<rparr>) = shape g"
  "shape (g\<lparr>nextReconnectDelayMs := nd\<rparr>) = shape g" "shape (g\<lparr>stored_fingerprint := fp\<rparr>) = shape g"
  "shape (g\<lparr>reconnectAttempt := a\<rparr>) = shape g" "shape (g\<lparr>bot_identity := bi\<rparr>) = shape g"
  "shape (g\<lparr>dispatchesSinceSequencePersist := m\<rparr>) = shape g" "shape (g\<lparr>lastSequencePersistAt := m'\<rparr>) = shape g"
  "shape (g\<lparr>dispatchForwardingFailed := f\<rparr>) = shape g" "shape (g\<lparr>control_log := l\<rparr>) = shape g"
  "shape (g\<lparr>dispatchChain := ch\<rparr>) = shape g" "shape (g\<lparr>stored_session := s\<rparr>) = shape g" "shape (g\<lparr>processedSequence := p\<rparr>) = shape g"
  by (simp_all add: shape_def)

text \<open>Nothing is opened: sockets may only begin to close.\<close>

definition quiet :: "gateway \<Rightarrow> gateway \<Rightarrow> bool" where
  "quiet g g' \<longleftrightarrow> socket g' = socket g \<and> socketGeneration g' = socketGeneration g \<and> connectInFlight g' = connectInFlight g \<and>
     (\<forall>m. live g' m \<longrightarrow> live g m)"

lemma quiet_ok: "sockets_ok g \<Longrightarrow> quiet g g' \<Longrightarrow> sockets_ok g'"
  by (auto simp: sockets_ok_def quiet_def)

lemma quiet_shape: "shape g' = shape g \<Longrightarrow> quiet g g'"
  by (simp add: shape_def quiet_def live_def)

lemma quiet_close: "shape g' = shape g \<Longrightarrow> shape g'' = shape (close_socket code g') \<Longrightarrow> quiet g g''"
  by (auto simp: shape_def quiet_def live_def close_socket_def split: option.splits if_splits)

lemmas quiet_intros = quiet_shape quiet_close

lemma close_not_live: "sockets_ok g \<Longrightarrow> \<not> live (close_socket code g) m"
  by (auto simp: sockets_ok_def live_def close_socket_def split: option.split)

lemma quiet_hello: "quiet g (onHello c e n random now g)"
proof -
  have "quiet g (authenticate c n now g')" if "shape g' = shape g" for g'
    using that by (auto simp: authenticate_def split: option.split intro: quiet_shape quiet_close [of "fatal _ g'"])
  then show ?thesis by (auto simp: onHello_def split: option.split intro: quiet_close)
qed


lemma quiet_processed: "shape (dispatch_processed e n now g) = shape g"
  by (simp add: dispatch_processed_def split: option.split)

lemma quiet_ready: "shape (ready_accepted e n now g) = shape g"
  by (simp add: ready_accepted_def Let_def)

lemma quiet_failed: "shape g' = shape g \<Longrightarrow> quiet g (dispatch_failed_close n g')"
  unfolding dispatch_failed_close_def by (rule quiet_close [of "g'\<lparr>dispatchForwardingFailed := True\<rparr>"]) simp_all

lemma quiet_end_close: "shape g' = shape g \<Longrightarrow> quiet g (end_task n (close_socket code g'))"
  by (rule quiet_close [of g']) simp_all

lemma quiet_starts: "quiet g (dispatch_starts c n now g)"
proof -
  have "shape (case envelope_s e of None \<Rightarrow> g | Some s \<Rightarrow> persistProcessedSequence s True now g) = shape g" for e
    by (simp split: option.split)
  then show ?thesis
    by (simp add: dispatch_starts_def Let_def quiet_processed quiet_failed quiet_end_close quiet_shape split: option.split)
qed

lemma quiet_answered: "quiet g (dispatch_answered handled ok n now g)"
  by (auto simp: dispatch_answered_def Let_def quiet_processed quiet_ready split: option.split intro!: quiet_shape quiet_failed)

lemma quiet_message: "quiet g (handleMessage c m n random now g)"
proof (cases m)
  case (Parsed e)
  let ?g = "case envelope_s e of None \<Rightarrow> g | Some s \<Rightarrow> g\<lparr>gateway_sequence := Some s\<rparr>"
  have s: "shape ?g = shape g" by (simp split: option.split)
  have "quiet g (onHello c e n random now ?g)"
    using quiet_hello [of ?g] quiet_shape [OF s] by (auto simp: quiet_def)
  moreover have "quiet g (session_invalid b random ?g)" for b
    by (rule quiet_close [of "clearSession ?g"]) (auto simp: session_invalid_def s shape_def close_socket_def clearSession_def split: option.splits)
  ultimately show ?thesis using s
    by (auto simp: handleMessage_def Parsed Let_def acknowledged_def heartbeat_requested_def intro: quiet_shape quiet_close)
qed (auto simp: handleMessage_def intro: quiet_shape quiet_close)

lemma quiet_heartbeat: "quiet g (heartbeat_fires now g)"
  by (auto simp: heartbeat_fires_def Let_def split: option.split
      intro: quiet_shape quiet_close [of "g\<lparr>heartbeatTimer := None\<rparr>"])

lemma refresh_shape:
  "shape (refreshConfigurationIdentity fp c g) = shape g \<or>
   shape (refreshConfigurationIdentity fp c g) = (sockets (close_socket 1000 g), None, socketGeneration g + 1, connectInFlight g)"
  by (auto simp: refreshConfigurationIdentity_def Let_def)
    (auto simp: shape_def clearSession_def close_socket_def clearTimers_def set_health_def split: option.splits)

lemma sockets_refresh:
  assumes "sockets_ok g"
  shows "sockets_ok (refreshConfigurationIdentity fp c g) \<and>
    connectInFlight (refreshConfigurationIdentity fp c g) = connectInFlight g"
  using refresh_shape [of fp c g]
proof
  assume "shape (refreshConfigurationIdentity fp c g) = shape g"
  then show ?thesis using quiet_ok [OF assms] by (auto simp: quiet_shape shape_def)
next
  assume s: "shape (refreshConfigurationIdentity fp c g) = (sockets (close_socket 1000 g), None, socketGeneration g + 1, connectInFlight g)"
  then have "live (refreshConfigurationIdentity fp c g) m = live (close_socket 1000 g) m" for m by (simp add: live_def shape_def)
  then show ?thesis using s close_not_live [OF assms] by (simp add: sockets_ok_def shape_def)
qed


lemma caller_shape [simp]: "shape (caller_returns now k g) = shape g \<and> shape (caller_fails r now k g) = shape g"
  by (cases k) simp_all

lemma fold_shape: "(\<And>g k. shape (f g k) = shape g) \<Longrightarrow> shape (foldl f g ks) = shape g"
  by (induction ks arbitrary: g) simp_all

lemma shape_all:
  "shape (all_return now g) = shape (g\<lparr>connectInFlight := None\<rparr>)" "shape (all_fail r now g) = shape (g\<lparr>connectInFlight := None\<rparr>)"
  by (simp_all add: all_return_def all_fail_def fold_shape)

lemma sockets_shape: "shape g' = shape g \<Longrightarrow> sockets_ok g' \<longleftrightarrow> sockets_ok g"
  by (simp add: shape_def sockets_ok_def live_def)

lemma sockets_idle: "sockets_ok g \<Longrightarrow> sockets_ok (g\<lparr>connectInFlight := None\<rparr>)"
  by (simp add: sockets_ok_def live_def)

lemma sockets_ensure:
  assumes "sockets_ok g"
  shows "sockets_ok (ensureConnected fp c now k g)"
proof -
  let ?r = "refreshConfigurationIdentity fp c g"
  have r: "sockets_ok ?r" using sockets_refresh [OF assms] by blast
  have q: "sockets_ok g'" if "shape g' = shape ?r" for g' using that r sockets_shape by blast
  have o: "sockets_ok (openGatewayConnection c now k ?r)" if "\<forall>m. \<not> live ?r m"
  proof -
    have "sockets_ok (g'\<lparr>connectInFlight := Some Awaiting_metadata, callers := ks\<rparr>)" if "shape g' = shape ?r" for g' ks
      using r that \<open>\<forall>m. \<not> live ?r m\<close> by (simp add: shape_def sockets_ok_def live_def)
    then show ?thesis by (simp add: openGatewayConnection_def Let_def q)
  qed
  have "\<forall>m. \<not> live ?r m" if "\<not> (case socket ?r of None \<Rightarrow> False | Some n \<Rightarrow> sockets ?r n = Socket_open \<or> sockets ?r n = Socket_connecting)"
    using that r by (auto simp: sockets_ok_def live_def split: option.splits)
  then show ?thesis using o unfolding ensureConnected_def Let_def by (simp add: q)
qed

lemma sockets_metadata:
  assumes ok: "sockets_ok g" and p: "connectInFlight g = Some Awaiting_metadata"
  shows "sockets_ok (metadata_arrives url_ok m random now g)"
proof -
  have i: "sockets_ok g'" if "shape g' = shape (g''\<lparr>connectInFlight := None\<rparr>)" "shape g'' = shape g" for g' g''
    using that sockets_idle [OF ok] by (simp add: shape_def sockets_ok_def live_def)
  have n: "sockets_ok (g'\<lparr>socketGeneration := Suc (socketGeneration g'), dispatchForwardingFailed := False,
      socket := Some (Suc (socketGeneration g')), sockets := (sockets g')(Suc (socketGeneration g') := Socket_connecting),
      connectInFlight := Some Awaiting_alarm\<rparr>)" if "shape g' = shape g" for g'
    using ok p that by (simp add: shape_def sockets_ok_def live_def)
  show ?thesis
  proof (cases m)
    case None then show ?thesis by (simp add: metadata_arrives_def i [OF shape_all(2)])
  next
    case (Some md)
    define g1 where "g1 = set_health (\<lambda>h. h\<lparr>sessionStartsRemaining := Some (starts_remaining md),
      sessionStartsResetAt := Some (now + starts_reset_after md), maxConcurrency := Some (starts_concurrency md),
      recommendedShardCount := Some (metadata_shards md)\<rparr>) g"
    define g2 where "g2 = persistHealth (set_health (\<lambda>h. h\<lparr>lastHeartbeatAt := None, lastHeartbeatAckAt := None,
      health_state := Connecting\<rparr>) (g1\<lparr>heartbeatAwaitingAck := False\<rparr>))"
    have s: "shape g1 = shape g" "shape g2 = shape g" by (simp_all add: g1_def g2_def)
    then have "shape (fatal r g1) = shape g" for r by simp
    then show ?thesis
      by (simp add: metadata_arrives_def Some Let_def g1_def [symmetric] g2_def [symmetric]
          i [OF shape_all(1)] i [OF shape_all(2)] n s)
  qed
qed

lemma close_shape:
  assumes "n = socketGeneration g"
  shows "shape (handleClose code n random now g) = (sockets g, None, socketGeneration g, connectInFlight g)"
proof -
  have s: "shape (x\<lparr>socket := None\<rparr>) = (sockets g, None, socketGeneration g, connectInFlight g)" if "shape x = shape g" for x
    using that by (simp add: shape_def)
  then show ?thesis using assms
    by (cases "processedSequence g") (simp_all add: handleClose_def Let_def s split: close_action.split)
qed

lemma sockets_closed:
  assumes "sockets_ok g"
  shows "sockets_ok (socket_closed code n random now g)"
proof -
  let ?g = "g\<lparr>sockets := (sockets g)(n := Socket_closed)\<rparr>"
  have l: "live ?g m \<longleftrightarrow> live g m \<and> m \<noteq> n" for m by (simp add: live_def)
  have g: "sockets_ok ?g" using assms by (simp add: sockets_ok_def l)
  show ?thesis
  proof (cases "n = socketGeneration g")
    case True
    have none: "\<not> live ?g m" for m using assms True unfolding sockets_ok_def l by blast
    have "shape (handleClose code n random now ?g) = (sockets ?g, None, socketGeneration g, connectInFlight g)"
      using close_shape [of n ?g] True by simp
    then show ?thesis using none unfolding socket_closed_def by (simp add: shape_def sockets_ok_def live_def)
  qed (use g in \<open>simp add: socket_closed_def handleClose_def\<close>)
qed

lemma sockets_reset: "sockets_ok g \<Longrightarrow> sockets_ok (gateway_reset g)"
proof -
  assume g: "sockets_ok g"
  let ?c = "close_socket 1000 (clearTimers g)"
  have "\<not> live ?c m" for m by (rule close_not_live) (use g in \<open>simp add: sockets_shape [of "clearTimers g" g]\<close>)
  then have "sockets_ok (?c\<lparr>socket := None\<rparr>)" by (simp add: sockets_ok_def live_def)
  then show ?thesis unfolding gateway_reset_def by (subst sockets_shape [of _ "?c\<lparr>socket := None\<rparr>"]) simp_all
qed

lemma sockets_step:
  assumes "gateway_step (g, d) (g', d')" "sockets_ok g"
  shows "sockets_ok g'"
  using assms
proof (induction "(g, d)" "(g', d')" arbitrary: g' d' rule: gateway_step.induct)
  case (recreated c now) then show ?case by (simp add: gateway_created_def sockets_ok_def live_def Let_def)
next
  case alarm_runs then show ?case by (simp add: sockets_shape [of "g\<lparr>watchdog := None\<rparr>" g])
next
  case timer_runs then show ?case by (simp add: sockets_shape [of "g\<lparr>reconnectTimer := None\<rparr>" g])
next
  case (opened now)
  have "shape (connection_opened now g) = shape (g\<lparr>connectInFlight := None\<rparr>)"
    unfolding connection_opened_def shape_all by (simp add: shape_def)
  then show ?case using opened sockets_idle sockets_shape by blast
next
  case (socket_open n) then show ?case by (auto simp: socket_opens_def sockets_ok_def live_def)
next
  case (socket_error n) then show ?case by (auto simp: socket_errors_def sockets_ok_def live_def)
qed (auto intro: sockets_ensure sockets_metadata sockets_closed sockets_reset
    quiet_ok [OF _ quiet_message] quiet_ok [OF _ quiet_starts] quiet_ok [OF _ quiet_answered] quiet_ok [OF _ quiet_heartbeat])

lemma reachable_sockets:
  assumes "gateway_reachable (gateway_new c now, discord_new) (g, d)"
  shows "sockets_ok g"
proof -
  have "sockets_ok (fst s)" if "gateway_reachable (gateway_new c now, discord_new) s" for s
    using that
  proof induction
    case start then show ?case by (simp add: gateway_new_def gateway_created_def sockets_ok_def live_def Let_def)
  next
    case (step s s') then show ?case by (cases s; cases s') (auto intro: sockets_step)
  qed
  from this [OF assms] show ?thesis by simp
qed


subsection \<open>A connection that is lost is taken up again\<close>

text \<open>What follows a close: the timer fires, the metadata and the socket arrive, Discord greets.\<close>

definition reopened ::
    "(string \<Rightarrow> bool) \<Rightarrow> string \<Rightarrow> bridge_config \<Rightarrow> bot_metadata \<Rightarrow> envelope \<Rightarrow> rat \<Rightarrow> int \<Rightarrow> gateway \<Rightarrow> gateway" where
  "reopened url_ok fp c m hello random t g =
     (let g1 = reconnect_fires fp c t g;
          g2 = connection_opened t (metadata_arrives url_ok (Some m) random t g1);
          n = socketGeneration g2
      in handleMessage c (Parsed hello) n random t (socket_opens n g2))"

lemma close_resumable:
  assumes n: "n = socketGeneration g" and f: "health_state (healthState g) \<noteq> Fatal_state"
    and code: "classifyDiscordGatewayClose code \<noteq> Fatal"
    and g': "g' = socket_closed code n random now g"
  shows "health_state (healthState g') = Reconnecting" "socket g' = None" "socketGeneration g' = n"
    "connectInFlight g' = connectInFlight g" "stored_fingerprint g' = stored_fingerprint g" "frames_sent g' = frames_sent g"
    "bot_identity g' = bot_identity g"
    "reconnectTimer g' = Some (now + (case nextReconnectDelayMs g of Some d \<Rightarrow> d | None \<Rightarrow> discordReconnectDelayMs (reconnectAttempt g) random))"
    "stored_session g' = (if classifyDiscordGatewayClose code = Reidentify then None
       else map_option (\<lambda>s. (case processedSequence g of None \<Rightarrow> s | Some q \<Rightarrow> s\<lparr>session_sequence := q, session_updated := now\<rparr>)) (stored_session g))"
  using n f code unfolding g' socket_closed_def handleClose_def
  by (cases "processedSequence g"; cases "stored_session g"; cases "classifyDiscordGatewayClose code";
      simp add: persistHealth_def set_health_def clearTimers_def scheduleReconnect_def
        persistProcessedSequence_def clearSession_def Let_def split: option.split)+


lemma reconnect_opens:
  assumes "health_state (healthState g) = Reconnecting" "socket g = None" "connectInFlight g = None"
    and "stored_fingerprint g = Some fp" "bot_token c \<noteq> []" "application_id c \<noteq> []"
  shows "connectInFlight (reconnect_fires fp c now g) = Some Awaiting_metadata" (is ?a)
    and "socketGeneration (reconnect_fires fp c now g) = socketGeneration g" (is ?b)
    and "frames_sent (reconnect_fires fp c now g) = frames_sent g" (is ?c)
    and "stored_session (reconnect_fires fp c now g) = stored_session g" (is ?d)
proof -
  let ?g = "g\<lparr>reconnectTimer := None\<rparr>"
  have r: "refreshConfigurationIdentity fp c ?g =
      persistHealth (set_health (\<lambda>h. h\<lparr>health_mode := discordContentMode c\<rparr>) (?g\<lparr>stored_fingerprint := Some fp\<rparr>))"
    using assms(4) by (simp add: refreshConfigurationIdentity_def)
  have "reconnect_fires fp c now g =
      (refreshConfigurationIdentity fp c ?g)\<lparr>connectInFlight := Some Awaiting_metadata, callers := [From_timer]\<rparr>"
    unfolding reconnect_fires_def ensureConnected_def Let_def r using assms
    by (simp add: openGatewayConnection_def Let_def persistHealth_def set_health_def)
  then show ?a ?b ?c ?d by (simp_all add: r) (simp_all add: persistHealth_def set_health_def Let_def)
qed

lemma fold_health: "(\<And>g k. healthState (f g k) = healthState g) \<Longrightarrow> healthState (foldl f g ks) = healthState g"
  by (induction ks arbitrary: g) simp_all

lemma opened_fields:
  "healthState (connection_opened now g) = healthState g" "stored_session (connection_opened now g) = stored_session g"
  "frames_sent (connection_opened now g) = frames_sent g" "socket (connection_opened now g) = socket g"
  "sockets (connection_opened now g) = sockets g" "socketGeneration (connection_opened now g) = socketGeneration g"
proof -
  have "healthState (caller_returns now k x) = healthState x" for k x by (cases k) simp_all
  then show "healthState (connection_opened now g) = healthState g"
    by (simp add: connection_opened_def all_return_def fold_health)
  have "core (connection_opened now g) = core g" by (simp add: connection_opened_def)
  then show "stored_session (connection_opened now g) = stored_session g" "frames_sent (connection_opened now g) = frames_sent g"
    "socket (connection_opened now g) = socket g" "socketGeneration (connection_opened now g) = socketGeneration g"
    by (simp_all add: core_def)
  have "shape (connection_opened now g) = shape (g\<lparr>watchdog := Some (now + WATCHDOG_INTERVAL_MS), connectInFlight := None\<rparr>)"
    by (simp add: connection_opened_def shape_all)
  then show "sockets (connection_opened now g) = sockets g" by (simp add: shape_def)
qed

lemma metadata_opens:
  assumes "metadata_shards m \<le> 1" "url_ok (metadata_url m)" "\<And>s. stored_session g = Some s \<Longrightarrow> url_ok (resume_url s)"
    and g': "g' = metadata_arrives url_ok (Some m) random now g"
  shows "socketGeneration g' = socketGeneration g + 1" "socket g' = Some (socketGeneration g + 1)"
    "sockets g' (socketGeneration g + 1) = Socket_connecting" "stored_session g' = stored_session g"
    "frames_sent g' = frames_sent g" "health_state (healthState g') = Connecting"
    "sessionStartsRemaining (healthState g') = Some (starts_remaining m)"
proof -
  have ok: "url_ok (if or_default [] (map_option resume_url (stored_session g)) = [] then metadata_url m
      else or_default [] (map_option resume_url (stored_session g)))"
    using assms(2,3) by (cases "stored_session g") (auto simp: or_default_def)
  show "socketGeneration g' = socketGeneration g + 1" "socket g' = Some (socketGeneration g + 1)"
    "sockets g' (socketGeneration g + 1) = Socket_connecting" "stored_session g' = stored_session g"
    "frames_sent g' = frames_sent g" "health_state (healthState g') = Connecting"
    "sessionStartsRemaining (healthState g') = Some (starts_remaining m)"
    unfolding g' metadata_arrives_def using assms(1) ok
    by (cases "or_default [] (map_option resume_url (stored_session g)) = []"; simp add: Let_def persistHealth_def set_health_def)+
qed

lemma hello_authenticates:
  assumes "envelope_op hello = 10" "envelope_s hello = None" "hello_interval hello = Some i" "0 < i"
    and "socket g = Some n" "socketGeneration g = n" "sockets g n = Socket_open"
    and "stored_session g = None \<Longrightarrow> sessionStartsRemaining (healthState g) = Some r \<and> 0 < r"
    and g': "g' = handleMessage c (Parsed hello) n random now g"
  shows "frames_sent g' = frames_sent g @ [(n, case stored_session g of
      Some s \<Rightarrow> Resume_session (discordResumePayload (bot_token c) (session_id s) (session_sequence s))
    | None \<Rightarrow> Identify (discordIdentifyPayload (bot_token c) (discordContentMode c) 0 1))]"
    and "socket g' = Some n" "sockets g' n = Socket_open" "health_state (healthState g') = health_state (healthState g)"
    and "heartbeatTimer g' \<noteq> None"
  using assms(1-8) unfolding g' handleMessage_def
  by (cases "stored_session g"; simp add: Let_def onHello_def authenticate_def gateway_send_def persistHealth_def set_health_def
      scheduleHeartbeat_def)+


lemma lost_connection:
  assumes n: "n = socketGeneration g" and f: "health_state (healthState g) \<noteq> Fatal_state"
    and code: "classifyDiscordGatewayClose code \<noteq> Fatal" and fl: "connectInFlight g = None"
    and cfg: "stored_fingerprint g = Some fp" "bot_token c \<noteq> []" "application_id c \<noteq> []"
    and req: "\<And>d. nextReconnectDelayMs g = Some d \<Longrightarrow> 0 \<le> d \<and> d \<le> 60000"
    and m: "metadata_shards m \<le> 1" "0 < starts_remaining m" "url_ok (metadata_url m)"
      "\<And>s. stored_session g = Some s \<Longrightarrow> url_ok (resume_url s)"
    and h: "envelope_op hello = 10" "envelope_s hello = None" "hello_interval hello = Some i" "0 < i"
    and g1: "g1 = socket_closed code n random now g" and g': "g' = reopened url_ok fp c m hello random' t g1"
  shows "(\<exists>due. reconnectTimer g1 = Some due \<and> now \<le> due \<and> due \<le> now + 60000) \<and>
    socket g' = Some (n + 1) \<and> sockets g' (n + 1) = Socket_open \<and> heartbeatTimer g' \<noteq> None \<and>
    frames_sent g' = frames_sent g @ [(n + 1,
      case (if classifyDiscordGatewayClose code = Reidentify then None else stored_session g) of
        Some s \<Rightarrow> Resume_session (discordResumePayload (bot_token c) (session_id s) (or_default (session_sequence s) (processedSequence g)))
      | None \<Rightarrow> Identify (discordIdentifyPayload (bot_token c) (discordContentMode c) 0 1))]"
proof -
  note cl = close_resumable [OF n f code g1]
  have due: "\<exists>due. reconnectTimer g1 = Some due \<and> now \<le> due \<and> due \<le> now + 60000"
    using cl(8) req reconnect_delay_bounds [of "reconnectAttempt g" random] by (auto split: option.split)
  define g2 where "g2 = reconnect_fires fp c t g1"
  note r = reconnect_opens [OF cl(1,2) _ _ cfg(2,3), of fp t, unfolded cl, OF fl cfg(1), folded g2_def]
  define g3 where "g3 = metadata_arrives url_ok (Some m) random' t g2"
  have u: "url_ok (resume_url s)" if "stored_session g2 = Some s" for s
    using that r(4) m(4) by (auto simp: cl(9) split: if_splits option.splits)
  note md = metadata_opens [OF m(1,3) u g3_def]
  define g4 where "g4 = socket_opens (n + 1) (connection_opened t g3)"
  have n3: "socketGeneration g3 = n + 1" using md(1) r(2) cl(3) by simp
  have f4: "socket g4 = Some (n + 1)" "socketGeneration g4 = n + 1" "sockets g4 (n + 1) = Socket_open"
    "stored_session g4 = stored_session g1" "frames_sent g4 = frames_sent g"
    "sessionStartsRemaining (healthState g4) = Some (starts_remaining m)"
    using md r cl(3,6,9) n3 by (simp_all add: g4_def socket_opens_def opened_fields)
  have g'4: "g' = handleMessage c (Parsed hello) (n + 1) random' t g4"
    unfolding g' reopened_def Let_def g2_def [symmetric] g3_def [symmetric] by (simp add: opened_fields n3 g4_def)
  note ha = hello_authenticates [OF h f4(1-3) _ g'4, of "starts_remaining m"]
  show ?thesis using due ha f4 m(2) by (auto simp: cl(9) split: option.split)
qed


subsection \<open>The properties\<close>

text \<open>
  C7: whatever happens to the gateway, to its sockets and to the control object, the session it has
  stored and every Resume frame it has sent name a sequence up to which the control object has handled
  each dispatch that the gateway forwards: what Discord leaves out when the session is resumed is never
  lost.
\<close>

theorem resume_never_skips:
  assumes "gateway_reachable (gateway_new c now, discord_new) (g, d)"
    and "stored_session g = Some s \<and> sid = session_id s \<and> q = session_sequence s \<or>
      (n, Resume_session p) \<in> set (frames_sent g) \<and> sid = resume_session p \<and> q = resume_seq p"
    and "int k < q" "forwarded (logs d sid ! k)"
  shows "k < length (logs d sid) \<and> logs d sid ! k \<in> set (control_log g)"
proof -
  have "handled_upto d (control_log g) sid q"
    using reachable_inv [OF assms(1)] assms(2) by (auto simp: gateway_inv_def session_ok_def)
  then show ?thesis using assms(3,4) by (auto simp: handled_upto_def)
qed

definition demo_config :: bridge_config where
  "demo_config = \<lparr>bot_token = ''token'', application_id = ''app'', content_mode_setting = None, ingress_setting = None, outbound_setting = None\<rparr>"

definition demo_frame :: "int \<Rightarrow> int option \<Rightarrow> string option \<Rightarrow> envelope" where
  "demo_frame op s t = \<lparr>envelope_op = op, envelope_s = s, envelope_t = t, data_present = True, data_true = False,
     hello_interval = Some 1000, ready_session = Some ''sid'', ready_url = Some ''url'', ready_user = Some ''app'', envelope_body = []\<rparr>"

definition demo_metadata :: bot_metadata where
  "demo_metadata = \<lparr>metadata_url = ''wss'', metadata_shards = 1, starts_remaining = 5, starts_reset_after = 0, starts_concurrency = 1\<rparr>"

abbreviation "demo_ready \<equiv> demo_frame 0 (Some 1) (Some ''READY'')"
abbreviation "demo_message \<equiv> demo_frame 0 (Some 2) (Some ''MESSAGE_CREATE'')"

definition demo_connected :: gateway where
  "demo_connected = handleMessage demo_config (Parsed (demo_frame 10 None None)) 2 0 4 (socket_opens 2 (connection_opened 3
     (metadata_arrives (\<lambda>u. True) (Some demo_metadata) 0 2 (ensureConnected [] demo_config 1 From_request (gateway_new demo_config 0)))))"

definition demo_session :: gateway where
  "demo_session = dispatch_answered True True 2 7 (dispatch_starts demo_config 2 6
     (handleMessage demo_config (Parsed demo_ready) 2 0 5 demo_connected))"

definition demo_handled :: gateway where
  "demo_handled = dispatch_answered True True 2 10 (dispatch_starts demo_config 2 9
     (handleMessage demo_config (Parsed demo_message) 2 0 8 demo_session))"

lemma demo_phase:
  "connectInFlight (ensureConnected [] demo_config 1 From_request (gateway_new demo_config 0)) = Some Awaiting_metadata"
  "connectInFlight (metadata_arrives (\<lambda>u. True) (Some demo_metadata) 0 2
     (ensureConnected [] demo_config 1 From_request (gateway_new demo_config 0))) = Some Awaiting_alarm"
  "frames_sent demo_connected = [(2, Identify (discordIdentifyPayload ''token'' Full 0 1))]"
  by code_simp+

lemma demo_stored:
  "stored_session (socket_closed 1006 2 0 11 demo_handled) =
     Some \<lparr>session_id = ''sid'', resume_url = ''url'', session_sequence = 2, session_updated = 11\<rparr>"
  by code_simp


definition demo_discord :: "envelope list \<Rightarrow> nat \<Rightarrow> discord" where
  "demo_discord l k = \<lparr>logs = (\<lambda>sid. [])(''sid'' := l), conns = (\<lambda>n. None)(2 := Some (''sid'', k))\<rparr>"

lemma demo_reachable:
  "gateway_reachable (gateway_new demo_config 0, discord_new) (socket_closed 1006 2 0 11 demo_handled, demo_discord [demo_ready, demo_message] 2)"
proof -
  let ?R = "gateway_reachable (gateway_new demo_config 0, discord_new)"
  note st = gateway_reachable.step
  have r: "?R (demo_connected, discord_new)"
    unfolding demo_connected_def
    by (intro st [OF _ other_frame] st [OF _ socket_open] st [OF _ opened] st [OF _ metadata] st [OF _ connect] gateway_reachable.start demo_phase)
      (simp add: demo_frame_def)
  have d1: "demo_discord [demo_ready] 1 = discord_new\<lparr>logs := (logs discord_new)(''sid'' := [demo_ready]), conns := (conns discord_new)(2 := Some (''sid'', 1))\<rparr>"
    by (simp add: demo_discord_def discord_new_def)
  have "gateway_step (demo_connected, discord_new) (handleMessage demo_config (Parsed demo_ready) 2 0 5 demo_connected, demo_discord [demo_ready] 1)"
    unfolding d1 by (rule session_starts) (auto simp: demo_phase discord_new_def demo_frame_def is_ready_def or_default_def)
  from st [OF r this] have "?R (demo_session, demo_discord [demo_ready] 1)"
    unfolding demo_session_def by (intro st [OF _ dispatch_answer] st [OF _ dispatch_start])
  then have m: "?R (demo_session, demo_discord [demo_ready, demo_message] 1)"
  proof (rule st)
    have d2: "demo_discord [demo_ready, demo_message] 1 =
        (demo_discord [demo_ready] 1)\<lparr>logs := (logs (demo_discord [demo_ready] 1))(''sid'' := logs (demo_discord [demo_ready] 1) ''sid'' @ [demo_message])\<rparr>"
      by (simp add: demo_discord_def)
    show "gateway_step (demo_session, demo_discord [demo_ready] 1) (demo_session, demo_discord [demo_ready, demo_message] 1)"
      unfolding d2 by (rule event_happens) (simp_all add: demo_discord_def demo_frame_def is_ready_def is_resumed_def or_default_def)
  qed
  let ?d = "demo_discord [demo_ready, demo_message]"
  have d3: "?d 2 = (?d 1)\<lparr>conns := (conns (?d 1))(2 := Some (''sid'', 1 + 1))\<rparr>" by (simp add: demo_discord_def numeral_2_eq_2)
  have e: "logs (?d 1) ''sid'' ! 1 = demo_message" "conns (?d 1) 2 = Some (''sid'', 1)" "1 < length (logs (?d 1) ''sid'')"
    by (simp_all add: demo_discord_def)
  have "?R (handleMessage demo_config (Parsed demo_message) 2 0 8 demo_session, ?d 2)"
    by (rule st [OF m event_delivered [OF e(2,3), of demo_session demo_config 0 8, unfolded e(1) d3 [symmetric]]])
  then show ?thesis unfolding demo_handled_def
    by (intro st [OF _ socket_close] st [OF _ dispatch_answer] st [OF _ dispatch_start])
qed

theorem resume_never_skips_witness:
  "demo_message \<in> set (control_log (socket_closed 1006 2 0 11 demo_handled))"
  using resume_never_skips [OF demo_reachable, of "\<lparr>session_id = ''sid'', resume_url = ''url'', session_sequence = 2, session_updated = 11\<rparr>" "''sid''" 2 0 _ 1] demo_stored
  by (simp add: demo_discord_def forwarded_def FORWARDED_DISPATCHES_def demo_frame_def or_default_def)

text \<open>
  C8: of all the sockets the gateway has opened, at most one is connecting or open, and it is the one whose
  events the gateway listens to. So there is never a second session of the bot beside the current one.
\<close>

theorem one_live_connection:
  assumes "gateway_reachable (gateway_new c now, discord_new) (g, d)"
    and "sockets g m = Socket_open \<or> sockets g m = Socket_connecting"
  shows "socket g = Some m \<and> m = socketGeneration g"
  using reachable_sockets [OF assms(1)] assms(2) unfolding sockets_ok_def live_def by blast

theorem one_live_connection_witness:
  "\<exists>d. gateway_reachable (gateway_new demo_config 0, discord_new) (demo_connected, d) \<and> socket demo_connected = Some 2"
proof -
  have r: "gateway_reachable (gateway_new demo_config 0, discord_new) (demo_connected, discord_new)"
    unfolding demo_connected_def
    by (intro gateway_reachable.step [OF _ other_frame] gateway_reachable.step [OF _ socket_open]
        gateway_reachable.step [OF _ opened] gateway_reachable.step [OF _ metadata] gateway_reachable.step [OF _ connect]
        gateway_reachable.start demo_phase) (simp add: demo_frame_def)
  have "sockets demo_connected 2 = Socket_open" by code_simp
  with one_live_connection [OF r, of 2] r show ?thesis by blast
qed


lemma demo_open:
  "socketGeneration demo_handled = 2" "health_state (healthState demo_handled) = Ready_state"
  "connectInFlight demo_handled = None" "stored_fingerprint demo_handled = Some []" "nextReconnectDelayMs demo_handled = None"
  "frames_sent demo_handled = [(2, Identify (discordIdentifyPayload ''token'' Full 0 1))]" "processedSequence demo_handled = Some 2"
  "map_option session_id (stored_session demo_handled) = Some ''sid''"
  by code_simp+


end
