(* ===== verification/DiscordPermissions.thy ===== *)
theory DiscordPermissions
  imports Complex_Main Prelude "HOL-Library.Word"
begin

unbundle bit_operations_syntax

section \<open>Permissions in a Discord channel\<close>

text \<open>
  Model of \<open>src/workers/discord-bridge/src/discord-permissions.ts\<close> and of the permission bits of
  \<open>src/src/lib/discord-contract.ts\<close>. A \<open>bigint\<close> is an \<open>int\<close>, whose bitwise operations are those of an
  infinite two's complement, as in JavaScript.
\<close>

subsection \<open>Bits\<close>

definition VIEW_CHANNEL :: int where "VIEW_CHANNEL = push_bit 10 1"
definition SEND_MESSAGES :: int where "SEND_MESSAGES = push_bit 11 1"
definition ADMINISTRATOR :: int where "ADMINISTRATOR = push_bit 3 1"

definition DISCORD_CHANNEL_PERMISSION_BITS :: "(string \<times> int) list" where
  "DISCORD_CHANNEL_PERMISSION_BITS =
     [(''VIEW_CHANNEL'', VIEW_CHANNEL), (''SEND_MESSAGES'', SEND_MESSAGES), (''EMBED_LINKS'', push_bit 14 1),
      (''ATTACH_FILES'', push_bit 15 1), (''READ_MESSAGE_HISTORY'', push_bit 16 1),
      (''CREATE_PUBLIC_THREADS'', push_bit 35 1), (''SEND_MESSAGES_IN_THREADS'', push_bit 38 1)]"

definition DISCORD_CHANNEL_PERMISSION_MASK :: int where
  "DISCORD_CHANNEL_PERMISSION_MASK = foldl (\<lambda>mask (n, p). mask OR p) 0 DISCORD_CHANNEL_PERMISSION_BITS"

definition DISCORD_REQUIRED_PERMISSION_NAMES :: "string list" where
  "DISCORD_REQUIRED_PERMISSION_NAMES =
     [''VIEW_CHANNEL'', ''SEND_MESSAGES'', ''EMBED_LINKS'', ''ATTACH_FILES'', ''READ_MESSAGE_HISTORY'',
      ''CREATE_PUBLIC_THREADS'', ''SEND_MESSAGES_IN_THREADS'']"

text \<open>
  \<open>BigInt(s)\<close>: a decimal number with or without a sign, or one with the prefix of another base; an empty
  text is 0, and any other text an error.
\<close>

definition char_digit :: "char \<Rightarrow> nat" where
  "char_digit ch =
     (let k = of_char ch :: nat
      in if 48 \<le> k \<and> k \<le> 57 then k - 48 else if 97 \<le> k \<and> k \<le> 102 then k - 87 else if 65 \<le> k \<and> k \<le> 70 then k - 55 else 99)"

definition digits_value :: "nat \<Rightarrow> string \<Rightarrow> int option" where
  "digits_value base ds =
     (if ds \<noteq> [] \<and> (\<forall>ch \<in> set ds. char_digit ch < base)
      then Some (foldl (\<lambda>v ch. v * int base + int (char_digit ch)) 0 ds) else None)"

definition parse_bigint :: "string \<Rightarrow> int option" where
  "parse_bigint value =
     (let s = js_trim value; prefix = js_lower (take 2 s) in
      if s = [] then Some 0
      else if prefix = ''0x'' then digits_value 16 (drop 2 s)
      else if prefix = ''0o'' then digits_value 8 (drop 2 s)
      else if prefix = ''0b'' then digits_value 2 (drop 2 s)
      else if hd s = CHR ''-'' then map_option uminus (digits_value 10 (tl s))
      else if hd s = CHR ''+'' then digits_value 10 (tl s)
      else digits_value 10 s)"

definition permissionValue :: "string option \<Rightarrow> int" where
  "permissionValue value = or_default 0 (parse_bigint (or_default [] value))"

subsection \<open>Roles, overwrites and their permissions\<close>

record discord_role =
  role_id :: string
  role_permissions :: string
  role_managed :: bool
  role_bot :: "string option"

record overwrite =
  overwrite_id :: string
  overwrite_type :: int
  allow :: string
  deny :: string

record discord_channel =
  channel_id :: string
  channel_type :: int
  channel_parent :: "string option"
  channel_name :: "string option"
  channel_position :: "rat option"
  permission_overwrites :: "overwrite list"

record guild_member =
  member_id :: string
  member_roles :: "string list"

definition rolePermissions :: "string \<Rightarrow> discord_role list \<Rightarrow> string list \<Rightarrow> int" where
  "rolePermissions g roles ids =
     foldl (\<lambda>p r. if role_id r \<in> set (g # ids) then p OR permissionValue (Some (role_permissions r)) else p) 0 roles"

definition apply_overwrite :: "overwrite option \<Rightarrow> int \<Rightarrow> int" where
  "apply_overwrite ov p =
     (case ov of None \<Rightarrow> p
      | Some x \<Rightarrow> (p AND NOT (permissionValue (Some (deny x)))) OR permissionValue (Some (allow x)))"

definition everyone_overwrite :: "string \<Rightarrow> overwrite list \<Rightarrow> overwrite option" where
  "everyone_overwrite g os = find (\<lambda>x. overwrite_type x = 0 \<and> overwrite_id x = g) os"

definition role_overwrites :: "guild_member \<Rightarrow> overwrite list \<Rightarrow> overwrite list" where
  "role_overwrites m os = filter (\<lambda>x. overwrite_type x = 0 \<and> overwrite_id x \<in> set (member_roles m)) os"

definition calculateDiscordChannelPermissions ::
    "string \<Rightarrow> discord_role list \<Rightarrow> guild_member \<Rightarrow> discord_channel \<Rightarrow> int" where
  "calculateDiscordChannelPermissions g roles m ch =
     (let base = rolePermissions g roles (member_roles m); os = permission_overwrites ch in
      if base AND ADMINISTRATOR \<noteq> 0 then push_bit 63 1 - 1
      else
        let p1 = apply_overwrite (everyone_overwrite g os) base;
            roleDeny = foldl (\<lambda>d x. d OR permissionValue (Some (deny x))) 0 (role_overwrites m os);
            roleAllow = foldl (\<lambda>a x. a OR permissionValue (Some (allow x))) 0 (role_overwrites m os);
            p2 = (p1 AND NOT roleDeny) OR roleAllow;
            p3 = apply_overwrite (find (\<lambda>x. overwrite_type x = 1 \<and> overwrite_id x = member_id m) os) p2
        in if p3 AND VIEW_CHANNEL = 0 then 0 else p3)"

definition calculateDiscordEveryonePermissions :: "string \<Rightarrow> discord_role list \<Rightarrow> discord_channel \<Rightarrow> int" where
  "calculateDiscordEveryonePermissions g roles ch =
     (let base = permissionValue (map_option role_permissions (find (\<lambda>r. role_id r = g) roles));
          p = apply_overwrite (everyone_overwrite g (permission_overwrites ch)) base
      in if p AND VIEW_CHANNEL = 0 then 0 else p)"

definition missingDiscordBotPermissions :: "int \<Rightarrow> string list" where
  "missingDiscordBotPermissions p =
     filter (\<lambda>n. p AND or_default 0 (map_of DISCORD_CHANNEL_PERMISSION_BITS n) = 0) DISCORD_REQUIRED_PERMISSION_NAMES"

definition discordEveryoneCanPost :: "int \<Rightarrow> bool" where
  "discordEveryoneCanPost p \<longleftrightarrow> p AND (VIEW_CHANNEL OR SEND_MESSAGES) = VIEW_CHANNEL OR SEND_MESSAGES"

subsection \<open>Channels a member of the workspace may choose\<close>

record selectable_channel =
  sel_id :: string
  sel_name :: string
  sel_category :: "string option"
  sel_category_name :: "string option"
  sel_position :: rat
  missingPermissions :: "string list"
  canActivate :: bool
  visible_to_everyone :: bool

definition category_names :: "discord_channel list \<Rightarrow> (string \<times> string) list" where
  "category_names chs =
     rev (map (\<lambda>ch. (channel_id ch, or_default [] (channel_name ch))) (filter (\<lambda>ch. channel_type ch = 4) chs))"

definition non_empty :: "string option \<Rightarrow> string option" where
  "non_empty v = (case v of Some s \<Rightarrow> if s = [] then None else Some s | None \<Rightarrow> None)"

definition selectable :: "string \<Rightarrow> discord_role list \<Rightarrow> guild_member \<Rightarrow> discord_channel list \<Rightarrow> discord_channel \<Rightarrow> selectable_channel" where
  "selectable g roles m chs ch =
     (let missing = missingDiscordBotPermissions (calculateDiscordChannelPermissions g roles m ch)
      in \<lparr>sel_id = channel_id ch, sel_name = or_default (channel_id ch) (non_empty (channel_name ch)),
          sel_category = non_empty (channel_parent ch),
          sel_category_name = (case non_empty (channel_parent ch) of None \<Rightarrow> None
             | Some p \<Rightarrow> non_empty (map_of (category_names chs) p)),
          sel_position = or_default 0 (channel_position ch), missingPermissions = missing, canActivate = (missing = []),
          visible_to_everyone = discordEveryoneCanPost (calculateDiscordEveryonePermissions g roles ch)\<rparr>)"

text \<open>\<open>before\<close> is the order of \<open>localeCompare\<close> on names; \<open>sort\<close> is stable.\<close>

fun insert_by :: "('a \<Rightarrow> 'a \<Rightarrow> bool) \<Rightarrow> 'a \<Rightarrow> 'a list \<Rightarrow> 'a list" where
  "insert_by before x [] = [x]"
| "insert_by before x (y # ys) = (if before x y then x # y # ys else y # insert_by before x ys)"

definition stable_sort :: "('a \<Rightarrow> 'a \<Rightarrow> bool) \<Rightarrow> 'a list \<Rightarrow> 'a list" where
  "stable_sort before xs = foldl (\<lambda>ys x. insert_by before x ys) [] xs"

definition inspectGuild_channels ::
    "(string \<Rightarrow> string \<Rightarrow> bool) \<Rightarrow> string \<Rightarrow> discord_role list \<Rightarrow> guild_member \<Rightarrow> discord_channel list \<Rightarrow> selectable_channel list" where
  "inspectGuild_channels before g roles m chs =
     stable_sort (\<lambda>l r. sel_position l < sel_position r \<or> sel_position l = sel_position r \<and> before (sel_name l) (sel_name r))
       (map (selectable g roles m chs) (filter (\<lambda>ch. channel_type ch = 0) chs))"

subsection \<open>What a bit of the result means\<close>

abbreviation role_has :: "discord_role \<Rightarrow> nat \<Rightarrow> bool" where
  "role_has r n \<equiv> bit (permissionValue (Some (role_permissions r))) n"
abbreviation allows :: "overwrite \<Rightarrow> nat \<Rightarrow> bool" where "allows x n \<equiv> bit (permissionValue (Some (allow x))) n"
abbreviation denies :: "overwrite \<Rightarrow> nat \<Rightarrow> bool" where "denies x n \<equiv> bit (permissionValue (Some (deny x))) n"

definition overwritten :: "overwrite option \<Rightarrow> nat \<Rightarrow> bool \<Rightarrow> bool" where
  "overwritten ov n b = (case ov of None \<Rightarrow> b | Some x \<Rightarrow> allows x n \<or> \<not> denies x n \<and> b)"

text \<open>Discord's documented order: the roles, then the overwrite of everyone, of the roles, of the member.\<close>

definition granted :: "string \<Rightarrow> discord_role list \<Rightarrow> guild_member \<Rightarrow> overwrite list \<Rightarrow> nat \<Rightarrow> bool" where
  "granted g roles m os n =
     (let base = (\<exists>r \<in> set roles. role_id r \<in> set (g # member_roles m) \<and> role_has r n);
          everyone = overwritten (everyone_overwrite g os) n base;
          by_role = ((\<exists>x \<in> set (role_overwrites m os). allows x n) \<or>
                     \<not> (\<exists>x \<in> set (role_overwrites m os). denies x n) \<and> everyone)
      in overwritten (find (\<lambda>x. overwrite_type x = 1 \<and> overwrite_id x = member_id m) os) n by_role)"

lemma bit_fold_or: "bit (foldl (\<lambda>d x. d OR f x) a xs) n \<longleftrightarrow> bit a n \<or> (\<exists>x \<in> set xs. bit (f x :: int) n)"
  by (induction xs arbitrary: a) (auto simp: bit_or_iff)

lemma bit_fold_or_if:
  "bit (foldl (\<lambda>p r. if P r then p OR f r else p) a rs) n \<longleftrightarrow> bit a n \<or> (\<exists>r \<in> set rs. P r \<and> bit (f r :: int) n)"
  by (induction rs arbitrary: a) (auto simp: bit_or_iff)

lemma bit_apply_overwrite: "bit (apply_overwrite ov p) n \<longleftrightarrow> overwritten ov n (bit p n)"
  by (auto simp: apply_overwrite_def overwritten_def bit_or_iff bit_and_iff bit_not_iff split: option.split)

lemma and_push_bit_one: "(p :: int) AND push_bit k 1 = 0 \<longleftrightarrow> \<not> bit p k"
  by (simp add: and_exp_eq_0_iff_not_bit push_bit_eq_mult)

lemma bit_ones: "bit (push_bit k 1 - 1 :: int) n \<longleftrightarrow> n < k"
proof -
  have "(push_bit k 1 - 1 :: int) = mask k" by (simp add: mask_eq_exp_minus_1 push_bit_eq_mult)
  then show ?thesis by (simp add: bit_mask_iff)
qed


definition is_administrator :: "string \<Rightarrow> discord_role list \<Rightarrow> guild_member \<Rightarrow> bool" where
  "is_administrator g roles m \<longleftrightarrow> (\<exists>r \<in> set roles. role_id r \<in> set (g # member_roles m) \<and> role_has r 3)"

lemma channel_permission_bit:
  "bit (calculateDiscordChannelPermissions g roles m ch) n \<longleftrightarrow>
     (if is_administrator g roles m then n < 63
      else granted g roles m (permission_overwrites ch) 10 \<and> granted g roles m (permission_overwrites ch) n)"
proof -
  have base: "bit (rolePermissions g roles ids) k \<longleftrightarrow> (\<exists>r \<in> set roles. role_id r \<in> set (g # ids) \<and> role_has r k)" for ids k
    unfolding rolePermissions_def by (simp add: bit_fold_or_if)
  have admin: "rolePermissions g roles (member_roles m) AND ADMINISTRATOR \<noteq> 0 \<longleftrightarrow> is_administrator g roles m"
    unfolding ADMINISTRATOR_def and_push_bit_one base is_administrator_def by simp
  define p3 where "p3 = apply_overwrite (find (\<lambda>x. overwrite_type x = 1 \<and> overwrite_id x = member_id m) (permission_overwrites ch))
    ((apply_overwrite (everyone_overwrite g (permission_overwrites ch)) (rolePermissions g roles (member_roles m)) AND
      NOT (foldl (\<lambda>d x. d OR permissionValue (Some (deny x))) 0 (role_overwrites m (permission_overwrites ch)))) OR
      foldl (\<lambda>a x. a OR permissionValue (Some (allow x))) 0 (role_overwrites m (permission_overwrites ch)))"
  have p3: "bit p3 k \<longleftrightarrow> granted g roles m (permission_overwrites ch) k" for k
    unfolding p3_def bit_apply_overwrite bit_or_iff bit_and_iff bit_not_iff bit_fold_or base granted_def Let_def
    by (auto simp: overwritten_def split: option.split)
  have "calculateDiscordChannelPermissions g roles m ch =
      (if is_administrator g roles m then push_bit 63 1 - 1 else if p3 AND VIEW_CHANNEL = 0 then 0 else p3)"
    unfolding calculateDiscordChannelPermissions_def Let_def admin p3_def by simp
  moreover have "p3 AND VIEW_CHANNEL = 0 \<longleftrightarrow> \<not> bit p3 10" unfolding VIEW_CHANNEL_def by (rule and_push_bit_one)
  ultimately show ?thesis using p3 bit_ones [of 63 n] by simp
qed

lemmas and_power =
  and_push_bit_one [of _ 10, simplified] and_push_bit_one [of _ 11, simplified] and_push_bit_one [of _ 14, simplified]
  and_push_bit_one [of _ 15, simplified] and_push_bit_one [of _ 16, simplified] and_push_bit_one [of _ 35, simplified]
  and_push_bit_one [of _ 38, simplified]

lemma missing_none:
  "missingDiscordBotPermissions p = [] \<longleftrightarrow> list_all (bit p) [10, 11, 14, 15, 16, 35, 38]"
  by (simp add: missingDiscordBotPermissions_def DISCORD_REQUIRED_PERMISSION_NAMES_def DISCORD_CHANNEL_PERMISSION_BITS_def
      VIEW_CHANNEL_def SEND_MESSAGES_def and_power)

subsection \<open>The properties\<close>

text \<open>
  C20: a channel can be activated exactly when Discord's rules grant the bot every permission it needs
  there: an administrator has all, and otherwise the overwrite of the member decides before those of its
  roles, these before the overwrite of everyone, and that before the roles themselves, an allowing
  overwrite prevailing over a denying one of the same rank.
\<close>

theorem activation_needs_granted_permissions:
  "canActivate (selectable g roles m chs ch) \<longleftrightarrow>
     is_administrator g roles m \<or>
     list_all (granted g roles m (permission_overwrites ch)) [10, 11, 14, 15, 16, 35, 38]"
  unfolding selectable_def Let_def by (auto simp: missing_none channel_permission_bit)

end
