(* ===== verification/DiscordControl.thy ===== *)
theory DiscordControl
  imports DiscordGateway DiscordPermissions
begin

section \<open>The control object of the Discord bridge: channels, threads and outbound messages\<close>

text \<open>
  Model of \<open>src/workers/discord-bridge/src/discord-control-do.ts\<close>, first part: the tables of the object, the
  activation and release of the channel of an integration, the threads it starts, and the messages it sends.
  An operation that awaits Discord's interface is cut there: the part before it gives an error, a stored
  result, or what is asked of Discord; the part after it takes the answer. An \<open>INSERT\<close> that violates a
  constraint throws, which is \<open>None\<close> or \<open>Inl\<close>.
\<close>

subsection \<open>Tables\<close>

datatype bridge_error = Invalid_request | Not_configured | Binding_conflict | Binding_not_found | Binding_mismatch
  | Missing_permissions | Active_thread_limit | Unknown_channel | Bot_removed | Rate_limited | Provider_unavailable | Fatal_auth

record channel_binding =
  cb_guild :: string
  cb_parent :: string
  cb_integration :: string
  cb_org :: string
  cb_workspace :: string
  cb_guild_name :: string
  cb_parent_name :: string
  cb_version :: nat

record thread_binding =
  tb_guild :: string
  tb_parent :: string
  tb_integration :: string
  tb_org :: string
  tb_workspace :: string
  next_ingress_ordinal :: nat
  mention_notice_sent :: bool
  last_seen_at :: int

text \<open>What is delivered to the main worker.\<close>

record author = author_id :: string author_username :: "string option" author_global :: "string option" author_nick :: "string option"
record mention = mention_id :: string mention_username :: "string option" mention_global :: "string option"
record attachment = attachment_id :: string attachment_filename :: string attachment_type :: "string option" attachment_size :: rat attachment_url :: string

record delivery_message =
  discordMessageId :: string
  guildId :: string
  channelId :: string
  parentChannelId :: string
  message_thread :: "string option"
  integrationId :: string
  orgId :: string
  workspaceId :: string
  bindingVersion :: nat
  message_ordinal :: nat
  content :: units
  messageType :: int
  message_author :: author
  message_mentions :: "mention list"
  message_attachments :: "attachment list"
  message_timestamp :: "string option"
  message_mode :: content_mode
  starter :: bool

datatype lifecycle_type = Guild_removed | Parent_channel_deleted

record delivery_lifecycle =
  lifecycleType :: lifecycle_type
  lifecycle_guild :: string
  lifecycle_parent :: "string option"
  lifecycle_integration :: string
  lifecycle_org :: string
  lifecycle_workspace :: string
  lifecycle_version :: nat

datatype delivery = Message delivery_message | Lifecycle delivery_lifecycle

datatype outbox_state = Pending | Enqueued | Leased | Completed | Failed

record outbox_row =
  discord_message_id :: string
  conversation_key :: string
  ordinal :: nat
  binding_version :: nat
  payload :: "delivery option"
  outbox_state :: outbox_state
  lease_token :: "string option"
  lease_expires_at :: "int option"
  enqueue_attempts :: nat
  outbox_created :: int
  outbox_updated :: int

record conversation = completed_ordinal :: nat conversation_updated :: int

datatype notice_state = Notice_pending | Notice_sent | Notice_suppressed

record failure_notice =
  fn_integration :: string
  fn_parent :: string
  fn_target :: string
  fn_message :: string
  fn_state :: notice_state
  fn_updated :: int

record thread_intent =
  intent_integration :: string
  intent_guild :: string
  intent_parent :: string
  thread_name :: units
  starter_message_id :: "string option"
  starter_notice_included :: bool
  intent_thread :: "string option"
  intent_updated :: int

text \<open>Results stored under an idempotency key.\<close>

record activation = act_binding :: channel_binding act_previous :: "channel_binding option" act_messages :: "string list"
record started_thread = st_thread :: string st_integration :: string st_parent :: string
record proactive_thread = pt_thread :: string pt_integration :: string pt_guild :: string pt_parent :: string pt_starter :: string
record sent_message = sm_thread :: string sm_integration :: string sm_messages :: "string list" sm_chunks :: nat sm_attachments :: nat
record sent_notice = sn_integration :: string sn_message :: string sn_notice :: string sn_suppressed :: bool

datatype operation_result = Binding_activated activation | Thread_from_message started_thread | Thread_proactive proactive_thread
  | Message_sent sent_message | Starter_failure_notice sent_notice

text \<open>
  The object's storage and its alarm. Rows are keyed by their primary key; those of the channel bindings are
  records, both columns of the key and the integration being unique.
\<close>

record control =
  channel_bindings :: "channel_binding list"
  thread_bindings :: "(string \<times> thread_binding) list"
  ingress_outbox :: "(string \<times> outbox_row) list"
  conversation_state :: "(string \<times> conversation) list"
  internal_operations :: "(string \<times> operation_result \<times> int) list"
  guild_presence :: "(string \<times> int) list"
  failure_notices :: "(string \<times> failure_notice) list"
  proactive_thread_intents :: "(string \<times> thread_intent) list"
  next_binding_version :: nat
  bot_user_id :: "string option"
  bot_role_ids :: "string \<Rightarrow> string list option"
  failure_notice_at :: "string \<Rightarrow> int option"
  control_alarm :: "int option"

definition control_new :: control where
  "control_new = \<lparr>channel_bindings = [], thread_bindings = [], ingress_outbox = [], conversation_state = [],
     internal_operations = [], guild_presence = [], failure_notices = [], proactive_thread_intents = [],
     next_binding_version = 1, bot_user_id = None, bot_role_ids = (\<lambda>g. None), failure_notice_at = (\<lambda>c. None), control_alarm = None\<rparr>"

definition optionalString :: "string option \<Rightarrow> string option" where
  "optionalString value =
     (case value of None \<Rightarrow> None | Some s \<Rightarrow> if js_trim s = [] then None else Some (js_trim s))"

definition assertOutboundEnabled :: "bridge_config \<Rightarrow> (bridge_error, unit) result" where
  "assertOutboundEnabled c = (if envFlag (outbound_setting c) True then Inr () else Inl Not_configured)"

subsection \<open>Look-ups\<close>

definition activeBindingByIntegration :: "string \<Rightarrow> control \<Rightarrow> channel_binding option" where
  "activeBindingByIntegration i s = find (\<lambda>b. cb_integration b = i) (channel_bindings s)"

definition activeBindingForChannel :: "string \<Rightarrow> string \<Rightarrow> control \<Rightarrow> channel_binding option" where
  "activeBindingForChannel g ch s = find (\<lambda>b. cb_guild b = g \<and> cb_parent b = ch) (channel_bindings s)"

definition threadBinding :: "string \<Rightarrow> control \<Rightarrow> thread_binding option" where
  "threadBinding t s = map_of (thread_bindings s) t"

fun operation_kind :: "operation_result \<Rightarrow> string" where
  "operation_kind (Binding_activated _) = ''binding_activate''"
| "operation_kind (Thread_from_message _) = ''thread_from_message''"
| "operation_kind (Thread_proactive _) = ''thread_proactive''"
| "operation_kind (Message_sent _) = ''message_send''"
| "operation_kind (Starter_failure_notice _) = ''starter_failure_notice''"

definition operationResult :: "string \<Rightarrow> string \<Rightarrow> control \<Rightarrow> (bridge_error, operation_result option) result" where
  "operationResult op kind s =
     (case map_of (internal_operations s) op of
        None \<Rightarrow> Inr None
      | Some (r, _) \<Rightarrow> if operation_kind r \<noteq> kind then Inl Invalid_request else Inr (Some r))"

definition storeOperation :: "string \<Rightarrow> operation_result \<Rightarrow> int \<Rightarrow> control \<Rightarrow> control" where
  "storeOperation op r now s =
     s\<lparr>internal_operations := upsert_row op (r, now) (\<lambda>row. row) (internal_operations s)\<rparr>"

definition nextBindingVersion :: "control \<Rightarrow> nat \<times> control" where
  "nextBindingVersion s = (next_binding_version s, s\<lparr>next_binding_version := next_binding_version s + 1\<rparr>)"

definition setBotIdentity :: "string \<Rightarrow> control \<Rightarrow> control" where
  "setBotIdentity b s = (if b = [] then s else s\<lparr>bot_user_id := Some b\<rparr>)"


subsection \<open>Activating and releasing the channel of an integration\<close>

definition managed_role_ids :: "string \<Rightarrow> discord_role list \<Rightarrow> string list" where
  "managed_role_ids botId roles = map role_id (filter (\<lambda>r. role_managed r \<and> role_bot r = Some botId) roles)"

definition storeManagedBotRoleIds :: "string \<Rightarrow> string \<Rightarrow> discord_role list \<Rightarrow> control \<Rightarrow> control" where
  "storeManagedBotRoleIds g botId roles s = s\<lparr>bot_role_ids := (bot_role_ids s)(g := Some (managed_role_ids botId roles))\<rparr>"

text \<open>What Discord tells of a server: its name and the channels that can be selected.\<close>

record inspected_guild =
  guild_name :: string
  guild_channels :: "selectable_channel list"

definition inspect_error :: "bridge_error \<Rightarrow> bridge_error" where
  "inspect_error e = (if e = Unknown_channel then Bot_removed else e)"

definition preflightBinding :: "string \<Rightarrow> inspected_guild \<Rightarrow> (bridge_error, selectable_channel) result" where
  "preflightBinding parent inspected =
     (case find (\<lambda>ch. sel_id ch = parent) (guild_channels inspected) of
        None \<Rightarrow> Inl Unknown_channel
      | Some ch \<Rightarrow> if canActivate ch then Inr ch else Inl Missing_permissions)"

record activate_input =
  in_guild :: string
  in_parent :: string
  in_integration :: string
  in_org :: string
  in_workspace :: string
  in_key :: string
  in_version :: "nat option"

text \<open>Up to the inspection: an earlier result of the same request.\<close>

definition activate_cached :: "bridge_config \<Rightarrow> activate_input \<Rightarrow> control \<Rightarrow> (bridge_error, activation option) result" where
  "activate_cached c i s =
     bind_result (assertOutboundEnabled c) (\<lambda>_.
       bind_result (operationResult (in_key i) ''binding_activate'' s) (\<lambda>r.
         case r of
           Some (Binding_activated a) \<Rightarrow>
             if cb_integration (act_binding a) \<noteq> in_integration i \<or> cb_guild (act_binding a) \<noteq> in_guild i \<or>
                cb_parent (act_binding a) \<noteq> in_parent i \<or> cb_org (act_binding a) \<noteq> in_org i \<or>
                cb_workspace (act_binding a) \<noteq> in_workspace i
             then Inl Invalid_request else Inr (Some a)
         | _ \<Rightarrow> Inr None))"

definition same_target :: "activate_input \<Rightarrow> channel_binding option \<Rightarrow> bool" where
  "same_target i current = (case current of None \<Rightarrow> False | Some b \<Rightarrow> cb_guild b = in_guild i \<and> cb_parent b = in_parent i)"

text \<open>The first transaction: what will be bound, with what is bound now.\<close>

definition activate_plan ::
    "activate_input \<Rightarrow> inspected_guild \<Rightarrow> control \<Rightarrow> (bridge_error, channel_binding \<times> channel_binding option \<times> control) result" where
  "activate_plan i inspected s =
     bind_result (preflightBinding (in_parent i) inspected) (\<lambda>ch.
       let current = activeBindingByIntegration (in_integration i) s;
           conflict = activeBindingForChannel (in_guild i) (in_parent i) s
       in if (case current of None \<Rightarrow> False | Some b \<Rightarrow> cb_org b \<noteq> in_org i \<or> cb_workspace b \<noteq> in_workspace i)
          then Inl Binding_conflict
          else if (case in_version i of
                None \<Rightarrow> current \<noteq> None \<and> \<not> same_target i current
              | Some v \<Rightarrow> (case current of None \<Rightarrow> True | Some b \<Rightarrow> cb_version b \<noteq> v))
          then Inl Binding_mismatch
          else if (case conflict of None \<Rightarrow> False | Some b \<Rightarrow> cb_integration b \<noteq> in_integration i)
          then Inl Binding_conflict
          else
            let (v, s') = (if same_target i current then (cb_version (the current), s) else nextBindingVersion s)
            in Inr (\<lparr>cb_guild = in_guild i, cb_parent = in_parent i, cb_integration = in_integration i, cb_org = in_org i,
                     cb_workspace = in_workspace i, cb_guild_name = guild_name inspected, cb_parent_name = sel_name ch,
                     cb_version = v\<rparr>, current, s'))"

definition delete_integration :: "string \<Rightarrow> control \<Rightarrow> control" where
  "delete_integration i s =
     s\<lparr>thread_bindings := delete_where (\<lambda>t r. tb_integration r = i) (thread_bindings s),
       channel_bindings := filter (\<lambda>b. cb_integration b \<noteq> i) (channel_bindings s)\<rparr>"

text \<open>\<open>INSERT ... ON CONFLICT(guild_id, parent_channel_id) DO UPDATE\<close>\<close>

definition upsert_channel :: "channel_binding \<Rightarrow> control \<Rightarrow> control" where
  "upsert_channel b s =
     (if activeBindingForChannel (cb_guild b) (cb_parent b) s = None
      then s\<lparr>channel_bindings := channel_bindings s @ [b]\<rparr>
      else s\<lparr>channel_bindings := map (\<lambda>r. if cb_guild r = cb_guild b \<and> cb_parent r = cb_parent b
               then r\<lparr>cb_org := cb_org b, cb_workspace := cb_workspace b, cb_guild_name := cb_guild_name b,
                      cb_parent_name := cb_parent_name b\<rparr> else r) (channel_bindings s)\<rparr>)"

text \<open>After the confirmation is posted, in \<open>ids\<close>: the second transaction and the stored result.\<close>

definition activate_commit ::
    "activate_input \<Rightarrow> channel_binding \<Rightarrow> channel_binding option \<Rightarrow> string list \<Rightarrow> int \<Rightarrow> control \<Rightarrow> (bridge_error, activation \<times> control) result" where
  "activate_commit i planned previous ids now s =
     (let current = activeBindingByIntegration (in_integration i) s;
          unchanged = (case previous of
              None \<Rightarrow> current = None
            | Some p \<Rightarrow> (case current of None \<Rightarrow> False
                | Some b \<Rightarrow> cb_guild b = cb_guild p \<and> cb_parent b = cb_parent p \<and> cb_version b = cb_version p \<and>
                           cb_org b = cb_org p \<and> cb_workspace b = cb_workspace p));
          conflict = activeBindingForChannel (cb_guild planned) (cb_parent planned) s
      in if \<not> unchanged then Inl Binding_mismatch
         else if (case conflict of None \<Rightarrow> False | Some b \<Rightarrow> cb_integration b \<noteq> in_integration i) then Inl Binding_conflict
         else
           let moved = (case current of None \<Rightarrow> False | Some b \<Rightarrow> cb_guild b \<noteq> cb_guild planned \<or> cb_parent b \<noteq> cb_parent planned);
               a = \<lparr>act_binding = planned, act_previous = previous, act_messages = ids\<rparr>
           in Inr (a, storeOperation (in_key i) (Binding_activated a) now
                (upsert_channel planned (if moved then delete_integration (in_integration i) s else s))))"

definition releaseBinding :: "string \<Rightarrow> nat option \<Rightarrow> control \<Rightarrow> bool \<times> control" where
  "releaseBinding i version s =
     (case activeBindingByIntegration i s of
        None \<Rightarrow> (True, delete_integration i s)
      | Some b \<Rightarrow> if version \<noteq> None \<and> version \<noteq> Some (cb_version b) then (False, s) else (True, delete_integration i s))"

datatype verification_status = Needs_authorization | Verified | Degraded | Misconfigured

text \<open>\<open>inspection\<close> is what the inspection of the server gives, if the gateway is ready.\<close>

definition verifyBinding ::
    "bridge_config \<Rightarrow> gateway_health \<Rightarrow> int \<Rightarrow> (bridge_error, inspected_guild) result \<Rightarrow> string \<Rightarrow> control \<Rightarrow> verification_status" where
  "verifyBinding c health now inspection i s =
     (case activeBindingByIntegration i s of
        None \<Rightarrow> Needs_authorization
      | Some b \<Rightarrow>
          if evaluateDiscordBridgeReadiness c health now \<noteq> Bridge_ready then Degraded
          else (case inspection of
              Inl e \<Rightarrow> if inspect_error e = Bot_removed then Needs_authorization else Misconfigured
            | Inr g \<Rightarrow> (case preflightBinding (cb_parent b) g of
                Inl e \<Rightarrow> Misconfigured
              | Inr ch \<Rightarrow> if discordContentMode c = Full then Verified else Degraded)))"


subsection \<open>Threads\<close>

definition registerThread :: "string \<Rightarrow> channel_binding \<Rightarrow> bool \<Rightarrow> bool \<Rightarrow> int \<Rightarrow> control \<Rightarrow> control" where
  "registerThread t b by_starter noticeSent now s =
     s\<lparr>thread_bindings := upsert_row t
         \<lparr>tb_guild = cb_guild b, tb_parent = cb_parent b, tb_integration = cb_integration b, tb_org = cb_org b,
          tb_workspace = cb_workspace b, next_ingress_ordinal = (if by_starter then 2 else 1),
          mention_notice_sent = noticeSent, last_seen_at = now\<rparr>
         (\<lambda>r. r\<lparr>mention_notice_sent := mention_notice_sent r \<or> noticeSent, last_seen_at := now\<rparr>) (thread_bindings s)\<rparr>"

text \<open>The integration's channel, when it is the given one.\<close>

definition bound_parent :: "string \<Rightarrow> string \<Rightarrow> control \<Rightarrow> (bridge_error, channel_binding) result" where
  "bound_parent i parent s =
     (case activeBindingByIntegration i s of
        None \<Rightarrow> Inl Binding_mismatch
      | Some b \<Rightarrow> if cb_parent b = parent then Inr b else Inl Binding_mismatch)"

text \<open>Either a stored result, or the channel in which to start the thread.\<close>

definition thread_from_message_start ::
    "bridge_config \<Rightarrow> string \<Rightarrow> string \<Rightarrow> string \<Rightarrow> control \<Rightarrow> (bridge_error, started_thread + channel_binding) result" where
  "thread_from_message_start c i parent op s =
     bind_result (assertOutboundEnabled c) (\<lambda>_.
       bind_result (operationResult op ''thread_from_message'' s) (\<lambda>r.
         case r of
           Some (Thread_from_message t) \<Rightarrow> Inr (Inl t)
         | _ \<Rightarrow> bind_result (bound_parent i parent s) (\<lambda>b. Inr (Inr b))))"

definition thread_from_message_started ::
    "string \<Rightarrow> channel_binding \<Rightarrow> string \<Rightarrow> string \<Rightarrow> string \<Rightarrow> int \<Rightarrow> control \<Rightarrow> started_thread \<times> control" where
  "thread_from_message_started thread b i parent op now s =
     (let r = \<lparr>st_thread = thread, st_integration = i, st_parent = parent\<rparr>
      in (r, storeOperation op (Thread_from_message r) now (registerThread thread b True False now s)))"

text \<open>A thread the agent starts. The call of the same key that is in progress is shared.\<close>

definition proactive_conflict :: "string \<Rightarrow> string \<Rightarrow> units \<Rightarrow> control \<Rightarrow> bool" where
  "proactive_conflict op i name s =
     (case map_of (proactive_thread_intents s) op of
        None \<Rightarrow> False | Some t \<Rightarrow> intent_integration t \<noteq> i \<or> thread_name t \<noteq> name)"

datatype proactive_next = Proactive_done proactive_thread | Register_thread string channel_binding thread_intent
  | Start_thread string channel_binding thread_intent | Post_starter units channel_binding thread_intent

definition proactive_start ::
    "bridge_config \<Rightarrow> string \<Rightarrow> string \<Rightarrow> units \<Rightarrow> units \<Rightarrow> int \<Rightarrow> control \<Rightarrow> (bridge_error, proactive_next \<times> control) result" where
  "proactive_start c i op name starterText now s =
     bind_result (assertOutboundEnabled c) (\<lambda>_.
       bind_result (operationResult op ''thread_proactive'' s) (\<lambda>r.
         case r of
           Some (Thread_proactive t) \<Rightarrow> Inr (Proactive_done t, s)
         | _ \<Rightarrow>
             (case activeBindingByIntegration i s of
                None \<Rightarrow> Inl Binding_not_found
              | Some b \<Rightarrow>
                  (case map_of (proactive_thread_intents s) op of
                     None \<Rightarrow>
                       let t = \<lparr>intent_integration = i, intent_guild = cb_guild b, intent_parent = cb_parent b, thread_name = name,
                                starter_message_id = None, starter_notice_included = (discordContentMode c = Mention_only),
                                intent_thread = None, intent_updated = now\<rparr>;
                           txt = fst (discordOutboundTextWithNotice (Some starterText)
                                   (if starter_notice_included t then Mention_only else Full) False)
                       in Inr (Post_starter (or_default [] txt) b t,
                               s\<lparr>proactive_thread_intents := proactive_thread_intents s @ [(op, t)]\<rparr>)
                   | Some t \<Rightarrow>
                       if intent_integration t \<noteq> i \<or> intent_guild t \<noteq> cb_guild b \<or> intent_parent t \<noteq> cb_parent b \<or> thread_name t \<noteq> name
                       then Inl Invalid_request
                       else (case non_empty (intent_thread t) of
                           Some thread \<Rightarrow> Inr (Register_thread thread b t, s)
                         | None \<Rightarrow> (case non_empty (starter_message_id t) of
                             Some m \<Rightarrow> Inr (Start_thread m b t, s)
                           | None \<Rightarrow> Inr (Post_starter (or_default [] (fst (discordOutboundTextWithNotice (Some starterText)
                                   (if starter_notice_included t then Mention_only else Full) False))) b t, s)))))))"

definition proactive_starter_posted :: "string list \<Rightarrow> string \<Rightarrow> int \<Rightarrow> control \<Rightarrow> (bridge_error, string \<times> control) result" where
  "proactive_starter_posted ids op now s =
     (case ids of
        [] \<Rightarrow> Inl Provider_unavailable
      | m # _ \<Rightarrow> if m = [] then Inl Provider_unavailable
          else Inr (m, s\<lparr>proactive_thread_intents := update_row op (\<lambda>t. t\<lparr>starter_message_id := Some m, intent_updated := now\<rparr>)
                          (proactive_thread_intents s)\<rparr>))"

definition proactive_thread_ready ::
    "string \<Rightarrow> string \<Rightarrow> channel_binding \<Rightarrow> thread_intent \<Rightarrow> string \<Rightarrow> string \<Rightarrow> int \<Rightarrow> control \<Rightarrow> proactive_thread \<times> control" where
  "proactive_thread_ready thread m b t i op now s =
     (let r = \<lparr>pt_thread = thread, pt_integration = i, pt_guild = cb_guild b, pt_parent = cb_parent b, pt_starter = m\<rparr>;
          s1 = s\<lparr>proactive_thread_intents := update_row op (\<lambda>x. x\<lparr>intent_thread := Some thread, intent_updated := now\<rparr>) (proactive_thread_intents s)\<rparr>
      in (r, storeOperation op (Thread_proactive r) now (registerThread thread b False (starter_notice_included t) now s1)))"

subsection \<open>Messages and notices\<close>

text \<open>Either a stored result, or the text to post and whether it carries the notice.\<close>

definition send_message_start ::
    "bridge_config \<Rightarrow> string \<Rightarrow> string \<Rightarrow> string \<Rightarrow> units option \<Rightarrow> nat \<Rightarrow> control \<Rightarrow> (bridge_error, sent_message + units option \<times> bool) result" where
  "send_message_start c i thread op txt files s =
     bind_result (assertOutboundEnabled c) (\<lambda>_.
       bind_result (operationResult op ''message_send'' s) (\<lambda>r.
         case r of
           Some (Message_sent m) \<Rightarrow> Inr (Inl m)
         | _ \<Rightarrow>
             (case threadBinding thread s of
                None \<Rightarrow> Inl Binding_mismatch
              | Some t \<Rightarrow>
                  if tb_integration t \<noteq> i then Inl Binding_mismatch
                  else bind_result (bound_parent i (tb_parent t) s) (\<lambda>_.
                    if or_default [] txt = [] \<and> files = 0 then Inl Invalid_request
                    else Inr (Inr (discordOutboundTextWithNotice txt (discordContentMode c) (mention_notice_sent t)))))))"

definition send_message_sent ::
    "bool \<Rightarrow> string list \<Rightarrow> nat \<Rightarrow> string \<Rightarrow> string \<Rightarrow> string \<Rightarrow> nat \<Rightarrow> int \<Rightarrow> control \<Rightarrow> sent_message \<times> control" where
  "send_message_sent notice ids chunks i thread op files now s =
     (let r = \<lparr>sm_thread = thread, sm_integration = i, sm_messages = ids, sm_chunks = chunks, sm_attachments = files\<rparr>;
          s1 = (if notice then s\<lparr>thread_bindings := update_row thread (\<lambda>t. t\<lparr>mention_notice_sent := True, last_seen_at := now\<rparr>) (thread_bindings s)\<rparr> else s)
      in (r, storeOperation op (Message_sent r) now s1))"

text \<open>\<open>Date.now() - (lastNoticeAt ?? 0) < 60_000\<close>\<close>

definition notice_limited :: "string \<Rightarrow> int \<Rightarrow> control \<Rightarrow> bool" where
  "notice_limited channel now s \<longleftrightarrow> now - or_default 0 (failure_notice_at s channel) < 60000"

definition starter_notice_start ::
    "bridge_config \<Rightarrow> string \<Rightarrow> string \<Rightarrow> string \<Rightarrow> string \<Rightarrow> int \<Rightarrow> control \<Rightarrow> (bridge_error, (sent_notice + unit) \<times> control) result" where
  "starter_notice_start c i parent m op now s =
     bind_result (assertOutboundEnabled c) (\<lambda>_.
       bind_result (operationResult op ''starter_failure_notice'' s) (\<lambda>r.
         case r of
           Some (Starter_failure_notice n) \<Rightarrow> Inr (Inl n, s)
         | _ \<Rightarrow> bind_result (bound_parent i parent s) (\<lambda>b.
             if notice_limited parent now s
             then let n = \<lparr>sn_integration = i, sn_message = m, sn_notice = [], sn_suppressed = True\<rparr>
                  in Inr (Inl n, storeOperation op (Starter_failure_notice n) now s)
             else Inr (Inr (), s))))"

definition starter_notice_sent :: "string \<Rightarrow> string \<Rightarrow> string \<Rightarrow> string \<Rightarrow> string \<Rightarrow> int \<Rightarrow> control \<Rightarrow> sent_notice \<times> control" where
  "starter_notice_sent notice i parent m op now s =
     (let n = \<lparr>sn_integration = i, sn_message = m, sn_notice = notice, sn_suppressed = False\<rparr>
      in (n, storeOperation op (Starter_failure_notice n) now
               (s\<lparr>failure_notice_at := (failure_notice_at s)(parent := Some now)\<rparr>)))"

end
