(* ===== verification/DiscordDelivery.thy ===== *)
theory DiscordDelivery
  imports DiscordControl
begin

section \<open>The control object of the Discord bridge: messages from Discord and their delivery\<close>

text \<open>
  Model of \<open>src/workers/discord-bridge/src/discord-control-do.ts\<close>, second part: what the gateway hands
  over, the outbox of deliveries with its conversations, the leases of the consumer in the main worker, the
  dead letters, and the alarm. Event ids and lease tokens, which the code draws at random, are arguments.
\<close>

subsection \<open>Messages from Discord\<close>

record raw_user = raw_id :: "string option" raw_username :: "string option" raw_global :: "string option" raw_bot :: bool

record raw_attachment =
  raw_attachment_id :: "string option"
  raw_filename :: "string option"
  raw_type :: "string option"
  raw_size :: "rat option"
  raw_url :: "string option"

text \<open>\<open>raw_size\<close> is \<open>Number(attachment.size)\<close> when that is finite; a role that is not a text is left out.\<close>

record message_create =
  mc_id :: "string option"
  mc_guild :: "string option"
  mc_channel :: "string option"
  mc_content :: "units option"
  mc_type :: "int option"
  mc_webhook :: "string option"
  mc_timestamp :: "string option"
  mc_author :: "raw_user option"
  mc_nick :: "string option"
  mc_mentions :: "raw_user list"
  mc_mention_roles :: "string list"
  mc_attachments :: "raw_attachment list"

text \<open>\<open>s.replace(/(t1|t2|...)/g, "")\<close>\<close>

function remove_all :: "units list \<Rightarrow> units \<Rightarrow> units" where
  "remove_all ts s =
     (case find (\<lambda>t. t \<noteq> [] \<and> take (length t) s = t) ts of
        Some t \<Rightarrow> remove_all ts (drop (length t) s)
      | None \<Rightarrow> (case s of [] \<Rightarrow> [] | c # r \<Rightarrow> c # remove_all ts r))"
  by pat_completeness auto
termination
proof (relation "measure (\<lambda>(ts, s). length s)")
  fix ts :: "units list" and s t :: units
  assume "find (\<lambda>t. t \<noteq> [] \<and> take (length t) s = t) ts = Some t"
  then have "t \<noteq> []" "take (length t) s = t" by (auto simp: find_Some_iff)
  then have "0 < length t" "s \<noteq> []" by auto
  then show "((ts, drop (length t) s), ts, s) \<in> measure (\<lambda>(ts, s). length s)" by simp
qed auto

declare remove_all.simps [simp del]

definition bot_mentions :: "string \<Rightarrow> units list" where
  "bot_mentions botId = [unit_string (''<@'' @ botId @ ''>''), unit_string (''<@!'' @ botId @ ''>'')]"

definition role_mentions :: "string list \<Rightarrow> units list" where
  "role_mentions ids = map (\<lambda>r. unit_string (''<@&'' @ r @ ''>'')) ids"

definition reduced_attachments :: "raw_attachment list \<Rightarrow> attachment list" where
  "reduced_attachments as =
     concat (map (\<lambda>a.
       case (optionalString (raw_attachment_id a), optionalString (raw_filename a), optionalString (raw_url a), raw_size a) of
         (Some i, Some f, Some u, Some z) \<Rightarrow>
           if 0 \<le> z then [\<lparr>attachment_id = i, attachment_filename = f, attachment_type = optionalString (raw_type a),
                          attachment_size = z, attachment_url = u\<rparr>] else []
       | _ \<Rightarrow> []) as)"

definition reduced_mentions :: "raw_user list \<Rightarrow> mention list" where
  "reduced_mentions us =
     concat (map (\<lambda>u. case optionalString (raw_id u) of None \<Rightarrow> []
       | Some i \<Rightarrow> [\<lparr>mention_id = i, mention_username = optionalString (raw_username u), mention_global = optionalString (raw_global u)\<rparr>]) us)"

text \<open>Before the first await.\<close>

definition message_filter :: "bridge_config \<Rightarrow> message_create \<Rightarrow> (string, string \<times> string \<times> string \<times> string) result" where
  "message_filter c p =
     (if \<not> envFlag (ingress_setting c) False then Inl ''ingress_disabled''
      else case (optionalString (mc_id p), optionalString (mc_guild p), optionalString (mc_channel p),
                 optionalString (case mc_author p of None \<Rightarrow> None | Some a \<Rightarrow> raw_id a)) of
          (Some m, Some g, Some ch, Some a) \<Rightarrow>
            if (case mc_author p of None \<Rightarrow> False | Some u \<Rightarrow> raw_bot u) \<or> or_default [] (mc_webhook p) \<noteq> [] then Inl ''automated_author''
            else if mc_type p \<noteq> Some 0 \<and> mc_type p \<noteq> Some 19 then Inl ''unsupported_message_type''
            else Inr (m, g, ch, a)
        | _ \<Rightarrow> Inl ''invalid_identifiers'')"

text \<open>The roles of the bot, kept once they are known; \<open>roles\<close> is what Discord would answer.\<close>

definition managedBotRoleIds :: "string \<Rightarrow> string \<Rightarrow> discord_role list \<Rightarrow> control \<Rightarrow> string list \<times> control" where
  "managedBotRoleIds g botId roles s =
     (case bot_role_ids s g of Some ids \<Rightarrow> (ids, s) | None \<Rightarrow> (managed_role_ids botId roles, storeManagedBotRoleIds g botId roles s))"

subsection \<open>The outbox\<close>

text \<open>\<open>INSERT\<close> into the outbox: \<open>None\<close> when a key, the message or the place in the conversation is taken.\<close>

definition writeOutboxEvent ::
    "string \<Rightarrow> string \<Rightarrow> string \<Rightarrow> nat \<Rightarrow> nat \<Rightarrow> delivery \<Rightarrow> int \<Rightarrow> control \<Rightarrow> control option" where
  "writeOutboxEvent eid m key n version p now s =
     (if (\<exists>(e, r) \<in> set (ingress_outbox s). e = eid \<or> discord_message_id r = m \<or> conversation_key r = key \<and> ordinal r = n)
      then None
      else Some (s\<lparr>
        conversation_state := upsert_row key \<lparr>completed_ordinal = 0, conversation_updated = now\<rparr> (\<lambda>r. r) (conversation_state s),
        ingress_outbox := ingress_outbox s @ [(eid,
          \<lparr>discord_message_id = m, conversation_key = key, ordinal = n, binding_version = version, payload = Some p,
           outbox_state = Pending, lease_token = None, lease_expires_at = None, enqueue_attempts = 0,
           outbox_created = now, outbox_updated = now\<rparr>)]\<rparr>))"

definition known_message :: "string \<Rightarrow> control \<Rightarrow> bool" where
  "known_message m s \<longleftrightarrow> (\<exists>(e, r) \<in> set (ingress_outbox s). discord_message_id r = m)"

datatype ingress = Filtered string | Inserted string | Not_inserted | Insert_failed

definition insertOutboxEvent ::
    "string \<Rightarrow> string \<Rightarrow> string \<Rightarrow> nat \<Rightarrow> nat \<Rightarrow> delivery \<Rightarrow> int \<Rightarrow> control \<Rightarrow> ingress \<times> control" where
  "insertOutboxEvent eid m key n version p now s =
     (if known_message m s then (Not_inserted, s)
      else (case writeOutboxEvent eid m key n version p now s of None \<Rightarrow> (Insert_failed, s) | Some s' \<Rightarrow> (Inserted eid, s')))"

definition insertThreadMessageOutboxEvent ::
    "string \<Rightarrow> string \<Rightarrow> string \<Rightarrow> nat \<Rightarrow> delivery_message \<Rightarrow> int \<Rightarrow> control \<Rightarrow> ingress \<times> control" where
  "insertThreadMessageOutboxEvent eid thread key version p now s =
     (if known_message (discordMessageId p) s then (Not_inserted, s)
      else (case threadBinding thread s of
          None \<Rightarrow> (Not_inserted, s)
        | Some t \<Rightarrow>
            let n = next_ingress_ordinal t;
                s1 = s\<lparr>thread_bindings := update_row thread (\<lambda>r. r\<lparr>next_ingress_ordinal := next_ingress_ordinal r + 1, last_seen_at := now\<rparr>)
                       (thread_bindings s)\<rparr>
            in (case writeOutboxEvent eid (discordMessageId p) key n version (Message (p\<lparr>message_ordinal := n\<rparr>)) now s1 of
                  None \<Rightarrow> (Insert_failed, s) | Some s' \<Rightarrow> (Inserted eid, s'))))"

text \<open>\<open>publishEvent\<close>, after the queue has taken the event or refused it.\<close>

definition update_event :: "string \<Rightarrow> (outbox_row \<Rightarrow> outbox_row) \<Rightarrow> control \<Rightarrow> control" where
  "update_event e f s = s\<lparr>ingress_outbox := update_row e f (ingress_outbox s)\<rparr>"

definition publish_sent :: "string \<Rightarrow> int \<Rightarrow> control \<Rightarrow> control" where
  "publish_sent e now = update_event e (\<lambda>r.
     if outbox_state r = Pending
     then r\<lparr>outbox_state := Enqueued, enqueue_attempts := enqueue_attempts r + 1, outbox_updated := now\<rparr> else r)"

definition publish_failed :: "string \<Rightarrow> int \<Rightarrow> control \<Rightarrow> control" where
  "publish_failed e now s =
     (update_event e (\<lambda>r. r\<lparr>enqueue_attempts := enqueue_attempts r + 1, outbox_updated := now\<rparr>) s)\<lparr>control_alarm := Some (now + 5000)\<rparr>"

subsection \<open>Dispatches of the gateway\<close>

text \<open>
  The rest of \<open>handleMessageCreate\<close>, after its awaits: \<open>botId\<close> is the bot, \<open>managed\<close> its roles in the server.
\<close>

definition handleMessageCreate ::
    "bridge_config \<Rightarrow> message_create \<Rightarrow> string \<times> string \<times> string \<times> string \<Rightarrow> string \<Rightarrow> string list \<Rightarrow> string \<Rightarrow> int \<Rightarrow> control \<Rightarrow> ingress \<times> control" where
  "handleMessageCreate c p ids botId managed eid now s =
     (let (m, g, ch, a) = ids;
          roles = filter (\<lambda>r. r \<noteq> []) (mc_mention_roles p);
          mentionedManaged = (if roles = [] then [] else filter (\<lambda>r. r \<in> set roles) managed);
          mentionsBot = ((\<exists>u \<in> set (mc_mentions p). raw_id u = Some botId) \<or> mentionedManaged \<noteq> []);
          atts = reduced_attachments (mc_attachments p);
          cleaned = units_trim (remove_all (role_mentions mentionedManaged) (remove_all (bot_mentions botId) (or_default [] (mc_content p))));
          thread = threadBinding ch s;
          is_starter = (activeBindingForChannel g ch s \<noteq> None)
      in if a = botId then (Filtered ''bot_self_message'', s)
         else if cleaned = [] \<and> atts = [] then (Filtered ''empty_message'', s)
         else
           let chosen = (case activeBindingForChannel g ch s of
               Some b \<Rightarrow> if \<not> mentionsBot then Inl ''parent_without_mention'' else Inr b
             | None \<Rightarrow>
                 (case thread of
                    None \<Rightarrow> Inl ''unbound_channel''
                  | Some t \<Rightarrow>
                      if tb_guild t \<noteq> g then Inl ''unbound_channel''
                      else (case activeBindingByIntegration (tb_integration t) s of
                          None \<Rightarrow> Inl ''stale_thread_binding''
                        | Some b \<Rightarrow>
                            if cb_parent b \<noteq> tb_parent t then Inl ''stale_thread_binding''
                            else if discordContentMode c = Mention_only \<and> \<not> mentionsBot then Inl ''thread_without_mention''
                            else Inr b)))
           in case chosen of
                Inl status \<Rightarrow> (Filtered status, s)
              | Inr b \<Rightarrow>
                  let key = g @ '':'' @ (if is_starter then m else ch);
                      reduced = \<lparr>discordMessageId = m, guildId = g, channelId = ch, parentChannelId = cb_parent b,
                        message_thread = (if is_starter then None else Some ch), integrationId = cb_integration b, orgId = cb_org b,
                        workspaceId = cb_workspace b, bindingVersion = cb_version b, message_ordinal = 1, content = cleaned,
                        messageType = or_default 0 (mc_type p),
                        message_author = \<lparr>author_id = a,
                          author_username = optionalString (case mc_author p of None \<Rightarrow> None | Some u \<Rightarrow> raw_username u),
                          author_global = optionalString (case mc_author p of None \<Rightarrow> None | Some u \<Rightarrow> raw_global u),
                          author_nick = optionalString (mc_nick p)\<rparr>,
                        message_mentions = reduced_mentions (mc_mentions p), message_attachments = atts,
                        message_timestamp = optionalString (mc_timestamp p), message_mode = discordContentMode c, starter = is_starter\<rparr>
                  in if is_starter then insertOutboxEvent eid m key 1 (cb_version b) (Message reduced) now s
                     else insertThreadMessageOutboxEvent eid ch key (cb_version b) reduced now s)"

definition enqueueLifecycleEvent :: "string \<Rightarrow> channel_binding \<Rightarrow> lifecycle_type \<Rightarrow> int \<Rightarrow> control \<Rightarrow> ingress \<times> control" where
  "enqueueLifecycleEvent eid b ty now s =
     (let name = cb_integration b @ '':'' @ show_nat (cb_version b);
          p = \<lparr>lifecycleType = ty, lifecycle_guild = cb_guild b,
               lifecycle_parent = (if ty = Parent_channel_deleted then Some (cb_parent b) else None),
               lifecycle_integration = cb_integration b, lifecycle_org = cb_org b, lifecycle_workspace = cb_workspace b,
               lifecycle_version = cb_version b\<rparr>
      in insertOutboxEvent eid (''binding-lifecycle:'' @ name) (''lifecycle:'' @ name) 1 (cb_version b) (Lifecycle p) now s)"

text \<open>The other dispatches; those that end a binding give the bindings whose end is to be delivered.\<close>

definition handleGuildCreate :: "string option \<Rightarrow> int \<Rightarrow> control \<Rightarrow> control" where
  "handleGuildCreate g now s =
     (case optionalString g of None \<Rightarrow> s | Some i \<Rightarrow> s\<lparr>guild_presence := upsert_row i now (\<lambda>t. now) (guild_presence s)\<rparr>)"

definition handleGuildDelete :: "string option \<Rightarrow> bool \<Rightarrow> control \<Rightarrow> channel_binding list \<times> control" where
  "handleGuildDelete g unavailable s =
     (case optionalString g of
        None \<Rightarrow> ([], s)
      | Some i \<Rightarrow> if unavailable then ([], s)
          else (filter (\<lambda>b. cb_guild b = i) (channel_bindings s), s\<lparr>guild_presence := delete_row i (guild_presence s)\<rparr>))"

definition handleChannelDelete :: "string option \<Rightarrow> string option \<Rightarrow> control \<Rightarrow> channel_binding option" where
  "handleChannelDelete g ch s =
     (case (optionalString g, optionalString ch) of (Some i, Some j) \<Rightarrow> activeBindingForChannel i j s | _ \<Rightarrow> None)"

definition handleThreadDelete :: "string option \<Rightarrow> control \<Rightarrow> control" where
  "handleThreadDelete t s =
     (case optionalString t of None \<Rightarrow> s | Some i \<Rightarrow> s\<lparr>thread_bindings := delete_row i (thread_bindings s)\<rparr>)"


subsection \<open>Deliveries\<close>

definition DELIVERY_LEASE_MS :: int where "DELIVERY_LEASE_MS = 300000"
definition OUTBOX_RETENTION_MS :: int where "OUTBOX_RETENTION_MS = 604800000"
definition OUTBOX_EXPIRY_MS :: int where "OUTBOX_EXPIRY_MS = 86400000"
definition THREAD_RETENTION_MS :: int where "THREAD_RETENTION_MS = 15552000000"
definition AUXILIARY_RETENTION_MS :: int where "AUXILIARY_RETENTION_MS = 15552000000"

definition terminal :: "outbox_row \<Rightarrow> bool" where
  "terminal r \<longleftrightarrow> outbox_state r = Completed \<or> outbox_state r = Failed"

text \<open>\<open>SELECT completed_ordinal ... ?? 0\<close>\<close>

definition completed_of :: "string \<Rightarrow> control \<Rightarrow> nat" where
  "completed_of key s = (case map_of (conversation_state s) key of None \<Rightarrow> 0 | Some r \<Rightarrow> completed_ordinal r)"

datatype claim = Claim_invalid | Claim_completed | Ordered_wait | Lease_wait int | Claimed string delivery

definition claimDelivery :: "string \<Rightarrow> string \<Rightarrow> int \<Rightarrow> control \<Rightarrow> claim \<times> control" where
  "claimDelivery e token now s =
     (case map_of (ingress_outbox s) e of
        None \<Rightarrow> (Claim_invalid, s)
      | Some r \<Rightarrow>
          if terminal r then (Claim_completed, s)
          else if ordinal r \<noteq> completed_of (conversation_key r) s + 1 then (Ordered_wait, s)
          else if outbox_state r = Leased \<and> now < or_default 0 (lease_expires_at r)
          then (Lease_wait (min 5000 (or_default now (lease_expires_at r) - now)), s)
          else (case payload r of
              None \<Rightarrow> (Claim_invalid, s)
            | Some p \<Rightarrow> (Claimed token p, update_event e (\<lambda>r. r\<lparr>outbox_state := Leased, lease_token := Some token,
                lease_expires_at := Some (now + DELIVERY_LEASE_MS), outbox_updated := now\<rparr>) s)))"

text \<open>
  A delivery has ended: the next of the conversation, if it was held back, is to be published again. The
  row is the one that was read.
\<close>

definition next_in_conversation :: "outbox_row \<Rightarrow> control \<Rightarrow> string option" where
  "next_in_conversation r s =
     map_option fst (find (\<lambda>(e, r'). conversation_key r' = conversation_key r \<and> ordinal r' = ordinal r + 1 \<and> outbox_state r' = Enqueued)
       (ingress_outbox s))"

definition terminalizeDelivery :: "string \<Rightarrow> outbox_row \<Rightarrow> outbox_state \<Rightarrow> int \<Rightarrow> control \<Rightarrow> bool \<times> control" where
  "terminalizeDelivery e r final now s =
     (let s1 = s\<lparr>conversation_state := update_row (conversation_key r)
                   (\<lambda>q. q\<lparr>completed_ordinal := max (completed_ordinal q) (ordinal r), conversation_updated := now\<rparr>) (conversation_state s)\<rparr>;
          s2 = update_event e (\<lambda>r. r\<lparr>outbox_state := final, payload := None, lease_token := None, lease_expires_at := None,
                 outbox_updated := now\<rparr>) s1
      in case next_in_conversation r s2 of
           None \<Rightarrow> (False, s2)
         | Some e' \<Rightarrow> (True, update_event e' (\<lambda>r. r\<lparr>outbox_state := Pending, outbox_updated := now\<rparr>) s2))"

definition wake_at :: "int \<Rightarrow> bool \<times> control \<Rightarrow> control" where
  "wake_at t r = (if fst r then (snd r)\<lparr>control_alarm := Some t\<rparr> else snd r)"

definition finishDelivery :: "string \<Rightarrow> string \<Rightarrow> bool \<Rightarrow> int \<Rightarrow> control \<Rightarrow> bool \<times> control" where
  "finishDelivery e token failed now s =
     (case map_of (ingress_outbox s) e of
        None \<Rightarrow> (True, s)
      | Some r \<Rightarrow>
          if terminal r then (True, s)
          else if lease_token r \<noteq> Some token then (False, s)
          else (True, wake_at (now + 1) (terminalizeDelivery e r (if failed then Failed else Completed) now s)))"

definition retryDelivery :: "string \<Rightarrow> string \<Rightarrow> int \<Rightarrow> control \<Rightarrow> bool \<times> control" where
  "retryDelivery e token now s =
     (case map_of (ingress_outbox s) e of
        None \<Rightarrow> (True, s)
      | Some r \<Rightarrow>
          if terminal r then (True, s)
          else if lease_token r \<noteq> Some token then (False, s)
          else (True, update_event e (\<lambda>r. r\<lparr>outbox_state := Enqueued, lease_token := None, lease_expires_at := None,
                  outbox_updated := now\<rparr>) s))"

subsection \<open>Dead letters\<close>

datatype dead_letter = Dead_invalid | Dead_completed | Dead_failed | Dead_wait

definition add_failure_notice :: "string \<Rightarrow> outbox_row \<Rightarrow> int \<Rightarrow> control \<Rightarrow> control" where
  "add_failure_notice e r now s =
     (case payload r of
        Some (Message m) \<Rightarrow>
          if map_of (failure_notices s) e \<noteq> None then s
          else s\<lparr>failure_notices := failure_notices s @ [(e,
            \<lparr>fn_integration = integrationId m, fn_parent = parentChannelId m, fn_target = channelId m,
             fn_message = discordMessageId m, fn_state = Notice_pending, fn_updated = now\<rparr>)]\<rparr>
      | _ \<Rightarrow> s)"

text \<open>Up to the notice; the notice is sent when one is given.\<close>

definition failDeliveryFromDeadLetter :: "string \<Rightarrow> int \<Rightarrow> control \<Rightarrow> (dead_letter \<times> failure_notice option) \<times> control" where
  "failDeliveryFromDeadLetter e now s =
     (case map_of (ingress_outbox s) e of
        None \<Rightarrow> ((Dead_invalid, None), s)
      | Some r \<Rightarrow>
          if outbox_state r = Completed then ((Dead_completed, map_of (failure_notices s) e), s)
          else if outbox_state r = Failed then ((Dead_failed, map_of (failure_notices s) e), s)
          else if ordinal r \<noteq> completed_of (conversation_key r) s + 1 then ((Dead_wait, None), s)
          else
            let s1 = add_failure_notice e r now s
            in ((Dead_failed, map_of (failure_notices s1) e), wake_at (now + 1) (terminalizeDelivery e r Failed now s1)))"

definition set_notice :: "string \<Rightarrow> notice_state \<Rightarrow> int \<Rightarrow> control \<Rightarrow> control" where
  "set_notice e st now s = s\<lparr>failure_notices := update_row e (\<lambda>n. n\<lparr>fn_state := st, fn_updated := now\<rparr>) (failure_notices s)\<rparr>"

text \<open>Whether the notice is to be posted; it may be suppressed. Then, once it is posted.\<close>

definition dead_letter_notice_start :: "bridge_config \<Rightarrow> string \<Rightarrow> failure_notice \<Rightarrow> int \<Rightarrow> control \<Rightarrow> (bridge_error, bool \<times> control) result" where
  "dead_letter_notice_start c e n now s =
     bind_result (assertOutboundEnabled c) (\<lambda>_.
       if fn_state n \<noteq> Notice_pending then Inr (False, s)
       else (case activeBindingByIntegration (fn_integration n) s of
           None \<Rightarrow> Inr (False, set_notice e Notice_suppressed now s)
         | Some b \<Rightarrow>
             if cb_parent b \<noteq> fn_parent n \<or> notice_limited (fn_target n) now s then Inr (False, set_notice e Notice_suppressed now s)
             else Inr (True, s)))"

definition dead_letter_notice_sent :: "string \<Rightarrow> failure_notice \<Rightarrow> int \<Rightarrow> control \<Rightarrow> control" where
  "dead_letter_notice_sent e n now s =
     (set_notice e Notice_sent now s)\<lparr>failure_notice_at := (failure_notice_at s)(fn_target n := Some now)\<rparr>"

subsection \<open>The alarm\<close>

definition alarm_pending :: "control \<Rightarrow> string list" where
  "alarm_pending s =
     map fst (take 50 (sort_key (\<lambda>(e, r). outbox_created r) (filter (\<lambda>(e, r). outbox_state r = Pending) (ingress_outbox s))))"

text \<open>
  The rows that have expired: \<open>LIMIT 100\<close> without an order, so any of them.
\<close>

definition expired_rows :: "int \<Rightarrow> control \<Rightarrow> (string \<times> outbox_row) list" where
  "expired_rows now s = filter (\<lambda>(e, r). \<not> terminal r \<and> outbox_created r < now - OUTBOX_EXPIRY_MS) (ingress_outbox s)"

fun expire_all :: "int \<Rightarrow> (string \<times> outbox_row) list \<Rightarrow> bool \<times> control \<Rightarrow> bool \<times> control" where
  "expire_all now [] r = r"
| "expire_all now ((e, row) # rows) (b, s) =
     (let (b', s') = terminalizeDelivery e row Failed now s in expire_all now rows (b' \<or> b, s'))"

definition active_key :: "string \<Rightarrow> control \<Rightarrow> bool" where
  "active_key key s \<longleftrightarrow> (\<exists>(e, r) \<in> set (ingress_outbox s). conversation_key r = key \<and> \<not> terminal r)"

definition thread_key :: "string \<Rightarrow> thread_binding \<Rightarrow> string" where
  "thread_key t r = tb_guild r @ '':'' @ t"

definition delete_old :: "int \<Rightarrow> control \<Rightarrow> control" where
  "delete_old now s0 =
     (let s1 = s0\<lparr>ingress_outbox := delete_where (\<lambda>e r. terminal r \<and> outbox_updated r < now - OUTBOX_RETENTION_MS) (ingress_outbox s0)\<rparr>;
          s2 = s1\<lparr>thread_bindings := delete_where (\<lambda>t r. last_seen_at r < now - THREAD_RETENTION_MS \<and> \<not> active_key (thread_key t r) s1)
                 (thread_bindings s1)\<rparr>;
          s3 = s2\<lparr>failure_notices := delete_where (\<lambda>e n. fn_state n \<noteq> Notice_pending \<and> fn_updated n < now - OUTBOX_RETENTION_MS \<and>
                 \<not> (\<exists>(e', r) \<in> set (ingress_outbox s2). e' = e \<and> \<not> terminal r)) (failure_notices s2)\<rparr>;
          s4 = s3\<lparr>proactive_thread_intents := delete_where (\<lambda>op t. intent_thread t \<noteq> None \<and> intent_updated t < now - AUXILIARY_RETENTION_MS \<and>
                 threadBinding (or_default [] (intent_thread t)) s3 = None \<and> map_of (internal_operations s3) op = None)
                 (proactive_thread_intents s3)\<rparr>;
          s5 = s4\<lparr>conversation_state := delete_where (\<lambda>key q. conversation_updated q < now - AUXILIARY_RETENTION_MS \<and> \<not> active_key key s4 \<and>
                 \<not> (\<exists>(t, r) \<in> set (thread_bindings s4). thread_key t r = key)) (conversation_state s4)\<rparr>
      in s5\<lparr>internal_operations := delete_where (\<lambda>op (r, created). created < now - OUTBOX_RETENTION_MS) (internal_operations s5)\<rparr>)"

text \<open>
  The alarm after its publications: \<open>now\<close> is the time at which it started, \<open>published\<close> how many it had to
  publish, and \<open>rows\<close> the expired rows it has read.
\<close>

definition alarm_sweep :: "int \<Rightarrow> nat \<Rightarrow> (string \<times> outbox_row) list \<Rightarrow> control \<Rightarrow> control" where
  "alarm_sweep now published rows s =
     (let (woken, s1) = expire_all now rows (False, s);
          s2 = delete_old now s1
      in if woken then s2\<lparr>control_alarm := Some (now + 1)\<rparr>
         else if 0 < published then s2\<lparr>control_alarm := Some (now + 5000)\<rparr> else s2)"

end
