(* ===== verification/DiscordDeliveryInvariant.thy ===== *)
theory DiscordDeliveryInvariant
  imports DiscordDelivery
begin

section \<open>The control object of the Discord bridge: the invariant of the outbox\<close>

text \<open>
  What holds of the conversations, the deliveries and the threads at every moment, and that each operation of
  DiscordControl and DiscordDelivery keeps it: those that end deliveries (\<open>ended\<close>), those that change one
  delivery (\<open>row_keeps\<close>), those that leave the outbox alone (\<open>steady\<close>), and those that add one.
\<close>

subsection \<open>The outbox and its invariant\<close>

abbreviation row :: "control \<Rightarrow> string \<Rightarrow> outbox_row option" where
  "row s e \<equiv> map_of (ingress_outbox s) e"

definition head_row :: "control \<Rightarrow> outbox_row \<Rightarrow> bool" where
  "head_row s r \<longleftrightarrow> ordinal r = completed_of (conversation_key r) s + 1"

text \<open>
  Places in a conversation are taken once and in the order of time; what has not ended is still to come, and
  only the next of a conversation is leased.
\<close>

definition outbox_ok :: "int \<Rightarrow> control \<Rightarrow> bool" where
  "outbox_ok clock s \<longleftrightarrow> distinct (map fst (ingress_outbox s)) \<and> distinct (map fst (conversation_state s)) \<and>
     (\<forall>e r e' r'. row s e = Some r \<and> row s e' = Some r' \<and> conversation_key r = conversation_key r' \<longrightarrow>
        (ordinal r = ordinal r' \<longrightarrow> e = e') \<and> (ordinal r < ordinal r' \<longrightarrow> outbox_created r \<le> outbox_created r')) \<and>
     (\<forall>e r. row s e = Some r \<longrightarrow> outbox_created r \<le> clock \<and> (lease_token r \<noteq> None \<longrightarrow> outbox_state r = Leased)) \<and>
     (\<forall>e r. row s e = Some r \<and> \<not> terminal r \<longrightarrow>
        payload r \<noteq> None \<and> map_of (conversation_state s) (conversation_key r) \<noteq> None \<and> completed_of (conversation_key r) s < ordinal r) \<and>
     (\<forall>e r. row s e = Some r \<and> outbox_state r = Leased \<longrightarrow> head_row s r)"

definition threads_ok :: "control \<Rightarrow> bool" where
  "threads_ok s \<longleftrightarrow> distinct (map fst (thread_bindings s)) \<and> distinct (map (\<lambda>(t, b). thread_key t b) (thread_bindings s)) \<and>
     (\<forall>(t, b) \<in> set (thread_bindings s). completed_of (thread_key t b) s < next_ingress_ordinal b \<and>
     (\<forall>e r. row s e = Some r \<and> conversation_key r = thread_key t b \<longrightarrow> ordinal r < next_ingress_ordinal b))"

definition control_ok :: "int \<Rightarrow> control \<Rightarrow> bool" where
  "control_ok clock s \<longleftrightarrow> outbox_ok clock s \<and> threads_ok s"

subsection \<open>Deliveries that end\<close>

text \<open>The events of \<open>X\<close> have ended between the two states.\<close>

definition row_ended :: "string set \<Rightarrow> control \<Rightarrow> string \<Rightarrow> outbox_row \<Rightarrow> outbox_row \<Rightarrow> bool" where
  "row_ended X s e r r' \<longleftrightarrow> conversation_key r' = conversation_key r \<and> ordinal r' = ordinal r \<and> outbox_created r' = outbox_created r \<and>
     (e \<in> X \<longrightarrow> terminal r' \<and> lease_token r' = None) \<and>
     (e \<notin> X \<longrightarrow> payload r' = payload r \<and> lease_token r' = lease_token r \<and>
        (outbox_state r' = outbox_state r \<or> outbox_state r = Enqueued \<and> outbox_state r' = Pending) \<and>
        (\<forall>x rx. x \<in> X \<and> row s x = Some rx \<and> conversation_key rx = conversation_key r \<and> ordinal r = ordinal rx + 1 \<longrightarrow>
           outbox_state r' \<noteq> Enqueued))"

definition ended :: "string set \<Rightarrow> control \<Rightarrow> control \<Rightarrow> bool" where
  "ended X s s' \<longleftrightarrow> map fst (ingress_outbox s') = map fst (ingress_outbox s) \<and> thread_bindings s' = thread_bindings s \<and>
     map fst (conversation_state s') = map fst (conversation_state s) \<and>
     (\<forall>e r. row s e = Some r \<longrightarrow> (\<exists>r'. row s' e = Some r' \<and> row_ended X s e r r')) \<and>
     (\<forall>k. completed_of k s \<le> completed_of k s' \<and>
        (completed_of k s' = completed_of k s \<or>
         (\<exists>x rx. x \<in> X \<and> row s x = Some rx \<and> conversation_key rx = k \<and> ordinal rx = completed_of k s')))"

lemma same_keys: "map fst t = map fst t' \<Longrightarrow> (map_of t e = None) = (map_of t' e = None)"
  by (metis map_of_eq_None_iff set_map)

lemma ended_row:
  assumes "ended X s s'" "row s' e = Some r'"
  obtains r where "row s e = Some r" "row_ended X s e r r'"
proof -
  have "row s e \<noteq> None" using assms same_keys [of "ingress_outbox s'" "ingress_outbox s" e] by (simp add: ended_def)
  then obtain r where r: "row s e = Some r" by blast
  with assms have "row_ended X s e r r'" unfolding ended_def by fastforce
  with r that show ?thesis by blast
qed

lemma ended_completed: "ended X s s' \<Longrightarrow> completed_of k s \<le> completed_of k s' \<and>
   (completed_of k s' = completed_of k s \<or> (\<exists>x rx. x \<in> X \<and> row s x = Some rx \<and> conversation_key rx = k \<and> ordinal rx = completed_of k s'))"
  by (simp add: ended_def)

text \<open>\<open>X\<close> has, with an event, those of its conversation that come before and have not ended.\<close>

definition closed_before :: "string set \<Rightarrow> control \<Rightarrow> bool" where
  "closed_before X s \<longleftrightarrow> (\<forall>x rx e r. x \<in> X \<and> row s x = Some rx \<and> row s e = Some r \<and> \<not> terminal r \<and>
     conversation_key r = conversation_key rx \<and> ordinal r \<le> ordinal rx \<longrightarrow> e \<in> X)"

lemma ended_head:
  assumes "ended X s s'" "closed_before X s" "row s e = Some r" "\<not> terminal r" "e \<notin> X" "completed_of (conversation_key r) s < ordinal r"
  shows "completed_of (conversation_key r) s' < ordinal r"
  using ended_completed [OF assms(1), of "conversation_key r"] assms(2-6) unfolding closed_before_def
  by (metis linorder_not_less)

lemma ended_ok:
  assumes ok: "control_ok clock s" and X: "ended X s s'" and cl: "closed_before X s"
  shows "control_ok clock s'"
proof -
  have o: "outbox_ok clock s" and t: "threads_ok s" using ok by (auto simp: control_ok_def)
  have "outbox_ok clock s'"
    unfolding outbox_ok_def
  proof (intro conjI allI impI)
    show "distinct (map fst (ingress_outbox s'))" "distinct (map fst (conversation_state s'))"
      using o X by (auto simp: outbox_ok_def ended_def)
  next
    fix e r' assume a: "row s' e = Some r' \<and> \<not> terminal r'"
    with X obtain r where r: "row s e = Some r" "row_ended X s e r r'" using ended_row by metis
    have e: "e \<notin> X" using r(2) a by (auto simp: row_ended_def)
    have nt: "\<not> terminal r" using r(2) e a by (auto simp: row_ended_def terminal_def)
    have "payload r \<noteq> None" "map_of (conversation_state s) (conversation_key r) \<noteq> None" "completed_of (conversation_key r) s < ordinal r"
      using o r(1) nt unfolding outbox_ok_def by blast+
    then show "payload r' \<noteq> None" "map_of (conversation_state s') (conversation_key r') \<noteq> None"
      "completed_of (conversation_key r') s' < ordinal r'"
      using r(2) e ended_head [OF X cl r(1) nt e] X same_keys [of "conversation_state s'" "conversation_state s"]
      by (auto simp: row_ended_def ended_def)
  next
    fix e r' assume a: "row s' e = Some r' \<and> outbox_state r' = Leased"
    with X obtain r where r: "row s e = Some r" "row_ended X s e r r'" using ended_row by metis
    have e: "e \<notin> X" using r(2) a by (auto simp: row_ended_def terminal_def)
    have l: "outbox_state r = Leased" using r(2) e a by (auto simp: row_ended_def)
    then have nt: "\<not> terminal r" by (simp add: terminal_def)
    have "head_row s r" using o r(1) l unfolding outbox_ok_def by blast
    moreover have "completed_of (conversation_key r) s' < ordinal r"
      by (rule ended_head [OF X cl r(1) nt e]) (use o r(1) nt in \<open>unfold outbox_ok_def, blast\<close>)
    ultimately show "head_row s' r'" using r(2) conjunct1 [OF ended_completed [OF X, of "conversation_key r"]]
      by (simp add: head_row_def row_ended_def)
  next
    fix e r' assume "row s' e = Some r'"
    with X obtain r where r: "row s e = Some r" "row_ended X s e r r'" using ended_row by metis
    have "outbox_created r \<le> clock" "lease_token r \<noteq> None \<Longrightarrow> outbox_state r = Leased" using o r(1) unfolding outbox_ok_def by blast+
    then show "outbox_created r' \<le> clock" "lease_token r' \<noteq> None \<Longrightarrow> outbox_state r' = Leased"
      using r(2) unfolding row_ended_def by (cases "e \<in> X"; auto)+
  next
    fix e r e' r' assume a: "row s' e = Some r \<and> row s' e' = Some r' \<and> conversation_key r = conversation_key r'"
    with X obtain r0 r1 where r0: "row s e = Some r0" "row_ended X s e r0 r" and r1: "row s e' = Some r1" "row_ended X s e' r1 r'"
      using ended_row by metis
    have "conversation_key r0 = conversation_key r1" using a r0(2) r1(2) by (simp add: row_ended_def)
    then have "ordinal r0 = ordinal r1 \<Longrightarrow> e = e'" "ordinal r0 < ordinal r1 \<Longrightarrow> outbox_created r0 \<le> outbox_created r1"
      using o r0(1) r1(1) unfolding outbox_ok_def by metis+
    then show "ordinal r = ordinal r' \<Longrightarrow> e = e'" "ordinal r < ordinal r' \<Longrightarrow> outbox_created r \<le> outbox_created r'"
      using r0(2) r1(2) by (simp_all add: row_ended_def)
  qed
  moreover have "threads_ok s'"
    unfolding threads_ok_def
  proof (intro conjI ballI, goal_cases)
    case 1 then show ?case using t X by (simp add: threads_ok_def ended_def)
  next
    case 2 then show ?case using t X by (simp add: threads_ok_def ended_def)
  next
    case (3 kb)
    obtain k b where kb: "kb = (k, b)" by (cases kb)
    with 3 have b: "(k, b) \<in> set (thread_bindings s')" by simp
    then have b': "(k, b) \<in> set (thread_bindings s)" using X by (simp add: ended_def)
    have t1: "completed_of (thread_key k b) s < next_ingress_ordinal b"
      "\<And>e r. row s e = Some r \<Longrightarrow> conversation_key r = thread_key k b \<Longrightarrow> ordinal r < next_ingress_ordinal b"
      using t b' unfolding threads_ok_def by blast+
    have "completed_of (thread_key k b) s' < next_ingress_ordinal b \<and>
       (\<forall>e r. row s' e = Some r \<and> conversation_key r = thread_key k b \<longrightarrow> ordinal r < next_ingress_ordinal b)"
      using t1 ended_completed [OF X, of "thread_key k b"] ended_row [OF X] unfolding row_ended_def by metis
    then show ?case unfolding kb prod.case .
  qed
  ultimately show ?thesis by (simp add: control_ok_def)
qed


definition places_ok :: "control \<Rightarrow> bool" where
  "places_ok s \<longleftrightarrow> distinct (map fst (ingress_outbox s)) \<and>
     (\<forall>e r e' r'. row s e = Some r \<and> row s e' = Some r' \<and> conversation_key r = conversation_key r' \<and> ordinal r = ordinal r' \<longrightarrow> e = e')"

lemma places_of_outbox: "outbox_ok clock s \<Longrightarrow> places_ok s"
  unfolding outbox_ok_def places_ok_def by blast

lemma row_update_event: "row (update_event e f s) x = (if x = e then map_option f (row s x) else row s x)"
  by (simp add: update_event_def)

lemma update_event_fields [simp]:
  "conversation_state (update_event e f s) = conversation_state s" "thread_bindings (update_event e f s) = thread_bindings s"
  "map fst (ingress_outbox (update_event e f s)) = map fst (ingress_outbox s)"
  "completed_of k (update_event e f s) = completed_of k s"
  by (simp_all add: update_event_def completed_of_def)

lemma find_row:
  assumes "distinct (map fst t)"
  shows "find P t = Some (e, r) \<Longrightarrow> map_of t e = Some r \<and> P (e, r)"
    and "find P t = None \<Longrightarrow> map_of t e = Some r \<Longrightarrow> \<not> P (e, r)"
proof -
  show "find P t = Some (e, r) \<Longrightarrow> map_of t e = Some r \<and> P (e, r)"
    using assms by (metis find_Some_iff map_of_is_SomeI nth_mem)
  show "find P t = None \<Longrightarrow> map_of t e = Some r \<Longrightarrow> \<not> P (e, r)"
    by (metis find_None_iff map_of_SomeD)
qed

lemma completed_update:
  "completed_of k (s\<lparr>conversation_state := update_row key (\<lambda>q. q\<lparr>completed_ordinal := max (completed_ordinal q) n, conversation_updated := now\<rparr>) (conversation_state s)\<rparr>) =
     (if k = key \<and> map_of (conversation_state s) key \<noteq> None then max (completed_of k s) n else completed_of k s)"
  by (auto simp: completed_of_def split: option.split)

lemma terminalize_ended:
  assumes p: "places_ok s" and r0: "row s e = Some r0" "conversation_key r0 = conversation_key r" "ordinal r0 = ordinal r"
    and conv: "map_of (conversation_state s) (conversation_key r) \<noteq> None" and final: "final = Completed \<or> final = Failed"
  shows "ended {e} s (snd (terminalizeDelivery e r final now s))"
proof -
  define s1 where "s1 = s\<lparr>conversation_state := update_row (conversation_key r)
    (\<lambda>q. q\<lparr>completed_ordinal := max (completed_ordinal q) (ordinal r), conversation_updated := now\<rparr>) (conversation_state s)\<rparr>"
  define s2 where "s2 = update_event e (\<lambda>r. r\<lparr>outbox_state := final, payload := None, lease_token := None, lease_expires_at := None,
    outbox_updated := now\<rparr>) s1"
  define s' where "s' = snd (terminalizeDelivery e r final now s)"
  have s': "s' = (case next_in_conversation r s2 of None \<Rightarrow> s2 | Some x \<Rightarrow> update_event x (\<lambda>r. r\<lparr>outbox_state := Pending, outbox_updated := now\<rparr>) s2)"
    by (simp add: s'_def terminalizeDelivery_def Let_def s1_def [symmetric] s2_def [symmetric] split: option.split)
  have keys: "map fst (ingress_outbox s2) = map fst (ingress_outbox s)" by (simp add: s2_def) (simp add: s1_def)
  have d2: "distinct (map fst (ingress_outbox s2))" using p keys by (simp add: places_ok_def)
  have row2: "row s2 x = (if x = e then map_option (\<lambda>r. r\<lparr>outbox_state := final, payload := None, lease_token := None,
      lease_expires_at := None, outbox_updated := now\<rparr>) (row s x) else row s x)" for x
    by (simp add: s2_def row_update_event) (simp add: s1_def)
  have c: "completed_of k s' = (if k = conversation_key r then max (completed_of k s) (ordinal r) else completed_of k s)" for k
  proof -
    have "completed_of k s' = completed_of k s1" unfolding s' by (simp add: s2_def split: option.split)
    then show ?thesis using conv unfolding s1_def by (simp add: completed_update del: not_None_eq)
  qed
  have rows: "\<exists>r'. row s' x = Some r' \<and> row_ended {e} s x q r'" if q: "row s x = Some q" for x q
  proof (cases "x = e")
    case True
    then have q0: "q = r0" using q r0 by simp
    have "row s2 e = Some (q\<lparr>outbox_state := final, payload := None, lease_token := None, lease_expires_at := None, outbox_updated := now\<rparr>)"
      using row2 q True by simp
    moreover have "next_in_conversation r s2 \<noteq> Some e"
      using find_row(1) [OF d2] r0 q0 row2 q True by (fastforce simp: next_in_conversation_def)
    ultimately have "row s' e = Some (q\<lparr>outbox_state := final, payload := None, lease_token := None, lease_expires_at := None, outbox_updated := now\<rparr>)"
      unfolding s' by (auto simp: row_update_event split: option.split)
    then show ?thesis using True final by (auto simp: row_ended_def terminal_def)
  next
    case False
    then have x2: "row s2 x = Some q" using row2 q by simp
    show ?thesis
    proof (cases "next_in_conversation r s2 = Some x")
      case True
      then have "outbox_state q = Enqueued" using find_row(1) [OF d2] x2 by (fastforce simp: next_in_conversation_def)
      moreover have "row s' x = Some (q\<lparr>outbox_state := Pending, outbox_updated := now\<rparr>)" unfolding s' True by (simp add: row_update_event x2)
      ultimately show ?thesis using False by (simp add: row_ended_def)
    next
      case nx: False
      then have r': "row s' x = Some q" unfolding s' using x2 by (auto simp: row_update_event split: option.split)
      have "outbox_state q \<noteq> Enqueued" if k: "conversation_key q = conversation_key r" "ordinal q = ordinal r + 1"
      proof
        assume "outbox_state q = Enqueued"
        then have P: "find (\<lambda>(e, r'). conversation_key r' = conversation_key r \<and> ordinal r' = ordinal r + 1 \<and> outbox_state r' = Enqueued)
            (ingress_outbox s2) \<noteq> None" using find_row(2) [OF d2 _ x2] k by fastforce
        then obtain y qy where y: "find (\<lambda>(e, r'). conversation_key r' = conversation_key r \<and> ordinal r' = ordinal r + 1 \<and> outbox_state r' = Enqueued)
            (ingress_outbox s2) = Some (y, qy)" by (cases "find (\<lambda>(e, r'). conversation_key r' = conversation_key r \<and> ordinal r' = ordinal r + 1 \<and> outbox_state r' = Enqueued)
            (ingress_outbox s2)") auto
        then have yn: "next_in_conversation r s2 = Some y" by (simp add: next_in_conversation_def)
        have y2: "row s2 y = Some qy" "conversation_key qy = conversation_key r" "ordinal qy = ordinal r + 1" using find_row(1) [OF d2 y] by auto
        then have "y \<noteq> e" using r0 row2 by auto
        then have "row s y = Some qy" using y2(1) row2 by simp
        then have "y = x" using p q k y2 unfolding places_ok_def by metis
        then show False using nx yn by simp
      qed
      then show ?thesis using r' False r0 by (auto simp: row_ended_def)
    qed
  qed
  have "thread_bindings s' = thread_bindings s" "map fst (conversation_state s') = map fst (conversation_state s)"
    "map fst (ingress_outbox s') = map fst (ingress_outbox s)"
    unfolding s' using keys by (simp_all add: s2_def s1_def split: option.split)
  then show ?thesis using rows c r0 unfolding ended_def s'_def [symmetric] by (auto simp: max_def)
qed


lemma row_ended_trans:
  assumes a: "ended X s s'" and r: "row_ended X s e r r'" "row_ended Y s' e r' r''"
  shows "row_ended (X \<union> Y) s e r r''"
proof -
  have "outbox_state r'' \<noteq> Enqueued"
    if e: "e \<notin> X \<union> Y" and x: "x \<in> X \<union> Y" "row s x = Some rx" "conversation_key rx = conversation_key r" "ordinal r = ordinal rx + 1" for x rx
  proof (cases "x \<in> X")
    case True
    then have "outbox_state r' \<noteq> Enqueued" using r(1) e x unfolding row_ended_def by blast
    then show ?thesis using r(2) e unfolding row_ended_def by auto
  next
    case False
    from a x(2) obtain rx' where "row s' x = Some rx'" "conversation_key rx' = conversation_key rx" "ordinal rx' = ordinal rx"
      unfolding ended_def row_ended_def by blast
    moreover have "conversation_key r' = conversation_key r" "ordinal r' = ordinal r" using r(1) by (simp_all add: row_ended_def)
    ultimately show ?thesis using r(2) e x False unfolding row_ended_def by auto
  qed
  moreover have "terminal r'' \<and> lease_token r'' = None" if "e \<in> X \<union> Y"
    using that r unfolding row_ended_def by (cases "e \<in> Y") (auto simp: terminal_def)
  moreover have "payload r'' = payload r \<and> lease_token r'' = lease_token r \<and>
      (outbox_state r'' = outbox_state r \<or> outbox_state r = Enqueued \<and> outbox_state r'' = Pending)" if "e \<notin> X \<union> Y"
    using that r unfolding row_ended_def by auto
  moreover have "conversation_key r'' = conversation_key r" "ordinal r'' = ordinal r" "outbox_created r'' = outbox_created r"
    using r by (simp_all add: row_ended_def)
  ultimately show ?thesis unfolding row_ended_def by blast
qed

lemma ended_trans:
  assumes a: "ended X s s'" and b: "ended Y s' s''"
  shows "ended (X \<union> Y) s s''"
proof -
  have "\<exists>r''. row s'' e = Some r'' \<and> row_ended (X \<union> Y) s e r r''" if "row s e = Some r" for e r
    using a b that row_ended_trans [OF a] unfolding ended_def by metis
  moreover have "completed_of k s \<le> completed_of k s'' \<and> (completed_of k s'' = completed_of k s \<or>
      (\<exists>x rx. x \<in> X \<union> Y \<and> row s x = Some rx \<and> conversation_key rx = k \<and> ordinal rx = completed_of k s''))" for k
  proof -
    have "completed_of k s'' = completed_of k s' \<or> (\<exists>x rx. x \<in> Y \<and> row s x = Some rx \<and> conversation_key rx = k \<and> ordinal rx = completed_of k s'')"
      using ended_completed [OF b, of k] ended_row [OF a] unfolding row_ended_def by metis
    then show ?thesis using ended_completed [OF a, of k] ended_completed [OF b, of k] by (metis Un_iff order_trans)
  qed
  ultimately show ?thesis using a b unfolding ended_def by simp
qed

lemma ended_refl: "ended {} s s"
  by (simp add: ended_def row_ended_def)

lemma ended_places:
  assumes "ended X s s'" "places_ok s"
  shows "places_ok s'"
  unfolding places_ok_def
proof (intro conjI allI impI)
  show "distinct (map fst (ingress_outbox s'))" using assms by (simp add: ended_def places_ok_def)
  fix e r e' r' assume "row s' e = Some r \<and> row s' e' = Some r' \<and> conversation_key r = conversation_key r' \<and> ordinal r = ordinal r'"
  then obtain r0 r1 where "row s e = Some r0" "row_ended X s e r0 r" "row s e' = Some r1" "row_ended X s e' r1 r'"
    "conversation_key r = conversation_key r'" "ordinal r = ordinal r'" using ended_row [OF assms(1)] by metis
  then show "e = e'" using assms(2) unfolding places_ok_def row_ended_def by metis
qed

lemma expire_all_ended:
  assumes "places_ok s" "\<And>e r. (e, r) \<in> set rows \<Longrightarrow> \<exists>r0. row s e = Some r0 \<and> conversation_key r0 = conversation_key r \<and>
    ordinal r0 = ordinal r \<and> map_of (conversation_state s) (conversation_key r) \<noteq> None"
  shows "ended (fst ` set rows) s (snd (expire_all now rows (b, s)))"
  using assms
proof (induction rows arbitrary: b s)
  case (Cons er rows)
  obtain e r where er: "er = (e, r)" by (cases er)
  obtain b' s' where t: "terminalizeDelivery e r Failed now s = (b', s')" by (cases "terminalizeDelivery e r Failed now s")
  have "ended {e} s (snd (terminalizeDelivery e r Failed now s))"
    using Cons.prems(1) Cons.prems(2) [of e r] er by (auto intro: terminalize_ended)
  then have a: "ended {e} s s'" by (simp add: t)
  have "ended (fst ` set rows) s' (snd (expire_all now rows (b' \<or> b, s')))"
  proof (rule Cons.IH)
    show "places_ok s'" by (rule ended_places [OF a Cons.prems(1)])
    fix x q assume "(x, q) \<in> set rows"
    then obtain r0 where r0: "row s x = Some r0" "conversation_key r0 = conversation_key q" "ordinal r0 = ordinal q"
      "map_of (conversation_state s) (conversation_key q) \<noteq> None" using Cons.prems(2) [of x q] by auto
    moreover obtain r1 where "row s' x = Some r1" "row_ended {e} s x r0 r1" using a r0(1) unfolding ended_def by blast
    moreover have "map_of (conversation_state s') (conversation_key q) \<noteq> None"
      using a r0(4) same_keys [of "conversation_state s'" "conversation_state s" "conversation_key q"] by (simp add: ended_def)
    ultimately show "\<exists>r0. row s' x = Some r0 \<and> conversation_key r0 = conversation_key q \<and> ordinal r0 = ordinal q \<and>
        map_of (conversation_state s') (conversation_key q) \<noteq> None" by (auto simp: row_ended_def)
  qed
  from ended_trans [OF a this] show ?case by (simp add: er t)
qed (simp add: ended_refl)


subsection \<open>Operations that leave the outbox alone\<close>

definition fresh_thread :: "string \<Rightarrow> channel_binding \<Rightarrow> nat \<Rightarrow> control \<Rightarrow> bool" where
  "fresh_thread t b n s \<longleftrightarrow> (\<forall>(t', b') \<in> set (thread_bindings s). thread_key t' b' \<noteq> cb_guild b @ '':'' @ t) \<and>
     completed_of (cb_guild b @ '':'' @ t) s < n \<and>
     (\<forall>e r. row s e = Some r \<and> conversation_key r = cb_guild b @ '':'' @ t \<longrightarrow> ordinal r < n)"

text \<open>
  What else the object does. An activation commits what was planned in some earlier state. A thread it starts
  is new, or it is the one it has registered: the messages of a thread are kept only once it is registered.
\<close>

inductive other_operation :: "int \<Rightarrow> control \<Rightarrow> control \<Rightarrow> bool" for now where
  plan: "activate_plan i g s = Inr (b, prev, s') \<Longrightarrow> other_operation now s s'"
| commit: "activate_plan i g s0 = Inr (b, prev, s1) \<Longrightarrow> activate_commit i b prev ids now s = Inr (a, s') \<Longrightarrow> other_operation now s s'"
| release: "other_operation now s (snd (releaseBinding i v s))"
| roles: "other_operation now s (storeManagedBotRoleIds g botId rs s)"
| identity: "other_operation now s (setBotIdentity botId s)"
| thread_started: "threadBinding t s = None \<longrightarrow> fresh_thread t b 2 s \<Longrightarrow>
    other_operation now s (snd (thread_from_message_started t b i parent op now s))"
| proactive_begins: "proactive_start c i op name txt now s = Inr (x, s') \<Longrightarrow> other_operation now s s'"
| proactive_posted: "proactive_starter_posted ids op now s = Inr (m, s') \<Longrightarrow> other_operation now s s'"
| proactive_ready: "threadBinding t s = None \<longrightarrow> fresh_thread t b 1 s \<Longrightarrow>
    other_operation now s (snd (proactive_thread_ready t m b it i op now s))"
| message_sent: "other_operation now s (snd (send_message_sent n ids k i t op f now s))"
| notice_begins: "starter_notice_start c i parent m op now s = Inr (x, s') \<Longrightarrow> other_operation now s s'"
| notice_posted: "other_operation now s (snd (starter_notice_sent n i parent m op now s))"
| dead_notice_begins: "dead_letter_notice_start c e fn now s = Inr (x, s') \<Longrightarrow> other_operation now s s'"
| dead_notice_posted: "other_operation now s (dead_letter_notice_sent e fn now s)"
| guild_created: "other_operation now s (handleGuildCreate g now s)"
| guild_deleted: "other_operation now s (snd (handleGuildDelete g u s))"
| thread_deleted: "other_operation now s (handleThreadDelete t s)"

definition steady :: "control \<Rightarrow> control \<Rightarrow> bool" where
  "steady s s' \<longleftrightarrow> ingress_outbox s' = ingress_outbox s \<and> conversation_state s' = conversation_state s \<and>
     (threads_ok s \<longrightarrow> threads_ok s')"

lemma steady_same:
  "ingress_outbox s' = ingress_outbox s \<Longrightarrow> conversation_state s' = conversation_state s \<Longrightarrow> thread_bindings s' = thread_bindings s \<Longrightarrow> steady s s'"
  by (simp add: steady_def threads_ok_def completed_of_def)

lemma steady_trans: "steady s s' \<Longrightarrow> steady s' s'' \<Longrightarrow> steady s s''"
  by (simp add: steady_def)

lemma steady_filter:
  assumes "ingress_outbox s' = ingress_outbox s" "conversation_state s' = conversation_state s" "thread_bindings s' = filter P (thread_bindings s)"
  shows "steady s s'"
proof -
  have "distinct (map f (filter P xs))" if "distinct (map f xs)" for f :: "string \<times> thread_binding \<Rightarrow> string" and xs
    using that by (induction xs) auto
  then show ?thesis using assms by (auto simp: steady_def threads_ok_def completed_of_def)
qed

text \<open>What of the threads the invariant speaks of.\<close>

definition thread_view :: "(string \<times> thread_binding) list \<Rightarrow> (string \<times> string \<times> nat) list" where
  "thread_view ts = map (\<lambda>(t, b). (t, thread_key t b, next_ingress_ordinal b)) ts"

lemma threads_ok_view:
  "threads_ok s \<longleftrightarrow> distinct (map fst (thread_view (thread_bindings s))) \<and>
     distinct (map (\<lambda>(t, k, n). k) (thread_view (thread_bindings s))) \<and>
     (\<forall>(t, k, n) \<in> set (thread_view (thread_bindings s)). completed_of k s < n \<and>
        (\<forall>e r. row s e = Some r \<and> conversation_key r = k \<longrightarrow> ordinal r < n))"
proof -
  have e: "map fst (thread_view ts) = map fst ts" "map (\<lambda>(t, k, n). k) (thread_view ts) = map (\<lambda>(t, b). thread_key t b) ts"
    and b: "(\<forall>(t, k, n) \<in> set (thread_view ts). P k n) = (\<forall>(t, b) \<in> set ts. P (thread_key t b) (next_ingress_ordinal b))" for ts P
    by (induction ts) (auto simp: thread_view_def)
  show ?thesis unfolding threads_ok_def e b ..
qed

lemma steady_view:
  "ingress_outbox s' = ingress_outbox s \<Longrightarrow> conversation_state s' = conversation_state s \<Longrightarrow>
   thread_view (thread_bindings s') = thread_view (thread_bindings s) \<Longrightarrow> steady s s'"
  by (simp add: steady_def threads_ok_view completed_of_def)

lemma thread_view_update:
  "(\<And>b. tb_guild (f b) = tb_guild b \<and> next_ingress_ordinal (f b) = next_ingress_ordinal b) \<Longrightarrow>
   thread_view (update_row t f ts) = thread_view ts"
  by (induction ts) (auto simp: thread_view_def update_row_def thread_key_def)

lemma steady_register:
  assumes "threadBinding t s = None \<longrightarrow> fresh_thread t b (if st then 2 else 1) s"
  shows "steady s (registerThread t b st n now s)"
proof (cases "threadBinding t s")
  case (Some r)
  then show ?thesis
    by (intro steady_view) (simp_all add: registerThread_def upsert_row_def threadBinding_def thread_view_update)
next
  case None
  let ?r = "\<lparr>tb_guild = cb_guild b, tb_parent = cb_parent b, tb_integration = cb_integration b, tb_org = cb_org b,
    tb_workspace = cb_workspace b, next_ingress_ordinal = (if st then 2 else 1), mention_notice_sent = n, last_seen_at = now\<rparr>"
  have r: "registerThread t b st n now s = s\<lparr>thread_bindings := thread_bindings s @ [(t, ?r)]\<rparr>"
    using None by (simp add: registerThread_def upsert_row_def threadBinding_def)
  have k: "thread_key t ?r = cb_guild b @ '':'' @ t" by (simp add: thread_key_def)
  have t: "t \<notin> fst ` set (thread_bindings s)" using None by (simp add: threadBinding_def map_of_eq_None_iff)
  have f: "fresh_thread t b (if st then 2 else 1) s" using assms None by simp
  have "cb_guild b @ '':'' @ t \<notin> set (map (\<lambda>(t, b). thread_key t b) (thread_bindings s))"
    using f by (auto simp: fresh_thread_def)
  then show ?thesis using f t unfolding r steady_def threads_ok_def
    by (auto simp: k completed_of_def fresh_thread_def split: if_splits)
qed

lemma steady_store [simp]: "steady s (storeOperation op r now s') \<longleftrightarrow> steady s s'"
  by (simp add: steady_def storeOperation_def threads_ok_def completed_of_def)


lemma proactive_same:
  "proactive_start c i ok name tx now s = Inr (x, s') \<Longrightarrow> ingress_outbox s' = ingress_outbox s \<and>
     conversation_state s' = conversation_state s \<and> thread_bindings s' = thread_bindings s"
  unfolding proactive_start_def bind_result_def Let_def
  by (cases "operationResult ok ''thread_proactive'' s"; cases "assertOutboundEnabled c"; cases "activeBindingByIntegration i s";
      cases "map_of (proactive_thread_intents s) ok")
    (auto split: option.splits operation_result.splits if_splits)

lemma notice_same:
  "starter_notice_start c i parent m ok now s = Inr (x, s') \<Longrightarrow> ingress_outbox s' = ingress_outbox s \<and>
     conversation_state s' = conversation_state s \<and> thread_bindings s' = thread_bindings s"
  unfolding starter_notice_start_def bind_result_def Let_def
  by (cases "operationResult ok ''starter_failure_notice'' s"; cases "assertOutboundEnabled c"; cases "bound_parent i parent s")
    (auto simp: storeOperation_def split: option.splits operation_result.splits if_splits)

lemma other_steady: "other_operation now s s' \<Longrightarrow> steady s s'"
proof (induction rule: other_operation.induct)
  case (plan i g s b prev s')
  then show ?case
    by (auto simp: activate_plan_def Let_def nextBindingVersion_def bind_result_eq_Inr split: if_splits prod.splits intro: steady_same)
next
  case (commit i g s0 b prev s1 ids s a s')
  have "steady s (upsert_channel b s)" "steady s (upsert_channel b (delete_integration k s))" for k
    by (auto simp: upsert_channel_def delete_integration_def delete_where_def case_prod_unfold intro: steady_same steady_filter)
  then show ?case using commit by (auto simp: activate_commit_def Let_def split: if_splits)
next
  case (release s i v)
  have "steady s (delete_integration k s)" for k
    by (rule steady_filter) (auto simp: delete_integration_def delete_where_def case_prod_unfold)
  then show ?case by (auto simp: releaseBinding_def split: option.split intro: steady_same)
next
  case (thread_started t s b i parent ok)
  then show ?case using steady_register [of t s b True False now] by (simp add: thread_from_message_started_def Let_def)
next
  case (proactive_begins c i ok name tx s x s')
  then show ?case
    by (intro steady_same) (auto dest: proactive_same)
next
  case (proactive_posted ids ok s m s')
  then show ?case by (auto simp: proactive_starter_posted_def split: list.splits if_splits intro: steady_same)
next
  case (proactive_ready t s b m it i ok)
  let ?s = "s\<lparr>proactive_thread_intents := update_row ok (\<lambda>x. x\<lparr>intent_thread := Some t, intent_updated := now\<rparr>) (proactive_thread_intents s)\<rparr>"
  have s: "steady s ?s" by (rule steady_same) simp_all
  have "threadBinding t ?s = None \<longrightarrow> fresh_thread t b (if False then 2 else 1) ?s"
    using proactive_ready by (auto simp: threadBinding_def fresh_thread_def completed_of_def)
  from steady_trans [OF s steady_register [OF this]] show ?case by (simp add: proactive_thread_ready_def Let_def)
next
  case (message_sent s n ids k i t ok f)
  have "steady s (s\<lparr>thread_bindings := update_row t (\<lambda>b. b\<lparr>mention_notice_sent := True, last_seen_at := now\<rparr>) (thread_bindings s)\<rparr>)"
    by (rule steady_view) (simp_all add: thread_view_update)
  then show ?case by (auto simp: send_message_sent_def Let_def intro: steady_same)
next
  case (notice_begins c i parent m ok s x s')
  then show ?case
    by (intro steady_same) (auto dest: notice_same)
next
  case (dead_notice_begins c e fn s x s')
  then show ?case
    by (auto simp: dead_letter_notice_start_def set_notice_def bind_result_eq_Inr split: option.splits if_splits intro: steady_same)
next
  case (thread_deleted s t)
  then show ?case
    by (auto simp: handleThreadDelete_def delete_row_def case_prod_unfold split: option.split intro: steady_same steady_filter)
qed (auto simp: storeManagedBotRoleIds_def setBotIdentity_def starter_notice_sent_def Let_def dead_letter_notice_sent_def set_notice_def
    handleGuildCreate_def handleGuildDelete_def split: option.split intro: steady_same)

lemma steady_ok: "steady s s' \<Longrightarrow> control_ok clock s \<Longrightarrow> control_ok clock s'"
  by (auto simp: steady_def control_ok_def outbox_ok_def completed_of_def head_row_def)


subsection \<open>Operations on the outbox\<close>


definition row_keeps :: "control \<Rightarrow> outbox_row \<Rightarrow> outbox_row \<Rightarrow> bool" where
  "row_keeps s r r' \<longleftrightarrow> conversation_key r' = conversation_key r \<and> ordinal r' = ordinal r \<and>
     outbox_created r' = outbox_created r \<and> payload r' = payload r \<and> terminal r' = terminal r \<and>
     (lease_token r' \<noteq> None \<longrightarrow> outbox_state r' = Leased) \<and> (outbox_state r' = Leased \<longrightarrow> head_row s r)"

lemma update_row_keeps:
  assumes "outbox_ok clock s" "\<And>r. row s e = Some r \<Longrightarrow> row_keeps s r (f r)" "row (update_event e f s) x = Some r'"
  obtains r where "row s x = Some r" "row_keeps s r r'"
proof (cases "x = e")
  case True
  then show ?thesis using assms(2,3) that by (auto simp: row_update_event)
next
  case False
  then have r: "row s x = Some r'" using assms(3) by (simp add: row_update_event)
  then have "row_keeps s r' r'" using assms(1) unfolding outbox_ok_def row_keeps_def by blast
  with r show ?thesis by (rule that)
qed

lemma update_ok:
  assumes ok: "control_ok clock s" and f: "\<And>r. row s e = Some r \<Longrightarrow> row_keeps s r (f r)"
  shows "control_ok clock (update_event e f s)"
proof -
  let ?s = "update_event e f s"
  have o: "outbox_ok clock s" and t: "threads_ok s" using ok by (auto simp: control_ok_def)
  note k = update_row_keeps [where f = f and e = e and s = s, OF o f]
  have "outbox_ok clock ?s"
    unfolding outbox_ok_def
  proof (intro conjI allI impI)
    show "distinct (map fst (ingress_outbox ?s))" "distinct (map fst (conversation_state ?s))"
      using o by (simp_all add: outbox_ok_def)
  next
    fix x r' assume a: "row ?s x = Some r' \<and> \<not> terminal r'"
    then obtain r where r: "row s x = Some r" "row_keeps s r r'" using k by blast
    then have "\<not> terminal r" using a by (simp add: row_keeps_def)
    then have "payload r \<noteq> None" "map_of (conversation_state s) (conversation_key r) \<noteq> None" "completed_of (conversation_key r) s < ordinal r"
      using o r(1) unfolding outbox_ok_def by blast+
    then show "payload r' \<noteq> None" "map_of (conversation_state ?s) (conversation_key r') \<noteq> None"
      "completed_of (conversation_key r') ?s < ordinal r'" using r(2) by (simp_all add: row_keeps_def)
  next
    fix x r' assume a: "row ?s x = Some r' \<and> outbox_state r' = Leased"
    then obtain r where "row s x = Some r" "row_keeps s r r'" using k by blast
    then show "head_row ?s r'" using a by (simp add: row_keeps_def head_row_def)
  next
    fix x r' assume "row ?s x = Some r'"
    then obtain r where r: "row s x = Some r" "row_keeps s r r'" using k by blast
    have "outbox_created r \<le> clock" using o r(1) unfolding outbox_ok_def by blast
    then show "outbox_created r' \<le> clock" "lease_token r' \<noteq> None \<Longrightarrow> outbox_state r' = Leased"
      using r(2) by (simp_all add: row_keeps_def)
  next
    fix x r x' r' assume a: "row ?s x = Some r \<and> row ?s x' = Some r' \<and> conversation_key r = conversation_key r'"
    obtain r0 where r0: "row s x = Some r0" "row_keeps s r0 r" using k a by blast
    obtain r1 where r1: "row s x' = Some r1" "row_keeps s r1 r'" using k a by blast
    have "conversation_key r0 = conversation_key r1" using a r0(2) r1(2) by (simp add: row_keeps_def)
    then have "ordinal r0 = ordinal r1 \<Longrightarrow> x = x'" "ordinal r0 < ordinal r1 \<Longrightarrow> outbox_created r0 \<le> outbox_created r1"
      using o r0(1) r1(1) unfolding outbox_ok_def by metis+
    then show "ordinal r = ordinal r' \<Longrightarrow> x = x'" "ordinal r < ordinal r' \<Longrightarrow> outbox_created r \<le> outbox_created r'"
      using r0(2) r1(2) by (simp_all add: row_keeps_def)
  qed
  moreover have "threads_ok ?s"
    unfolding threads_ok_def
  proof (intro conjI ballI, goal_cases)
    case 1 then show ?case using t by (simp add: threads_ok_def)
  next
    case 2 then show ?case using t by (simp add: threads_ok_def)
  next
    case (3 kb)
    obtain t' b where kb: "kb = (t', b)" by (cases kb)
    with 3 have "(t', b) \<in> set (thread_bindings s)" by simp
    then have t1: "completed_of (thread_key t' b) s < next_ingress_ordinal b"
      "\<And>x r. row s x = Some r \<Longrightarrow> conversation_key r = thread_key t' b \<Longrightarrow> ordinal r < next_ingress_ordinal b"
      using t unfolding threads_ok_def by blast+
    have "ordinal r' < next_ingress_ordinal b" if "row ?s x = Some r'" "conversation_key r' = thread_key t' b" for x r'
    proof -
      obtain r where "row s x = Some r" "row_keeps s r r'" using k \<open>row ?s x = Some r'\<close> by blast
      then show ?thesis using t1(2) [of x r] that(2) by (simp add: row_keeps_def)
    qed
    then have "completed_of (thread_key t' b) ?s < next_ingress_ordinal b \<and>
       (\<forall>x r. row ?s x = Some r \<and> conversation_key r = thread_key t' b \<longrightarrow> ordinal r < next_ingress_ordinal b)"
      using t1(1) unfolding update_event_fields by blast
    then show ?case unfolding kb prod.case .
  qed
  ultimately show ?thesis by (simp add: control_ok_def)
qed

subsection \<open>Deliveries are published, claimed and ended\<close>

lemma ok_row_keeps:
  assumes "control_ok clock s" "row s e = Some r"
  shows "row_keeps s r r"
  using assms unfolding control_ok_def outbox_ok_def row_keeps_def by blast

lemma ok_time: "control_ok clock s \<Longrightarrow> clock \<le> clock' \<Longrightarrow> control_ok clock' s"
  unfolding control_ok_def outbox_ok_def by (meson order_trans)

lemma ok_alarm [simp]: "control_ok clock (s\<lparr>control_alarm := a\<rparr>) = control_ok clock s"
  using steady_ok [OF steady_same, of s "s\<lparr>control_alarm := a\<rparr>"] steady_ok [OF steady_same, of "s\<lparr>control_alarm := a\<rparr>" s] by auto

lemma ok_wake [simp]: "control_ok clock (wake_at t p) = control_ok clock (snd p)"
  by (simp add: wake_at_def)

lemma publish_sent_ok: "control_ok clock s \<Longrightarrow> control_ok clock (publish_sent e now s)"
  unfolding publish_sent_def
  by (rule update_ok, assumption, drule (1) ok_row_keeps) (auto simp: row_keeps_def terminal_def)

lemma publish_failed_ok: "control_ok clock s \<Longrightarrow> control_ok clock (publish_failed e now s)"
  unfolding publish_failed_def ok_alarm
  by (rule update_ok, assumption, drule (1) ok_row_keeps) (simp add: row_keeps_def terminal_def)

lemma claimDelivery_ok:
  assumes "control_ok clock s"
  shows "control_ok clock (snd (claimDelivery e token now s))"
proof -
  have "control_ok clock (update_event e (\<lambda>r. r\<lparr>outbox_state := Leased, lease_token := Some token,
      lease_expires_at := Some (now + DELIVERY_LEASE_MS), outbox_updated := now\<rparr>) s)"
    if "row s e = Some r" "\<not> terminal r" "ordinal r = completed_of (conversation_key r) s + 1" for r
    using assms that by (intro update_ok) (auto simp: row_keeps_def terminal_def head_row_def)
  then show ?thesis using assms by (auto simp: claimDelivery_def split: option.split)
qed

lemma retryDelivery_ok:
  assumes "control_ok clock s"
  shows "control_ok clock (snd (retryDelivery e token now s))"
proof -
  have "control_ok clock (update_event e (\<lambda>r. r\<lparr>outbox_state := Enqueued, lease_token := None, lease_expires_at := None,
                  outbox_updated := now\<rparr>) s)" if "row s e = Some r" "\<not> terminal r" for r
    using assms that by (intro update_ok) (auto simp: row_keeps_def terminal_def)
  then show ?thesis using assms by (auto simp: retryDelivery_def split: option.split)
qed

lemma head_closed:
  assumes "control_ok clock s" "row s e = Some r" "head_row s r"
  shows "closed_before {e} s"
  unfolding closed_before_def
proof (intro allI impI, elim conjE)
  fix x rx e' r' assume a: "x \<in> {e}" "row s x = Some rx" "row s e' = Some r'" "\<not> terminal r'"
    "conversation_key r' = conversation_key rx" "ordinal r' \<le> ordinal rx"
  then have rx: "rx = r" "x = e" using assms(2) by auto
  have "completed_of (conversation_key r') s < ordinal r'"
    using assms(1) a(3,4) unfolding control_ok_def outbox_ok_def by blast
  then have "ordinal r' = ordinal r" using a rx assms(3) by (simp add: head_row_def)
  then have "e' = e" using assms(1,2) a(3,5) rx unfolding control_ok_def outbox_ok_def by blast
  then show "e' \<in> {e}" by simp
qed

lemma conversation_known:
  "control_ok clock s \<Longrightarrow> row s e = Some r \<Longrightarrow> \<not> terminal r \<Longrightarrow> map_of (conversation_state s) (conversation_key r) \<noteq> None"
  unfolding control_ok_def outbox_ok_def by blast

lemma ok_places: "control_ok clock s \<Longrightarrow> places_ok s"
  by (auto simp: control_ok_def intro: places_of_outbox)

lemma terminalize_ok:
  assumes "control_ok clock s" "row s e = Some r" "head_row s r" "\<not> terminal r" "final = Completed \<or> final = Failed"
  shows "control_ok clock (snd (terminalizeDelivery e r final now s))"
  by (rule ended_ok [OF assms(1) terminalize_ended [OF ok_places [OF assms(1)] assms(2) refl refl _ assms(5)] head_closed [OF assms(1-3)]])
    (rule conversation_known [OF assms(1,2,4)])

lemma finishDelivery_ok:
  assumes "control_ok clock s"
  shows "control_ok clock (snd (finishDelivery e token failed now s))"
proof -
  have "head_row s r" if "row s e = Some r" "lease_token r = Some token" for r
    using assms that unfolding control_ok_def outbox_ok_def by (metis option.distinct(1))
  then show ?thesis using assms by (auto simp: finishDelivery_def split: option.split intro!: terminalize_ok)
qed

lemma add_failure_notice_fields [simp]:
  "ingress_outbox (add_failure_notice e r now s) = ingress_outbox s"
  "conversation_state (add_failure_notice e r now s) = conversation_state s"
  "thread_bindings (add_failure_notice e r now s) = thread_bindings s"
  by (auto simp: add_failure_notice_def split: option.split delivery.split)

lemma add_failure_notice_ok: "control_ok clock s \<Longrightarrow> control_ok clock (add_failure_notice e r now s)"
  by (rule steady_ok [OF steady_same]) simp_all

lemma failDelivery_ok:
  assumes "control_ok clock s"
  shows "control_ok clock (snd (failDeliveryFromDeadLetter e now s))"
  using assms by (auto simp: failDeliveryFromDeadLetter_def Let_def terminal_def head_row_def completed_of_def
    split: option.split intro!: terminalize_ok add_failure_notice_ok)

lemma ok_order:
  assumes "control_ok clock s" "row s e = Some r" "row s e' = Some r'" "conversation_key r = conversation_key r'"
  shows "(ordinal r = ordinal r' \<longrightarrow> e = e') \<and> (ordinal r < ordinal r' \<longrightarrow> outbox_created r \<le> outbox_created r')"
proof -
  have "\<forall>e r e' r'. row s e = Some r \<and> row s e' = Some r' \<and> conversation_key r = conversation_key r' \<longrightarrow>
        (ordinal r = ordinal r' \<longrightarrow> e = e') \<and> (ordinal r < ordinal r' \<longrightarrow> outbox_created r \<le> outbox_created r')"
    using assms(1) unfolding control_ok_def outbox_ok_def by (elim conjE)
  then show ?thesis using assms(2-4) by blast
qed

text \<open>
  The sweep ends every delivery of some age: those that come before in the conversation are older.
\<close>

lemma expired_closed:
  assumes "control_ok clock s" "set rows = set (expired_rows now s)"
  shows "closed_before (fst ` set rows) s"
  unfolding closed_before_def
proof (intro allI impI, elim conjE)
  fix x rx e r assume a: "x \<in> fst ` set rows" "row s x = Some rx" "row s e = Some r" "\<not> terminal r"
    "conversation_key r = conversation_key rx" "ordinal r \<le> ordinal rx"
  have d: "distinct (map fst (ingress_outbox s))" using assms(1) by (simp add: control_ok_def outbox_ok_def)
  obtain rx' where "row s x = Some rx'" "outbox_created rx' < now - OUTBOX_EXPIRY_MS"
    using a(1) assms(2) d by (auto simp: expired_rows_def)
  then have old: "outbox_created rx < now - OUTBOX_EXPIRY_MS" using a(2) by simp
  have or: "(ordinal r = ordinal rx \<longrightarrow> e = x) \<and> (ordinal r < ordinal rx \<longrightarrow> outbox_created r \<le> outbox_created rx)"
    by (rule ok_order [OF assms(1) a(3,2,5)])
  have "outbox_created r \<le> outbox_created rx"
  proof (cases "ordinal r = ordinal rx")
    case True
    then have "Some r = Some rx" unfolding a(2,3) [symmetric] using or by simp
    then show ?thesis by simp
  next
    case False
    then show ?thesis using or a(6) by linarith
  qed
  moreover have "(e, r) \<in> set (ingress_outbox s)" using a(3) by (rule map_of_SomeD)
  ultimately have "(e, r) \<in> set (expired_rows now s)" using old a(4) by (simp add: expired_rows_def)
  then show "e \<in> fst ` set rows" using assms(2) by force
qed

lemma expire_all_ok:
  assumes ok: "control_ok clock s" and rows: "set rows = set (expired_rows now s)"
  shows "control_ok clock (snd (expire_all now rows (b, s)))"
proof (rule ended_ok [OF ok _ expired_closed [OF ok rows]])
  have d: "distinct (map fst (ingress_outbox s))" using ok by (simp add: control_ok_def outbox_ok_def)
  show "ended (fst ` set rows) s (snd (expire_all now rows (b, s)))"
  proof (rule expire_all_ended [OF ok_places [OF ok]])
    fix e r assume "(e, r) \<in> set rows"
    then have "row s e = Some r" "\<not> terminal r" using rows d by (auto simp: expired_rows_def)
    then show "\<exists>r0. row s e = Some r0 \<and> conversation_key r0 = conversation_key r \<and> ordinal r0 = ordinal r \<and>
        map_of (conversation_state s) (conversation_key r) \<noteq> None" using conversation_known [OF ok] by blast
  qed
qed

subsection \<open>Old rows are deleted\<close>

lemma map_of_filter_Some:
  "distinct (map fst t) \<Longrightarrow> map_of (filter P t) e = Some r \<longleftrightarrow> map_of t e = Some r \<and> P (e, r)"
  by (induction t) (auto dest: map_of_SomeD intro: rev_image_eqI)

lemma distinct_filter: "distinct (map f t) \<Longrightarrow> distinct (map f (filter P t))"
  by (induction t) auto

lemma filtered_ok:
  assumes ok: "control_ok clock s"
    and s': "ingress_outbox s' = filter P (ingress_outbox s)" "thread_bindings s' = filter Q (thread_bindings s)"
      "conversation_state s' = filter R (conversation_state s)"
    and used: "\<And>k q. active_key k s' \<or> (\<exists>(t, b) \<in> set (thread_bindings s'). thread_key t b = k) \<Longrightarrow> R (k, q)"
  shows "control_ok clock s'"
proof -
  have o: "outbox_ok clock s" and t: "threads_ok s" using ok by (auto simp: control_ok_def)
  have d: "distinct (map fst (ingress_outbox s))" "distinct (map fst (conversation_state s))" using o by (simp_all add: outbox_ok_def)
  have row: "row s e = Some r" if "row s' e = Some r" for e r using that d by (simp add: s' map_of_filter_Some)
  have conv: "map_of (conversation_state s') k = map_of (conversation_state s) k" if "\<And>q. R (k, q)" for k
  proof (cases "map_of (conversation_state s) k")
    case None
    then show ?thesis using map_of_filter_Some [OF d(2), of R k] unfolding s' by (metis option.exhaust option.distinct(1))
  next
    case (Some q)
    then show ?thesis using map_of_filter_Some [OF d(2), of R k q] that unfolding s' by simp
  qed
  then have compl: "completed_of k s' = completed_of k s" if "\<And>q. R (k, q)" for k using that by (simp add: completed_of_def)
  have active: "R (conversation_key r, q)" if "row s' e = Some r" "\<not> terminal r" for e r q
    using that by (intro used) (auto simp: active_key_def dest!: map_of_SomeD)
  have "outbox_ok clock s'"
    unfolding outbox_ok_def
  proof (intro conjI allI impI)
    show "distinct (map fst (ingress_outbox s'))" "distinct (map fst (conversation_state s'))"
      using d by (simp_all add: s' distinct_filter)
  next
    fix e r assume a: "row s' e = Some r \<and> \<not> terminal r"
    then have r: "row s e = Some r" "\<not> terminal r" "\<And>q. R (conversation_key r, q)" using row active by blast+
    then have "payload r \<noteq> None" "map_of (conversation_state s) (conversation_key r) \<noteq> None" "completed_of (conversation_key r) s < ordinal r"
      using o unfolding outbox_ok_def by blast+
    then show "payload r \<noteq> None" "map_of (conversation_state s') (conversation_key r) \<noteq> None" "completed_of (conversation_key r) s' < ordinal r"
      using conv [OF r(3)] compl [OF r(3)] by simp_all
  next
    fix e r assume a: "row s' e = Some r \<and> outbox_state r = Leased"
    then have "head_row s r" "\<And>q. R (conversation_key r, q)"
      using o row [of e r] active [of e r] unfolding outbox_ok_def by (blast, simp add: terminal_def)
    then show "head_row s' r" using compl by (simp add: head_row_def)
  next
    fix e r assume "row s' e = Some r"
    then show "outbox_created r \<le> clock" "lease_token r \<noteq> None \<Longrightarrow> outbox_state r = Leased"
      using o row [of e r] unfolding outbox_ok_def by blast+
  next
    fix e r e' r' assume "row s' e = Some r \<and> row s' e' = Some r' \<and> conversation_key r = conversation_key r'"
    then show "ordinal r = ordinal r' \<Longrightarrow> e = e'" "ordinal r < ordinal r' \<Longrightarrow> outbox_created r \<le> outbox_created r'"
      using o row unfolding outbox_ok_def by blast+
  qed
  moreover have "threads_ok s'"
    unfolding threads_ok_def
  proof (intro conjI ballI, goal_cases)
    case 1 then show ?case using t by (simp add: threads_ok_def s' distinct_filter)
  next
    case 2 then show ?case using t by (simp add: threads_ok_def s' distinct_filter)
  next
    case (3 kb)
    obtain t' b where kb: "kb = (t', b)" by (cases kb)
    with 3 have b: "(t', b) \<in> set (thread_bindings s')" by simp
    have "R (thread_key t' b, q)" for q using b by (intro used) auto
    then have c: "completed_of (thread_key t' b) s' = completed_of (thread_key t' b) s" by (rule compl)
    have "(t', b) \<in> set (thread_bindings s)" using b by (simp add: s')
    then have "completed_of (thread_key t' b) s' < next_ingress_ordinal b \<and>
       (\<forall>e r. row s' e = Some r \<and> conversation_key r = thread_key t' b \<longrightarrow> ordinal r < next_ingress_ordinal b)"
      using t row unfolding threads_ok_def c by blast
    then show ?case unfolding kb prod.case .
  qed
  ultimately show ?thesis by (simp add: control_ok_def)
qed

lemma delete_old_fields:
  "ingress_outbox (delete_old now s) = delete_where (\<lambda>e r. terminal r \<and> outbox_updated r < now - OUTBOX_RETENTION_MS) (ingress_outbox s)"
  "thread_bindings (delete_old now s) =
     delete_where (\<lambda>t r. last_seen_at r < now - THREAD_RETENTION_MS \<and> \<not> active_key (thread_key t r) (delete_old now s)) (thread_bindings s)"
  "conversation_state (delete_old now s) =
     delete_where (\<lambda>key q. conversation_updated q < now - AUXILIARY_RETENTION_MS \<and> \<not> active_key key (delete_old now s) \<and>
       \<not> (\<exists>(t, r) \<in> set (thread_bindings (delete_old now s)). thread_key t r = key)) (conversation_state s)"
  by (simp_all add: delete_old_def Let_def active_key_def)

lemma delete_old_ok:
  assumes "control_ok clock s"
  shows "control_ok clock (delete_old now s)"
  by (rule filtered_ok [OF assms delete_old_fields [unfolded delete_where_def]]) auto

end
