(* ===== verification/DiscordDeliveryPlaces.thy ===== *)
theory DiscordDeliveryPlaces
  imports DiscordDeliveryInvariant
begin

section \<open>The control object of the Discord bridge: places in a conversation\<close>

text \<open>
  That what is inserted takes the next place of its conversation and keeps the invariant; how a message of
  Discord is routed (\<open>handleMessageCreate_cases\<close>); and how each operation changes the deliveries that wait
  for a message of the queue (\<open>waits\<close>).
\<close>

subsection \<open>Deliveries are added\<close>

definition new_row :: "string \<Rightarrow> string \<Rightarrow> nat \<Rightarrow> nat \<Rightarrow> delivery \<Rightarrow> int \<Rightarrow> outbox_row" where
  "new_row m key n version p now =
     \<lparr>discord_message_id = m, conversation_key = key, ordinal = n, binding_version = version, payload = Some p,
      outbox_state = Pending, lease_token = None, lease_expires_at = None, enqueue_attempts = 0,
      outbox_created = now, outbox_updated = now\<rparr>"

lemma new_row_simps [simp]:
  "discord_message_id (new_row m key n version p now) = m" "conversation_key (new_row m key n version p now) = key"
  "ordinal (new_row m key n version p now) = n" "payload (new_row m key n version p now) = Some p"
  "outbox_state (new_row m key n version p now) = Pending" "lease_token (new_row m key n version p now) = None"
  "outbox_created (new_row m key n version p now) = now" "\<not> terminal (new_row m key n version p now)"
  by (simp_all add: new_row_def terminal_def)

lemma writeOutboxEvent_fields:
  assumes "writeOutboxEvent eid m key n version p now s = Some s'"
  shows "row s eid = None" "ingress_outbox s' = ingress_outbox s @ [(eid, new_row m key n version p now)]"
    "row s' x = (if x = eid then Some (new_row m key n version p now) else row s x)"
    "completed_of k s' = completed_of k s" "thread_bindings s' = thread_bindings s"
    "map_of (conversation_state s') k \<noteq> None \<longleftrightarrow> k = key \<or> map_of (conversation_state s) k \<noteq> None"
    "distinct (map fst (conversation_state s)) \<Longrightarrow> distinct (map fst (conversation_state s'))"
proof -
  have f: "\<not> (\<exists>(e, r) \<in> set (ingress_outbox s). e = eid \<or> discord_message_id r = m \<or> conversation_key r = key \<and> ordinal r = n)"
    and s': "s' = s\<lparr>conversation_state := upsert_row key \<lparr>completed_ordinal = 0, conversation_updated = now\<rparr> (\<lambda>r. r) (conversation_state s),
        ingress_outbox := ingress_outbox s @ [(eid, new_row m key n version p now)]\<rparr>"
    using assms by (auto simp: writeOutboxEvent_def new_row_def split: if_splits)
  then show n: "row s eid = None" by (auto simp: map_of_eq_None_iff)
  show "row s' x = (if x = eid then Some (new_row m key n version p now) else row s x)"
    using n by (simp add: s' map_add_def split: option.split)
  show "completed_of k s' = completed_of k s" by (simp add: s' completed_of_def split: option.split)
qed (use assms in \<open>auto simp: writeOutboxEvent_def new_row_def distinct_upsert_row split: if_splits option.splits\<close>)

text \<open>The place that is taken comes after all that are known of the conversation.\<close>

definition next_place :: "string \<Rightarrow> nat \<Rightarrow> control \<Rightarrow> bool" where
  "next_place key n s \<longleftrightarrow> completed_of key s < n \<and> (\<forall>e r. row s e = Some r \<and> conversation_key r = key \<longrightarrow> ordinal r < n) \<and>
     (\<forall>(t, b) \<in> set (thread_bindings s). thread_key t b = key \<longrightarrow> n < next_ingress_ordinal b)"

lemma write_ok:
  assumes ok: "control_ok clock s" and now: "clock \<le> now" and w: "writeOutboxEvent eid m key n version p now s = Some s'"
    and n: "next_place key n s"
  shows "control_ok now s'"
proof -
  have o: "outbox_ok now s" and t: "threads_ok s" using ok_time [OF ok now] by (auto simp: control_ok_def)
  note f = writeOutboxEvent_fields [OF w]
  have old: "ordinal r < n" if "row s e = Some r" "conversation_key r = key" for e r
    using n that unfolding next_place_def by blast
  have "outbox_ok now s'"
    unfolding outbox_ok_def
  proof (intro conjI allI impI)
    show "distinct (map fst (ingress_outbox s'))" using o f(1) by (auto simp: f(2) outbox_ok_def map_of_eq_None_iff)
    show "distinct (map fst (conversation_state s'))" using o f(7) by (simp add: outbox_ok_def)
  next
    fix e r assume a: "row s' e = Some r \<and> \<not> terminal r"
    have "payload r \<noteq> None \<and> map_of (conversation_state s') (conversation_key r) \<noteq> None \<and> completed_of (conversation_key r) s' < ordinal r"
    proof (cases "e = eid")
      case True
      then show ?thesis using a n unfolding f(3,4,6) by (auto simp: next_place_def)
    next
      case False
      then have "row s e = Some r" "\<not> terminal r" using a by (auto simp: f(3))
      then show ?thesis using o unfolding f(4,6) outbox_ok_def by blast
    qed
    then show "payload r \<noteq> None" "map_of (conversation_state s') (conversation_key r) \<noteq> None" "completed_of (conversation_key r) s' < ordinal r"
      by blast+
  next
    fix e r assume a: "row s' e = Some r \<and> outbox_state r = Leased"
    then have "row s e = Some r" by (auto simp: f(3) split: if_splits)
    then have "head_row s r" using o a unfolding outbox_ok_def by blast
    then show "head_row s' r" by (simp add: head_row_def f(4))
  next
    fix e r assume a: "row s' e = Some r"
    have "outbox_created r \<le> now \<and> (lease_token r \<noteq> None \<longrightarrow> outbox_state r = Leased)"
    proof (cases "e = eid")
      case True
      then show ?thesis using a by (auto simp: f(3))
    next
      case False
      then have "row s e = Some r" using a by (simp add: f(3))
      then show ?thesis using o unfolding outbox_ok_def by blast
    qed
    then show "outbox_created r \<le> now" "lease_token r \<noteq> None \<Longrightarrow> outbox_state r = Leased" by blast+
  next
    fix e r e' r' assume a: "row s' e = Some r \<and> row s' e' = Some r' \<and> conversation_key r = conversation_key r'"
    have c: "outbox_created q \<le> now" if "row s x = Some q" for x q using o that unfolding outbox_ok_def by blast
    have "(ordinal r = ordinal r' \<longrightarrow> e = e') \<and> (ordinal r < ordinal r' \<longrightarrow> outbox_created r \<le> outbox_created r')"
    proof (cases "e = eid"; cases "e' = eid")
      assume "e = eid" "e' = eid"
      then show ?thesis using a by auto
    next
      assume "e = eid" "e' \<noteq> eid"
      then show ?thesis using a old [of e' r'] by (auto simp: f(3))
    next
      assume "e \<noteq> eid" "e' = eid"
      then show ?thesis using a old [of e r] c [of e r] by (auto simp: f(3))
    next
      assume "e \<noteq> eid" "e' \<noteq> eid"
      then have "row s e = Some r" "row s e' = Some r'" using a by (simp_all add: f(3))
      then show ?thesis using ok_order [OF ok] a by blast
    qed
    then show "ordinal r = ordinal r' \<Longrightarrow> e = e'" "ordinal r < ordinal r' \<Longrightarrow> outbox_created r \<le> outbox_created r'"
      by blast+
  qed
  moreover have "threads_ok s'"
    unfolding threads_ok_def f(5)
  proof (intro conjI ballI, goal_cases)
    case 1 then show ?case using t by (simp add: threads_ok_def)
  next
    case 2 then show ?case using t by (simp add: threads_ok_def)
  next
    case (3 kb)
    obtain t' b where kb: "kb = (t', b)" by (cases kb)
    with 3 have b: "(t', b) \<in> set (thread_bindings s)" by simp
    then have t1: "completed_of (thread_key t' b) s < next_ingress_ordinal b"
      "\<And>e r. row s e = Some r \<Longrightarrow> conversation_key r = thread_key t' b \<Longrightarrow> ordinal r < next_ingress_ordinal b"
      using t unfolding threads_ok_def by blast+
    have "ordinal r < next_ingress_ordinal b" if "row s' e = Some r" "conversation_key r = thread_key t' b" for e r
    proof (cases "e = eid")
      case True
      then show ?thesis using that n b unfolding next_place_def by (auto simp: f(3))
    next
      case False
      then show ?thesis using t1(2) that by (simp add: f(3))
    qed
    then have "completed_of (thread_key t' b) s' < next_ingress_ordinal b \<and>
       (\<forall>e r. row s' e = Some r \<and> conversation_key r = thread_key t' b \<longrightarrow> ordinal r < next_ingress_ordinal b)"
      using t1(1) unfolding f(4) by blast
    then show ?case unfolding kb prod.case .
  qed
  ultimately show ?thesis by (simp add: control_ok_def)
qed

text \<open>The next message of a thread.\<close>

definition bump_thread :: "string \<Rightarrow> int \<Rightarrow> control \<Rightarrow> control" where
  "bump_thread t now s = s\<lparr>thread_bindings := update_row t (\<lambda>r. r\<lparr>next_ingress_ordinal := next_ingress_ordinal r + 1, last_seen_at := now\<rparr>)
     (thread_bindings s)\<rparr>"

lemma bump_thread_keys: "map (\<lambda>(t, b). thread_key t b) (thread_bindings (bump_thread t now s)) = map (\<lambda>(t, b). thread_key t b) (thread_bindings s)"
  by (auto simp: bump_thread_def update_row_def thread_key_def)

lemma bump_thread_fields [simp]:
  "ingress_outbox (bump_thread t now s) = ingress_outbox s" "conversation_state (bump_thread t now s) = conversation_state s"
  "completed_of k (bump_thread t now s) = completed_of k s"
  by (simp_all add: bump_thread_def completed_of_def)

lemma bump_thread_mem:
  assumes "(t', b') \<in> set (thread_bindings (bump_thread t now s))"
  obtains b where "(t', b) \<in> set (thread_bindings s)" "thread_key t' b' = thread_key t' b"
    "next_ingress_ordinal b' = (if t' = t then next_ingress_ordinal b + 1 else next_ingress_ordinal b)"
  using assms that by (auto simp: bump_thread_def update_row_def thread_key_def split: if_splits)

lemma outbox_ok_same:
  assumes "ingress_outbox s' = ingress_outbox s" "conversation_state s' = conversation_state s"
  shows "outbox_ok clock s' = outbox_ok clock s"
proof -
  have "completed_of k s' = completed_of k s" for k by (simp add: completed_of_def assms)
  then show ?thesis unfolding outbox_ok_def head_row_def assms by simp
qed

lemma bump_thread_ok:
  assumes "control_ok clock s"
  shows "control_ok clock (bump_thread t now s)"
proof -
  have o: "outbox_ok clock (bump_thread t now s)"
    using assms outbox_ok_same [of "bump_thread t now s" s clock] by (simp add: control_ok_def bump_thread_def)
  have t: "threads_ok s" using assms by (simp add: control_ok_def)
  have "threads_ok (bump_thread t now s)"
    unfolding threads_ok_def bump_thread_keys
  proof (intro conjI ballI, goal_cases)
    case 1 then show ?case using t by (simp add: threads_ok_def bump_thread_def)
  next
    case 2 then show ?case using t by (simp add: threads_ok_def)
  next
    case (3 kb)
    obtain t' b' where kb: "kb = (t', b')" by (cases kb)
    with 3 have "(t', b') \<in> set (thread_bindings (bump_thread t now s))" by simp
    then obtain b where b: "(t', b) \<in> set (thread_bindings s)" "thread_key t' b' = thread_key t' b" "next_ingress_ordinal b \<le> next_ingress_ordinal b'"
      by (auto elim!: bump_thread_mem split: if_splits)
    then have "completed_of (thread_key t' b') s < next_ingress_ordinal b' \<and>
       (\<forall>e r. row s e = Some r \<and> conversation_key r = thread_key t' b' \<longrightarrow> ordinal r < next_ingress_ordinal b')"
      using t unfolding threads_ok_def b(2) by (fastforce intro: less_le_trans)
    then show ?case unfolding kb prod.case bump_thread_fields .
  qed
  with o show ?thesis by (simp add: control_ok_def)
qed

lemma bump_thread_place:
  assumes ok: "control_ok clock s" and b: "threadBinding t s = Some b"
  shows "next_place (thread_key t b) (next_ingress_ordinal b) (bump_thread t now s)"
proof -
  have t: "threads_ok s" using ok by (simp add: control_ok_def)
  have m: "(t, b) \<in> set (thread_bindings s)" using b by (auto simp: threadBinding_def dest: map_of_SomeD)
  have u: "t' = t \<and> b' = b" if "(t', b') \<in> set (thread_bindings s)" "thread_key t' b' = thread_key t b" for t' b'
  proof -
    have "distinct (map (\<lambda>(t, b). thread_key t b) (thread_bindings s))" using t by (simp add: threads_ok_def)
    then have "inj_on (\<lambda>(t, b). thread_key t b) (set (thread_bindings s))" by (simp add: distinct_map)
    from inj_onD [OF this, of "(t', b')" "(t, b)"] that m show ?thesis by simp
  qed
  have n: "next_ingress_ordinal b < next_ingress_ordinal b'"
    if "(t', b') \<in> set (thread_bindings (bump_thread t now s))" "thread_key t' b' = thread_key t b" for t' b'
  proof -
    note a = that(1)
    obtain b2 where b2: "(t', b2) \<in> set (thread_bindings s)" "thread_key t' b' = thread_key t' b2"
      "next_ingress_ordinal b' = (if t' = t then next_ingress_ordinal b2 + 1 else next_ingress_ordinal b2)"
      by (rule bump_thread_mem [OF a])
    then have "t' = t \<and> b2 = b" using u that(2) by simp
    with b2(3) show ?thesis by simp
  qed
  have "completed_of (thread_key t b) s < next_ingress_ordinal b \<and>
     (\<forall>e r. row s e = Some r \<and> conversation_key r = thread_key t b \<longrightarrow> ordinal r < next_ingress_ordinal b)"
    using t m unfolding threads_ok_def by blast
  then show ?thesis using n unfolding next_place_def bump_thread_fields by blast
qed

text \<open>The two kinds of insertion. A conversation that a message begins, or a lifecycle event, is new.\<close>

lemma insertOutboxEvent_ok:
  assumes "control_ok clock s" "clock \<le> now" "known_message m s \<or> next_place key n s"
  shows "control_ok now (snd (insertOutboxEvent eid m key n version p now s))"
  using assms ok_time [OF assms(1,2)] by (auto simp: insertOutboxEvent_def split: option.split intro: write_ok)

lemma insertThreadMessage_ok:
  assumes ok: "control_ok clock s" "clock \<le> now" and key: "\<And>b. threadBinding t s = Some b \<Longrightarrow> key = thread_key t b"
  shows "control_ok now (snd (insertThreadMessageOutboxEvent eid t key version p now s))"
proof -
  have "control_ok now s'"
    if b: "threadBinding t s = Some b" and w: "writeOutboxEvent eid m key (next_ingress_ordinal b) version q now (bump_thread t now s) = Some s'" for b m q s'
    using write_ok [OF bump_thread_ok [OF ok(1)] ok(2) w] bump_thread_place [OF ok(1) b] key [OF b] by simp
  then show ?thesis using ok_time [OF ok]
    unfolding insertThreadMessageOutboxEvent_def Let_def bump_thread_def [symmetric] by (auto split: option.split)
qed

text \<open>What a message of Discord does: it is dropped, or inserted at the place that it is routed to.\<close>

definition mentions_bot :: "string \<Rightarrow> string list \<Rightarrow> message_create \<Rightarrow> bool" where
  "mentions_bot botId managed p \<longleftrightarrow> (\<exists>u \<in> set (mc_mentions p). raw_id u = Some botId) \<or>
     (\<exists>r \<in> set managed. r \<noteq> [] \<and> r \<in> set (mc_mention_roles p))"

lemma managed_mentioned:
  "(if filter (\<lambda>r. r \<noteq> []) rs = [] then [] else filter (\<lambda>r. r \<in> set (filter (\<lambda>r. r \<noteq> []) rs)) managed) \<noteq> [] \<longleftrightarrow>
   (\<exists>r \<in> set managed. r \<noteq> [] \<and> r \<in> set rs)"
  by (auto simp: filter_empty_conv)

text \<open>The message that is delivered for one of the binding \<open>b\<close>.\<close>

definition delivered :: "bridge_config \<Rightarrow> string \<Rightarrow> string \<Rightarrow> string \<Rightarrow> string \<Rightarrow> channel_binding \<Rightarrow> bool \<Rightarrow> delivery_message \<Rightarrow> bool" where
  "delivered c m g ch a b st q \<longleftrightarrow> discordMessageId q = m \<and> guildId q = g \<and> channelId q = ch \<and> parentChannelId q = cb_parent b \<and>
     message_thread q = (if st then None else Some ch) \<and> integrationId q = cb_integration b \<and> orgId q = cb_org b \<and>
     workspaceId q = cb_workspace b \<and> bindingVersion q = cb_version b \<and> message_ordinal q = 1 \<and> starter q = st \<and>
     author_id (message_author q) = a \<and> message_mode q = discordContentMode c"

lemma handleMessageCreate_cases:
  obtains (filtered) st where "handleMessageCreate c p (m, g, ch, a) botId managed eid now s = (Filtered st, s)"
  | (starts) b q where "a \<noteq> botId" "activeBindingForChannel g ch s = Some b" "mentions_bot botId managed p" "delivered c m g ch a b True q"
      "handleMessageCreate c p (m, g, ch, a) botId managed eid now s =
         insertOutboxEvent eid m (g @ '':'' @ m) 1 (cb_version b) (Message q) now s"
  | (continues) t b q where "a \<noteq> botId" "activeBindingForChannel g ch s = None" "threadBinding ch s = Some t" "tb_guild t = g"
      "activeBindingByIntegration (tb_integration t) s = Some b" "cb_parent b = tb_parent t"
      "discordContentMode c = Mention_only \<longrightarrow> mentions_bot botId managed p" "delivered c m g ch a b False q"
      "handleMessageCreate c p (m, g, ch, a) botId managed eid now s =
         insertThreadMessageOutboxEvent eid ch (g @ '':'' @ ch) (cb_version b) q now s"
proof -
  define mm where "mm = (if filter (\<lambda>r. r \<noteq> []) (mc_mention_roles p) = [] then []
    else filter (\<lambda>r. r \<in> set (filter (\<lambda>r. r \<noteq> []) (mc_mention_roles p))) managed)"
  define empty where "empty \<longleftrightarrow> units_trim (remove_all (role_mentions mm) (remove_all (bot_mentions botId) (or_default [] (mc_content p)))) = [] \<and>
    reduced_attachments (mc_attachments p) = []"
  have men: "(\<exists>u\<in>set (mc_mentions p). raw_id u = Some botId) \<or> mm \<noteq> [] \<longleftrightarrow> mentions_bot botId managed p"
    unfolding mm_def managed_mentioned mentions_bot_def ..
  define msg :: "channel_binding \<Rightarrow> delivery_message" where "msg b = \<lparr>discordMessageId = m, guildId = g, channelId = ch, parentChannelId = cb_parent b,
      message_thread = (if activeBindingForChannel g ch s \<noteq> None then None else Some ch), integrationId = cb_integration b, orgId = cb_org b,
      workspaceId = cb_workspace b, bindingVersion = cb_version b, message_ordinal = 1,
      content = units_trim (remove_all (role_mentions mm) (remove_all (bot_mentions botId) (or_default [] (mc_content p)))),
      messageType = or_default 0 (mc_type p),
      message_author = \<lparr>author_id = a,
        author_username = optionalString (case mc_author p of None \<Rightarrow> None | Some u \<Rightarrow> raw_username u),
        author_global = optionalString (case mc_author p of None \<Rightarrow> None | Some u \<Rightarrow> raw_global u),
        author_nick = optionalString (mc_nick p)\<rparr>,
      message_mentions = reduced_mentions (mc_mentions p), message_attachments = reduced_attachments (mc_attachments p),
      message_timestamp = optionalString (mc_timestamp p), message_mode = discordContentMode c,
      starter = (activeBindingForChannel g ch s \<noteq> None)\<rparr>" for b
  have msg: "delivered c m g ch a b (activeBindingForChannel g ch s \<noteq> None) (msg b)" for b by (simp add: delivered_def msg_def)
  define key where "key = g @ '':'' @ (if activeBindingForChannel g ch s \<noteq> None then m else ch)"
  have eq: "handleMessageCreate c p (m, g, ch, a) botId managed eid now s = (
      if a = botId then (Filtered ''bot_self_message'', s)
      else if empty then (Filtered ''empty_message'', s)
      else case (case activeBindingForChannel g ch s of
               Some b \<Rightarrow> if \<not> mentions_bot botId managed p then Inl ''parent_without_mention'' else Inr b
             | None \<Rightarrow>
                 (case threadBinding ch s of
                    None \<Rightarrow> Inl ''unbound_channel''
                  | Some t \<Rightarrow>
                      if tb_guild t \<noteq> g then Inl ''unbound_channel''
                      else (case activeBindingByIntegration (tb_integration t) s of
                          None \<Rightarrow> Inl ''stale_thread_binding''
                        | Some b \<Rightarrow>
                            if cb_parent b \<noteq> tb_parent t then Inl ''stale_thread_binding''
                            else if discordContentMode c = Mention_only \<and> \<not> mentions_bot botId managed p then Inl ''thread_without_mention''
                            else Inr b))) of
          Inl status \<Rightarrow> (Filtered status, s)
        | Inr b \<Rightarrow> if activeBindingForChannel g ch s \<noteq> None then insertOutboxEvent eid m key 1 (cb_version b) (Message (msg b)) now s
                    else insertThreadMessageOutboxEvent eid ch key (cb_version b) (msg b) now s)"
    unfolding handleMessageCreate_def Let_def prod.case mm_def [symmetric] men empty_def msg_def key_def by (rule refl)
  show ?thesis
  proof (cases "a = botId \<or> empty")
    case True
    then show ?thesis using filtered eq by (auto split: if_splits)
  next
    case act: False
    show ?thesis
    proof (cases "activeBindingForChannel g ch s")
      case (Some b)
      show ?thesis
      proof (cases "mentions_bot botId managed p")
        case True
        with act Some show ?thesis using msg [of b] by (intro starts [of b "msg b"]) (auto simp: eq key_def)
      next
        case False
        with act Some show ?thesis by (intro filtered) (auto simp: eq)
      qed
    next
      case none: None
      show ?thesis
      proof (cases "threadBinding ch s")
        case None
        with act none show ?thesis by (intro filtered) (auto simp: eq)
      next
        case (Some t)
        show ?thesis
        proof (cases "activeBindingByIntegration (tb_integration t) s")
          case None
          with act none Some have "\<exists>st. handleMessageCreate c p (m, g, ch, a) botId managed eid now s = (Filtered st, s)"
            unfolding eq by (cases "tb_guild t = g") simp_all
          then show ?thesis using filtered by blast
        next
          case b: (Some b)
          show ?thesis
          proof (cases "tb_guild t = g \<and> cb_parent b = tb_parent t \<and> \<not> (discordContentMode c = Mention_only \<and> \<not> mentions_bot botId managed p)")
            case True
            with act none Some b show ?thesis using msg [of b] by (intro continues [of t b "msg b"]) (auto simp: eq key_def)
          next
            case False
            with act none Some b have "\<exists>st. handleMessageCreate c p (m, g, ch, a) botId managed eid now s = (Filtered st, s)"
              unfolding eq by (cases "tb_guild t = g"; cases "cb_parent b = tb_parent t") simp_all
            then show ?thesis using filtered by blast
          qed
        qed
      qed
    qed
  qed
qed

lemma next_place_thread: "tb_guild t = g \<Longrightarrow> g @ '':'' @ ch = thread_key ch t"
  by (simp add: thread_key_def)

text \<open>A message that begins a conversation is new; so is what a lifecycle event tells.\<close>

definition new_place :: "string \<Rightarrow> string \<Rightarrow> control \<Rightarrow> bool" where
  "new_place m key s \<longleftrightarrow> known_message m s \<or> next_place key 1 s"

lemma handleMessageCreate_ok:
  assumes ok: "control_ok clock s" "clock \<le> now"
    and new: "activeBindingForChannel g ch s \<noteq> None \<Longrightarrow> new_place m (g @ '':'' @ m) s"
  shows "control_ok now (snd (handleMessageCreate c p (m, g, ch, a) botId managed eid now s))"
proof (cases rule: handleMessageCreate_cases [of c p m g ch a botId managed eid now s])
  case (filtered st)
  then show ?thesis using ok_time [OF ok] by simp
next
  case (starts b q)
  then show ?thesis using new by (auto simp: new_place_def intro!: insertOutboxEvent_ok [OF ok])
next
  case (continues t b q)
  then show ?thesis by (auto simp: thread_key_def intro!: insertThreadMessage_ok [OF ok])
qed

lemma enqueueLifecycleEvent_ok:
  assumes ok: "control_ok clock s" "clock \<le> now"
    and new: "new_place (''binding-lifecycle:'' @ cb_integration b @ '':'' @ show_nat (cb_version b))
      (''lifecycle:'' @ cb_integration b @ '':'' @ show_nat (cb_version b)) s"
  shows "control_ok now (snd (enqueueLifecycleEvent eid b ty now s))"
  using new unfolding enqueueLifecycleEvent_def Let_def new_place_def by (auto intro!: insertOutboxEvent_ok [OF ok])

subsection \<open>Deliveries that wait for a message, and those to be published\<close>

definition waits :: "control \<Rightarrow> string \<Rightarrow> bool" where
  "waits s e \<longleftrightarrow> (\<exists>r. row s e = Some r \<and> (outbox_state r = Enqueued \<and> head_row s r \<or> outbox_state r = Leased))"

definition to_publish :: "control \<Rightarrow> string \<Rightarrow> bool" where
  "to_publish s e \<longleftrightarrow> (\<exists>r. row s e = Some r \<and> outbox_state r = Pending)"

lemma waits_same:
  assumes "ingress_outbox s' = ingress_outbox s" "conversation_state s' = conversation_state s"
  shows "waits s' e = waits s e"
  by (simp add: waits_def head_row_def completed_of_def assms)

lemma waits_steady: "steady s s' \<Longrightarrow> waits s' e = waits s e"
  unfolding steady_def by (elim conjE, erule (1) waits_same)

lemma waits_update: "waits (update_event x f s) e \<Longrightarrow> e \<noteq> x \<Longrightarrow> waits s e"
  by (simp add: waits_def row_update_event head_row_def)

lemma waits_ended:
  assumes "ended X s s'" "waits s' e"
  shows "waits s e" "e \<notin> X"
proof -
  obtain r' where r': "row s' e = Some r'" "outbox_state r' = Enqueued \<and> head_row s' r' \<or> outbox_state r' = Leased"
    using assms(2) by (auto simp: waits_def)
  obtain r where r: "row s e = Some r" "row_ended X s e r r'" using ended_row [OF assms(1) r'(1)] .
  show e: "e \<notin> X" using r(2) r'(2) by (auto simp: row_ended_def terminal_def)
  show "waits s e"
  proof (cases "outbox_state r' = Leased")
    case True
    then have "outbox_state r = Leased" using r(2) e by (auto simp: row_ended_def)
    then show ?thesis using r(1) by (auto simp: waits_def)
  next
    case False
    then have en: "outbox_state r' = Enqueued" "head_row s' r'" using r'(2) by auto
    then have "outbox_state r = Enqueued" using r(2) e by (auto simp: row_ended_def)
    moreover have "completed_of (conversation_key r) s' = completed_of (conversation_key r) s"
    proof (rule ccontr)
      assume "\<not> ?thesis"
      then obtain x rx where x: "x \<in> X" "row s x = Some rx" "conversation_key rx = conversation_key r"
        "ordinal rx = completed_of (conversation_key r) s'"
        using ended_completed [OF assms(1), of "conversation_key r"] by blast
      moreover have "conversation_key r' = conversation_key r" "ordinal r' = ordinal r" using r(2) by (simp_all add: row_ended_def)
      ultimately have "ordinal r = ordinal rx + 1" using en(2) by (simp add: head_row_def)
      then have "outbox_state r' \<noteq> Enqueued" using r(2) e x unfolding row_ended_def by blast
      then show False using en(1) by simp
    qed
    ultimately show ?thesis using r en(2) by (auto simp: waits_def head_row_def row_ended_def)
  qed
qed

lemma waits_write:
  assumes "writeOutboxEvent eid m key n version p now s = Some s'"
  shows "waits s' e \<Longrightarrow> waits s e"
  using writeOutboxEvent_fields [OF assms] by (auto simp: waits_def head_row_def split: if_splits)

lemma delete_old_row:
  assumes ok: "control_ok clock s" and e: "row (delete_old now s) e = Some r"
  shows "row s e = Some r" and "\<not> terminal r \<Longrightarrow> completed_of (conversation_key r) (delete_old now s) = completed_of (conversation_key r) s"
proof -
  have d: "distinct (map fst (ingress_outbox s))" "distinct (map fst (conversation_state s))"
    using ok by (simp_all add: control_ok_def outbox_ok_def)
  show "row s e = Some r" using e unfolding delete_old_fields(1) map_of_delete_where [OF d(1)] by (simp split: option.splits if_splits)
  assume nt: "\<not> terminal r"
  have "active_key (conversation_key r) (delete_old now s)" using e nt by (auto simp: active_key_def dest!: map_of_SomeD)
  then have "map_of (conversation_state (delete_old now s)) (conversation_key r) = map_of (conversation_state s) (conversation_key r)"
    unfolding delete_old_fields(3) map_of_delete_where [OF d(2)] by (simp split: option.split)
  then show "completed_of (conversation_key r) (delete_old now s) = completed_of (conversation_key r) s" by (simp add: completed_of_def)
qed

lemma waits_delete_old:
  assumes "control_ok clock s"
  shows "waits (delete_old now s) e \<Longrightarrow> waits s e"
  using delete_old_row [OF assms, of now e] by (auto simp: waits_def head_row_def terminal_def)

end
