(* ===== verification/DiscordDeliverySystem.thy ===== *)
theory DiscordDeliverySystem
  imports DiscordDeliveryPlaces "HOL-Library.Multiset"
begin

section \<open>The Discord bridge, its queue and its consumer\<close>

text \<open>
  The control object with all its operations, the queue of events with its dead letters, and the consumer of
  the main worker (\<open>src/workers/main/src/discord-events-queue.ts\<close>) as a step relation; and the invariant of its
  runs: every delivery that waits has a message that will bring it.
\<close>

subsection \<open>The bridge, its queue and the consumer\<close>

text \<open>
  \<open>sending\<close> are the events whose \<open>publishEvent\<close> waits for the queue, \<open>accepted\<close> those that the queue has taken
  and whose row is not yet updated; \<open>working\<close> are the events that a consumer has claimed, with its token.
  \<open>sweeps\<close> are the runs of \<open>alarm\<close> in progress: when each began, and how many events it had to publish.
\<close>

record bridge =
  ctl :: control
  bridge_clock :: int
  sweeps :: "(int \<times> nat) multiset"
  sending :: "string multiset"
  accepted :: "string multiset"
  queued :: "string multiset"
  dead_letters :: "string multiset"
  working :: "(string \<times> string) multiset"

definition bridge_new :: "int \<Rightarrow> bridge" where
  "bridge_new t = \<lparr>ctl = control_new, bridge_clock = t, sweeps = {#}, sending = {#}, accepted = {#}, queued = {#},
     dead_letters = {#}, working = {#}\<rparr>"

fun started :: "ingress \<Rightarrow> string multiset" where
  "started (Inserted e) = {#e#}"
| "started _ = {#}"

definition messages :: "bridge \<Rightarrow> string set" where
  "messages b = set_mset (queued b) \<union> set_mset (dead_letters b) \<union> fst ` set_mset (working b)"

text \<open>\<open>alarm\<close> up to its sweep: it publishes what is pending.\<close>

definition begin_sweep :: "bridge \<Rightarrow> bridge" where
  "begin_sweep b = b\<lparr>sweeps := sweeps b + {#(bridge_clock b, length (alarm_pending (ctl b)))#},
     sending := sending b + mset (alarm_pending (ctl b))\<rparr>"

text \<open>
  The steps. The queue delivers a message until it is acknowledged; after its retries it is a dead letter, and a
  dead letter is handled until the control object has answered. An event that the queue takes is updated at
  once, unless the queue's answer races with its consumers (\<open>racing\<close>). The object is restarted at any time. The
  alarm runs when it is set, or for the worker's cron trigger. A sweep ends all that has expired, which is less
  than its limit of 100. The answer to a request that ends a delivery or gives it back may be lost
  (\<open>finish_unheard\<close>, \<open>gives_back\<close>); a message that its consumer does not acknowledge comes back
  (\<open>crashes\<close>).
\<close>

inductive bridge_step :: "bool \<Rightarrow> bridge \<Rightarrow> bridge \<Rightarrow> bool" for racing where
  time: "bridge_clock b \<le> t \<Longrightarrow> bridge_step racing b (b\<lparr>bridge_clock := t\<rparr>)"
| elsewhere: "other_operation (bridge_clock b) (ctl b) s \<Longrightarrow> bridge_step racing b (b\<lparr>ctl := s\<rparr>)"
| message: "handleMessageCreate c p (m, g, ch, a) botId managed eid (bridge_clock b) (ctl b) = (r, s) \<Longrightarrow>
    activeBindingForChannel g ch (ctl b) \<noteq> None \<longrightarrow> new_place m (g @ '':'' @ m) (ctl b) \<Longrightarrow>
    bridge_step racing b (b\<lparr>ctl := s, sending := sending b + started r\<rparr>)"
| lifecycle: "enqueueLifecycleEvent eid cb ty (bridge_clock b) (ctl b) = (r, s) \<Longrightarrow>
    new_place (''binding-lifecycle:'' @ cb_integration cb @ '':'' @ show_nat (cb_version cb))
      (''lifecycle:'' @ cb_integration cb @ '':'' @ show_nat (cb_version cb)) (ctl b) \<Longrightarrow>
    bridge_step racing b (b\<lparr>ctl := s, sending := sending b + started r\<rparr>)"
| publish: "e \<in># sending b \<Longrightarrow>
    bridge_step racing b (b\<lparr>ctl := publish_sent e (bridge_clock b) (ctl b), sending := sending b - {#e#}, queued := queued b + {#e#}\<rparr>)"
| send_accepted: "racing \<Longrightarrow> e \<in># sending b \<Longrightarrow>
    bridge_step racing b (b\<lparr>sending := sending b - {#e#}, accepted := accepted b + {#e#}, queued := queued b + {#e#}\<rparr>)"
| publish_update: "e \<in># accepted b \<Longrightarrow>
    bridge_step racing b (b\<lparr>ctl := publish_sent e (bridge_clock b) (ctl b), accepted := accepted b - {#e#}\<rparr>)"
| publish_fails: "e \<in># sending b \<Longrightarrow> taken \<subseteq># {#e#} \<Longrightarrow>
    bridge_step racing b (b\<lparr>ctl := publish_failed e (bridge_clock b) (ctl b), sending := sending b - {#e#}, queued := queued b + taken\<rparr>)"
| restart: "bridge_step racing b (b\<lparr>sweeps := {#}, sending := {#}, accepted := {#}\<rparr>)"
| alarm_begins: "control_alarm (ctl b) = Some t \<Longrightarrow> t \<le> bridge_clock b \<Longrightarrow>
    bridge_step racing b (begin_sweep (b\<lparr>ctl := (ctl b)\<lparr>control_alarm := None\<rparr>\<rparr>))"
| maintenance: "bridge_step racing b (begin_sweep b)"
| alarm_ends: "(t, n) \<in># sweeps b \<Longrightarrow> set rows = set (expired_rows t (ctl b)) \<Longrightarrow>
    bridge_step racing b (b\<lparr>ctl := alarm_sweep t n rows (ctl b), sweeps := sweeps b - {#(t, n)#}\<rparr>)"
| claims: "e \<in># queued b \<Longrightarrow> claimDelivery e token (bridge_clock b) (ctl b) = (Claimed token p, s) \<Longrightarrow>
    bridge_step racing b (b\<lparr>ctl := s, queued := queued b - {#e#}, working := working b + {#(e, token)#}\<rparr>)"
| acknowledges: "e \<in># queued b \<Longrightarrow> claimDelivery e token (bridge_clock b) (ctl b) = (answer, s) \<Longrightarrow>
    answer = Claim_invalid \<or> answer = Claim_completed \<or> answer = Ordered_wait \<Longrightarrow>
    bridge_step racing b (b\<lparr>ctl := s, queued := queued b - {#e#}\<rparr>)"
| finishes: "(e, token) \<in># working b \<Longrightarrow> finishDelivery e token failed (bridge_clock b) (ctl b) = (True, s) \<Longrightarrow>
    bridge_step racing b (b\<lparr>ctl := s, working := working b - {#(e, token)#}\<rparr>)"
| finish_unheard: "(e, token) \<in># working b \<Longrightarrow> finishDelivery e token failed (bridge_clock b) (ctl b) = (answered, s) \<Longrightarrow>
    bridge_step racing b (b\<lparr>ctl := s\<rparr>)"
| gives_back: "(e, token) \<in># working b \<Longrightarrow> retryDelivery e token (bridge_clock b) (ctl b) = (answered, s) \<Longrightarrow>
    bridge_step racing b (b\<lparr>ctl := s\<rparr>)"
| crashes: "(e, token) \<in># working b \<Longrightarrow>
    bridge_step racing b (b\<lparr>working := working b - {#(e, token)#}, queued := queued b + {#e#}\<rparr>)"
| dies: "e \<in># queued b \<Longrightarrow>
    bridge_step racing b (b\<lparr>queued := queued b - {#e#}, dead_letters := dead_letters b + {#e#}\<rparr>)"
| dead_letter: "e \<in># dead_letters b \<Longrightarrow> failDeliveryFromDeadLetter e (bridge_clock b) (ctl b) = (answer, s) \<Longrightarrow>
    left \<subseteq># {#e#} \<Longrightarrow>
    bridge_step racing b (b\<lparr>ctl := s, dead_letters := dead_letters b - {#e#} + left\<rparr>)"

text \<open>A run from some moment on.\<close>

definition bridge_run :: "bool \<Rightarrow> bridge \<Rightarrow> bool" where
  "bridge_run racing b \<longleftrightarrow> (\<exists>t. (bridge_step racing)\<^sup>*\<^sup>* (bridge_new t) b)"

subsection \<open>The invariant\<close>

definition bridge_inv :: "bool \<Rightarrow> bridge \<Rightarrow> bool" where
  "bridge_inv racing b \<longleftrightarrow> control_ok (bridge_clock b) (ctl b) \<and>
     (racing \<or> accepted b = {#} \<and> (\<forall>e. waits (ctl b) e \<longrightarrow> e \<in> messages b))"

lemma bridge_inv_intro:
  assumes "bridge_inv racing b"
    and "control_ok (bridge_clock b) (ctl b) \<Longrightarrow> control_ok (bridge_clock b') (ctl b')"
    and "\<not> racing \<Longrightarrow> accepted b = {#} \<Longrightarrow> accepted b' = {#}"
    and "\<And>e. \<not> racing \<Longrightarrow> accepted b = {#} \<Longrightarrow> waits (ctl b') e \<Longrightarrow> waits (ctl b) e \<or> e \<in> messages b'"
    and "\<And>e. \<not> racing \<Longrightarrow> waits (ctl b') e \<Longrightarrow> e \<in> messages b \<Longrightarrow> e \<in> messages b'"
  shows "bridge_inv racing b'"
  using assms unfolding bridge_inv_def by meson

lemma publish_sent_waits:
  assumes "waits (publish_sent e now s) x" shows "waits s x \<or> x = e"
  using assms waits_update [of e _ s x] by (auto simp: publish_sent_def)

lemma waits_alarm [simp]: "waits (s\<lparr>control_alarm := a\<rparr>) e = waits s e"
  by (rule waits_same; simp)

lemma publish_failed_waits: "waits (publish_failed e now s) x = waits s x"
  unfolding publish_failed_def waits_alarm by (auto simp: waits_def row_update_event head_row_def)

lemma inv_time: "bridge_inv racing b \<Longrightarrow> bridge_clock b \<le> t \<Longrightarrow> bridge_inv racing (b\<lparr>bridge_clock := t\<rparr>)"
  by (erule bridge_inv_intro) (auto simp: messages_def intro: ok_time)

lemma inv_elsewhere:
  assumes "bridge_inv racing b" "other_operation (bridge_clock b) (ctl b) s"
  shows "bridge_inv racing (b\<lparr>ctl := s\<rparr>)"
  using waits_steady [OF other_steady [OF assms(2)]] steady_ok [OF other_steady [OF assms(2)]]
  by (auto intro!: bridge_inv_intro [OF assms(1)] simp: messages_def)

lemma inv_inserted:
  assumes inv: "bridge_inv racing b" and ok: "control_ok (bridge_clock b) (ctl b) \<Longrightarrow> control_ok (bridge_clock b) s"
    and w: "\<And>e. waits s e \<Longrightarrow> waits (ctl b) e"
  shows "bridge_inv racing (b\<lparr>ctl := s, sending := sending b + new\<rparr>)"
  using w ok by (intro bridge_inv_intro [OF inv]) (auto simp: messages_def)

lemma insertOutboxEvent_waits:
  "waits (snd (insertOutboxEvent eid m key n version p now s)) e \<Longrightarrow> waits s e"
  by (auto simp: insertOutboxEvent_def dest: waits_write split: if_splits option.splits)

lemma insertThreadMessage_waits:
  assumes "waits (snd (insertThreadMessageOutboxEvent eid t key version p now s)) e"
  shows "waits s e"
proof -
  have b: "waits (bump_thread t now s) x = waits s x" for x by (rule waits_same; simp)
  show ?thesis using assms unfolding insertThreadMessageOutboxEvent_def Let_def bump_thread_def [symmetric]
    by (auto dest: waits_write simp: b split: if_splits option.splits)
qed

lemma inv_message:
  assumes inv: "bridge_inv racing b"
    and h: "handleMessageCreate c p (m, g, ch, a) botId managed eid (bridge_clock b) (ctl b) = (r, s)"
    and new: "activeBindingForChannel g ch (ctl b) \<noteq> None \<longrightarrow> new_place m (g @ '':'' @ m) (ctl b)"
  shows "bridge_inv racing (b\<lparr>ctl := s, sending := sending b + started r\<rparr>)"
proof (rule inv_inserted [OF inv])
  show "control_ok (bridge_clock b) (ctl b) \<Longrightarrow> control_ok (bridge_clock b) s"
    using handleMessageCreate_ok [of "bridge_clock b" "ctl b" "bridge_clock b" g ch m c p a botId managed eid] new h by simp
  fix e assume "waits s e"
  then have "waits (snd (handleMessageCreate c p (m, g, ch, a) botId managed eid (bridge_clock b) (ctl b))) e" by (simp add: h)
  then show "waits (ctl b) e"
    by (cases rule: handleMessageCreate_cases [of c p m g ch a botId managed eid "bridge_clock b" "ctl b"])
      (simp, metis insertOutboxEvent_waits, metis insertThreadMessage_waits)
qed

lemma inv_lifecycle:
  assumes inv: "bridge_inv racing b"
    and h: "enqueueLifecycleEvent eid cb ty (bridge_clock b) (ctl b) = (r, s)"
    and new: "new_place (''binding-lifecycle:'' @ cb_integration cb @ '':'' @ show_nat (cb_version cb))
      (''lifecycle:'' @ cb_integration cb @ '':'' @ show_nat (cb_version cb)) (ctl b)"
  shows "bridge_inv racing (b\<lparr>ctl := s, sending := sending b + started r\<rparr>)"
proof (rule inv_inserted [OF inv])
  show "control_ok (bridge_clock b) s" if "control_ok (bridge_clock b) (ctl b)"
    using enqueueLifecycleEvent_ok [OF that order_refl new, of eid ty] h by simp
  fix e assume "waits s e"
  then have "waits (snd (enqueueLifecycleEvent eid cb ty (bridge_clock b) (ctl b))) e" by (simp add: h)
  then show "waits (ctl b) e" unfolding enqueueLifecycleEvent_def Let_def by (rule insertOutboxEvent_waits)
qed

lemma inv_publish:
  assumes "bridge_inv racing b"
  shows "bridge_inv racing (b\<lparr>ctl := publish_sent e (bridge_clock b) (ctl b), sending := sending b - {#e#}, queued := queued b + {#e#}\<rparr>)"
  using publish_sent_waits [of e "bridge_clock b" "ctl b"]
  by (intro bridge_inv_intro [OF assms]) (auto simp: messages_def publish_sent_ok)

lemma inv_send_accepted:
  assumes "bridge_inv True b"
  shows "bridge_inv True (b\<lparr>sending := sending b - {#e#}, accepted := accepted b + {#e#}, queued := queued b + {#e#}\<rparr>)"
  by (rule bridge_inv_intro [OF assms]) simp_all

lemma inv_publish_update:
  assumes "bridge_inv racing b" "e \<in># accepted b"
  shows "bridge_inv racing (b\<lparr>ctl := publish_sent e (bridge_clock b) (ctl b), accepted := accepted b - {#e#}\<rparr>)"
  using assms(2) by (intro bridge_inv_intro [OF assms(1)]) (auto simp: messages_def publish_sent_ok)

lemma inv_publish_fails:
  assumes "bridge_inv racing b"
  shows "bridge_inv racing (b\<lparr>ctl := publish_failed e (bridge_clock b) (ctl b), sending := sending b - {#e#}, queued := queued b + taken\<rparr>)"
  by (rule bridge_inv_intro [OF assms]) (auto simp: messages_def publish_failed_waits intro: publish_failed_ok)

lemma inv_restart: "bridge_inv racing b \<Longrightarrow> bridge_inv racing (b\<lparr>sweeps := {#}, sending := {#}, accepted := {#}\<rparr>)"
  by (erule bridge_inv_intro) (auto simp: messages_def)

lemma inv_begin_sweep: "bridge_inv racing b \<Longrightarrow> bridge_inv racing (begin_sweep b)"
  by (erule bridge_inv_intro) (auto simp: messages_def begin_sweep_def)

lemma inv_alarm_begins: "bridge_inv racing b \<Longrightarrow> bridge_inv racing (begin_sweep (b\<lparr>ctl := (ctl b)\<lparr>control_alarm := None\<rparr>\<rparr>))"
  by (rule inv_begin_sweep, erule bridge_inv_intro) (auto simp: messages_def)

lemma alarm_sweep_cases:
  "ingress_outbox (alarm_sweep t n rows s) = ingress_outbox (delete_old t (snd (expire_all t rows (False, s))))"
  "conversation_state (alarm_sweep t n rows s) = conversation_state (delete_old t (snd (expire_all t rows (False, s))))"
  "control_ok clock (alarm_sweep t n rows s) = control_ok clock (delete_old t (snd (expire_all t rows (False, s))))"
  by (simp_all add: alarm_sweep_def case_prod_unfold Let_def)

lemma expired_ended:
  assumes ok: "control_ok clock s" and rows: "set rows = set (expired_rows t s)"
  shows "ended (fst ` set rows) s (snd (expire_all t rows (b, s)))"
proof (rule expire_all_ended [OF ok_places [OF ok]])
  have d: "distinct (map fst (ingress_outbox s))" using ok by (simp add: control_ok_def outbox_ok_def)
  fix e r assume "(e, r) \<in> set rows"
  then have "row s e = Some r" "\<not> terminal r" using rows d by (auto simp: expired_rows_def)
  then show "\<exists>r0. row s e = Some r0 \<and> conversation_key r0 = conversation_key r \<and> ordinal r0 = ordinal r \<and>
      map_of (conversation_state s) (conversation_key r) \<noteq> None" using conversation_known [OF ok] by blast
qed

lemma inv_alarm_ends:
  assumes inv: "bridge_inv racing b" and rows: "set rows = set (expired_rows t (ctl b))"
  shows "bridge_inv racing (b\<lparr>ctl := alarm_sweep t n rows (ctl b), sweeps := sweeps b - {#(t, n)#}\<rparr>)"
proof -
  let ?s = "snd (expire_all t rows (False, ctl b))"
  have ok: "control_ok (bridge_clock b) (ctl b)" using inv by (simp add: bridge_inv_def)
  then have ok': "control_ok (bridge_clock b) ?s" by (rule expire_all_ok [OF _ rows])
  have w: "waits (alarm_sweep t n rows (ctl b)) e = waits (delete_old t ?s) e" for e
    by (rule waits_same; rule alarm_sweep_cases)
  show ?thesis
  proof (rule bridge_inv_intro [OF inv], goal_cases)
    case 1 then show ?case by (simp add: alarm_sweep_cases(3) delete_old_ok [OF ok'])
  next
    case (3 e)
    then have "waits (delete_old t ?s) e" by (simp add: w)
    then have "waits ?s e" by (rule waits_delete_old [OF ok'])
    then show ?case using waits_ended(1) [OF expired_ended [OF ok rows]] by blast
  qed (auto simp: messages_def)
qed

text \<open>What the consumer does. Only the deliveries named change whether they wait for a message.\<close>

lemma claimed_waits:
  assumes "claimDelivery e token now s = (Claimed token p, s')" "x \<noteq> e" "waits s' x"
  shows "waits s x"
  using assms by (auto simp: claimDelivery_def dest: waits_update split: option.splits if_splits)

lemma inv_claims:
  assumes inv: "bridge_inv racing b" and c: "claimDelivery e token (bridge_clock b) (ctl b) = (Claimed token p, s)"
  shows "bridge_inv racing (b\<lparr>ctl := s, queued := queued b - {#e#}, working := working b + {#(e, token)#}\<rparr>)"
proof (rule bridge_inv_intro [OF inv], goal_cases)
  case 1 then show ?case using claimDelivery_ok [of "bridge_clock b" "ctl b" e token "bridge_clock b"] c by simp
next
  case (3 x) then show ?case using claimed_waits [OF c, of x] by (auto simp: messages_def)
next
  case (4 x) then show ?case by (cases "x = e") (auto simp: messages_def in_diff_count)
qed simp

lemma acknowledged_waits:
  assumes ok: "control_ok clock s" and c: "claimDelivery e token now s = (answer, s')"
    and a: "answer = Claim_invalid \<or> answer = Claim_completed \<or> answer = Ordered_wait"
  shows "s' = s" "\<not> waits s e"
proof -
  have pl: "payload r \<noteq> None" if "row s e = Some r" "\<not> terminal r" for r
    using ok that unfolding control_ok_def outbox_ok_def by blast
  have hd: "head_row s r" if "row s e = Some r" "outbox_state r = Leased" for r
    using ok that unfolding control_ok_def outbox_ok_def by blast
  show "s' = s" using c a by (auto simp: claimDelivery_def split: option.splits if_splits)
  show "\<not> waits s e"
  proof
    assume "waits s e"
    then obtain r where r: "row s e = Some r" "outbox_state r = Enqueued \<and> head_row s r \<or> outbox_state r = Leased"
      by (auto simp: waits_def)
    then have "head_row s r" "\<not> terminal r" using hd by (auto simp: terminal_def)
    then show False using c a r(1) pl [of r] by (auto simp: claimDelivery_def head_row_def split: option.splits if_splits)
  qed
qed

lemma inv_acknowledges:
  assumes inv: "bridge_inv racing b" and c: "claimDelivery e token (bridge_clock b) (ctl b) = (answer, s)"
    and a: "answer = Claim_invalid \<or> answer = Claim_completed \<or> answer = Ordered_wait"
  shows "bridge_inv racing (b\<lparr>ctl := s, queued := queued b - {#e#}\<rparr>)"
proof -
  have "control_ok (bridge_clock b) (ctl b)" using inv by (simp add: bridge_inv_def)
  note k = acknowledged_waits [OF this c a]
  show ?thesis using k(2) unfolding k(1)
  proof (intro bridge_inv_intro [OF inv], goal_cases)
    case (4 x) then show ?case by (cases "x = e") (auto simp: messages_def in_diff_count)
  qed (auto simp: messages_def)
qed

lemma wake_waits [simp]: "waits (wake_at t p) x = waits (snd p) x"
  by (simp add: wake_at_def)

text \<open>Ending the head of a conversation.\<close>

lemma end_head:
  assumes ok: "control_ok clock s" and r: "row s e = Some r" "\<not> terminal r" and final: "final = Completed \<or> final = Failed"
    and w: "waits (wake_at t (terminalizeDelivery e r final now s)) x"
  shows "waits s x \<and> x \<noteq> e"
proof -
  have "ended {e} s (snd (terminalizeDelivery e r final now s))"
    by (rule terminalize_ended [OF ok_places [OF ok] r(1) refl refl conversation_known [OF ok r] final])
  from waits_ended [OF this] w show ?thesis by auto
qed

lemma over_waits: "row s e = None \<or> row s e = Some r \<and> terminal r \<Longrightarrow> \<not> waits s e"
  by (auto simp: waits_def terminal_def)

lemma finish_waits:
  assumes ok: "control_ok clock s" and f: "finishDelivery e token failed now s = (answered, s')" and w: "waits s' x"
  shows "waits s x \<and> (answered \<longrightarrow> x \<noteq> e)"
proof (cases "\<exists>r. row s e = Some r \<and> \<not> terminal r")
  case False
  then show ?thesis using f w over_waits [of s e] by (cases "row s e") (auto simp: finishDelivery_def)
next
  case True
  then obtain r where r: "row s e = Some r" "\<not> terminal r" by blast
  have "waits (wake_at (now + 1) (terminalizeDelivery e r (if failed then Failed else Completed) now s)) x \<Longrightarrow> waits s x \<and> x \<noteq> e"
    by (rule end_head [OF ok r]) simp_all
  then show ?thesis using f w r by (auto simp: finishDelivery_def split: if_splits)
qed

lemma working_other: "x \<in> fst ` set_mset w \<Longrightarrow> x \<noteq> e \<Longrightarrow> x \<in> fst ` set_mset (w - {#(e, t)#})"
  by (auto simp: in_diff_count image_iff)

lemma inv_finishes:
  assumes inv: "bridge_inv racing b" and f: "finishDelivery e token failed (bridge_clock b) (ctl b) = (True, s)"
  shows "bridge_inv racing (b\<lparr>ctl := s, working := working b - {#(e, token)#}\<rparr>)"
proof -
  have ok: "control_ok (bridge_clock b) (ctl b)" using inv by (simp add: bridge_inv_def)
  show ?thesis
  proof (rule bridge_inv_intro [OF inv], goal_cases)
    case 1 then show ?case using finishDelivery_ok [OF ok, of e token failed "bridge_clock b"] f by simp
  next
    case (3 x) then show ?case using finish_waits [OF ok f] by simp
  next
    case (4 x)
    then have "x \<noteq> e" using finish_waits [OF ok f] by simp
    with 4(3) show ?case using working_other [of x "working b" e token] by (auto simp: messages_def)
  qed simp
qed

lemma inv_finish_unheard:
  assumes inv: "bridge_inv racing b" and f: "finishDelivery e token failed (bridge_clock b) (ctl b) = (answered, s)"
  shows "bridge_inv racing (b\<lparr>ctl := s\<rparr>)"
proof -
  have ok: "control_ok (bridge_clock b) (ctl b)" using inv by (simp add: bridge_inv_def)
  show ?thesis
  proof (rule bridge_inv_intro [OF inv], goal_cases)
    case 1 then show ?case using finishDelivery_ok [OF ok, of e token failed "bridge_clock b"] f by simp
  next
    case (3 x) then show ?case using finish_waits [OF ok f] by simp
  qed (simp_all add: messages_def)
qed

lemma retry_waits: "waits (snd (retryDelivery e token now s)) x \<Longrightarrow> waits s x \<or> x = e"
  by (auto simp: retryDelivery_def dest: waits_update split: option.splits if_splits)

lemma inv_gives_back:
  assumes inv: "bridge_inv racing b" and w: "(e, token) \<in># working b"
    and f: "retryDelivery e token (bridge_clock b) (ctl b) = (answered, s)"
  shows "bridge_inv racing (b\<lparr>ctl := s\<rparr>)"
proof (rule bridge_inv_intro [OF inv], goal_cases)
  case 1 then show ?case using retryDelivery_ok [of "bridge_clock b" "ctl b" e token "bridge_clock b"] f by simp
next
  case (3 x)
  then show ?case using retry_waits [of e token "bridge_clock b" "ctl b" x] f w by (force simp: messages_def image_iff)
qed (simp_all add: messages_def)

lemma inv_crashes:
  assumes inv: "bridge_inv racing b"
  shows "bridge_inv racing (b\<lparr>working := working b - {#(e, token)#}, queued := queued b + {#e#}\<rparr>)"
proof (rule bridge_inv_intro [OF inv], goal_cases)
  case (4 x)
  then show ?case using working_other [of x "working b" e token] by (cases "x = e") (auto simp: messages_def)
qed auto

lemma inv_dies:
  assumes inv: "bridge_inv racing b"
  shows "bridge_inv racing (b\<lparr>queued := queued b - {#e#}, dead_letters := dead_letters b + {#e#}\<rparr>)"
proof (rule bridge_inv_intro [OF inv], goal_cases)
  case (4 x)
  then show ?case by (cases "x = e") (auto simp: messages_def in_diff_count)
qed auto

lemma dead_letter_waits:
  assumes ok: "control_ok clock s" and w: "waits (snd (failDeliveryFromDeadLetter e now s)) x"
  shows "waits s x \<and> x \<noteq> e"
proof (cases "\<exists>r. row s e = Some r \<and> \<not> terminal r")
  case False
  then show ?thesis using w over_waits [of s e] by (cases "row s e") (auto simp: failDeliveryFromDeadLetter_def terminal_def)
next
  case True
  then obtain r where r: "row s e = Some r" "\<not> terminal r" by blast
  show ?thesis
  proof (cases "head_row s r")
    case True
    let ?s = "add_failure_notice e r now s"
    have "waits (wake_at (now + 1) (terminalizeDelivery e r Failed now ?s)) x"
      using w r True by (simp add: failDeliveryFromDeadLetter_def terminal_def head_row_def Let_def)
    from end_head [OF add_failure_notice_ok [OF ok] _ r(2) _ this] r(1) have "waits ?s x \<and> x \<noteq> e" by simp
    then show ?thesis by (subst (asm) waits_same [of _ s]) simp_all
  next
    case False
    have "outbox_state r \<noteq> Leased" using ok r(1) False unfolding control_ok_def outbox_ok_def by blast
    then have "\<not> waits s e" using r False by (auto simp: waits_def)
    then show ?thesis using w r False by (auto simp: failDeliveryFromDeadLetter_def terminal_def head_row_def)
  qed
qed

lemma inv_dead_letter:
  assumes inv: "bridge_inv racing b" and f: "failDeliveryFromDeadLetter e (bridge_clock b) (ctl b) = (answer, s)"
  shows "bridge_inv racing (b\<lparr>ctl := s, dead_letters := dead_letters b - {#e#} + left\<rparr>)"
proof -
  have ok: "control_ok (bridge_clock b) (ctl b)" using inv by (simp add: bridge_inv_def)
  have w: "waits s x \<Longrightarrow> waits (ctl b) x \<and> x \<noteq> e" for x using dead_letter_waits [OF ok, of e "bridge_clock b" x] f by simp
  show ?thesis
  proof (rule bridge_inv_intro [OF inv], goal_cases)
    case 1 then show ?case using failDelivery_ok [OF ok, of e "bridge_clock b"] f by simp
  next
    case (3 x) then show ?case using w by simp
  next
    case (4 x)
    then have "x \<noteq> e" using w by simp
    with 4(3) show ?case by (auto simp: messages_def in_diff_count)
  qed simp
qed

lemma bridge_step_inv:
  assumes "bridge_step racing b b'" "bridge_inv racing b"
  shows "bridge_inv racing b'"
  using assms
proof (cases rule: bridge_step.cases)
  case (time t) then show ?thesis using inv_time assms(2) by blast
next
  case (elsewhere s) then show ?thesis using inv_elsewhere assms(2) by blast
next
  case (message c p m g ch a botId managed eid r s) then show ?thesis using inv_message assms(2) by blast
next
  case (lifecycle eid cb ty r s) then show ?thesis using inv_lifecycle assms(2) by blast
next
  case (publish e) then show ?thesis using inv_publish assms(2) by blast
next
  case (send_accepted e) then show ?thesis using inv_send_accepted assms(2) by simp
next
  case (publish_update e) then show ?thesis using inv_publish_update assms(2) by blast
next
  case (publish_fails e taken) then show ?thesis using inv_publish_fails assms(2) by blast
next
  case restart then show ?thesis using inv_restart assms(2) by blast
next
  case (alarm_begins t) then show ?thesis using inv_alarm_begins assms(2) by blast
next
  case maintenance then show ?thesis using inv_begin_sweep assms(2) by blast
next
  case (alarm_ends t n rows) then show ?thesis using inv_alarm_ends assms(2) by blast
next
  case (claims e token p s) then show ?thesis using inv_claims assms(2) by blast
next
  case (acknowledges e token answer s) then show ?thesis using inv_acknowledges assms(2) by blast
next
  case (finishes e token failed s) then show ?thesis using inv_finishes assms(2) by blast
next
  case (finish_unheard e token failed answered s) then show ?thesis using inv_finish_unheard assms(2) by blast
next
  case (gives_back e token answered s) then show ?thesis using inv_gives_back assms(2) by blast
next
  case (crashes e token) then show ?thesis using inv_crashes assms(2) by blast
next
  case (dies e) then show ?thesis using inv_dies assms(2) by blast
next
  case (dead_letter e answer s left) then show ?thesis using inv_dead_letter assms(2) by blast
qed

lemma bridge_new_inv: "bridge_inv racing (bridge_new t)"
  by (simp add: bridge_inv_def bridge_new_def control_ok_def outbox_ok_def threads_ok_def control_new_def waits_def)

lemma bridge_run_inv: "bridge_run racing b \<Longrightarrow> bridge_inv racing b"
  unfolding bridge_run_def
proof (elim exE)
  fix t assume "(bridge_step racing)\<^sup>*\<^sup>* (bridge_new t) b"
  then show "bridge_inv racing b"
    by (induction rule: rtranclp_induct) (auto intro: bridge_new_inv bridge_step_inv)
qed

end
