(* ===== verification/DiscordDeliverySample.thy ===== *)
theory DiscordDeliverySample
  imports DiscordDeliverySystem
begin

section \<open>The Discord bridge: a sample run\<close>

text \<open>A run with two messages of one conversation, to which the witnesses and the two strandings refer.\<close>

subsection \<open>A sample run\<close>

text \<open>
  A channel is bound; \<open>m1\<close> mentions the bot and begins a conversation, and the consumer claims it and starts the
  thread; while it works, \<open>m2\<close> follows in the thread.
\<close>

definition sample_config :: bridge_config where
  "sample_config = \<lparr>bot_token = ''b'', application_id = ''a'', content_mode_setting = None, ingress_setting = Some ''true'',
     outbound_setting = None\<rparr>"

definition sample_input :: activate_input where
  "sample_input = \<lparr>in_guild = ''g'', in_parent = ''c'', in_integration = ''i'', in_org = ''o'', in_workspace = ''w'',
     in_key = ''k'', in_version = None\<rparr>"

definition sample_guild :: inspected_guild where
  "sample_guild = \<lparr>guild_name = ''G'', guild_channels = [\<lparr>sel_id = ''c'', sel_name = ''general'', sel_category = None,
     sel_category_name = None, sel_position = 0, missingPermissions = [], canActivate = True, visible_to_everyone = True\<rparr>]\<rparr>"

definition sample_binding :: channel_binding where
  "sample_binding = \<lparr>cb_guild = ''g'', cb_parent = ''c'', cb_integration = ''i'', cb_org = ''o'', cb_workspace = ''w'',
     cb_guild_name = ''G'', cb_parent_name = ''general'', cb_version = 1\<rparr>"

definition sample_message :: "string \<Rightarrow> string \<Rightarrow> message_create" where
  "sample_message m ch = \<lparr>mc_id = Some m, mc_guild = Some ''g'', mc_channel = Some ch, mc_content = Some (unit_string ''hi''),
     mc_type = Some 0, mc_webhook = None, mc_timestamp = None,
     mc_author = Some \<lparr>raw_id = Some ''u'', raw_username = None, raw_global = None, raw_bot = False\<rparr>, mc_nick = None,
     mc_mentions = [\<lparr>raw_id = Some ''bot'', raw_username = None, raw_global = None, raw_bot = True\<rparr>], mc_mention_roles = [],
     mc_attachments = []\<rparr>"

definition sample_bound :: control where
  "sample_bound = (case activate_commit sample_input sample_binding None [''n''] 0 control_new of Inr (a, s) \<Rightarrow> s | Inl e \<Rightarrow> control_new)"

definition sample_first :: "ingress \<times> control" where
  "sample_first = handleMessageCreate sample_config (sample_message ''m1'' ''c'') (''m1'', ''g'', ''c'', ''u'') ''bot'' [] ''e1'' 0 sample_bound"

definition sample_claimed :: "claim \<times> control" where
  "sample_claimed = claimDelivery ''e1'' ''t1'' 0 (publish_sent ''e1'' 0 (snd sample_first))"

definition sample_thread :: control where
  "sample_thread = snd (thread_from_message_started ''m1'' sample_binding ''i'' ''c'' ''k2'' 0 (snd sample_claimed))"

definition sample_second :: "ingress \<times> control" where
  "sample_second = handleMessageCreate sample_config (sample_message ''m2'' ''m1'') (''m2'', ''g'', ''m1'', ''u'') ''bot'' [] ''e2'' 0 sample_thread"

lemma sample_plan: "activate_plan sample_input sample_guild control_new = Inr (sample_binding, None, control_new\<lparr>next_binding_version := 2\<rparr>)"
  by (simp add: activate_plan_def preflightBinding_def sample_input_def sample_guild_def sample_binding_def bind_result_def same_target_def
      activeBindingByIntegration_def activeBindingForChannel_def control_new_def nextBindingVersion_def)

lemma sample_commit: "\<exists>a. activate_commit sample_input sample_binding None [''n''] 0 control_new = Inr (a, sample_bound)"
  by (simp add: sample_bound_def activate_commit_def Let_def activeBindingByIntegration_def activeBindingForChannel_def control_new_def)

lemma sample_first_inserted: "fst sample_first = Inserted ''e1''"
  by code_simp

lemma sample_claimed_fst: "(case fst sample_claimed of Claimed t p \<Rightarrow> t = ''t1'' | _ \<Rightarrow> False)"
  by code_simp

lemma sample_second_inserted: "fst sample_second = Inserted ''e2''"
  by code_simp

definition sample_state :: "control \<Rightarrow> string multiset \<Rightarrow> string multiset \<Rightarrow> string multiset \<Rightarrow> (string \<times> string) multiset \<Rightarrow> bridge" where
  "sample_state c s a q w = \<lparr>ctl = c, bridge_clock = 0, sweeps = {#}, sending = s, accepted = a, queued = q, dead_letters = {#},
     working = w\<rparr>"

lemma sample_bound_fields [simp]:
  "ingress_outbox sample_bound = []" "conversation_state sample_bound = []" "thread_bindings sample_bound = []"
  "channel_bindings sample_bound = [sample_binding]"
  by (simp_all add: sample_bound_def activate_commit_def Let_def activeBindingByIntegration_def activeBindingForChannel_def control_new_def
      storeOperation_def upsert_channel_def)

lemma sample_run_bound: "bridge_step racing (bridge_new 0) (sample_state sample_bound {#} {#} {#} {#})"
proof -
  obtain a where "activate_commit sample_input sample_binding None [''n''] 0 control_new = Inr (a, sample_bound)" using sample_commit by blast
  from bridge_step.elsewhere [where b = "bridge_new 0" and s = sample_bound]
    other_operation.commit [OF sample_plan this] show ?thesis
    by (simp add: sample_state_def bridge_new_def)
qed

lemma sample_run_first: "bridge_step racing (sample_state sample_bound {#} {#} {#} {#}) (sample_state (snd sample_first) {#''e1''#} {#} {#} {#})"
proof -
  have "next_place (''g'' @ '':'' @ ''m1'') 1 sample_bound"
    unfolding next_place_def completed_of_def by simp
  then have n: "new_place ''m1'' (''g'' @ '':'' @ ''m1'') sample_bound" by (simp add: new_place_def)
  have h: "handleMessageCreate sample_config (sample_message ''m1'' ''c'') (''m1'', ''g'', ''c'', ''u'') ''bot'' [] ''e1'' 0 sample_bound =
      (Inserted ''e1'', snd sample_first)"
    using sample_first_inserted by (simp add: sample_first_def prod_eq_iff)
  show ?thesis
    using bridge_step.message [where b = "sample_state sample_bound {#} {#} {#} {#}" and r = "Inserted ''e1''" and s = "snd sample_first",
        of sample_config "sample_message ''m1'' ''c''" "''m1''" "''g''" "''c''" "''u''" "''bot''" "[]" "''e1''"] h n
    by (simp add: sample_state_def)
qed

definition sample_published :: bridge where
  "sample_published = sample_state (publish_sent ''e1'' 0 (snd sample_first)) {#} {#} {#''e1''#} {#}"

lemma sample_run_published: "bridge_step racing (sample_state (snd sample_first) {#''e1''#} {#} {#} {#}) sample_published"
  using bridge_step.publish [where b = "sample_state (snd sample_first) {#''e1''#} {#} {#} {#}" and e = "''e1''"]
  by (simp add: sample_published_def sample_state_def)

lemma sample_claim: "\<exists>p. claimDelivery ''e1'' ''t1'' 0 (publish_sent ''e1'' 0 (snd sample_first)) = (Claimed ''t1'' p, snd sample_claimed)"
proof -
  obtain p where "fst sample_claimed = Claimed ''t1'' p" using sample_claimed_fst by (auto split: claim.splits)
  then show ?thesis by (simp add: sample_claimed_def prod_eq_iff)
qed

lemma sample_run_claimed:
  "(bridge_step racing)\<^sup>*\<^sup>* (sample_state (snd sample_first) {#''e1''#} {#} {#} {#}) (sample_state (snd sample_claimed) {#} {#} {#} {#(''e1'', ''t1'')#})"
proof -
  obtain p where c: "claimDelivery ''e1'' ''t1'' 0 (publish_sent ''e1'' 0 (snd sample_first)) = (Claimed ''t1'' p, snd sample_claimed)"
    using sample_claim by blast
  have "bridge_step racing sample_published (sample_state (snd sample_claimed) {#} {#} {#} {#(''e1'', ''t1'')#})"
    using bridge_step.claims [where b = sample_published and e = "''e1''" and token = "''t1''" and p = p and s = "snd sample_claimed"] c
    by (simp add: sample_state_def sample_published_def)
  then show ?thesis using sample_run_published by (meson converse_rtranclp_into_rtranclp r_into_rtranclp)
qed

lemma sample_claimed_view:
  "threadBinding ''m1'' (snd sample_claimed) = None" "thread_bindings (snd sample_claimed) = []"
  "completed_of ''g:m1'' (snd sample_claimed) = 0" "map (\<lambda>(e, r). (e, ordinal r)) (ingress_outbox (snd sample_claimed)) = [(''e1'', 1)]"
  by code_simp+

lemma sample_run_thread:
  "bridge_step racing (sample_state (snd sample_claimed) {#} {#} {#} {#(''e1'', ''t1'')#}) (sample_state sample_thread {#} {#} {#} {#(''e1'', ''t1'')#})"
proof -
  have "ordinal r = 1" if "row (snd sample_claimed) e = Some r" for e r
    using sample_claimed_view(4) that by (auto dest!: map_of_SomeD)
  then have "fresh_thread ''m1'' sample_binding 2 (snd sample_claimed)"
    using sample_claimed_view(2,3) by (auto simp: fresh_thread_def sample_binding_def)
  then have "other_operation 0 (snd sample_claimed) sample_thread"
    unfolding sample_thread_def by (intro other_operation.thread_started) simp
  then show ?thesis
    using bridge_step.elsewhere [where b = "sample_state (snd sample_claimed) {#} {#} {#} {#(''e1'', ''t1'')#}" and s = sample_thread]
    by (simp add: sample_state_def)
qed

lemma sample_run_second:
  "bridge_step racing (sample_state sample_thread {#} {#} {#} {#(''e1'', ''t1'')#}) (sample_state (snd sample_second) {#''e2''#} {#} {#} {#(''e1'', ''t1'')#})"
proof -
  have n: "activeBindingForChannel ''g'' ''m1'' sample_thread = None" by code_simp
  have h: "handleMessageCreate sample_config (sample_message ''m2'' ''m1'') (''m2'', ''g'', ''m1'', ''u'') ''bot'' [] ''e2'' 0 sample_thread =
      (Inserted ''e2'', snd sample_second)"
    using sample_second_inserted by (simp add: sample_second_def prod_eq_iff)
  show ?thesis
    using bridge_step.message [where b = "sample_state sample_thread {#} {#} {#} {#(''e1'', ''t1'')#}" and r = "Inserted ''e2''" and s = "snd sample_second",
        of sample_config "sample_message ''m2'' ''m1''" "''m2''" "''g''" "''m1''" "''u''" "''bot''" "[]" "''e2''"] h n
    by (simp add: sample_state_def)
qed

lemma sample_run_start:
  "(bridge_step racing)\<^sup>*\<^sup>* (bridge_new 0) (sample_state (snd sample_first) {#''e1''#} {#} {#} {#})"
  by (rule rtranclp.rtrancl_into_rtrancl, rule r_into_rtranclp, rule sample_run_bound, rule sample_run_first)

lemma sample_run:
  "(bridge_step racing)\<^sup>*\<^sup>* (bridge_new 0) (sample_state (snd sample_second) {#''e2''#} {#} {#} {#(''e1'', ''t1'')#})"
  by (rule rtranclp.rtrancl_into_rtrancl, rule rtranclp.rtrancl_into_rtrancl, rule rtranclp_trans, rule sample_run_start,
      rule sample_run_claimed, rule sample_run_thread, rule sample_run_second)

end
