(* ===== verification/DiscordChannels.thy ===== *)
theory DiscordChannels
  imports DiscordDeliverySample
begin

section \<open>The Discord bridge: which integration a channel belongs to\<close>

text \<open>
  That activations, releases and everything else the control object does leave every channel with at most one
  integration and every integration with at most one channel, in all runs of DiscordDeliverySystem.
\<close>

subsection \<open>Channels\<close>

text \<open>A channel belongs to one integration, and an integration has one channel.\<close>

definition channels_ok :: "control \<Rightarrow> bool" where
  "channels_ok s \<longleftrightarrow> distinct (map (\<lambda>b. (cb_guild b, cb_parent b)) (channel_bindings s)) \<and> distinct (map cb_integration (channel_bindings s))"

lemma channels_same: "channel_bindings s' = channel_bindings s \<Longrightarrow> channels_ok s' = channels_ok s"
  by (simp add: channels_ok_def)

lemma find_unique:
  assumes "distinct (map f xs)" "x \<in> set xs" "f x = k"
  shows "find (\<lambda>x. f x = k) xs = Some x"
  using assms by (induction xs) auto

lemma channels_delete: "channels_ok s \<Longrightarrow> channels_ok (delete_integration i s)"
  by (simp add: channels_ok_def delete_integration_def distinct_map_filter)

lemma planned_target:
  assumes "activate_plan i g s = Inr (b, prev, s')"
  shows "cb_guild b = in_guild i" "cb_parent b = in_parent i" "cb_integration b = in_integration i" "cb_org b = in_org i"
    "cb_workspace b = in_workspace i"
  using assms by (auto simp: activate_plan_def bind_result_eq_Inr Let_def split: if_splits prod.splits)

text \<open>The activation that commits what was planned in some earlier state.\<close>

lemma append_channel:
  assumes ok: "channels_ok s" and new: "activeBindingForChannel (cb_guild b) (cb_parent b) s = None" "activeBindingByIntegration (cb_integration b) s = None"
    and s': "channel_bindings s' = channel_bindings s @ [b]"
  shows "channels_ok s' \<and> activeBindingByIntegration (cb_integration b) s' = Some b \<and>
    activeBindingForChannel (cb_guild b) (cb_parent b) s' = Some b \<and>
    (\<forall>j. j \<noteq> cb_integration b \<longrightarrow> activeBindingByIntegration j s' = activeBindingByIntegration j s)"
proof -
  have n: "\<forall>r \<in> set (channel_bindings s). cb_integration r \<noteq> cb_integration b \<and> (cb_guild r, cb_parent r) \<noteq> (cb_guild b, cb_parent b)"
    using new by (auto simp: activeBindingForChannel_def activeBindingByIntegration_def find_None_iff)
  have f: "find P (xs @ [x]) = (case find P xs of None \<Rightarrow> if P x then Some x else None | Some y \<Rightarrow> Some y)" for P and xs :: "channel_binding list" and x
    by (induction xs) auto
  show ?thesis using ok n new
    by (auto simp: channels_ok_def s' activeBindingForChannel_def activeBindingByIntegration_def f split: option.splits)
qed

lemma update_channel:
  assumes ok: "channels_ok s" and c: "c \<in> set (channel_bindings s)" "cb_guild c = cb_guild b" "cb_parent c = cb_parent b"
    and s': "channel_bindings s' = map (\<lambda>r. if cb_guild r = cb_guild b \<and> cb_parent r = cb_parent b
               then r\<lparr>cb_org := cb_org b, cb_workspace := cb_workspace b, cb_guild_name := cb_guild_name b,
                      cb_parent_name := cb_parent_name b\<rparr> else r) (channel_bindings s)"
  shows "channels_ok s' \<and>
    (\<exists>b'. activeBindingByIntegration (cb_integration c) s' = Some b' \<and> activeBindingForChannel (cb_guild b) (cb_parent b) s' = Some b' \<and>
       cb_org b' = cb_org b \<and> cb_workspace b' = cb_workspace b) \<and>
    (\<forall>j. j \<noteq> cb_integration c \<longrightarrow> activeBindingByIntegration j s' = activeBindingByIntegration j s)"
proof -
  let ?f = "\<lambda>r. if cb_guild r = cb_guild b \<and> cb_parent r = cb_parent b
    then r\<lparr>cb_org := cb_org b, cb_workspace := cb_workspace b, cb_guild_name := cb_guild_name b, cb_parent_name := cb_parent_name b\<rparr> else r"
  have keys: "map (\<lambda>b. (cb_guild b, cb_parent b)) (map ?f xs) = map (\<lambda>b. (cb_guild b, cb_parent b)) xs"
    "map cb_integration (map ?f xs) = map cb_integration xs" for xs by (induction xs) auto
  have ok': "channels_ok s'" using ok unfolding channels_ok_def s' keys .
  let ?c = "?f c"
  have mem: "?c \<in> set (channel_bindings s')" using c by (auto simp: s')
  have "activeBindingByIntegration (cb_integration c) s' = Some ?c"
    unfolding activeBindingByIntegration_def using ok' mem by (intro find_unique) (auto simp: channels_ok_def)
  moreover have "activeBindingForChannel (cb_guild b) (cb_parent b) s' = Some ?c"
    using find_unique [of "\<lambda>b. (cb_guild b, cb_parent b)" "channel_bindings s'" ?c "(cb_guild b, cb_parent b)"] ok' mem c
    by (simp add: activeBindingForChannel_def channels_ok_def)
  moreover have "activeBindingByIntegration j s' = activeBindingByIntegration j s" if j: "j \<noteq> cb_integration c" for j
  proof -
    have "r = c" if "r \<in> set (channel_bindings s)" "cb_guild r = cb_guild b" "cb_parent r = cb_parent b" for r
    proof -
      have "inj_on (\<lambda>b. (cb_guild b, cb_parent b)) (set (channel_bindings s))" using ok by (simp add: channels_ok_def distinct_map)
      from inj_onD [OF this, of r c] show ?thesis using that c by simp
    qed
    then have "\<forall>r \<in> set (channel_bindings s). cb_integration r = j \<longrightarrow> ?f r = r" using j by auto
    moreover have "find (\<lambda>b. cb_integration b = j) (map ?f xs) = find (\<lambda>b. cb_integration b = j) xs"
      if "\<forall>r \<in> set xs. cb_integration r = j \<longrightarrow> ?f r = r" for xs using that by (induction xs) auto
    ultimately show ?thesis by (simp add: activeBindingByIntegration_def s')
  qed
  ultimately show ?thesis using ok' c by auto
qed

lemma activate_commit_channels:
  assumes ok: "channels_ok s" and plan: "activate_plan i g s0 = Inr (b, prev, s1)"
    and commit: "activate_commit i b prev ids now s = Inr (a, s')"
  shows "channels_ok s' \<and>
    (\<exists>b'. activeBindingByIntegration (in_integration i) s' = Some b' \<and> activeBindingForChannel (in_guild i) (in_parent i) s' = Some b' \<and>
       cb_org b' = in_org i \<and> cb_workspace b' = in_workspace i) \<and>
    (\<forall>j. j \<noteq> in_integration i \<longrightarrow> activeBindingByIntegration j s' = activeBindingByIntegration j s)"
proof -
  note t = planned_target [OF plan]
  have u: "d = c" if "d \<in> set (channel_bindings s)" "c \<in> set (channel_bindings s)" "cb_integration d = cb_integration c" for c d
    using ok that inj_onD [of cb_integration "set (channel_bindings s)" d c] by (simp add: channels_ok_def distinct_map)
  have conf: "cb_integration d = in_integration i \<and> d \<in> set (channel_bindings s)" if "activeBindingForChannel (in_guild i) (in_parent i) s = Some d" for d
  proof
    show "cb_integration d = in_integration i" using commit that t by (auto simp: activate_commit_def Let_def split: if_splits)
    show "d \<in> set (channel_bindings s)" using that by (auto simp: activeBindingForChannel_def find_Some_iff)
  qed
  show ?thesis
  proof (cases "activeBindingByIntegration (in_integration i) s")
    case None
    then have n: "activeBindingForChannel (in_guild i) (in_parent i) s = None"
      using conf by (cases "activeBindingForChannel (in_guild i) (in_parent i) s") (auto simp: activeBindingByIntegration_def find_None_iff)
    have "channel_bindings s' = channel_bindings s @ [b]"
      using commit None n t by (auto simp: activate_commit_def Let_def storeOperation_def upsert_channel_def split: if_splits)
    from append_channel [OF ok _ _ this] show ?thesis using n None t by auto
  next
    case (Some c)
    have c: "c \<in> set (channel_bindings s)" "cb_integration c = in_integration i"
      using Some by (auto simp: activeBindingByIntegration_def find_Some_iff)
    show ?thesis
    proof (cases "cb_guild c = in_guild i \<and> cb_parent c = in_parent i")
      case True
      then have "activeBindingForChannel (in_guild i) (in_parent i) s \<noteq> None" using c by (auto simp: activeBindingForChannel_def find_None_iff)
      then have "channel_bindings s' = map (\<lambda>r. if cb_guild r = cb_guild b \<and> cb_parent r = cb_parent b
               then r\<lparr>cb_org := cb_org b, cb_workspace := cb_workspace b, cb_guild_name := cb_guild_name b,
                      cb_parent_name := cb_parent_name b\<rparr> else r) (channel_bindings s)"
        using commit Some True t by (auto simp: activate_commit_def Let_def storeOperation_def upsert_channel_def split: if_splits)
      from update_channel [OF ok c(1) _ _ this] show ?thesis using True c(2) t by auto
    next
      case False
      have n: "activeBindingForChannel (in_guild i) (in_parent i) s = None"
      proof (cases "activeBindingForChannel (in_guild i) (in_parent i) s")
        case (Some d)
        then have "d = c" using conf u c by simp
        then show ?thesis using Some False by (auto simp: activeBindingForChannel_def find_Some_iff)
      qed
      let ?s = "delete_integration (in_integration i) s"
      have n': "activeBindingForChannel (in_guild i) (in_parent i) ?s = None" "activeBindingByIntegration (in_integration i) ?s = None"
        using n by (auto simp: activeBindingForChannel_def activeBindingByIntegration_def find_None_iff delete_integration_def)
      have "find (\<lambda>b. cb_integration b = j) (filter (\<lambda>b. cb_integration b \<noteq> k) xs) = find (\<lambda>b. cb_integration b = j) xs" if "j \<noteq> k" for j k xs
        using that by (induction xs) auto
      then have j: "activeBindingByIntegration j ?s = activeBindingByIntegration j s" if "j \<noteq> in_integration i" for j
        using that by (simp add: activeBindingByIntegration_def delete_integration_def)
      have "channel_bindings s' = channel_bindings ?s @ [b]"
        using commit Some False n' t by (auto simp: activate_commit_def Let_def storeOperation_def upsert_channel_def split: if_splits)
      from append_channel [OF channels_delete [OF ok] _ _ this] show ?thesis using n' j t by auto
    qed
  qed
qed

lemma other_channels: "other_operation now s s' \<Longrightarrow> channels_ok s \<Longrightarrow> channels_ok s'"
proof (induction rule: other_operation.induct)
  case (plan i g s b prev s')
  then have "channel_bindings s' = channel_bindings s"
    by (auto simp: activate_plan_def Let_def nextBindingVersion_def bind_result_eq_Inr split: if_splits prod.splits)
  with plan show ?case by (simp add: channels_ok_def)
next
  case (commit i g s0 b prev s1 ids s a s')
  then show ?case using activate_commit_channels by blast
next
  case (release s i v)
  then show ?case by (auto simp: releaseBinding_def channels_delete split: option.split)
next
  case (proactive_begins c i ok name tx s x s')
  then have "channel_bindings s' = channel_bindings s"
    unfolding proactive_start_def bind_result_def Let_def
    by (cases "operationResult ok ''thread_proactive'' s"; cases "assertOutboundEnabled c"; cases "activeBindingByIntegration i s";
        cases "map_of (proactive_thread_intents s) ok") (auto split: option.splits operation_result.splits if_splits)
  with proactive_begins show ?case by (simp add: channels_ok_def)
next
  case (proactive_posted ids ok s m s')
  then show ?case by (auto simp: proactive_starter_posted_def channels_ok_def split: list.splits if_splits)
next
  case (notice_begins c i parent m ok s x s')
  then have "channel_bindings s' = channel_bindings s"
    unfolding starter_notice_start_def bind_result_def Let_def
    by (cases "operationResult ok ''starter_failure_notice'' s"; cases "assertOutboundEnabled c"; cases "bound_parent i parent s")
      (auto simp: storeOperation_def split: option.splits operation_result.splits if_splits)
  with notice_begins show ?case by (simp add: channels_ok_def)
next
  case (dead_notice_begins c e fn s x s')
  then have "channel_bindings s' = channel_bindings s"
    by (auto simp: dead_letter_notice_start_def set_notice_def bind_result_eq_Inr split: option.splits if_splits)
  with dead_notice_begins show ?case by (simp add: channels_ok_def)
qed (auto simp: channels_ok_def storeManagedBotRoleIds_def setBotIdentity_def starter_notice_sent_def Let_def
    dead_letter_notice_sent_def set_notice_def handleGuildCreate_def handleGuildDelete_def handleThreadDelete_def storeOperation_def
    thread_from_message_started_def registerThread_def proactive_thread_ready_def send_message_sent_def split: option.split)

lemma insert_channels:
  "channel_bindings (snd (insertOutboxEvent eid m key n version p now s)) = channel_bindings s"
  "channel_bindings (snd (insertThreadMessageOutboxEvent eid t key version q now s)) = channel_bindings s"
  by (auto simp: insertOutboxEvent_def insertThreadMessageOutboxEvent_def writeOutboxEvent_def Let_def split: option.split)

lemma message_channels: "channel_bindings (snd (handleMessageCreate c p (m, g, ch, a) botId managed eid now s)) = channel_bindings s"
  by (cases rule: handleMessageCreate_cases [of c p m g ch a botId managed eid now s]) (simp_all add: insert_channels)

lemma terminalize_channels [simp]: "channel_bindings (snd (terminalizeDelivery e r final now s)) = channel_bindings s"
  by (simp add: terminalizeDelivery_def Let_def update_event_def split: option.split)

lemma expire_channels [simp]: "channel_bindings (snd (expire_all now rows (b, s))) = channel_bindings s"
proof (induction rows arbitrary: b s)
  case (Cons er rows)
  obtain e r where er: "er = (e, r)" by (cases er)
  obtain b' s' where t: "terminalizeDelivery e r Failed now s = (b', s')" by (cases "terminalizeDelivery e r Failed now s")
  then have "channel_bindings s' = channel_bindings s" using terminalize_channels [of e r Failed now s] by simp
  then show ?case using Cons.IH [of "b' \<or> b" s'] by (simp add: er t)
qed simp

lemma wake_channels [simp]: "channel_bindings (wake_at t p) = channel_bindings (snd p)"
  by (simp add: wake_at_def)

lemma add_failure_notice_channels [simp]: "channel_bindings (add_failure_notice e r now s) = channel_bindings s"
  by (auto simp: add_failure_notice_def split: option.split delivery.split)

lemma delivery_channels:
  "channel_bindings (publish_sent e now s) = channel_bindings s" "channel_bindings (publish_failed e now s) = channel_bindings s"
  "channel_bindings (snd (claimDelivery e token now s)) = channel_bindings s"
  "channel_bindings (snd (finishDelivery e token failed now s)) = channel_bindings s"
  "channel_bindings (snd (retryDelivery e token now s)) = channel_bindings s"
  "channel_bindings (snd (failDeliveryFromDeadLetter e now s)) = channel_bindings s"
  by (auto simp: publish_sent_def publish_failed_def update_event_def claimDelivery_def finishDelivery_def retryDelivery_def
      failDeliveryFromDeadLetter_def Let_def split: option.split)

lemma sweep_channels: "channel_bindings (alarm_sweep t n rows s) = channel_bindings s"
proof -
  have "channel_bindings (delete_old t s2) = channel_bindings s2" for s2 by (simp add: delete_old_def Let_def)
  then show ?thesis using expire_channels [of t rows False s] by (simp add: alarm_sweep_def case_prod_unfold Let_def)
qed

lemma step_channels:
  assumes "bridge_step racing b b'"
  shows "other_operation (bridge_clock b) (ctl b) (ctl b') \<or> channel_bindings (ctl b') = channel_bindings (ctl b)"
  using assms
proof (cases rule: bridge_step.cases)
  case (message c p m g ch a botId managed eid r s)
  then show ?thesis using message_channels [of c p m g ch a botId managed eid "bridge_clock b" "ctl b"] by simp
next
  case (lifecycle eid cb ty r s)
  have "channel_bindings (snd (enqueueLifecycleEvent eid cb ty (bridge_clock b) (ctl b))) = channel_bindings (ctl b)"
    unfolding enqueueLifecycleEvent_def Let_def by (rule insert_channels(1))
  then show ?thesis using lifecycle by simp
next
  case (claims e token p s)
  then show ?thesis using delivery_channels(3) [of e token "bridge_clock b" "ctl b"] by simp
next
  case (acknowledges e token answer s)
  then show ?thesis using delivery_channels(3) [of e token "bridge_clock b" "ctl b"] by simp
next
  case (finishes e token failed s)
  then show ?thesis using delivery_channels(4) [of e token failed "bridge_clock b" "ctl b"] by simp
next
  case (finish_unheard e token failed answered s)
  then show ?thesis using delivery_channels(4) [of e token failed "bridge_clock b" "ctl b"] by simp
next
  case (gives_back e token answered s)
  then show ?thesis using delivery_channels(5) [of e token "bridge_clock b" "ctl b"] by simp
next
  case (dead_letter e answer s left)
  then show ?thesis using delivery_channels(6) [of e "bridge_clock b" "ctl b"] by simp
qed (simp_all add: delivery_channels sweep_channels begin_sweep_def)

lemma bridge_step_channels: "bridge_step racing b b' \<Longrightarrow> channels_ok (ctl b) \<Longrightarrow> channels_ok (ctl b')"
  using step_channels [of racing b b'] other_channels channels_same by blast

lemma channels_new: "channels_ok (ctl (bridge_new t))"
  by (simp add: bridge_new_def control_new_def channels_ok_def)

lemma bridge_run_channels: "bridge_run racing b \<Longrightarrow> channels_ok (ctl b)"
  unfolding bridge_run_def
proof (elim exE)
  fix t assume "(bridge_step racing)\<^sup>*\<^sup>* (bridge_new t) b"
  then show "channels_ok (ctl b)" by (induction rule: rtranclp_induct) (auto intro: channels_new bridge_step_channels)
qed

text \<open>
  C19: An activation never takes a channel from another integration: whatever happens between its plan and its
  commit, it ends with the channel bound to its own integration and workspace, or with an error; the binding of
  every other integration is as it was, and no two integrations ever share a channel.
\<close>

theorem activation_never_steals:
  assumes "bridge_run racing b" "activate_plan i g s0 = Inr (planned, previous, s1)"
    and "activate_commit i planned previous ids now (ctl b) = Inr (a, s)"
  shows "distinct (map (\<lambda>b. (cb_guild b, cb_parent b)) (channel_bindings s)) \<and> distinct (map cb_integration (channel_bindings s)) \<and>
    (\<exists>b'. activeBindingByIntegration (in_integration i) s = Some b' \<and> activeBindingForChannel (in_guild i) (in_parent i) s = Some b' \<and>
       cb_org b' = in_org i \<and> cb_workspace b' = in_workspace i) \<and>
    (\<forall>j. j \<noteq> in_integration i \<longrightarrow> activeBindingByIntegration j s = activeBindingByIntegration j (ctl b))"
  using activate_commit_channels [OF bridge_run_channels [OF assms(1)] assms(2,3)] by (simp add: channels_ok_def)

theorem activation_never_steals_witness:
  "\<exists>a. activate_commit sample_input sample_binding None [''n''] 0 control_new = Inr (a, sample_bound) \<and>
     (\<exists>b'. activeBindingForChannel ''g'' ''c'' sample_bound = Some b' \<and> cb_workspace b' = ''w'')"
proof -
  obtain a where a: "activate_commit sample_input sample_binding None [''n''] 0 (ctl (bridge_new 0)) = Inr (a, sample_bound)"
    using sample_commit by (auto simp: bridge_new_def)
  have "bridge_run True (bridge_new 0)" unfolding bridge_run_def by blast
  from activation_never_steals [OF this sample_plan a] a show ?thesis
    by (auto simp: sample_input_def bridge_new_def)
qed

end
