(* ===== verification/DiscordDeliverySafety.thy ===== *)
theory DiscordDeliverySafety
  imports DiscordChannels
begin

section \<open>The Discord bridge: what is delivered, and when\<close>

text \<open>
  The properties of the deliveries, over the runs of DiscordDeliverySystem: their order and exclusion, that none
  is forgotten, how one is stranded all the same, replayed messages, and routing.
\<close>


subsection \<open>Runs of the bridge\<close>

lemma run_ok: "bridge_run racing b \<Longrightarrow> control_ok (bridge_clock b) (ctl b)"
  by (drule bridge_run_inv) (simp add: bridge_inv_def)



lemma pending_published:
  assumes "to_publish s e" "length (filter (\<lambda>(e, r). outbox_state r = Pending) (ingress_outbox s)) \<le> 50"
  shows "e \<in> set (alarm_pending s)"
proof -
  obtain r where "(e, r) \<in> set (ingress_outbox s)" "outbox_state r = Pending"
    using assms(1) by (auto simp: to_publish_def dest: map_of_SomeD)
  then show ?thesis using assms(2) unfolding alarm_pending_def by (force simp: image_iff)
qed



text \<open>
  A message that Discord sends again, as it does after every resumed connection, changes nothing while its row
  is kept: no second delivery, and no place of the conversation is used up.
\<close>

theorem replay_absorbed:
  assumes "known_message m s"
  shows "snd (handleMessageCreate c p (m, g, ch, a) botId managed eid now s) = s \<and>
    fst (handleMessageCreate c p (m, g, ch, a) botId managed eid now s) \<noteq> Inserted e"
proof (cases rule: handleMessageCreate_cases [of c p m g ch a botId managed eid now s])
  case (starts b q)
  then show ?thesis using assms by (simp add: insertOutboxEvent_def)
next
  case (continues t b q)
  then show ?thesis using assms by (simp add: insertThreadMessageOutboxEvent_def delivered_def)
qed simp

theorem replay_absorbed_witness:
  "snd (handleMessageCreate sample_config (sample_message ''m1'' ''c'') (''m1'', ''g'', ''c'', ''u'') ''bot'' [] ''e9'' 1 (snd sample_first)) =
   snd sample_first"
proof -
  have "known_message ''m1'' (snd sample_first)" by code_simp
  from conjunct1 [OF replay_absorbed [OF this]] show ?thesis .
qed

text \<open>
  C18: A message reaches only the workspace that its channel is bound to: what is inserted names integration,
  organization and workspace of a binding that is active then, either of the very channel, in which the message
  mentions the bot or one of its roles, or of the channel of the thread, registered for this integration; and
  the bot's own messages go nowhere.
\<close>

theorem routed_to_bound_workspace:
  assumes "handleMessageCreate c p (m, g, ch, a) botId managed eid now s = (Inserted e, s')"
  shows "\<exists>b q r. row s' e = Some r \<and> payload r = Some (Message q) \<and> b \<in> set (channel_bindings s) \<and>
    discordMessageId q = m \<and> integrationId q = cb_integration b \<and> orgId q = cb_org b \<and> workspaceId q = cb_workspace b \<and> a \<noteq> botId \<and>
    (if starter q then cb_guild b = g \<and> cb_parent b = ch \<and> mentions_bot botId managed p
     else \<exists>t. threadBinding ch s = Some t \<and> tb_guild t = g \<and> tb_integration t = cb_integration b \<and> tb_parent t = cb_parent b \<and>
       (discordContentMode c = Mention_only \<longrightarrow> mentions_bot botId managed p))"
proof (cases rule: handleMessageCreate_cases [of c p m g ch a botId managed eid now s])
  case (filtered st)
  then show ?thesis using assms by simp
next
  case (starts b q)
  have b: "b \<in> set (channel_bindings s) \<and> cb_guild b = g \<and> cb_parent b = ch"
    using starts(2) by (auto simp: activeBindingForChannel_def find_Some_iff)
  have "\<exists>s1. e = eid \<and> writeOutboxEvent eid m (g @ '':'' @ m) 1 (cb_version b) (Message q) now s = Some s'"
    using assms starts(5) by (auto simp: insertOutboxEvent_def split: if_splits option.splits)
  then have "row s' e = Some (new_row m (g @ '':'' @ m) 1 (cb_version b) (Message q) now)"
    using writeOutboxEvent_fields(3) by metis
  then show ?thesis using b starts(1,3,4) by (auto simp: delivered_def)
next
  case (continues t b q)
  have b: "b \<in> set (channel_bindings s) \<and> cb_integration b = tb_integration t"
    using continues(5) by (auto simp: activeBindingByIntegration_def find_Some_iff)
  let ?q = "q\<lparr>message_ordinal := next_ingress_ordinal t\<rparr>"
  have "\<exists>s1. e = eid \<and> writeOutboxEvent eid m (g @ '':'' @ ch) (next_ingress_ordinal t) (cb_version b) (Message ?q) now s1 = Some s'"
    using assms continues(3,8,9) by (auto simp: insertThreadMessageOutboxEvent_def Let_def delivered_def split: if_splits option.splits)
  then have "row s' e = Some (new_row m (g @ '':'' @ ch) (next_ingress_ordinal t) (cb_version b) (Message ?q) now)"
    using writeOutboxEvent_fields(3) by metis
  then show ?thesis using b continues by (auto simp: delivered_def)
qed

theorem routed_to_bound_workspace_witness:
  "\<exists>q r. row (snd sample_first) ''e1'' = Some r \<and> payload r = Some (Message q) \<and> workspaceId q = ''w''"
proof -
  have "handleMessageCreate sample_config (sample_message ''m1'' ''c'') (''m1'', ''g'', ''c'', ''u'') ''bot'' [] ''e1'' 0 sample_bound =
      (Inserted ''e1'', snd sample_first)"
    using sample_first_inserted by (simp add: sample_first_def prod_eq_iff)
  from routed_to_bound_workspace [OF this] show ?thesis by (auto simp: sample_binding_def)
qed

subsection \<open>A stranded delivery\<close>

text \<open>A delivery that is next in its conversation and published, but that nobody has a message of.\<close>

definition stranded :: "bridge \<Rightarrow> string \<Rightarrow> outbox_row \<Rightarrow> bool" where
  "stranded b e r \<longleftrightarrow> row (ctl b) e = Some r \<and> outbox_state r = Enqueued \<and> head_row (ctl b) r \<and>
     e \<notin> messages b \<and> e \<notin># sending b \<and> e \<notin># accepted b"

definition kept :: "string \<Rightarrow> outbox_row \<Rightarrow> control \<Rightarrow> bool" where
  "kept e r s \<longleftrightarrow> row s e = Some r \<and> outbox_state r = Enqueued \<and> head_row s r"

lemma kept_same: "ingress_outbox s' = ingress_outbox s \<Longrightarrow> conversation_state s' = conversation_state s \<Longrightarrow> kept e r s' = kept e r s"
  by (simp add: kept_def head_row_def completed_of_def)

lemma kept_update: "kept e r s \<Longrightarrow> x \<noteq> e \<Longrightarrow> kept e r (update_event x f s)"
  by (simp add: kept_def row_update_event head_row_def)

lemma terminalize_keys: "map fst (ingress_outbox (snd (terminalizeDelivery x rx final now s))) = map fst (ingress_outbox s)"
  by (simp add: terminalizeDelivery_def Let_def update_event_def split: option.split)

text \<open>Ending a delivery of another conversation.\<close>

lemma kept_terminalize:
  assumes d: "distinct (map fst (ingress_outbox s))" and e: "kept e r s" "x \<noteq> e" "conversation_key rx \<noteq> conversation_key r"
  shows "kept e r (snd (terminalizeDelivery x rx final now s))"
proof -
  define s1 where "s1 = s\<lparr>conversation_state := update_row (conversation_key rx)
    (\<lambda>q. q\<lparr>completed_ordinal := max (completed_ordinal q) (ordinal rx), conversation_updated := now\<rparr>) (conversation_state s)\<rparr>"
  define s2 where "s2 = update_event x (\<lambda>r. r\<lparr>outbox_state := final, payload := None, lease_token := None, lease_expires_at := None,
    outbox_updated := now\<rparr>) s1"
  have "completed_of (conversation_key r) s1 = completed_of (conversation_key r) s" using e(3) by (simp add: s1_def completed_of_def)
  then have "kept e r s1" using e(1) by (simp add: kept_def head_row_def) (simp add: s1_def)
  then have k2: "kept e r s2" unfolding s2_def using e(2) by (rule kept_update)
  have d2: "distinct (map fst (ingress_outbox s2))" using d by (simp add: s2_def) (simp add: s1_def)
  have "kept e r (update_event y f s2)" if "next_in_conversation rx s2 = Some y" for y f
  proof -
    have "y \<noteq> e" using that find_row(1) [OF d2] k2 e(3) by (fastforce simp: next_in_conversation_def kept_def)
    then show ?thesis by (rule kept_update [OF k2])
  qed
  then show ?thesis using k2
    by (simp add: terminalizeDelivery_def Let_def s1_def [symmetric] s2_def [symmetric] split: option.split)
qed

lemma kept_expire:
  "distinct (map fst (ingress_outbox s)) \<Longrightarrow> kept e r s \<Longrightarrow>
   (\<And>x rx. (x, rx) \<in> set rows \<Longrightarrow> x \<noteq> e \<and> conversation_key rx \<noteq> conversation_key r) \<Longrightarrow>
   kept e r (snd (expire_all now rows (b, s)))"
proof (induction rows arbitrary: b s)
  case (Cons xr rows)
  obtain x rx where xr: "xr = (x, rx)" by (cases xr)
  obtain b' s' where t: "terminalizeDelivery x rx Failed now s = (b', s')" by (cases "terminalizeDelivery x rx Failed now s")
  have n: "x \<noteq> e" "conversation_key rx \<noteq> conversation_key r" using Cons.prems(3) [of x rx] xr by simp_all
  have k: "kept e r s'" "distinct (map fst (ingress_outbox s'))"
    using kept_terminalize [OF Cons.prems(1,2) n, of Failed now] terminalize_keys [of x rx Failed now s] Cons.prems(1) t by simp_all
  have "kept e r (snd (expire_all now rows (b' \<or> b, s')))"
    by (rule Cons.IH) (use k Cons.prems(3) in auto)
  then show ?case by (simp add: xr t)
qed simp

lemma kept_delete_old:
  assumes ok: "control_ok clock s" and e: "kept e r s"
  shows "kept e r (delete_old now s)"
proof -
  have d: "distinct (map fst (ingress_outbox s))" using ok by (simp add: control_ok_def outbox_ok_def)
  have nt: "\<not> terminal r" using e by (simp add: kept_def terminal_def)
  have r: "row (delete_old now s) e = Some r"
    using e nt unfolding delete_old_fields(1) map_of_delete_where [OF d] by (simp add: kept_def)
  show ?thesis using r e delete_old_row(2) [OF ok r nt] by (simp add: kept_def head_row_def)
qed

lemma kept_sweep:
  assumes ok: "control_ok clock s" and e: "kept e r s" and rows: "set rows = set (expired_rows t s)"
    and young: "t \<le> outbox_created r + OUTBOX_EXPIRY_MS"
  shows "kept e r (alarm_sweep t n rows s)"
proof -
  have d: "distinct (map fst (ingress_outbox s))" using ok by (simp add: control_ok_def outbox_ok_def)
  have "x \<noteq> e \<and> conversation_key rx \<noteq> conversation_key r" if "(x, rx) \<in> set rows" for x rx
  proof -
    have x: "row s x = Some rx" "\<not> terminal rx" "outbox_created rx < t - OUTBOX_EXPIRY_MS"
      using that rows d by (auto simp: expired_rows_def)
    have re: "row s e = Some r" "head_row s r" using e by (simp_all add: kept_def)
    then have ne: "x \<noteq> e" using x young by auto
    have "conversation_key rx \<noteq> conversation_key r"
    proof
      assume k: "conversation_key rx = conversation_key r"
      have "completed_of (conversation_key rx) s < ordinal rx" using ok x(1,2) unfolding control_ok_def outbox_ok_def by blast
      then have "ordinal r \<le> ordinal rx" using k re(2) by (simp add: head_row_def)
      moreover have "ordinal r \<noteq> ordinal rx" using ok_order [OF ok re(1) x(1)] k ne by auto
      ultimately have "outbox_created r \<le> outbox_created rx" using ok_order [OF ok re(1) x(1)] k by simp
      then show False using x(3) young by simp
    qed
    with ne show ?thesis by blast
  qed
  from kept_delete_old [OF expire_all_ok [OF ok rows] kept_expire [OF d e this]]
  show ?thesis by (subst kept_same [OF alarm_sweep_cases(1,2)])
qed

lemma kept_write:
  assumes "kept e r s" "writeOutboxEvent eid m key n version p now s = Some s'"
  shows "kept e r s'" "eid \<noteq> e"
  using assms(1) writeOutboxEvent_fields [OF assms(2)] by (auto simp: kept_def head_row_def)

lemma kept_insert:
  "kept e r s \<Longrightarrow> insertOutboxEvent eid m key n version p now s = (a, s') \<Longrightarrow> kept e r s' \<and> e \<notin># started a"
  by (auto simp: insertOutboxEvent_def dest: kept_write split: if_splits option.splits)

lemma kept_insert_thread:
  assumes e: "kept e r s" and i: "insertThreadMessageOutboxEvent eid t key version p now s = (a, s')"
  shows "kept e r s' \<and> e \<notin># started a"
proof -
  have b: "kept e r (bump_thread t now s)" using e by (subst kept_same [of _ s]) simp_all
  show ?thesis using e i b unfolding insertThreadMessageOutboxEvent_def Let_def bump_thread_def [symmetric]
    by (auto dest: kept_write split: if_splits option.splits)
qed

lemma kept_message:
  assumes "kept e r s" "handleMessageCreate c p (m, g, ch, a) botId managed eid now s = (x, s')"
  shows "kept e r s' \<and> e \<notin># started x"
proof (cases rule: handleMessageCreate_cases [of c p m g ch a botId managed eid now s])
  case (filtered st)
  then show ?thesis using assms by auto
next
  case (starts b q)
  then show ?thesis using assms kept_insert by metis
next
  case (continues t b q)
  then show ?thesis using assms kept_insert_thread by metis
qed

lemma kept_claim:
  assumes "kept e r s" "x \<noteq> e" shows "kept e r (snd (claimDelivery x token now s))"
  using assms by (auto simp: claimDelivery_def intro: kept_update split: option.split)

lemma kept_retry:
  assumes "kept e r s" "x \<noteq> e" shows "kept e r (snd (retryDelivery x token now s))"
  using assms by (auto simp: retryDelivery_def intro: kept_update split: option.split)

lemma heads_differ:
  assumes ok: "control_ok clock s" and e: "kept e r s" and x: "row s x = Some rx" "head_row s rx" "x \<noteq> e"
  shows "conversation_key rx \<noteq> conversation_key r"
proof
  assume k: "conversation_key rx = conversation_key r"
  have "row s e = Some r" "head_row s r" using e by (simp_all add: kept_def)
  then show False using ok_order [OF ok x(1), of e r] k x(2,3) by (simp add: head_row_def)
qed

lemma kept_alarm: "kept e r (s\<lparr>control_alarm := a\<rparr>) = kept e r s"
  by (rule kept_same) simp_all

lemma kept_wake: "kept e r (wake_at t p) = kept e r (snd p)"
  by (simp add: wake_at_def kept_alarm)

lemma kept_finish:
  assumes ok: "control_ok clock s" and e: "kept e r s" "x \<noteq> e"
  shows "kept e r (snd (finishDelivery x token failed now s))"
proof -
  have d: "distinct (map fst (ingress_outbox s))" using ok by (simp add: control_ok_def outbox_ok_def)
  have "conversation_key rx \<noteq> conversation_key r" if "row s x = Some rx" "lease_token rx = Some token" for rx
  proof -
    have "head_row s rx" using ok that unfolding control_ok_def outbox_ok_def by (metis option.distinct(1))
    from heads_differ [OF ok e(1) that(1) this e(2)] show ?thesis .
  qed
  then show ?thesis using e by (auto simp: finishDelivery_def kept_wake intro: kept_terminalize [OF d] split: option.split)
qed

lemma kept_dead_letter:
  assumes ok: "control_ok clock s" and e: "kept e r s" "x \<noteq> e"
  shows "kept e r (snd (failDeliveryFromDeadLetter x now s))"
proof -
  have d: "distinct (map fst (ingress_outbox s))" using ok by (simp add: control_ok_def outbox_ok_def)
  have "kept e r (snd (terminalizeDelivery x rx Failed now (add_failure_notice x rx now s)))"
    if "row s x = Some rx" "ordinal rx = completed_of (conversation_key rx) s + 1" for rx
  proof (rule kept_terminalize)
    show "conversation_key rx \<noteq> conversation_key r" using heads_differ [OF ok e(1) that(1) _ e(2)] that(2) by (simp add: head_row_def)
    show "kept e r (add_failure_notice x rx now s)" using e(1) by (subst kept_same [of _ s]) simp_all
  qed (use d e in simp_all)
  then show ?thesis using e by (auto simp: failDeliveryFromDeadLetter_def kept_wake Let_def split: option.split)
qed

lemma kept_steady: "steady s s' \<Longrightarrow> kept e r s \<Longrightarrow> kept e r s'"
  by (subst kept_same [of _ s]) (simp_all add: steady_def)

lemma stranded_kept: "stranded b e r \<longleftrightarrow> kept e r (ctl b) \<and> e \<notin> messages b \<and> e \<notin># sending b \<and> e \<notin># accepted b"
  by (auto simp: stranded_def kept_def)

lemma pending_not_kept:
  assumes "control_ok clock s" "kept e r s"
  shows "e \<notin> set (alarm_pending s)"
proof
  assume "e \<in> set (alarm_pending s)"
  then obtain q where "(e, q) \<in> set (ingress_outbox s)" "outbox_state q = Pending"
    unfolding alarm_pending_def by (auto dest!: in_set_takeD)
  moreover have "distinct (map fst (ingress_outbox s))" using assms(1) by (simp add: control_ok_def outbox_ok_def)
  ultimately have "row s e = Some q" by simp
  then show False using assms(2) \<open>outbox_state q = Pending\<close> by (simp add: kept_def)
qed

text \<open>No step but the sweep that finds it expired changes a stranded delivery.\<close>

lemma stranded_step:
  assumes step: "bridge_step racing b b'" and ok: "control_ok (bridge_clock b) (ctl b)" and st: "stranded b e r"
    and young: "\<And>t n. (t, n) \<in># sweeps b \<Longrightarrow> t \<le> outbox_created r + OUTBOX_EXPIRY_MS"
  shows "stranded b' e r"
proof -
  have k: "kept e r (ctl b)" and q: "e \<notin># queued b" "e \<notin># dead_letters b" "e \<notin> fst ` set_mset (working b)"
    "e \<notin># sending b" "e \<notin># accepted b" using st by (auto simp: stranded_kept messages_def)
  have ne: "x \<noteq> e" if "x \<in># queued b \<or> x \<in># dead_letters b \<or> (x, y) \<in># working b \<or> x \<in># sending b \<or> x \<in># accepted b" for x y
    using that q by (auto simp: image_iff)
  have out: "x \<notin># A - M" if "x \<notin># A" for x :: string and A M using that by (auto dest: in_diffD)
  have wk: "e \<notin> fst ` set_mset (working b - M)" for M using q(3) by (auto dest: in_diffD)
  show ?thesis using step
  proof (cases rule: bridge_step.cases)
    case (elsewhere s)
    then show ?thesis using q kept_steady [OF other_steady k] by (auto simp: stranded_kept messages_def)
  next
    case (message c p m g ch a botId managed eid x s)
    then show ?thesis using q kept_message [OF k] by (auto simp: stranded_kept messages_def)
  next
    case (lifecycle eid cb ty x s)
    then show ?thesis using q kept_insert [OF k lifecycle(2) [unfolded enqueueLifecycleEvent_def Let_def]]
      by (auto simp: stranded_kept messages_def)
  next
    case (publish x)
    then show ?thesis using q ne [of x] out kept_update [OF k] by (auto simp: stranded_kept messages_def publish_sent_def)
  next
    case (send_accepted x)
    then show ?thesis using q ne [of x] out k by (auto simp: stranded_kept messages_def)
  next
    case (publish_update x)
    then show ?thesis using q ne [of x] out kept_update [OF k] by (auto simp: stranded_kept messages_def publish_sent_def)
  next
    case (publish_fails x taken)
    then have "e \<notin># taken" using ne [of x] by (auto dest: mset_subset_eqD)
    with publish_fails show ?thesis using q ne [of x] out kept_update [OF k]
      by (auto simp: stranded_kept messages_def publish_failed_def kept_alarm)
  next
    case (alarm_begins t)
    then show ?thesis using q k pending_not_kept [OF _ k, of "bridge_clock b"] ok
      by (auto simp: stranded_kept messages_def kept_alarm begin_sweep_def alarm_pending_def)
  next
    case maintenance
    then show ?thesis using q k pending_not_kept [OF ok k] by (auto simp: stranded_kept messages_def begin_sweep_def)
  next
    case (alarm_ends t n rows)
    then show ?thesis using q kept_sweep [OF ok k _ young] by (auto simp: stranded_kept messages_def)
  next
    case (claims x token p s)
    then show ?thesis using q ne [of x] out kept_claim [OF k, of x token "bridge_clock b"] by (auto simp: stranded_kept messages_def)
  next
    case (acknowledges x token answer s)
    then show ?thesis using q ne [of x] out kept_claim [OF k, of x token "bridge_clock b"] by (auto simp: stranded_kept messages_def)
  next
    case (finishes x token failed s)
    then show ?thesis using q ne [of x token] wk kept_finish [OF ok k, of x token failed "bridge_clock b"] by (auto simp: stranded_kept messages_def)
  next
    case (finish_unheard x token failed answered s)
    then show ?thesis using q ne [of x token] kept_finish [OF ok k, of x token failed "bridge_clock b"] by (auto simp: stranded_kept messages_def)
  next
    case (gives_back x token answered s)
    then show ?thesis using q ne [of x token] kept_retry [OF k, of x token "bridge_clock b"] by (auto simp: stranded_kept messages_def)
  next
    case (crashes x token)
    then show ?thesis using q ne [of x token] wk k by (auto simp: stranded_kept messages_def)
  next
    case (dies x)
    then show ?thesis using q ne [of x] out k by (auto simp: stranded_kept messages_def)
  next
    case (dead_letter x answer s left)
    then have "e \<notin># left" using ne [of x] by (auto dest: mset_subset_eqD)
    with dead_letter show ?thesis using q ne [of x] out kept_dead_letter [OF ok k, of x "bridge_clock b"]
      by (auto simp: stranded_kept messages_def)
  qed (use q k in \<open>auto simp: stranded_kept messages_def kept_alarm\<close>)
qed

text \<open>The sweeps began in the past.\<close>

definition alarm_past :: "bridge \<Rightarrow> bool" where
  "alarm_past b \<longleftrightarrow> (\<forall>t n. (t, n) \<in># sweeps b \<longrightarrow> t \<le> bridge_clock b)"

lemma alarm_past_step: "bridge_step racing b b' \<Longrightarrow> alarm_past b \<Longrightarrow> alarm_past b' \<and> bridge_clock b \<le> bridge_clock b'"
  by (erule bridge_step.cases) (force simp: alarm_past_def begin_sweep_def dest: in_diffD)+

lemma new_past: "alarm_past (bridge_new t)"
  by (simp add: bridge_new_def alarm_past_def)

lemma run_past: "bridge_run racing b \<Longrightarrow> alarm_past b"
  unfolding bridge_run_def
proof (elim exE)
  fix t assume "(bridge_step racing)\<^sup>*\<^sup>* (bridge_new t) b"
  then show "alarm_past b"
    by (induction rule: rtranclp_induct) (auto dest: alarm_past_step intro: new_past)
qed

lemma stranded_for_a_day:
  assumes run: "bridge_run racing b" and st: "stranded b e r" and more: "(bridge_step racing)\<^sup>*\<^sup>* b b'"
  shows "stranded b' e r \<or> outbox_created r + OUTBOX_EXPIRY_MS < bridge_clock b'"
  using more
proof (induction rule: rtranclp_induct)
  case (step c d)
  have "bridge_run racing c" using run step.hyps(1) unfolding bridge_run_def by (meson rtranclp_trans)
  then have c: "control_ok (bridge_clock c) (ctl c)" "alarm_past c" by (auto intro: run_ok run_past)
  show ?case
  proof (cases "outbox_created r + OUTBOX_EXPIRY_MS < bridge_clock c")
    case True
    then show ?thesis using alarm_past_step [OF step.hyps(2) c(2)] by linarith
  next
    case False
    then have young: "t \<le> outbox_created r + OUTBOX_EXPIRY_MS" if "(t, n) \<in># sweeps c" for t n
      using c(2) that by (fastforce simp: alarm_past_def)
    have "stranded c e r" using step.IH False by blast
    then have "stranded d e r" by (rule stranded_step [OF step.hyps(2) c(1)]) (rule young)
    then show ?thesis ..
  qed
qed (use st in blast)

subsection \<open>How a delivery is stranded\<close>

text \<open>The queue hands out \<open>m2\<close> before it answers; by the time it does, the consumer has let go of both.\<close>

definition sample_finished :: control where
  "sample_finished = snd (finishDelivery ''e1'' ''t1'' False 0 (snd sample_second))"

definition sample_stranded :: bridge where
  "sample_stranded = sample_state (publish_sent ''e2'' 0 sample_finished) {#} {#} {#} {#}"

lemma sample_race: "(bridge_step True)\<^sup>*\<^sup>* (sample_state (snd sample_second) {#''e2''#} {#} {#} {#(''e1'', ''t1'')#}) sample_stranded"
proof -
  let ?s = "sample_state (snd sample_second)" and ?w = "{#(''e1'', ''t1'')#}"
  have "fst (claimDelivery ''e2'' ''t2'' 0 (snd sample_second)) = Ordered_wait" by code_simp
  then have c: "claimDelivery ''e2'' ''t2'' 0 (snd sample_second) = (Ordered_wait, snd sample_second)"
    by (auto simp: claimDelivery_def split: option.splits if_splits)
  have "fst (finishDelivery ''e1'' ''t1'' False 0 (snd sample_second))" by code_simp
  then have f: "finishDelivery ''e1'' ''t1'' False 0 (snd sample_second) = (True, sample_finished)"
    by (simp add: sample_finished_def prod_eq_iff)
  have "bridge_step True (?s {#''e2''#} {#} {#} ?w) (?s {#} {#''e2''#} {#''e2''#} ?w)"
    using bridge_step.send_accepted [where b = "?s {#''e2''#} {#} {#} ?w" and e = "''e2''"] by (simp add: sample_state_def)
  moreover have "bridge_step True (?s {#} {#''e2''#} {#''e2''#} ?w) (?s {#} {#''e2''#} {#} ?w)"
    using bridge_step.acknowledges [where b = "?s {#} {#''e2''#} {#''e2''#} ?w" and e = "''e2''" and token = "''t2''"] c by (simp add: sample_state_def)
  moreover have "bridge_step True (?s {#} {#''e2''#} {#} ?w) (sample_state sample_finished {#} {#''e2''#} {#} {#})"
    using bridge_step.finishes [where b = "?s {#} {#''e2''#} {#} ?w" and e = "''e1''" and token = "''t1''" and failed = False] f by (simp add: sample_state_def)
  moreover have "bridge_step True (sample_state sample_finished {#} {#''e2''#} {#} {#}) sample_stranded"
    using bridge_step.publish_update [where b = "sample_state sample_finished {#} {#''e2''#} {#} {#}" and e = "''e2''"]
    by (simp add: sample_state_def sample_stranded_def)
  ultimately show ?thesis by (meson converse_rtranclp_into_rtranclp rtranclp.rtrancl_refl)
qed

lemma sample_stranded_view:
  "map_option (\<lambda>r. (outbox_state r, ordinal r, conversation_key r, outbox_created r)) (row (ctl sample_stranded) ''e2'') = Some (Enqueued, 2, ''g:m1'', 0)"
  "completed_of ''g:m1'' (ctl sample_stranded) = 1" "control_alarm (ctl sample_stranded) = None"
  by code_simp+

text \<open>
  C12: When the queue hands an event to a consumer before its answer reaches the control object, the event can be
  lost for a day: there is a run, without any failure, after which the delivery that is next in its conversation
  is published, but nobody has a message of it and no alarm is set; and however the bridge goes on from there, it
  stays undelivered, and so does all that follows in the conversation, until it has expired after 24 hours.
\<close>

theorem publish_race_strands:
  "\<exists>b e r. bridge_run True b \<and> stranded b e r \<and> control_alarm (ctl b) = None \<and> messages b = {} \<and>
     (\<forall>b'. (bridge_step True)\<^sup>*\<^sup>* b b' \<longrightarrow> stranded b' e r \<or> bridge_clock b + OUTBOX_EXPIRY_MS < bridge_clock b')"
proof -
  have run: "bridge_run True sample_stranded"
    unfolding bridge_run_def by (intro exI) (rule rtranclp_trans [OF sample_run sample_race])
  obtain r where r: "row (ctl sample_stranded) ''e2'' = Some r" "outbox_state r = Enqueued" "ordinal r = 2" "conversation_key r = ''g:m1''" "outbox_created r = 0"
    using sample_stranded_view(1) by auto
  have e: "messages sample_stranded = {}" "sending sample_stranded = {#}" "accepted sample_stranded = {#}" "bridge_clock sample_stranded = 0"
    by (simp_all add: sample_stranded_def sample_state_def messages_def)
  have "head_row (ctl sample_stranded) r" using r sample_stranded_view(2) by (simp add: head_row_def)
  then have st: "stranded sample_stranded ''e2'' r" using r e by (simp add: stranded_def)
  have "stranded b' ''e2'' r \<or> bridge_clock sample_stranded + OUTBOX_EXPIRY_MS < bridge_clock b'"
    if "(bridge_step True)\<^sup>*\<^sup>* sample_stranded b'" for b'
    using stranded_for_a_day [OF run st that] r(5) e(4) by simp
  with run st e(1) sample_stranded_view(3) show ?thesis by blast
qed

theorem publish_race_strands_witness: "\<exists>b e r. bridge_run True b \<and> stranded b e r"
proof -
  obtain b e r where "bridge_run True b" "stranded b e r"
    "\<forall>b'. (bridge_step True)\<^sup>*\<^sup>* b b' \<longrightarrow> stranded b' e r \<or> bridge_clock b + OUTBOX_EXPIRY_MS < bridge_clock b'"
    using publish_race_strands by blast
  then have "stranded b e r \<or> bridge_clock b + OUTBOX_EXPIRY_MS < bridge_clock b" by blast
  with \<open>bridge_run True b\<close> \<open>stranded b e r\<close> show ?thesis by blast
qed

end
