(* ===== verification/Effects.thy ===== *)
theory Effects
  imports Prelude
begin

section \<open>Programs that call services\<close>

text \<open>
  An asynchronous function that awaits other services, as a tree: it returns, it throws, or it makes a call and
  goes on with the answer. Nothing is assumed of the answers; a call that fails has an answer that says so.
  \<open>replay\<close> runs a program against the answers that it has got. \<open>follows\<close> states of a program what a
  protocol allows: an automaton reads the calls and their answers, and says where the program may end.
\<close>

datatype ('c, 'r, 'f, 'a) io = Return 'a | Throw 'f | Call 'c "'r \<Rightarrow> ('c, 'r, 'f, 'a) io"

primrec bind_io :: "('c, 'r, 'f, 'a) io \<Rightarrow> ('a \<Rightarrow> ('c, 'r, 'f, 'b) io) \<Rightarrow> ('c, 'r, 'f, 'b) io" where
  "bind_io (Return a) f = f a"
| "bind_io (Throw x) f = Throw x"
| "bind_io (Call c k) f = Call c (\<lambda>r. bind_io (k r) f)"

text \<open>\<open>try { m } catch (x) { h(x) }\<close>\<close>

primrec catch_io :: "('c, 'r, 'f, 'a) io \<Rightarrow> ('f \<Rightarrow> ('c, 'r, 'g, 'a) io) \<Rightarrow> ('c, 'r, 'g, 'a) io" where
  "catch_io (Return a) h = Return a"
| "catch_io (Throw x) h = h x"
| "catch_io (Call c k) h = Call c (\<lambda>r. catch_io (k r) h)"

definition lift_io :: "('f, 'a) result \<Rightarrow> ('c, 'r, 'f, 'a) io" where
  "lift_io v = (case v of Inl x \<Rightarrow> Throw x | Inr a \<Rightarrow> Return a)"

text \<open>\<open>for (const x of xs) s = await f(x, s)\<close>\<close>

fun fold_io :: "('x \<Rightarrow> 's \<Rightarrow> ('c, 'r, 'f, 's) io) \<Rightarrow> 'x list \<Rightarrow> 's \<Rightarrow> ('c, 'r, 'f, 's) io" where
  "fold_io f [] s = Return s"
| "fold_io f (x # xs) s = bind_io (f x s) (fold_io f xs)"

subsection \<open>Runs\<close>

primrec replay :: "('c, 'r, 'f, 'a) io \<Rightarrow> ('c \<times> 'r) list \<Rightarrow> ('f, 'a) result option" where
  "replay (Return a) es = (if es = [] then Some (Inr a) else None)"
| "replay (Throw x) es = (if es = [] then Some (Inl x) else None)"
| "replay (Call c k) es =
     (case es of [] \<Rightarrow> None | (c', r) # es' \<Rightarrow> if c' = c then replay (k r) es' else None)"

text \<open>The automaton \<open>\<delta>\<close> over a run.\<close>

fun run_protocol :: "('q \<Rightarrow> 'c \<Rightarrow> 'r \<Rightarrow> 'q option) \<Rightarrow> 'q \<Rightarrow> ('c \<times> 'r) list \<Rightarrow> 'q option" where
  "run_protocol \<delta> q [] = Some q"
| "run_protocol \<delta> q ((c, r) # es) = (case \<delta> q c r of None \<Rightarrow> None | Some q' \<Rightarrow> run_protocol \<delta> q' es)"

primrec follows ::
    "('q \<Rightarrow> 'c \<Rightarrow> 'r \<Rightarrow> 'q option) \<Rightarrow> ('c, 'r, 'f, 'a) io \<Rightarrow> ('q \<Rightarrow> ('f, 'a) result \<Rightarrow> bool) \<Rightarrow> 'q \<Rightarrow> bool" where
  "follows \<delta> (Return a) Q q = Q q (Inr a)"
| "follows \<delta> (Throw x) Q q = Q q (Inl x)"
| "follows \<delta> (Call c k) Q q = (\<forall>r. case \<delta> q c r of None \<Rightarrow> False | Some q' \<Rightarrow> follows \<delta> (k r) Q q')"

text \<open>Congruences for a simplification that evaluates a program as it runs.\<close>

lemma lazy_io:
  "m = m' \<Longrightarrow> bind_io m f = bind_io m' f" "m = m' \<Longrightarrow> catch_io m h = catch_io m' h" "c = c' \<Longrightarrow> Call c k = Call c' k"
  by simp_all

subsection \<open>Rules\<close>

lemma bind_io_assoc: "bind_io (bind_io m f) g = bind_io m (\<lambda>a. bind_io (f a) g)"
  by (induction m) auto

lemma bind_io_return: "bind_io m Return = m"
  by (induction m) auto

lemma follows_mono:
  assumes "follows \<delta> m Q q" "\<And>q v. Q q v \<Longrightarrow> Q' q v"
  shows "follows \<delta> m Q' q"
  using assms(1) by (induction m arbitrary: q) (auto split: option.splits simp: assms(2) intro: assms(2))

lemma follows_bind:
  "follows \<delta> (bind_io m f) Q q =
     follows \<delta> m (\<lambda>q v. case v of Inl x \<Rightarrow> Q q (Inl x) | Inr a \<Rightarrow> follows \<delta> (f a) Q q) q"
  by (induction m arbitrary: q) (auto split: option.splits)

lemma follows_catch:
  "follows \<delta> (catch_io m h) Q q =
     follows \<delta> m (\<lambda>q v. case v of Inl x \<Rightarrow> follows \<delta> (h x) Q q | Inr a \<Rightarrow> Q q (Inr a)) q"
  by (induction m arbitrary: q) (auto split: option.splits)

lemma follows_lift [simp]: "follows \<delta> (lift_io v) Q q = Q q v"
  by (cases v) (simp_all add: lift_io_def)

lemma follows_fold:
  assumes "I xs q s"
    and "\<And>x ys q s. x \<in> set xs \<Longrightarrow> I (x # ys) q s \<Longrightarrow>
      follows \<delta> (f x s) (\<lambda>q v. case v of Inl y \<Rightarrow> Q q (Inl y) | Inr s \<Rightarrow> I ys q s) q"
    and "\<And>q s. I [] q s \<Longrightarrow> Q q (Inr s)"
  shows "follows \<delta> (fold_io f xs s) Q q"
  using assms
proof (induction xs arbitrary: q s)
  case Nil then show ?case by simp
next
  case (Cons x xs)
  have "follows \<delta> (f x s) (\<lambda>q v. case v of Inl y \<Rightarrow> Q q (Inl y) | Inr s \<Rightarrow> I xs q s) q"
    using Cons.prems(1,2) by simp
  then show ?case unfolding fold_io.simps follows_bind
    by (rule follows_mono) (auto split: sum.splits intro!: Cons.IH Cons.prems(2,3))
qed

lemma follows_replay:
  assumes "follows \<delta> m Q q" "replay m es = Some v"
  shows "\<exists>q'. run_protocol \<delta> q es = Some q' \<and> Q q' v"
  using assms
proof (induction m arbitrary: q es)
  case (Call c k)
  from Call.prems(2) obtain r es' where es: "es = (c, r) # es'" "replay (k r) es' = Some v"
    by (auto split: list.splits prod.splits if_splits)
  from Call.prems(1) obtain q1 where q1: "\<delta> q c r = Some q1" "follows \<delta> (k r) Q q1"
    by (auto split: option.splits dest: spec [of _ r])
  from Call.IH [OF rangeI q1(2) es(2)] obtain q' where "run_protocol \<delta> q1 es' = Some q'" "Q q' v" by auto
  then show ?case by (auto simp: es(1) q1(1))
qed (auto split: if_splits)

lemma replay_bind_Inr:
  assumes "replay m as = Some (Inr a)" "replay (f a) bs = Some v"
  shows "replay (bind_io m f) (as @ bs) = Some v"
  using assms by (induction m arbitrary: as) (auto split: list.splits prod.splits if_splits)

lemma replay_bind_cases:
  assumes "replay (bind_io m f) es = Some v"
  shows "(\<exists>as bs a. es = as @ bs \<and> replay m as = Some (Inr a) \<and> replay (f a) bs = Some v) \<or>
    (\<exists>x. replay m es = Some (Inl x) \<and> v = Inl x)"
  using assms
proof (induction m arbitrary: es)
  case (Return a)
  then show ?case by (auto intro!: exI [of _ "[]"])
next
  case (Throw x)
  then show ?case by (auto split: if_splits)
next
  case (Call c k)
  from Call.prems obtain r es' where es: "es = (c, r) # es'" "replay (bind_io (k r) f) es' = Some v"
    by (auto split: list.splits prod.splits if_splits)
  from Call.IH [OF rangeI es(2)] show ?case
  proof (elim disjE exE conjE)
    fix as bs a assume "es' = as @ bs" "replay (k r) as = Some (Inr a)" "replay (f a) bs = Some v"
    then show ?thesis by (intro disjI1 exI [of _ "(c, r) # as"] exI [of _ bs] exI [of _ a]) (simp add: es(1))
  qed (simp add: es(1))
qed

subsection \<open>Runs in a world\<close>

text \<open>
  A world answers the calls. A call may get lost on its way, or its answer on the way back; then the program
  gets \<open>lost\<close>. What is left of the list of faults is for what comes after; the calls after it work.
\<close>

datatype fault = Works | Lost_before | Lost_after

primrec run_with ::
    "('w \<Rightarrow> 'c \<Rightarrow> 'r \<times> 'w) \<Rightarrow> 'r \<Rightarrow> ('c, 'r, 'f, 'a) io \<Rightarrow> fault list \<Rightarrow> 'w \<Rightarrow> ('f, 'a) result \<times> 'w \<times> fault list" where
  "run_with serve lost (Return a) fs w = (Inr a, w, fs)"
| "run_with serve lost (Throw x) fs w = (Inl x, w, fs)"
| "run_with serve lost (Call c k) fs w =
     (case fs of
        [] \<Rightarrow> run_with serve lost (k (fst (serve w c))) [] (snd (serve w c))
      | Works # fs \<Rightarrow> run_with serve lost (k (fst (serve w c))) fs (snd (serve w c))
      | Lost_before # fs \<Rightarrow> run_with serve lost (k lost) fs w
      | Lost_after # fs \<Rightarrow> run_with serve lost (k lost) fs (snd (serve w c)))"

lemma run_with_bind:
  "run_with serve lost (bind_io m f) fs w =
     (case run_with serve lost m fs w of
        (Inl x, w, fs) \<Rightarrow> (Inl x, w, fs)
      | (Inr a, w, fs) \<Rightarrow> run_with serve lost (f a) fs w)"
  by (induction m arbitrary: fs w) (auto split: list.split fault.split)

lemma run_with_no_faults: "snd (snd (run_with serve lost m [] w)) = []"
  by (induction m arbitrary: w) auto

end
