(* ===== verification/MainServices.thy ===== *)
theory MainServices
  imports Effects DiscordDelivery "HOL-Library.Word"
begin

section \<open>The services of the main worker\<close>

text \<open>
  The calls that the programs of the main worker make, with their arguments: the key-value namespace \<open>APP_KV\<close>,
  the bucket of files, the organization's and the workspace's object, the agent runtime, the Discord bridge
  (\<open>DiscordBridgeClient\<close> of \<open>src/workers/main/src/discord-types.ts\<close>), and a download. An absent id is the
  empty text. The time that is stored with a record is left out, except where the code computes with it.
\<close>

type_synonym bytes = "8 word list"

text \<open>What is thrown: a \<open>DiscordBridgeRequestError\<close> with its code and delay, or another error.\<close>

datatype failure = Bridge_failure string "int option" | Error_thrown string

datatype finish_action = Finish_complete | Finish_retry | Finish_fail

record integration =
  integration_type :: string
  integration_config :: string
  credentials_encrypted :: string
  created_by :: string

record org_thread =
  thread_title :: units
  thread_kind :: "string option"
  thread_connection :: "string option"
  thread_conversation :: "string option"
  thread_created_by :: string

record thread_creation =
  create_title :: units
  create_by :: string
  first_message :: "units option"
  create_model :: string
  create_kind :: string
  create_connection :: "string option"
  create_conversation :: string
  create_message :: "string option"

record turn_request =
  turn_thread :: string
  turn_kind :: string
  turn_user :: "string option"
  turn_user_name :: string
  turn_email :: "string option"
  turn_system :: units
  turn_message :: units
  turn_client_id :: string

datatype turn_answer = Turn_accepted | Turn_busy "string option" | Turn_error "string option" | Turn_unmovable string

text \<open>
  A downloaded body: bytes without a stream, or a stream, whose reads may give no value, and which ends or
  breaks with an error. \<open>http_length\<close> is \<open>Number(response.headers.get("content-length"))\<close> when that is finite.
\<close>

datatype body = Whole "(failure, bytes) result" | Stream "bytes option list" "failure option"

record http_response =
  http_status :: int
  http_length :: "rat option"
  http_type :: "string option"
  http_body :: body

datatype dead_letter_answer = Dead_letter_wait "int option" | Dead_letter_over string

datatype call =
    Kv_get string
  | Kv_put string string "nat option"
  | Kv_delete string
  | R2_head units
  | R2_put units bytes string units string
  | Http_get string
  | Claim_delivery string
  | Finish_delivery string string finish_action
  | Dead_letter_delivery string
  | Start_thread_from_message string string string units string
  | Send_discord_message string string string string
  | Send_failure_notice string string string string string
  | Release_binding string nat
  | Get_workspace_record string string
  | Get_workspace_integration string string string
  | Update_integration string string string "char json_of" string
  | Update_verification string string string string string integration
  | Get_thread string string
  | Create_thread string string thread_creation
  | Default_model string string
  | Pin_thread string string string
  | Get_connection string string
  | Start_runtime_turn string string turn_request

datatype answer =
    Failed failure
  | Answered
  | Text_answer "string option"
  | Size_answer "nat option"
  | Http_answer http_response
  | Claim_answer claim
  | Dead_letter_answer dead_letter_answer
  | Workspace_answer "bool option"
  | Integration_answer "integration option"
  | Thread_answer "org_thread option"
  | Created_answer string units
  | Turn_answer "turn_answer option"

type_synonym 'a main_io = "(call, answer, failure, 'a) io"

text \<open>An answer that is none of the call's own is an error too.\<close>

definition not_an_answer :: failure where "not_an_answer = Error_thrown ''TypeError''"

definition ask :: "(answer \<Rightarrow> 'a option) \<Rightarrow> call \<Rightarrow> 'a main_io" where
  "ask read c = Call c (\<lambda>r. case r of Failed x \<Rightarrow> Throw x
     | _ \<Rightarrow> (case read r of Some a \<Rightarrow> Return a | None \<Rightarrow> Throw not_an_answer))"

fun read_done :: "answer \<Rightarrow> unit option" where "read_done Answered = Some ()" | "read_done _ = None"
fun read_text :: "answer \<Rightarrow> string option option" where "read_text (Text_answer t) = Some t" | "read_text _ = None"
fun read_size :: "answer \<Rightarrow> nat option option" where "read_size (Size_answer n) = Some n" | "read_size _ = None"
fun read_http :: "answer \<Rightarrow> http_response option" where "read_http (Http_answer h) = Some h" | "read_http _ = None"
fun read_claim :: "answer \<Rightarrow> claim option" where "read_claim (Claim_answer c) = Some c" | "read_claim _ = None"
fun read_dead_letter :: "answer \<Rightarrow> dead_letter_answer option" where
  "read_dead_letter (Dead_letter_answer d) = Some d" | "read_dead_letter _ = None"
fun read_workspace :: "answer \<Rightarrow> bool option option" where
  "read_workspace (Workspace_answer w) = Some w" | "read_workspace _ = None"
fun read_integration :: "answer \<Rightarrow> integration option option" where
  "read_integration (Integration_answer i) = Some i" | "read_integration _ = None"
fun read_thread :: "answer \<Rightarrow> org_thread option option" where
  "read_thread (Thread_answer t) = Some t" | "read_thread _ = None"
fun read_created :: "answer \<Rightarrow> (string \<times> units) option" where
  "read_created (Created_answer i t) = Some (i, t)" | "read_created _ = None"
fun read_turn :: "answer \<Rightarrow> turn_answer option option" where
  "read_turn (Turn_answer t) = Some t" | "read_turn _ = None"

definition perform :: "call \<Rightarrow> unit main_io" where "perform = ask read_done"

text \<open>A text that is there: \<open>if (value)\<close>.\<close>

definition non_empty_text :: "string option \<Rightarrow> string option" where
  "non_empty_text v = (case v of Some (c # s) \<Rightarrow> Some (c # s) | _ \<Rightarrow> None)"

text \<open>\<open>.catch(() => undefined)\<close>\<close>

definition ignoring :: "unit main_io \<Rightarrow> unit main_io" where
  "ignoring m = catch_io m (\<lambda>_. Return ())"

lemma follows_ask:
  "follows \<delta> (ask read c) Q q \<longleftrightarrow>
     (\<forall>r. case \<delta> q c r of None \<Rightarrow> False
        | Some q' \<Rightarrow> Q q' (case r of Failed x \<Rightarrow> Inl x | _ \<Rightarrow> (case read r of Some a \<Rightarrow> Inr a | None \<Rightarrow> Inl not_an_answer)))"
  unfolding ask_def follows.simps
  by (intro all_cong1) (auto split: option.splits answer.splits)

subsection \<open>Bans\<close>

text \<open>\<open>isOrgBanned\<close> of \<open>src/workers/main/src/ban-list.ts\<close>; \<open>parse\<close> is \<open>JSON.parse\<close>.\<close>

record ban_record =
  ban_scope :: string
  ban_target :: string

definition safeParseBanRecord :: "(string \<Rightarrow> json option) \<Rightarrow> string option \<Rightarrow> ban_record option" where
  "safeParseBanRecord parse raw =
     (case Option.bind (non_empty_text raw) parse of
        None \<Rightarrow> None
      | Some j \<Rightarrow>
          if json_get ''scope'' j \<noteq> Some (JStr ''user'') \<and> json_get ''scope'' j \<noteq> Some (JStr ''org'') then None
          else if \<not> truthy (json_get ''target_id'' j) \<or> json_get ''status'' j \<noteq> Some (JStr ''active'') then None
          else Some \<lparr>ban_scope = or_default [] (json_string (json_get ''scope'' j)),
                 ban_target = or_default [] (json_string (json_get ''target_id'' j))\<rparr>)"

definition normalizeBanName :: "string option \<Rightarrow> string option" where
  "normalizeBanName s = (let n = js_lower (js_trim (or_default [] s)) in if n = [] then None else Some n)"

definition getOrgBanIdKey :: "string \<Rightarrow> string" where "getOrgBanIdKey org = ''ban:org:id:'' @ org"
definition getOrgBanSlugKey :: "string \<Rightarrow> string" where
  "getOrgBanSlugKey slug = ''ban:org:slug:'' @ or_default ''null'' (normalizeBanName (Some slug))"

definition getOrgBanById :: "(string \<Rightarrow> json option) \<Rightarrow> string \<Rightarrow> ban_record option main_io" where
  "getOrgBanById parse org = bind_io (ask read_text (Kv_get (getOrgBanIdKey org))) (\<lambda>raw. Return (safeParseBanRecord parse raw))"

definition getOrgBanBySlug :: "(string \<Rightarrow> json option) \<Rightarrow> string option \<Rightarrow> ban_record option main_io" where
  "getOrgBanBySlug parse slug =
     (case normalizeBanName slug of None \<Rightarrow> Return None
      | Some n \<Rightarrow> bind_io (ask read_text (Kv_get (getOrgBanSlugKey n))) (\<lambda>raw. Return (safeParseBanRecord parse raw)))"

definition isOrgBanned :: "(string \<Rightarrow> json option) \<Rightarrow> string \<Rightarrow> string option \<Rightarrow> ban_record option main_io" where
  "isOrgBanned parse org slug =
     bind_io (if org = [] then Return None else getOrgBanById parse org) (\<lambda>byId.
       case byId of
         Some b \<Rightarrow> Return (Some b)
       | None \<Rightarrow> if non_empty_text slug \<noteq> None then getOrgBanBySlug parse slug else Return None)"

end
