(* ===== verification/ChannelTexts.thy ===== *)
theory ChannelTexts
  imports Json "HOL-Library.Word"
begin

section \<open>Channels: keys, replies and mail headers\<close>

text \<open>
  Model of the texts of \<open>src/workers/main/src/channels.ts\<close>: the keys under which a conversation and a handled
  message are stored, the system message that names the reply tool, and the headers of a mail that answers.
  A text is a list of characters below code unit 256.
\<close>

unbundle bit_operations_syntax

subsection \<open>Keys\<close>

text \<open>\<open>hashChannelKeyPart\<close>: 32-bit FNV-1a, and \<open>toString(36)\<close>.\<close>

definition hash_step :: "32 word \<Rightarrow> char \<Rightarrow> 32 word" where
  "hash_step h c = (h XOR of_nat (of_char c)) * 0x01000193"

definition base36_char :: "nat \<Rightarrow> char" where
  "base36_char d = (if d < 10 then digit_char d else char_of (87 + d))"

fun show_base36 :: "nat \<Rightarrow> string" where
  "show_base36 n = (if n < 36 then [base36_char n] else show_base36 (n div 36) @ [base36_char (n mod 36)])"

declare show_base36.simps [simp del]

definition hashChannelKeyPart :: "string \<Rightarrow> string" where
  "hashChannelKeyPart s = show_base36 (unat (foldl hash_step 0x811c9dc5 s))"

definition MAX_CHANNEL_KEY_PART_LENGTH :: nat where "MAX_CHANNEL_KEY_PART_LENGTH = 96"

definition is_key_char :: "char \<Rightarrow> bool" where
  "is_key_char c \<longleftrightarrow>
     (let n = (of_char c :: nat) in 97 \<le> n \<and> n \<le> 122 \<or> is_digit c) \<or> c \<in> set ''._:@/-''"

definition key_char :: "char \<Rightarrow> char" where
  "key_char c = (if is_key_char c then c else CHR ''_'')"

definition safeChannelKeyPart :: "string \<Rightarrow> string" where
  "safeChannelKeyPart s =
     (let normalized = map key_char (js_lower (js_trim s))
      in if length normalized \<le> MAX_CHANNEL_KEY_PART_LENGTH then normalized
         else take 80 normalized @ ''.'' @ hashChannelKeyPart normalized)"

definition key_part :: "string \<Rightarrow> string \<Rightarrow> string" where
  "key_part d s = (if safeChannelKeyPart s = [] then d else safeChannelKeyPart s)"

record channel_address =
  ca_kind :: string
  ca_workspace :: string
  ca_org :: string
  ca_conversation :: string
  ca_connection :: "string option"

definition getChannelThreadMapKey :: "channel_address \<Rightarrow> string" where
  "getChannelThreadMapKey a =
     ''channel_thread:'' @ key_part ''unknown'' (ca_kind a) @ '':'' @ key_part ''workspace'' (ca_workspace a) @ '':'' @
     key_part ''connection'' (or_default [] (ca_connection a)) @ '':'' @ key_part ''conversation'' (ca_conversation a)"

definition getChannelDedupeKey :: "string \<Rightarrow> string \<Rightarrow> string \<Rightarrow> string" where
  "getChannelDedupeKey kind workspace m =
     ''channel_event:'' @ key_part ''unknown'' kind @ '':'' @ key_part ''workspace'' workspace @ '':'' @ key_part ''message'' m"

subsection \<open>Replies\<close>

definition CHANNEL_REPLY_TOOLS :: "(string \<times> string) list" where
  "CHANNEL_REPLY_TOOLS = [(''email'', ''send_email''), (''slack'', ''send_slack_message''),
     (''telegram'', ''send_telegram_message''), (''discord'', ''send_discord_message'')]"

definition getChannelReplyToolName :: "string \<Rightarrow> string option" where
  "getChannelReplyToolName kind = map_of CHANNEL_REPLY_TOOLS (safeChannelKeyPart kind)"

definition RUNTIME_TOOL_PREFIX :: string where "RUNTIME_TOOL_PREFIX = ''camel__''"

definition buildChannelReplySystemMessage :: "string \<Rightarrow> string option \<Rightarrow> bool \<Rightarrow> string" where
  "buildChannelReplySystemMessage kind userEmail runtime =
     (let safeKind = key_part ''unknown'' kind;
          toolName = map_option (\<lambda>t. if runtime then RUNTIME_TOOL_PREFIX @ t else t) (getChannelReplyToolName kind);
          email = js_trim (or_default [] userEmail);
          emailHint = (if safeKind = ''email'' \<and> email \<noteq> []
            then '' The sender email is '' @ email @ ''; use it as the to value if replying to the sender.'' else []);
          routingHint = (if safeKind \<in> set [''slack'', ''telegram'', ''discord'']
            then '' You do not need to provide the channel/chat id because the tool is already scoped to the originating conversation.''
            else []);
          replyInstruction = (case toolName of
              Some t \<Rightarrow> ''To reply externally, call your code tool and from inside that JavaScript call await tools.'' @ t @
                ''(...).'' @ emailHint @ routingHint
            | None \<Rightarrow> ''No outbound tool is configured for this channel yet; do not claim you replied externally unless you call a provider-specific send tool from your code tool.'')
      in ''<camelai system message>'' @ ''This user message came from the '' @ safeKind @
         '' channel. Final assistant text is internal and will not be sent to the external channel automatically. '' @
         replyInstruction @ ''</camelai system message>'')"

subsection \<open>Mail\<close>

definition EMAIL_THREAD_REFERENCE_LIMIT :: nat where "EMAIL_THREAD_REFERENCE_LIMIT = 20"
definition EMAIL_HEADER_VALUE_MAX_BYTES :: nat where "EMAIL_HEADER_VALUE_MAX_BYTES = 2048"

definition is_line_break :: "char \<Rightarrow> bool" where
  "is_line_break c \<longleftrightarrow> c = CHR 0x0D \<or> c = CHR 0x0A"

text \<open>\<open>s.replace(/[\r\n]+/g, " ")\<close>\<close>

function join_lines :: "string \<Rightarrow> string" where
  "join_lines [] = []"
| "join_lines (c # s) =
     (if is_line_break c then CHR '' '' # join_lines (dropWhile is_line_break s) else c # join_lines s)"
  by pat_completeness auto
termination by (relation "measure length") (auto simp: le_imp_less_Suc length_dropWhile_le)

text \<open>\<open>s.match(/^<([^>]+)>$/)\<close>: the group.\<close>

definition bracketed :: "string \<Rightarrow> string option" where
  "bracketed s =
     (case s of [] \<Rightarrow> None
      | c # t \<Rightarrow> if c = CHR ''<'' \<and> 2 \<le> length t \<and> last t = CHR ''>'' \<and> CHR ''>'' \<notin> set (butlast t) then Some (butlast t) else None)"

definition some_text :: "string \<Rightarrow> string option" where
  "some_text s = (if s = [] then None else Some s)"

definition normalizeEmailReplyMessageId :: "string \<Rightarrow> string option" where
  "normalizeEmailReplyMessageId m =
     (let trimmed = js_trim (join_lines m)
      in if trimmed = [] then None else some_text (js_trim (or_default trimmed (bracketed trimmed))))"

definition getEmailReplyReferenceKey :: "string \<Rightarrow> string \<Rightarrow> string" where
  "getEmailReplyReferenceKey workspace m =
     ''email_reply_ref:'' @ key_part ''workspace'' workspace @ '':'' @
     key_part ''message'' (or_default m (normalizeEmailReplyMessageId m))"

definition getEmailThreadReferencesKey :: "string \<Rightarrow> string \<Rightarrow> string" where
  "getEmailThreadReferencesKey workspace thread =
     ''email_thread_refs:'' @ key_part ''workspace'' workspace @ '':'' @ key_part ''thread'' thread"

text \<open>The loop with its \<open>seen\<close> set and \<open>result\<close>, and \<open>result.slice(-20)\<close>.\<close>

fun distinct_ids :: "string option list \<Rightarrow> string list \<Rightarrow> string list \<Rightarrow> string list" where
  "distinct_ids [] seen ids = ids"
| "distinct_ids (v # vs) seen ids =
     (case v of None \<Rightarrow> distinct_ids vs seen ids
      | Some m \<Rightarrow> (case normalizeEmailReplyMessageId m of
            None \<Rightarrow> distinct_ids vs seen ids
          | Some i \<Rightarrow> if js_lower i \<in> set seen then distinct_ids vs seen ids
              else distinct_ids vs (js_lower i # seen) (ids @ [i])))"

definition last_n :: "nat \<Rightarrow> 'a list \<Rightarrow> 'a list" where
  "last_n n xs = drop (length xs - n) xs"

definition appendEmailThreadReferenceIds :: "string option list \<Rightarrow> string option list \<Rightarrow> string list" where
  "appendEmailThreadReferenceIds existing nextIds =
     last_n EMAIL_THREAD_REFERENCE_LIMIT (distinct_ids (existing @ nextIds) [] [])"

text \<open>The replacements of \<open>[<>\r\n]+\<close> and \<open>\s+\<close> by nothing, and the trim.\<close>

definition is_header_special :: "char \<Rightarrow> bool" where
  "is_header_special c \<longleftrightarrow> c = CHR ''<'' \<or> c = CHR ''>'' \<or> is_line_break c"

definition formatEmailMessageIdHeader :: "string option \<Rightarrow> string option" where
  "formatEmailMessageIdHeader m =
     (case Option.bind m normalizeEmailReplyMessageId of
        None \<Rightarrow> None
      | Some i \<Rightarrow>
          let safe = js_trim (filter (\<lambda>c. \<not> is_js_space c) (filter (\<lambda>c. \<not> is_header_special c) i))
          in if safe = [] then None else Some (''<'' @ safe @ ''>''))"

text \<open>The length in UTF-8.\<close>

definition emailHeaderValueByteLength :: "string \<Rightarrow> nat" where
  "emailHeaderValueByteLength s = sum_list (map (\<lambda>c. if (of_char c :: nat) < 128 then 1 else 2) s)"

fun trimEmailHeaderValuesByByteLength :: "string list \<Rightarrow> string list" where
  "trimEmailHeaderValuesByByteLength [] = []"
| "trimEmailHeaderValuesByByteLength (v # vs) =
     (if EMAIL_HEADER_VALUE_MAX_BYTES < emailHeaderValueByteLength (join '' '' (v # vs))
      then trimEmailHeaderValuesByByteLength vs else v # vs)"

record reply_headers =
  in_reply_to :: "string option"
  references :: "string option"

definition buildEmailReplyHeaders :: "string option \<Rightarrow> string option list \<Rightarrow> reply_headers option" where
  "buildEmailReplyHeaders inReplyToMessageId referenceMessageIds =
     (let inReplyTo = formatEmailMessageIdHeader inReplyToMessageId;
          refs = List.map_filter (\<lambda>i. formatEmailMessageIdHeader (Some i))
                   (appendEmailThreadReferenceIds referenceMessageIds [inReplyToMessageId]);
          trimmed = trimEmailHeaderValuesByByteLength refs;
          headers = \<lparr>in_reply_to = (case inReplyTo of
                        Some v \<Rightarrow> if emailHeaderValueByteLength v \<le> EMAIL_HEADER_VALUE_MAX_BYTES then Some v else None
                      | None \<Rightarrow> None),
                     references = (if trimmed = [] then None else Some (join '' '' trimmed))\<rparr>
      in if in_reply_to headers = None \<and> references headers = None then None else Some headers)"

subsection \<open>Facts about keys\<close>

text \<open>An id that is stored as it is.\<close>

definition plain_part :: "string \<Rightarrow> bool" where
  "plain_part s \<longleftrightarrow> s \<noteq> [] \<and> length s \<le> MAX_CHANNEL_KEY_PART_LENGTH \<and> list_all is_key_char s"

definition plain_id :: "string \<Rightarrow> bool" where
  "plain_id s \<longleftrightarrow> plain_part s \<and> CHR '':'' \<notin> set s"

lemma key_char_cases:
  assumes "is_key_char c"
  shows "\<not> is_js_space c" "lower_char c = c" "key_char c = c"
proof -
  have n: "97 \<le> (of_char c :: nat) \<and> (of_char c :: nat) \<le> 122 \<or> 48 \<le> (of_char c :: nat) \<and> (of_char c :: nat) \<le> 57 \<or> c \<in> set ''._:@/-''"
    using assms by (simp add: is_key_char_def is_digit_def Let_def)
  then show "\<not> is_js_space c" by (auto simp: is_js_space_def)
  show "lower_char c = c" using n by (auto simp: lower_char_def Let_def)
  show "key_char c = c" using assms by (simp add: key_char_def)
qed

lemma safe_plain: "plain_part s \<Longrightarrow> safeChannelKeyPart s = s"
proof -
  assume p: "plain_part s"
  have k: "list_all is_key_char s" using p by (simp add: plain_part_def)
  then have t: "js_trim s = s" by (intro js_trim_id) (auto simp: list_all_iff key_char_cases)
  have "map key_char (js_lower s) = s" using k by (induction s) (auto simp: js_lower_def key_char_cases)
  with t p show ?thesis by (simp add: safeChannelKeyPart_def plain_part_def)
qed

lemma key_part_plain: "plain_part s \<Longrightarrow> key_part d s = s"
  by (auto simp: key_part_def safe_plain plain_part_def)

lemma colon_split:
  assumes "CHR '':'' \<notin> set a" "CHR '':'' \<notin> set b" "a @ CHR '':'' # s = b @ CHR '':'' # t"
  shows "a = b \<and> s = t"
  using assms
proof (induction a arbitrary: b)
  case Nil then show ?case by (cases b) auto
next
  case (Cons x a) then show ?case by (cases b) auto
qed

lemma plain_idD: "plain_id s \<Longrightarrow> plain_part s" "plain_id s \<Longrightarrow> CHR '':'' \<notin> set s"
  by (simp_all add: plain_id_def)

lemma dedupe_key_plain:
  assumes "plain_id k" "plain_id w" "plain_part m"
  shows "getChannelDedupeKey k w m = ''channel_event:'' @ k @ CHR '':'' # w @ CHR '':'' # m"
  using assms by (simp add: getChannelDedupeKey_def key_part_plain plain_id_def)

lemma dedupe_key_injective:
  assumes "plain_id k" "plain_id k'" "plain_id w" "plain_id w'" "plain_part m" "plain_part m'"
    and "getChannelDedupeKey k w m = getChannelDedupeKey k' w' m'"
  shows "k = k' \<and> w = w' \<and> m = m'"
proof -
  have e: "k @ CHR '':'' # w @ CHR '':'' # m = k' @ CHR '':'' # w' @ CHR '':'' # m'"
    using assms(7) unfolding dedupe_key_plain [OF assms(1,3,5)] dedupe_key_plain [OF assms(2,4,6)] by simp
  then have "k = k'" "w @ CHR '':'' # m = w' @ CHR '':'' # m'"
    using colon_split [OF plain_idD(2) [OF assms(1)] plain_idD(2) [OF assms(2)]] by blast+
  with colon_split [OF plain_idD(2) [OF assms(3)] plain_idD(2) [OF assms(4)]] show ?thesis by blast
qed

lemma thread_key_plain:
  assumes "plain_id (ca_kind a)" "plain_id (ca_workspace a)" "plain_id c" "ca_connection a = Some c" "plain_part (ca_conversation a)"
  shows "getChannelThreadMapKey a =
    ''channel_thread:'' @ ca_kind a @ CHR '':'' # ca_workspace a @ CHR '':'' # c @ CHR '':'' # ca_conversation a"
  using assms by (simp add: getChannelThreadMapKey_def key_part_plain plain_idD(1))

lemma thread_key_injective:
  assumes "plain_id (ca_kind a)" "plain_id (ca_kind b)" "plain_id (ca_workspace a)" "plain_id (ca_workspace b)"
    "plain_id c" "plain_id c'" "ca_connection a = Some c" "ca_connection b = Some c'"
    "plain_part (ca_conversation a)" "plain_part (ca_conversation b)"
    and e: "getChannelThreadMapKey a = getChannelThreadMapKey b"
  shows "ca_kind a = ca_kind b \<and> ca_workspace a = ca_workspace b \<and> ca_connection a = ca_connection b \<and>
    ca_conversation a = ca_conversation b"
proof -
  have e: "ca_kind a @ CHR '':'' # ca_workspace a @ CHR '':'' # c @ CHR '':'' # ca_conversation a =
    ca_kind b @ CHR '':'' # ca_workspace b @ CHR '':'' # c' @ CHR '':'' # ca_conversation b"
    using e unfolding thread_key_plain [OF assms(1,3,5,7,9)] thread_key_plain [OF assms(2,4,6,8,10)] by simp
  note s = colon_split [OF plain_idD(2) plain_idD(2)]
  note 1 = s [OF assms(1,2) e]
  note 2 = s [OF assms(3,4) conjunct2 [OF 1]]
  note 3 = s [OF assms(5,6) conjunct2 [OF 2]]
  show ?thesis using 1 2 3 assms(7,8) by simp
qed

subsection \<open>Facts about mail headers\<close>

text \<open>A value that is one word in angle brackets.\<close>

definition header_id :: "string \<Rightarrow> bool" where
  "header_id v \<longleftrightarrow> 3 \<le> length v \<and> hd v = CHR ''<'' \<and> last v = CHR ''>'' \<and>
     list_all (\<lambda>c. \<not> is_js_space c) v \<and> list_all (\<lambda>c. c \<noteq> CHR ''<'' \<and> c \<noteq> CHR ''>'') (butlast (tl v))"

lemma line_break_space: "is_line_break c \<Longrightarrow> is_js_space c"
  by (auto simp: is_line_break_def is_js_space_def)

lemma header_id_intro:
  assumes "w \<noteq> []" "\<And>c. c \<in> set w \<Longrightarrow> \<not> is_js_space c \<and> c \<noteq> CHR ''<'' \<and> c \<noteq> CHR ''>''"
  shows "header_id (''<'' @ w @ ''>'')"
proof -
  have "\<not> is_js_space CHR ''<''" "\<not> is_js_space CHR ''>''" by (simp_all add: is_js_space_def)
  moreover have "1 \<le> length w" using assms(1) by (cases w) simp_all
  ultimately show ?thesis using assms(2) unfolding header_id_def list_all_iff by (simp add: butlast_append)
qed

lemma format_header_id:
  assumes "formatEmailMessageIdHeader m = Some v"
  shows "header_id v"
proof (cases "Option.bind m normalizeEmailReplyMessageId")
  case None then show ?thesis using assms by (simp add: formatEmailMessageIdHeader_def)
next
  case (Some i)
  define u where "u = filter (\<lambda>c. \<not> is_js_space c) (filter (\<lambda>c. \<not> is_header_special c) i)"
  have v: "v = ''<'' @ js_trim u @ ''>''" "js_trim u \<noteq> []"
    using assms unfolding formatEmailMessageIdHeader_def Some option.case Let_def u_def [symmetric]
    by (simp_all split: if_split_asm)
  show ?thesis unfolding v(1)
  proof (rule header_id_intro [OF v(2)])
    fix c assume "c \<in> set (js_trim u)"
    from subsetD [OF js_trim_subset this] show "\<not> is_js_space c \<and> c \<noteq> CHR ''<'' \<and> c \<noteq> CHR ''>''"
      by (simp add: u_def is_header_special_def)
  qed
qed

lemma header_id_no_break: "header_id v \<Longrightarrow> list_all (\<lambda>c. \<not> is_line_break c) v"
  using line_break_space by (auto simp: header_id_def list_all_iff)

lemma join_no_break: "list_all (list_all (\<lambda>c. \<not> is_line_break c)) vs \<Longrightarrow> list_all (\<lambda>c. \<not> is_line_break c) (join '' '' vs)"
proof -
  assume a: "list_all (list_all (\<lambda>c. \<not> is_line_break c)) vs"
  have "\<not> is_line_break CHR '' ''" by (simp add: is_line_break_def)
  moreover have "c \<in> set '' '' \<or> (\<exists>v \<in> set vs. c \<in> set v)" if "c \<in> set (join '' '' vs)" for c
    using subsetD [OF set_join that] by blast
  ultimately show ?thesis using a unfolding list_all_iff by fastforce
qed

lemma trim_values:
  "\<exists>k. trimEmailHeaderValuesByByteLength vs = drop k vs \<and> emailHeaderValueByteLength (join '' '' (drop k vs)) \<le> EMAIL_HEADER_VALUE_MAX_BYTES \<and>
     (\<forall>j < k. EMAIL_HEADER_VALUE_MAX_BYTES < emailHeaderValueByteLength (join '' '' (drop j vs)))"
proof (induction vs)
  case Nil
  show ?case by (rule exI [of _ 0]) (simp add: emailHeaderValueByteLength_def)
next
  case (Cons v vs)
  show ?case
  proof (cases "EMAIL_HEADER_VALUE_MAX_BYTES < emailHeaderValueByteLength (join '' '' (v # vs))")
    case True
    from Cons.IH obtain k where k: "trimEmailHeaderValuesByByteLength vs = drop k vs"
      "emailHeaderValueByteLength (join '' '' (drop k vs)) \<le> EMAIL_HEADER_VALUE_MAX_BYTES"
      "\<forall>j < k. EMAIL_HEADER_VALUE_MAX_BYTES < emailHeaderValueByteLength (join '' '' (drop j vs))" by blast
    then show ?thesis using True by (intro exI [of _ "Suc k"]) (auto simp: less_Suc_eq_0_disj)
  next
    case False
    then show ?thesis by (intro exI [of _ 0]) simp
  qed
qed

lemma append_ids_limit: "length (appendEmailThreadReferenceIds a b) \<le> EMAIL_THREAD_REFERENCE_LIMIT"
  by (simp add: appendEmailThreadReferenceIds_def last_n_def)

lemma distinct_ids_distinct:
  "distinct (map js_lower ids) \<Longrightarrow> set seen = set (map js_lower ids) \<Longrightarrow> distinct (map js_lower (distinct_ids vs seen ids))"
  by (induction vs seen ids rule: distinct_ids.induct) (auto split: option.splits)

lemma append_ids_distinct: "distinct (map js_lower (appendEmailThreadReferenceIds a b))"
  unfolding appendEmailThreadReferenceIds_def last_n_def drop_map [symmetric]
  by (rule distinct_drop, rule distinct_ids_distinct) simp_all

definition header_refs :: "string option \<Rightarrow> string option list \<Rightarrow> string list" where
  "header_refs m ms = List.map_filter (\<lambda>i. formatEmailMessageIdHeader (Some i)) (appendEmailThreadReferenceIds ms [m])"

lemma header_refs_ids: "list_all header_id (header_refs m ms)"
  using format_header_id by (auto simp: header_refs_def List.map_filter_def list_all_iff)

lemma header_refs_limit: "length (header_refs m ms) \<le> EMAIL_THREAD_REFERENCE_LIMIT"
  using append_ids_limit [of ms "[m]"] le_trans [OF length_filter_le]
  by (simp add: header_refs_def List.map_filter_def)

end
