(* ===== verification/ChannelThreads.thy ===== *)
theory ChannelThreads
  imports MainServices ChannelTexts
begin

section \<open>Channels: conversations and their threads\<close>

text \<open>
  Model of the operations of \<open>src/workers/main/src/channels.ts\<close>: the thread of a conversation with a channel, and
  the start of a turn for a message, with the move of the conversation to a new thread when its old one can
  never run on the agent runtime.
\<close>

text \<open>\<open>s.trim().slice(0, n)\<close>\<close>

definition trimmed_to :: "nat \<Rightarrow> units \<Rightarrow> units" where
  "trimmed_to n s = take n (units_trim s)"

definition or_text :: "'c list \<Rightarrow> 'c list \<Rightarrow> 'c list" where
  "or_text s d = (if s = [] then d else s)"

definition opt_text :: "'c list option \<Rightarrow> 'c list option" where
  "opt_text v = (case v of Some (c # s) \<Rightarrow> Some (c # s) | _ \<Rightarrow> None)"

record thread_input = channel_address +
  ti_title :: units
  ti_created_by :: "string option"
  ti_first_message :: "units option"
  ti_first_remote :: "string option"
  ti_ttl :: "nat option"

record thread_resolution =
  res_thread :: string
  res_title :: units
  res_created :: bool

definition resolveDefaultChannelThreadModel :: "string \<Rightarrow> string \<Rightarrow> string main_io" where
  "resolveDefaultChannelThreadModel org workspace =
     bind_io (ask read_text (Default_model org workspace)) (\<lambda>m.
       case m of Some m \<Rightarrow> Return m | None \<Rightarrow> Throw (Error_thrown ''No models are available''))"

definition creation_of :: "'a thread_input_scheme \<Rightarrow> string \<Rightarrow> thread_creation" where
  "creation_of i model = \<lparr>create_title = or_text (trimmed_to 100 (ti_title i)) (unit_string ''Conversation''),
     create_by = or_text (js_trim (or_default [] (ti_created_by i))) (ca_kind i),
     first_message = opt_text (map_option units_trim (ti_first_message i)), create_model = model, create_kind = ca_kind i,
     create_connection = ca_connection i, create_conversation = ca_conversation i, create_message = ti_first_remote i\<rparr>"

definition create_channel_thread :: "'a thread_input_scheme \<Rightarrow> thread_resolution main_io" where
  "create_channel_thread i =
     bind_io (resolveDefaultChannelThreadModel (ca_org i) (ca_workspace i)) (\<lambda>model.
     bind_io (ask read_created (Create_thread (ca_org i) (ca_workspace i) (creation_of i model))) (\<lambda>(thread, title).
     bind_io (ignoring (perform (Pin_thread (ca_org i) (ca_workspace i) thread))) (\<lambda>_.
     bind_io (perform (Kv_put (getChannelThreadMapKey (channel_address.truncate i)) thread
                (case ti_ttl i of Some 0 \<Rightarrow> None | t \<Rightarrow> t))) (\<lambda>_.
       Return \<lparr>res_thread = thread, res_title = title, res_created = True\<rparr>))))"

definition getOrCreateChannelThread :: "'a thread_input_scheme \<Rightarrow> thread_resolution main_io" where
  "getOrCreateChannelThread i =
     (let mapKey = getChannelThreadMapKey (channel_address.truncate i)
      in bind_io (ask read_text (Kv_get mapKey)) (\<lambda>existing.
         case non_empty_text existing of
           None \<Rightarrow> create_channel_thread i
         | Some t \<Rightarrow>
             bind_io (ask read_thread (Get_thread (ca_org i) t)) (\<lambda>thread.
               case thread of
                 Some th \<Rightarrow> Return \<lparr>res_thread = t,
                   res_title = or_text (thread_title th) (or_text (ti_title i) (unit_string ''Conversation'')), res_created = False\<rparr>
               | None \<Rightarrow> bind_io (perform (Kv_delete mapKey)) (\<lambda>_. create_channel_thread i))))"

subsection \<open>A message\<close>

record enqueue_request =
  er_kind :: string
  er_thread :: string
  er_workspace :: string
  er_org :: string
  er_connection :: string
  er_user :: "string option"
  er_user_name :: string
  er_email :: "string option"
  er_message :: units
  er_client_id :: string

datatype enqueue_result = Enqueue_accepted | Enqueue_busy "string option" | Enqueue_error "string option"

definition channelConnectionOwner :: "string \<Rightarrow> string \<Rightarrow> string option main_io" where
  "channelConnectionOwner workspace connection =
     (if workspace = [] \<or> connection = [] then Return None
      else catch_io (bind_io (ask read_integration (Get_connection workspace connection)) (\<lambda>i.
               Return (opt_text (map_option (\<lambda>i. js_trim (created_by i)) i))))
             (\<lambda>_. Return None))"

definition rehomedThreadKey :: "string \<Rightarrow> string" where
  "rehomedThreadKey thread = ''channel_thread_rehomed:'' @ thread"

definition rehomedThreadId :: "string \<Rightarrow> string \<Rightarrow> string option main_io" where
  "rehomedThreadId org thread =
     bind_io (ask read_text (Kv_get (rehomedThreadKey thread))) (\<lambda>v.
       case non_empty_text v of
         None \<Rightarrow> Return None
       | Some t \<Rightarrow> bind_io (ask read_thread (Get_thread org t)) (\<lambda>th. Return (if th = None then None else Some t)))"

definition EMAIL_REPLY_REFERENCE_TTL_SECONDS :: nat where "EMAIL_REPLY_REFERENCE_TTL_SECONDS = 15552000"

definition rehomed_input :: "enqueue_request \<Rightarrow> string \<Rightarrow> org_thread option \<Rightarrow> thread_input" where
  "rehomed_input r thread old =
     (let kind = or_text (or_default [] (Option.bind old thread_kind)) (er_kind r)
      in \<lparr>ca_kind = kind, ca_workspace = er_workspace r, ca_org = er_org r,
          ca_conversation = or_text (or_default [] (Option.bind old thread_conversation)) (''rehomed:'' @ thread),
          ca_connection = Option.bind old thread_connection,
          ti_title = or_text (or_default [] (map_option thread_title old)) (unit_string ''Conversation''),
          ti_created_by = Some (or_text (or_default [] (map_option thread_created_by old)) kind),
          ti_first_message = None, ti_first_remote = None,
          ti_ttl = (if kind = ''email'' then Some EMAIL_REPLY_REFERENCE_TTL_SECONDS else None)\<rparr>)"

definition rehomeChannelThread :: "enqueue_request \<Rightarrow> string \<Rightarrow> (string \<times> units) main_io" where
  "rehomeChannelThread r thread =
     bind_io (ask read_thread (Get_thread (er_org r) thread)) (\<lambda>old.
       let i = rehomed_input r thread old;
           mapKey = getChannelThreadMapKey (channel_address.truncate i)
       in bind_io (ask read_text (Kv_get mapKey)) (\<lambda>current.
          bind_io (if current = Some thread then perform (Kv_delete mapKey) else Return ()) (\<lambda>_.
          bind_io (getOrCreateChannelThread i) (\<lambda>created.
          bind_io (perform (Kv_put (rehomedThreadKey thread) (res_thread created) None)) (\<lambda>_.
            Return (res_thread created, ti_title i))))))"

definition rehomedThreadNote :: "string \<Rightarrow> units \<Rightarrow> string \<Rightarrow> units" where
  "rehomedThreadNote oldThread oldTitle reason =
     (let why = (if reason = ''too_large'' then ''it was too large''
                 else if reason = ''invalid_history'' then ''its history could not be imported''
                 else ''its model is not available there'')
      in unit_string ''<camelai system message>This conversation continues from the earlier thread '' @ [34] @ oldTitle @ [34] @
         unit_string ('' ('' @ oldThread @ ''), which could not move to camelAI'') @ [39] @
         unit_string (''s new chat engine ('' @ why @ ''). That thread stays readable, read-only, at /chat/'' @ oldThread @
           ''; its history is not in this conversation.</camelai system message>''))"

definition turn_of :: "enqueue_request \<Rightarrow> string \<Rightarrow> units option \<Rightarrow> turn_request" where
  "turn_of r thread note =
     (let system = unit_string (buildChannelReplySystemMessage (er_kind r) (er_email r) True)
      in \<lparr>turn_thread = thread, turn_kind = er_kind r, turn_user = er_user r, turn_user_name = er_user_name r,
          turn_email = er_email r, turn_system = (case note of None \<Rightarrow> system | Some n \<Rightarrow> n @ [LF, LF] @ system),
          turn_message = er_message r, turn_client_id = er_client_id r\<rparr>)"

definition start_turn :: "enqueue_request \<Rightarrow> string \<Rightarrow> units option \<Rightarrow> turn_answer option main_io" where
  "start_turn r thread note =
     (if er_workspace r = [] \<or> er_org r = [] then Return None
      else ask read_turn (Start_runtime_turn (er_org r) (er_workspace r) (turn_of r thread note)))"

fun turn_result :: "turn_answer option \<Rightarrow> enqueue_result" where
  "turn_result None = Enqueue_error (Some ''This conversation could not move to the new chat engine; try again in a moment.'')"
| "turn_result (Some (Turn_unmovable _)) = Enqueue_error (Some ''This conversation could not move to the new chat engine.'')"
| "turn_result (Some Turn_accepted) = Enqueue_accepted"
| "turn_result (Some (Turn_busy m)) = Enqueue_busy m"
| "turn_result (Some (Turn_error m)) = Enqueue_error m"

text \<open>\<open>error.message\<close>; no call of this file is answered by the bridge, whose errors are named by their codes.\<close>

fun failure_text :: "failure \<Rightarrow> string" where
  "failure_text (Bridge_failure code _) = code"
| "failure_text (Error_thrown m) = m"

definition with_owner :: "enqueue_request \<Rightarrow> enqueue_request main_io" where
  "with_owner r =
     (if non_empty_text (er_user r) \<noteq> None then Return r
      else bind_io (channelConnectionOwner (er_workspace r) (er_connection r)) (\<lambda>owner.
             Return (case owner of None \<Rightarrow> r | Some u \<Rightarrow> r\<lparr>er_user := Some u\<rparr>)))"

definition enqueueChannelMessage :: "enqueue_request \<Rightarrow> enqueue_result main_io" where
  "enqueueChannelMessage request =
     bind_io (with_owner request) (\<lambda>r.
       catch_io
         (bind_io (if er_org r = [] then Return None else rehomedThreadId (er_org r) (er_thread r)) (\<lambda>rehomed.
            let thread = or_default (er_thread r) rehomed
            in bind_io (start_turn r thread None) (\<lambda>direct.
              case direct of
                Some (Turn_unmovable reason) \<Rightarrow>
                  bind_io (rehomeChannelThread r thread) (\<lambda>(t, oldTitle).
                  bind_io (start_turn r t (Some (rehomedThreadNote thread oldTitle reason))) (\<lambda>answer.
                    Return (turn_result answer)))
              | _ \<Rightarrow> Return (turn_result direct))))
         (\<lambda>x. Return (Enqueue_error (Some (failure_text x)))))"

end
