(* ===== verification/ChannelSafety.thy ===== *)
theory ChannelSafety
  imports ChannelThreads
begin

section \<open>Channels: one thread per conversation, and mail headers\<close>

text \<open>
  The operations of ChannelThreads in a world in which the key-value namespace and the organization's object
  answer as they are documented: a key has the value that was last put, a thread that was created is found. The
  runtime starts the turns of the threads that can be moved to it.
\<close>

subsection \<open>A world\<close>

record channel_world =
  kv :: "string \<Rightarrow> string option"
  org_threads :: "string \<Rightarrow> org_thread option"
  created_count :: nat
  turns :: "turn_request list"

text \<open>\<open>new_id\<close> gives the ids of new threads; \<open>reason\<close> says why a thread cannot be moved.\<close>

definition new_thread :: "thread_creation \<Rightarrow> org_thread" where
  "new_thread c = \<lparr>thread_title = create_title c, thread_kind = Some (create_kind c), thread_connection = create_connection c,
     thread_conversation = Some (create_conversation c), thread_created_by = create_by c\<rparr>"

definition channel_serve ::
    "(nat \<Rightarrow> string) \<Rightarrow> (string \<Rightarrow> string option) \<Rightarrow> channel_world \<Rightarrow> call \<Rightarrow> answer \<times> channel_world" where
  "channel_serve new_id reason w c =
     (case c of
        Kv_get k \<Rightarrow> (Text_answer (kv w k), w)
      | Kv_put k v ttl \<Rightarrow> (Answered, w\<lparr>kv := (kv w)(k \<mapsto> v)\<rparr>)
      | Kv_delete k \<Rightarrow> (Answered, w\<lparr>kv := (kv w)(k := None)\<rparr>)
      | Get_thread org t \<Rightarrow> (Thread_answer (org_threads w t), w)
      | Create_thread org ws cr \<Rightarrow>
          (Created_answer (new_id (created_count w)) (create_title cr),
           w\<lparr>org_threads := (org_threads w)(new_id (created_count w) \<mapsto> new_thread cr), created_count := Suc (created_count w)\<rparr>)
      | Default_model org ws \<Rightarrow> (Text_answer (Some ''model''), w)
      | Get_connection ws i \<Rightarrow> (Integration_answer None, w)
      | Start_runtime_turn org ws r \<Rightarrow>
          (case reason (turn_thread r) of
             Some x \<Rightarrow> (Turn_answer (Some (Turn_unmovable x)), w)
           | None \<Rightarrow> (Turn_answer (Some Turn_accepted), w\<lparr>turns := turns w @ [r]\<rparr>))
      | _ \<Rightarrow> (Answered, w))"

definition run_channel ::
    "(nat \<Rightarrow> string) \<Rightarrow> (string \<Rightarrow> string option) \<Rightarrow> 'a main_io \<Rightarrow> channel_world \<Rightarrow> (failure, 'a) result \<times> channel_world" where
  "run_channel new_id reason m w =
     (case run_with (channel_serve new_id reason) (Failed not_an_answer) m [] w of (v, w', fs) \<Rightarrow> (v, w'))"

lemma run_simps [simp]:
  "run_channel new_id reason (Return a) w = (Inr a, w)" "run_channel new_id reason (Throw x) w = (Inl x, w)"
  by (simp_all add: run_channel_def)

lemma run_bind:
  "run_channel new_id reason (bind_io m f) w =
     (case run_channel new_id reason m w of (Inl x, w) \<Rightarrow> (Inl x, w) | (Inr a, w) \<Rightarrow> run_channel new_id reason (f a) w)"
  using run_with_no_faults [of "channel_serve new_id reason" "Failed not_an_answer" m w]
  by (auto simp: run_channel_def run_with_bind split: prod.splits sum.splits)

lemma run_catch:
  "run_channel new_id reason (catch_io m h) w =
     (case run_channel new_id reason m w of (Inl x, w) \<Rightarrow> run_channel new_id reason (h x) w | (Inr a, w) \<Rightarrow> (Inr a, w))"
proof -
  have "run_with serve lost (catch_io m h) [] w =
     (case run_with serve lost m [] w of (Inl x, w, fs) \<Rightarrow> run_with serve lost (h x) [] w | (Inr a, w, fs) \<Rightarrow> (Inr a, w, []))" for serve lost
    by (induction m arbitrary: w) auto
  then show ?thesis by (auto simp: run_channel_def split: prod.splits sum.splits)
qed

lemma run_calls [simp]:
  "run_channel new_id reason (ask read_text (Kv_get k)) w = (Inr (kv w k), w)"
  "run_channel new_id reason (perform (Kv_put k v ttl)) w = (Inr (), w\<lparr>kv := (kv w)(k \<mapsto> v)\<rparr>)"
  "run_channel new_id reason (perform (Kv_delete k)) w = (Inr (), w\<lparr>kv := (kv w)(k := None)\<rparr>)"
  "run_channel new_id reason (ask read_thread (Get_thread org t)) w = (Inr (org_threads w t), w)"
  "run_channel new_id reason (ask read_created (Create_thread org ws cr)) w =
     (Inr (new_id (created_count w), create_title cr),
      w\<lparr>org_threads := (org_threads w)(new_id (created_count w) \<mapsto> new_thread cr), created_count := Suc (created_count w)\<rparr>)"
  "run_channel new_id reason (ask read_text (Default_model org ws)) w = (Inr (Some ''model''), w)"
  "run_channel new_id reason (ask read_integration (Get_connection ws i)) w = (Inr None, w)"
  "run_channel new_id reason (perform (Pin_thread org ws t)) w = (Inr (), w)"
  "run_channel new_id reason (ask read_turn (Start_runtime_turn org ws r)) w =
     (case reason (turn_thread r) of
        Some x \<Rightarrow> (Inr (Some (Turn_unmovable x)), w)
      | None \<Rightarrow> (Inr (Some Turn_accepted), w\<lparr>turns := turns w @ [r]\<rparr>))"
  by (auto simp: run_channel_def ask_def perform_def channel_serve_def split: option.split)

subsection \<open>The thread of a conversation\<close>

text \<open>The live thread that a conversation has.\<close>

definition thread_of :: "channel_world \<Rightarrow> string \<Rightarrow> string option" where
  "thread_of w k = (case non_empty_text (kv w k) of None \<Rightarrow> None | Some t \<Rightarrow> if org_threads w t = None then None else Some t)"

definition map_key :: "'a thread_input_scheme \<Rightarrow> string" where
  "map_key i = getChannelThreadMapKey (channel_address.truncate i)"

definition with_new_thread :: "(nat \<Rightarrow> string) \<Rightarrow> 'a thread_input_scheme \<Rightarrow> channel_world \<Rightarrow> channel_world" where
  "with_new_thread new_id i w =
     (let t = new_id (created_count w)
      in w\<lparr>kv := (kv w)(map_key i \<mapsto> t), org_threads := (org_threads w)(t \<mapsto> new_thread (creation_of i ''model'')),
           created_count := Suc (created_count w)\<rparr>)"

lemma run_create:
  "run_channel new_id reason (create_channel_thread i) w =
     (Inr \<lparr>res_thread = new_id (created_count w), res_title = create_title (creation_of i ''model''), res_created = True\<rparr>,
      with_new_thread new_id i w)"
  by (simp add: create_channel_thread_def resolveDefaultChannelThreadModel_def run_bind ignoring_def run_catch with_new_thread_def
      map_key_def Let_def)

lemma run_get_or_create:
  "run_channel new_id reason (getOrCreateChannelThread i) w =
     (case thread_of w (map_key i) of
        Some t \<Rightarrow> (Inr \<lparr>res_thread = t, res_title = or_text (thread_title (the (org_threads w t)))
                       (or_text (ti_title i) (unit_string ''Conversation'')), res_created = False\<rparr>, w)
      | None \<Rightarrow> (Inr \<lparr>res_thread = new_id (created_count w), res_title = create_title (creation_of i ''model''), res_created = True\<rparr>,
                 with_new_thread new_id i w))"
proof -
  have d: "with_new_thread new_id i (w\<lparr>kv := (kv w)(map_key i := None)\<rparr>) = with_new_thread new_id i w"
    by (simp add: with_new_thread_def Let_def)
  show ?thesis
    by (auto simp: getOrCreateChannelThread_def Let_def run_bind thread_of_def map_key_def [symmetric] run_create d split: option.split)
qed

lemma non_empty_some [simp]: "t \<noteq> [] \<Longrightarrow> non_empty_text (Some t) = Some t"
  by (cases t) (simp_all add: non_empty_text_def)

lemma thread_of_new: "new_id (created_count w) \<noteq> [] \<Longrightarrow> thread_of (with_new_thread new_id i w) (map_key i) = Some (new_id (created_count w))"
  by (simp add: thread_of_def with_new_thread_def Let_def)

text \<open>Addresses whose parts are ids, kept as they are in keys.\<close>

definition plain_address :: "'a channel_address_scheme \<Rightarrow> bool" where
  "plain_address a \<longleftrightarrow> plain_id (ca_kind a) \<and> plain_id (ca_workspace a) \<and> plain_part (ca_conversation a) \<and>
     (case ca_connection a of None \<Rightarrow> False | Some c \<Rightarrow> plain_id c)"

definition same_conversation :: "'a channel_address_scheme \<Rightarrow> 'b channel_address_scheme \<Rightarrow> bool" where
  "same_conversation a b \<longleftrightarrow> ca_kind a = ca_kind b \<and> ca_workspace a = ca_workspace b \<and> ca_connection a = ca_connection b \<and>
     ca_conversation a = ca_conversation b"

lemma map_key_conversation:
  assumes "plain_address i" "plain_address j"
  shows "map_key i = map_key j \<longleftrightarrow> same_conversation i j"
proof
  obtain c d where c: "ca_connection i = Some c" "plain_id c" "ca_connection j = Some d" "plain_id d"
    using assms by (auto simp: plain_address_def split: option.splits)
  assume "map_key i = map_key j"
  then show "same_conversation i j"
    using thread_key_injective [of "channel_address.truncate i" "channel_address.truncate j" c d] assms c
    by (simp add: map_key_def plain_address_def same_conversation_def channel_address.defs)
next
  assume "same_conversation i j"
  then show "map_key i = map_key j"
    by (simp add: map_key_def same_conversation_def getChannelThreadMapKey_def channel_address.defs)
qed

lemma keeps_thread:
  assumes new: "new_id (created_count w) \<noteq> []" "new_id (created_count w) \<notin> ran (kv w)"
    and run: "run_channel new_id reason (getOrCreateChannelThread i) w = (Inr r, w')"
  shows "thread_of w' (map_key i) = Some (res_thread r)" "\<And>k. k \<noteq> map_key i \<Longrightarrow> thread_of w' k = thread_of w k"
proof -
  have o: "thread_of (with_new_thread new_id i w) k = thread_of w k" if "k \<noteq> map_key i" for k
  proof (cases "non_empty_text (kv w k)")
    case None then show ?thesis using that by (simp add: thread_of_def with_new_thread_def Let_def)
  next
    case (Some t)
    then have "kv w k = Some t" by (auto simp: non_empty_text_def split: option.splits list.splits)
    then have "t \<noteq> new_id (created_count w)" using new(2) by (auto intro: ranI)
    then show ?thesis using that Some by (simp add: thread_of_def with_new_thread_def Let_def)
  qed
  show "thread_of w' (map_key i) = Some (res_thread r)"
    using run thread_of_new [of new_id w i, OF new(1)] by (auto simp: run_get_or_create split: option.splits)
  show "thread_of w' k = thread_of w k" if "k \<noteq> map_key i" for k
    using run o [OF that] by (auto simp: run_get_or_create split: option.splits)
qed


subsection \<open>A conversation that leaves its thread\<close>

lemma turn_of_thread [simp]: "turn_thread (turn_of r t note) = t"
  by (simp add: turn_of_def Let_def)

lemma run_owner: "run_channel new_id reason (with_owner r) w = (Inr r, w)"
  by (auto simp: with_owner_def channelConnectionOwner_def run_bind run_catch opt_text_def split: option.split)

lemma run_rehomed: "run_channel new_id reason (rehomedThreadId org t) w = (Inr (thread_of w (rehomedThreadKey t)), w)"
  by (auto simp: rehomedThreadId_def run_bind thread_of_def split: option.split)

lemma run_turn:
  "er_workspace r \<noteq> [] \<Longrightarrow> er_org r \<noteq> [] \<Longrightarrow> run_channel new_id reason (start_turn r t note) w =
     (case reason t of
        Some x \<Rightarrow> (Inr (Some (Turn_unmovable x)), w)
      | None \<Rightarrow> (Inr (Some Turn_accepted), w\<lparr>turns := turns w @ [turn_of r t note]\<rparr>))"
  by (simp add: start_turn_def split: option.split)

lemma map_key_not_rehomed [simp]: "map_key i \<noteq> rehomedThreadKey t" "rehomedThreadKey t \<noteq> map_key i"
  by (simp_all add: map_key_def getChannelThreadMapKey_def rehomedThreadKey_def)

text \<open>The world in which the conversation has moved from a thread to a new one.\<close>

definition moved :: "(nat \<Rightarrow> string) \<Rightarrow> enqueue_request \<Rightarrow> string \<Rightarrow> channel_world \<Rightarrow> channel_world" where
  "moved new_id r t w =
     (let w1 = with_new_thread new_id (rehomed_input r t (org_threads w t)) w
      in w1\<lparr>kv := (kv w1)(rehomedThreadKey t \<mapsto> new_id (created_count w))\<rparr>)"

lemma run_rehome:
  assumes "kv w (map_key (rehomed_input r t (org_threads w t))) = Some t"
  shows "run_channel new_id reason (rehomeChannelThread r t) w =
    (Inr (new_id (created_count w), ti_title (rehomed_input r t (org_threads w t))), moved new_id r t w)"
  using assms
  by (simp add: rehomeChannelThread_def run_bind Let_def map_key_def [symmetric] run_get_or_create thread_of_def
      with_new_thread_def moved_def non_empty_text_def)

lemma moved_thread:
  assumes "new_id (created_count w) \<noteq> []"
  shows "thread_of (moved new_id r t w) (rehomedThreadKey t) = Some (new_id (created_count w))"
    "thread_of (moved new_id r t w) (map_key (rehomed_input r t (org_threads w t))) = Some (new_id (created_count w))"
  using assms by (simp_all add: thread_of_def moved_def with_new_thread_def Let_def)

lemma enqueue_direct:
  assumes "er_workspace r \<noteq> []" "er_org r \<noteq> []" "thread_of w (rehomedThreadKey (er_thread r)) = Some t" "reason t = None"
  shows "run_channel new_id reason (enqueueChannelMessage r) w = (Inr Enqueue_accepted, w\<lparr>turns := turns w @ [turn_of r t None]\<rparr>)"
  using assms by (simp add: enqueueChannelMessage_def run_bind run_catch run_owner run_rehomed run_turn Let_def)

lemma enqueue_moves:
  assumes "er_workspace r \<noteq> []" "er_org r \<noteq> []" "thread_of w (rehomedThreadKey (er_thread r)) = None"
    "reason (er_thread r) = Some why" "kv w (map_key (rehomed_input r (er_thread r) (org_threads w (er_thread r)))) = Some (er_thread r)"
    "reason (new_id (created_count w)) = None"
  shows "run_channel new_id reason (enqueueChannelMessage r) w = (Inr Enqueue_accepted,
    (moved new_id r (er_thread r) w)\<lparr>turns := turns w @ [turn_of r (new_id (created_count w)) (Some (rehomedThreadNote (er_thread r)
        (ti_title (rehomed_input r (er_thread r) (org_threads w (er_thread r)))) why))]\<rparr>)"
proof -
  have "turns (moved new_id r (er_thread r) w) = turns w" by (simp add: moved_def with_new_thread_def Let_def)
  then show ?thesis
    using assms by (simp add: enqueueChannelMessage_def run_bind run_catch run_owner run_rehomed run_turn run_rehome Let_def)
qed

lemma thread_of_turns [simp]: "thread_of (w\<lparr>turns := ts\<rparr>) k = thread_of w k"
  by (simp add: thread_of_def split: option.split)


text \<open>A Slack conversation whose thread is too large.\<close>

definition large_thread :: org_thread where
  "large_thread = \<lparr>thread_title = unit_string ''T'', thread_kind = Some ''slack'', thread_connection = Some ''i'',
     thread_conversation = Some ''c'', thread_created_by = ''u''\<rparr>"

definition large_request :: enqueue_request where
  "large_request = \<lparr>er_kind = ''slack'', er_thread = ''old'', er_workspace = ''w'', er_org = ''o'', er_connection = ''i'', er_user = None,
     er_user_name = ''n'', er_email = None, er_message = unit_string ''hi'', er_client_id = ''m''\<rparr>"

definition large_world :: channel_world where
  "large_world = \<lparr>kv = [''channel_thread:slack:w:i:c'' \<mapsto> ''old''], org_threads = [''old'' \<mapsto> large_thread], created_count = 0, turns = []\<rparr>"

definition next_id :: "nat \<Rightarrow> string" where "next_id n = ''new'' @ show_nat n"

definition too_large :: "string \<Rightarrow> string option" where
  "too_large t = (if t = ''old'' then Some ''too_large'' else None)"

lemma large_facts:
  "kv large_world (map_key (rehomed_input large_request ''old'' (org_threads large_world ''old''))) = Some ''old''"
  "thread_of large_world (rehomedThreadKey ''old'') = None" "next_id 0 = ''new0''"
  by code_simp+


definition large_input :: thread_input where
  "large_input = rehomed_input large_request ''old'' (Some large_thread)"


subsection \<open>Mail headers\<close>

definition header_text_ok :: "string option \<Rightarrow> bool" where
  "header_text_ok v = (case v of None \<Rightarrow> True
     | Some s \<Rightarrow> emailHeaderValueByteLength s \<le> EMAIL_HEADER_VALUE_MAX_BYTES \<and> list_all (\<lambda>c. \<not> is_line_break c) s)"


end
