(* ===== verification/DiscordConsumer.thy ===== *)
theory DiscordConsumer
  imports ChannelThreads DiscordText
begin

section \<open>The consumer of the Discord events\<close>

text \<open>
  Model of \<open>src/workers/main/src/discord-events-queue.ts\<close>: how a message of the queue is claimed, its text and
  its attachments are prepared, a turn is started for it, and the delivery is ended. The functions of the platform
  are in the record \<open>platform\<close>: \<open>JSON.parse\<close>, \<open>new URL\<close>, the normalization \<open>NFKC\<close>, and whether a code point
  is a letter or a number.
\<close>

record url =
  url_protocol :: string
  url_hostname :: string
  url_pathname :: string
  url_href :: string

record platform =
  parse_json :: "string \<Rightarrow> json option"
  parse_url :: "string \<Rightarrow> url option"
  nfkc :: "units \<Rightarrow> units"
  letter_or_number :: "units \<Rightarrow> bool"

definition MAX_DISCORD_ATTACHMENT_BYTES :: rat where "MAX_DISCORD_ATTACHMENT_BYTES = 26214400"
definition DISCORD_DEDUPE_TTL_SECONDS :: nat where "DISCORD_DEDUPE_TTL_SECONDS = 86400"
definition DISCORD_BUSY_RETRY_SECONDS :: int where "DISCORD_BUSY_RETRY_SECONDS = 30"
definition DISCORD_WAIT_RETRY_SECONDS :: int where "DISCORD_WAIT_RETRY_SECONDS = 2"

subsection \<open>File names and addresses\<close>

definition UNDERSCORE :: int where "UNDERSCORE = 95"

definition unsafe_unit :: "int \<Rightarrow> bool" where
  "unsafe_unit c \<longleftrightarrow> c = CR \<or> c = LF \<or> c = 34 \<or> c = 47 \<or> c = 92"

text \<open>\<open>/[^\p{L}\p{N}._-]/gu\<close> reads code points.\<close>

definition kept_point :: "platform \<Rightarrow> units \<Rightarrow> bool" where
  "kept_point p c \<longleftrightarrow> letter_or_number p c \<or> c = [46] \<or> c = [UNDERSCORE] \<or> c = [45]"

definition safeDiscordFilename :: "platform \<Rightarrow> units \<Rightarrow> units" where
  "safeDiscordFilename p value =
     (let s = map (\<lambda>c. if unsafe_unit c then UNDERSCORE else c) (nfkc p value);
          s = take 140 (concat (map (\<lambda>c. if kept_point p c then c else [UNDERSCORE]) (code_points s)))
      in or_text s (unit_string ''attachment''))"

definition deterministicDiscordFilename :: "platform \<Rightarrow> delivery_message \<Rightarrow> attachment \<Rightarrow> units" where
  "deterministicDiscordFilename p m a =
     take 200 (unit_string (''discord-'' @ discordMessageId m @ ''-'' @ attachment_id a @ ''-'') @
       safeDiscordFilename p (unit_string (attachment_filename a)))"

definition validDiscordAttachmentUrl :: "platform \<Rightarrow> string \<Rightarrow> url option" where
  "validDiscordAttachmentUrl p value =
     (case parse_url p value of
        None \<Rightarrow> None
      | Some u \<Rightarrow> if url_protocol u \<noteq> ''https:'' then None
          else if url_hostname u \<noteq> ''cdn.discordapp.com'' then None
          else if take 13 (url_pathname u) \<noteq> ''/attachments/'' then None else Some u)"

definition contentLength :: "http_response \<Rightarrow> rat option" where
  "contentLength r = (case http_length r of Some n \<Rightarrow> if 0 \<le> n then Some n else None | None \<Rightarrow> None)"

text \<open>The loop of \<open>readResponseBodyAtMost\<close> with its \<open>chunks\<close>.\<close>

fun read_chunks :: "bytes option list \<Rightarrow> failure option \<Rightarrow> rat \<Rightarrow> bytes \<Rightarrow> (failure, bytes option) result" where
  "read_chunks [] broken maximum read = (case broken of None \<Rightarrow> Inr (Some read) | Some x \<Rightarrow> Inl x)"
| "read_chunks (None # cs) broken maximum read = read_chunks cs broken maximum read"
| "read_chunks (Some b # cs) broken maximum read =
     (if maximum < of_nat (length read + length b) then Inr None else read_chunks cs broken maximum (read @ b))"

fun readResponseBodyAtMost :: "body \<Rightarrow> rat \<Rightarrow> (failure, bytes option) result" where
  "readResponseBodyAtMost (Whole b) maximum =
     bind_result b (\<lambda>b. Inr (if of_nat (length b) \<le> maximum then Some b else None))"
| "readResponseBodyAtMost (Stream cs broken) maximum = read_chunks cs broken maximum []"

definition getWorkspaceR2Prefix :: "string \<Rightarrow> string \<Rightarrow> string" where
  "getWorkspaceR2Prefix org workspace = org @ ''/'' @ workspace"

definition normalizeRelativePath :: "units \<Rightarrow> units" where
  "normalizeRelativePath path = dropWhile (\<lambda>c. c = 47) path"

definition buildWorkspaceScopedR2Key :: "string \<Rightarrow> string \<Rightarrow> units \<Rightarrow> units" where
  "buildWorkspaceScopedR2Key org workspace path =
     unit_string (getWorkspaceR2Prefix org workspace @ ''/'') @ normalizeRelativePath path"

subsection \<open>Attachments\<close>

datatype skip_reason = Too_large_together | Invalid_url | Too_large | Not_downloaded | Empty_file

fun skip_text :: "skip_reason \<Rightarrow> string" where
  "skip_text Too_large_together = '' was skipped because Discord attachments are limited to 25 MiB per message.''"
| "skip_text Invalid_url = '' was skipped because its Discord download URL was invalid.''"
| "skip_text Too_large = '' was skipped because it exceeded the 25 MiB limit.''"
| "skip_text Not_downloaded = '' could not be downloaded from Discord.''"
| "skip_text Empty_file = '' was skipped because Discord returned an empty file.''"

text \<open>\<open>uploadPaths\<close>, \<open>skipped\<close> and \<open>aggregateBytes\<close>.\<close>

record ingested =
  upload_paths :: "units list"
  skipped :: "units list"
  aggregate_bytes :: rat

definition skip_it :: "platform \<Rightarrow> attachment \<Rightarrow> skip_reason \<Rightarrow> ingested \<Rightarrow> ingested main_io" where
  "skip_it p a reason s =
     Return (s\<lparr>skipped := skipped s @ [safeDiscordFilename p (unit_string (attachment_filename a)) @ unit_string (skip_text reason)]\<rparr>)"

definition keep_it :: "platform \<Rightarrow> delivery_message \<Rightarrow> attachment \<Rightarrow> rat \<Rightarrow> ingested \<Rightarrow> ingested" where
  "keep_it p m a n s = s\<lparr>aggregate_bytes := aggregate_bytes s + n,
     upload_paths := upload_paths s @ [unit_string ''uploads/'' @ deterministicDiscordFilename p m a]\<rparr>"

definition over_limit :: "rat \<Rightarrow> ingested \<Rightarrow> bool" where
  "over_limit n s \<longleftrightarrow> MAX_DISCORD_ATTACHMENT_BYTES < n \<or> MAX_DISCORD_ATTACHMENT_BYTES < aggregate_bytes s + n"

definition attachment_key :: "platform \<Rightarrow> delivery_message \<Rightarrow> attachment \<Rightarrow> units" where
  "attachment_key p m a =
     buildWorkspaceScopedR2Key (orgId m) (workspaceId m) (unit_string ''user-uploads/'' @ deterministicDiscordFilename p m a)"

text \<open>The response and its body.\<close>

definition ingest_response :: "platform \<Rightarrow> delivery_message \<Rightarrow> attachment \<Rightarrow> ingested \<Rightarrow> http_response \<Rightarrow> ingested main_io" where
  "ingest_response p m a s r =
     (if http_status r = 429 \<or> 500 \<le> http_status r then Throw (Error_thrown (''Discord attachment download failed with status '' @ show_nat (nat (http_status r))))
      else if \<not> (200 \<le> http_status r \<and> http_status r \<le> 299) then skip_it p a Not_downloaded s
      else if (case contentLength r of None \<Rightarrow> False | Some n \<Rightarrow> over_limit n s) then skip_it p a Too_large s
      else bind_io (lift_io (readResponseBodyAtMost (http_body r) (MAX_DISCORD_ATTACHMENT_BYTES - aggregate_bytes s))) (\<lambda>b.
        case b of
          None \<Rightarrow> skip_it p a Too_large s
        | Some b \<Rightarrow>
            if b = [] then skip_it p a Empty_file s
            else if over_limit (of_nat (length b)) s then skip_it p a Too_large s
            else
              let ctype = or_text (or_default [] (attachment_type a))
                            (or_text (or_default [] (http_type r)) ''application/octet-stream'')
              in bind_io (perform (R2_put (attachment_key p m a) b ctype
                     (safeDiscordFilename p (unit_string (attachment_filename a))) (attachment_id a))) (\<lambda>_.
                   Return (keep_it p m a (of_nat (length b)) s))))"

definition ingest_attachment :: "platform \<Rightarrow> delivery_message \<Rightarrow> attachment \<Rightarrow> ingested \<Rightarrow> ingested main_io" where
  "ingest_attachment p m a s =
     (if over_limit (attachment_size a) s then skip_it p a Too_large_together s
      else (case validDiscordAttachmentUrl p (attachment_url a) of
          None \<Rightarrow> skip_it p a Invalid_url s
        | Some u \<Rightarrow>
            bind_io (ask read_size (R2_head (attachment_key p m a))) (\<lambda>existing.
              case existing of
                Some n \<Rightarrow>
                  let kept = (if n = 0 then attachment_size a else of_nat n)
                  in if over_limit kept s then skip_it p a Too_large s else Return (keep_it p m a kept s)
              | None \<Rightarrow> bind_io (ask read_http (Http_get (url_href u))) (ingest_response p m a s))))"

definition ingestDiscordAttachments :: "platform \<Rightarrow> delivery_message \<Rightarrow> ingested main_io" where
  "ingestDiscordAttachments p m =
     fold_io (ingest_attachment p m) (message_attachments m) \<lparr>upload_paths = [], skipped = [], aggregate_bytes = 0\<rparr>"

subsection \<open>Texts\<close>

text \<open>
  What a replacement text of \<open>String.prototype.replace\<close> stands for when the pattern has no groups: \<open>$$\<close> is a
  dollar, \<open>$&\<close> the match, \<open>$`\<close> what is before it and \<open>$'\<close> what is after it.
\<close>

definition DOLLAR :: int where "DOLLAR = 36"

fun js_substitution :: "units \<Rightarrow> units \<Rightarrow> units \<Rightarrow> units \<Rightarrow> units" where
  "js_substitution matched preceding following (d # c # r) =
     (if d \<noteq> DOLLAR then d # js_substitution matched preceding following (c # r)
      else if c = DOLLAR then DOLLAR # js_substitution matched preceding following r
      else if c = 38 then matched @ js_substitution matched preceding following r
      else if c = BACKTICK then preceding @ js_substitution matched preceding following r
      else if c = 39 then following @ js_substitution matched preceding following r
      else DOLLAR # js_substitution matched preceding following (c # r))"
| "js_substitution matched preceding following [d] = [d]"
| "js_substitution matched preceding following [] = []"

text \<open>
  \<open>s.replace(new RegExp("<@!?id>", "g"), replacement)\<close>, for an id without special characters of patterns, as
  Discord's ids are: \<open>preceding\<close> is what has been read.
\<close>

definition mention_at :: "string \<Rightarrow> units \<Rightarrow> units option" where
  "mention_at i s = find (\<lambda>t. take (length t) s = t) [unit_string (''<@'' @ i @ ''>''), unit_string (''<@!'' @ i @ ''>'')]"

lemma find_Some_in: "find P xs = Some x \<Longrightarrow> x \<in> set xs \<and> P x"
  by (induction xs) (auto split: if_splits)

function replace_mention :: "string \<Rightarrow> units \<Rightarrow> units \<Rightarrow> units \<Rightarrow> units" where
  "replace_mention i replacement preceding s =
     (case mention_at i s of
        Some t \<Rightarrow> js_substitution t preceding (drop (length t) s) replacement @
                  replace_mention i replacement (preceding @ t) (drop (length t) s)
      | None \<Rightarrow> (case s of [] \<Rightarrow> [] | c # r \<Rightarrow> c # replace_mention i replacement (preceding @ [c]) r))"
  by pat_completeness auto
termination
proof (relation "measure (\<lambda>(i, r, b, s). length s)")
  fix i :: string and replacement preceding s t :: units
  assume "mention_at i s = Some t"
  then have "t \<in> {unit_string (''<@'' @ i @ ''>''), unit_string (''<@!'' @ i @ ''>'')}" "take (length t) s = t"
    unfolding mention_at_def using find_Some_in by fastforce+
  then have "take (length t) s = t" "t \<noteq> []" by (auto simp: unit_string_def)
  then have "s \<noteq> []" "0 < length t" by auto
  then show "((i, replacement, preceding @ t, drop (length t) s), i, replacement, preceding, s) \<in> measure (\<lambda>(i, r, b, s). length s)" by simp
qed auto

declare replace_mention.simps [simp del]

text \<open>\<open>s.replace(/[ \t]+\n/g, "\n")\<close>\<close>

definition is_blank :: "int \<Rightarrow> bool" where "is_blank c \<longleftrightarrow> c = SPACE \<or> c = 9"

fun strip_line_ends :: "units \<Rightarrow> units" where
  "strip_line_ends [] = []"
| "strip_line_ends (c # s) =
     (if is_blank c \<and> take 1 (dropWhile is_blank s) = [LF] then strip_line_ends s else c # strip_line_ends s)"

definition mention_display :: "mention \<Rightarrow> string" where
  "mention_display m = or_text (or_default [] (mention_global m)) (or_text (or_default [] (mention_username m)) ''Discord user'')"

definition normalizeDiscordMessage :: "delivery_message \<Rightarrow> string option \<Rightarrow> units" where
  "normalizeDiscordMessage m botUserId =
     (let s = (case non_empty_text botUserId of None \<Rightarrow> content m | Some b \<Rightarrow> replace_mention b [] [] (content m));
          s = foldl (\<lambda>s u. if Some (mention_id u) = botUserId then s
                       else replace_mention (mention_id u) (unit_string (''@'' @ mention_display u)) [] s) s (message_mentions m)
      in units_trim (strip_line_ends s))"

definition discordAuthorName :: "delivery_message \<Rightarrow> string" where
  "discordAuthorName m =
     (let a = message_author m
      in or_text (or_default [] (author_nick a)) (or_text (or_default [] (author_global a))
           (or_text (or_default [] (author_username a)) (''Discord user '' @ last_n 4 (author_id a)))))"

definition appendDiscordAttachmentNotes :: "units \<Rightarrow> units list \<Rightarrow> units list \<Rightarrow> units" where
  "appendDiscordAttachmentNotes s paths notes =
     join [LF, LF] (filter (\<lambda>t. t \<noteq> [])
       [units_trim s,
        join [LF] (map (\<lambda>path. unit_string ''(user uploaded file to '' @ path @ unit_string '')'') paths),
        join [LF] (map (\<lambda>note. unit_string ''(Discord attachment note: '' @ note @ unit_string '')'') notes)])"

definition discordThreadTitle :: "units \<Rightarrow> units" where
  "discordThreadTitle value =
     concat (take 100 (code_points (or_text (units_trim (collapse_units value)) (unit_string ''Camel request''))))"

text \<open>
  A display name without a dollar stands in the text as it is; with one it may bring the rest of the message
  with it a second time.
\<close>

lemma substitution_plain: "DOLLAR \<notin> set r \<Longrightarrow> js_substitution matched preceding following r = r"
  by (induction matched preceding following r rule: js_substitution.induct) auto

lemma substitution_repeats_message:
  "replace_mention ''5'' (unit_string ''@'' @ [DOLLAR, 39]) [] (unit_string ''ask <@5> now'') = unit_string ''ask @ now now''"
  by code_simp

subsection \<open>The integration\<close>

definition channel_statuses :: "string list" where
  "channel_statuses = [''pending_channel'', ''active'', ''disconnected'', ''setup_error'']"

definition named_text :: "string \<Rightarrow> json \<Rightarrow> bool" where
  "named_text k j = (case json_get k j of Some (JStr s) \<Rightarrow> js_trim s \<noteq> [] | _ \<Rightarrow> False)"

definition content_mode_given :: "json \<Rightarrow> bool" where
  "content_mode_given j = (json_get ''message_content_mode'' j \<in> {Some (JStr ''full''), Some (JStr ''mention_only'')})"

text \<open>\<open>parseDiscordChannelConfig\<close> of \<open>discord-types.ts\<close>.\<close>

definition valid_channel_config :: "json \<Rightarrow> bool" where
  "valid_channel_config j \<longleftrightarrow>
     json_get ''schema_version'' j = Some (JNum 1) \<and> named_text ''guild_id'' j \<and> named_text ''guild_name'' j \<and>
     named_text ''application_id'' j \<and>
     (case json_get ''status'' j of Some (JStr s) \<Rightarrow> s \<in> set channel_statuses | _ \<Rightarrow> False) \<and>
     content_mode_given j \<and>
     (json_get ''activation_attempt_id'' j = None \<or> named_text ''activation_attempt_id'' j) \<and>
     (case json_get ''pending_reauthorization'' j of
        None \<Rightarrow> True
      | Some r \<Rightarrow> named_text ''activation_attempt_id'' r \<and> named_text ''application_id'' r \<and> named_text ''guild_id'' r \<and>
          named_text ''guild_name'' r \<and> content_mode_given r) \<and>
     (json_get ''status'' j \<noteq> Some (JStr ''active'') \<or>
      named_text ''parent_channel_id'' j \<and>
      (case json_get ''binding_version'' j of Some (JNum n) \<Rightarrow> of_int \<lfloor>n\<rfloor> = n \<and> 1 \<le> n | _ \<Rightarrow> False))"

definition parseDiscordChannelConfig :: "platform \<Rightarrow> string \<Rightarrow> json option" where
  "parseDiscordChannelConfig p value =
     (case parse_json p value of None \<Rightarrow> None | Some j \<Rightarrow> if valid_channel_config j then Some j else None)"

definition bot_user :: "json \<Rightarrow> string option" where
  "bot_user config = json_string (json_get ''bot_user_id'' config)"

subsection \<open>A delivery\<close>

record validated =
  v_config :: json
  v_integration :: integration

fun delivery_org :: "delivery \<Rightarrow> string" where
  "delivery_org (Message m) = orgId m" | "delivery_org (Lifecycle l) = lifecycle_org l"
fun delivery_workspace :: "delivery \<Rightarrow> string" where
  "delivery_workspace (Message m) = workspaceId m" | "delivery_workspace (Lifecycle l) = lifecycle_workspace l"
fun delivery_integration :: "delivery \<Rightarrow> string" where
  "delivery_integration (Message m) = integrationId m" | "delivery_integration (Lifecycle l) = lifecycle_integration l"

definition validateDelivery :: "platform \<Rightarrow> delivery \<Rightarrow> validated option main_io" where
  "validateDelivery p d =
     bind_io (isOrgBanned (parse_json p) (delivery_org d) None) (\<lambda>ban.
       if ban \<noteq> None then Return None
       else
         bind_io (ask read_workspace (Get_workspace_record (delivery_org d) (delivery_workspace d))) (\<lambda>workspace.
         bind_io (ask read_integration (Get_workspace_integration (delivery_org d) (delivery_workspace d) (delivery_integration d))) (\<lambda>i.
           Return (case (workspace, i) of
               (Some archived, Some i) \<Rightarrow>
                 if archived \<or> integration_type i \<noteq> ''discord_channel'' then None
                 else map_option (\<lambda>c. \<lparr>v_config = c, v_integration = i\<rparr>)
                   (parseDiscordChannelConfig p (or_text (integration_config i) ''{}''))
             | _ \<Rightarrow> None))))"

fun failure_code :: "failure \<Rightarrow> string" where
  "failure_code (Bridge_failure code _) = code"
| "failure_code (Error_thrown m) = []"

definition handlePermanentStarterThreadFailure :: "delivery_message \<Rightarrow> validated \<Rightarrow> string \<Rightarrow> unit main_io" where
  "handlePermanentStarterThreadFailure m v code =
     bind_io (ignoring (perform (Send_failure_notice (integrationId m) (parentChannelId m) (discordMessageId m) code
                (''discord-starter-failure:'' @ discordMessageId m)))) (\<lambda>_.
       ignoring (perform (Update_verification (orgId m) (workspaceId m) (integrationId m) ''degraded''
         (if code = ''active_thread_limit''
          then ''Discord has too many active threads; archive an older thread and try again.''
          else ''Discord cannot create conversation threads with the current channel permissions.'')
         (v_integration v))))"

fun lifecycle_name :: "lifecycle_type \<Rightarrow> string" where
  "lifecycle_name Guild_removed = ''guild_removed''"
| "lifecycle_name Parent_channel_deleted = ''parent_channel_deleted''"

text \<open>\<open>now\<close> is the time that is stored with the configuration; \<open>JSON.stringify\<close> leaves out what is undefined.\<close>

definition disconnected_config :: "int \<Rightarrow> delivery_lifecycle \<Rightarrow> json \<Rightarrow> json" where
  "disconnected_config now l config =
     json_set ''last_verified_at'' (JNum (of_int now)) (json_set ''error_code'' (JStr (lifecycle_name (lifecycleType l)))
       (json_delete ''binding_version'' (json_delete ''parent_channel_name'' (json_delete ''parent_channel_id''
         (json_set ''status'' (JStr ''disconnected'') config)))))"

definition handleLifecycleDelivery :: "int \<Rightarrow> delivery_lifecycle \<Rightarrow> validated \<Rightarrow> unit main_io" where
  "handleLifecycleDelivery now l v =
     bind_io (ask read_integration (Get_workspace_integration (lifecycle_org l) (lifecycle_workspace l) (lifecycle_integration l))) (\<lambda>i.
       case i of
         None \<Rightarrow> Return ()
       | Some i \<Rightarrow>
           bind_io (perform (Release_binding (lifecycle_integration l) (lifecycle_version l))) (\<lambda>_.
             perform (Update_integration (lifecycle_org l) (lifecycle_workspace l) (lifecycle_integration l)
               (disconnected_config now l (v_config v)) (created_by i))))"

datatype processed = Processed_accepted | Processed_retry | Processed_completed

definition permanent_starter_codes :: "string list" where
  "permanent_starter_codes = [''active_thread_limit'', ''missing_permissions'', ''unknown_channel'', ''bot_removed'', ''invalid_request'']"

definition retryable_codes :: "string list" where
  "retryable_codes = [''rate_limited'', ''provider_unavailable'']"

definition is_bridge_failure :: "failure \<Rightarrow> bool" where
  "is_bridge_failure x = (case x of Bridge_failure _ _ \<Rightarrow> True | _ \<Rightarrow> False)"

definition finish_as :: "string \<Rightarrow> string \<Rightarrow> finish_action \<Rightarrow> processed \<Rightarrow> processed main_io" where
  "finish_as e token action result = bind_io (perform (Finish_delivery e token action)) (\<lambda>_. Return result)"

text \<open>The marker that the message has been handled, and the end of the delivery.\<close>

definition done_and_finish :: "string \<Rightarrow> string \<Rightarrow> string \<Rightarrow> processed \<Rightarrow> processed main_io" where
  "done_and_finish dedupeKey e token result =
     bind_io (perform (Kv_put dedupeKey ''done'' (Some DISCORD_DEDUPE_TTL_SECONDS))) (\<lambda>_.
       finish_as e token Finish_complete result)"

definition discord_dedupe_key :: "delivery_message \<Rightarrow> string" where
  "discord_dedupe_key m = getChannelDedupeKey ''discord'' (workspaceId m) (discordMessageId m)"

definition enqueue_delivery ::
    "string \<Rightarrow> string \<Rightarrow> delivery_message \<Rightarrow> units \<Rightarrow> units \<Rightarrow> string \<Rightarrow> processed main_io" where
  "enqueue_delivery e token m normalizedText userMessage threadId =
     bind_io (getOrCreateChannelThread
       \<lparr>ca_kind = ''discord'', ca_workspace = workspaceId m, ca_org = orgId m,
        ca_conversation = guildId m @ '':'' @ threadId, ca_connection = Some (integrationId m),
        ti_title = discordThreadTitle normalizedText, ti_created_by = Some ''discord'',
        ti_first_message = Some userMessage, ti_first_remote = Some (discordMessageId m), ti_ttl = None\<rparr>) (\<lambda>thread.
     bind_io (enqueueChannelMessage
       \<lparr>er_kind = ''discord'', er_thread = res_thread thread, er_workspace = workspaceId m, er_org = orgId m,
        er_connection = integrationId m, er_user = None, er_user_name = discordAuthorName m, er_email = None,
        er_message = userMessage, er_client_id = ''discord:'' @ discordMessageId m\<rparr>) (\<lambda>result.
       case result of
         Enqueue_busy _ \<Rightarrow> bind_io (perform (Kv_delete (discord_dedupe_key m))) (\<lambda>_. finish_as e token Finish_retry Processed_retry)
       | Enqueue_error x \<Rightarrow> Throw (Error_thrown (or_text (or_default [] x) ''Discord channel message was rejected''))
       | Enqueue_accepted \<Rightarrow> done_and_finish (discord_dedupe_key m) e token Processed_accepted))"

text \<open>After the thread is known.\<close>

definition process_in_thread ::
    "platform \<Rightarrow> string \<Rightarrow> string \<Rightarrow> delivery_message \<Rightarrow> units \<Rightarrow> string \<Rightarrow> processed main_io" where
  "process_in_thread p e token m normalizedText threadId =
     bind_io (ingestDiscordAttachments p m) (\<lambda>atts.
       let userMessage = appendDiscordAttachmentNotes normalizedText (upload_paths atts) (skipped atts)
       in if normalizedText = [] \<and> upload_paths atts = []
          then bind_io (perform (Send_discord_message (integrationId m) threadId
                 ''I couldn't use the attached Discord file. Please attach a file under 25 MiB and try again.''
                 (''discord-invalid-attachments:'' @ discordMessageId m))) (\<lambda>_.
               done_and_finish (discord_dedupe_key m) e token Processed_completed)
          else enqueue_delivery e token m normalizedText userMessage threadId)"

text \<open>The thread of the message: a new one for the first message of a conversation. \<open>Inr\<close> ends the delivery.\<close>

definition thread_of_message :: "string \<Rightarrow> string \<Rightarrow> delivery_message \<Rightarrow> validated \<Rightarrow> units \<Rightarrow> (string option + processed) main_io" where
  "thread_of_message e token m v normalizedText =
     (if starter m
      then catch_io
        (bind_io (ask read_text (Start_thread_from_message (integrationId m) (parentChannelId m) (discordMessageId m)
            (discordThreadTitle normalizedText) (''discord-starter:'' @ discordMessageId m))) (\<lambda>t. Return (Inl t)))
        (\<lambda>x. if is_bridge_failure x \<and> failure_code x \<in> set permanent_starter_codes
             then bind_io (handlePermanentStarterThreadFailure m v (failure_code x)) (\<lambda>_.
                  bind_io (done_and_finish (discord_dedupe_key m) e token Processed_completed) (\<lambda>r. Return (Inr r)))
             else Throw x)
      else Return (Inl (message_thread m)))"

definition process_message :: "platform \<Rightarrow> string \<Rightarrow> string \<Rightarrow> delivery_message \<Rightarrow> validated \<Rightarrow> processed main_io" where
  "process_message p e token m v =
     (let normalizedText = normalizeDiscordMessage m (bot_user (v_config v))
      in bind_io (thread_of_message e token m v normalizedText) (\<lambda>t.
         case t of
           Inr r \<Rightarrow> Return r
         | Inl t \<Rightarrow> (case non_empty_text t of
             None \<Rightarrow> Throw (Error_thrown ''Discord thread was not created'')
           | Some threadId \<Rightarrow> process_in_thread p e token m normalizedText threadId)))"

definition give_up_or_retry :: "string \<Rightarrow> string \<Rightarrow> delivery_message \<Rightarrow> failure \<Rightarrow> processed main_io" where
  "give_up_or_retry e token m x =
     bind_io (perform (Kv_delete (discord_dedupe_key m))) (\<lambda>_.
       if is_bridge_failure x \<and> failure_code x \<notin> set retryable_codes
       then finish_as e token Finish_complete Processed_completed
       else bind_io (ignoring (perform (Finish_delivery e token Finish_retry))) (\<lambda>_. Throw x))"

definition processClaimedDelivery :: "platform \<Rightarrow> int \<Rightarrow> string \<Rightarrow> string \<Rightarrow> delivery \<Rightarrow> processed main_io" where
  "processClaimedDelivery p now e token d =
     bind_io (validateDelivery p d) (\<lambda>validated.
       case validated of
         None \<Rightarrow> finish_as e token Finish_complete Processed_completed
       | Some v \<Rightarrow>
           (case d of
              Lifecycle l \<Rightarrow> bind_io (handleLifecycleDelivery now l v) (\<lambda>_. finish_as e token Finish_complete Processed_completed)
            | Message m \<Rightarrow>
                bind_io (ask read_text (Kv_get (discord_dedupe_key m))) (\<lambda>dedupe.
                  if dedupe = Some ''done'' then finish_as e token Finish_complete Processed_completed
                  else
                    bind_io (perform (Kv_put (discord_dedupe_key m) ''processing'' (Some DISCORD_DEDUPE_TTL_SECONDS))) (\<lambda>_.
                      catch_io (process_message p e token m v) (give_up_or_retry e token m)))))"

subsection \<open>The queue\<close>

text \<open>What the queue is told of a message: it is acknowledged, or to be delivered again after a delay.\<close>

datatype decision = Ack | Again "int option"

text \<open>\<open>Math.max(2, Math.ceil((retryAfterMs || 0) / 1000))\<close>\<close>

definition ceil_seconds :: "int \<Rightarrow> int" where "ceil_seconds ms = - ((- ms) div 1000)"

definition wait_seconds :: "int option \<Rightarrow> int" where
  "wait_seconds ms = max DISCORD_WAIT_RETRY_SECONDS (ceil_seconds (or_default 0 ms))"

fun error_delay :: "failure \<Rightarrow> int option" where
  "error_delay (Bridge_failure _ (Some ms)) = (if ms = 0 then None else Some (max 1 (ceil_seconds ms)))"
| "error_delay _ = None"

definition consume_event :: "platform \<Rightarrow> int \<Rightarrow> string \<Rightarrow> decision main_io" where
  "consume_event p now e =
     catch_io
       (bind_io (ask read_claim (Claim_delivery e)) (\<lambda>c.
          case c of
            Ordered_wait \<Rightarrow> Return Ack
          | Lease_wait ms \<Rightarrow> Return (Again (Some (wait_seconds (Some ms))))
          | Claimed token d \<Rightarrow>
              bind_io (processClaimedDelivery p now e token d) (\<lambda>result.
                Return (if result = Processed_retry then Again (Some DISCORD_BUSY_RETRY_SECONDS) else Ack))
          | _ \<Rightarrow> Return Ack))
       (\<lambda>x. Return (Again (error_delay x)))"

text \<open>The body of a queue message as JSON: the event's id when it is valid.\<close>

definition validQueueMessage :: "json option \<Rightarrow> string option" where
  "validQueueMessage body =
     (case body of
        Some j \<Rightarrow>
          if json_get ''version'' j = Some (JNum 1) then non_empty_text (json_string (json_get ''eventId'' j)) else None
      | None \<Rightarrow> None)"

definition handleDiscordEventsQueue :: "platform \<Rightarrow> int \<Rightarrow> json option list \<Rightarrow> decision list main_io" where
  "handleDiscordEventsQueue p now batch =
     fold_io (\<lambda>body ds. bind_io (case validQueueMessage body of None \<Rightarrow> Return Ack | Some e \<Rightarrow> consume_event p now e) (\<lambda>d.
       Return (ds @ [d]))) batch []"

definition consume_dead_letter :: "string \<Rightarrow> decision main_io" where
  "consume_dead_letter e =
     catch_io
       (bind_io (ask read_dead_letter (Dead_letter_delivery e)) (\<lambda>r.
          Return (case r of Dead_letter_wait ms \<Rightarrow> Again (Some (wait_seconds ms)) | Dead_letter_over _ \<Rightarrow> Ack)))
       (\<lambda>_. Return (Again None))"

definition handleDiscordEventsDeadLetterQueue :: "json option list \<Rightarrow> decision list main_io" where
  "handleDiscordEventsDeadLetterQueue batch =
     fold_io (\<lambda>body ds. bind_io (case validQueueMessage body of None \<Rightarrow> Return Ack | Some e \<Rightarrow> consume_dead_letter e) (\<lambda>d.
       Return (ds @ [d]))) batch []"

end
