(* ===== verification/DiscordAttachments.thy ===== *)
theory DiscordAttachments
  imports DiscordConsumer
begin

section \<open>The attachments of a Discord message\<close>

text \<open>
  What \<open>ingestDiscordAttachments\<close> keeps and what it leaves out: the bound on the bytes, that every attachment is
  kept or explained, and that a run after failures ends as one without failures.
\<close>

subsection \<open>The bytes\<close>

definition put_bytes :: "call \<Rightarrow> nat" where
  "put_bytes c = (case c of R2_put k b t n i \<Rightarrow> length b | _ \<Rightarrow> 0)"

definition count_bytes :: "nat \<Rightarrow> call \<Rightarrow> answer \<Rightarrow> nat option" where
  "count_bytes q c r = Some (q + put_bytes c)"

definition bytes_put :: "(call \<times> answer) list \<Rightarrow> nat" where
  "bytes_put es = sum_list (map (\<lambda>(c, r). put_bytes c) es)"

lemma count_run: "run_protocol count_bytes q es = Some (q + bytes_put es)"
  by (induction es arbitrary: q) (auto simp: count_bytes_def bytes_put_def)

definition handled :: "ingested \<Rightarrow> nat" where
  "handled s = length (upload_paths s) + length (skipped s)"

text \<open>The state of the loop after \<open>n\<close> attachments, of which \<open>q\<close> bytes were stored.\<close>

definition ingest_ok :: "nat \<Rightarrow> nat \<Rightarrow> ingested \<Rightarrow> bool" where
  "ingest_ok n q s \<longleftrightarrow> handled s = n \<and> of_nat q \<le> aggregate_bytes s \<and> aggregate_bytes s \<le> MAX_DISCORD_ATTACHMENT_BYTES"

definition ingest_end :: "nat \<Rightarrow> nat \<Rightarrow> (failure, ingested) result \<Rightarrow> bool" where
  "ingest_end n q v = (case v of Inl x \<Rightarrow> of_nat q \<le> MAX_DISCORD_ATTACHMENT_BYTES | Inr s \<Rightarrow> ingest_ok n q s)"

lemma ingest_end_simps [simp]:
  "ingest_end n q (Inl x) = (of_nat q \<le> MAX_DISCORD_ATTACHMENT_BYTES)" "ingest_end n q (Inr s) = ingest_ok n q s"
  by (simp_all add: ingest_end_def)

lemma ok_small: "ingest_ok n q s \<Longrightarrow> of_nat q \<le> MAX_DISCORD_ATTACHMENT_BYTES"
  by (auto simp: ingest_ok_def)

lemma ok_keep:
  "ingest_ok n q s \<Longrightarrow> of_nat k \<le> x \<Longrightarrow> \<not> over_limit x s \<Longrightarrow> ingest_ok (Suc n) (q + k) (keep_it p m a x s)"
  by (auto simp: ingest_ok_def keep_it_def over_limit_def handled_def)

lemma follows_skip: "ingest_ok n q s \<Longrightarrow> follows count_bytes (skip_it p a reason s) (ingest_end (Suc n)) q"
  by (simp add: skip_it_def ingest_ok_def handled_def)

lemma follows_response:
  assumes "ingest_ok n q s"
  shows "follows count_bytes (ingest_response p m a s r) (ingest_end (Suc n)) q"
proof -
  have put: "follows count_bytes (bind_io (perform (R2_put k b t f i)) (\<lambda>_. Return (keep_it p m a (of_nat (length b)) s)))
      (ingest_end (Suc n)) q" if "\<not> over_limit (of_nat (length b)) s" for k b t f i
  proof -
    have "ingest_ok (Suc n) (q + length b) (keep_it p m a (of_nat (length b)) s)" by (rule ok_keep [OF assms order_refl that])
    moreover from this have "of_nat (q + length b) \<le> MAX_DISCORD_ATTACHMENT_BYTES" by (rule ok_small)
    ultimately show ?thesis
      by (auto simp: follows_bind perform_def follows_ask count_bytes_def put_bytes_def split: sum.split answer.split option.split)
  qed
  have skip: "follows count_bytes (skip_it p a reason s) (ingest_end (Suc n)) q" for reason by (rule follows_skip [OF assms])
  show ?thesis unfolding ingest_response_def
    by (auto simp: follows_bind Let_def ok_small [OF assms] skip put [unfolded follows_bind follows.simps ingest_end_simps]
        split: sum.split option.split)
qed

lemma follows_attachment:
  assumes "ingest_ok n q s" "0 \<le> attachment_size a"
  shows "follows count_bytes (ingest_attachment p m a s) (ingest_end (Suc n)) q"
proof -
  have skip: "follows count_bytes (skip_it p a reason s) (ingest_end (Suc n)) q" for reason by (rule follows_skip [OF assms(1)])
  have keep: "ingest_ok (Suc n) q (keep_it p m a x s)" if "0 \<le> x" "\<not> over_limit x s" for x
    using ok_keep [OF assms(1), of 0 x] that by simp
  have count: "count_bytes q (R2_head k) r = Some q" "count_bytes q (Http_get u) r = Some q" for k u r
    by (simp_all add: count_bytes_def put_bytes_def)
  have found: "follows count_bytes (let kept = if k = 0 then attachment_size a else of_nat k
      in if over_limit kept s then skip_it p a Too_large s else Return (keep_it p m a kept s)) (ingest_end (Suc n)) q" for k
    using keep skip assms(2) by (simp add: Let_def)
  have got: "follows count_bytes (bind_io (ask read_http (Http_get u)) (ingest_response p m a s)) (ingest_end (Suc n)) q" for u
    unfolding follows_bind follows_ask count
    by (auto simp: ok_small [OF assms(1)] follows_response [OF assms(1)] split: sum.split answer.split option.split)
  show ?thesis unfolding ingest_attachment_def
    using found got skip ok_small [OF assms(1)]
    by (auto simp: follows_bind follows_ask count split: sum.split option.split answer.split simp del: ingest_end_simps(2))
qed

lemma follows_ingest:
  assumes "list_all (\<lambda>a. 0 \<le> attachment_size a) (message_attachments m)"
  shows "follows count_bytes (ingestDiscordAttachments p m) (ingest_end (length (message_attachments m))) 0"
  unfolding ingestDiscordAttachments_def
proof (rule follows_fold [where I = "\<lambda>ys q s. length ys \<le> length (message_attachments m) \<and>
      ingest_ok (length (message_attachments m) - length ys) q s"])
  fix a ys q s
  assume a: "a \<in> set (message_attachments m)"
    and i: "length (a # ys) \<le> length (message_attachments m) \<and> ingest_ok (length (message_attachments m) - length (a # ys)) q s"
  then have "Suc (length (message_attachments m) - length (a # ys)) = length (message_attachments m) - length ys" by auto
  moreover have "follows count_bytes (ingest_attachment p m a s) (ingest_end (Suc (length (message_attachments m) - length (a # ys)))) q"
    using i assms a by (intro follows_attachment) (auto simp: list_all_iff)
  ultimately show "follows count_bytes (ingest_attachment p m a s) (\<lambda>q v. case v of
      Inl y \<Rightarrow> ingest_end (length (message_attachments m)) q (Inl y)
    | Inr s \<Rightarrow> length ys \<le> length (message_attachments m) \<and> ingest_ok (length (message_attachments m) - length ys) q s) q"
    using i by (auto elim!: follows_mono split: sum.split)
qed (auto simp: ingest_ok_def handled_def MAX_DISCORD_ATTACHMENT_BYTES_def)

lemma ingest_accounted:
  assumes "list_all (\<lambda>a. 0 \<le> attachment_size a) (message_attachments m)" "replay (ingestDiscordAttachments p m) es = Some v"
  shows "ingest_end (length (message_attachments m)) (bytes_put es) v"
  using follows_replay [OF follows_ingest [OF assms(1)] assms(2)] by (auto simp: count_run)

subsection \<open>Running again\<close>

text \<open>The bucket, by the sizes of its files, and what Discord answers to downloads.\<close>

definition bucket :: "(string \<Rightarrow> http_response) \<Rightarrow> (units \<Rightarrow> nat option) \<Rightarrow> call \<Rightarrow> answer \<times> (units \<Rightarrow> nat option)" where
  "bucket web F c =
     (case c of
        R2_head k \<Rightarrow> (Size_answer (F k), F)
      | Http_get u \<Rightarrow> (Http_answer (web u), F)
      | R2_put k b t n i \<Rightarrow> (Answered, F(k \<mapsto> length b))
      | _ \<Rightarrow> (Answered, F))"

abbreviation run_ingest where
  "run_ingest web x m \<equiv> run_with (bucket web) (Failed x) m"

text \<open>What one attachment comes to: the same program whatever the bucket holds elsewhere.\<close>

definition known_size :: "platform \<Rightarrow> delivery_message \<Rightarrow> attachment \<Rightarrow> ingested \<Rightarrow> nat \<Rightarrow> ingested main_io" where
  "known_size p m a s n =
     (let kept = if n = 0 then attachment_size a else of_nat n
      in if over_limit kept s then skip_it p a Too_large s else Return (keep_it p m a kept s))"

lemma known_size_returns: "\<exists>s'. known_size p m a s n = Return s'"
  by (simp add: known_size_def Let_def skip_it_def)

lemma known_size_kept: "b \<noteq> [] \<Longrightarrow> \<not> over_limit (of_nat (length b)) s \<Longrightarrow>
    known_size p m a s (length b) = Return (keep_it p m a (of_nat (length b)) s)"
  by (simp add: known_size_def)

lemma response_cases:
  "(\<exists>x. ingest_response p m a s r = Throw x) \<or> (\<exists>s'. ingest_response p m a s r = Return s') \<or>
   (\<exists>b t n i. b \<noteq> [] \<and> \<not> over_limit (of_nat (length b)) s \<and> ingest_response p m a s r =
      bind_io (perform (R2_put (attachment_key p m a) b t n i)) (\<lambda>_. Return (keep_it p m a (of_nat (length b)) s)))"
proof (cases "readResponseBodyAtMost (http_body r) (MAX_DISCORD_ATTACHMENT_BYTES - aggregate_bytes s)")
  case (Inl y)
  then show ?thesis unfolding ingest_response_def skip_it_def by (simp add: lift_io_def)
next
  case (Inr res)
  show ?thesis
  proof (cases res)
    case None
    then show ?thesis using Inr unfolding ingest_response_def skip_it_def by (simp add: lift_io_def)
  next
    case (Some b)
    show ?thesis
    proof (cases "b = [] \<or> over_limit (of_nat (length b)) s")
      case True
      then show ?thesis using Inr Some unfolding ingest_response_def skip_it_def by (simp add: lift_io_def) blast
    next
      case False
      then show ?thesis using Inr Some unfolding ingest_response_def skip_it_def by (simp add: lift_io_def Let_def) blast
    qed
  qed
qed

lemma attachment_cases:
  "(\<exists>s'. ingest_attachment p m a s = Return s') \<or>
   (\<exists>u. ingest_attachment p m a s = bind_io (ask read_size (R2_head (attachment_key p m a))) (\<lambda>existing.
      case existing of Some n \<Rightarrow> known_size p m a s n
      | None \<Rightarrow> bind_io (ask read_http (Http_get u)) (ingest_response p m a s)))"
proof (cases "over_limit (attachment_size a) s \<or> validDiscordAttachmentUrl p (attachment_url a) = None")
  case True
  then show ?thesis by (auto simp: ingest_attachment_def skip_it_def)
next
  case False
  then obtain u where "validDiscordAttachmentUrl p (attachment_url a) = Some u" by auto
  then show ?thesis using False unfolding ingest_attachment_def known_size_def
    by (intro disjI2 exI [of _ "url_href u"]) simp
qed

lemma run_ask:
  "run_ingest web x (ask read c) fs F =
     (case fs of
        [] \<Rightarrow> (case read (fst (bucket web F c)) of Some a \<Rightarrow> Inr a | None \<Rightarrow> Inl not_an_answer, snd (bucket web F c), [])
      | Works # fs \<Rightarrow> (case read (fst (bucket web F c)) of Some a \<Rightarrow> Inr a | None \<Rightarrow> Inl not_an_answer, snd (bucket web F c), fs)
      | Lost_before # fs \<Rightarrow> (Inl x, F, fs)
      | Lost_after # fs \<Rightarrow> (Inl x, snd (bucket web F c), fs))"
proof -
  have n: "fst (bucket web F c) \<noteq> Failed y" for y by (simp add: bucket_def split: call.split)
  have "run_ingest web x (case r of Failed x \<Rightarrow> Throw x | _ \<Rightarrow> (case read r of Some a \<Rightarrow> Return a | None \<Rightarrow> Throw not_an_answer)) gs G =
      (case read r of Some a \<Rightarrow> Inr a | None \<Rightarrow> Inl not_an_answer, G, gs)" if "\<forall>y. r \<noteq> Failed y" for r gs G
    using that by (cases r) (auto split: option.split)
  with n show ?thesis by (auto simp: ask_def split: list.split fault.split)
qed

lemma bucket_simps [simp]:
  "bucket web F (R2_head k) = (Size_answer (F k), F)" "bucket web F (Http_get u) = (Http_answer (web u), F)"
  "bucket web F (R2_put k b t n i) = (Answered, F(k \<mapsto> length b))"
  by (simp_all add: bucket_def)

text \<open>
  One attachment, with faults and without: with them it throws or ends alike; the bucket has got its file or
  not; and with the file there it ends alike.
\<close>

lemma known_size_run: "\<exists>s'. run_ingest web x (known_size p m a s n) fs F = (Inr s', F, fs)"
  using known_size_returns [of p m a s n] by auto

text \<open>What an attachment comes to: nothing is stored, or its file is.\<close>

definition settles_without :: "(string \<Rightarrow> http_response) \<Rightarrow> failure \<Rightarrow> ingested main_io \<Rightarrow> units \<Rightarrow> nat option \<Rightarrow> (failure, ingested) result \<Rightarrow> bool" where
  "settles_without web x m key ex v \<longleftrightarrow> (\<forall>F. F key = ex \<longrightarrow> run_ingest web x m [] F = (v, F, []))"

definition settles_with :: "(string \<Rightarrow> http_response) \<Rightarrow> failure \<Rightarrow> ingested main_io \<Rightarrow> units \<Rightarrow> nat \<Rightarrow> ingested \<Rightarrow> bool" where
  "settles_with web x m key n s \<longleftrightarrow>
     (\<forall>F. F key = None \<longrightarrow> run_ingest web x m [] F = (Inr s, F(key \<mapsto> n), [])) \<and> settles_without web x m key (Some n) (Inr s)"

lemma attachment_settles:
  "(\<exists>v. settles_without web x (ingest_attachment p m a s) (attachment_key p m a) ex v \<and>
      (\<forall>F fs v' F' fs'. F (attachment_key p m a) = ex \<longrightarrow> run_ingest web x (ingest_attachment p m a s) fs F = (v', F', fs') \<longrightarrow>
         F' = F \<and> (\<forall>s'. v' = Inr s' \<longrightarrow> v = v'))) \<or>
   ex = None \<and> (\<exists>n s'. settles_with web x (ingest_attachment p m a s) (attachment_key p m a) n s' \<and>
      (\<forall>F fs v' F' fs'. F (attachment_key p m a) = None \<longrightarrow> run_ingest web x (ingest_attachment p m a s) fs F = (v', F', fs') \<longrightarrow>
         F' = F \<and> (\<exists>y. v' = Inl y) \<or> F' = F(attachment_key p m a \<mapsto> n) \<and> (\<forall>s''. v' = Inr s'' \<longrightarrow> s'' = s')))"
  (is "?without \<or> ?with")
proof (cases "\<exists>s'. ingest_attachment p m a s = Return s'")
  case True then show ?thesis by (auto simp: settles_without_def)
next
  case False
  then obtain u where i: "ingest_attachment p m a s = bind_io (ask read_size (R2_head (attachment_key p m a))) (\<lambda>existing.
      case existing of Some n \<Rightarrow> known_size p m a s n | None \<Rightarrow> bind_io (ask read_http (Http_get u)) (ingest_response p m a s))"
    using attachment_cases by blast
  show ?thesis
  proof (cases ex)
    case (Some n)
    obtain s' where "known_size p m a s n = Return s'" using known_size_returns by blast
    then have ?without unfolding i settles_without_def
      by (intro exI [of _ "Inr s'"]) (auto simp: Some run_with_bind run_ask split: list.splits fault.splits)
    then show ?thesis ..
  next
    case None
    consider (throws) y where "ingest_response p m a s (web u) = Throw y"
      | (returns) s' where "ingest_response p m a s (web u) = Return s'"
      | (stores) b t n j where "b \<noteq> []" "\<not> over_limit (of_nat (length b)) s"
        "ingest_response p m a s (web u) = bind_io (perform (R2_put (attachment_key p m a) b t n j)) (\<lambda>_. Return (keep_it p m a (of_nat (length b)) s))"
      using response_cases [of p m a s "web u"] by blast
    then show ?thesis
    proof cases
      case throws
      then have ?without unfolding i settles_without_def
        by (intro exI [of _ "Inl y"]) (auto simp: None run_with_bind run_ask split: list.splits fault.splits)
      then show ?thesis ..
    next
      case returns
      then have ?without unfolding i settles_without_def
        by (intro exI [of _ "Inr s'"]) (auto simp: None run_with_bind run_ask split: list.splits fault.splits)
      then show ?thesis ..
    next
      case stores
      note k = known_size_kept [OF stores(1,2), of p m a]
      have "settles_with web x (ingest_attachment p m a s) (attachment_key p m a) (length b) (keep_it p m a (of_nat (length b)) s)"
        unfolding i settles_with_def settles_without_def by (auto simp: run_with_bind run_ask k stores(3) perform_def)
      moreover have "F' = F \<and> (\<exists>y. v' = Inl y) \<or> F' = F(attachment_key p m a \<mapsto> length b) \<and>
          (\<forall>s''. v' = Inr s'' \<longrightarrow> s'' = keep_it p m a (of_nat (length b)) s)"
        if "F (attachment_key p m a) = None" "run_ingest web x (ingest_attachment p m a s) fs F = (v', F', fs')" for F fs v' F' fs'
        using that unfolding i by (auto simp: run_with_bind run_ask stores(3) perform_def split: list.splits fault.splits)
      ultimately have ?with using None by blast
      then show ?thesis ..
    qed
  qed
qed

lemma attachment_changes:
  assumes "run_ingest web x (ingest_attachment p m a s) fs F = (v, F', fs')" "k \<noteq> attachment_key p m a"
  shows "F' k = F k"
  using attachment_settles [of web x p m a s "F (attachment_key p m a)"]
proof (elim disjE exE conjE)
  fix v0 assume "\<forall>G fs v' F' fs'. G (attachment_key p m a) = F (attachment_key p m a) \<longrightarrow>
    run_ingest web x (ingest_attachment p m a s) fs G = (v', F', fs') \<longrightarrow> F' = G \<and> (\<forall>s'. v' = Inr s' \<longrightarrow> v0 = v')"
  then have "F' = F" using assms(1) by blast
  then show ?thesis by simp
next
  fix n s' assume "F (attachment_key p m a) = None" "\<forall>F fs v' F' fs'. F (attachment_key p m a) = None \<longrightarrow>
    run_ingest web x (ingest_attachment p m a s) fs F = (v', F', fs') \<longrightarrow>
      F' = F \<and> (\<exists>y. v' = Inl y) \<or> F' = F(attachment_key p m a \<mapsto> n) \<and> (\<forall>s''. v' = Inr s'' \<longrightarrow> s'' = s')"
  then have "F' = F \<or> F' = F(attachment_key p m a \<mapsto> n)" using assms(1) by blast
  then show ?thesis using assms(2) by auto
qed

lemma ingest_changes:
  assumes "run_ingest web x (fold_io (ingest_attachment p m) as s) fs F = (v, F', fs')" "k \<notin> attachment_key p m ` set as"
  shows "F' k = F k"
  using assms
proof (induction as arbitrary: s fs F)
  case Nil then show ?case by simp
next
  case (Cons a as)
  obtain v1 F1 fs1 where 1: "run_ingest web x (ingest_attachment p m a s) fs F = (v1, F1, fs1)"
    by (cases "run_ingest web x (ingest_attachment p m a s) fs F")
  have "F1 k = F k" by (rule attachment_changes [OF 1]) (use Cons.prems(2) in auto)
  then show ?case using Cons.prems Cons.IH 1 by (cases v1) (auto simp: run_with_bind)
qed

lemma ingest_agrees:
  assumes "\<forall>a \<in> set as. G (attachment_key p m a) = H (attachment_key p m a)"
  shows "fst (run_ingest web x (fold_io (ingest_attachment p m) as s) [] G) = fst (run_ingest web x (fold_io (ingest_attachment p m) as s) [] H)"
  using assms
proof (induction as arbitrary: s G H)
  case Nil then show ?case by simp
next
  case (Cons a as)
  let ?k = "attachment_key p m a"
  have k: "H ?k = G ?k" using Cons.prems by simp
  from attachment_settles [of web x p m a s "G ?k"] show ?case
  proof (elim disjE exE conjE)
    fix v assume "settles_without web x (ingest_attachment p m a s) ?k (G ?k) v"
    then have "run_ingest web x (ingest_attachment p m a s) [] G = (v, G, [])"
      "run_ingest web x (ingest_attachment p m a s) [] H = (v, H, [])" using k by (auto simp: settles_without_def)
    then show ?thesis using Cons.IH [of G H] Cons.prems by (cases v) (auto simp: run_with_bind)
  next
    fix n s' assume "G ?k = None" "settles_with web x (ingest_attachment p m a s) ?k n s'"
    then have "run_ingest web x (ingest_attachment p m a s) [] G = (Inr s', G(?k \<mapsto> n), [])"
      "run_ingest web x (ingest_attachment p m a s) [] H = (Inr s', H(?k \<mapsto> n), [])" using k by (auto simp: settles_with_def)
    moreover have "fst (run_ingest web x (fold_io (ingest_attachment p m) as s') [] (G(?k \<mapsto> n))) =
        fst (run_ingest web x (fold_io (ingest_attachment p m) as s') [] (H(?k \<mapsto> n)))"
      by (rule Cons.IH) (use Cons.prems in simp)
    ultimately show ?thesis by (simp add: run_with_bind)
  qed
qed

lemma ingest_again:
  assumes "run_ingest web x (fold_io (ingest_attachment p m) as s) fs F = (v, F1, fs')"
    and "distinct (map (attachment_key p m) as)"
    and "\<forall>a \<in> set as. G (attachment_key p m a) = F1 (attachment_key p m a)"
    and "\<forall>a \<in> set as. H (attachment_key p m a) = F (attachment_key p m a)"
  shows "fst (run_ingest web x (fold_io (ingest_attachment p m) as s) [] G) = fst (run_ingest web x (fold_io (ingest_attachment p m) as s) [] H)"
  using assms
proof (induction as arbitrary: s fs F G H)
  case Nil then show ?case by simp
next
  case (Cons a as)
  let ?k = "attachment_key p m a" and ?as = "fold_io (ingest_attachment p m) as"
  obtain v' F' fs1 where step: "run_ingest web x (ingest_attachment p m a s) fs F = (v', F', fs1)"
    by (cases "run_ingest web x (ingest_attachment p m a s) fs F")
  have new: "?k \<notin> attachment_key p m ` set as" and d: "distinct (map (attachment_key p m) as)" using Cons.prems(2) by auto
  have F': "F' (attachment_key p m b) = F (attachment_key p m b)" if "b \<in> set as" for b
    by (rule attachment_changes [OF step]) (metis new that image_eqI)
  have rest: "F1 ?k = F' ?k"
  proof (cases v')
    case (Inl y) then show ?thesis using Cons.prems(1) step by (simp add: run_with_bind)
  next
    case (Inr s')
    then have "run_ingest web x (?as s') fs1 F' = (v, F1, fs')" using Cons.prems(1) step by (simp add: run_with_bind)
    from ingest_changes [OF this new] show ?thesis .
  qed
  have H: "H ?k = F ?k" and G: "G ?k = F' ?k" using Cons.prems(3,4) rest by simp_all
  have go: "fst (run_ingest web x (?as s') [] G') = fst (run_ingest web x (?as s') [] H')"
    if "v' = Inr s' \<or> (\<exists>y. v' = Inl y)" "\<forall>b \<in> set as. G' (attachment_key p m b) = G (attachment_key p m b)"
      "\<forall>b \<in> set as. H' (attachment_key p m b) = H (attachment_key p m b)" for s' G' H'
    using that(1)
  proof
    assume "v' = Inr s'"
    then have "run_ingest web x (?as s') fs1 F' = (v, F1, fs')" using Cons.prems(1) step by (simp add: run_with_bind)
    from Cons.IH [OF this d] show ?thesis using that(2,3) Cons.prems(3,4) F' by simp
  next
    assume "\<exists>y. v' = Inl y"
    then have "F1 = F'" using Cons.prems(1) step by (auto simp: run_with_bind)
    then show ?thesis using that(2,3) Cons.prems(3,4) F' by (intro ingest_agrees) simp
  qed
  from attachment_settles [of web x p m a s "F ?k"] show ?case
  proof (elim disjE exE conjE)
    fix v0 assume w: "settles_without web x (ingest_attachment p m a s) ?k (F ?k) v0"
      and f: "\<forall>G fs v' F' fs'. G ?k = F ?k \<longrightarrow> run_ingest web x (ingest_attachment p m a s) fs G = (v', F', fs') \<longrightarrow>
        F' = G \<and> (\<forall>s'. v' = Inr s' \<longrightarrow> v0 = v')"
    have "F' = F" "\<And>s'. v' = Inr s' \<Longrightarrow> v0 = v'" using f step by blast+
    then have "run_ingest web x (ingest_attachment p m a s) [] G = (v0, G, [])"
      "run_ingest web x (ingest_attachment p m a s) [] H = (v0, H, [])" using w G H by (simp_all add: settles_without_def)
    moreover have "fst (run_ingest web x (?as s') [] G) = fst (run_ingest web x (?as s') [] H)" if "v0 = Inr s'" for s'
      using that \<open>\<And>s'. v' = Inr s' \<Longrightarrow> v0 = v'\<close> by (intro go) (cases v', auto)
    ultimately show ?thesis by (cases v0) (simp_all add: run_with_bind)
  next
    fix n s' assume N: "F ?k = None" and w: "settles_with web x (ingest_attachment p m a s) ?k n s'"
      and f: "\<forall>F fs v' F' fs'. F ?k = None \<longrightarrow> run_ingest web x (ingest_attachment p m a s) fs F = (v', F', fs') \<longrightarrow>
        F' = F \<and> (\<exists>y. v' = Inl y) \<or> F' = F(?k \<mapsto> n) \<and> (\<forall>s''. v' = Inr s'' \<longrightarrow> s'' = s')"
    have c: "F' = F \<and> (\<exists>y. v' = Inl y) \<or> F' = F(?k \<mapsto> n) \<and> (\<forall>s''. v' = Inr s'' \<longrightarrow> s'' = s')" using f N step by blast
    have h: "run_ingest web x (ingest_attachment p m a s) [] H = (Inr s', H(?k \<mapsto> n), [])" using w H N by (simp add: settles_with_def)
    have g: "run_ingest web x (ingest_attachment p m a s) [] G = (Inr s', G(?k \<mapsto> n), [])"
    proof (cases "F' = F")
      case True then show ?thesis using w G N by (simp add: settles_with_def)
    next
      case False
      then have "G ?k = Some n" using c G by simp
      then have "G(?k \<mapsto> n) = G" by (rule fun_upd_idem)
      with \<open>G ?k = Some n\<close> show ?thesis using w by (simp add: settles_with_def settles_without_def)
    qed
    have ended: "v' = Inr s' \<or> (\<exists>y. v' = Inl y)" using c by (cases v') auto
    have n: "attachment_key p m b \<noteq> ?k" if "b \<in> set as" for b using new that by (metis image_eqI)
    have "fst (run_ingest web x (?as s') [] (G(?k \<mapsto> n))) = fst (run_ingest web x (?as s') [] (H(?k \<mapsto> n)))"
      by (rule go [OF ended]) (simp_all add: n)
    then show ?thesis by (simp add: run_with_bind g h)
  qed
qed

lemma ingest_without_faults:
  assumes "run_ingest web x (fold_io (ingest_attachment p m) as s) fs F = (Inr s', F1, fs')"
  shows "run_ingest web x (fold_io (ingest_attachment p m) as s) [] F = (Inr s', F1, [])"
  using assms
proof (induction as arbitrary: s fs F)
  case Nil then show ?case by simp
next
  case (Cons a as)
  let ?k = "attachment_key p m a"
  obtain s1 F' fs1 where step: "run_ingest web x (ingest_attachment p m a s) fs F = (Inr s1, F', fs1)"
    and rest: "run_ingest web x (fold_io (ingest_attachment p m) as s1) fs1 F' = (Inr s', F1, fs')"
    using Cons.prems by (auto simp: run_with_bind split: prod.splits sum.splits)
  have "run_ingest web x (ingest_attachment p m a s) [] F = (Inr s1, F', [])"
    using attachment_settles [of web x p m a s "F ?k"]
  proof (elim disjE exE conjE)
    fix v0 assume w: "settles_without web x (ingest_attachment p m a s) ?k (F ?k) v0"
      and f: "\<forall>G fs v' F' fs'. G ?k = F ?k \<longrightarrow> run_ingest web x (ingest_attachment p m a s) fs G = (v', F', fs') \<longrightarrow>
        F' = G \<and> (\<forall>s'. v' = Inr s' \<longrightarrow> v0 = v')"
    have "F' = F" "v0 = Inr s1" using f step by blast+
    then show ?thesis using w by (simp add: settles_without_def)
  next
    fix n s2 assume N: "F ?k = None" and w: "settles_with web x (ingest_attachment p m a s) ?k n s2"
      and f: "\<forall>F fs v' F' fs'. F ?k = None \<longrightarrow> run_ingest web x (ingest_attachment p m a s) fs F = (v', F', fs') \<longrightarrow>
        F' = F \<and> (\<exists>y. v' = Inl y) \<or> F' = F(?k \<mapsto> n) \<and> (\<forall>s''. v' = Inr s'' \<longrightarrow> s'' = s2)"
    have "F' = F(?k \<mapsto> n) \<and> s1 = s2" using f N step by blast
    then show ?thesis using w N by (simp add: settles_with_def)
  qed
  then show ?case using Cons.IH [OF rest] by (simp add: run_with_bind)
qed

text \<open>Discord's ids. Attachments with different ids have different keys.\<close>

definition snowflake :: "string \<Rightarrow> bool" where
  "snowflake i \<longleftrightarrow> i \<noteq> [] \<and> length i \<le> 20 \<and> list_all is_digit i"

lemma dash_split:
  assumes "c \<notin> set a" "c \<notin> set b" "a @ c # s = b @ c # t"
  shows "a = b"
  using assms
proof (induction a arbitrary: b)
  case Nil then show ?case by (cases b) auto
next
  case (Cons x a) then show ?case by (cases b) auto
qed

lemma key_of_id:
  assumes "snowflake (discordMessageId m)" "snowflake (attachment_id a)"
  obtains t where "attachment_key p m a = unit_string (orgId m @ ''/'' @ workspaceId m @ ''/user-uploads/discord-'' @ discordMessageId m @ ''-'') @
    unit_string (attachment_id a) @ 45 # t"
proof -
  let ?b = "safeDiscordFilename p (unit_string (attachment_filename a))"
  let ?h = "''discord-'' @ discordMessageId m @ ''-'' @ attachment_id a @ ''-''"
  have "length (unit_string ?h) \<le> 200" using assms by (simp add: snowflake_def unit_string_def)
  then have "deterministicDiscordFilename p m a = unit_string ?h @ take (200 - length (unit_string ?h)) ?b"
    unfolding deterministicDiscordFilename_def by simp
  then show ?thesis using that
    by (simp add: attachment_key_def buildWorkspaceScopedR2Key_def normalizeRelativePath_def getWorkspaceR2Prefix_def unit_string_def)
qed

lemma keys_distinct:
  assumes "snowflake (discordMessageId m)" "list_all (\<lambda>a. snowflake (attachment_id a)) as" "distinct (map attachment_id as)"
  shows "distinct (map (attachment_key p m) as)"
  using assms(2,3)
proof (induction as)
  case (Cons a as)
  have "attachment_key p m a \<noteq> attachment_key p m b" if b: "b \<in> set as" for b
  proof
    assume e: "attachment_key p m a = attachment_key p m b"
    have s: "snowflake (attachment_id a)" "snowflake (attachment_id b)" using Cons.prems(1) b by (auto simp: list_all_iff)
    obtain t u where "attachment_key p m a = unit_string (orgId m @ ''/'' @ workspaceId m @ ''/user-uploads/discord-'' @ discordMessageId m @ ''-'') @
        unit_string (attachment_id a) @ 45 # t"
      "attachment_key p m b = unit_string (orgId m @ ''/'' @ workspaceId m @ ''/user-uploads/discord-'' @ discordMessageId m @ ''-'') @
        unit_string (attachment_id b) @ 45 # u"
      using key_of_id [OF assms(1) s(1)] key_of_id [OF assms(1) s(2)] by metis
    with e have eq: "unit_string (attachment_id a) @ 45 # t = unit_string (attachment_id b) @ 45 # u" by simp
    have dash: "45 \<notin> set (unit_string i)" if "snowflake i" for i
    proof
      assume "45 \<in> set (unit_string i)"
      then obtain c where c: "c \<in> set i" "(of_char c :: int) = 45" by (auto simp: unit_string_def)
      have n: "(of_char c :: int) = int (of_char c)" by (rule of_nat_of_char [symmetric])
      from c(1) have "48 \<le> (of_char c :: nat)" using that by (auto simp: snowflake_def list_all_iff is_digit_def)
      then show False using c(2) unfolding n by linarith
    qed
    have "unit_string (attachment_id a) = unit_string (attachment_id b)" by (rule dash_split [OF dash [OF s(1)] dash [OF s(2)] eq])
    then have "attachment_id a = attachment_id b" unfolding unit_string_def using inj_map_eq_map [OF inj_of_char] by blast
    then show False using Cons.prems(2) b by auto
  qed
  then show ?case using Cons by (auto simp: image_iff)
qed simp

subsection \<open>The properties\<close>



text \<open>A message with two attachments, of which the second download fails.\<close>

definition file_one :: attachment where
  "file_one = \<lparr>attachment_id = ''2'', attachment_filename = ''f'', attachment_type = None, attachment_size = 1, attachment_url = ''u''\<rparr>"

definition file_two :: attachment where
  "file_two = \<lparr>attachment_id = ''3'', attachment_filename = ''h'', attachment_type = None, attachment_size = 2, attachment_url = ''v''\<rparr>"

definition two_files :: delivery_message where
  "two_files = \<lparr>discordMessageId = ''1'', guildId = ''g'', channelId = ''c'', parentChannelId = ''c'', message_thread = None,
     integrationId = ''i'', orgId = ''o'', workspaceId = ''w'', bindingVersion = 1, message_ordinal = 1, content = [],
     messageType = 0, message_author = \<lparr>author_id = ''u'', author_username = None, author_global = None, author_nick = None\<rparr>,
     message_mentions = [],
     message_attachments = [file_one, file_two],
     message_timestamp = None, message_mode = Full, starter = True\<rparr>"

definition plain_platform :: platform where
  "plain_platform = \<lparr>parse_json = (\<lambda>_. None),
     parse_url = (\<lambda>u. Some \<lparr>url_protocol = ''https:'', url_hostname = ''cdn.discordapp.com'', url_pathname = ''/attachments/1'', url_href = u\<rparr>),
     nfkc = (\<lambda>s. s), letter_or_number = (\<lambda>c. c \<noteq> [SPACE])\<rparr>"

definition small_file :: http_response where
  "small_file = \<lparr>http_status = 200, http_length = None, http_type = None, http_body = Whole (Inr [1])\<rparr>"

lemma two_files_facts:
  "message_attachments two_files = [file_one, file_two]"
  "attachment_size file_one = 1" "attachment_size file_two = 2" "attachment_url file_one = ''u''" "attachment_url file_two = ''v''"
  "attachment_type file_one = None" "attachment_id file_one = ''2''" "attachment_filename file_one = ''f''"
  "parse_url plain_platform u = Some \<lparr>url_protocol = ''https:'', url_hostname = ''cdn.discordapp.com'', url_pathname = ''/attachments/1'', url_href = u\<rparr>"
  by (simp_all add: two_files_def file_one_def file_two_def plain_platform_def)

lemma two_files_keys:
  "attachment_key plain_platform two_files file_one = unit_string ''o/w/user-uploads/discord-1-2-f''"
  "attachment_key plain_platform two_files file_two = unit_string ''o/w/user-uploads/discord-1-3-h''"
  "safeDiscordFilename plain_platform (unit_string ''f'') = unit_string ''f''"
  by code_simp+

lemma two_files_ids:
  "snowflake (discordMessageId two_files)" "list_all (\<lambda>a. snowflake (attachment_id a)) (message_attachments two_files)"
  "distinct (map attachment_id (message_attachments two_files))"
  "list_all (\<lambda>a. 0 \<le> attachment_size a) (message_attachments two_files)"
  by code_simp+

definition two_files_events :: "(call \<times> answer) list" where
  "two_files_events =
     [(R2_head (unit_string ''o/w/user-uploads/discord-1-2-f''), Size_answer None), (Http_get ''u'', Http_answer small_file),
      (R2_put (unit_string ''o/w/user-uploads/discord-1-2-f'') [1] ''application/octet-stream'' (unit_string ''f'') ''2'', Answered),
      (R2_head (unit_string ''o/w/user-uploads/discord-1-3-h''), Size_answer (Some 26214400))]"

lemma two_files_replay:
  "\<exists>s. replay (ingestDiscordAttachments plain_platform two_files) two_files_events = Some (Inr s)"
  by (simp add: two_files_facts two_files_keys ingestDiscordAttachments_def two_files_events_def ingest_attachment_def over_limit_def
      MAX_DISCORD_ATTACHMENT_BYTES_def validDiscordAttachmentUrl_def ask_def ingest_response_def small_file_def contentLength_def
      lift_io_def perform_def keep_it_def skip_it_def or_text_def cong: lazy_io)


text \<open>The second attachment's download does not reach Discord.\<close>

definition two_files_broken :: "(failure, ingested) result \<times> (units \<Rightarrow> nat option) \<times> fault list" where
  "two_files_broken = run_with (bucket (\<lambda>_. small_file)) (Failed not_an_answer) (ingestDiscordAttachments plain_platform two_files)
     [Works, Works, Works, Works, Lost_before] (\<lambda>_. None)"

lemma two_files_broken:
  "(case two_files_broken of (v, F, rest) \<Rightarrow> (case v of Inl y \<Rightarrow> True | Inr s \<Rightarrow> False) \<and> F (unit_string ''o/w/user-uploads/discord-1-2-f'') = Some 1)"
  by code_simp


end
