(* ===== verification/DiscordConsumerSystem.thy ===== *)
theory DiscordConsumerSystem
  imports DiscordConsumer DiscordDeliverySafety
begin

section \<open>The consumer with the bridge\<close>

text \<open>
  The program of the consumer in the system of the bridge: its calls of the bridge are answered by the control
  object, or fail with or without having had their effect; all its other calls have any answer; and between its
  calls the rest of the system takes any steps. What it does is then a run of the consumer's steps of
  DiscordDeliverySystem, whose properties therefore hold of the code.
\<close>

subsection \<open>The protocol of a delivery\<close>

fun delivery_call :: "call \<Rightarrow> bool" where
  "delivery_call (Claim_delivery e) = True"
| "delivery_call (Finish_delivery e t a) = True"
| "delivery_call (Dead_letter_delivery e) = True"
| "delivery_call _ = False"

text \<open>\<open>Unheard\<close>: the claim has failed, and may have been granted. \<open>Over\<close>: the message is not needed any more.\<close>

datatype phase = Before | Working string | Unheard | Over

fun after_claim :: "answer \<Rightarrow> phase" where
  "after_claim (Claim_answer (Claimed t p)) = Working t"
| "after_claim (Claim_answer (Lease_wait ms)) = Before"
| "after_claim (Claim_answer c) = Over"
| "after_claim _ = Unheard"

definition delivery_protocol :: "string \<Rightarrow> phase \<Rightarrow> call \<Rightarrow> answer \<Rightarrow> phase option" where
  "delivery_protocol e q c r =
     (case c of
        Claim_delivery e' \<Rightarrow> if e' = e \<and> q = Before then Some (after_claim r) else None
      | Finish_delivery e' t a \<Rightarrow>
          if e' = e \<and> q = Working t then Some (if r = Answered \<and> a \<noteq> Finish_retry then Over else q) else None
      | Dead_letter_delivery e' \<Rightarrow> None
      | _ \<Rightarrow> (case q of Working t \<Rightarrow> Some q | _ \<Rightarrow> None))"

text \<open>A message is acknowledged only when it is not needed any more, and nothing is thrown.\<close>

definition delivery_end :: "phase \<Rightarrow> (failure, decision) result \<Rightarrow> bool" where
  "delivery_end q v = (case v of Inl x \<Rightarrow> False | Inr Ack \<Rightarrow> q = Over | Inr (Again n) \<Rightarrow> q \<noteq> Over)"

text \<open>Programs that leave the delivery alone.\<close>

primrec quiet :: "'a main_io \<Rightarrow> bool" where
  "quiet (Return a) = True"
| "quiet (Throw x) = True"
| "quiet (Call c k) = (\<not> delivery_call c \<and> (\<forall>r. quiet (k r)))"

lemma quiet_bind: "quiet m \<Longrightarrow> (\<And>a. quiet (f a)) \<Longrightarrow> quiet (bind_io m f)"
  by (induction m) auto

lemma quiet_catch: "quiet m \<Longrightarrow> (\<And>x. quiet (h x)) \<Longrightarrow> quiet (catch_io m h)"
  by (induction m) auto

lemma quiet_lift: "quiet (lift_io v)"
  by (cases v) (simp_all add: lift_io_def)

lemma quiet_ask: "\<not> delivery_call c \<Longrightarrow> quiet (ask read c)"
  by (auto simp: ask_def split: answer.splits option.splits)

lemma quiet_perform: "\<not> delivery_call c \<Longrightarrow> quiet (perform c)"
  by (simp add: perform_def quiet_ask)

lemma quiet_ignoring: "quiet m \<Longrightarrow> quiet (ignoring m)"
  by (simp add: ignoring_def quiet_catch)

lemma quiet_fold: "(\<And>x s. quiet (f x s)) \<Longrightarrow> quiet (fold_io f xs s)"
  by (induction xs arbitrary: s) (simp_all add: quiet_bind)

lemmas quiet_intros = quiet_bind quiet_catch quiet_lift quiet_ask quiet_perform quiet_ignoring quiet_fold

lemma quiet_validate: "quiet (validateDelivery p d)"
  unfolding validateDelivery_def isOrgBanned_def getOrgBanById_def getOrgBanBySlug_def
  by (auto intro!: quiet_intros split: option.split)

lemma quiet_lifecycle: "quiet (handleLifecycleDelivery now l v)"
  unfolding handleLifecycleDelivery_def by (auto intro!: quiet_intros split: option.split)

lemma quiet_failure: "quiet (handlePermanentStarterThreadFailure m v code)"
  unfolding handlePermanentStarterThreadFailure_def by (auto intro!: quiet_intros)

lemma quiet_ingest: "quiet (ingestDiscordAttachments p m)"
  unfolding ingestDiscordAttachments_def ingest_attachment_def ingest_response_def skip_it_def
  by (auto intro!: quiet_intros split: option.split simp: Let_def)

lemma quiet_channel: "quiet (getOrCreateChannelThread i)"
  unfolding getOrCreateChannelThread_def create_channel_thread_def resolveDefaultChannelThreadModel_def Let_def
  by (auto intro!: quiet_intros split: option.split prod.split)

lemma quiet_enqueue: "quiet (enqueueChannelMessage r)"
  unfolding enqueueChannelMessage_def with_owner_def channelConnectionOwner_def rehomedThreadId_def start_turn_def
    rehomeChannelThread_def Let_def
  by (auto intro!: quiet_intros quiet_channel split: option.split turn_answer.split prod.split)

lemma quiet_follows:
  assumes "quiet m" "\<And>v. Q (Working t) v"
  shows "follows (delivery_protocol e) m Q (Working t)"
  using assms(1) by (induction m) (auto simp: assms(2) delivery_protocol_def split: call.splits)

text \<open>How a claimed delivery has ended when its processing ends.\<close>

definition processed_end :: "string \<Rightarrow> phase \<Rightarrow> (failure, processed) result \<Rightarrow> bool" where
  "processed_end t q v = (case v of Inr Processed_accepted \<Rightarrow> q = Over | Inr Processed_completed \<Rightarrow> q = Over | _ \<Rightarrow> q = Working t)"

lemma processed_end_simps [simp]:
  "processed_end t q (Inl x) = (q = Working t)"
  "processed_end t q (Inr r) = (q = (if r = Processed_retry then Working t else Over))"
  by (cases r; simp add: processed_end_def)+

lemma follows_then:
  assumes "quiet m" "\<And>a. follows (delivery_protocol e) (f a) Q (Working t)" "\<And>x. Q (Working t) (Inl x)"
  shows "follows (delivery_protocol e) (bind_io m f) Q (Working t)"
  unfolding follows_bind by (rule quiet_follows [OF assms(1)]) (simp add: assms(2,3) split: sum.split)

lemma follows_finish:
  assumes "\<And>x. Q (Working t) (Inl x)" "Q (if action = Finish_retry then Working t else Over) (Inr result)"
  shows "follows (delivery_protocol e) (finish_as e t action result) Q (Working t)"
  unfolding finish_as_def perform_def follows_bind follows_ask
proof
  fix r
  show "case delivery_protocol e (Working t) (Finish_delivery e t action) r of None \<Rightarrow> False
    | Some q' \<Rightarrow> (case case r of Failed x \<Rightarrow> Inl x | _ \<Rightarrow> (case read_done r of Some a \<Rightarrow> Inr a | None \<Rightarrow> Inl not_an_answer) of
        Inl x \<Rightarrow> Q q' (Inl x) | Inr a \<Rightarrow> follows (delivery_protocol e) (Return result) Q q')"
    using assms by (cases r) (auto simp: delivery_protocol_def)
qed

lemma follows_done:
  assumes "\<And>x. Q (Working t) (Inl x)" "Q Over (Inr result)"
  shows "follows (delivery_protocol e) (done_and_finish k e t result) Q (Working t)"
  unfolding done_and_finish_def
  by (intro follows_then follows_finish quiet_perform assms) (simp_all add: assms)

lemma follows_thread:
  "follows (delivery_protocol e) (thread_of_message e t m v normalizedText)
     (\<lambda>q r. case r of Inr (Inr x) \<Rightarrow> processed_end t q (Inr x) | _ \<Rightarrow> q = Working t) (Working t)"
proof (cases "starter m")
  case False then show ?thesis by (simp add: thread_of_message_def)
next
  case True
  show ?thesis unfolding thread_of_message_def using True
    by (simp add: follows_catch follows_bind, intro quiet_follows [OF quiet_ask])
      (auto simp: follows_bind intro!: quiet_follows [OF quiet_failure] follows_done split: sum.split)
qed

lemma follows_in_thread: "follows (delivery_protocol e) (process_in_thread p e t m n thread) (processed_end t) (Working t)"
proof -
  have "follows (delivery_protocol e) (enqueue_delivery e t m n u thread) (processed_end t) (Working t)" for u
    unfolding enqueue_delivery_def
    by (intro follows_then quiet_channel quiet_enqueue)
      (auto intro!: follows_then follows_done follows_finish quiet_perform split: enqueue_result.split)
  then show ?thesis unfolding process_in_thread_def Let_def
    by (intro follows_then quiet_ingest) (auto intro!: follows_then follows_done quiet_perform)
qed

lemma follows_message: "follows (delivery_protocol e) (process_message p e t m v) (processed_end t) (Working t)"
  unfolding process_message_def Let_def follows_bind
  by (rule follows_mono [OF follows_thread]) (auto intro!: follows_in_thread split: sum.splits option.split)

lemma follows_give_up: "follows (delivery_protocol e) (give_up_or_retry e t m x) (processed_end t) (Working t)"
  unfolding give_up_or_retry_def
proof (intro follows_then quiet_perform)
  fix a
  have "follows (delivery_protocol e) (bind_io (ignoring (perform (Finish_delivery e t Finish_retry))) (\<lambda>_. Throw x))
      (processed_end t) (Working t)"
    by (simp add: follows_bind ignoring_def follows_catch perform_def follows_ask delivery_protocol_def
        split: answer.splits option.splits sum.splits)
  then show "follows (delivery_protocol e) (if is_bridge_failure x \<and> failure_code x \<notin> set retryable_codes
      then finish_as e t Finish_complete Processed_completed
      else bind_io (ignoring (perform (Finish_delivery e t Finish_retry))) (\<lambda>_. Throw x)) (processed_end t) (Working t)"
    by (simp add: follows_finish)
qed simp_all

lemma follows_processed: "follows (delivery_protocol e) (processClaimedDelivery p now e t d) (processed_end t) (Working t)"
proof -
  have m: "follows (delivery_protocol e) (catch_io (process_message p e t m v) (give_up_or_retry e t m)) (processed_end t) (Working t)" for m v
    unfolding follows_catch
    by (rule follows_mono [OF follows_message]) (auto simp: processed_end_def follows_give_up split: sum.split)
  show ?thesis unfolding processClaimedDelivery_def
    by (auto intro!: follows_then follows_finish m quiet_validate quiet_lifecycle quiet_ask quiet_perform split: option.split delivery.split)
qed

lemma delivery_end_simps [simp]:
  "\<not> delivery_end q (Inl x)" "delivery_end q (Inr Ack) = (q = Over)" "delivery_end q (Inr (Again n)) = (q \<noteq> Over)"
  by (simp_all add: delivery_end_def)

lemma consume_follows: "follows (delivery_protocol e) (consume_event p now e) delivery_end Before"
proof -
  have "follows (delivery_protocol e) (case c of Ordered_wait \<Rightarrow> Return Ack
      | Lease_wait ms \<Rightarrow> Return (Again (Some (wait_seconds (Some ms))))
      | Claimed token d \<Rightarrow> bind_io (processClaimedDelivery p now e token d)
          (\<lambda>result. Return (if result = Processed_retry then Again (Some DISCORD_BUSY_RETRY_SECONDS) else Ack))
      | _ \<Rightarrow> Return Ack)
    (\<lambda>q v. case v of Inl x \<Rightarrow> q \<noteq> Over | Inr a \<Rightarrow> delivery_end q (Inr a))
    (after_claim (Claim_answer c))" for c
    by (cases c) (auto simp: follows_bind intro!: follows_mono [OF follows_processed]
        split: sum.splits processed.splits)
  then show ?thesis
    unfolding consume_event_def follows_catch follows_bind follows_ask
    by (auto simp: delivery_protocol_def split: answer.splits)
qed

subsection \<open>The consumer in the system\<close>

text \<open>
  What the consumer of an event has: the message, or the claim that was granted to it, which it may not know. A
  state of the consumer is the system, what it has, and the rest of its program.
\<close>

definition holds :: "string \<Rightarrow> string option \<Rightarrow> bridge \<Rightarrow> bool" where
  "holds e h b = (case h of None \<Rightarrow> e \<in># queued b | Some t \<Rightarrow> (e, t) \<in># working b)"

text \<open>A claim at the control object: what the consumer has then, and the system.\<close>

definition claimed_now :: "string \<Rightarrow> claim \<Rightarrow> control \<Rightarrow> bridge \<Rightarrow> string option \<times> bridge" where
  "claimed_now e c s b =
     (case c of
        Claimed t p \<Rightarrow> (Some t, b\<lparr>ctl := s, queued := queued b - {#e#}, working := working b + {#(e, t)#}\<rparr>)
      | _ \<Rightarrow> (None, b\<lparr>ctl := s\<rparr>))"

text \<open>The route of the control object that ends a delivery or gives it back: the answer is 409 when the lease is another's.\<close>

definition finish_route :: "finish_action \<Rightarrow> string \<Rightarrow> string \<Rightarrow> int \<Rightarrow> control \<Rightarrow> bool \<times> control" where
  "finish_route a e t now s =
     (if a = Finish_retry then retryDelivery e t now s else finishDelivery e t (a = Finish_fail) now s)"

definition route_answer :: "bool \<Rightarrow> answer" where
  "route_answer ok = (if ok then Answered else Failed (Bridge_failure ''provider_unavailable'' None))"

inductive consumer_step :: "bool \<Rightarrow> string \<Rightarrow> bridge \<times> string option \<times> decision main_io \<Rightarrow> bridge \<times> string option \<times> decision main_io \<Rightarrow> bool"
  for racing e where
  others: "bridge_step racing b b' \<Longrightarrow> holds e h b' \<Longrightarrow> consumer_step racing e (b, h, Call c k) (b', h, Call c k)"
| not_sent: "consumer_step racing e (b, h, Call c k) (b, h, k (Failed x))"
| claim: "claimDelivery e token (bridge_clock b) (ctl b) = (c, s) \<Longrightarrow> claimed_now e c s b = (h, b') \<Longrightarrow>
    r = Claim_answer c \<or> r = Failed x \<Longrightarrow> consumer_step racing e (b, None, Call (Claim_delivery e) k) (b', h, k r)"
| finish: "finish_route a e t (bridge_clock b) (ctl b) = (answered, s) \<Longrightarrow> r = route_answer answered \<or> r = Failed x \<Longrightarrow>
    consumer_step racing e (b, h, Call (Finish_delivery e t a) k) (b\<lparr>ctl := s\<rparr>, h, k r)"
| calls: "\<not> delivery_call c \<Longrightarrow> consumer_step racing e (b, h, Call c k) (b, h, k r)"

text \<open>The queue is told: the message is gone, or it comes back.\<close>

definition settle :: "string \<Rightarrow> string option \<Rightarrow> decision \<Rightarrow> bridge \<Rightarrow> bridge" where
  "settle e h d b =
     (case (h, d) of
        (None, Ack) \<Rightarrow> b\<lparr>queued := queued b - {#e#}\<rparr>
      | (None, Again n) \<Rightarrow> b
      | (Some t, Ack) \<Rightarrow> b\<lparr>working := working b - {#(e, t)#}\<rparr>
      | (Some t, Again n) \<Rightarrow> b\<lparr>working := working b - {#(e, t)#}, queued := queued b + {#e#}\<rparr>)"

subsection \<open>The consumer's runs are runs of the system\<close>

text \<open>Where the system stands as the consumer's program stands in a phase.\<close>

definition stands :: "bool \<Rightarrow> string \<Rightarrow> bridge \<Rightarrow> phase \<Rightarrow> bridge \<Rightarrow> string option \<Rightarrow> bool" where
  "stands racing e b0 q b h =
     (case q of
        Before \<Rightarrow> h = None \<and> e \<in># queued b \<and> (bridge_step racing)\<^sup>*\<^sup>* b0 b
      | Working t \<Rightarrow> h = Some t \<and> (e, t) \<in># working b \<and> (bridge_step racing)\<^sup>*\<^sup>* b0 b
      | Unheard \<Rightarrow> holds e h b \<and> (bridge_step racing)\<^sup>*\<^sup>* b0 b
      | Over \<Rightarrow> (bridge_step racing)\<^sup>*\<^sup>* b0 (settle e h Ack b))"

lemma stands_holds: "stands racing e b0 q b h \<Longrightarrow> q \<noteq> Over \<Longrightarrow> holds e h b \<and> (bridge_step racing)\<^sup>*\<^sup>* b0 b"
  by (cases q) (auto simp: stands_def holds_def)

lemma stands_moves:
  assumes "stands racing e b0 q b h" "q \<noteq> Over" "bridge_step racing b b'" "holds e h b'"
  shows "stands racing e b0 q b' h"
  using assms rtranclp.rtrancl_into_rtrancl [of "bridge_step racing" b0 b b']
  by (cases q) (auto simp: stands_def holds_def)

lemma claim_keeps:
  assumes "claimDelivery e token now s = (c, s')" "\<forall>t p. c \<noteq> Claimed t p"
  shows "s' = s"
  using assms by (auto simp: claimDelivery_def split: option.splits if_splits)

lemma claim_token: "claimDelivery e token now s = (Claimed t p, s') \<Longrightarrow> t = token"
  by (auto simp: claimDelivery_def split: option.splits if_splits)

lemma stands_claim:
  assumes st: "stands racing e b0 Before b None"
    and c: "claimDelivery e token (bridge_clock b) (ctl b) = (c, s)" "claimed_now e c s b = (h, b')"
    and r: "r = Claim_answer c \<or> r = Failed x"
  shows "stands racing e b0 (after_claim r) b' h"
proof -
  have b: "e \<in># queued b" "(bridge_step racing)\<^sup>*\<^sup>* b0 b" using st by (auto simp: stands_def)
  show ?thesis
  proof (cases "\<exists>t p. c = Claimed t p")
    case True
    then obtain p where p: "c = Claimed token p" using c(1) claim_token by blast
    then have s: "h = Some token" "b' = b\<lparr>ctl := s, queued := queued b - {#e#}, working := working b + {#(e, token)#}\<rparr>"
      using c(2) by (simp_all add: claimed_now_def)
    have "bridge_step racing b b'" unfolding s(2) by (rule bridge_step.claims [OF b(1)]) (use c(1) p in simp)
    with b(2) have "(bridge_step racing)\<^sup>*\<^sup>* b0 b'" by simp
    then show ?thesis using r s p by (auto simp: stands_def holds_def)
  next
    case False
    then have k: "s = ctl b" using claim_keeps [OF c(1)] by blast
    then have s: "h = None" "b' = b" using c(2) False by (cases c; simp add: claimed_now_def)+
    have "(bridge_step racing)\<^sup>*\<^sup>* b0 (b\<lparr>queued := queued b - {#e#}\<rparr>)"
      if "c = Claim_invalid \<or> c = Claim_completed \<or> c = Ordered_wait"
    proof -
      have "bridge_step racing b (b\<lparr>ctl := s, queued := queued b - {#e#}\<rparr>)"
        by (rule bridge_step.acknowledges [OF b(1) c(1) that])
      then show ?thesis using b(2) by (simp add: k)
    qed
    then show ?thesis using r s b False by (cases c) (auto simp: stands_def holds_def settle_def)
  qed
qed

lemma stands_finish:
  assumes st: "stands racing e b0 (Working t) b h"
    and f: "finish_route a e t (bridge_clock b) (ctl b) = (answered, s)"
    and r: "r = route_answer answered \<or> r = Failed x"
  shows "stands racing e b0 (if r = Answered \<and> a \<noteq> Finish_retry then Over else Working t) (b\<lparr>ctl := s\<rparr>) h"
proof -
  have b: "h = Some t" "(e, t) \<in># working b" "(bridge_step racing)\<^sup>*\<^sup>* b0 b" using st by (auto simp: stands_def)
  have "bridge_step racing b (b\<lparr>ctl := s\<rparr>)"
  proof (cases "a = Finish_retry")
    case True
    then show ?thesis using f bridge_step.gives_back [OF b(2)] by (simp add: finish_route_def)
  next
    case False
    then show ?thesis using f bridge_step.finish_unheard [OF b(2)] by (simp add: finish_route_def)
  qed
  with b(3) have "(bridge_step racing)\<^sup>*\<^sup>* b0 (b\<lparr>ctl := s\<rparr>)" by simp
  then have working: "stands racing e b0 (Working t) (b\<lparr>ctl := s\<rparr>) h" using b by (simp add: stands_def)
  show ?thesis
  proof (cases "r = Answered \<and> a \<noteq> Finish_retry")
    case True
    then have "answered" using r by (auto simp: route_answer_def split: if_splits)
    then have "finishDelivery e t (a = Finish_fail) (bridge_clock b) (ctl b) = (True, s)" using f True by (simp add: finish_route_def)
    from bridge_step.finishes [OF b(2) this] have "bridge_step racing b (b\<lparr>ctl := s, working := working b - {#(e, t)#}\<rparr>)" .
    with b(3) have "(bridge_step racing)\<^sup>*\<^sup>* b0 (b\<lparr>ctl := s, working := working b - {#(e, t)#}\<rparr>)" by simp
    then show ?thesis using True b(1) by (simp add: stands_def settle_def)
  next
    case False then show ?thesis using working by auto
  qed
qed

definition on_course :: "bool \<Rightarrow> string \<Rightarrow> bridge \<Rightarrow> bridge \<times> string option \<times> decision main_io \<Rightarrow> bool" where
  "on_course racing e b0 = (\<lambda>(b, h, m). \<exists>q. follows (delivery_protocol e) m delivery_end q \<and> stands racing e b0 q b h)"

lemma on_course_next:
  assumes "follows (delivery_protocol e) (Call c k) delivery_end q"
  obtains q' where "delivery_protocol e q c r = Some q'" "follows (delivery_protocol e) (k r) delivery_end q'" "q \<noteq> Over"
proof -
  from assms have "case delivery_protocol e q c r of None \<Rightarrow> False | Some q' \<Rightarrow> follows (delivery_protocol e) (k r) delivery_end q'"
    by simp
  then obtain q' where "delivery_protocol e q c r = Some q'" "follows (delivery_protocol e) (k r) delivery_end q'"
    by (auto split: option.splits)
  moreover have "delivery_protocol e Over c r = None" by (cases c) (simp_all add: delivery_protocol_def)
  ultimately show ?thesis using that by fastforce
qed

lemma on_course_step:
  assumes "consumer_step racing e x y" "on_course racing e b0 x"
  shows "on_course racing e b0 y"
  using assms
proof (cases rule: consumer_step.cases)
  case (others b b' h c k)
  then obtain q where q: "follows (delivery_protocol e) (Call c k) delivery_end q" "stands racing e b0 q b h"
    using assms(2) by (auto simp: on_course_def)
  from q(1) have "q \<noteq> Over" by (rule on_course_next)
  then show ?thesis using q stands_moves others by (fastforce simp: on_course_def)
next
  case (not_sent b h c k z)
  then obtain q where q: "follows (delivery_protocol e) (Call c k) delivery_end q" "stands racing e b0 q b h"
    using assms(2) by (auto simp: on_course_def)
  from q(1) obtain q' where q': "delivery_protocol e q c (Failed z) = Some q'" "follows (delivery_protocol e) (k (Failed z)) delivery_end q'" "q \<noteq> Over"
    by (rule on_course_next)
  then have "q' = q \<or> q' = Unheard"
    by (auto simp: delivery_protocol_def split: call.splits phase.splits if_splits)
  then have "stands racing e b0 q' b h" using q(2) stands_holds [OF q(2) q'(3)] by (auto simp: stands_def)
  then show ?thesis using q' not_sent by (auto simp: on_course_def)
next
  case (claim token b c s h b' r z k)
  then obtain q where q: "follows (delivery_protocol e) (Call (Claim_delivery e) k) delivery_end q" "stands racing e b0 q b None"
    using assms(2) by (auto simp: on_course_def)
  from q(1) obtain q' where q': "delivery_protocol e q (Claim_delivery e) r = Some q'" "follows (delivery_protocol e) (k r) delivery_end q'"
    by (rule on_course_next)
  then have "q = Before" "q' = after_claim r" by (auto simp: delivery_protocol_def split: if_splits)
  then show ?thesis using q' q(2) stands_claim [OF _ claim(3,4,5)] claim(2) by (auto simp: on_course_def)
next
  case (finish a t b answered s r z h k)
  then obtain q where q: "follows (delivery_protocol e) (Call (Finish_delivery e t a) k) delivery_end q" "stands racing e b0 q b h"
    using assms(2) by (auto simp: on_course_def)
  from q(1) obtain q' where q': "delivery_protocol e q (Finish_delivery e t a) r = Some q'" "follows (delivery_protocol e) (k r) delivery_end q'"
    by (rule on_course_next)
  then have "q = Working t" "q' = (if r = Answered \<and> a \<noteq> Finish_retry then Over else Working t)"
    by (auto simp: delivery_protocol_def split: if_splits)
  then show ?thesis using q' q(2) stands_finish [OF _ finish(3,4)] finish(2) by (auto simp: on_course_def)
next
  case (calls c b h k r)
  then obtain q where q: "follows (delivery_protocol e) (Call c k) delivery_end q" "stands racing e b0 q b h"
    using assms(2) by (auto simp: on_course_def)
  from q(1) obtain q' where q': "delivery_protocol e q c r = Some q'" "follows (delivery_protocol e) (k r) delivery_end q'"
    by (rule on_course_next)
  then have "q' = q" using calls(3) by (auto simp: delivery_protocol_def split: call.splits phase.splits)
  then show ?thesis using q' q calls by (auto simp: on_course_def)
qed

lemma consumer_on_course:
  assumes "(consumer_step racing e)\<^sup>*\<^sup>* (b0, None, consume_event p now e) x" "e \<in># queued b0"
  shows "on_course racing e b0 x"
  using assms(1)
proof (induction rule: rtranclp_induct)
  case base
  show ?case unfolding on_course_def prod.case
    by (rule exI [of _ Before]) (simp add: stands_def consume_follows assms(2))
next
  case (step x y) then show ?case using on_course_step by blast
qed

lemma on_course_end:
  assumes "on_course racing e b0 (b, h, Return d)"
  shows "(bridge_step racing)\<^sup>*\<^sup>* b0 (settle e h d b)"
proof -
  from assms obtain q where q: "delivery_end q (Inr d)" "stands racing e b0 q b h" by (auto simp: on_course_def)
  show ?thesis
  proof (cases d)
    case Ack then show ?thesis using q by (auto simp: stands_def)
  next
    case (Again n)
    then have h: "holds e h b" "(bridge_step racing)\<^sup>*\<^sup>* b0 b" using q stands_holds by auto
    show ?thesis
    proof (cases h)
      case None then show ?thesis using h Again by (simp add: settle_def)
    next
      case (Some t)
      then have "bridge_step racing b (settle e h d b)"
        using h(1) Again bridge_step.crashes [of e t b racing] by (simp add: settle_def holds_def)
      with h(2) show ?thesis by simp
    qed
  qed
qed

subsection \<open>Sample runs\<close>

lemma replay_calls:
  assumes "replay m (es @ [(c, r)]) = Some (Inr d)" "list_all (\<lambda>(c, r). \<not> delivery_call c) es"
  shows "\<exists>k. (consumer_step racing e)\<^sup>*\<^sup>* (b, h, m) (b, h, Call c k) \<and> k r = Return d"
  using assms
proof (induction es arbitrary: m)
  case Nil
  then obtain k where k: "m = Call c k" "replay (k r) [] = Some (Inr d)" by (cases m) (auto split: if_splits)
  then have "k r = Return d" by (cases "k r") simp_all
  then show ?case using k(1) by auto
next
  case (Cons x es)
  obtain c' r' where x: "x = (c', r')" by (cases x)
  from Cons.prems(1) obtain k where k: "m = Call c' k" "replay (k r') (es @ [(c, r)]) = Some (Inr d)"
    by (cases m) (auto simp: x split: if_splits)
  from Cons.IH [OF k(2)] Cons.prems(2) obtain k' where
    k': "(consumer_step racing e)\<^sup>*\<^sup>* (b, h, k r') (b, h, Call c k')" "k' r = Return d" by auto
  have "consumer_step racing e (b, h, m) (b, h, k r')" unfolding k(1)
    by (rule consumer_step.calls) (use Cons.prems(2) x in simp)
  with k' show ?case by (meson converse_rtranclp_into_rtranclp)
qed

lemma replay_delivery:
  assumes run: "replay m ((Claim_delivery e, Claim_answer (Claimed t p)) # es @ [(Finish_delivery e t a, Answered)]) = Some (Inr d)"
    and quiet: "list_all (\<lambda>(c, r). \<not> delivery_call c) es"
    and claim: "claimDelivery e t (bridge_clock b) (ctl b) = (Claimed t p, s)"
    and finish: "finish_route a e t (bridge_clock b) s = (True, s')"
  shows "(consumer_step racing e)\<^sup>*\<^sup>* (b, None, m)
    (b\<lparr>queued := queued b - {#e#}, working := working b + {#(e, t)#}, ctl := s'\<rparr>, Some t, Return d)"
proof -
  let ?b = "b\<lparr>ctl := s, queued := queued b - {#e#}, working := working b + {#(e, t)#}\<rparr>"
  let ?r = "Claim_answer (Claimed t p)"
  from run obtain k where k: "m = Call (Claim_delivery e) k" "replay (k ?r) (es @ [(Finish_delivery e t a, Answered)]) = Some (Inr d)"
    by (cases m) (auto split: if_splits)
  have 1: "consumer_step racing e (b, None, m) (?b, Some t, k ?r)" unfolding k(1)
    by (rule consumer_step.claim [OF claim]) (simp_all add: claimed_now_def)
  obtain k' where k': "(consumer_step racing e)\<^sup>*\<^sup>* (?b, Some t, k ?r) (?b, Some t, Call (Finish_delivery e t a) k')"
      "k' Answered = Return d"
    using replay_calls [OF k(2) quiet] by blast
  have 2: "consumer_step racing e (?b, Some t, Call (Finish_delivery e t a) k') (?b\<lparr>ctl := s'\<rparr>, Some t, Return d)"
    unfolding k'(2) [symmetric] by (rule consumer_step.finish [where answered = True]) (simp_all add: finish route_answer_def)
  have "?b\<lparr>ctl := s'\<rparr> = b\<lparr>queued := queued b - {#e#}, working := working b + {#(e, t)#}, ctl := s'\<rparr>" by simp
  with 2 have "consumer_step racing e (?b, Some t, Call (Finish_delivery e t a) k')
    (b\<lparr>queued := queued b - {#e#}, working := working b + {#(e, t)#}, ctl := s'\<rparr>, Some t, Return d)" by (rule back_subst)
  with k'(1) have "(consumer_step racing e)\<^sup>*\<^sup>* (?b, Some t, k ?r)
    (b\<lparr>queued := queued b - {#e#}, working := working b + {#(e, t)#}, ctl := s'\<rparr>, Some t, Return d)"
    by (rule rtranclp.rtrancl_into_rtrancl)
  with 1 show ?thesis by (rule converse_rtranclp_into_rtranclp)
qed

text \<open>The delivery of the sample run, which is accepted.\<close>

definition sample_platform :: platform where
  "sample_platform = \<lparr>parse_json = (\<lambda>_. Some (JObj [(''schema_version'', JNum 1), (''guild_id'', JStr ''g''), (''guild_name'', JStr ''G''),
     (''application_id'', JStr ''a''), (''status'', JStr ''pending_channel''), (''message_content_mode'', JStr ''full'')])),
     parse_url = (\<lambda>u. Some \<lparr>url_protocol = ''https:'', url_hostname = ''cdn.discordapp.com'', url_pathname = ''/attachments/1'', url_href = u\<rparr>),
     nfkc = (\<lambda>s. s), letter_or_number = (\<lambda>c. c \<noteq> [SPACE])\<rparr>"

definition sample_delivery :: delivery_message where
  "sample_delivery = \<lparr>discordMessageId = ''m1'', guildId = ''g'', channelId = ''c'', parentChannelId = ''c'', message_thread = None,
     integrationId = ''i'', orgId = ''o'', workspaceId = ''w'', bindingVersion = 1, message_ordinal = 1, content = unit_string ''hi'',
     messageType = 0, message_author = \<lparr>author_id = ''u'', author_username = None, author_global = None, author_nick = None\<rparr>,
     message_mentions = [\<lparr>mention_id = ''bot'', mention_username = None, mention_global = None\<rparr>], message_attachments = [],
     message_timestamp = None, message_mode = Full, starter = True\<rparr>"

definition sample_integration :: integration where
  "sample_integration = \<lparr>integration_type = ''discord_channel'', integration_config = ''config'', credentials_encrypted = [], created_by = ''owner''\<rparr>"

definition sample_calls :: "(call \<times> answer) list" where
  "sample_calls =
     [(Kv_get ''ban:org:id:o'', Text_answer None), (Get_workspace_record ''o'' ''w'', Workspace_answer (Some False)),
      (Get_workspace_integration ''o'' ''w'' ''i'', Integration_answer (Some sample_integration)),
      (Kv_get ''channel_event:discord:w:m1'', Text_answer None),
      (Kv_put ''channel_event:discord:w:m1'' ''processing'' (Some 86400), Answered),
      (Start_thread_from_message ''i'' ''c'' ''m1'' (unit_string ''hi'') ''discord-starter:m1'', Text_answer (Some ''m1'')),
      (Kv_get ''channel_thread:discord:w:i:g:m1'', Text_answer (Some ''th'')),
      (Get_thread ''o'' ''th'', Thread_answer (Some \<lparr>thread_title = [], thread_kind = None, thread_connection = None,
         thread_conversation = None, thread_created_by = []\<rparr>)),
      (Get_connection ''w'' ''i'', Integration_answer (Some sample_integration)),
      (Kv_get ''channel_thread_rehomed:th'', Text_answer None),
      (Start_runtime_turn ''o'' ''w'' \<lparr>turn_thread = ''th'', turn_kind = ''discord'', turn_user = Some ''owner'', turn_user_name = ''Discord user u'',
         turn_email = None, turn_system = unit_string (buildChannelReplySystemMessage ''discord'' None True), turn_message = unit_string ''hi'',
         turn_client_id = ''discord:m1''\<rparr>, Turn_answer (Some Turn_accepted)),
      (Kv_put ''channel_event:discord:w:m1'' ''done'' (Some 86400), Answered)]"

lemma sample_texts:
  "normalizeDiscordMessage sample_delivery None = unit_string ''hi''"
  "discordThreadTitle (unit_string ''hi'') = unit_string ''hi''"
  "discordAuthorName sample_delivery = ''Discord user u''"
  "appendDiscordAttachmentNotes (unit_string ''hi'') [] [] = unit_string ''hi''"
  "unit_string ''hi'' \<noteq> []"
  by code_simp+

lemma sample_keys:
  "getChannelDedupeKey ''discord'' ''w'' ''m1'' = ''channel_event:discord:w:m1''"
  "getChannelThreadMapKey \<lparr>ca_kind = ''discord'', ca_workspace = ''w'', ca_org = ''o'', ca_conversation = ''g:m1'', ca_connection = Some ''i''\<rparr> =
    ''channel_thread:discord:w:i:g:m1''"
  by code_simp+

lemma sample_config_valid: "valid_channel_config (JObj [(''schema_version'', JNum 1), (''guild_id'', JStr ''g''), (''guild_name'', JStr ''G''),
     (''application_id'', JStr ''a''), (''status'', JStr ''pending_channel''), (''message_content_mode'', JStr ''full'')])"
  by code_simp

lemma sample_fields:
  "message_attachments sample_delivery = []" "starter sample_delivery" "orgId sample_delivery = ''o''" "workspaceId sample_delivery = ''w''"
  "integrationId sample_delivery = ''i''" "discordMessageId sample_delivery = ''m1''" "parentChannelId sample_delivery = ''c''"
  "guildId sample_delivery = ''g''"
  by (simp_all add: sample_delivery_def)

lemmas consumer_evaluation = sample_calls_def consume_event_def ask_def processClaimedDelivery_def validateDelivery_def isOrgBanned_def
  getOrgBanById_def getOrgBanIdKey_def sample_fields safeParseBanRecord_def non_empty_text_def sample_integration_def
  parseDiscordChannelConfig_def or_text_def sample_platform_def sample_config_valid discord_dedupe_key_def sample_keys perform_def
  DISCORD_DEDUPE_TTL_SECONDS_def process_message_def bot_user_def sample_texts thread_of_message_def process_in_thread_def
  ingestDiscordAttachments_def enqueue_delivery_def getOrCreateChannelThread_def enqueueChannelMessage_def with_owner_def
  channelConnectionOwner_def opt_text_def rehomedThreadId_def rehomedThreadKey_def start_turn_def turn_of_def done_and_finish_def
  finish_as_def channel_address.defs js_trim_def is_js_space_def Let_def

lemma sample_replay:
  "replay (consume_event sample_platform 0 ''e1'')
     ((Claim_delivery ''e1'', Claim_answer (Claimed ''t1'' (Message sample_delivery))) # sample_calls @
      [(Finish_delivery ''e1'' ''t1'' Finish_complete, Answered)]) = Some (Inr Ack)"
  by (simp add: consumer_evaluation cong: lazy_io)

text \<open>
  When the turn has been started and the end of the delivery gets lost, the marker that the message has been
  handled is deleted and the message comes back: then only the request id keeps a second turn from starting.
\<close>

lemma sample_marker_deleted:
  "replay (consume_event sample_platform 0 ''e1'')
     ((Claim_delivery ''e1'', Claim_answer (Claimed ''t1'' (Message sample_delivery))) # sample_calls @
      [(Finish_delivery ''e1'' ''t1'' Finish_complete, Failed (Error_thrown ''network'')),
       (Kv_delete ''channel_event:discord:w:m1'', Answered), (Finish_delivery ''e1'' ''t1'' Finish_retry, Answered)]) = Some (Inr (Again None))"
  by (simp add: consumer_evaluation give_up_or_retry_def is_bridge_failure_def ignoring_def cong: lazy_io)

lemma sample_delivered:
  "fst sample_claimed = Claimed ''t1'' (Message sample_delivery)"
  "fst (finishDelivery ''e1'' ''t1'' False 0 (snd sample_claimed))"
  by code_simp+

definition sample_completed :: bridge where
  "sample_completed = sample_published\<lparr>queued := {#}, working := {#(''e1'', ''t1'')#},
     ctl := snd (finishDelivery ''e1'' ''t1'' False 0 (snd sample_claimed))\<rparr>"

lemma sample_consumer:
  "(consumer_step racing ''e1'')\<^sup>*\<^sup>* (sample_published, None, consume_event sample_platform 0 ''e1'') (sample_completed, Some ''t1'', Return Ack)"
proof -
  have c: "claimDelivery ''e1'' ''t1'' (bridge_clock sample_published) (ctl sample_published) =
      (Claimed ''t1'' (Message sample_delivery), snd sample_claimed)"
    using sample_delivered(1) by (simp add: sample_published_def sample_state_def sample_claimed_def prod_eq_iff)
  have f: "finish_route Finish_complete ''e1'' ''t1'' (bridge_clock sample_published) (snd sample_claimed) = (True, ctl sample_completed)"
    using sample_delivered(2)
    by (simp add: finish_route_def sample_published_def sample_state_def sample_completed_def prod_eq_iff)
  have "sample_published\<lparr>queued := queued sample_published - {#''e1''#}, working := working sample_published + {#(''e1'', ''t1'')#},
      ctl := ctl sample_completed\<rparr> = sample_completed"
    by (simp add: sample_completed_def sample_published_def sample_state_def)
  with replay_delivery [OF sample_replay _ c f, of racing] show ?thesis by (simp add: sample_calls_def)
qed

subsection \<open>The property\<close>

text \<open>
  C13: The consumer, with its calls answered in any way or lost, and with everything else going on between them,
  does nothing but steps of the system of the bridge, and never fails: when it has handled its message, the
  system is one that a run of these steps reaches, the message being gone when it is acknowledged and back in
  the queue otherwise. So an acknowledged message has been ended at the control object, or has no turn, and the
  properties of the deliveries hold of this code.
\<close>

theorem consumer_implements_steps:
  assumes "e \<in># queued b0" and "(consumer_step racing e)\<^sup>*\<^sup>* (b0, None, consume_event p now e) (b, h, m)"
  shows "(\<forall>x. m \<noteq> Throw x) \<and> (\<forall>d. m = Return d \<longrightarrow> (bridge_step racing)\<^sup>*\<^sup>* b0 (settle e h d b))"
proof -
  have c: "on_course racing e b0 (b, h, m)" using consumer_on_course [OF assms(2,1)] .
  then have "m \<noteq> Throw x" for x by (auto simp: on_course_def)
  moreover have "(bridge_step racing)\<^sup>*\<^sup>* b0 (settle e h d b)" if "m = Return d" for d
    using c on_course_end that by blast
  ultimately show ?thesis by blast
qed

theorem consumer_implements_steps_witness:
  "(bridge_step False)\<^sup>*\<^sup>* sample_published (settle ''e1'' (Some ''t1'') Ack sample_completed)"
  using consumer_implements_steps [OF _ sample_consumer [of False]] by (simp add: sample_published_def sample_state_def)

end
