(* ===== verification/Spec2Isabelle.thy ===== *)
theory Spec2Isabelle
  imports CronLanguage MirrorSystem SandboxPlacement SandboxDeadline
    UsageGuardSafety UsageQuarantine TextEditSafety UsageControlsSafety AutomationAlarm
    DiscordTextSafety DiscordGatewaySafety DiscordDeliverySafety DiscordDeliverySample DiscordChannels
    ChannelSafety DiscordAttachments DiscordConsumerSystem
begin

text \<open>
  \<^bold>\<open>Verification library of the camelAI platform.\<close>

  camelAI lets the members of an organization build and run applications in workspaces. Its backend is a
  set of Cloudflare workers: the main worker (\<open>src/workers/main\<close>) with Durable Objects for users,
  organizations, workspaces, chat threads and sandboxes; a D1 index of what they hold; the usage guard
  (\<open>src/workers/app-usage-guard\<close>), which suspends deployed applications that cost too much; and the
  dispatcher (\<open>src/workers/dispatcher\<close>), which routes requests to deployed applications. A Durable Object
  is single-threaded between two awaits, and other requests run at each await: this is where most of the
  properties below get their content.

  \<^bold>\<open>Conventions.\<close> Every theory follows one or a few source files and keeps their names. A class's
  storage is a record, a table is a list of rows with their keys (or a map, where no order matters), an SQL
  statement is an update of that list. A \<open>throw\<close> is a value of a sum type, \<open>null\<close> and
  \<open>undefined\<close> are \<open>None\<close>. Times are integers, milliseconds since the epoch; every reading of the
  clock and every random number or identifier is an argument. Numbers of the source that are not integers
  are exact rationals, not doubles. Strings are lists of characters, or of 16-bit code units where the code
  works on them (\<open>TextEdit\<close>). An operation that awaits takes what the awaited service answers and a
  function saying what the rest of the system does meanwhile.

  \<^bold>\<open>Shared.\<close> \<open>Prelude\<close> has the collections of facts, the JavaScript string operations (\<open>trim\<close>,
  \<open>split\<close>, \<open>parseInt\<close>, the whitespace classes), results and lists. \<open>Json\<close> has parsed JSON as the
  code inspects it. \<open>Calendar\<close> has the arithmetic behind the \<open>Date\<close> methods, with a locale
  \<open>time_unit\<close> interpreted for minutes, hours, days and months.

  \<^bold>\<open>Schedules\<close> (\<open>workers/main/src/cron-schedule.ts\<close>). \<open>CronSchedule\<close> models the parser
  (\<open>parseCronExpression\<close>), the matcher and the search for the next run with its jumps
  (\<open>getNextCronRunAt\<close>, searching five years of 366 days as the code does); its loop ends by a measure.
  \<open>CronLanguage\<close> gives expressions an abstract syntax with a meaning of its own and proves that the
  parser accepts exactly the well-formed ones and that the search returns the first matching minute.

  \<^bold>\<open>Automations\<close> (\<open>workers/main/src/workspace-cron.ts\<close>, \<open>lib/billing-plans.ts\<close>).
  \<open>BillingPlans\<close> has the plans, their limits and the seats an organization pays for. \<open>Automations\<close> has
  the tables of a \<open>WorkspaceCronDO\<close> and the statements on them, \<open>AutomationOps\<close> one definition per
  operation: creating, editing, deleting, listing and running automations, the result of a run, and
  the alarm handler with the jobs it starts. \<open>AutomationInvariant\<close> proves that every completed operation
  and every alarm leaves an alarm no later than the earliest enabled run (\<open>cron_run\<close> is any sequence of
  them, interleaved at their awaits; the locale \<open>run_times\<close> states what is used of the search for the
  next run and is interpreted on it). \<open>AutomationSafety\<close> has how results reach
  the summary of an automation, paging through the history, and what can go wrong: the handler overwrites an
  owner's edit, a failed lookup stops it, and the plan's interval is compared with one gap only.
  \<open>AutomationAlarm\<close> has what an alarm starts: which turns and workflows are asked for, and which rows the
  run history gets.

  \<^bold>\<open>Mirror of identities\<close> (\<open>identity/d1-mirror-outbox.ts\<close>, \<open>app-index-db.ts\<close>,
  \<open>identity/user-do.ts\<close>, \<open>identity/org-do.ts\<close>). \<open>MirrorOutbox\<close> has the outbox table, its version
  clock, alarm and drain. \<open>MirrorIndex\<close> has the version ledger and the guarded writes of the index; its
  locale \<open>versioned_mirror\<close> says that the newest delivered version of an entity wins whatever the order.
  Of a thread's row it has the columns copied from the event.
  \<open>MirrorSystem\<close> composes both: writers mark entities dirty while drains run, and once the outbox is empty
  the index shows the latest facts (locale \<open>mirrored_entities\<close>, interpreted on the organization's
  entities). Two overlapping drains can lose an update; one of the theorems is a run that does.

  \<^bold>\<open>Sandboxes\<close> (\<open>sandbox-placement.ts\<close>, \<open>sandbox-exec-deadline.ts\<close>). \<open>SandboxPlacement\<close> has
  the generations of a sandbox: an object whose container fails to start is retired and the calls follow to
  its successor; the inductive \<open>sandbox_step\<close> has every interleaving. \<open>SandboxDeadline\<close> bounds the time
  a command may take.

  \<^bold>\<open>Usage guard\<close> (\<open>app-usage-guard/src\<close>, \<open>usage-guard-state.ts\<close>, \<open>usage-guard-config.ts\<close>,
  \<open>services/deploy.ts\<close>, \<open>dispatcher/src/index.ts\<close>). \<open>UsageLease\<close> has the leases and the waiting
  loop (a \<open>partial_function (option)\<close>, proved to end), \<open>UsagePolicy\<close> the analytics and the decision,
  \<open>UsageGuard\<close> and \<open>UsageGuardSafety\<close> the scheduled run, suspension, probation and exemption with the
  races between them, \<open>UsageQuarantine\<close> the replacement of a script.

  \<^bold>\<open>Editing files\<close> (\<open>text-edit.ts\<close>). \<open>TextEdit\<close> and \<open>TextEditSafety\<close>: matching of the old
  texts, exact or after normalization, the replacement, line endings, and the numbered diff.

  \<^bold>\<open>Model usage\<close> (\<open>lib/usage-pricing.ts\<close>, \<open>identity/org/usage-controls.ts\<close>, \<open>identity/usage.ts\<close>).
  \<open>UsagePricing\<close> has the price table and the cost of a usage, \<open>UsageControls\<close> and
  \<open>UsageControlsSafety\<close> the limits of users: their validation, the decision whether a call may run, and the
  time at which a blocked user may retry.

  \<^bold>\<open>Discord\<close> (\<open>workers/discord-bridge/src\<close>). \<open>DiscordText\<close> and \<open>DiscordTextSafety\<close> have
  the answers to closed connections, the delays, and the splitting of a long message into chunks, with the
  texts on which it never ends. \<open>DiscordGateway\<close> has the object that holds the connection to Discord, cut
  at its awaits. \<open>DiscordGatewayInvariant\<close> is Discord's side of the protocol (sessions, numbered dispatches,
  resumption) and the step relation \<open>gateway_step\<close> of both; a link of the chain of dispatches may start, be
  answered or fail at any moment, also after its connection has closed. Its invariant gives, in
  \<open>DiscordGatewaySafety\<close>, that no Resume skips a dispatch the control object has not handled, that there is
  one live socket, and that a lost connection is taken up again. Generations are counted on when the object
  is recreated, which keeps the sockets apart.

  \<open>DiscordPermissions\<close> (\<open>discord-permissions.ts\<close>) has what the bot may do in a channel. \<open>DiscordControl\<close> and
  \<open>DiscordDelivery\<close> have the control object (\<open>discord-control-do.ts\<close>): its tables as association lists in one
  record, and one definition per operation, or one for each stretch between two of its awaits. \<open>DiscordDeliveryInvariant\<close> and
  \<open>DiscordDeliveryPlaces\<close> have the invariant of the outbox: places in a conversation are taken once and in the
  order of time, and only the next of a conversation is leased. \<open>DiscordDeliverySystem\<close> is the step relation of
  the object, the queue, its dead letters, the consumer of the main worker, the alarm and the cron trigger, with
  restarts and failing calls at any moment; \<open>DiscordDeliverySample\<close> a run of it. \<open>DiscordChannels\<close> shows
  that channels are never shared, \<open>DiscordDeliverySafety\<close> order, exclusion, routing and that nothing is forgotten
  unless the queue's answer races with its consumers; for that race it has the run after which a conversation
  stands still for a day. Assumed of Discord are new ids for new messages and threads; of a sweep, that no more
  than its limit of 100 deliveries have expired; and that a message is not sent again after its row was deleted.

  \<^bold>\<open>Programs and their calls.\<close> \<open>Effects\<close> has asynchronous functions as trees: a program returns,
  throws, or calls a service and goes on with its answer. \<open>replay\<close> runs it against given answers, \<open>run_with\<close>
  against a service with a state and with faults, and \<open>follows\<close> states what a protocol allows it, with one rule
  for each way of composing programs. \<open>MainServices\<close> lists the calls of the main worker, and has the reading of
  bans (\<open>ban-list.ts\<close>) as its first programs. Two reads that the code awaits together are made one after the
  other, in its order.

  \<^bold>\<open>Channels\<close> (\<open>workers/main/src/channels.ts\<close>). \<open>ChannelTexts\<close> has the keys of conversations and
  messages, the instruction how to reply, and the headers of a mail that answers. \<open>ChannelThreads\<close> has the
  thread of a conversation and the start of a turn for a message, with the move of a conversation whose thread the
  agent runtime can never take. \<open>ChannelSafety\<close> runs them against a store: a conversation keeps its thread,
  moves once, and the headers are short and hold no line break.

  \<^bold>\<open>The consumer of the Discord events\<close> (\<open>workers/main/src/discord-events-queue.ts\<close>, the configuration
  of \<open>discord-types.ts\<close>, \<open>lib/workspace-r2-paths.ts\<close>). \<open>DiscordConsumer\<close> has it whole, with the replacement
  patterns of JavaScript in the names of mentioned members. \<open>DiscordAttachments\<close> shows that no more than 25 MiB
  of a message are stored, that every attachment is kept or explained, and that a second run after an interruption
  ends as an undisturbed one. \<open>DiscordConsumerSystem\<close> puts the program beside the control object, with its
  calls lost or unheard and everything else running between them, and proves that it does only steps of
  \<open>DiscordDeliverySystem\<close>: what is proved there of deliveries holds of this code.

  \<^bold>\<open>What is a parameter.\<close> \<open>JSON.parse\<close>, Unicode normalization, the \<open>diff\<close> package, the answers of
  the Cloudflare interfaces (analytics, script upload, workflows, alarms firing), of other Durable Objects
  and of the agent runtime, clocks, random numbers, and what other operations do at an await; for the channels also
  \<open>new URL\<close>, the classes of letters and numbers, and the choice of a thread's default model.

  \<^bold>\<open>Not modelled.\<close> Pages, components and styling of the web application; routes that only check, call and
  render; tables that are generated; tests, scripts and infrastructure. The manifest lists every part.
\<close>

end
